(* ===== verification/Prelude.thy ===== *)
theory Prelude
  imports Main "HOL-Library.AList" "HOL-Library.Multiset"
begin

section \<open>Prelude: the Python data the components share\<close>

text \<open>
  What every component of the orchestration core is built from: exceptions as values of a
  sum type, \<open>dict\<close> as an association list in insertion order (the library's \<^const>\<open>AList.update\<close>
  keeps the position of an existing key and appends a new one, as Python does), \<open>set\<close> as a
  duplicate-free list, an index (\<open>dict\<close> of \<open>set\<close>) over a primary \<open>dict\<close> of objects, and the
  dynamically typed values that payloads carry.  The order in which Python iterates a
  \<open>set\<close> is unspecified; the lists that model sets pick insertion order and every statement
  about them is about membership and multiplicity only.
\<close>

named_theorems dict_simps \<open>look-up after an update of a dict, a set or an index\<close>
named_theorems frame_simps \<open>fields that an operation leaves alone\<close>

subsection \<open>Exceptions\<close>

text \<open>
  The exceptions the modelled code raises.  \<open>CallbackError\<close> is an exception that a handler
  supplied by the caller raises.  \<open>Unmodelled\<close> marks a conversion of the standard library
  whose result the model does not compute (the text of a container, a timestamp that is not
  in the format \<open>isoformat\<close> writes): no theorem says anything about such a result.
\<close>

datatype py_error =
    ValueError string
  | RuntimeError string
  | KeyError string
  | TypeError string
  | AttributeError string
  | OverflowError
  | CallbackError string
  | Unmodelled string

type_synonym 'a result = "py_error + 'a"

definition is_ok :: "'a result \<Rightarrow> bool" where
  "is_ok r = (case r of Inl _ \<Rightarrow> False | Inr _ \<Rightarrow> True)"

lemma is_ok_simps [simp]: "\<not> is_ok (Inl e)" "is_ok (Inr x)"
  by (simp_all add: is_ok_def)

text \<open>Sequencing of fallible steps, and its iteration over a list.\<close>

definition bindr :: "'a result \<Rightarrow> ('a \<Rightarrow> 'b result) \<Rightarrow> 'b result" where
  "bindr r f = (case r of Inl e \<Rightarrow> Inl e | Inr x \<Rightarrow> f x)"

lemma bindr_simps [simp]: "bindr (Inl e) f = Inl e" "bindr (Inr x) f = f x"
  by (simp_all add: bindr_def)

lemma bindr_eq_Inr: "bindr r f = Inr y \<longleftrightarrow> (\<exists>x. r = Inr x \<and> f x = Inr y)"
  by (cases r) auto

fun mapr :: "('a \<Rightarrow> 'b result) \<Rightarrow> 'a list \<Rightarrow> 'b list result" where
  "mapr f [] = Inr []"
| "mapr f (x # xs) = bindr (f x) (\<lambda>y. bindr (mapr f xs) (\<lambda>ys. Inr (y # ys)))"

lemma mapr_all_Inr:
  assumes "\<And>x. x \<in> set xs \<Longrightarrow> f x = Inr (g x)"
  shows "mapr f xs = Inr (map g xs)"
  using assms by (induction xs) auto

text \<open>Reading a store after a write, at an address that exists.\<close>

lemma nth_update_in: "j < length xs \<Longrightarrow> xs[i := x] ! j = (if i = j then x else xs ! j)"
  by (cases "i = j") auto

subsection \<open>Dicts\<close>

type_synonym ('k, 'v) dict = "('k \<times> 'v) list"

abbreviation dget :: "('k, 'v) dict \<Rightarrow> 'k \<Rightarrow> 'v option" where
  "dget d k \<equiv> map_of d k"

abbreviation dset :: "'k \<Rightarrow> 'v \<Rightarrow> ('k, 'v) dict \<Rightarrow> ('k, 'v) dict" where
  "dset k v d \<equiv> AList.update k v d"

abbreviation ddel :: "'k \<Rightarrow> ('k, 'v) dict \<Rightarrow> ('k, 'v) dict" where
  "ddel k d \<equiv> AList.delete k d"

abbreviation dkeys :: "('k, 'v) dict \<Rightarrow> 'k list" where
  "dkeys d \<equiv> map fst d"

abbreviation dvals :: "('k, 'v) dict \<Rightarrow> 'v list" where
  "dvals d \<equiv> map snd d"

abbreviation dict_ok :: "('k, 'v) dict \<Rightarrow> bool" where
  "dict_ok d \<equiv> distinct (map fst d)"

definition dget_or :: "('k, 'v) dict \<Rightarrow> 'k \<Rightarrow> 'v \<Rightarrow> 'v" where
  "dget_or d k v = (case dget d k of None \<Rightarrow> v | Some w \<Rightarrow> w)"

definition has_key :: "('k, 'v) dict \<Rightarrow> 'k \<Rightarrow> bool" where
  "has_key d k = (dget d k \<noteq> None)"

text \<open>\<open>d.update(e)\<close>: the entries of \<open>e\<close>, in order, written into \<open>d\<close>.\<close>

definition dupdate :: "('k, 'v) dict \<Rightarrow> ('k, 'v) dict \<Rightarrow> ('k, 'v) dict" where
  "dupdate d e = fold (\<lambda>(k, v) acc. dset k v acc) e d"

lemma dget_dset [simp, dict_simps]: "dget (dset k v d) k' = (if k' = k then Some v else dget d k')"
  by (simp add: update_conv')

lemma dget_ddel [simp, dict_simps]: "dget (ddel k d) k' = (if k' = k then None else dget d k')"
  by (simp add: delete_conv')

lemma dict_ok_dset [simp]: "dict_ok d \<Longrightarrow> dict_ok (dset k v d)"
  by (simp add: distinct_update)

lemma dict_ok_ddel [simp]: "dict_ok d \<Longrightarrow> dict_ok (ddel k d)"
  by (simp add: distinct_delete)

lemma dkeys_dset: "set (dkeys (dset k v d)) = insert k (set (dkeys d))"
  by (induction d) auto

lemma has_key_iff: "has_key d k \<longleftrightarrow> k \<in> set (dkeys d)"
  by (simp add: has_key_def map_of_eq_None_iff)

lemma dvals_dget: "dict_ok d \<Longrightarrow> v \<in> set (dvals d) \<longleftrightarrow> (\<exists>k. dget d k = Some v)"
  by (force simp: image_iff)

lemma dget_dvals: "dget d k = Some v \<Longrightarrow> v \<in> set (dvals d)"
  by (force simp: image_iff dest: map_of_SomeD)

lemma dget_dkeys: "dget d k = Some v \<Longrightarrow> k \<in> set (dkeys d)"
  by (metis map_of_eq_None_iff list.set_map option.distinct(1))

lemma length_dset: "length (dset k v d) = (if has_key d k then length d else Suc (length d))"
  by (induction d) (auto simp: has_key_def)

lemma length_ddel_present:
  "dict_ok d \<Longrightarrow> dget d k = Some v \<Longrightarrow> Suc (length (ddel k d)) = length d"
proof (induction d)
  case Nil
  then show ?case by simp
next
  case (Cons p d)
  show ?case
  proof (cases "fst p = k")
    case True
    with Cons.prems(1) have "k \<notin> set (dkeys d)" by auto
    then have "ddel k d = d" by (simp add: delete_idem)
    with True show ?thesis by simp
  next
    case False
    with Cons.prems have "dict_ok d" "dget d k = Some v" by auto
    with Cons.IH False show ?thesis by simp
  qed
qed

lemma dset_new: "dget d k = None \<Longrightarrow> dset k v d = d @ [(k, v)]"
  by (induction d) (auto split: if_splits)

lemma length_card_dom: "dict_ok d \<Longrightarrow> length d = card (dom (dget d))"
  by (metis dom_map_of_conv_image_fst distinct_card length_map set_map)

lemma dget_dupdate:
  "dget (dupdate d e) k = (case dget (rev e) k of None \<Rightarrow> dget d k | Some v \<Rightarrow> Some v)"
proof (induction e arbitrary: d)
  case Nil
  then show ?case by (simp add: dupdate_def)
next
  case (Cons p e)
  have step: "dupdate d (p # e) = dupdate (dset (fst p) (snd p) d) e"
    by (simp add: dupdate_def split: prod.splits)
  show ?case
    by (simp add: step Cons.IH map_of_append map_add_def split: option.splits)
qed

lemma dget_rev: "dict_ok d \<Longrightarrow> dget (rev d) k = dget d k"
proof (induction d)
  case (Cons p d)
  then have "fst p = k \<Longrightarrow> dget d k = None" by (auto simp: map_of_eq_None_iff)
  with Cons show ?case by (cases p) (auto simp: map_add_def split: option.splits)
qed simp

lemma dict_ok_dupdate: "dict_ok d \<Longrightarrow> dict_ok (dupdate d e)"
  by (induction e arbitrary: d) (auto simp: dupdate_def)

subsection \<open>Sets and indexes\<close>

definition sadd :: "'a \<Rightarrow> 'a list \<Rightarrow> 'a list" where
  "sadd x xs = (if x \<in> set xs then xs else xs @ [x])"

abbreviation sdiscard :: "'a \<Rightarrow> 'a list \<Rightarrow> 'a list" where
  "sdiscard x xs \<equiv> removeAll x xs"

lemma set_sadd [simp]: "set (sadd x xs) = insert x (set xs)"
  by (auto simp: sadd_def)

lemma distinct_sadd [simp]: "distinct (sadd x xs) = distinct xs"
  by (auto simp: sadd_def)

lemma sadd_idem [simp]: "sadd x (sadd x xs) = sadd x xs"
  by (simp add: sadd_def)

text \<open>
  An index maps a key to the set of ids filed under it: \<open>index.get(k, set())\<close>,
  \<open>index.setdefault(k, set()).add(i)\<close> (also spelled as a membership test followed by the
  insertion of an empty set), \<open>if k in index: index[k].discard(i)\<close>, and the variant on a
  \<open>defaultdict(set)\<close>, which files an empty set when the key is absent.
\<close>

type_synonym ('k, 'i) index = "('k, 'i list) dict"

definition idx_get :: "('k, 'i) index \<Rightarrow> 'k \<Rightarrow> 'i list" where
  "idx_get ix k = dget_or ix k []"

definition idx_add :: "'k \<Rightarrow> 'i \<Rightarrow> ('k, 'i) index \<Rightarrow> ('k, 'i) index" where
  "idx_add k i ix = dset k (sadd i (idx_get ix k)) ix"

definition idx_discard :: "'k \<Rightarrow> 'i \<Rightarrow> ('k, 'i) index \<Rightarrow> ('k, 'i) index" where
  "idx_discard k i ix =
     (case dget ix k of None \<Rightarrow> ix | Some ids \<Rightarrow> dset k (sdiscard i ids) ix)"

definition idx_discard_default :: "'k \<Rightarrow> 'i \<Rightarrow> ('k, 'i) index \<Rightarrow> ('k, 'i) index" where
  "idx_discard_default k i ix = dset k (sdiscard i (idx_get ix k)) ix"

lemma idx_get_add [simp, dict_simps]:
  "idx_get (idx_add k i ix) k' = (if k' = k then sadd i (idx_get ix k) else idx_get ix k')"
  by (simp add: idx_get_def idx_add_def dget_or_def)

lemma idx_get_discard [simp, dict_simps]:
  "idx_get (idx_discard k i ix) k' = (if k' = k then sdiscard i (idx_get ix k) else idx_get ix k')"
  by (simp add: idx_get_def idx_discard_def dget_or_def split: option.splits)

lemma idx_get_discard_default [simp, dict_simps]:
  "idx_get (idx_discard_default k i ix) k' =
     (if k' = k then sdiscard i (idx_get ix k) else idx_get ix k')"
  by (simp add: idx_get_def idx_discard_default_def dget_or_def)

lemma idx_get_Nil [simp]: "idx_get [] k = []"
  by (simp add: idx_get_def dget_or_def)

lemma idx_get_fold_add [dict_simps]:
  "idx_get (fold (\<lambda>t ix. idx_add t i ix) ts ix) k =
     (if k \<in> set ts then sadd i (idx_get ix k) else idx_get ix k)"
  by (induction ts arbitrary: ix) auto

lemma idx_get_fold_discard [dict_simps]:
  "idx_get (fold (\<lambda>t ix. idx_discard_default t i ix) ts ix) k =
     (if k \<in> set ts then sdiscard i (idx_get ix k) else idx_get ix k)"
  by (induction ts arbitrary: ix) auto

text \<open>\<open>[objs[i] for i in ids if i in objs]\<close>\<close>

definition select :: "('i, 'o) dict \<Rightarrow> 'i list \<Rightarrow> 'o list" where
  "select objs ids = List.map_filter (dget objs) ids"

lemma select_simps [simp]:
  "select objs [] = []"
  "select objs (i # ids) =
     (case dget objs i of None \<Rightarrow> select objs ids | Some ob \<Rightarrow> ob # select objs ids)"
  by (simp_all add: select_def List.map_filter_simps split: option.splits)

lemma in_select: "ob \<in> set (select objs ids) \<longleftrightarrow> (\<exists>i \<in> set ids. dget objs i = Some ob)"
  by (induction ids) (auto split: option.splits)

lemma map_id_select:
  assumes "\<forall>i ob. dget objs i = Some ob \<longrightarrow> id_of ob = i"
  shows "map id_of (select objs ids) = filter (has_key objs) ids"
  using assms by (induction ids) (auto simp: has_key_def split: option.splits)

text \<open>
  An index is consistent with the objects when the ids filed under a key are, each once,
  those of the stored objects that have the key.
\<close>

definition index_consistent ::
  "('o \<Rightarrow> 'k list) \<Rightarrow> ('i, 'o) dict \<Rightarrow> ('k, 'i) index \<Rightarrow> bool" where
  "index_consistent keys_of objs ix \<longleftrightarrow>
     (\<forall>k. distinct (idx_get ix k)) \<and>
     (\<forall>k i. i \<in> set (idx_get ix k) \<longleftrightarrow> (\<exists>ob. dget objs i = Some ob \<and> k \<in> set (keys_of ob)))"

lemma index_consistentD:
  assumes "index_consistent keys_of objs ix"
  shows "distinct (idx_get ix k)"
    and "i \<in> set (idx_get ix k) \<longleftrightarrow> (\<exists>ob. dget objs i = Some ob \<and> k \<in> set (keys_of ob))"
  using assms by (auto simp: index_consistent_def)

lemma index_consistent_empty [simp]: "index_consistent keys_of [] []"
  by (simp add: index_consistent_def)

lemma index_consistent_update:
  assumes "index_consistent keys_of objs ix" and "dget objs i = Some ob" and "keys_of ob' = keys_of ob"
  shows "index_consistent keys_of (dset i ob' objs) ix"
proof -
  have "(\<exists>x. dget (dset i ob' objs) j = Some x \<and> k \<in> set (keys_of x)) \<longleftrightarrow>
      (\<exists>x. dget objs j = Some x \<and> k \<in> set (keys_of x))" for j k
    using assms(2,3) by auto
  then show ?thesis using assms(1) unfolding index_consistent_def by presburger
qed

text \<open>
  The contract between a manager and its index, with what every client of it may rely on.
  The laws are about the manager's own insertion and removal; an insertion must use an id
  that is not stored yet (the ids are fresh UUIDs in the code).
\<close>

locale indexed_store =
  fixes objs :: "'s \<Rightarrow> ('i, 'o) dict"
    and ixof :: "'s \<Rightarrow> ('k, 'i) index"
    and keys_of :: "'o \<Rightarrow> 'k list"
    and put :: "'i \<Rightarrow> 'o \<Rightarrow> 's \<Rightarrow> 's"
    and drop_id :: "'i \<Rightarrow> 's \<Rightarrow> 's"
  assumes objs_put: "dget (objs (put i ob s)) = (dget (objs s))(i \<mapsto> ob)"
    and ix_put: "idx_get (ixof (put i ob s)) k =
      (if k \<in> set (keys_of ob) then sadd i (idx_get (ixof s) k) else idx_get (ixof s) k)"
    and objs_drop: "dget (objs (drop_id i s)) = (dget (objs s))(i := None)"
    and ix_drop: "dget (objs s) i = Some ob \<Longrightarrow> idx_get (ixof (drop_id i s)) k =
      (if k \<in> set (keys_of ob) then sdiscard i (idx_get (ixof s) k) else idx_get (ixof s) k)"
    and drop_absent: "dget (objs s) i = None \<Longrightarrow> drop_id i s = s"
begin

lemma put_consistent:
  assumes "index_consistent keys_of (objs s) (ixof s)" and "dget (objs s) i = None"
  shows "index_consistent keys_of (objs (put i ob s)) (ixof (put i ob s))"
  using assms by (auto simp: index_consistent_def objs_put ix_put)

lemma put_same_keys_consistent:
  assumes "index_consistent keys_of (objs s) (ixof s)" and "dget (objs s) i = Some ob0"
    and "set (keys_of ob0) = set (keys_of ob)"
  shows "index_consistent keys_of (objs (put i ob s)) (ixof (put i ob s))"
  using assms by (auto simp: index_consistent_def objs_put ix_put)

lemma drop_consistent:
  assumes c: "index_consistent keys_of (objs s) (ixof s)"
  shows "index_consistent keys_of (objs (drop_id i s)) (ixof (drop_id i s))"
proof (cases "dget (objs s) i")
  case None
  then show ?thesis using c by (simp add: drop_absent)
next
  case (Some ob)
  then show ?thesis
    using c by (auto simp: index_consistent_def objs_drop ix_drop [OF Some] distinct_removeAll)
qed

lemma drop_all: "dget (objs (fold drop_id is s)) k = (if k \<in> set is then None else dget (objs s) k)"
  by (induction "is" arbitrary: s) (auto simp: objs_drop)

lemma find_exact:
  assumes "index_consistent keys_of (objs s) (ixof s)"
  shows "ob \<in> set (select (objs s) (idx_get (ixof s) k)) \<longleftrightarrow>
    (\<exists>i. dget (objs s) i = Some ob \<and> k \<in> set (keys_of ob))"
  using assms by (auto simp: in_select index_consistentD(2))

end

text \<open>
  A table of objects that carry their own id, with one index: the keys are distinct, an object is
  stored under its id, and the index is consistent.
\<close>

definition store_ok ::
  "('o \<Rightarrow> 'i) \<Rightarrow> ('o \<Rightarrow> 'k list) \<Rightarrow> ('i, 'o) dict \<Rightarrow> ('k, 'i) index \<Rightarrow> bool" where
  "store_ok id_of keys_of objs ix \<longleftrightarrow>
     dict_ok objs \<and> (\<forall>i ob. dget objs i = Some ob \<longrightarrow> id_of ob = i) \<and> index_consistent keys_of objs ix"

lemma store_okD:
  assumes "store_ok id_of keys_of objs ix"
  shows "dict_ok objs" "dget objs i = Some ob \<Longrightarrow> id_of ob = i" "index_consistent keys_of objs ix"
  using assms by (auto simp: store_ok_def)

lemma store_ok_empty [simp]: "store_ok id_of keys_of [] []"
  by (simp add: store_ok_def)

lemma store_ok_select:
  assumes "store_ok id_of keys_of objs ix"
  shows "map id_of (select objs (idx_get ix k)) = idx_get ix k"
    and "set (select objs (idx_get ix k)) = {ob. dget objs (id_of ob) = Some ob \<and> k \<in> set (keys_of ob)}"
proof -
  note ok = store_okD [OF assms]
  have "\<forall>i \<in> set (idx_get ix k). has_key objs i"
    using index_consistentD(2) [OF ok(3)] by (auto simp: has_key_def)
  then show "map id_of (select objs (idx_get ix k)) = idx_get ix k"
    using map_id_select [of objs id_of "idx_get ix k"] ok(2) by simp
  show "set (select objs (idx_get ix k)) = {ob. dget objs (id_of ob) = Some ob \<and> k \<in> set (keys_of ob)}"
    using index_consistentD(2) [OF ok(3)] ok(2) by (auto simp: in_select) (metis option.inject)+
qed

locale identified_store = indexed_store objs ixof keys_of put drop_id
  for objs :: "'s \<Rightarrow> ('i, 'o) dict"
    and ixof :: "'s \<Rightarrow> ('k, 'i) index"
    and keys_of :: "'o \<Rightarrow> 'k list"
    and put :: "'i \<Rightarrow> 'o \<Rightarrow> 's \<Rightarrow> 's"
    and drop_id :: "'i \<Rightarrow> 's \<Rightarrow> 's" +
  fixes id_of :: "'o \<Rightarrow> 'i"
  assumes ok_put: "dict_ok (objs s) \<Longrightarrow> dict_ok (objs (put i ob s))"
    and ok_drop: "dict_ok (objs s) \<Longrightarrow> dict_ok (objs (drop_id i s))"
begin

lemma put_ok:
  assumes "store_ok id_of keys_of (objs s) (ixof s)" and "dget (objs s) i = None" and "id_of ob = i"
  shows "store_ok id_of keys_of (objs (put i ob s)) (ixof (put i ob s))"
  using assms put_consistent [of s i ob] by (simp add: store_ok_def ok_put objs_put)

lemma drop_all_length:
  assumes "dict_ok (objs s)" "distinct is" "\<forall>i \<in> set is. dget (objs s) i \<noteq> None"
  shows "length (objs (fold drop_id is s)) + length is = length (objs s)"
  using assms
proof (induction "is" arbitrary: s)
  case (Cons i "is")
  have "i \<in> dom (dget (objs s))" using Cons.prems(3) by (simp add: domIff)
  then have "insert i (dom (dget (objs (drop_id i s)))) = dom (dget (objs s))"
    "i \<notin> dom (dget (objs (drop_id i s)))" by (auto simp: objs_drop domIff split: if_splits)
  then have "length (objs s) = card (insert i (dom (dget (objs (drop_id i s)))))"
    by (simp only: length_card_dom [OF Cons.prems(1)])
  also have "\<dots> = Suc (length (objs (drop_id i s)))"
    using length_card_dom [OF ok_drop [OF Cons.prems(1)]] \<open>i \<notin> _\<close> by (simp add: finite_dom_map_of)
  finally have "length (objs s) = Suc (length (objs (drop_id i s)))" .
  moreover have "\<forall>j \<in> set is. dget (objs (drop_id i s)) j \<noteq> None"
    using Cons.prems(2,3) unfolding objs_drop by auto
  ultimately show ?case
    using Cons.IH [OF ok_drop [OF Cons.prems(1)]] Cons.prems(2) by simp
qed simp

lemma drop_ok:
  assumes "store_ok id_of keys_of (objs s) (ixof s)"
  shows "store_ok id_of keys_of (objs (drop_id i s)) (ixof (drop_id i s))"
  using assms drop_consistent [of s i] by (simp add: store_ok_def ok_drop objs_drop)

end

subsection \<open>Lifecycles\<close>

text \<open>
  Several components are lifecycle machines: an operation returns normally or raises, and
  leaves the object in some state either way (\<open>None\<close> or the exception, and the object).  A
  status is final when no operation leaves it; a run of operations, whose caller survives the
  exceptions, then keeps it.
\<close>

type_synonym 's outcome = "py_error option \<times> 's"

definition run_ops :: "('op \<Rightarrow> 's \<Rightarrow> 's outcome) \<Rightarrow> 'op list \<Rightarrow> 's \<Rightarrow> 's" where
  "run_ops f xs s = fold (\<lambda>x s. snd (f x s)) xs s"

locale lifecycle =
  fixes op_step :: "'op \<Rightarrow> 's \<Rightarrow> 's outcome"
    and wf :: "'s \<Rightarrow> bool"
    and status :: "'s \<Rightarrow> 'e"
    and final :: "'e \<Rightarrow> bool"
  assumes step_wf: "wf s \<Longrightarrow> wf (snd (op_step x s))"
    and step_final: "wf s \<Longrightarrow> final (status s) \<Longrightarrow> status (snd (op_step x s)) = status s"
begin

lemma run_wf: "wf s \<Longrightarrow> wf (run_ops op_step xs s)"
  by (induction xs arbitrary: s) (auto simp: run_ops_def step_wf)

lemma run_final: "wf s \<Longrightarrow> final (status s) \<Longrightarrow> status (run_ops op_step xs s) = status s"
  by (induction xs arbitrary: s) (auto simp: run_ops_def step_wf step_final)

end

text \<open>
  An abstract machine for a lifecycle: the next status of each operation, or \<open>None\<close> where the
  operation must raise and keep the status.  \<open>op_of\<close> forgets the clock readings and the other
  arguments the machine does not depend on.  A class that implements the machine implements it
  over whole runs, and the statuses the machine never leaves are final.
\<close>

definition spec_step :: "('e \<Rightarrow> 'o \<Rightarrow> 'e option) \<Rightarrow> 'o \<Rightarrow> 'e \<Rightarrow> 'e" where
  "spec_step spec x e = (case spec e x of None \<Rightarrow> e | Some e' \<Rightarrow> e')"

definition spec_run :: "('e \<Rightarrow> 'o \<Rightarrow> 'e option) \<Rightarrow> 'o list \<Rightarrow> 'e \<Rightarrow> 'e" where
  "spec_run spec xs e = fold (spec_step spec) xs e"

definition spec_final :: "('e \<Rightarrow> 'o \<Rightarrow> 'e option) \<Rightarrow> 'e \<Rightarrow> bool" where
  "spec_final spec e \<longleftrightarrow> (\<forall>x e'. spec e x = Some e' \<longrightarrow> e' = e)"

lemma spec_finalD: "spec_final spec e \<Longrightarrow> spec e x = Some e' \<Longrightarrow> e' = e"
  by (auto simp: spec_final_def)

locale machine =
  fixes op_step :: "'op \<Rightarrow> 's \<Rightarrow> 's outcome"
    and wf :: "'s \<Rightarrow> bool"
    and status :: "'s \<Rightarrow> 'e"
    and op_of :: "'op \<Rightarrow> 'o"
    and spec :: "'e \<Rightarrow> 'o \<Rightarrow> 'e option"
  assumes keeps_wf: "wf s \<Longrightarrow> wf (snd (op_step x s))"
    and step_status: "wf s \<Longrightarrow> status (snd (op_step x s)) = spec_step spec (op_of x) (status s)"
    and step_raises: "wf s \<Longrightarrow> fst (op_step x s) = None \<longleftrightarrow> spec (status s) (op_of x) \<noteq> None"
begin

lemma run_refines:
  "wf s \<Longrightarrow> status (run_ops op_step xs s) = spec_run spec (map op_of xs) (status s)"
  by (induction xs arbitrary: s) (simp_all add: run_ops_def spec_run_def keeps_wf step_status)

end

sublocale machine \<subseteq> lifecycle op_step wf status "spec_final spec"
proof
  fix s x assume wf: "wf s"
  then show "wf (snd (op_step x s))" by (rule keeps_wf)
  assume "spec_final spec (status s)"
  with wf show "status (snd (op_step x s)) = status s"
    by (auto simp: step_status spec_step_def spec_final_def split: option.splits)
qed

context machine
begin

lemma run_raises:
  "wf s \<Longrightarrow> fst (op_step x (run_ops op_step xs s)) = None \<longleftrightarrow>
     spec (spec_run spec (map op_of xs) (status s)) (op_of x) \<noteq> None"
  using step_raises [OF run_wf [of s xs], of x] by (simp add: run_refines)

end

subsection \<open>Bounded buffers\<close>

text \<open>
  \<open>buf.append(x)\<close> followed by \<open>if len(buf) > n: buf.pop(0)\<close>, the way the event history and
  the message buffer are kept.
\<close>

definition push_bounded :: "int \<Rightarrow> 'a \<Rightarrow> 'a list \<Rightarrow> 'a list" where
  "push_bounded n x buf =
     (if int (length (buf @ [x])) > n then tl (buf @ [x]) else buf @ [x])"

lemma push_bounded_length:
  "int (length buf) \<le> n \<Longrightarrow> int (length (push_bounded n x buf)) \<le> n"
  by (auto simp: push_bounded_def)

lemma push_bounded_suffix:
  assumes "0 \<le> n" and "int (length buf) \<le> n"
  shows "push_bounded n x buf = drop (Suc (length buf) - nat n) (buf @ [x])"
proof (cases "int (length buf) = n")
  case True
  then have "Suc (length buf) - nat n = 1" by auto
  then have "drop (Suc (length buf) - nat n) (buf @ [x]) = tl (buf @ [x])"
    by (simp only: drop_Suc One_nat_def drop_0)
  with True show ?thesis by (simp add: push_bounded_def)
next
  case False
  with assms have "Suc (length buf) - nat n = 0" by linarith
  with False assms show ?thesis by (simp add: push_bounded_def)
qed

lemma set_push_bounded: "set (push_bounded n x buf) \<subseteq> insert x (set buf)"
  by (cases buf) (auto simp: push_bounded_def)

text \<open>\<open>xs[-k:]\<close>: Python's suffix slice; \<open>k = 0\<close> is the whole list, a negative \<open>k\<close> drops a prefix.\<close>

definition slice_last :: "int \<Rightarrow> 'a list \<Rightarrow> 'a list" where
  "slice_last k xs = (if k \<le> 0 then drop (nat (- k)) xs else drop (length xs - nat k) xs)"

text \<open>\<open>xs[a:b]\<close>: a negative index counts from the end, an index out of range is cut to the list.\<close>

definition slice_index :: "int \<Rightarrow> 'a list \<Rightarrow> nat" where
  "slice_index i xs = (if i < 0 then nat (i + int (length xs)) else min (nat i) (length xs))"

definition py_slice :: "int \<Rightarrow> int \<Rightarrow> 'a list \<Rightarrow> 'a list" where
  "py_slice a b xs = take (slice_index b xs - slice_index a xs) (drop (slice_index a xs) xs)"

lemma set_py_slice: "set (py_slice a b xs) \<subseteq> set xs"
  unfolding py_slice_def by (meson set_drop_subset set_take_subset subset_trans)

lemma slice_last_length: "0 < k \<Longrightarrow> length (slice_last k xs) = min (nat k) (length xs)"
  by (simp add: slice_last_def)

subsection \<open>Lists in a dict\<close>

text \<open>\<open>if k not in d: d[k] = []\<close> followed by \<open>d[k].append(x)\<close>\<close>

definition append_to :: "'k \<Rightarrow> 'a \<Rightarrow> ('k, 'a list) dict \<Rightarrow> ('k, 'a list) dict" where
  "append_to k x d = dset k (dget_or d k [] @ [x]) d"

lemma dget_or_append_to [simp, dict_simps]:
  "dget_or (append_to k x d) k' [] = (if k' = k then dget_or d k [] @ [x] else dget_or d k' [])"
  by (simp add: append_to_def dget_or_def)

lemma dkeys_append_to: "set (dkeys (append_to k x d)) = insert k (set (dkeys d))"
  by (simp only: append_to_def dkeys_dset)

lemma append_to_consistent:
  assumes "index_consistent (\<lambda>ob. [key ob]) objs ix" and "dget objs i = None"
  shows "index_consistent (\<lambda>ob. [key ob]) (dset i ob objs) (append_to (key ob) i ix)"
proof -
  have "i \<notin> set (idx_get ix k)" for k using index_consistentD(2) [OF assms(1), of i k] assms(2) by simp
  then have "idx_get (append_to (key ob) i ix) k = (if k = key ob then sadd i (idx_get ix k) else idx_get ix k)" for k
    by (simp add: idx_get_def sadd_def)
  then show ?thesis using assms by (auto simp: index_consistent_def)
qed

lemma index_consistent_cong:
  assumes "\<And>i. map_option keys_of (dget objs' i) = map_option keys_of (dget objs i)"
  shows "index_consistent keys_of objs' ix = index_consistent keys_of objs ix"
proof -
  have "(\<exists>ob. dget objs' i = Some ob \<and> k \<in> set (keys_of ob)) \<longleftrightarrow> (\<exists>ob. dget objs i = Some ob \<and> k \<in> set (keys_of ob))" for i k
    using assms [of i] by (cases "dget objs' i"; cases "dget objs i") auto
  then show ?thesis by (simp add: index_consistent_def)
qed

text \<open>A filter of a query applies when its value is given and not empty.\<close>

definition given :: "string option \<Rightarrow> (string \<Rightarrow> bool) \<Rightarrow> bool" where
  "given x P = (case x of None \<Rightarrow> True | Some s \<Rightarrow> s = [] \<or> P s)"

subsection \<open>Counting\<close>

text \<open>\<open>counts[x] = counts.get(x, 0) + 1\<close> over a list, the code's distribution tables.\<close>

definition bump :: "'a \<Rightarrow> ('a, nat) dict \<Rightarrow> ('a, nat) dict" where
  "bump x d = dset x (dget_or d x 0 + 1) d"

definition tally :: "'a list \<Rightarrow> ('a, nat) dict" where
  "tally xs = fold bump xs []"

lemma tally_acc: "dget_or (fold bump xs d) x 0 = dget_or d x 0 + count_list xs x"
  by (induction xs arbitrary: d) (auto simp: bump_def dget_or_def split: option.splits)

lemma tally_count: "dget_or (tally xs) x 0 = count_list xs x"
  using tally_acc [of xs "[]" x] by (simp add: tally_def dget_or_def)

end
