(* ===== verification/PyTime.thy ===== *)
theory PyTime
  imports Prelude Complex_Main
begin

section \<open>Python's datetimes and durations\<close>

text \<open>
  The part of the standard library's \<open>datetime\<close> that the orchestration core uses.  A naive
  \<open>datetime\<close> is the number of microseconds since 0001-01-01T00:00:00 (so that comparison and
  subtraction are those of the integers); \<open>isoformat\<close> and \<open>fromisoformat\<close> convert it to and
  from text.  \<open>int(delta.total_seconds() * 1000)\<close> is computed in double precision, as Python
  does: the quotient and the product are each rounded to 53 significant bits, half to even.
\<close>

type_synonym datetime = int

text \<open>The successive readings of the clock that one call makes.\<close>

type_synonym clock = "nat \<Rightarrow> datetime"

subsection \<open>The proleptic Gregorian calendar\<close>

definition is_leap :: "nat \<Rightarrow> bool" where
  "is_leap y \<longleftrightarrow> y mod 4 = 0 \<and> (y mod 100 \<noteq> 0 \<or> y mod 400 = 0)"

definition year_days :: "nat \<Rightarrow> nat" where
  "year_days y = (if is_leap y then 366 else 365)"

definition month_days :: "nat \<Rightarrow> nat list" where
  "month_days y = [31, if is_leap y then 29 else 28, 31, 30, 31, 30, 31, 31, 30, 31, 30, 31]"

definition days_before_year :: "nat \<Rightarrow> nat" where
  "days_before_year y = (let z = y - 1 in (z * 365 + z div 4 + z div 400) - z div 100)"

lemma year_days_pos [simp]: "0 < year_days y"
  by (simp add: year_days_def)

lemma sum_month_days: "sum_list (month_days y) = year_days y"
  by (simp add: month_days_def year_days_def)

lemma days_before_Suc:
  assumes "0 < y"
  shows "days_before_year (Suc y) = days_before_year y + year_days y"
proof -
  obtain z where y: "y = Suc z" using assms by (cases y) auto
  have d4: "Suc z div 4 = z div 4 + (if Suc z mod 4 = 0 then 1 else 0)"
    and d100: "Suc z div 100 = z div 100 + (if Suc z mod 100 = 0 then 1 else 0)"
    and d400: "Suc z div 400 = z div 400 + (if Suc z mod 400 = 0 then 1 else 0)"
    by (simp_all add: div_Suc)
  have m: "Suc z mod 100 = 0 \<Longrightarrow> Suc z mod 4 = 0" "Suc z mod 400 = 0 \<Longrightarrow> Suc z mod 100 = 0"
    by presburger+
  have le: "z div 100 \<le> z * 365" by (rule order_trans [of _ z]) simp_all
  define a b c where abc: "a = z div 4" "b = z div 100" "c = z div 400"
  define P Q R where PQR: "P \<longleftrightarrow> Suc z mod 4 = 0" "Q \<longleftrightarrow> Suc z mod 100 = 0" "R \<longleftrightarrow> Suc z mod 400 = 0"
  have "days_before_year (Suc y) = (Suc z * 365 + (a + of_bool P) + (c + of_bool R)) - (b + of_bool Q)"
    unfolding y days_before_year_def Let_def diff_Suc_1 d4 d100 d400 abc PQR by simp
  moreover have "days_before_year y = (z * 365 + a + c) - b"
    by (simp add: y days_before_year_def abc)
  moreover have "year_days y = (if P \<and> (\<not> Q \<or> R) then 366 else 365)"
    by (simp add: y year_days_def is_leap_def PQR)
  moreover have "Q \<Longrightarrow> P" "R \<Longrightarrow> Q" using m PQR by auto
  moreover have "b \<le> z * 365" using le abc by simp
  ultimately show ?thesis by (cases P; cases Q; cases R; simp)
qed

function find_year :: "nat \<Rightarrow> nat \<Rightarrow> nat \<times> nat" where
  "find_year y n = (if n < year_days y then (y, n) else find_year (Suc y) (n - year_days y))"
  by pat_completeness auto
termination
  by (relation "measure snd") (auto simp: year_days_def)

declare find_year.simps [simp del]

lemma find_year_spec:
  "0 < y \<Longrightarrow> find_year y n = (y', r) \<Longrightarrow>
    y \<le> y' \<and> r < year_days y' \<and> days_before_year y' + r = days_before_year y + n"
proof (induction y n rule: find_year.induct)
  case (1 y n)
  show ?case
  proof (cases "n < year_days y")
    case True
    with 1 show ?thesis by (simp add: find_year.simps [of y n])
  next
    case False
    with 1 have "find_year (Suc y) (n - year_days y) = (y', r)"
      by (simp add: find_year.simps [of y n])
    with 1 False show ?thesis by (auto simp: days_before_Suc)
  qed
qed

fun find_month :: "nat \<Rightarrow> nat list \<Rightarrow> nat \<Rightarrow> nat \<times> nat" where
  "find_month m [] n = (m, n)"
| "find_month m (l # ls) n = (if n < l then (m, n) else find_month (Suc m) ls (n - l))"

lemma find_month_spec:
  "n < sum_list ls \<Longrightarrow> find_month m ls n = (m', r) \<Longrightarrow>
    m \<le> m' \<and> m' < m + length ls \<and> r < ls ! (m' - m) \<and> sum_list (take (m' - m) ls) + r = n"
proof (induction ls arbitrary: m n)
  case Nil
  then show ?case by simp
next
  case (Cons l ls)
  show ?case
  proof (cases "n < l")
    case True
    with Cons.prems show ?thesis by auto
  next
    case False
    with Cons.prems have "find_month (Suc m) ls (n - l) = (m', r)" "n - l < sum_list ls" by auto
    from Cons.IH [OF this(2,1)] False
    have IH: "Suc m \<le> m'" "m' < Suc m + length ls" "r < ls ! (m' - Suc m)"
      "sum_list (take (m' - Suc m) ls) + r = n - l" by auto
    then have "m' - m = Suc (m' - Suc m)" by simp
    with IH False show ?thesis by simp
  qed
qed

text \<open>Year, month and day of a day number (0 is 0001-01-01), and back.\<close>

definition ord2ymd :: "nat \<Rightarrow> nat \<times> nat \<times> nat" where
  "ord2ymd n = (let (y, r) = find_year 1 n; (m, d) = find_month 1 (month_days y) r
                in (y, m, Suc d))"

definition ymd2ord :: "nat \<Rightarrow> nat \<Rightarrow> nat \<Rightarrow> nat" where
  "ymd2ord y m d = days_before_year y + sum_list (take (m - 1) (month_days y)) + (d - 1)"

lemma ord2ymd_spec:
  assumes "ord2ymd n = (y, m, d)"
  shows "ymd2ord y m d = n" and "1 \<le> y" and "1 \<le> m" and "m \<le> 12" and "1 \<le> d"
    and "d \<le> month_days y ! (m - 1)" and "days_before_year y \<le> n"
proof -
  obtain r where y: "find_year 1 n = (y, r)" and
    m: "find_month 1 (month_days y) r = (m, d - 1)" and d: "1 \<le> d"
    using assms by (auto simp: ord2ymd_def split: prod.splits)
  from find_year_spec [OF _ y] have Y: "1 \<le> y" "r < year_days y" "days_before_year y + r = n"
    by (simp_all add: days_before_year_def)
  then have "r < sum_list (month_days y)" by (simp add: sum_month_days)
  from find_month_spec [OF this m]
  have M: "1 \<le> m" "m < 1 + length (month_days y)" "d - 1 < month_days y ! (m - 1)"
    "sum_list (take (m - 1) (month_days y)) + (d - 1) = r" by auto
  show "ymd2ord y m d = n" using Y M by (simp add: ymd2ord_def)
  show "1 \<le> y" "1 \<le> m" "1 \<le> d" using Y M d by auto
  show "m \<le> 12" using M(2) by (simp add: month_days_def)
  show "d \<le> month_days y ! (m - 1)" using M d by simp
  show "days_before_year y \<le> n" using Y by simp
qed

lemma days_before_mono: "0 < y \<Longrightarrow> y \<le> y' \<Longrightarrow> days_before_year y \<le> days_before_year y'"
proof (induction y')
  case 0
  then show ?case by simp
next
  case (Suc n)
  show ?case
  proof (cases "y = Suc n")
    case False
    with Suc have "0 < n" "days_before_year y \<le> days_before_year n" by auto
    then show ?thesis by (simp add: days_before_Suc)
  qed simp
qed

lemma ord2ymd_year_bound:
  assumes "ord2ymd n = (y, m, d)" and "n < days_before_year 10000"
  shows "y < 10000"
proof (rule ccontr)
  assume "\<not> y < 10000"
  then have "days_before_year 10000 \<le> days_before_year y" by (simp add: days_before_mono)
  with ord2ymd_spec(7) [OF assms(1)] assms(2) show False by simp
qed

subsection \<open>Decimal numbers\<close>

definition digit :: "nat \<Rightarrow> char" where
  "digit n = char_of (48 + n)"

definition digit_val :: "char \<Rightarrow> nat option" where
  "digit_val c = (let n = of_char c in if 48 \<le> n \<and> n \<le> 57 then Some (n - 48) else None)"

lemma digit_val_digit [simp]: "n < 10 \<Longrightarrow> digit_val (digit n) = Some n"
  by (simp add: digit_val_def digit_def)

fun pad :: "nat \<Rightarrow> nat \<Rightarrow> string" where
  "pad 0 n = []"
| "pad (Suc w) n = pad w (n div 10) @ [digit (n mod 10)]"

fun read_digits :: "nat \<Rightarrow> string \<Rightarrow> nat option" where
  "read_digits acc [] = Some acc"
| "read_digits acc (c # cs) =
     (case digit_val c of None \<Rightarrow> None | Some v \<Rightarrow> read_digits (10 * acc + v) cs)"

lemma length_pad [simp]: "length (pad w n) = w"
  by (induction w arbitrary: n) auto

lemma read_digits_append:
  "read_digits acc (xs @ ys) =
     (case read_digits acc xs of None \<Rightarrow> None | Some a \<Rightarrow> read_digits a ys)"
  by (induction xs arbitrary: acc) (auto split: option.splits)

lemma read_digits_pad:
  "n < 10 ^ w \<Longrightarrow> read_digits acc (pad w n) = Some (acc * 10 ^ w + n)"
proof (induction w arbitrary: n)
  case 0
  then show ?case by simp
next
  case (Suc w)
  then have "n div 10 < 10 ^ w" by (simp add: less_mult_imp_div_less mult.commute)
  then have "read_digits acc (pad w (n div 10)) = Some (acc * 10 ^ w + n div 10)" by (rule Suc.IH)
  then show ?case by (simp add: read_digits_append algebra_simps)
qed

function dec :: "nat \<Rightarrow> string" where
  "dec n = (if n < 10 then [digit n] else dec (n div 10) @ [digit (n mod 10)])"
  by pat_completeness auto
termination
  by (relation "measure id") auto

declare dec.simps [simp del]

lemma read_dec_acc: "\<exists>w. read_digits acc (dec n) = Some (acc * 10 ^ w + n)"
proof (induction n rule: dec.induct)
  case (1 n)
  show ?case
  proof (cases "n < 10")
    case True
    then have "read_digits acc (dec n) = Some (acc * 10 ^ 1 + n)"
      by (simp add: dec.simps [of n])
    then show ?thesis by blast
  next
    case False
    with 1 obtain w where "read_digits acc (dec (n div 10)) = Some (acc * 10 ^ w + n div 10)"
      by blast
    with False have "read_digits acc (dec n) = Some (acc * 10 ^ Suc w + n)"
      by (simp add: dec.simps [of n] read_digits_append algebra_simps)
    then show ?thesis by blast
  qed
qed

lemma read_dec: "read_digits 0 (dec n) = Some n"
  using read_dec_acc [of 0 n] by auto

lemma dec_nonempty: "dec n \<noteq> []"
  by (simp add: dec.simps [of n])

lemma dec_digits: "c \<in> set (dec n) \<Longrightarrow> \<exists>k < 10. c = digit k"
proof (induction n rule: dec.induct)
  case (1 n)
  then show ?case
    by (cases "n < 10") (auto simp: dec.simps [of n] intro: exI [where x = "n mod 10"])
qed

definition int_str :: "int \<Rightarrow> string" where
  "int_str i = (if i < 0 then CHR ''-'' # dec (nat (- i)) else dec (nat i))"

subsection \<open>ISO text\<close>

definition us_per_day :: nat where
  "us_per_day = 86400000000"

definition max_datetime :: int where
  "max_datetime = int (days_before_year 10000 * us_per_day)"

definition valid_datetime :: "datetime \<Rightarrow> bool" where
  "valid_datetime t \<longleftrightarrow> 0 \<le> t \<and> t < max_datetime"

text \<open>\<open>t.isoformat()\<close>: the fraction is written only when it is not zero.\<close>

definition isoformat :: "datetime \<Rightarrow> string" where
  "isoformat t =
     (let n = nat t; day = n div us_per_day; r = n mod us_per_day; us = r mod 1000000;
          s = r div 1000000
      in case ord2ymd day of (y, m, d) \<Rightarrow>
        pad 4 y @ ''-'' @ pad 2 m @ ''-'' @ pad 2 d @ ''T'' @
        pad 2 (s div 3600) @ '':'' @ pad 2 (s div 60 mod 60) @ '':'' @ pad 2 (s mod 60) @
        (if us = 0 then [] else ''.'' @ pad 6 us))"

text \<open>
  \<open>datetime.fromisoformat(s)\<close> on the two shapes that \<open>isoformat\<close> writes.  The library accepts
  further shapes (a date alone, a zone, other separators); those are \<open>Unmodelled\<close>.
\<close>

definition iso_shape :: "string \<Rightarrow> bool" where
  "iso_shape s \<longleftrightarrow> (length s = 19 \<or> length s = 26 \<and> s ! 19 = CHR ''.'') \<and>
     s ! 4 = CHR ''-'' \<and> s ! 7 = CHR ''-'' \<and> s ! 10 = CHR ''T'' \<and> s ! 13 = CHR '':'' \<and> s ! 16 = CHR '':''"

definition fromisoformat :: "string \<Rightarrow> datetime result" where
  "fromisoformat s =
     (if \<not> iso_shape s then Inl (Unmodelled ''fromisoformat'')
      else case (read_digits 0 (take 4 s), read_digits 0 (take 2 (drop 5 s)),
                 read_digits 0 (take 2 (drop 8 s)), read_digits 0 (take 2 (drop 11 s)),
                 read_digits 0 (take 2 (drop 14 s)), read_digits 0 (take 2 (drop 17 s)),
                 (if length s = 19 then Some 0 else read_digits 0 (take 6 (drop 20 s)))) of
        (Some y, Some m, Some d, Some hh, Some mm, Some ss, Some us) \<Rightarrow>
          if 1 \<le> y \<and> 1 \<le> m \<and> m \<le> 12 \<and> 1 \<le> d \<and> d \<le> month_days y ! (m - 1)
             \<and> hh < 24 \<and> mm < 60 \<and> ss < 60
          then Inr (int (ymd2ord y m d * us_per_day + (hh * 3600 + mm * 60 + ss) * 1000000 + us))
          else Inl (ValueError ''fromisoformat'')
      | _ \<Rightarrow> Inl (Unmodelled ''fromisoformat''))"

lemma isoformat_nonempty [simp]: "isoformat t \<noteq> []"
  by (auto simp: isoformat_def Let_def split: prod.splits dest: arg_cong [where f = length])

lemma month_days_le: "1 \<le> m \<Longrightarrow> m \<le> 12 \<Longrightarrow> month_days y ! (m - 1) \<le> 31"
proof -
  assume "1 \<le> m" "m \<le> 12"
  then have "m - 1 < length (month_days y)" by (simp add: month_days_def)
  then have "month_days y ! (m - 1) \<in> set (month_days y)" by (rule nth_mem)
  then show ?thesis by (auto simp: month_days_def split: if_splits)
qed

lemma iso_parts:
  assumes "length a = 4" "length b = 2" "length c = 2" "length d = 2" "length e = 2" "length f = 2"
    and "g = [] \<or> (\<exists>h. g = CHR ''.'' # h \<and> length h = 6)"
  defines "s \<equiv> a @ ''-'' @ b @ ''-'' @ c @ ''T'' @ d @ '':'' @ e @ '':'' @ f @ g"
  shows "iso_shape s" and "take 4 s = a" and "take 2 (drop 5 s) = b" and "take 2 (drop 8 s) = c"
    and "take 2 (drop 11 s) = d" and "take 2 (drop 14 s) = e" and "take 2 (drop 17 s) = f"
    and "length s = 19 \<longleftrightarrow> g = []" and "g = CHR ''.'' # h \<Longrightarrow> length h = 6 \<Longrightarrow> take 6 (drop 20 s) = h"
  using assms(1-7) unfolding s_def
  by (auto simp: iso_shape_def nth_append numeral_eq_Suc)

lemma fromisoformat_isoformat:
  assumes "valid_datetime t"
  shows "fromisoformat (isoformat t) = Inr t"
proof -
  define n day r us sec where defs: "n = nat t" "day = n div us_per_day" "r = n mod us_per_day"
    "us = r mod 1000000" "sec = r div 1000000"
  obtain y m d where ymd: "ord2ymd day = (y, m, d)" by (cases "ord2ymd day") auto
  have "n < days_before_year 10000 * us_per_day"
    using assms by (simp add: valid_datetime_def max_datetime_def defs nat_less_iff)
  then have "day < days_before_year 10000"
    by (simp add: defs less_mult_imp_div_less)
  with ymd have y: "y < 10 ^ 4" using ord2ymd_year_bound by simp
  note sp = ord2ymd_spec [OF ymd]
  have m: "m < 10 ^ 2" using sp(4) by simp
  have d: "d < 10 ^ 2" using sp(6) month_days_le [OF sp(3,4), of y] by simp
  have rb: "r < 86400000000" by (simp add: defs us_per_day_def)
  then have "sec < 86400" by (simp add: defs less_mult_imp_div_less)
  then have hh: "sec div 3600 < 24" by (simp add: less_mult_imp_div_less)
  have us: "us < 10 ^ 6" by (simp add: defs)
  let ?g = "if us = 0 then [] else ''.'' @ pad 6 us"
  have iso: "isoformat t = pad 4 y @ ''-'' @ pad 2 m @ ''-'' @ pad 2 d @ ''T'' @ pad 2 (sec div 3600)
      @ '':'' @ pad 2 (sec div 60 mod 60) @ '':'' @ pad 2 (sec mod 60) @ ?g"
    using ymd by (simp add: isoformat_def Let_def defs)
  have g: "?g = [] \<or> (\<exists>h. ?g = CHR ''.'' # h \<and> length h = 6)" by simp
  note parts = iso_parts [of "pad 4 y" "pad 2 m" "pad 2 d" "pad 2 (sec div 3600)"
      "pad 2 (sec div 60 mod 60)" "pad 2 (sec mod 60)" ?g, folded iso, OF _ _ _ _ _ _ g]
  have rd: "read_digits 0 (pad 2 k) = Some k" if "k < 100" for k
    using read_digits_pad [of k 2 0] that by simp
  have ry: "read_digits 0 (pad 4 y) = Some y" using read_digits_pad [of y 4 0] y by simp
  have rus: "(if length (isoformat t) = 19 then Some 0
      else read_digits 0 (take 6 (drop 20 (isoformat t)))) = Some us"
    using parts(8,9) read_digits_pad [of us 6 0] us by auto
  have s_eq: "sec div 3600 * 3600 + sec div 60 mod 60 * 60 + sec mod 60 = sec"
  proof -
    have "sec div 3600 = sec div 60 div 60" by (simp only: div_mult2_eq [symmetric]) simp
    then have "sec div 3600 * 60 + sec div 60 mod 60 = sec div 60" by (simp only: div_mult_mod_eq)
    then show ?thesis using div_mult_mod_eq [of sec 60] by linarith
  qed
  have "day * us_per_day + r = n" "sec * 1000000 + us = r"
    unfolding defs by (simp_all only: div_mult_mod_eq)
  then have "day * us_per_day + sec * 1000000 + us = nat t" using defs(1) by linarith
  then have t_eq: "int (day * us_per_day + sec * 1000000 + us) = t"
    using assms by (simp only: valid_datetime_def nat_0_le)
  have hms: "sec div 60 mod 60 < 60" "sec mod 60 < 60" "sec div 3600 < 100"
    "sec div 60 mod 60 < 100" "sec mod 60 < 100" using hh by (auto intro: less_trans [of _ 60])
  have "fromisoformat (isoformat t) =
    Inr (int (day * us_per_day + (sec div 3600 * 3600 + sec div 60 mod 60 * 60 + sec mod 60) * 1000000 + us))"
    unfolding fromisoformat_def
    using sp(1-6) parts(1-7) m d hh hms by (simp add: ry rus rd)
  then show ?thesis by (simp only: s_eq t_eq)
qed

subsection \<open>Durations in milliseconds\<close>

definition round_half_even :: "nat \<Rightarrow> nat \<Rightarrow> nat" where
  "round_half_even n d =
     (let q = n div d; r = n mod d
      in if 2 * r < d then q else if d < 2 * r then q + 1 else if even q then q else q + 1)"

function scale_up :: "nat \<Rightarrow> nat \<Rightarrow> nat \<Rightarrow> nat \<times> nat" where
  "scale_up n d k = (if n = 0 \<or> 2 ^ 52 * d \<le> n then (n, k) else scale_up (2 * n) d (Suc k))"
  by pat_completeness auto
termination
  by (relation "measure (\<lambda>(n, d, k). 2 ^ 52 * d - n)") auto

function scale_down :: "nat \<Rightarrow> nat \<Rightarrow> nat \<Rightarrow> nat \<times> nat" where
  "scale_down n d k = (if d = 0 \<or> n < 2 ^ 53 * d then (d, k) else scale_down n (2 * d) (Suc k))"
  by pat_completeness auto
termination
  by (relation "measure (\<lambda>(n, d, k). n - d)") auto

declare scale_up.simps [simp del] scale_down.simps [simp del]

text \<open>The double nearest to \<open>n / d\<close>, as a fraction.\<close>

definition double_of :: "nat \<Rightarrow> nat \<Rightarrow> nat \<times> nat" where
  "double_of n d =
     (let (n', k) = scale_up n d 0; (d', j) = scale_down n' d 0
      in (round_half_even n' d' * 2 ^ j, 2 ^ k))"

text \<open>\<open>int(delta.total_seconds() * 1000)\<close> for a \<open>timedelta\<close> of so many microseconds\<close>

definition total_ms :: "int \<Rightarrow> int" where
  "total_ms us =
     (let (a, b) = double_of (nat \<bar>us\<bar>) 1000000; (c, e) = double_of (a * 1000) b
      in sgn us * int (c div e))"

text \<open>\<open>delta.total_seconds() > n\<close> for a whole number of seconds\<close>

definition seconds_exceed :: "int \<Rightarrow> int \<Rightarrow> bool" where
  "seconds_exceed us n =
     (let (a, b) = double_of (nat \<bar>us\<bar>) 1000000 in sgn us * int a > n * int b)"

lemma round_half_even_error:
  assumes "0 < d"
  shows "2 * \<bar>int (round_half_even n d * d) - int n\<bar> \<le> int d"
proof -
  define q r where qr: "q = n div d" "r = n mod d"
  have n: "int n = int q * int d + int r"
    unfolding qr by (metis div_mult_mod_eq of_nat_add of_nat_mult)
  have r: "r < d" using assms by (simp add: qr)
  have "round_half_even n d = q \<and> 2 * r \<le> d \<or> round_half_even n d = q + 1 \<and> d \<le> 2 * r"
    by (auto simp: round_half_even_def Let_def qr [symmetric])
  then show ?thesis
  proof
    assume "round_half_even n d = q \<and> 2 * r \<le> d"
    then show ?thesis using n by simp
  next
    assume "round_half_even n d = q + 1 \<and> d \<le> 2 * r"
    then show ?thesis using n r by (simp add: algebra_simps)
  qed
qed

lemma scale_up_spec:
  "0 < d \<Longrightarrow> scale_up n d k = (n', k') \<Longrightarrow>
     k \<le> k' \<and> n' = n * 2 ^ (k' - k) \<and> (n = 0 \<or> 2 ^ 52 * d \<le> n')"
proof (induction n d k rule: scale_up.induct)
  case (1 n d k)
  show ?case
  proof (cases "n = 0 \<or> 2 ^ 52 * d \<le> n")
    case True
    with 1 show ?thesis by (auto simp: scale_up.simps [of n d k])
  next
    case False
    with 1 have IH: "Suc k \<le> k'" "n' = 2 * n * 2 ^ (k' - Suc k)" "2 ^ 52 * d \<le> n'"
      by (auto simp: scale_up.simps [of n d k])
    then have "k' - k = Suc (k' - Suc k)" by simp
    with IH show ?thesis by simp
  qed
qed

lemma scale_down_spec:
  "0 < d \<Longrightarrow> 2 ^ 52 * d \<le> n \<or> n = 0 \<Longrightarrow> scale_down n d k = (d', k') \<Longrightarrow>
     k \<le> k' \<and> d' = d * 2 ^ (k' - k) \<and> (2 ^ 52 * d' \<le> n \<or> n = 0)"
proof (induction n d k rule: scale_down.induct)
  case (1 n d k)
  show ?case
  proof (cases "d = 0 \<or> n < 2 ^ 53 * d")
    case True
    with 1 show ?thesis by (auto simp: scale_down.simps [of n d k])
  next
    case False
    with "1.prems"(1) have "2 ^ 52 * (2 * d) \<le> n" by simp
    with 1 False have IH: "Suc k \<le> k'" "d' = 2 * d * 2 ^ (k' - Suc k)" "2 ^ 52 * d' \<le> n \<or> n = 0"
      by (auto simp: scale_down.simps [of n d k])
    then have "k' - k = Suc (k' - Suc k)" by simp
    with IH show ?thesis by simp
  qed
qed

lemma double_of_error:
  assumes "double_of n d = (a, b)" and d: "0 < d"
  shows "0 < b" and "\<bar>real a / real b - real n / real d\<bar> \<le> real n / real d / 2 ^ 53"
proof -
  obtain n' k d' j where su: "scale_up n d 0 = (n', k)" and sd: "scale_down n' d 0 = (d', j)"
    and ab: "a = round_half_even n' d' * 2 ^ j" "b = 2 ^ k"
    using assms(1) by (auto simp: double_of_def Let_def split: prod.splits)
  from scale_up_spec [OF d su] have n': "n' = n * 2 ^ k" "n = 0 \<or> 2 ^ 52 * d \<le> n'" by auto
  then have "2 ^ 52 * d \<le> n' \<or> n' = 0" by auto
  from scale_down_spec [OF d this sd] have d': "d' = d * 2 ^ j" "2 ^ 52 * d' \<le> n' \<or> n' = 0" by auto
  show "0 < b" by (simp add: ab)
  define q where "q = round_half_even n' d'"
  have d'0: "0 < d'" using d d' by simp
  have "real_of_int (2 * \<bar>int (q * d') - int n'\<bar>) \<le> real_of_int (int d')"
    using round_half_even_error [OF d'0, of n'] by (simp only: q_def of_int_le_iff)
  then have err: "2 * \<bar>real q * real d' - real n'\<bar> \<le> real d'" by simp
  show "\<bar>real a / real b - real n / real d\<bar> \<le> real n / real d / 2 ^ 53"
  proof (cases "n = 0")
    case True
    then have "q = 0" using n' d'0 by (simp add: q_def round_half_even_def)
    with True show ?thesis by (simp add: ab q_def)
  next
    case False
    with n' have "n' \<noteq> 0" by simp
    with d' have "real (2 ^ 52 * d') \<le> real n'" by (simp only: of_nat_le_iff) simp
    with err have e: "\<bar>real q * real d' - real n'\<bar> \<le> real n' / 2 ^ 53" by simp
    have eq: "real a / real b - real n / real d = (real q * real d' - real n') / (2 ^ k * real d)"
      using d by (simp add: ab q_def n' d' field_simps)
    have "\<bar>real a / real b - real n / real d\<bar> = \<bar>real q * real d' - real n'\<bar> / (2 ^ k * real d)"
      unfolding eq by (simp add: abs_divide abs_mult)
    also have "\<dots> \<le> (real n' / 2 ^ 53) / (2 ^ k * real d)"
      by (rule divide_right_mono [OF e]) simp
    also have "\<dots> = real n / real d / 2 ^ 53" using d by (simp add: n')
    finally show ?thesis .
  qed
qed

lemma total_ms_bounds:
  assumes "0 \<le> us" and "us < 10 ^ 15"
  shows "us div 1000 - 1 \<le> total_ms us \<and> total_ms us \<le> us div 1000"
proof (cases "us = 0")
  case True
  then show ?thesis
    by (simp add: total_ms_def Let_def split: prod.splits)
next
  case False
  obtain a b where ab: "double_of (nat us) 1000000 = (a, b)" by fastforce
  obtain c e where ce: "double_of (a * 1000) b = (c, e)" by fastforce
  have t: "total_ms us = int (c div e)"
    using assms False ab ce by (simp add: total_ms_def)
  define X where "X = real_of_int us / 1000"
  define A where "A = 1000 * (real a / real b)"
  define C where "C = real c / real e"
  have b0: "0 < b" and e1: "\<bar>real a / real b - real (nat us) / 1000000\<bar> \<le> real (nat us) / 1000000 / 2 ^ 53"
    using double_of_error [OF ab] by auto
  have e0: "0 < e" and e2: "\<bar>C - A\<bar> \<le> A / 2 ^ 53"
    using double_of_error [OF ce b0] by (auto simp: A_def C_def mult.commute)
  have us: "real (nat us) = 1000 * X" using assms by (simp add: X_def)
  have X: "0 \<le> X" "X \<le> 10 ^ 12" using assms by (auto simp: X_def)
  have e1': "\<bar>A - X\<bar> \<le> X / 2 ^ 53"
  proof -
    define q where "q = real a / real b"
    have "\<bar>q - X / 1000\<bar> \<le> X / 1000 / 2 ^ 53" using e1 unfolding us q_def by simp
    then have "1000 * \<bar>q - X / 1000\<bar> \<le> X / 2 ^ 53" by simp
    moreover have "1000 * \<bar>q - X / 1000\<bar> = \<bar>1000 * (q - X / 1000)\<bar>"
      by (simp only: abs_mult abs_numeral)
    moreover have "1000 * (q - X / 1000) = 1000 * q - X" by (simp add: right_diff_distrib)
    ultimately have "\<bar>1000 * q - X\<bar> \<le> X / 2 ^ 53" by simp
    then show ?thesis by (simp only: A_def q_def)
  qed
  then have A1: "A - X \<le> X / 2 ^ 53" "X - A \<le> X / 2 ^ 53" by (simp_all only: abs_le_iff) simp
  have A2: "A \<le> 2 * X" using A1(1) X by simp
  from e2 have C1: "C - A \<le> A / 2 ^ 53" "A - C \<le> A / 2 ^ 53" by (simp_all only: abs_le_iff) simp
  have CX: "C - X < 1 / 1000" "X - C < 1 / 1000" using A1 A2 C1 X by simp_all
  have fl: "int (c div e) = \<lfloor>C\<rfloor>" by (simp add: C_def floor_divide_of_nat_eq)
  have "us = 1000 * (us div 1000) + us mod 1000" by simp
  then have Xq: "X = real_of_int (us div 1000) + real_of_int (us mod 1000) / 1000"
    unfolding X_def by (metis (no_types, opaque_lifting) add_divide_distrib nonzero_mult_div_cancel_left
        of_int_add of_int_mult of_int_numeral zero_neq_numeral)
  have m: "0 \<le> us mod 1000" "us mod 1000 \<le> 999" by auto
  then have "real_of_int (us mod 1000) / 1000 \<le> 999 / 1000" by simp
  with Xq CX have "C < real_of_int (us div 1000 + 1)" by simp
  then have up: "\<lfloor>C\<rfloor> < us div 1000 + 1" by (simp only: floor_less_iff)
  have "0 \<le> real_of_int (us mod 1000) / 1000" using m by simp
  with Xq CX have "real_of_int (us div 1000 - 1) \<le> C" by simp
  then have "us div 1000 - 1 \<le> \<lfloor>C\<rfloor>" by (simp only: le_floor_iff)
  with up show ?thesis unfolding t fl by (simp only: zle_add1_eq_le [symmetric] simp_thms)
qed

text \<open>The double product can fall just below a whole millisecond, which \<open>int\<close> then drops.\<close>

lemma total_ms_loses: "total_ms 1001000 = 1000"
  by (simp add: total_ms_def double_of_def scale_up.simps scale_down.simps round_half_even_def)

end
