(* ===== verification/PyVal.thy ===== *)
theory PyVal
  imports PyTime
begin

section \<open>Dynamically typed values\<close>

text \<open>
  The values that payloads, metadata and variables hold (\<open>Any\<close> in the code's annotations), with
  the conversions the code applies to them: truth value, \<open>str\<close>, \<open>int\<close>, \<open>dict\<close>, \<open>list\<close>, and
  the two helpers \<open>_parse_datetime\<close> and \<open>_optional_str\<close> that the core's modules each define.
  A float is its 64-bit pattern; \<open>PObj\<close> stands for any other object, by identity.
\<close>

datatype pyval =
    PNone
  | PBool bool
  | PInt int
  | PFloat nat
  | PStr string
  | PBytes string
  | PList "pyval list"
  | PTuple "pyval list"
  | PDict "(string \<times> pyval) list"
  | PTime datetime
  | PObj nat

type_synonym pydict = "(string, pyval) dict"

fun truthy :: "pyval \<Rightarrow> bool" where
  "truthy PNone = False"
| "truthy (PBool b) = b"
| "truthy (PInt i) = (i \<noteq> 0)"
| "truthy (PFloat bits) = (bits \<noteq> 0 \<and> bits \<noteq> 2 ^ 63)"
| "truthy (PStr s) = (s \<noteq> [])"
| "truthy (PBytes s) = (s \<noteq> [])"
| "truthy (PList xs) = (xs \<noteq> [])"
| "truthy (PTuple xs) = (xs \<noteq> [])"
| "truthy (PDict d) = (d \<noteq> [])"
| "truthy (PTime t) = True"
| "truthy (PObj i) = True"

text \<open>\<open>payload.get(k)\<close>, with \<open>None\<close> for an absent key, and \<open>payload.get(k, v)\<close>\<close>

definition pget :: "pydict \<Rightarrow> string \<Rightarrow> pyval" where
  "pget d k = dget_or d k PNone"

abbreviation pget_or :: "pydict \<Rightarrow> string \<Rightarrow> pyval \<Rightarrow> pyval" where
  "pget_or d k v \<equiv> dget_or d k v"

text \<open>\<open>payload[k]\<close>\<close>

definition pindex :: "pydict \<Rightarrow> string \<Rightarrow> pyval result" where
  "pindex d k = (case dget d k of None \<Rightarrow> Inl (KeyError k) | Some v \<Rightarrow> Inr v)"

text \<open>\<open>a or b\<close>\<close>

definition por :: "pyval \<Rightarrow> pyval \<Rightarrow> pyval" where
  "por a b = (if truthy a then a else b)"

text \<open>\<open>x if isinstance(x, dict) else {}\<close>, the way every module reads its nested payload\<close>

definition as_dict :: "pyval \<Rightarrow> pydict" where
  "as_dict v = (case v of PDict d \<Rightarrow> d | _ \<Rightarrow> [])"

fun py_str :: "pyval \<Rightarrow> string result" where
  "py_str PNone = Inr ''None''"
| "py_str (PBool b) = Inr (if b then ''True'' else ''False'')"
| "py_str (PInt i) = Inr (int_str i)"
| "py_str (PStr s) = Inr s"
| "py_str v = Inl (Unmodelled ''str'')"

text \<open>\<open>dict(v)\<close> and \<open>list(v)\<close>: a shallow copy; a dict's list is its keys, a string's its characters.\<close>

fun py_dict :: "pyval \<Rightarrow> pydict result" where
  "py_dict (PDict d) = Inr d"
| "py_dict (PList []) = Inr []"
| "py_dict (PTuple []) = Inr []"
| "py_dict (PStr []) = Inr []"
| "py_dict (PBytes []) = Inr []"
| "py_dict (PList (x # xs)) = Inl (Unmodelled ''dict'')"
| "py_dict (PTuple (x # xs)) = Inl (Unmodelled ''dict'')"
| "py_dict (PStr (c # cs)) = Inl (ValueError ''dict'')"
| "py_dict v = Inl (TypeError ''dict'')"

fun py_list :: "pyval \<Rightarrow> pyval list result" where
  "py_list (PList xs) = Inr xs"
| "py_list (PTuple xs) = Inr xs"
| "py_list (PStr s) = Inr (map (\<lambda>c. PStr [c]) s)"
| "py_list (PBytes s) = Inr (map (\<lambda>c. PInt (int (of_char c))) s)"
| "py_list (PDict d) = Inr (map (\<lambda>p. PStr (fst p)) d)"
| "py_list (PObj i) = Inl (Unmodelled ''list'')"
| "py_list v = Inl (TypeError ''list'')"

text \<open>\<open>int(v)\<close> on what the code hands it: an integer, a boolean or the decimal text of one.\<close>

fun py_int :: "pyval \<Rightarrow> int result" where
  "py_int (PInt i) = Inr i"
| "py_int (PBool b) = Inr (if b then 1 else 0)"
| "py_int (PStr s) = Inl (Unmodelled ''int'')"
| "py_int (PBytes s) = Inl (Unmodelled ''int'')"
| "py_int (PFloat bits) = Inl (Unmodelled ''int'')"
| "py_int (PObj i) = Inl (Unmodelled ''int'')"
| "py_int v = Inl (TypeError ''int'')"

text \<open>Optional values as payload entries: \<open>x\<close> itself, and \<open>x.isoformat() if x else None\<close>.\<close>

definition opt_str :: "string option \<Rightarrow> pyval" where
  "opt_str x = (case x of None \<Rightarrow> PNone | Some s \<Rightarrow> PStr s)"

definition opt_int :: "int option \<Rightarrow> pyval" where
  "opt_int x = (case x of None \<Rightarrow> PNone | Some i \<Rightarrow> PInt i)"

definition opt_iso :: "datetime option \<Rightarrow> pyval" where
  "opt_iso x = (case x of None \<Rightarrow> PNone | Some t \<Rightarrow> PStr (isoformat t))"

definition str_list :: "string list \<Rightarrow> pyval" where
  "str_list xs = PList (map PStr xs)"

text \<open>
  \<open>_parse_datetime\<close>: a datetime is kept, text is parsed, anything else is the current time
  (the reading \<open>now\<close>).
\<close>

fun parse_datetime :: "datetime \<Rightarrow> pyval \<Rightarrow> datetime result" where
  "parse_datetime now (PTime t) = Inr t"
| "parse_datetime now (PStr s) = fromisoformat s"
| "parse_datetime now v = Inr now"

text \<open>\<open>_parse_datetime(v) if v else None\<close>\<close>

definition parse_opt_datetime :: "datetime \<Rightarrow> pyval \<Rightarrow> datetime option result" where
  "parse_opt_datetime now v = (if truthy v then bindr (parse_datetime now v) (Inr \<circ> Some) else Inr None)"

definition optional_str :: "pyval \<Rightarrow> string option result" where
  "optional_str v = (if v = PNone then Inr None else bindr (py_str v) (Inr \<circ> Some))"

text \<open>
  A Python list of strings read back from a payload keeps whatever values it holds; the
  modules that store it in a \<open>list[str]\<close> field never check the elements.
\<close>

definition as_str :: "pyval \<Rightarrow> string result" where
  "as_str v = (case v of PStr s \<Rightarrow> Inr s | _ \<Rightarrow> Inl (Unmodelled ''list[str] element''))"

definition read_str_list :: "pyval \<Rightarrow> string list result" where
  "read_str_list v = bindr (py_list (por v (PList []))) (mapr as_str)"

text \<open>\<open>if x:\<close> on an optional string: neither absent nor empty.\<close>

definition nonempty_opt :: "string option \<Rightarrow> string list" where
  "nonempty_opt x = (case x of None \<Rightarrow> [] | Some s \<Rightarrow> if s = [] then [] else [s])"

lemma nonempty_opt_mem: "b \<in> set (nonempty_opt x) \<longleftrightarrow> x = Some b \<and> b \<noteq> []"
  by (cases x) (auto simp: nonempty_opt_def)

lemma nonempty_opt_cases: "nonempty_opt x = [] \<or> (\<exists>e. nonempty_opt x = [e] \<and> x = Some e \<and> e \<noteq> [])"
  by (auto simp: nonempty_opt_def split: option.splits)

text \<open>\<open>SomeEnum(s)\<close>: the member with that value, or \<open>ValueError\<close>.\<close>

definition enum_of :: "('e \<Rightarrow> string) \<Rightarrow> 'e list \<Rightarrow> string \<Rightarrow> 'e result" where
  "enum_of val members s =
     (case List.find (\<lambda>e. val e = s) members of None \<Rightarrow> Inl (ValueError s) | Some e \<Rightarrow> Inr e)"

subsection \<open>Reading back what was written\<close>

named_theorems payload_simps \<open>reading a payload entry back\<close>

declare fromisoformat_isoformat [simp, payload_simps]

lemma optional_str_opt_str [simp, payload_simps]: "optional_str (opt_str x) = Inr x"
  by (simp add: optional_str_def opt_str_def split: option.splits)

lemma parse_datetime_iso [simp, payload_simps]:
  "valid_datetime t \<Longrightarrow> parse_datetime now (PStr (isoformat t)) = Inr t"
  by simp

lemma parse_opt_iso [simp, payload_simps]:
  "pred_option valid_datetime x \<Longrightarrow> parse_opt_datetime now (opt_iso x) = Inr x"
  by (cases x) (simp_all add: parse_opt_datetime_def opt_iso_def)

lemma read_str_list_str_list [simp, payload_simps]: "read_str_list (str_list xs) = Inr xs"
proof -
  have "mapr as_str (map PStr xs) = Inr xs"
    by (induction xs) (simp_all add: as_str_def)
  then show ?thesis by (cases xs) (simp_all add: read_str_list_def str_list_def por_def)
qed

lemma py_dict_por [simp, payload_simps]: "py_dict (por (PDict d) (PDict [])) = Inr d"
  by (simp add: por_def)

lemma pget_simps [payload_simps]:
  "pget [] k = PNone"
  "pget ((k', v) # d) k = (if k = k' then v else pget d k)"
  by (simp_all add: pget_def dget_or_def)

lemma pget_or_simps [payload_simps]:
  "pget_or [] k w = w"
  "pget_or ((k', v) # d) k w = (if k = k' then v else pget_or d k w)"
  by (simp_all add: dget_or_def)

lemma pindex_simps [payload_simps]:
  "pindex [] k = Inl (KeyError k)"
  "pindex ((k', v) # d) k = (if k = k' then Inr v else pindex d k)"
  by (simp_all add: pindex_def)

end
