(* ===== verification/Tokens.thy ===== *)
theory Tokens
  imports PyVal
begin

section \<open>Execution tokens\<close>

text \<open>
  \<open>core/token.py\<close> (class \<open>Token\<close> and \<open>TokenSnapshot\<close>) and \<open>core/token_states.py\<close> (the state
  objects the lifecycle methods delegate to).  A token carries its status twice: the
  enumeration \<open>state\<close> and the lazily created state object \<open>_state\<close>; \<^term>\<open>()\<close>-valued methods
  become functions from a token to the token they leave or the exception they raise.  The
  readings of the clock a method makes are the values \<open>clk 0\<close>, \<open>clk 1\<close>, ... of its argument.
\<close>

datatype TokenStateEnum = ACTIVE | WAITING | COMPLETED | TERMINATED | MERGED

datatype TokenType = PROCESS | SUBPROCESS | PARALLEL | EVENT | COMPENSATION

datatype token_state_obj =
    ActiveTokenState | WaitingTokenState | CompletedTokenState | TerminatedTokenState | MergedTokenState

fun token_state_value :: "TokenStateEnum \<Rightarrow> string" where
  "token_state_value ACTIVE = ''active''"
| "token_state_value WAITING = ''waiting''"
| "token_state_value COMPLETED = ''completed''"
| "token_state_value TERMINATED = ''terminated''"
| "token_state_value MERGED = ''merged''"

definition token_state_of :: "string \<Rightarrow> TokenStateEnum result" where
  "token_state_of s =
     (if s = ''active'' then Inr ACTIVE else if s = ''waiting'' then Inr WAITING
      else if s = ''completed'' then Inr COMPLETED else if s = ''terminated'' then Inr TERMINATED
      else if s = ''merged'' then Inr MERGED else Inl (ValueError s))"

fun token_type_value :: "TokenType \<Rightarrow> string" where
  "token_type_value PROCESS = ''process''"
| "token_type_value SUBPROCESS = ''subprocess''"
| "token_type_value PARALLEL = ''parallel''"
| "token_type_value EVENT = ''event''"
| "token_type_value COMPENSATION = ''compensation''"

definition token_type_of :: "string \<Rightarrow> TokenType result" where
  "token_type_of s =
     (if s = ''process'' then Inr PROCESS else if s = ''subprocess'' then Inr SUBPROCESS
      else if s = ''parallel'' then Inr PARALLEL else if s = ''event'' then Inr EVENT
      else if s = ''compensation'' then Inr COMPENSATION else Inl (ValueError s))"

lemma token_state_of_value [simp, payload_simps]: "token_state_of (token_state_value s) = Inr s"
  by (cases s) (simp_all add: token_state_of_def)

lemma token_type_of_value [simp, payload_simps]: "token_type_of (token_type_value s) = Inr s"
  by (cases s) (simp_all add: token_type_of_def)

fun token_state_for :: "TokenStateEnum \<Rightarrow> token_state_obj" where
  "token_state_for ACTIVE = ActiveTokenState"
| "token_state_for WAITING = WaitingTokenState"
| "token_state_for COMPLETED = CompletedTokenState"
| "token_state_for TERMINATED = TerminatedTokenState"
| "token_state_for MERGED = MergedTokenState"

record TokenSnapshot =
  snap_timestamp :: datetime
  snap_element_id :: string
  snap_element_type :: string
  snap_state :: TokenStateEnum
  snap_variables :: pydict

text \<open>The OSDM model references are kept as the class name of the referenced object.\<close>

record Token =
  token_id :: string
  instance_id :: string
  parent_token_id :: "string option"
  token_type :: TokenType
  tok_state :: TokenStateEnum
  tok_state_obj :: "token_state_obj option"
  osdm_flow_node :: "string option"
  osdm_activity :: "string option"
  current_element_id :: "string option"
  current_element_type :: "string option"
  previous_element_id :: "string option"
  created_at :: datetime
  updated_at :: datetime
  completed_at :: "datetime option"
  execution_path :: "string list"
  snapshots :: "TokenSnapshot list"
  child_token_ids :: "string list"
  tok_metadata :: pydict
  waiting_for :: "string option"
  wait_start_time :: "datetime option"

definition new_token ::
  "clock \<Rightarrow> string \<Rightarrow> string \<Rightarrow> string option \<Rightarrow> TokenType \<Rightarrow> string option \<Rightarrow> Token" where
  "new_token clk tid iid parent tt elem =
     \<lparr>token_id = tid, instance_id = iid, parent_token_id = parent, token_type = tt,
      tok_state = ACTIVE, tok_state_obj = None, osdm_flow_node = None, osdm_activity = None,
      current_element_id = elem, current_element_type = None, previous_element_id = None,
      created_at = clk 0, updated_at = clk 1, completed_at = None, execution_path = [],
      snapshots = [], child_token_ids = [], tok_metadata = [], waiting_for = None,
      wait_start_time = None\<rparr>"

subsection \<open>Position and references\<close>

definition move_to :: "clock \<Rightarrow> string \<Rightarrow> string \<Rightarrow> Token \<Rightarrow> Token" where
  "move_to clk eid etype t =
     t\<lparr>previous_element_id := current_element_id t,
       current_element_id := Some eid,
       current_element_type := Some etype,
       updated_at := clk 0,
       execution_path := (if eid \<in> set (execution_path t) then execution_path t
                          else execution_path t @ [eid])\<rparr>"

text \<open>\<open>str.replace\<close> for a non-empty pattern: leftmost, non-overlapping occurrences.\<close>

fun py_replace :: "string \<Rightarrow> string \<Rightarrow> string \<Rightarrow> string" where
  "py_replace old new [] = []"
| "py_replace old new (c # s) =
     (if old \<noteq> [] \<and> take (length old) (c # s) = old
      then new @ py_replace old new (drop (length old - 1) s)
      else c # py_replace old new s)"

definition set_osdm_flow_node :: "string option \<Rightarrow> Token \<Rightarrow> Token" where
  "set_osdm_flow_node node t =
     t\<lparr>osdm_flow_node := node,
       current_element_type :=
         (case node of None \<Rightarrow> current_element_type t
          | Some cls \<Rightarrow> Some (py_replace ''FlowNode'' ''flowNode'' (py_replace ''OsDm'' [] cls)))\<rparr>"

definition set_osdm_activity :: "string option \<Rightarrow> Token \<Rightarrow> Token" where
  "set_osdm_activity act t = set_osdm_flow_node act (t\<lparr>osdm_activity := act\<rparr>)"

subsection \<open>The state objects\<close>

datatype token_op = Wait string | Resume | Complete | Terminate | Merge

definition set_state :: "TokenStateEnum \<Rightarrow> token_state_obj option \<Rightarrow> Token \<Rightarrow> Token" where
  "set_state e ob t =
     t\<lparr>tok_state := e,
       tok_state_obj := Some (case ob of Some so \<Rightarrow> so | None \<Rightarrow> token_state_for e)\<rparr>"

definition finish :: "clock \<Rightarrow> TokenStateEnum \<Rightarrow> token_state_obj \<Rightarrow> Token \<Rightarrow> Token" where
  "finish clk e ob t = (set_state e (Some ob) t)\<lparr>completed_at := Some (clk 0), updated_at := clk 1\<rparr>"

fun active_token_state :: "clock \<Rightarrow> token_op \<Rightarrow> Token \<Rightarrow> Token result" where
  "active_token_state clk (Wait reason) t =
     Inr ((set_state WAITING (Some WaitingTokenState) t)
       \<lparr>waiting_for := Some reason, wait_start_time := Some (clk 0), updated_at := clk 1\<rparr>)"
| "active_token_state clk Resume t = Inr t"
| "active_token_state clk Complete t = Inr (finish clk COMPLETED CompletedTokenState t)"
| "active_token_state clk Terminate t = Inr (finish clk TERMINATED TerminatedTokenState t)"
| "active_token_state clk Merge t = Inr (finish clk MERGED MergedTokenState t)"

fun waiting_token_state :: "clock \<Rightarrow> token_op \<Rightarrow> Token \<Rightarrow> Token result" where
  "waiting_token_state clk (Wait reason) t = Inr t"
| "waiting_token_state clk Resume t =
     Inr ((set_state ACTIVE (Some ActiveTokenState) t)
       \<lparr>waiting_for := None, wait_start_time := None, updated_at := clk 0\<rparr>)"
| "waiting_token_state clk Complete t = Inr (finish clk COMPLETED CompletedTokenState t)"
| "waiting_token_state clk Terminate t = Inr (finish clk TERMINATED TerminatedTokenState t)"
| "waiting_token_state clk Merge t = Inr (finish clk MERGED MergedTokenState t)"

fun completed_token_state :: "token_op \<Rightarrow> Token \<Rightarrow> Token result" where
  "completed_token_state (Wait reason) t = Inl (RuntimeError (''Cannot wait on completed token '' @ token_id t))"
| "completed_token_state Resume t = Inl (RuntimeError (''Cannot resume completed token '' @ token_id t))"
| "completed_token_state Complete t = Inr t"
| "completed_token_state Terminate t = Inl (RuntimeError (''Cannot terminate completed token '' @ token_id t))"
| "completed_token_state Merge t = Inl (RuntimeError (''Cannot merge completed token '' @ token_id t))"

fun terminated_token_state :: "token_op \<Rightarrow> Token \<Rightarrow> Token result" where
  "terminated_token_state (Wait reason) t = Inl (RuntimeError (''Cannot wait on terminated token '' @ token_id t))"
| "terminated_token_state Resume t = Inl (RuntimeError (''Cannot resume terminated token '' @ token_id t))"
| "terminated_token_state Complete t = Inl (RuntimeError (''Cannot complete terminated token '' @ token_id t))"
| "terminated_token_state Terminate t = Inr t"
| "terminated_token_state Merge t = Inl (RuntimeError (''Cannot merge terminated token '' @ token_id t))"

fun merged_token_state :: "token_op \<Rightarrow> Token \<Rightarrow> Token result" where
  "merged_token_state (Wait reason) t = Inl (RuntimeError (''Cannot wait on merged token '' @ token_id t))"
| "merged_token_state Resume t = Inl (RuntimeError (''Cannot resume merged token '' @ token_id t))"
| "merged_token_state Complete t = Inl (RuntimeError (''Cannot complete merged token '' @ token_id t))"
| "merged_token_state Terminate t = Inl (RuntimeError (''Cannot terminate merged token '' @ token_id t))"
| "merged_token_state Merge t = Inr t"

text \<open>\<open>_get_state\<close> creates the state object on first use; the method is then looked up on it.\<close>

definition get_state :: "Token \<Rightarrow> token_state_obj \<times> Token" where
  "get_state t =
     (case tok_state_obj t of
        Some ob \<Rightarrow> (ob, t)
      | None \<Rightarrow> (let ob = token_state_for (tok_state t) in (ob, t\<lparr>tok_state_obj := Some ob\<rparr>)))"

fun token_state_method :: "token_state_obj \<Rightarrow> clock \<Rightarrow> token_op \<Rightarrow> Token \<Rightarrow> Token result" where
  "token_state_method ActiveTokenState clk x t = active_token_state clk x t"
| "token_state_method WaitingTokenState clk x t = waiting_token_state clk x t"
| "token_state_method CompletedTokenState clk x t = completed_token_state x t"
| "token_state_method TerminatedTokenState clk x t = terminated_token_state x t"
| "token_state_method MergedTokenState clk x t = merged_token_state x t"

definition token_apply :: "clock \<Rightarrow> token_op \<Rightarrow> Token \<Rightarrow> Token outcome" where
  "token_apply clk x t =
     (case get_state t of (ob, t') \<Rightarrow>
        (case token_state_method ob clk x t' of
           Inl e \<Rightarrow> (Some e, t')
         | Inr t'' \<Rightarrow> (None, t'')))"

subsection \<open>Children, snapshots, queries, metadata\<close>

definition add_child_token :: "string \<Rightarrow> Token \<Rightarrow> Token" where
  "add_child_token cid t =
     (if cid \<in> set (child_token_ids t) then t
      else t\<lparr>child_token_ids := child_token_ids t @ [cid]\<rparr>)"

definition create_snapshot :: "clock \<Rightarrow> pydict option \<Rightarrow> Token \<Rightarrow> TokenSnapshot \<times> Token" where
  "create_snapshot clk vars t =
     (let snap = \<lparr>snap_timestamp = clk 0,
                  snap_element_id = (case current_element_id t of None \<Rightarrow> [] | Some e \<Rightarrow> e),
                  snap_element_type = (case current_element_type t of None \<Rightarrow> [] | Some e \<Rightarrow> e),
                  snap_state = tok_state t,
                  snap_variables = (case vars of None \<Rightarrow> [] | Some v \<Rightarrow> v)\<rparr>
      in (snap, t\<lparr>snapshots := snapshots t @ [snap]\<rparr>))"

definition get_wait_duration_ms :: "clock \<Rightarrow> Token \<Rightarrow> int option" where
  "get_wait_duration_ms clk t =
     (case wait_start_time t of None \<Rightarrow> None | Some s \<Rightarrow> Some (total_ms (clk 0 - s)))"

definition get_lifetime_ms :: "clock \<Rightarrow> Token \<Rightarrow> int" where
  "get_lifetime_ms clk t =
     (let end_time = (case completed_at t of Some c \<Rightarrow> c | None \<Rightarrow> clk 0)
      in total_ms (end_time - created_at t))"

definition is_active :: "Token \<Rightarrow> bool" where
  "is_active t \<longleftrightarrow> tok_state t = ACTIVE"

definition is_waiting :: "Token \<Rightarrow> bool" where
  "is_waiting t \<longleftrightarrow> tok_state t = WAITING"

definition is_completed :: "Token \<Rightarrow> bool" where
  "is_completed t \<longleftrightarrow> tok_state t \<in> {COMPLETED, TERMINATED, MERGED}"

definition get_metadata :: "string \<Rightarrow> pyval \<Rightarrow> Token \<Rightarrow> pyval" where
  "get_metadata k d t = pget_or (tok_metadata t) k d"

definition set_metadata :: "clock \<Rightarrow> string \<Rightarrow> pyval \<Rightarrow> Token \<Rightarrow> Token" where
  "set_metadata clk k v t = t\<lparr>tok_metadata := dset k v (tok_metadata t), updated_at := clk 0\<rparr>"

subsection \<open>Serialisation\<close>

definition snapshot_to_dict :: "TokenSnapshot \<Rightarrow> pydict" where
  "snapshot_to_dict s =
     [(''timestamp'', PStr (isoformat (snap_timestamp s))),
      (''element_id'', PStr (snap_element_id s)),
      (''element_type'', PStr (snap_element_type s)),
      (''state'', PStr (token_state_value (snap_state s))),
      (''variables'', PDict (snap_variables s))]"

definition snapshot_from_dict :: "clock \<Rightarrow> pydict \<Rightarrow> TokenSnapshot result" where
  "snapshot_from_dict clk p =
     bindr (parse_datetime (clk 0) (pget p ''timestamp'')) (\<lambda>ts.
     bindr (py_str (pget_or p ''element_id'' (PStr []))) (\<lambda>eid.
     bindr (py_str (pget_or p ''element_type'' (PStr []))) (\<lambda>ety.
     bindr (bindr (py_str (pget_or p ''state'' (PStr (token_state_value ACTIVE)))) token_state_of) (\<lambda>st.
     bindr (py_dict (por (pget p ''variables'') (PDict []))) (\<lambda>vars.
     Inr \<lparr>snap_timestamp = ts, snap_element_id = eid, snap_element_type = ety,
          snap_state = st, snap_variables = vars\<rparr>)))))"

definition token_to_dict :: "clock \<Rightarrow> Token \<Rightarrow> pydict" where
  "token_to_dict clk t =
     [(''token_id'', PStr (token_id t)),
      (''instance_id'', PStr (instance_id t)),
      (''parent_token_id'', opt_str (parent_token_id t)),
      (''token_type'', PStr (token_type_value (token_type t))),
      (''state'', PStr (token_state_value (tok_state t))),
      (''current_element_id'', opt_str (current_element_id t)),
      (''current_element_type'', opt_str (current_element_type t)),
      (''previous_element_id'', opt_str (previous_element_id t)),
      (''created_at'', PStr (isoformat (created_at t))),
      (''updated_at'', PStr (isoformat (updated_at t))),
      (''completed_at'', opt_iso (completed_at t)),
      (''execution_path'', str_list (execution_path t)),
      (''child_tokens'', PInt (int (length (child_token_ids t)))),
      (''waiting_for'', opt_str (waiting_for t)),
      (''wait_duration_ms'', opt_int (get_wait_duration_ms clk t)),
      (''lifetime_ms'', PInt (get_lifetime_ms (clk \<circ> Suc) t)),
      (''metadata'', PDict (tok_metadata t))]"

definition token_to_record :: "Token \<Rightarrow> pydict" where
  "token_to_record t =
     [(''token_id'', PStr (token_id t)),
      (''instance_id'', PStr (instance_id t)),
      (''token_type'', PStr (token_type_value (token_type t))),
      (''state'', PStr (token_state_value (tok_state t))),
      (''current_element_id'', opt_str (current_element_id t)),
      (''updated_at'', PStr (isoformat (updated_at t))),
      (''created_at'', PStr (isoformat (created_at t))),
      (''payload'', PDict
        [(''parent_token_id'', opt_str (parent_token_id t)),
         (''current_element_type'', opt_str (current_element_type t)),
         (''previous_element_id'', opt_str (previous_element_id t)),
         (''completed_at'', opt_iso (completed_at t)),
         (''execution_path'', str_list (execution_path t)),
         (''snapshots'', PList (map (PDict \<circ> snapshot_to_dict) (snapshots t))),
         (''child_token_ids'', str_list (child_token_ids t)),
         (''metadata'', PDict (tok_metadata t)),
         (''waiting_for'', opt_str (waiting_for t)),
         (''wait_start_time'', opt_iso (wait_start_time t))])]"

fun snapshots_from :: "clock \<Rightarrow> pyval list \<Rightarrow> TokenSnapshot list result" where
  "snapshots_from clk [] = Inr []"
| "snapshots_from clk (PDict d # vs) =
     bindr (snapshot_from_dict clk d) (\<lambda>s. bindr (snapshots_from (clk \<circ> Suc) vs) (\<lambda>ss. Inr (s # ss)))"
| "snapshots_from clk (v # vs) = snapshots_from clk vs"

definition token_from_record :: "clock \<Rightarrow> pydict \<Rightarrow> Token result" where
  "token_from_record clk p =
     (let n = as_dict (pget p ''payload'') in
     bindr (py_str (pget p ''token_id'')) (\<lambda>tid.
     bindr (py_str (pget p ''instance_id'')) (\<lambda>iid.
     bindr (optional_str (pget n ''parent_token_id'')) (\<lambda>par.
     bindr (bindr (py_str (pget_or p ''token_type'' (PStr (token_type_value PROCESS)))) token_type_of) (\<lambda>tt.
     bindr (optional_str (pget p ''current_element_id'')) (\<lambda>cur.
     let t0 = new_token clk tid iid par tt cur in
     bindr (bindr (py_str (pget_or p ''state'' (PStr (token_state_value ACTIVE)))) token_state_of) (\<lambda>st.
     bindr (optional_str (pget n ''current_element_type'')) (\<lambda>cty.
     bindr (optional_str (pget n ''previous_element_id'')) (\<lambda>prev.
     bindr (parse_datetime (clk 2) (pget p ''created_at'')) (\<lambda>cre.
     bindr (parse_datetime (clk 3) (pget p ''updated_at'')) (\<lambda>upd.
     bindr (parse_opt_datetime (clk 4) (pget n ''completed_at'')) (\<lambda>com.
     bindr (read_str_list (pget n ''execution_path'')) (\<lambda>path.
     bindr (bindr (py_list (por (pget n ''snapshots'') (PList []))) (snapshots_from (\<lambda>i. clk (6 + i)))) (\<lambda>snaps.
     bindr (read_str_list (pget n ''child_token_ids'')) (\<lambda>kids.
     bindr (py_dict (por (pget n ''metadata'') (PDict []))) (\<lambda>meta.
     bindr (optional_str (pget n ''waiting_for'')) (\<lambda>wf.
     bindr (parse_opt_datetime (clk 5) (pget n ''wait_start_time'')) (\<lambda>wst.
     Inr (t0\<lparr>tok_state := st, current_element_type := cty, previous_element_id := prev,
             created_at := cre, updated_at := upd, completed_at := com, execution_path := path,
             snapshots := snaps, child_token_ids := kids, tok_metadata := meta,
             waiting_for := wf, wait_start_time := wst\<rparr>)))))))))))))))))))"

subsection \<open>Well-formed tokens\<close>

text \<open>
  The state object, when there is one, is the one of the enumerated state.  The remaining
  facts relate the status to the time stamps and keep the two id lists free of duplicates.
\<close>

definition token_wf :: "Token \<Rightarrow> bool" where
  "token_wf t \<longleftrightarrow> (\<forall>ob. tok_state_obj t = Some ob \<longrightarrow> ob = token_state_for (tok_state t))"

definition final_state :: "TokenStateEnum \<Rightarrow> bool" where
  "final_state s \<longleftrightarrow> s \<in> {COMPLETED, TERMINATED, MERGED}"

definition token_inv :: "Token \<Rightarrow> bool" where
  "token_inv t \<longleftrightarrow> token_wf t \<and>
     (completed_at t \<noteq> None \<longleftrightarrow> final_state (tok_state t)) \<and>
     (tok_state t = WAITING \<longrightarrow> waiting_for t \<noteq> None \<and> wait_start_time t \<noteq> None) \<and>
     (tok_state t = ACTIVE \<longrightarrow> waiting_for t = None \<and> wait_start_time t = None) \<and>
     distinct (execution_path t) \<and> distinct (child_token_ids t)"

text \<open>The lifecycle as an abstract machine: the next status, or \<open>None\<close> where the code raises.\<close>

fun token_spec :: "TokenStateEnum \<Rightarrow> token_op \<Rightarrow> TokenStateEnum option" where
  "token_spec ACTIVE (Wait _) = Some WAITING"
| "token_spec WAITING (Wait _) = Some WAITING"
| "token_spec ACTIVE Resume = Some ACTIVE"
| "token_spec WAITING Resume = Some ACTIVE"
| "token_spec ACTIVE Complete = Some COMPLETED"
| "token_spec WAITING Complete = Some COMPLETED"
| "token_spec COMPLETED Complete = Some COMPLETED"
| "token_spec ACTIVE Terminate = Some TERMINATED"
| "token_spec WAITING Terminate = Some TERMINATED"
| "token_spec TERMINATED Terminate = Some TERMINATED"
| "token_spec ACTIVE Merge = Some MERGED"
| "token_spec WAITING Merge = Some MERGED"
| "token_spec MERGED Merge = Some MERGED"
| "token_spec _ _ = None"

lemmas token_method_defs = finish_def set_state_def

lemma get_state_wf:
  "token_wf t \<Longrightarrow> get_state t = (token_state_for (tok_state t),
     t\<lparr>tok_state_obj := Some (token_state_for (tok_state t))\<rparr>)"
  by (cases t) (auto simp: get_state_def token_wf_def Let_def split: option.splits)

lemma token_wf_obj [simp]:
  "token_wf (t\<lparr>tok_state_obj := Some (token_state_for (tok_state t))\<rparr>)"
  by (simp add: token_wf_def)

lemma token_apply_wf: "token_wf t \<Longrightarrow> token_wf (snd (token_apply clk x t))"
  by (cases "tok_state t"; cases x)
     (simp_all add: token_apply_def get_state_wf, simp_all add: token_wf_def token_method_defs)

lemma token_apply_status:
  assumes "token_wf t"
  shows "(case token_spec (tok_state t) x of
      None \<Rightarrow> (\<exists>msg. fst (token_apply clk x t) = Some (RuntimeError msg)) \<and>
        tok_state (snd (token_apply clk x t)) = tok_state t
    | Some s \<Rightarrow> fst (token_apply clk x t) = None \<and> tok_state (snd (token_apply clk x t)) = s)"
  using assms
  by (cases "tok_state t"; cases x)
     (simp_all add: token_apply_def get_state_wf token_method_defs)

lemma token_spec_final: "spec_final token_spec s \<longleftrightarrow> final_state s"
proof -
  have "final_state s" if "spec_final token_spec s"
    using that spec_finalD [of token_spec s Complete] by (cases s) (auto simp: final_state_def)
  moreover have "spec_final token_spec s" if "final_state s"
    unfolding spec_final_def
  proof (intro allI impI)
    fix x s' assume "token_spec s x = Some s'"
    with that show "s' = s" by (cases s; cases x) (simp_all add: final_state_def)
  qed
  ultimately show ?thesis by blast
qed

interpretation token_life: machine "\<lambda>(clk, x). token_apply clk x" token_wf tok_state snd token_spec
proof
  fix s :: Token and x :: "clock \<times> token_op"
  assume wf: "token_wf s"
  obtain clk y where x: "x = (clk, y)" by fastforce
  show "token_wf (snd ((case x of (clk, x) \<Rightarrow> token_apply clk x) s))"
    using wf by (simp add: x token_apply_wf)
  show "tok_state (snd ((case x of (clk, x) \<Rightarrow> token_apply clk x) s)) = spec_step token_spec (snd x) (tok_state s)"
    "fst ((case x of (clk, x) \<Rightarrow> token_apply clk x) s) = None \<longleftrightarrow> token_spec (tok_state s) (snd x) \<noteq> None"
    using token_apply_status [OF wf, of clk y] by (auto simp: x spec_step_def split: option.splits)
qed

lemma token_apply_inv: "token_inv t \<Longrightarrow> token_inv (snd (token_apply clk x t))"
proof -
  assume inv: "token_inv t"
  then have wf: "token_wf t" by (simp add: token_inv_def)
  show ?thesis
    using inv token_apply_wf [OF wf, of clk x]
    by (cases "tok_state t"; cases x)
       (auto simp: token_inv_def token_apply_def get_state_wf [OF wf] token_method_defs final_state_def)
qed

text \<open>Every token the methods of the class can produce, from the constructor on.\<close>

inductive token_reach :: "Token \<Rightarrow> bool" where
  create: "token_reach (new_token clk tid iid par tt el)"
| op: "token_reach t \<Longrightarrow> token_reach (snd (token_apply clk x t))"
| move: "token_reach t \<Longrightarrow> token_reach (move_to clk eid ety t)"
| child: "token_reach t \<Longrightarrow> token_reach (add_child_token cid t)"
| snap: "token_reach t \<Longrightarrow> token_reach (snd (create_snapshot clk vars t))"
| meta: "token_reach t \<Longrightarrow> token_reach (set_metadata clk k v t)"
| node: "token_reach t \<Longrightarrow> token_reach (set_osdm_flow_node n t)"
| act: "token_reach t \<Longrightarrow> token_reach (set_osdm_activity n t)"

lemmas token_update_defs = move_to_def add_child_token_def create_snapshot_def set_metadata_def
  set_osdm_flow_node_def set_osdm_activity_def

lemma token_reach_inv: "token_reach t \<Longrightarrow> token_inv t"
proof (induction rule: token_reach.induct)
  case (op t clk x)
  then show ?case by (simp add: token_apply_inv)
qed (auto simp: token_inv_def token_wf_def new_token_def token_update_defs final_state_def Let_def)

subsection \<open>Round trip through the record format\<close>

definition snapshot_times_ok :: "TokenSnapshot \<Rightarrow> bool" where
  "snapshot_times_ok s = valid_datetime (snap_timestamp s)"

definition token_times_ok :: "Token \<Rightarrow> bool" where
  "token_times_ok t \<longleftrightarrow> valid_datetime (created_at t) \<and> valid_datetime (updated_at t) \<and>
     pred_option valid_datetime (completed_at t) \<and> pred_option valid_datetime (wait_start_time t) \<and>
     list_all snapshot_times_ok (snapshots t)"

lemma snapshot_roundtrip:
  "snapshot_times_ok s \<Longrightarrow> snapshot_from_dict clk (snapshot_to_dict s) = Inr s"
  by (cases s) (simp add: snapshot_from_dict_def snapshot_to_dict_def snapshot_times_ok_def payload_simps)

lemma snapshots_roundtrip:
  "list_all snapshot_times_ok ss \<Longrightarrow>
     snapshots_from clk (map (PDict \<circ> snapshot_to_dict) ss) = Inr ss"
  by (induction ss arbitrary: clk) (simp_all add: snapshot_roundtrip)

lemma snapshots_por:
  "py_list (por (PList (map (PDict \<circ> snapshot_to_dict) ss)) (PList [])) =
     Inr (map (PDict \<circ> snapshot_to_dict) ss)"
  by (simp add: por_def)

lemma token_record_roundtrip_ext:
  assumes "token_times_ok t"
  shows "token_from_record clk (token_to_record t @ ext) =
    Inr (t\<lparr>tok_state_obj := None, osdm_flow_node := None, osdm_activity := None\<rparr>)"
  using assms
  by (cases t) (simp add: token_from_record_def token_to_record_def token_times_ok_def payload_simps as_dict_def
      snapshots_por snapshots_roundtrip new_token_def)

subsection \<open>Properties\<close>

text \<open>
  C2: Whatever sequence of \<open>wait\<close>, \<open>resume\<close>, \<open>complete\<close>, \<open>terminate\<close> and \<open>merge\<close> calls a token
  receives, exceptions survived, its state is the one the abstract lifecycle computes, and the
  next call raises exactly where the lifecycle has no transition.
\<close>

theorem token_run_refines:
  assumes "token_reach t"
  shows "tok_state (run_ops (\<lambda>(clk, x). token_apply clk x) xs t) = spec_run token_spec (map snd xs) (tok_state t) \<and>
    (fst (token_apply clk x (run_ops (\<lambda>(clk, x). token_apply clk x) xs t)) = None \<longleftrightarrow>
      token_spec (spec_run token_spec (map snd xs) (tok_state t)) x \<noteq> None)"
proof -
  have wf: "token_wf t" using token_reach_inv [OF assms] by (simp add: token_inv_def)
  show ?thesis
    using token_life.run_refines [OF wf, of xs] token_life.run_raises [OF wf, of "(clk, x)" xs] by simp
qed

theorem token_run_refines_witness:
  "tok_state (run_ops (\<lambda>(clk, x). token_apply clk x)
      [(\<lambda>_. 1, Wait ''m''), (\<lambda>_. 2, Merge), (\<lambda>_. 3, Resume)] (new_token (\<lambda>_. 0) ''t'' ''i'' None PROCESS None)) = MERGED"
  using token_run_refines [OF token_reach.create, of "[(\<lambda>_. 1, Wait ''m''), (\<lambda>_. 2, Merge), (\<lambda>_. 3, Resume)]"
      "\<lambda>_. 0" "''t''" "''i''" None PROCESS None]
  by (simp add: new_token_def spec_run_def spec_step_def)

text \<open>
  A completed, terminated or merged token stays so under every further sequence of calls.
\<close>

theorem token_final_absorbing:
  assumes "token_reach t" and "is_completed t"
  shows "tok_state (run_ops (\<lambda>(clk, x). token_apply clk x) xs t) = tok_state t"
proof -
  have "token_wf t" using token_reach_inv [OF assms(1)] by (simp add: token_inv_def)
  moreover have "spec_final token_spec (tok_state t)"
    using assms(2) by (auto simp: token_spec_final final_state_def is_completed_def)
  ultimately show ?thesis by (rule token_life.run_final)
qed

theorem token_final_absorbing_witness:
  "tok_state (run_ops (\<lambda>(clk, x). token_apply clk x) [(\<lambda>_. 5, Resume), (\<lambda>_. 6, Terminate)]
     (snd (token_apply (\<lambda>_. 4) Complete (new_token (\<lambda>_. 0) ''t'' ''i'' None PROCESS None)))) = COMPLETED"
proof -
  let ?t = "snd (token_apply (\<lambda>_. 4) Complete (new_token (\<lambda>_. 0) ''t'' ''i'' None PROCESS None))"
  have st: "tok_state ?t = COMPLETED"
    by (simp add: token_apply_def get_state_def new_token_def finish_def set_state_def)
  then have "is_completed ?t" by (simp add: is_completed_def)
  from token_final_absorbing [OF token_reach.op [OF token_reach.create] this] st show ?thesis by simp
qed

text \<open>
  In every token the class can produce, the completion time is set exactly in the final
  states, an active token has no wait information and a waiting one has both entries, and the
  execution path and the child list have no duplicates.
\<close>

theorem token_invariant:
  assumes "token_reach t"
  shows "(completed_at t \<noteq> None \<longleftrightarrow> is_completed t) \<and>
     (is_waiting t \<longrightarrow> waiting_for t \<noteq> None \<and> wait_start_time t \<noteq> None) \<and>
     (is_active t \<longrightarrow> waiting_for t = None \<and> wait_start_time t = None) \<and>
     distinct (execution_path t) \<and> distinct (child_token_ids t)"
  using token_reach_inv [OF assms]
  by (auto simp: token_inv_def final_state_def is_completed_def is_waiting_def is_active_def)

theorem token_invariant_witness:
  "waiting_for (snd (token_apply (\<lambda>_. 4) Resume (snd (token_apply (\<lambda>_. 3) (Wait ''m'')
     (new_token (\<lambda>_. 0) ''t'' ''i'' None PROCESS None))))) = None"
proof -
  let ?t = "snd (token_apply (\<lambda>_. 4) Resume (snd (token_apply (\<lambda>_. 3) (Wait ''m'')
     (new_token (\<lambda>_. 0) ''t'' ''i'' None PROCESS None))))"
  have "is_active ?t"
    by (simp add: token_apply_def get_state_def new_token_def set_state_def is_active_def)
  with token_invariant [OF token_reach.op [OF token_reach.op [OF token_reach.create]]] show ?thesis by blast
qed

text \<open>
  A token that is completed, terminated or merged while it waits keeps its wait start, so
  \<open>get_wait_duration_ms\<close> goes on growing with the clock after the token has ended.
\<close>

theorem wait_outlives_completion:
  assumes "x \<in> {Complete, Terminate, Merge}"
  shows "let t = snd (token_apply clk' x (snd (token_apply clk (Wait reason) (new_token c tid iid par tt el))))
         in is_completed t \<and> get_wait_duration_ms now t = Some (total_ms (now 0 - clk 0))"
  using assms
  by (auto simp: Let_def token_apply_def get_state_def new_token_def set_state_def finish_def
      is_completed_def get_wait_duration_ms_def)

theorem wait_outlives_completion_witness:
  "let t = snd (token_apply (\<lambda>_. 9) Merge (snd (token_apply (\<lambda>_. 7) (Wait ''m'') (new_token (\<lambda>_. 0) ''t'' ''i'' None PROCESS None))))
   in is_completed t \<and> get_wait_duration_ms (\<lambda>_. 1001007) t = Some (total_ms 1001000)"
  using wait_outlives_completion [of Merge "\<lambda>_. 9" "\<lambda>_. 7" "''m''" "\<lambda>_. 0" "''t''" "''i''" None PROCESS None "\<lambda>_. 1001007"]
  by simp

end
