(* ===== verification/Repository.thy ===== *)
theory Repository
  imports PyVal "HOL-Library.List_Lexorder" "HOL-Library.Char_ord"
begin

section \<open>Repositories of runtime records\<close>

text \<open>
  \<open>persistence/repository.py\<close>, \<open>runtime_records.py\<close> (payload normalisation),
  \<open>history_repository.py\<close>, \<open>event_repository.py\<close> and the query methods of the token, instance
  and variable repositories.  A repository is the \<open>dict\<close> of its records; the lock that
  serialises its methods makes each of them one step.  The persistent variant is modelled in
  the configuration without key-value, time-series and log storage, which is its default.
\<close>

type_synonym repo = "(string, pydict) dict"

subsection \<open>InMemoryRepository\<close>

definition repo_save :: "string \<Rightarrow> pydict \<Rightarrow> repo \<Rightarrow> pydict \<times> repo" where
  "repo_save key payload r = (payload, dset key payload r)"

definition repo_get :: "string \<Rightarrow> repo \<Rightarrow> pydict option" where
  "repo_get key r = dget r key"

definition repo_delete :: "string \<Rightarrow> repo \<Rightarrow> bool \<times> repo" where
  "repo_delete key r = (has_key r key, ddel key r)"

definition repo_list :: "(pydict \<Rightarrow> bool) option \<Rightarrow> repo \<Rightarrow> pydict list" where
  "repo_list pred r = (case pred of None \<Rightarrow> dvals r | Some q \<Rightarrow> filter q (dvals r))"

definition repo_clear :: "repo \<Rightarrow> repo" where
  "repo_clear r = []"

subsection \<open>Normalised records and the persistent repository\<close>

text \<open>\<open>d.setdefault(k, v)\<close>\<close>

definition setdefault :: "string \<Rightarrow> pyval \<Rightarrow> pydict \<Rightarrow> pydict" where
  "setdefault k v d = (if has_key d k then d else d @ [(k, v)])"

definition normalize_runtime_payload :: "datetime \<Rightarrow> string \<Rightarrow> string \<Rightarrow> pydict \<Rightarrow> pydict" where
  "normalize_runtime_payload now uuid record_type payload =
     (let iso = PStr (isoformat now);
          d1 = setdefault ''record_id'' (PStr uuid) payload;
          d2 = setdefault ''record_type'' (PStr record_type) d1;
          d3 = setdefault ''created_at'' iso d2
      in setdefault ''updated_at'' (pget_or d3 ''created_at'' iso) d3)"

definition snapshot_payload ::
  "datetime \<Rightarrow> string \<Rightarrow> string \<Rightarrow> string \<Rightarrow> datetime \<Rightarrow> datetime \<Rightarrow> pydict \<Rightarrow> pydict" where
  "snapshot_payload now uuid iid st created updated data =
     normalize_runtime_payload now uuid ''state_snapshot''
       [(''instance_id'', PStr iid), (''state'', PStr st),
        (''created_at'', PStr (isoformat created)), (''updated_at'', PStr (isoformat updated)),
        (''data'', PDict data)]"

definition save_persisted :: "datetime \<Rightarrow> string \<Rightarrow> string \<Rightarrow> string \<Rightarrow> pydict \<Rightarrow> repo \<Rightarrow> pydict \<times> repo" where
  "save_persisted now uuid record_type key payload r =
     repo_save key (normalize_runtime_payload now uuid record_type payload) r"

definition get_persisted :: "string \<Rightarrow> repo \<Rightarrow> pydict option" where
  "get_persisted key r = (case repo_get key r of Some cached \<Rightarrow> Some cached | None \<Rightarrow> None)"

definition delete_persisted :: "string \<Rightarrow> repo \<Rightarrow> bool \<times> repo" where
  "delete_persisted key r = repo_delete key r"

text \<open>\<open>_parse_timestamp\<close>: the first of the three entries that is or parses as a datetime.\<close>

fun parse_timestamp_from :: "datetime \<Rightarrow> pyval list \<Rightarrow> datetime" where
  "parse_timestamp_from now [] = now"
| "parse_timestamp_from now (PTime t # vs) = t"
| "parse_timestamp_from now (PStr s # vs) =
     (case fromisoformat s of Inr t \<Rightarrow> t | Inl _ \<Rightarrow> parse_timestamp_from now vs)"
| "parse_timestamp_from now (v # vs) = parse_timestamp_from now vs"

definition parse_timestamp :: "datetime \<Rightarrow> pydict \<Rightarrow> datetime" where
  "parse_timestamp now payload =
     parse_timestamp_from now [pget payload ''updated_at'', pget payload ''created_at'', pget payload ''recorded_at'']"

subsection \<open>Queries of the record repositories\<close>

definition get_by_instance :: "string \<Rightarrow> repo \<Rightarrow> pydict list" where
  "get_by_instance iid = repo_list (Some (\<lambda>row. pget row ''instance_id'' = PStr iid))"

definition get_by_scope :: "string \<Rightarrow> string \<Rightarrow> repo \<Rightarrow> pydict list" where
  "get_by_scope iid scope =
     repo_list (Some (\<lambda>row. pget row ''instance_id'' = PStr iid \<and> pget row ''scope_id'' = PStr scope))"

definition get_by_definition :: "string \<Rightarrow> repo \<Rightarrow> pydict list" where
  "get_by_definition did = repo_list (Some (\<lambda>row. pget row ''definition_id'' = PStr did))"

definition get_active :: "repo \<Rightarrow> pydict list" where
  "get_active = repo_list (Some (\<lambda>row. pget row ''state'' = PStr ''active''))"

text \<open>
  \<open>sorted(rows, key=lambda item: item.get("created_at", ""))\<close>: a stable sort by text.  Comparing
  text with another type raises; rows of that kind are \<open>Unmodelled\<close>.
\<close>

definition created_key :: "pydict \<Rightarrow> string option" where
  "created_key row = (case pget_or row ''created_at'' (PStr []) of PStr s \<Rightarrow> Some s | _ \<Rightarrow> None)"

definition sort_created :: "pydict list \<Rightarrow> pydict list result" where
  "sort_created rows =
     (if list_all (\<lambda>row. created_key row \<noteq> None) rows
      then Inr (sort_key (\<lambda>row. the (created_key row)) rows)
      else Inl (Unmodelled ''sorted''))"

subsection \<open>HistoryRepository\<close>

definition history_append :: "datetime \<Rightarrow> string \<Rightarrow> pydict \<Rightarrow> repo \<Rightarrow> repo result" where
  "history_append now iid data r =
     (let p1 = setdefault ''instance_id'' (PStr iid) data;
          p2 = setdefault ''created_at'' (PStr (isoformat now)) p1
      in bindr (py_str (pget p2 ''created_at'')) (\<lambda>c.
           Inr (snd (repo_save (iid @ '':'' @ c) p2 r))))"

definition append_persisted ::
  "datetime \<Rightarrow> datetime \<Rightarrow> string \<Rightarrow> string \<Rightarrow> pydict \<Rightarrow> repo \<Rightarrow> (pydict \<times> repo) result" where
  "append_persisted now now' uuid iid data r =
     (let p1 = setdefault ''instance_id'' (PStr iid) data;
          p2 = setdefault ''created_at'' (PStr (isoformat now)) p1;
          p3 = setdefault ''action'' (pget_or p2 ''action'' (PStr ''history.append'')) p2
      in bindr (py_str (pget p3 ''created_at'')) (\<lambda>c.
           Inr (save_persisted now' uuid ''audit'' (iid @ '':'' @ c) p3 r)))"

definition history_query :: "string \<Rightarrow> repo \<Rightarrow> pydict list result" where
  "history_query iid r = sort_created (get_by_instance iid r)"

definition generate_audit_description :: "pydict \<Rightarrow> string result" where
  "generate_audit_description record =
     bindr (py_str (pget_or record ''activity_id'' (PStr ''Unknown Activity''))) (\<lambda>act.
     (case pget_or record ''action'' (PStr ''Unknown Action'') of
        PStr a \<Rightarrow> Inr (dget_or
          [(''process.start'', ''Process started for activity '' @ act),
           (''process.complete'', ''Process completed for activity '' @ act),
           (''task.assign'', ''Task assigned: '' @ act),
           (''task.complete'', ''Task completed: '' @ act),
           (''state.enter'', ''Entered state: '' @ act),
           (''state.exit'', ''Exited state: '' @ act),
           (''transition.take'', ''Transition taken: '' @ act)] a (a @ '' on '' @ act))
      | PList _ \<Rightarrow> Inl (TypeError ''unhashable'')
      | PDict _ \<Rightarrow> Inl (TypeError ''unhashable'')
      | v \<Rightarrow> bindr (py_str v) (\<lambda>a. Inr (a @ '' on '' @ act))))"

definition audit_entry :: "pydict \<Rightarrow> pydict result" where
  "audit_entry record =
     bindr (generate_audit_description record) (\<lambda>desc. Inr
       [(''timestamp'', pget record ''created_at''),
        (''instance_id'', pget record ''instance_id''),
        (''activity_id'', pget record ''activity_id''),
        (''action'', pget record ''action''),
        (''description'', PStr desc),
        (''payload'', pget_or record ''payload'' (PDict [])),
        (''metadata'', PDict [(''record_id'', pget record ''record_id''),
                              (''record_type'', pget record ''record_type'')])])"

definition reconstruct_audit_trail :: "string \<Rightarrow> repo \<Rightarrow> pydict list result" where
  "reconstruct_audit_trail iid r = bindr (history_query iid r) (mapr audit_entry)"

definition group_add :: "pydict \<Rightarrow> (pyval, pydict list) dict \<Rightarrow> (pyval, pydict list) dict" where
  "group_add entry g =
     (let a = pget_or entry ''activity_id'' (PStr ''unknown'')
      in dset a (dget_or g a [] @ [entry]) g)"

definition reconstruct_audit_trail_by_activity ::
  "string \<Rightarrow> repo \<Rightarrow> (pyval, pydict list) dict result" where
  "reconstruct_audit_trail_by_activity iid r =
     bindr (reconstruct_audit_trail iid r) (\<lambda>trail. Inr (fold group_add trail []))"

text \<open>\<open>any(word in action.lower() for word in [...])\<close>\<close>

definition lower_char :: "char \<Rightarrow> char" where
  "lower_char c = (let n = of_char c :: nat in if 65 \<le> n \<and> n \<le> 90 then char_of (n + 32) else c)"

fun contains :: "string \<Rightarrow> string \<Rightarrow> bool" where
  "contains pat [] = (pat = [])"
| "contains pat (c # s) = (take (length pat) (c # s) = pat \<or> contains pat s)"

definition transition_words :: "string list" where
  "transition_words = [''start'', ''complete'', ''suspend'', ''resume'', ''cancel'', ''terminate'']"

definition is_transition_entry :: "pydict \<Rightarrow> bool result" where
  "is_transition_entry entry =
     (case pget_or entry ''action'' (PStr []) of
        PStr a \<Rightarrow> Inr (list_ex (\<lambda>w. contains w (map lower_char a)) transition_words)
      | PBytes _ \<Rightarrow> Inl (TypeError ''in'')
      | PObj _ \<Rightarrow> Inl (Unmodelled ''lower'')
      | _ \<Rightarrow> Inl (TypeError ''lower''))"

fun filterr :: "('a \<Rightarrow> bool result) \<Rightarrow> 'a list \<Rightarrow> 'a list result" where
  "filterr q [] = Inr []"
| "filterr q (x # xs) =
     bindr (q x) (\<lambda>b. bindr (filterr q xs) (\<lambda>ys. Inr (if b then x # ys else ys)))"

definition get_instance_transitions :: "string \<Rightarrow> repo \<Rightarrow> pydict list result" where
  "get_instance_transitions iid r = bindr (reconstruct_audit_trail iid r) (filterr is_transition_entry)"

subsection \<open>EventRepository\<close>

definition event_append_persisted ::
  "datetime \<Rightarrow> datetime \<Rightarrow> string \<Rightarrow> pydict \<Rightarrow> repo \<Rightarrow> (pydict \<times> repo) result" where
  "event_append_persisted now now' uuid event r =
     (let p1 = setdefault ''recorded_at'' (PStr (isoformat now)) event;
          p2 = setdefault ''event_type'' (pget_or p1 ''type'' (PStr ''event'')) p1
      in bindr (if truthy (pget p2 ''event_id'') then py_str (pget p2 ''event_id'')
                else bindr (py_str (pget_or p2 ''event_type'' (PStr ''event''))) (\<lambda>et.
                     bindr (py_str (pget p2 ''recorded_at'')) (\<lambda>ra. Inr (et @ '':'' @ ra))))
           (\<lambda>key. Inr (save_persisted now' uuid ''event'' key p2 r)))"

definition by_correlation :: "string \<Rightarrow> repo \<Rightarrow> pydict list" where
  "by_correlation cid = repo_list (Some (\<lambda>row. pget row ''correlation_id'' = PStr cid))"

definition by_instance_and_time_ordered :: "string \<Rightarrow> repo \<Rightarrow> pydict list result" where
  "by_instance_and_time_ordered iid r = sort_created (get_by_instance iid r)"

text \<open>\<open>sorted(..., reverse=True)\<close> keeps the order of equal keys: the reversal of the stable sort of the reversal.\<close>

definition by_instance_and_time_ordered_desc :: "string \<Rightarrow> repo \<Rightarrow> pydict list result" where
  "by_instance_and_time_ordered_desc iid r =
     bindr (sort_created (rev (get_by_instance iid r))) (\<lambda>rows. Inr (rev rows))"

definition by_time_range :: "string \<Rightarrow> string \<Rightarrow> repo \<Rightarrow> pydict list result" where
  "by_time_range t0 t1 r =
     bindr (filterr (\<lambda>row. case created_key row of
               Some c \<Rightarrow> Inr (t0 \<le> c \<and> c \<le> t1) | None \<Rightarrow> Inl (TypeError ''>='')) (dvals r))
       sort_created"

subsection \<open>The contract of a repository\<close>

text \<open>
  What the managers rely on: a record that was saved is read back with everything that was
  written into it (the repository may append administrative entries of its own), and saving
  under one key leaves the others alone.
\<close>

definition admin_keys :: "string set" where
  "admin_keys = {''record_id'', ''record_type'', ''created_at'', ''updated_at''}"

locale repository =
  fixes save :: "string \<Rightarrow> pydict \<Rightarrow> 'r \<Rightarrow> pydict \<times> 'r"
    and get :: "string \<Rightarrow> 'r \<Rightarrow> pydict option"
  assumes get_save: "\<exists>ext. fst ` set ext \<subseteq> admin_keys \<and> get k (snd (save k p r)) = Some (p @ ext)"
    and get_save_other: "k' \<noteq> k \<Longrightarrow> get k' (snd (save k p r)) = get k' r"
begin

lemma read_back:
  assumes "\<And>ext. fst ` set ext \<subseteq> admin_keys \<Longrightarrow> parse (p @ ext) = v"
  shows "map_option parse (get k (snd (save k p r))) = Some v"
  using get_save [of k p r] assms by auto

lemma read_back_other:
  assumes "\<And>ext. fst ` set ext \<subseteq> admin_keys \<Longrightarrow> parse (p @ ext) = v" and "k \<noteq> k'"
  shows "map_option parse (get k (snd (save k' q (snd (save k p r))))) = Some v"
  using read_back [of parse p v k r] get_save_other [OF assms(2)] assms(1) by simp

end

interpretation memory_repo: repository repo_save repo_get
  by unfold_locales (auto simp: repo_save_def repo_get_def intro: exI [where x = "[]"])

lemma normalize_ext:
  "\<exists>ext. fst ` set ext \<subseteq> admin_keys \<and> normalize_runtime_payload now uuid rt p = p @ ext"
proof -
  have step: "\<exists>ext. fst ` set ext \<subseteq> admin_keys \<and> setdefault k v d = p @ ext"
    if prem: "\<exists>ext. fst ` set ext \<subseteq> admin_keys \<and> d = p @ ext" "k \<in> admin_keys" for k v and d :: pydict
  proof -
    obtain ext where ext: "fst ` set ext \<subseteq> admin_keys" "d = p @ ext" using prem(1) by blast
    show ?thesis
    proof (cases "has_key d k")
      case True
      then have "setdefault k v d = p @ ext" using ext by (simp add: setdefault_def)
      then show ?thesis using ext(1) by blast
    next
      case False
      then have "setdefault k v d = p @ (ext @ [(k, v)])" using ext by (simp add: setdefault_def)
      moreover have "fst ` set (ext @ [(k, v)]) \<subseteq> admin_keys" using ext(1) prem(2) by simp
      ultimately show ?thesis by blast
    qed
  qed
  show ?thesis
    unfolding normalize_runtime_payload_def Let_def
    by (intro step) (auto simp: admin_keys_def intro: exI [where x = "[]"])
qed

interpretation persistent_repo: repository "save_persisted now uuid rt" get_persisted
proof
  fix k p and r :: repo
  show "\<exists>ext. fst ` set ext \<subseteq> admin_keys \<and>
      get_persisted k (snd (save_persisted now uuid rt k p r)) = Some (p @ ext)"
    using normalize_ext [of now uuid rt p]
    by (auto simp: get_persisted_def save_persisted_def repo_save_def repo_get_def)
next
  fix k k' :: string and p and r :: repo
  assume "k' \<noteq> k"
  then show "get_persisted k' (snd (save_persisted now uuid rt k p r)) = get_persisted k' r"
    by (simp add: get_persisted_def save_persisted_def repo_save_def repo_get_def)
qed

subsection \<open>What normalisation and the queries guarantee\<close>

lemma dget_setdefault:
  "dget (setdefault k v d) k' = (if k' = k then Some (dget_or d k v) else dget d k')"
  by (auto simp: setdefault_def has_key_def dget_or_def map_add_def split: option.splits)

lemma sort_created_spec:
  assumes "sort_created rows = Inr out"
  shows "mset out = mset rows" and "sorted (map (\<lambda>row. the (created_key row)) out)"
    and "filter (\<lambda>row. created_key row = Some c) out = filter (\<lambda>row. created_key row = Some c) rows"
proof -
  have all: "list_all (\<lambda>row. created_key row \<noteq> None) rows"
    and out: "out = sort_key (\<lambda>row. the (created_key row)) rows"
    using assms by (auto simp: sort_created_def split: if_splits)
  show "mset out = mset rows" "sorted (map (\<lambda>row. the (created_key row)) out)"
    by (simp_all add: out)
  have "filter (\<lambda>row. the (created_key row) = c) out = filter (\<lambda>row. the (created_key row) = c) rows"
    by (simp add: out sort_key_stable)
  moreover have "filter (\<lambda>row. created_key row = Some c) xs = filter (\<lambda>row. the (created_key row) = c) xs"
    if "set xs \<subseteq> set rows" for xs
    using that all by (intro filter_cong) (auto simp: list_all_iff)
  moreover have "set out \<subseteq> set rows" by (simp add: out)
  ultimately show "filter (\<lambda>row. created_key row = Some c) out = filter (\<lambda>row. created_key row = Some c) rows"
    by simp
qed

subsection \<open>Properties\<close>

text \<open>
  The history of an instance is a stable sort of its records by the creation time: no record
  is lost, added or changed, the creation times ascend, and records of the same time keep the
  order in which they were stored.
\<close>

theorem history_query_stable_sort:
  assumes "history_query iid r = Inr rows"
  shows "mset rows = mset (get_by_instance iid r) \<and>
    sorted (map (\<lambda>row. the (created_key row)) rows) \<and>
    filter (\<lambda>row. created_key row = Some c) rows = filter (\<lambda>row. created_key row = Some c) (get_by_instance iid r)"
  using sort_created_spec [OF assms [unfolded history_query_def]] by blast

theorem history_query_stable_sort_witness:
  "\<exists>rows. history_query ''i'' [(''a'', [(''instance_id'', PStr ''i''), (''created_at'', PStr ''2'')]),
       (''b'', [(''instance_id'', PStr ''i''), (''created_at'', PStr ''1'')])] = Inr rows \<and>
     sorted (map (\<lambda>row. the (created_key row)) rows)"
proof -
  let ?r = "[(''a'', [(''instance_id'', PStr ''i''), (''created_at'', PStr ''2'')]),
       (''b'', [(''instance_id'', PStr ''i''), (''created_at'', PStr ''1'')])]"
  obtain rows where "history_query ''i'' ?r = Inr rows"
    by (simp add: history_query_def get_by_instance_def repo_list_def sort_created_def created_key_def pget_def dget_or_def)
  with history_query_stable_sort [OF this] show ?thesis by blast
qed

text \<open>
  Two history records of one instance with the same creation time have the same key: the
  second one replaces the first, and the repository does not grow.
\<close>

theorem history_append_same_time_overwrites:
  assumes "dget d1 ''created_at'' = Some (PStr c)" and "dget d2 ''created_at'' = Some (PStr c)"
  shows "\<exists>r1 r2. history_append t1 iid d1 r = Inr r1 \<and> history_append t2 iid d2 r1 = Inr r2 \<and>
    length r2 = length r1 \<and> repo_get (iid @ '':'' @ c) r2 = Some (setdefault ''instance_id'' (PStr iid) d2)"
proof -
  have app: "history_append t iid d q = Inr (dset (iid @ '':'' @ c) (setdefault ''instance_id'' (PStr iid) d) q)"
    if "dget d ''created_at'' = Some (PStr c)" for t d q
  proof -
    have "setdefault ''created_at'' v (setdefault ''instance_id'' (PStr iid) d) = setdefault ''instance_id'' (PStr iid) d" for v
      using that by (simp add: setdefault_def has_key_def)
    moreover have "pget (setdefault ''instance_id'' (PStr iid) d) ''created_at'' = PStr c"
      using that by (simp add: pget_def dget_or_def dget_setdefault)
    ultimately show ?thesis by (simp add: history_append_def repo_save_def)
  qed
  show ?thesis
    unfolding app [OF assms(1)] app [OF assms(2)] by (simp add: repo_get_def length_dset has_key_def)
qed

theorem history_append_same_time_overwrites_witness:
  "\<exists>r1 r2. history_append 0 ''i'' [(''created_at'', PStr ''c''), (''action'', PStr ''a'')] [] = Inr r1 \<and>
     history_append 0 ''i'' [(''created_at'', PStr ''c''), (''action'', PStr ''b'')] r1 = Inr r2 \<and> length r2 = length r1"
  using history_append_same_time_overwrites [of "[(''created_at'', PStr ''c''), (''action'', PStr ''a'')]" "''c''"
      "[(''created_at'', PStr ''c''), (''action'', PStr ''b'')]" 0 "''i''" "[]" 0] by auto

end
