(* ===== verification/TokenManagers.thy ===== *)
theory TokenManagers
  imports Tokens Repository
begin

section \<open>The token manager\<close>

text \<open>
  \<open>TokenManager\<close> of \<open>core/token.py\<close>: the \<open>dict\<close> of tokens with an index by instance and one by
  element.  The tokens are shared objects in the code; here the manager's \<open>dict\<close> holds their
  current value and every method that changes a token changes its entry.  New ids come from
  the argument \<open>ids\<close> (\<open>str(uuid4())\<close>), clock readings from \<open>clk\<close>.  A method that can raise
  returns its result or exception together with the manager it leaves.
\<close>

record TokenManager =
  tm_tokens :: "(string, Token) dict"
  tm_instance_tokens :: "(string, string) index"
  tm_element_tokens :: "(string, string) index"

definition token_manager_init :: TokenManager where
  "token_manager_init = \<lparr>tm_tokens = [], tm_instance_tokens = [], tm_element_tokens = []\<rparr>"

definition update_token :: "string \<Rightarrow> (Token \<Rightarrow> Token) \<Rightarrow> TokenManager \<Rightarrow> TokenManager" where
  "update_token tid f m =
     (case dget (tm_tokens m) tid of
        None \<Rightarrow> m
      | Some t \<Rightarrow> m\<lparr>tm_tokens := dset tid (f t) (tm_tokens m)\<rparr>)"

definition file_token :: "string \<Rightarrow> Token \<Rightarrow> TokenManager \<Rightarrow> TokenManager" where
  "file_token tid t m =
     m\<lparr>tm_tokens := dset tid t (tm_tokens m),
       tm_instance_tokens := idx_add (instance_id t) tid (tm_instance_tokens m),
       tm_element_tokens :=
         fold (\<lambda>e ix. idx_add e tid ix) (nonempty_opt (current_element_id t)) (tm_element_tokens m)\<rparr>"

definition create_token ::
  "clock \<Rightarrow> string \<Rightarrow> string \<Rightarrow> string option \<Rightarrow> TokenType \<Rightarrow> string option \<Rightarrow> string option
    \<Rightarrow> TokenManager \<Rightarrow> Token \<times> TokenManager" where
  "create_token clk uuid iid parent tt elem tid_opt m =
     (let tid = (case tid_opt of None \<Rightarrow> uuid | Some x \<Rightarrow> x);
          t = new_token clk tid iid parent tt elem;
          m1 = file_token tid t m;
          m2 = (case nonempty_opt parent of
                  [] \<Rightarrow> m1
                | p # _ \<Rightarrow> update_token p (add_child_token tid) m1)
      in (t, m2))"

definition get_token :: "string \<Rightarrow> TokenManager \<Rightarrow> Token option" where
  "get_token tid m = dget (tm_tokens m) tid"

definition remove_token :: "string \<Rightarrow> TokenManager \<Rightarrow> bool \<times> TokenManager" where
  "remove_token tid m =
     (case dget (tm_tokens m) tid of
        None \<Rightarrow> (False, m)
      | Some t \<Rightarrow>
          (True,
           m\<lparr>tm_tokens := ddel tid (tm_tokens m),
             tm_instance_tokens := idx_discard (instance_id t) tid (tm_instance_tokens m),
             tm_element_tokens :=
               fold (\<lambda>e ix. idx_discard e tid ix) (nonempty_opt (current_element_id t))
                 (tm_element_tokens m)\<rparr>))"

definition get_instance_tokens :: "string \<Rightarrow> TokenManager \<Rightarrow> Token list" where
  "get_instance_tokens iid m = select (tm_tokens m) (idx_get (tm_instance_tokens m) iid)"

definition get_active_tokens :: "string \<Rightarrow> TokenManager \<Rightarrow> Token list" where
  "get_active_tokens iid m = filter is_active (get_instance_tokens iid m)"

definition get_waiting_tokens :: "string \<Rightarrow> TokenManager \<Rightarrow> Token list" where
  "get_waiting_tokens iid m = filter is_waiting (get_instance_tokens iid m)"

definition get_element_tokens :: "string \<Rightarrow> TokenManager \<Rightarrow> Token list" where
  "get_element_tokens eid m = select (tm_tokens m) (idx_get (tm_element_tokens m) eid)"

text \<open>A method of a stored token, called through the manager's reference to it.\<close>

definition token_call :: "clock \<Rightarrow> token_op \<Rightarrow> string \<Rightarrow> TokenManager \<Rightarrow> TokenManager outcome" where
  "token_call clk x tid m =
     (case dget (tm_tokens m) tid of
        None \<Rightarrow> (None, m)
      | Some t \<Rightarrow> (case token_apply clk x t of
          (e, t') \<Rightarrow> (e, m\<lparr>tm_tokens := dset tid t' (tm_tokens m)\<rparr>)))"

fun split_loop ::
  "clock \<Rightarrow> (nat \<Rightarrow> string) \<Rightarrow> string \<Rightarrow> string \<Rightarrow> TokenType \<Rightarrow> string list \<Rightarrow> TokenManager
    \<Rightarrow> Token list \<times> TokenManager" where
  "split_loop clk ids iid par tt [] m = ([], m)"
| "split_loop clk ids iid par tt (e # es) m =
     (case create_token clk (ids 0) iid (Some par) tt (Some e) None m of
        (t, m1) \<Rightarrow>
          (case split_loop (\<lambda>i. clk (i + 2)) (\<lambda>i. ids (Suc i)) iid par tt es m1 of
             (ts, m2) \<Rightarrow> (t # ts, m2)))"

definition split_token ::
  "clock \<Rightarrow> (nat \<Rightarrow> string) \<Rightarrow> string \<Rightarrow> string list \<Rightarrow> TokenType \<Rightarrow> TokenManager
    \<Rightarrow> Token list result \<times> TokenManager" where
  "split_token clk ids par targets tt m =
     (case dget (tm_tokens m) par of
        None \<Rightarrow> (Inl (ValueError (''Parent token not found: '' @ par)), m)
      | Some p \<Rightarrow>
          (case split_loop clk ids (instance_id p) par tt targets m of
             (kids, m1) \<Rightarrow>
               (case token_call (\<lambda>i. clk (i + 2 * length targets))
                       (Wait (''split_into_'' @ dec (length kids) @ ''_tokens'')) par m1 of
                  (None, m2) \<Rightarrow> (Inr kids, m2)
                | (Some e, m2) \<Rightarrow> (Inl e, m2))))"

fun merge_loop :: "clock \<Rightarrow> string list \<Rightarrow> TokenManager \<Rightarrow> TokenManager outcome" where
  "merge_loop clk [] m = (None, m)"
| "merge_loop clk (tid # tids) m =
     (case token_call clk Merge tid m of
        (Some e, m1) \<Rightarrow> (Some e, m1)
      | (None, m1) \<Rightarrow> merge_loop (\<lambda>i. clk (i + 2)) tids m1)"

definition merge_tokens ::
  "clock \<Rightarrow> string \<Rightarrow> string list \<Rightarrow> string \<Rightarrow> bool \<Rightarrow> TokenManager
    \<Rightarrow> Token option result \<times> TokenManager" where
  "merge_tokens clk uuid tids target create_new m =
     (case filter (\<lambda>tid. has_key (tm_tokens m) tid) tids of
        [] \<Rightarrow> (Inr None, m)
      | tid # rest \<Rightarrow>
          (let iid = (case dget (tm_tokens m) tid of None \<Rightarrow> [] | Some t \<Rightarrow> instance_id t);
               clk' = (\<lambda>i. clk (i + 2 * length (tid # rest)))
           in case merge_loop clk (tid # rest) m of
                (Some e, m1) \<Rightarrow> (Inl e, m1)
              | (None, m1) \<Rightarrow>
                  if create_new
                  then (case create_token clk' uuid iid None PROCESS (Some target) None m1 of
                          (t, m2) \<Rightarrow> (Inr (Some t), m2))
                  else (let m2 = update_token tid
                               (\<lambda>t. move_to clk' target ''merged'' (t\<lparr>tok_state := ACTIVE\<rparr>)) m1
                        in (Inr (get_token tid m2), m2))))"

definition cleanup_completed_tokens :: "string \<Rightarrow> TokenManager \<Rightarrow> nat \<times> TokenManager" where
  "cleanup_completed_tokens iid m =
     (let completed = filter is_completed (get_instance_tokens iid m)
      in (length completed, fold (\<lambda>t m. snd (remove_token (token_id t) m)) completed m))"

record token_statistics =
  ts_total :: nat
  ts_states :: "(string, nat) dict"
  ts_types :: "(string, nat) dict"
  ts_instances :: nat
  ts_elements :: nat

definition token_get_statistics :: "TokenManager \<Rightarrow> token_statistics" where
  "token_get_statistics m =
     \<lparr>ts_total = length (tm_tokens m),
      ts_states = tally (map (token_state_value \<circ> tok_state) (dvals (tm_tokens m))),
      ts_types = tally (map (token_type_value \<circ> token_type) (dvals (tm_tokens m))),
      ts_instances = length (tm_instance_tokens m),
      ts_elements = length (tm_element_tokens m)\<rparr>"

text \<open>
  Persistence: \<open>save\<close> and \<open>get\<close> are the methods of the repository that \<open>hasattr\<close> selects; the
  optional repository is threaded through.
\<close>

definition persist_token ::
  "(string \<Rightarrow> pydict \<Rightarrow> 'r \<Rightarrow> pydict \<times> 'r) \<Rightarrow> string \<Rightarrow> TokenManager \<Rightarrow> 'r option
    \<Rightarrow> pydict option \<times> 'r option" where
  "persist_token save tid m rep =
     (case rep of
        None \<Rightarrow> (None, None)
      | Some r \<Rightarrow>
          (case get_token tid m of
             None \<Rightarrow> (None, Some r)
           | Some t \<Rightarrow> (case save tid (token_to_record t) r of (p, r') \<Rightarrow> (Some p, Some r'))))"

definition load_token ::
  "(string \<Rightarrow> 'r \<Rightarrow> pydict option) \<Rightarrow> clock \<Rightarrow> 'r option \<Rightarrow> string \<Rightarrow> TokenManager
    \<Rightarrow> Token option result \<times> TokenManager" where
  "load_token get clk rep tid m =
     (case rep of
        None \<Rightarrow> (Inr (get_token tid m), m)
      | Some r \<Rightarrow>
          (case get tid r of
             None \<Rightarrow> (Inr None, m)
           | Some payload \<Rightarrow>
               (case token_from_record clk payload of
                  Inl e \<Rightarrow> (Inl e, m)
                | Inr t \<Rightarrow> (Inr (Some t), file_token (token_id t) t m))))"

fun load_rows :: "clock \<Rightarrow> pydict list \<Rightarrow> TokenManager \<Rightarrow> Token list result \<times> TokenManager" where
  "load_rows clk [] m = (Inr [], m)"
| "load_rows clk (p # ps) m =
     (case token_from_record clk p of
        Inl e \<Rightarrow> (Inl e, m)
      | Inr t \<Rightarrow>
          (case load_rows clk ps (file_token (token_id t) t m) of
             (Inl e, m') \<Rightarrow> (Inl e, m')
           | (Inr ts, m') \<Rightarrow> (Inr (t # ts), m')))"

definition load_instance_tokens ::
  "('r \<Rightarrow> string \<Rightarrow> pydict list) option \<Rightarrow> clock \<Rightarrow> 'r option \<Rightarrow> string \<Rightarrow> TokenManager
    \<Rightarrow> Token list result \<times> TokenManager" where
  "load_instance_tokens by_instance clk rep iid m =
     (case rep of
        None \<Rightarrow> (Inr (get_instance_tokens iid m), m)
      | Some r \<Rightarrow> load_rows clk (case by_instance of None \<Rightarrow> [] | Some f \<Rightarrow> f r iid) m)"

subsection \<open>Frame facts\<close>

lemma token_apply_frame [simp, frame_simps]:
  "token_id (snd (token_apply clk x t)) = token_id t"
  "instance_id (snd (token_apply clk x t)) = instance_id t"
  "current_element_id (snd (token_apply clk x t)) = current_element_id t"
  "child_token_ids (snd (token_apply clk x t)) = child_token_ids t"
  "parent_token_id (snd (token_apply clk x t)) = parent_token_id t"
proof -
  define ob where "ob = fst (get_state t)"
  have t': "snd (get_state t) = t \<or> snd (get_state t) = t\<lparr>tok_state_obj := Some ob\<rparr>"
    by (auto simp: get_state_def ob_def Let_def split: option.splits)
  show "token_id (snd (token_apply clk x t)) = token_id t"
    "instance_id (snd (token_apply clk x t)) = instance_id t"
    "current_element_id (snd (token_apply clk x t)) = current_element_id t"
    "child_token_ids (snd (token_apply clk x t)) = child_token_ids t"
    "parent_token_id (snd (token_apply clk x t)) = parent_token_id t"
    using t'
    by (cases "get_state t"; cases ob; cases x;
        auto simp: token_apply_def token_method_defs ob_def)+
qed

lemma move_to_frame [simp, frame_simps]:
  "token_id (move_to clk e ty t) = token_id t" "instance_id (move_to clk e ty t) = instance_id t"
  "tok_state (move_to clk e ty t) = tok_state t" "tok_state_obj (move_to clk e ty t) = tok_state_obj t"
  "current_element_id (move_to clk e ty t) = Some e"
  by (simp_all add: move_to_def)

lemma add_child_frame [simp, frame_simps]:
  "token_id (add_child_token c t) = token_id t" "instance_id (add_child_token c t) = instance_id t"
  "tok_state (add_child_token c t) = tok_state t" "tok_state_obj (add_child_token c t) = tok_state_obj t"
  "current_element_id (add_child_token c t) = current_element_id t"
  "set (child_token_ids (add_child_token c t)) = insert c (set (child_token_ids t))"
  by (auto simp: add_child_token_def)

lemma new_token_simps [simp]:
  "token_id (new_token clk tid iid par tt el) = tid"
  "instance_id (new_token clk tid iid par tt el) = iid"
  "parent_token_id (new_token clk tid iid par tt el) = par"
  "token_type (new_token clk tid iid par tt el) = tt"
  "tok_state (new_token clk tid iid par tt el) = ACTIVE"
  "tok_state_obj (new_token clk tid iid par tt el) = None"
  "current_element_id (new_token clk tid iid par tt el) = el"
  by (simp_all add: new_token_def)

lemma tokens_update_token [simp]:
  "dget (tm_tokens (update_token tid f m)) k =
     (if k = tid then map_option f (dget (tm_tokens m) tid) else dget (tm_tokens m) k)"
  "tm_instance_tokens (update_token tid f m) = tm_instance_tokens m"
  "tm_element_tokens (update_token tid f m) = tm_element_tokens m"
  by (simp_all add: update_token_def split: option.splits)

lemma tokens_file_token [simp]:
  "dget (tm_tokens (file_token tid t m)) k = (if k = tid then Some t else dget (tm_tokens m) k)"
  "tm_instance_tokens (file_token tid t m) = idx_add (instance_id t) tid (tm_instance_tokens m)"
  by (simp_all add: file_token_def)

lemma token_call_update:
  "snd (token_call clk x tid m) = update_token tid (\<lambda>t. snd (token_apply clk x t)) m"
  by (simp add: token_call_def update_token_def split: option.splits prod.splits)

subsection \<open>The indexes\<close>

abbreviation instance_key :: "Token \<Rightarrow> string list" where
  "instance_key t \<equiv> [instance_id t]"

abbreviation element_key :: "Token \<Rightarrow> string list" where
  "element_key t \<equiv> nonempty_opt (current_element_id t)"

interpretation by_instance:
  indexed_store tm_tokens tm_instance_tokens instance_key file_token "\<lambda>i m. snd (remove_token i m)"
  by unfold_locales (auto simp: fun_eq_iff remove_token_def split: option.splits)

interpretation by_element:
  indexed_store tm_tokens tm_element_tokens element_key file_token "\<lambda>i m. snd (remove_token i m)"
proof
  fix i k and ob :: Token and s :: TokenManager
  show "idx_get (tm_element_tokens (file_token i ob s)) k =
    (if k \<in> set (element_key ob) then sadd i (idx_get (tm_element_tokens s) k)
     else idx_get (tm_element_tokens s) k)"
    using nonempty_opt_cases [of "current_element_id ob"] by (auto simp: file_token_def)
next
  fix i k and ob :: Token and s :: TokenManager
  assume "dget (tm_tokens s) i = Some ob"
  then show "idx_get (tm_element_tokens (snd (remove_token i s))) k =
    (if k \<in> set (element_key ob) then sdiscard i (idx_get (tm_element_tokens s) k)
     else idx_get (tm_element_tokens s) k)"
    using nonempty_opt_cases [of "current_element_id ob"] by (auto simp: remove_token_def)
qed (auto simp: fun_eq_iff remove_token_def split: option.splits)

definition tm_inv :: "TokenManager \<Rightarrow> bool" where
  "tm_inv m \<longleftrightarrow> dict_ok (tm_tokens m) \<and>
     (\<forall>tid t. dget (tm_tokens m) tid = Some t \<longrightarrow> token_id t = tid) \<and>
     index_consistent instance_key (tm_tokens m) (tm_instance_tokens m)"

lemma tm_inv_init: "tm_inv token_manager_init"
  by (simp add: tm_inv_def token_manager_init_def)

lemma tm_inv_file:
  assumes "tm_inv m" and "dget (tm_tokens m) tid = None" and "token_id t = tid"
  shows "tm_inv (file_token tid t m)"
  using assms by_instance.put_consistent [of m tid t]
  by (auto simp: tm_inv_def) (simp add: file_token_def)

lemma tm_inv_remove:
  assumes "tm_inv m"
  shows "tm_inv (snd (remove_token tid m))"
  using assms by_instance.drop_consistent [of m tid]
  by (auto simp: tm_inv_def by_instance.objs_drop split: if_splits)
     (simp add: remove_token_def split: option.splits)

lemma tm_inv_update:
  assumes "tm_inv m" and "\<And>t. token_id (f t) = token_id t" and "\<And>t. instance_id (f t) = instance_id t"
  shows "tm_inv (update_token tid f m)"
proof -
  have "index_consistent instance_key (tm_tokens (update_token tid f m)) (tm_instance_tokens m)"
    using assms by (auto simp: tm_inv_def index_consistent_def)
  moreover have "dict_ok (tm_tokens (update_token tid f m))"
    using assms(1) by (simp add: tm_inv_def update_token_def split: option.splits)
  ultimately show ?thesis
    using assms by (auto simp: tm_inv_def split: if_splits)
qed

lemma tm_inv_call: "tm_inv m \<Longrightarrow> tm_inv (snd (token_call clk x tid m))"
  by (simp add: token_call_update tm_inv_update)

lemma tm_inv_create:
  assumes "tm_inv m"
    and "dget (tm_tokens m) (case tid_opt of None \<Rightarrow> uuid | Some x \<Rightarrow> x) = None"
  shows "tm_inv (snd (create_token clk uuid iid par tt el tid_opt m))"
  using assms by (auto simp: create_token_def Let_def intro!: tm_inv_update tm_inv_file split: list.splits)

lemma tm_inv_merge_loop: "tm_inv m \<Longrightarrow> tm_inv (snd (merge_loop clk tids m))"
proof (induction clk tids m rule: merge_loop.induct)
  case (1 clk m)
  then show ?case by simp
next
  case (2 clk tid tids m)
  then show ?case
    using tm_inv_call [OF "2.prems", of clk Merge tid] by (auto split: prod.splits option.splits)
qed

subsection \<open>Splitting\<close>

text \<open>The \<open>i\<close>-th child of a split.\<close>

definition split_child ::
  "clock \<Rightarrow> (nat \<Rightarrow> string) \<Rightarrow> string \<Rightarrow> string \<Rightarrow> TokenType \<Rightarrow> string list \<Rightarrow> nat \<Rightarrow> Token" where
  "split_child clk ids iid par tt es i =
     new_token (\<lambda>j. clk (j + 2 * i)) (ids i) iid (Some par) tt (Some (es ! i))"

lemma split_child_Suc:
  "split_child clk ids iid par tt (e # es) (Suc i) =
     split_child (\<lambda>i. clk (i + 2)) (\<lambda>i. ids (Suc i)) iid par tt es i"
  by (simp add: split_child_def ac_simps)

definition fresh_ids :: "(nat \<Rightarrow> string) \<Rightarrow> nat \<Rightarrow> TokenManager \<Rightarrow> bool" where
  "fresh_ids ids n m \<longleftrightarrow> (\<forall>i < n. dget (tm_tokens m) (ids i) = None) \<and> inj_on ids {..<n}"

lemma create_child_tokens:
  assumes "par \<noteq> []" "dget (tm_tokens m) par = Some p" "dget (tm_tokens m) c = None"
  shows "create_token clk c iid (Some par) tt (Some e) None m =
      (new_token clk c iid (Some par) tt (Some e),
       update_token par (add_child_token c)
         (file_token c (new_token clk c iid (Some par) tt (Some e)) m))"
  using assms by (simp add: create_token_def nonempty_opt_def Let_def)

lemma split_loop_spec:
  assumes "par \<noteq> []" "dget (tm_tokens m) par = Some p" "fresh_ids ids (length es) m"
  shows "fst (split_loop clk ids iid par tt es m) =
      map (split_child clk ids iid par tt es) [0..<length es] \<and>
    (\<exists>p'. dget (tm_tokens (snd (split_loop clk ids iid par tt es m))) par = Some p' \<and>
        p' = p\<lparr>child_token_ids := child_token_ids p'\<rparr> \<and>
        set (child_token_ids p') = set (child_token_ids p) \<union> ids ` {..<length es}) \<and>
    (\<forall>i < length es. dget (tm_tokens (snd (split_loop clk ids iid par tt es m))) (ids i) =
        Some (split_child clk ids iid par tt es i)) \<and>
    (\<forall>tid. tid \<noteq> par \<longrightarrow> tid \<notin> ids ` {..<length es} \<longrightarrow>
        dget (tm_tokens (snd (split_loop clk ids iid par tt es m))) tid = dget (tm_tokens m) tid) \<and>
    (tm_inv m \<longrightarrow> tm_inv (snd (split_loop clk ids iid par tt es m)))"
  using assms(2,3)
proof (induction es arbitrary: clk ids m p)
  case Nil
  then show ?case by simp
next
  case (Cons e es)
  let ?c = "ids 0"
  let ?kid = "new_token clk ?c iid (Some par) tt (Some e)"
  let ?m1 = "update_token par (add_child_token ?c) (file_token ?c ?kid m)"
  let ?ids = "\<lambda>i. ids (Suc i)" and ?clk = "\<lambda>i. clk (i + 2)"
  have c: "dget (tm_tokens m) ?c = None" using Cons.prems(2) by (auto simp: fresh_ids_def)
  with Cons.prems(1) have cp: "?c \<noteq> par" by auto
  have inj: "i < Suc (length es) \<Longrightarrow> j < Suc (length es) \<Longrightarrow> ids i = ids j \<Longrightarrow> i = j" for i j
    using Cons.prems(2) by (auto simp: fresh_ids_def inj_on_def)
  have fr: "fresh_ids ?ids (length es) ?m1"
    unfolding fresh_ids_def
  proof (intro conjI allI impI)
    fix i assume i: "i < length es"
    then have "ids (Suc i) \<noteq> ?c" using inj [of "Suc i" 0] by auto
    moreover have n: "dget (tm_tokens m) (ids (Suc i)) = None"
      using Cons.prems(2) i by (auto simp: fresh_ids_def)
    then have "ids (Suc i) \<noteq> par" using Cons.prems(1) by auto
    ultimately show "dget (tm_tokens ?m1) (?ids i) = None" using n by simp
  next
    show "inj_on ?ids {..<length es}"
    proof (rule inj_onI)
      fix i j assume "i \<in> {..<length es}" "j \<in> {..<length es}" "?ids i = ?ids j"
      then show "i = j" using inj [of "Suc i" "Suc j"] by simp
    qed
  qed
  have par1: "dget (tm_tokens ?m1) par = Some (add_child_token ?c p)"
    using Cons.prems(1) cp by simp
  have step: "split_loop clk ids iid par tt (e # es) m =
      (?kid # fst (split_loop ?clk ?ids iid par tt es ?m1), snd (split_loop ?clk ?ids iid par tt es ?m1))"
    using create_child_tokens [OF assms(1) Cons.prems(1) c] by (simp add: case_prod_beta)
  note IH = Cons.IH [OF par1 fr, of ?clk]
  have kid0: "?kid = split_child clk ids iid par tt (e # es) 0" by (simp add: split_child_def)
  have img: "ids ` {..<length (e # es)} = insert ?c (?ids ` {..<length es})"
    by (auto simp: image_iff less_Suc_eq_0_disj)
  have m1_other: "dget (tm_tokens ?m1) tid = dget (tm_tokens m) tid" if "tid \<noteq> par" "tid \<noteq> ?c" for tid
    using that by simp
  let ?m' = "snd (split_loop ?clk ?ids iid par tt es ?m1)"
  have c': "?c \<notin> ?ids ` {..<length es}" using inj [of 0] by force
  have kids: "dget (tm_tokens ?m') (ids i) = Some (split_child clk ids iid par tt (e # es) i)"
    if "i < length (e # es)" for i
  proof (cases i)
    case 0
    have "dget (tm_tokens ?m') ?c = dget (tm_tokens ?m1) ?c" using IH c' cp by blast
    with 0 cp kid0 show ?thesis by simp
  next
    case (Suc j)
    with that have "j < length es" by simp
    with IH have "dget (tm_tokens ?m') (?ids j) = Some (split_child ?clk ?ids iid par tt es j)" by blast
    then show ?thesis unfolding Suc split_child_Suc .
  qed
  show ?case
    unfolding step fst_conv snd_conv
  proof (intro conjI allI impI)
    show "?kid # fst (split_loop ?clk ?ids iid par tt es ?m1) =
        map (split_child clk ids iid par tt (e # es)) [0..<length (e # es)]"
      unfolding IH [THEN conjunct1]
      by (simp only: kid0 list.size(4) add_0_right add_Suc_right map_upt_Suc split_child_Suc)
    show "\<exists>p'. dget (tm_tokens ?m') par = Some p' \<and> p' = p\<lparr>child_token_ids := child_token_ids p'\<rparr> \<and>
        set (child_token_ids p') = set (child_token_ids p) \<union> ids ` {..<length (e # es)}"
    proof -
      from IH obtain p' where p': "dget (tm_tokens ?m') par = Some p'"
        "p' = (add_child_token ?c p)\<lparr>child_token_ids := child_token_ids p'\<rparr>"
        "set (child_token_ids p') = set (child_token_ids (add_child_token ?c p)) \<union> ?ids ` {..<length es}"
        by blast
      have "(add_child_token ?c p)\<lparr>child_token_ids := xs\<rparr> = p\<lparr>child_token_ids := xs\<rparr>" for xs
        by (simp add: add_child_token_def)
      with p' show ?thesis unfolding img by (intro exI [of _ p']) auto
    qed
    show "dget (tm_tokens ?m') (ids i) = Some (split_child clk ids iid par tt (e # es) i)"
      if "i < length (e # es)" for i using kids [OF that] .
    show "dget (tm_tokens ?m') tid = dget (tm_tokens m) tid"
      if "tid \<noteq> par" "tid \<notin> ids ` {..<length (e # es)}" for tid
      using IH that m1_other unfolding img by auto
    show "tm_inv ?m'" if "tm_inv m"
      using IH that c by (auto intro!: tm_inv_update tm_inv_file)
  qed
qed


lemma split_token_active:
  fixes clk :: clock and tt :: TokenType
  assumes m: "tm_inv m" and p: "dget (tm_tokens m) par = Some p" "token_wf p" "tok_state p = ACTIVE"
    and par: "par \<noteq> []" and fr: "fresh_ids ids (length es) m"
  defines "kids \<equiv> map (split_child clk ids (instance_id p) par tt es) [0..<length es]"
  shows "\<exists>m' p'. split_token clk ids par es tt m = (Inr kids, m') \<and> tm_inv m' \<and>
    dget (tm_tokens m') par = Some p' \<and> tok_state p' = WAITING \<and>
    set (child_token_ids p') = set (child_token_ids p) \<union> ids ` {..<length es} \<and>
    (\<forall>i < length es. dget (tm_tokens m') (ids i) = Some (kids ! i)) \<and>
    (\<forall>tid. tid \<noteq> par \<longrightarrow> tid \<notin> ids ` {..<length es} \<longrightarrow> dget (tm_tokens m') tid = dget (tm_tokens m) tid)"
proof -
  let ?m1 = "snd (split_loop clk ids (instance_id p) par tt es m)"
  let ?x = "Wait (''split_into_'' @ dec (length kids) @ ''_tokens'')"
  let ?clk = "\<lambda>i. clk (i + 2 * length es)"
  let ?m2 = "update_token par (\<lambda>t. snd (token_apply ?clk ?x t)) ?m1"
  note L = split_loop_spec [OF par p(1) fr, of clk "instance_id p" tt]
  then have kids: "fst (split_loop clk ids (instance_id p) par tt es m) = kids" by (simp add: kids_def)
  from L obtain p1 where p1: "dget (tm_tokens ?m1) par = Some p1"
      "p1 = p\<lparr>child_token_ids := child_token_ids p1\<rparr>"
      "set (child_token_ids p1) = set (child_token_ids p) \<union> ids ` {..<length es}" by blast
  have "tok_state p1 = ACTIVE" "token_wf p1"
    using p(2,3) by (subst p1(2); simp add: token_wf_def)+
  then have ok: "fst (token_apply ?clk ?x p1) = None" "tok_state (snd (token_apply ?clk ?x p1)) = WAITING"
    using token_apply_status [of p1 ?clk ?x] by simp_all
  have "fst (token_call ?clk ?x par ?m1) = None"
    using p1(1) ok(1) by (simp add: token_call_def case_prod_beta)
  then have "split_token clk ids par es tt m = (Inr kids, ?m2)"
    using p(1) kids by (simp add: split_token_def case_prod_beta token_call_update [symmetric] split: option.splits)
  moreover have "tm_inv ?m2" using L m by (intro tm_inv_update) auto
  moreover have "dget (tm_tokens ?m2) par = Some (snd (token_apply ?clk ?x p1))" using p1(1) by simp
  moreover have "\<forall>i < length es. dget (tm_tokens ?m2) (ids i) = Some (kids ! i)"
  proof (intro allI impI)
    fix i assume i: "i < length es"
    then have "ids i \<noteq> par" using fr p(1) by (auto simp: fresh_ids_def)
    moreover have "dget (tm_tokens ?m1) (ids i) = Some (split_child clk ids (instance_id p) par tt es i)"
      using L i by blast
    ultimately show "dget (tm_tokens ?m2) (ids i) = Some (kids ! i)" using i by (simp add: kids_def)
  qed
  moreover have "\<forall>tid. tid \<noteq> par \<longrightarrow> tid \<notin> ids ` {..<length es} \<longrightarrow>
      dget (tm_tokens ?m2) tid = dget (tm_tokens m) tid"
    using L by simp
  moreover have "set (child_token_ids (snd (token_apply ?clk ?x p1))) =
      set (child_token_ids p) \<union> ids ` {..<length es}" using p1(3) by simp
  ultimately show ?thesis using ok(2) by blast
qed

lemma split_token_finished:
  assumes "dget (tm_tokens m) par = Some p" "token_wf p" "final_state (tok_state p)"
    and "par \<noteq> []" and "fresh_ids ids (length es) m"
  shows "\<exists>msg m'. split_token clk ids par es tt m = (Inl (RuntimeError msg), m') \<and>
    (\<forall>i < length es. \<exists>t. dget (tm_tokens m') (ids i) = Some t \<and> tok_state t = ACTIVE)"
proof -
  let ?m1 = "snd (split_loop clk ids (instance_id p) par tt es m)"
  let ?n = "length (fst (split_loop clk ids (instance_id p) par tt es m))"
  let ?x = "Wait (''split_into_'' @ dec ?n @ ''_tokens'')"
  let ?clk = "\<lambda>i. clk (i + 2 * length es)"
  note L = split_loop_spec [OF assms(4,1,5), of clk "instance_id p" tt]
  from L obtain p1 where p1: "dget (tm_tokens ?m1) par = Some p1"
      "p1 = p\<lparr>child_token_ids := child_token_ids p1\<rparr>" by blast
  have "tok_state p1 = tok_state p" "token_wf p1"
    using assms(2) by (subst p1(2); simp add: token_wf_def)+
  then obtain msg where msg: "fst (token_apply ?clk ?x p1) = Some (RuntimeError msg)"
    using token_apply_status [of p1 ?clk ?x] assms(3)
    by (cases "tok_state p") (auto simp: final_state_def)
  have "fst (token_call ?clk ?x par ?m1) = Some (RuntimeError msg)"
    using p1(1) msg by (simp add: token_call_def case_prod_beta)
  then have "split_token clk ids par es tt m =
      (Inl (RuntimeError msg), update_token par (\<lambda>t. snd (token_apply ?clk ?x t)) ?m1)"
    using assms(1) by (simp add: split_token_def case_prod_beta token_call_update [symmetric] split: option.splits)
  moreover have "\<forall>i < length es. \<exists>t. dget (tm_tokens (update_token par
      (\<lambda>t. snd (token_apply ?clk ?x t)) ?m1)) (ids i) = Some t \<and> tok_state t = ACTIVE"
  proof (intro allI impI)
    fix i assume i: "i < length es"
    then have "ids i \<noteq> par" using assms(1,5) by (auto simp: fresh_ids_def)
    moreover have "dget (tm_tokens ?m1) (ids i) = Some (split_child clk ids (instance_id p) par tt es i)"
      using L i by blast
    ultimately show "\<exists>t. dget (tm_tokens (update_token par (\<lambda>t. snd (token_apply ?clk ?x t)) ?m1)) (ids i) =
        Some t \<and> tok_state t = ACTIVE"
      by (simp add: split_child_def)
  qed
  ultimately show ?thesis by blast
qed

subsection \<open>Merging\<close>

definition mergeable :: "TokenManager \<Rightarrow> string \<Rightarrow> bool" where
  "mergeable m tid \<longleftrightarrow> (\<exists>t. dget (tm_tokens m) tid = Some t \<and> token_wf t \<and>
     tok_state t \<in> {ACTIVE, WAITING, MERGED})"

lemma token_apply_obj: "\<exists>ob. tok_state_obj (snd (token_apply clk x t)) = Some ob"
proof -
  obtain ob t1 where g: "get_state t = (ob, t1)" by fastforce
  then have "tok_state_obj t1 = Some ob"
    by (auto simp: get_state_def Let_def split: option.splits)
  with g show ?thesis
    by (cases ob; cases x; auto simp: token_apply_def token_method_defs)
qed

lemma merge_call:
  assumes "mergeable m tid"
  shows "fst (token_call clk Merge tid m) = None"
    and "\<exists>t. dget (tm_tokens (snd (token_call clk Merge tid m))) tid = Some t \<and> token_wf t \<and> tok_state t = MERGED \<and>
      tok_state_obj t = Some MergedTokenState"
    and "tid' \<noteq> tid \<Longrightarrow> dget (tm_tokens (snd (token_call clk Merge tid m))) tid' = dget (tm_tokens m) tid'"
proof -
  obtain t where t: "dget (tm_tokens m) tid = Some t" "token_wf t" "tok_state t \<in> {ACTIVE, WAITING, MERGED}"
    using assms by (auto simp: mergeable_def)
  then have s: "token_spec (tok_state t) Merge = Some MERGED" by auto
  with token_apply_status [OF t(2), of clk Merge]
  have r: "fst (token_apply clk Merge t) = None" "tok_state (snd (token_apply clk Merge t)) = MERGED" by simp_all
  have wf: "token_wf (snd (token_apply clk Merge t))" using t(2) by (rule token_apply_wf)
  have ob: "tok_state_obj (snd (token_apply clk Merge t)) = Some MergedTokenState"
    using token_apply_obj [of clk Merge t] wf r(2) by (auto simp: token_wf_def)
  show "fst (token_call clk Merge tid m) = None"
    using t r by (simp add: token_call_def case_prod_beta)
  show "\<exists>t. dget (tm_tokens (snd (token_call clk Merge tid m))) tid = Some t \<and> token_wf t \<and> tok_state t = MERGED \<and>
      tok_state_obj t = Some MergedTokenState"
    using t(1) r(2) wf ob unfolding token_call_update by simp
  show "tid' \<noteq> tid \<Longrightarrow> dget (tm_tokens (snd (token_call clk Merge tid m))) tid' = dget (tm_tokens m) tid'"
    by (simp add: token_call_update)
qed

lemma merge_loop_spec:
  assumes "\<forall>tid \<in> set tids. mergeable m tid"
  shows "fst (merge_loop clk tids m) = None \<and>
    (\<forall>tid \<in> set tids. \<exists>t. dget (tm_tokens (snd (merge_loop clk tids m))) tid = Some t \<and>
        token_wf t \<and> tok_state t = MERGED \<and> tok_state_obj t = Some MergedTokenState) \<and>
    (\<forall>tid. tid \<notin> set tids \<longrightarrow>
        dget (tm_tokens (snd (merge_loop clk tids m))) tid = dget (tm_tokens m) tid)"
  using assms
proof (induction clk tids m rule: merge_loop.induct)
  case (1 clk m)
  then show ?case by simp
next
  case (2 clk tid tids m)
  let ?m1 = "snd (token_call clk Merge tid m)"
  have tid: "mergeable m tid" using 2 by simp
  obtain t where t: "dget (tm_tokens ?m1) tid = Some t" "token_wf t" "tok_state t = MERGED"
    "tok_state_obj t = Some MergedTokenState"
    using merge_call(2) [OF tid] by blast
  have "mergeable ?m1 k" if "k \<in> set tids" for k
  proof (cases "k = tid")
    case True
    then show ?thesis using t by (simp add: mergeable_def)
  next
    case False
    then show ?thesis using that 2 merge_call(3) [OF tid False] by (simp add: mergeable_def)
  qed
  moreover have c: "token_call clk Merge tid m = (None, ?m1)"
    using merge_call(1) [OF tid] by (metis prod.collapse)
  ultimately have IH: "fst (merge_loop (\<lambda>i. clk (i + 2)) tids ?m1) = None"
    "\<forall>k \<in> set tids. \<exists>t. dget (tm_tokens (snd (merge_loop (\<lambda>i. clk (i + 2)) tids ?m1))) k = Some t \<and>
        token_wf t \<and> tok_state t = MERGED \<and> tok_state_obj t = Some MergedTokenState"
    "\<forall>k. k \<notin> set tids \<longrightarrow> dget (tm_tokens (snd (merge_loop (\<lambda>i. clk (i + 2)) tids ?m1))) k = dget (tm_tokens ?m1) k"
    using "2.IH" [OF c [symmetric] refl] by blast+
  have step: "merge_loop clk (tid # tids) m = merge_loop (\<lambda>i. clk (i + 2)) tids ?m1"
    unfolding merge_loop.simps(2) by (subst c) simp
  show ?case
    unfolding step using IH t merge_call(3) [OF tid] by (auto; metis)
qed

lemma tm_inv_merge:
  assumes "tm_inv m" and "dget (tm_tokens m) uuid = None"
  shows "tm_inv (snd (merge_tokens clk uuid tids target create_new m))"
proof -
  have keys: "dget (tm_tokens (snd (merge_loop clk ts m'))) uuid = None"
    if "dget (tm_tokens m') uuid = None" for ts m' and clk :: clock
    using that
  proof (induction clk ts m' rule: merge_loop.induct)
    case (1 clk m)
    then show ?case by simp
  next
    case (2 clk tid tids m)
    have "dget (tm_tokens (snd (token_call clk Merge tid m))) uuid = None"
      using "2.prems" by (auto simp: token_call_update)
    with 2 show ?case by (auto split: prod.splits option.splits)
  qed
  show ?thesis
  proof (cases "filter (has_key (tm_tokens m)) tids")
    case Nil
    then show ?thesis using assms(1) by (simp add: merge_tokens_def)
  next
    case (Cons tid rest)
    obtain e m1 where r: "merge_loop clk (tid # rest) m = (e, m1)" by fastforce
    have inv: "tm_inv m1" and new: "dget (tm_tokens m1) uuid = None"
      using tm_inv_merge_loop [OF assms(1), of clk "tid # rest"] keys [OF assms(2), of clk "tid # rest"]
      unfolding r by simp_all
    have cr: "tm_inv (snd (create_token clk' uuid iid None PROCESS (Some target) None m1))" for clk' iid
      using inv new by (intro tm_inv_create) simp_all
    have up: "tm_inv (update_token tid (\<lambda>t. move_to clk' target ''merged'' (t\<lparr>tok_state := ACTIVE\<rparr>)) m1)"
      for clk' using inv by (rule tm_inv_update) simp_all
    show ?thesis
      using cr up inv Cons r
      by (cases e) (simp_all add: merge_tokens_def Let_def case_prod_beta)
  qed
qed

subsection \<open>Cleaning up\<close>

lemma remove_fold_tokens:
  assumes "\<forall>t \<in> set ts. dget (tm_tokens m) (token_id t) = Some t"
  shows "dget (tm_tokens (fold (\<lambda>t m. snd (remove_token (token_id t) m)) ts m)) tid =
    (if tid \<in> token_id ` set ts then None else dget (tm_tokens m) tid)"
proof -
  have "dget (tm_tokens (fold (\<lambda>t m. snd (remove_token (token_id t) m)) ts m)) tid =
    (if tid \<in> token_id ` set ts then None else dget (tm_tokens m) tid)" for m
    by (induction ts arbitrary: m) (auto simp: by_instance.objs_drop)
  then show ?thesis .
qed

lemma tm_inv_fold_remove: "tm_inv m \<Longrightarrow> tm_inv (fold (\<lambda>t m. snd (remove_token (token_id t) m)) ts m)"
  by (induction ts arbitrary: m) (simp_all add: tm_inv_remove)

lemma instance_tokens_exact:
  assumes "tm_inv m"
  shows "t \<in> set (get_instance_tokens iid m) \<longleftrightarrow>
    dget (tm_tokens m) (token_id t) = Some t \<and> instance_id t = iid"
proof -
  have "index_consistent instance_key (tm_tokens m) (tm_instance_tokens m)"
    using assms by (simp add: tm_inv_def)
  from by_instance.find_exact [OF this, of t iid] assms show ?thesis
    by (auto simp: get_instance_tokens_def tm_inv_def)
qed

lemma instance_tokens_distinct:
  assumes "tm_inv m"
  shows "distinct (map token_id (get_instance_tokens iid m))"
proof -
  have ids: "map token_id (select (tm_tokens m) ids) = filter (has_key (tm_tokens m)) ids" for ids
    using assms by (intro map_id_select) (simp add: tm_inv_def)
  have "distinct (idx_get (tm_instance_tokens m) iid)"
    using assms by (auto simp: tm_inv_def dest: index_consistentD(1))
  then show ?thesis unfolding get_instance_tokens_def ids by simp
qed

lemma tm_inv_cleanup: "tm_inv m \<Longrightarrow> tm_inv (snd (cleanup_completed_tokens iid m))"
  by (simp add: cleanup_completed_tokens_def Let_def tm_inv_fold_remove)

lemma tm_inv_split:
  assumes "tm_inv m" "par \<noteq> []" "fresh_ids ids (length es) m"
  shows "tm_inv (snd (split_token clk ids par es tt m))"
proof (cases "dget (tm_tokens m) par")
  case None
  then show ?thesis using assms(1) by (simp add: split_token_def)
next
  case (Some p)
  let ?L = "split_loop clk ids (instance_id p) par tt es m"
  have "tm_inv (snd ?L)" using split_loop_spec [OF assms(2) Some assms(3)] assms(1) by blast
  then have "tm_inv (snd (token_call clk' x par (snd ?L)))" for clk' x by (rule tm_inv_call)
  then show ?thesis using Some by (simp add: split_token_def case_prod_beta split: option.splits)
qed

text \<open>
  The managers that sequences of operations produce.  Ids of new tokens are fresh, as UUIDs
  are; a process executor moves stored tokens by calling their \<open>move_to\<close> directly.
\<close>

inductive tm_reach :: "TokenManager \<Rightarrow> bool" where
  init: "tm_reach token_manager_init"
| create: "tm_reach m \<Longrightarrow> dget (tm_tokens m) (case tid_opt of None \<Rightarrow> uuid | Some x \<Rightarrow> x) = None \<Longrightarrow>
    tm_reach (snd (create_token clk uuid iid par tt el tid_opt m))"
| remove: "tm_reach m \<Longrightarrow> tm_reach (snd (remove_token tid m))"
| call: "tm_reach m \<Longrightarrow> tm_reach (snd (token_call clk x tid m))"
| move: "tm_reach m \<Longrightarrow> tm_reach (update_token tid (move_to clk e ty) m)"
| split: "tm_reach m \<Longrightarrow> par \<noteq> [] \<Longrightarrow> fresh_ids ids (length es) m \<Longrightarrow>
    tm_reach (snd (split_token clk ids par es tt m))"
| merge: "tm_reach m \<Longrightarrow> dget (tm_tokens m) uuid = None \<Longrightarrow>
    tm_reach (snd (merge_tokens clk uuid tids target new m))"
| cleanup: "tm_reach m \<Longrightarrow> tm_reach (snd (cleanup_completed_tokens iid m))"
| load: "tm_reach m \<Longrightarrow> dget (tm_tokens m) (token_id t) = None \<Longrightarrow> tm_reach (file_token (token_id t) t m)"

lemma tm_reach_inv: "tm_reach m \<Longrightarrow> tm_inv m"
  by (induction rule: tm_reach.induct)
     (simp_all add: tm_inv_init tm_inv_create tm_inv_remove tm_inv_call tm_inv_update tm_inv_split
       tm_inv_merge tm_inv_cleanup tm_inv_file)

subsection \<open>Properties\<close>

text \<open>
  After any sequence of operations with fresh ids, \<open>get_instance_tokens\<close> returns exactly the
  stored tokens of the instance, each under its own id.
\<close>

theorem instance_query_exact:
  assumes "tm_reach m"
  shows "t \<in> set (get_instance_tokens iid m) \<longleftrightarrow>
    get_token (token_id t) m = Some t \<and> instance_id t = iid"
  using instance_tokens_exact [OF tm_reach_inv [OF assms]] by (simp add: get_token_def)

theorem instance_query_exact_witness:
  "new_token (\<lambda>_. 0) ''t'' ''i'' None PROCESS None \<in>
     set (get_instance_tokens ''i''
       (snd (create_token (\<lambda>_. 0) ''u'' ''i'' None PROCESS None (Some ''t'') token_manager_init)))"
proof -
  let ?t = "new_token (\<lambda>_. 0) ''t'' ''i'' None PROCESS None"
  have "tm_reach (snd (create_token (\<lambda>_. 0) ''u'' ''i'' None PROCESS None (Some ''t'') token_manager_init))"
    by (rule tm_reach.create [OF tm_reach.init]) (simp add: token_manager_init_def)
  from instance_query_exact [OF this, of ?t "''i''"] show ?thesis
    by (simp add: token_manager_init_def create_token_def nonempty_opt_def get_token_def Let_def)
qed

text \<open>
  C17: Splitting an active token creates one active child per target element, in order, with the
  fresh ids, the parent's instance and the parent's id; the parent is left waiting with the new
  ids among its children, and no other token changes.
\<close>

theorem split_token_spec:
  assumes "tm_reach m" and "get_token par m = Some p" and "token_wf p" and "is_active p"
    and "par \<noteq> []" and "fresh_ids ids (length es) m"
  shows "\<exists>kids m' p'. split_token clk ids par es tt m = (Inr kids, m') \<and>
    map token_id kids = map ids [0..<length es] \<and>
    map current_element_id kids = map Some es \<and>
    list_all (\<lambda>k. is_active k \<and> instance_id k = instance_id p \<and>
      parent_token_id k = Some par \<and> token_type k = tt \<and> get_token (token_id k) m' = Some k) kids \<and>
    get_token par m' = Some p' \<and> is_waiting p' \<and>
    set (child_token_ids p') = set (child_token_ids p) \<union> ids ` {..<length es} \<and>
    (\<forall>tid. tid \<noteq> par \<longrightarrow> tid \<notin> ids ` {..<length es} \<longrightarrow> get_token tid m' = get_token tid m)"
proof -
  let ?kids = "map (split_child clk ids (instance_id p) par tt es) [0..<length es]"
  have p: "dget (tm_tokens m) par = Some p" "tok_state p = ACTIVE"
    using assms(2,4) by (simp_all add: get_token_def is_active_def)
  obtain m' p' where r: "split_token clk ids par es tt m = (Inr ?kids, m')"
      "dget (tm_tokens m') par = Some p'" "tok_state p' = WAITING"
      "set (child_token_ids p') = set (child_token_ids p) \<union> ids ` {..<length es}"
      "\<forall>i < length es. dget (tm_tokens m') (ids i) = Some (?kids ! i)"
      "\<forall>tid. tid \<noteq> par \<longrightarrow> tid \<notin> ids ` {..<length es} \<longrightarrow> dget (tm_tokens m') tid = dget (tm_tokens m) tid"
    using split_token_active [OF tm_reach_inv [OF assms(1)] p(1) assms(3) p(2) assms(5,6), of clk tt] by blast
  have "map token_id ?kids = map ids [0..<length es]" by (simp add: split_child_def)
  moreover have "map current_element_id ?kids = map Some es"
    by (rule nth_equalityI) (simp_all add: split_child_def)
  moreover have "list_all (\<lambda>k. is_active k \<and> instance_id k = instance_id p \<and>
      parent_token_id k = Some par \<and> token_type k = tt \<and> get_token (token_id k) m' = Some k) ?kids"
    using r(5) by (auto simp: list_all_iff split_child_def is_active_def get_token_def)
  ultimately show ?thesis
    using r(1-4,6) unfolding get_token_def is_waiting_def by blast
qed

definition one_token :: TokenManager where
  "one_token = snd (create_token (\<lambda>_. 0) ''u'' ''i'' None PROCESS None (Some ''t'') token_manager_init)"

lemma one_token_tokens: "tm_tokens one_token = [(''t'', new_token (\<lambda>_. 0) ''t'' ''i'' None PROCESS None)]"
  by (simp add: one_token_def create_token_def nonempty_opt_def file_token_def token_manager_init_def Let_def)

lemma one_token_reach: "tm_reach one_token"
  unfolding one_token_def
  by (rule tm_reach.create [OF tm_reach.init]) (simp add: token_manager_init_def)

lemma one_token_wf: "token_wf (new_token clk tid iid par tt el)"
  by (simp add: token_wf_def)

theorem split_token_spec_witness:
  "\<exists>kids m'. split_token (\<lambda>_. 5) (\<lambda>i. replicate (Suc i) (CHR ''c'')) ''t'' [''a'', ''b''] PARALLEL one_token =
     (Inr kids, m') \<and> map token_id kids = [''c'', ''cc''] \<and> map current_element_id kids = [Some ''a'', Some ''b'']"
proof -
  have g: "get_token ''t'' one_token = Some (new_token (\<lambda>_. 0) ''t'' ''i'' None PROCESS None)"
    by (simp add: get_token_def one_token_tokens)
  have f: "fresh_ids (\<lambda>i. replicate (Suc i) (CHR ''c'')) (length [''a'', ''b'']) one_token"
    by (auto simp: fresh_ids_def one_token_tokens inj_on_def less_Suc_eq numeral_2_eq_2)
  show ?thesis
    using split_token_spec [OF one_token_reach g one_token_wf _ _ f, of "\<lambda>_. 5" PARALLEL]
    by (auto simp: is_active_def upt_rec numeral_2_eq_2)
qed

text \<open>
  Splitting a token that is already completed, terminated or merged raises, but only after
  the children were created: they stay behind as active tokens.
\<close>

theorem split_finished_leaves_children:
  assumes "get_token par m = Some p" and "token_wf p" and "is_completed p"
    and "par \<noteq> []" and "fresh_ids ids (length es) m"
  shows "\<exists>msg m'. split_token clk ids par es tt m = (Inl (RuntimeError msg), m') \<and>
    (\<forall>i < length es. \<exists>t. get_token (ids i) m' = Some t \<and> is_active t)"
  using split_token_finished [of m par p ids es clk tt] assms
  by (auto simp: get_token_def is_completed_def final_state_def is_active_def)

theorem split_finished_leaves_children_witness:
  "\<exists>msg m'. split_token (\<lambda>_. 5) (\<lambda>_. ''c'') ''t'' [''a''] PARALLEL (snd (token_call (\<lambda>_. 4) Complete ''t'' one_token)) =
     (Inl (RuntimeError msg), m') \<and> (\<exists>t. get_token ''c'' m' = Some t \<and> is_active t)"
proof -
  let ?m = "snd (token_call (\<lambda>_. 4) Complete ''t'' one_token)"
  let ?p = "finish (\<lambda>_. 4) COMPLETED CompletedTokenState (new_token (\<lambda>_. 0) ''t'' ''i'' None PROCESS None)"
  have t: "tm_tokens ?m = [(''t'', ?p)]"
    by (simp add: token_call_def one_token_tokens token_apply_def get_state_def finish_def set_state_def Let_def)
  then have "get_token ''t'' ?m = Some ?p" by (simp add: get_token_def)
  moreover have "token_wf ?p" "is_completed ?p"
    by (simp_all add: token_wf_def finish_def set_state_def is_completed_def)
  moreover have "fresh_ids (\<lambda>_. ''c'') (length [''a'']) ?m"
    by (simp add: fresh_ids_def t lessThan_Suc)
  ultimately show ?thesis
    using split_finished_leaves_children [of "''t''" ?m ?p "\<lambda>_. ''c''" "[''a'']" "\<lambda>_. 5" PARALLEL] by auto
qed

text \<open>
  C18: Merging tokens that are active, waiting or already merged into a new token succeeds: every
  one of them is then merged, the new token is active at the target element in the instance of
  the first, and every other token is unchanged.
\<close>

theorem merge_tokens_spec:
  assumes "tids \<noteq> []" and "\<forall>tid \<in> set tids. mergeable m tid" and "get_token uuid m = None"
  shows "\<exists>t t0 m'. merge_tokens clk uuid tids target True m = (Inr (Some t), m') \<and>
    get_token (hd tids) m = Some t0 \<and>
    token_id t = uuid \<and> is_active t \<and> instance_id t = instance_id t0 \<and>
    current_element_id t = Some target \<and> get_token uuid m' = Some t \<and>
    (\<forall>tid \<in> set tids. \<exists>u. get_token tid m' = Some u \<and> tok_state u = MERGED) \<and>
    (\<forall>tid. tid \<noteq> uuid \<longrightarrow> tid \<notin> set tids \<longrightarrow> get_token tid m' = get_token tid m)"
proof -
  obtain tid rest where tids: "tids = tid # rest" using assms(1) by (cases tids) auto
  have keys: "filter (has_key (tm_tokens m)) tids = tids"
    using assms(2) by (auto simp: filter_id_conv mergeable_def has_key_def)
  obtain t0 where t0: "dget (tm_tokens m) tid = Some t0"
    using assms(2) tids by (auto simp: mergeable_def)
  let ?clk = "\<lambda>i. clk (i + 2 * length (tid # rest))"
  let ?t = "new_token ?clk uuid (instance_id t0) None PROCESS (Some target)"
  obtain m1 where ml: "merge_loop clk tids m = (None, m1)"
    using merge_loop_spec [OF assms(2), of clk] by (metis prod.collapse)
  have merged: "\<forall>k \<in> set tids. \<exists>w. dget (tm_tokens m1) k = Some w \<and> tok_state w = MERGED"
    and others: "\<forall>k. k \<notin> set tids \<longrightarrow> dget (tm_tokens m1) k = dget (tm_tokens m) k"
    using merge_loop_spec [OF assms(2), of clk] unfolding ml snd_conv by blast+
  have r: "merge_tokens clk uuid tids target True m = (Inr (Some ?t), file_token uuid ?t m1)"
    unfolding merge_tokens_def keys using ml unfolding tids
    by (simp add: create_token_def nonempty_opt_def t0 Let_def del: merge_loop.simps)
  have u: "uuid \<notin> set tids" using assms(2,3) by (auto simp: mergeable_def get_token_def)
  have new: "get_token uuid (file_token uuid ?t m1) = Some ?t" by (simp add: get_token_def)
  have old: "get_token k (file_token uuid ?t m1) = dget (tm_tokens m1) k" if "k \<noteq> uuid" for k
    using that by (simp add: get_token_def)
  have "\<forall>k \<in> set tids. \<exists>w. get_token k (file_token uuid ?t m1) = Some w \<and> tok_state w = MERGED"
    using merged u old by metis
  moreover have "\<forall>k. k \<noteq> uuid \<longrightarrow> k \<notin> set tids \<longrightarrow> get_token k (file_token uuid ?t m1) = get_token k m"
    using others old by (simp add: get_token_def)
  moreover have "get_token (hd tids) m = Some t0" using t0 tids by (simp add: get_token_def)
  moreover have "token_id ?t = uuid" "is_active ?t" "instance_id ?t = instance_id t0"
    "current_element_id ?t = Some target" by (simp_all add: is_active_def)
  ultimately show ?thesis using r new by blast
qed

theorem merge_tokens_spec_witness:
  "\<exists>t m'. merge_tokens (\<lambda>_. 5) ''n'' [''t''] ''join'' True one_token = (Inr (Some t), m') \<and>
     current_element_id t = Some ''join'' \<and> instance_id t = ''i''"
  using merge_tokens_spec [of "[''t'']" one_token "''n''" "\<lambda>_. 5" "''join''"]
  by (auto simp: mergeable_def one_token_tokens one_token_wf get_token_def)

text \<open>
  Merging into the first token (no new token) leaves that token with the enumerated state
  active while its state object is still the merged one: \<open>is_active\<close> says yes, and every attempt
  to complete, terminate, resume or suspend it raises.
\<close>

theorem merge_reuse_token_stuck:
  assumes "\<forall>tid \<in> set (tid # tids). mergeable m tid"
  shows "\<exists>t m'. merge_tokens clk uuid (tid # tids) target False m = (Inr (Some t), m') \<and>
    get_token tid m' = Some t \<and> is_active t \<and>
    (\<forall>x. x \<noteq> Merge \<longrightarrow> (\<exists>msg. fst (token_apply clk' x t) = Some (RuntimeError msg)))"
proof -
  let ?ts = "tid # tids"
  have keys: "filter (has_key (tm_tokens m)) ?ts = ?ts"
    using assms by (auto simp: filter_id_conv mergeable_def has_key_def)
  let ?clk = "\<lambda>i. clk (i + 2 * length ?ts)"
  obtain m1 where ml: "merge_loop clk ?ts m = (None, m1)"
    using merge_loop_spec [OF assms, of clk] by (metis prod.collapse)
  obtain u where u: "dget (tm_tokens m1) tid = Some u" "tok_state_obj u = Some MergedTokenState"
    using merge_loop_spec [OF assms, of clk] unfolding ml snd_conv by (meson list.set_intros(1))
  let ?u = "move_to ?clk target ''merged'' (u\<lparr>tok_state := ACTIVE\<rparr>)"
  let ?m2 = "update_token tid (\<lambda>t. move_to ?clk target ''merged'' (t\<lparr>tok_state := ACTIVE\<rparr>)) m1"
  have g: "get_token tid ?m2 = Some ?u"
    using u(1) by (simp add: get_token_def del: merge_loop.simps)
  have r: "merge_tokens clk uuid ?ts target False m = (Inr (get_token tid ?m2), ?m2)"
    unfolding merge_tokens_def keys list.case Let_def ml prod.case option.case by simp
  have "\<exists>msg. fst (token_apply clk' x ?u) = Some (RuntimeError msg)" if "x \<noteq> Merge" for x
    using that u(2) by (cases x) (simp_all add: token_apply_def get_state_def token_method_defs)
  moreover have "is_active ?u" by (simp add: is_active_def)
  ultimately show ?thesis using g r by auto
qed


theorem merge_reuse_token_stuck_witness:
  "\<exists>t m'. merge_tokens (\<lambda>_. 5) ''n'' [''t''] ''join'' False one_token = (Inr (Some t), m') \<and>
     is_active t \<and> (\<exists>msg. fst (token_apply (\<lambda>_. 6) Complete t) = Some (RuntimeError msg))"
  using merge_reuse_token_stuck [of "''t''" "[]" one_token "\<lambda>_. 5" "''n''" "''join''" "\<lambda>_. 6"]
  by (auto simp: mergeable_def one_token_tokens one_token_wf)

text \<open>
  \<open>cleanup_completed_tokens\<close> removes exactly the completed, terminated and merged tokens of
  the instance, and returns their number.
\<close>

theorem cleanup_exact:
  assumes "tm_reach m"
  shows "get_token tid (snd (cleanup_completed_tokens iid m)) =
      (case get_token tid m of
         None \<Rightarrow> None
       | Some t \<Rightarrow> if instance_id t = iid \<and> is_completed t then None else Some t) \<and>
    fst (cleanup_completed_tokens iid m) =
      card {tid. \<exists>t. get_token tid m = Some t \<and> instance_id t = iid \<and> is_completed t}"
proof -
  note inv = tm_reach_inv [OF assms]
  let ?c = "filter is_completed (get_instance_tokens iid m)"
  have c: "t \<in> set ?c \<longleftrightarrow> dget (tm_tokens m) (token_id t) = Some t \<and> instance_id t = iid \<and> is_completed t" for t
    using instance_tokens_exact [OF inv, of t iid] by auto
  have id: "token_id t = tid" if "dget (tm_tokens m) tid = Some t" for t tid
    using inv that by (simp add: tm_inv_def)
  have removed: "dget (tm_tokens (snd (cleanup_completed_tokens iid m))) tid =
    (if tid \<in> token_id ` set ?c then None else dget (tm_tokens m) tid)"
    using remove_fold_tokens [of ?c m tid] c unfolding cleanup_completed_tokens_def Let_def snd_conv by blast
  have dom: "token_id ` set ?c =
    {tid. \<exists>t. get_token tid m = Some t \<and> instance_id t = iid \<and> is_completed t}"
  proof (intro set_eqI iffI)
    fix x assume "x \<in> token_id ` set ?c"
    then obtain t where "t \<in> set ?c" "x = token_id t" by blast
    then show "x \<in> {tid. \<exists>t. get_token tid m = Some t \<and> instance_id t = iid \<and> is_completed t}"
      using c [of t] by (simp add: get_token_def)
  next
    fix x assume "x \<in> {tid. \<exists>t. get_token tid m = Some t \<and> instance_id t = iid \<and> is_completed t}"
    then obtain t where t: "dget (tm_tokens m) x = Some t" "instance_id t = iid" "is_completed t"
      by (auto simp: get_token_def)
    then have "t \<in> set ?c" using c [of t] id [OF t(1)] by blast
    then show "x \<in> token_id ` set ?c" using id [OF t(1)] by blast
  qed
  have "distinct (map token_id (get_instance_tokens iid m))"
    using instance_tokens_distinct [OF inv] .
  then have "distinct (map token_id ?c)" by (rule distinct_map_filter)
  then have "length ?c = card (token_id ` set ?c)"
    by (metis distinct_card length_map set_map)
  then have "fst (cleanup_completed_tokens iid m) =
      card {tid. \<exists>t. get_token tid m = Some t \<and> instance_id t = iid \<and> is_completed t}"
    unfolding dom [symmetric] by (simp add: cleanup_completed_tokens_def Let_def)
  moreover have "get_token tid (snd (cleanup_completed_tokens iid m)) =
      (case get_token tid m of
         None \<Rightarrow> None
       | Some t \<Rightarrow> if instance_id t = iid \<and> is_completed t then None else Some t)"
    using removed unfolding dom by (auto simp: get_token_def split: option.splits)
  ultimately show ?thesis by blast
qed

theorem cleanup_exact_witness:
  "get_token ''t'' (snd (cleanup_completed_tokens ''i'' (snd (token_call (\<lambda>_. 4) Complete ''t'' one_token)))) = None"
  using cleanup_exact [OF tm_reach.call [OF one_token_reach], of "''t''" "''i''" "\<lambda>_. 4" Complete "''t''"]
  by (simp add: get_token_def token_call_def one_token_tokens token_apply_def get_state_def
      finish_def set_state_def Let_def is_completed_def)

text \<open>
  \<open>move_to\<close> does not maintain the index by element: a token created at \<open>e\<close> and moved to
  another element is still listed under \<open>e\<close>, and is not listed under the new one.
\<close>

theorem element_query_stale:
  assumes "e \<noteq> []" and "e' \<noteq> e"
  shows "let m = update_token tid (move_to clk' e' ty)
             (snd (create_token clk uuid iid None tt (Some e) (Some tid) token_manager_init))
         in map current_element_id (get_element_tokens e m) = [Some e'] \<and> get_element_tokens e' m = []"
  using assms
  by (simp add: Let_def get_element_tokens_def create_token_def token_manager_init_def nonempty_opt_def
      file_token_def update_token_def idx_add_def idx_get_def dget_or_def sadd_def move_to_def)

theorem element_query_stale_witness:
  "get_element_tokens ''b'' (update_token ''t'' (move_to (\<lambda>_. 5) ''b'' ''task'')
     (snd (create_token (\<lambda>_. 0) ''u'' ''i'' None PROCESS (Some ''a'') (Some ''t'') token_manager_init))) = []"
  using element_query_stale [of "''a''" "''b''" "''t''" "\<lambda>_. 5" "''task''" "\<lambda>_. 0" "''u''" "''i''" PROCESS]
  by (simp add: Let_def)

text \<open>
  A token persisted into a repository is loaded into any manager as the token it was, up to
  the cached state object and the references to the process model, and is then found under its
  id; the repository may be the plain one or the one that adds entries of its own.
\<close>

theorem persist_load_roundtrip:
  assumes "get_token tid m = Some t" and "token_id t = tid" and "token_times_ok t"
  shows "let t' = t\<lparr>tok_state_obj := None, osdm_flow_node := None, osdm_activity := None\<rparr>;
             r1 = snd (persist_token repo_save tid m (Some r));
             r2 = snd (persist_token (save_persisted now uid rt) tid m (Some r))
    in load_token repo_get clk r1 tid m' = (Inr (Some t'), file_token tid t' m') \<and>
       load_token get_persisted clk r2 tid m' = (Inr (Some t'), file_token tid t' m') \<and>
       get_token tid (snd (load_token repo_get clk r1 tid m')) = Some t'"
proof -
  note parse = token_record_roundtrip_ext [OF assms(3), of clk]
  have "map_option (token_from_record clk) (repo_get tid (snd (repo_save tid (token_to_record t) r))) =
      Some (Inr (t\<lparr>tok_state_obj := None, osdm_flow_node := None, osdm_activity := None\<rparr>))"
    using parse by (rule memory_repo.read_back)
  moreover have "map_option (token_from_record clk)
        (get_persisted tid (snd (save_persisted now uid rt tid (token_to_record t) r))) =
      Some (Inr (t\<lparr>tok_state_obj := None, osdm_flow_node := None, osdm_activity := None\<rparr>))"
    using parse by (rule persistent_repo.read_back)
  ultimately show ?thesis
    using assms(1,2)
    by (auto simp: Let_def persist_token_def load_token_def case_prod_beta get_token_def split: option.splits)
qed

theorem persist_load_roundtrip_witness:
  "load_token repo_get (\<lambda>_. 9) (snd (persist_token repo_save ''t'' one_token (Some []))) ''t'' token_manager_init =
     (Inr (Some (new_token (\<lambda>_. 0) ''t'' ''i'' None PROCESS None)),
      file_token ''t'' (new_token (\<lambda>_. 0) ''t'' ''i'' None PROCESS None) token_manager_init)"
proof -
  have "valid_datetime 0" by (simp add: valid_datetime_def max_datetime_def days_before_year_def us_per_day_def)
  then have "token_times_ok (new_token (\<lambda>_. 0) ''t'' ''i'' None PROCESS None)"
    by (simp add: token_times_ok_def new_token_def)
  then show ?thesis
    using persist_load_roundtrip [of "''t''" one_token "new_token (\<lambda>_. 0) ''t'' ''i'' None PROCESS None"
        "[]" 0 "''x''" "''token''" "\<lambda>_. 9" token_manager_init]
    by (simp add: get_token_def one_token_tokens Let_def) (simp add: new_token_def)
qed

end
