(* ===== verification/Instances.thy ===== *)
theory Instances
  imports PyVal Repository
begin

section \<open>Process instances\<close>

text \<open>
  \<open>core/instance.py\<close> (\<open>ProcessInstance\<close>, \<open>IncidentInfo\<close>, \<open>ActivityInstance\<close>, \<open>InstanceManager\<close>) and
  \<open>core/instance_states.py\<close> (the nine state objects the lifecycle methods delegate to).  As with
  tokens, an instance carries the enumerated state and the lazily created state object; the
  references to process models are left out of the record, as no modelled method reads them.
\<close>

datatype InstanceState =
    ACTIVE | SUSPENDED | COMPLETED | TERMINATED | FAILED | DRAFT | CLOSED | COMPENSATING | MIGRATING

datatype InstanceType = ROOT | SUBPROCESS | CALL_ACTIVITY | EVENT_SUBPROCESS | TRANSACTION

datatype process_state_obj =
    ActiveState | SuspendedState | CompletedState | FailedState | TerminatedState | DraftState
  | ClosedState | CompensatingState | MigratingState

fun instance_state_value :: "InstanceState \<Rightarrow> string" where
  "instance_state_value ACTIVE = ''active''"
| "instance_state_value SUSPENDED = ''suspended''"
| "instance_state_value COMPLETED = ''completed''"
| "instance_state_value TERMINATED = ''terminated''"
| "instance_state_value FAILED = ''failed''"
| "instance_state_value DRAFT = ''draft''"
| "instance_state_value CLOSED = ''closed''"
| "instance_state_value COMPENSATING = ''compensating''"
| "instance_state_value MIGRATING = ''migrating''"

definition instance_states :: "InstanceState list" where
  "instance_states =
     [ACTIVE, SUSPENDED, COMPLETED, TERMINATED, FAILED, DRAFT, CLOSED, COMPENSATING, MIGRATING]"

fun instance_type_value :: "InstanceType \<Rightarrow> string" where
  "instance_type_value ROOT = ''root''"
| "instance_type_value SUBPROCESS = ''subprocess''"
| "instance_type_value CALL_ACTIVITY = ''call_activity''"
| "instance_type_value EVENT_SUBPROCESS = ''event_subprocess''"
| "instance_type_value TRANSACTION = ''transaction''"

definition instance_types :: "InstanceType list" where
  "instance_types = [ROOT, SUBPROCESS, CALL_ACTIVITY, EVENT_SUBPROCESS, TRANSACTION]"

text \<open>\<open>InstanceState(s)\<close> and \<open>InstanceType(s)\<close>: the member with that value.\<close>

definition instance_state_of :: "string \<Rightarrow> InstanceState result" where
  "instance_state_of s = enum_of instance_state_value instance_states s"

definition instance_type_of :: "string \<Rightarrow> InstanceType result" where
  "instance_type_of s = enum_of instance_type_value instance_types s"

lemma instance_state_of_value [simp, payload_simps]: "instance_state_of (instance_state_value s) = Inr s"
  by (cases s) (simp_all add: instance_state_of_def instance_states_def enum_of_def)

lemma instance_type_of_value [simp, payload_simps]: "instance_type_of (instance_type_value s) = Inr s"
  by (cases s) (simp_all add: instance_type_of_def instance_types_def enum_of_def)

fun state_for :: "InstanceState \<Rightarrow> process_state_obj" where
  "state_for ACTIVE = ActiveState"
| "state_for SUSPENDED = SuspendedState"
| "state_for COMPLETED = CompletedState"
| "state_for FAILED = FailedState"
| "state_for TERMINATED = TerminatedState"
| "state_for DRAFT = DraftState"
| "state_for CLOSED = ClosedState"
| "state_for COMPENSATING = CompensatingState"
| "state_for MIGRATING = MigratingState"

subsection \<open>Incidents and activities\<close>

record IncidentInfo =
  inc_id :: string
  inc_type :: string
  inc_message :: string
  inc_timestamp :: datetime
  inc_activity_id :: "string option"
  inc_job_id :: "string option"
  inc_exception_message :: "string option"
  inc_exception_stacktrace :: "string option"
  inc_resolved :: bool
  inc_resolved_at :: "datetime option"

definition incident_to_dict :: "IncidentInfo \<Rightarrow> pydict" where
  "incident_to_dict x =
     [(''id'', PStr (inc_id x)),
      (''type'', PStr (inc_type x)),
      (''message'', PStr (inc_message x)),
      (''timestamp'', PStr (isoformat (inc_timestamp x))),
      (''activity_id'', opt_str (inc_activity_id x)),
      (''job_id'', opt_str (inc_job_id x)),
      (''exception_message'', opt_str (inc_exception_message x)),
      (''exception_stacktrace'', opt_str (inc_exception_stacktrace x)),
      (''resolved'', PBool (inc_resolved x)),
      (''resolved_at'', opt_iso (inc_resolved_at x))]"

definition incident_from_dict :: "clock \<Rightarrow> pydict \<Rightarrow> IncidentInfo result" where
  "incident_from_dict clk p =
     bindr (bindr (pindex p ''id'') py_str) (\<lambda>i.
     bindr (bindr (pindex p ''type'') py_str) (\<lambda>ty.
     bindr (bindr (pindex p ''message'') py_str) (\<lambda>msg.
     bindr (parse_datetime (clk 0) (pget p ''timestamp'')) (\<lambda>ts.
     bindr (optional_str (pget p ''activity_id'')) (\<lambda>act.
     bindr (optional_str (pget p ''job_id'')) (\<lambda>job.
     bindr (optional_str (pget p ''exception_message'')) (\<lambda>em.
     bindr (optional_str (pget p ''exception_stacktrace'')) (\<lambda>es.
     bindr (parse_opt_datetime (clk 1) (pget p ''resolved_at'')) (\<lambda>rat.
     Inr \<lparr>inc_id = i, inc_type = ty, inc_message = msg, inc_timestamp = ts, inc_activity_id = act,
          inc_job_id = job, inc_exception_message = em, inc_exception_stacktrace = es,
          inc_resolved = truthy (pget_or p ''resolved'' (PBool False)), inc_resolved_at = rat\<rparr>)))))))))"

record ActivityInstance =
  act_id :: string
  act_activity_id :: string
  act_name :: string
  act_type :: string
  act_start_time :: datetime
  act_end_time :: "datetime option"
  act_state :: string
  act_incident_count :: int

definition activity_to_dict :: "ActivityInstance \<Rightarrow> pydict" where
  "activity_to_dict a =
     [(''id'', PStr (act_id a)),
      (''activity_id'', PStr (act_activity_id a)),
      (''activity_name'', PStr (act_name a)),
      (''activity_type'', PStr (act_type a)),
      (''start_time'', PStr (isoformat (act_start_time a))),
      (''end_time'', opt_iso (act_end_time a)),
      (''state'', PStr (act_state a)),
      (''incident_count'', PInt (act_incident_count a))]"

definition activity_from_dict :: "clock \<Rightarrow> pydict \<Rightarrow> ActivityInstance result" where
  "activity_from_dict clk p =
     bindr (bindr (pindex p ''id'') py_str) (\<lambda>i.
     bindr (bindr (pindex p ''activity_id'') py_str) (\<lambda>aid.
     bindr (bindr (pindex p ''activity_name'') py_str) (\<lambda>nm.
     bindr (bindr (pindex p ''activity_type'') py_str) (\<lambda>ty.
     bindr (parse_datetime (clk 0) (pget p ''start_time'')) (\<lambda>st.
     bindr (parse_opt_datetime (clk 1) (pget p ''end_time'')) (\<lambda>et.
     bindr (py_str (pget_or p ''state'' (PStr ''active''))) (\<lambda>s.
     bindr (py_int (pget_or p ''incident_count'' (PInt 0))) (\<lambda>n.
     Inr \<lparr>act_id = i, act_activity_id = aid, act_name = nm, act_type = ty, act_start_time = st,
          act_end_time = et, act_state = s, act_incident_count = n\<rparr>))))))))"

subsection \<open>The instance\<close>

record ProcessInstance =
  pi_id :: string
  pi_definition_id :: string
  pi_definition_key :: string
  pi_definition_version :: int
  pi_business_key :: "string option"
  pi_tenant_id :: "string option"
  pi_state :: InstanceState
  pi_instance_type :: InstanceType
  pi_state_obj :: "process_state_obj option"
  pi_parent_id :: "string option"
  pi_root_instance_id :: string
  pi_super_instance_id :: "string option"
  pi_child_instances :: "string list"
  pi_start_time :: datetime
  pi_end_time :: "datetime option"
  pi_duration_ms :: "int option"
  pi_variables :: pydict
  pi_active_activities :: "(string, ActivityInstance) dict"
  pi_completed_activities :: "ActivityInstance list"
  pi_incidents :: "IncidentInfo list"
  pi_incident_count :: int
  pi_metadata :: pydict
  pi_delete_reason :: "string option"
  pi_current_activity_id :: "string option"
  pi_execution_path :: "string list"

definition new_instance ::
  "clock \<Rightarrow> string \<Rightarrow> string \<Rightarrow> string \<Rightarrow> int \<Rightarrow> string option \<Rightarrow> string option \<Rightarrow> InstanceState
    \<Rightarrow> InstanceType \<Rightarrow> string option \<Rightarrow> string option \<Rightarrow> string option \<Rightarrow> datetime option \<Rightarrow> pydict option
    \<Rightarrow> ProcessInstance" where
  "new_instance clk iid did dkey ver bkey tenant st ty par rootid super start vars =
     \<lparr>pi_id = iid, pi_definition_id = did, pi_definition_key = dkey, pi_definition_version = ver,
      pi_business_key = bkey, pi_tenant_id = tenant, pi_state = st, pi_instance_type = ty,
      pi_state_obj = None, pi_parent_id = par,
      pi_root_instance_id = (case nonempty_opt rootid of [] \<Rightarrow> iid | r # _ \<Rightarrow> r),
      pi_super_instance_id = super, pi_child_instances = [],
      pi_start_time = (case start of Some s \<Rightarrow> s | None \<Rightarrow> clk 0),
      pi_end_time = None, pi_duration_ms = None,
      pi_variables = (case vars of Some d \<Rightarrow> d | None \<Rightarrow> []),
      pi_active_activities = [], pi_completed_activities = [], pi_incidents = [],
      pi_incident_count = 0, pi_metadata = [], pi_delete_reason = None,
      pi_current_activity_id = None, pi_execution_path = []\<rparr>"

definition pi_set_variable :: "string \<Rightarrow> pyval \<Rightarrow> ProcessInstance \<Rightarrow> ProcessInstance" where
  "pi_set_variable n v i = i\<lparr>pi_variables := dset n v (pi_variables i)\<rparr>"

definition pi_get_variable :: "string \<Rightarrow> pyval \<Rightarrow> ProcessInstance \<Rightarrow> pyval" where
  "pi_get_variable n d i = pget_or (pi_variables i) n d"

definition pi_has_variable :: "string \<Rightarrow> ProcessInstance \<Rightarrow> bool" where
  "pi_has_variable n i = has_key (pi_variables i) n"

definition pi_remove_variable :: "string \<Rightarrow> ProcessInstance \<Rightarrow> bool \<times> ProcessInstance" where
  "pi_remove_variable n i =
     (if has_key (pi_variables i) n then (True, i\<lparr>pi_variables := ddel n (pi_variables i)\<rparr>) else (False, i))"

definition pi_set_variables :: "pydict \<Rightarrow> ProcessInstance \<Rightarrow> ProcessInstance" where
  "pi_set_variables vs i = i\<lparr>pi_variables := dupdate (pi_variables i) vs\<rparr>"

subsection \<open>The lifecycle\<close>

datatype instance_op = Suspend | Resume | Complete | Terminate string | Fail string

definition pi_set_state :: "InstanceState \<Rightarrow> process_state_obj option \<Rightarrow> ProcessInstance \<Rightarrow> ProcessInstance" where
  "pi_set_state e ob i =
     i\<lparr>pi_state := e, pi_state_obj := Some (case ob of Some so \<Rightarrow> so | None \<Rightarrow> state_for e)\<rparr>"

definition calculate_duration :: "ProcessInstance \<Rightarrow> ProcessInstance" where
  "calculate_duration i =
     (case pi_end_time i of
        None \<Rightarrow> i
      | Some e \<Rightarrow> i\<lparr>pi_duration_ms := Some (total_ms (e - pi_start_time i))\<rparr>)"

text \<open>\<open>set_state\<close>, \<open>end_time = utcnow()\<close>, optionally \<open>delete_reason\<close>, then \<open>_calculate_duration\<close>\<close>

definition end_instance ::
  "clock \<Rightarrow> InstanceState \<Rightarrow> process_state_obj \<Rightarrow> string option \<Rightarrow> ProcessInstance \<Rightarrow> ProcessInstance" where
  "end_instance clk e ob reason i =
     (let i1 = (pi_set_state e (Some ob) i)\<lparr>pi_end_time := Some (clk 0)\<rparr>;
          i2 = (case reason of None \<Rightarrow> i1 | Some r \<Rightarrow> i1\<lparr>pi_delete_reason := Some r\<rparr>)
      in calculate_duration i2)"

fun active_state :: "clock \<Rightarrow> instance_op \<Rightarrow> ProcessInstance \<Rightarrow> ProcessInstance result" where
  "active_state clk Suspend i = Inr (pi_set_state SUSPENDED (Some SuspendedState) i)"
| "active_state clk Resume i =
     Inl (RuntimeError (''Cannot resume instance '' @ pi_id i @ '': already active''))"
| "active_state clk Complete i = Inr (end_instance clk COMPLETED CompletedState None i)"
| "active_state clk (Terminate r) i = Inr (end_instance clk TERMINATED TerminatedState (Some r) i)"
| "active_state clk (Fail m) i = Inr (end_instance clk FAILED FailedState (Some m) i)"

fun suspended_state :: "clock \<Rightarrow> instance_op \<Rightarrow> ProcessInstance \<Rightarrow> ProcessInstance result" where
  "suspended_state clk Suspend i =
     Inl (RuntimeError (''Cannot suspend instance '' @ pi_id i @ '': already suspended''))"
| "suspended_state clk Resume i = Inr (pi_set_state ACTIVE (Some ActiveState) i)"
| "suspended_state clk Complete i =
     Inl (RuntimeError (''Cannot complete suspended instance '' @ pi_id i @ '': resume first''))"
| "suspended_state clk (Terminate r) i = Inr (end_instance clk TERMINATED TerminatedState (Some r) i)"
| "suspended_state clk (Fail m) i = Inr (end_instance clk FAILED FailedState (Some m) i)"

fun completed_state :: "instance_op \<Rightarrow> ProcessInstance \<Rightarrow> ProcessInstance result" where
  "completed_state Suspend i = Inl (RuntimeError (''Cannot suspend completed instance '' @ pi_id i))"
| "completed_state Resume i = Inl (RuntimeError (''Cannot resume completed instance '' @ pi_id i))"
| "completed_state Complete i = Inl (RuntimeError (''Instance '' @ pi_id i @ '' is already completed''))"
| "completed_state (Terminate r) i = Inl (RuntimeError (''Cannot terminate completed instance '' @ pi_id i))"
| "completed_state (Fail m) i = Inl (RuntimeError (''Cannot fail completed instance '' @ pi_id i))"

fun failed_state :: "instance_op \<Rightarrow> ProcessInstance \<Rightarrow> ProcessInstance result" where
  "failed_state Suspend i = Inl (RuntimeError (''Cannot suspend failed instance '' @ pi_id i))"
| "failed_state Resume i = Inl (RuntimeError (''Cannot resume failed instance '' @ pi_id i))"
| "failed_state Complete i = Inl (RuntimeError (''Cannot complete failed instance '' @ pi_id i))"
| "failed_state (Terminate r) i = Inr (pi_set_state TERMINATED (Some TerminatedState) i)"
| "failed_state (Fail m) i = Inl (RuntimeError (''Instance '' @ pi_id i @ '' already failed: '' @ m))"

fun terminated_state :: "instance_op \<Rightarrow> ProcessInstance \<Rightarrow> ProcessInstance result" where
  "terminated_state Suspend i = Inl (RuntimeError (''Cannot suspend terminated instance '' @ pi_id i))"
| "terminated_state Resume i = Inl (RuntimeError (''Cannot resume terminated instance '' @ pi_id i))"
| "terminated_state Complete i = Inl (RuntimeError (''Cannot complete terminated instance '' @ pi_id i))"
| "terminated_state (Terminate r) i = Inl (RuntimeError (''Instance '' @ pi_id i @ '' is already terminated''))"
| "terminated_state (Fail m) i = Inl (RuntimeError (''Cannot fail terminated instance '' @ pi_id i))"

fun draft_state :: "clock \<Rightarrow> instance_op \<Rightarrow> ProcessInstance \<Rightarrow> ProcessInstance result" where
  "draft_state clk Suspend i =
     Inl (RuntimeError (''Cannot suspend draft instance '' @ pi_id i @ '': activate first''))"
| "draft_state clk Resume i =
     Inl (RuntimeError (''Cannot resume draft instance '' @ pi_id i @ '': not suspended''))"
| "draft_state clk Complete i =
     Inl (RuntimeError (''Cannot complete draft instance '' @ pi_id i @ '': activate first''))"
| "draft_state clk (Terminate r) i = Inr (end_instance clk TERMINATED TerminatedState (Some r) i)"
| "draft_state clk (Fail m) i = Inr (end_instance clk FAILED FailedState (Some m) i)"

fun closed_state :: "instance_op \<Rightarrow> ProcessInstance \<Rightarrow> ProcessInstance result" where
  "closed_state Suspend i = Inl (RuntimeError (''Cannot suspend closed instance '' @ pi_id i))"
| "closed_state Resume i = Inl (RuntimeError (''Cannot resume closed instance '' @ pi_id i))"
| "closed_state Complete i = Inl (RuntimeError (''Cannot complete closed instance '' @ pi_id i))"
| "closed_state (Terminate r) i = Inl (RuntimeError (''Cannot terminate closed instance '' @ pi_id i))"
| "closed_state (Fail m) i = Inl (RuntimeError (''Cannot fail closed instance '' @ pi_id i))"

fun compensating_state :: "clock \<Rightarrow> instance_op \<Rightarrow> ProcessInstance \<Rightarrow> ProcessInstance result" where
  "compensating_state clk Suspend i = Inl (RuntimeError (''Cannot suspend compensating instance '' @ pi_id i))"
| "compensating_state clk Resume i = Inl (RuntimeError (''Cannot resume compensating instance '' @ pi_id i))"
| "compensating_state clk Complete i = Inr (pi_set_state COMPLETED (Some CompletedState) i)"
| "compensating_state clk (Terminate r) i = Inr (end_instance clk TERMINATED TerminatedState (Some r) i)"
| "compensating_state clk (Fail m) i = Inr (end_instance clk FAILED FailedState (Some m) i)"

fun migrating_state :: "clock \<Rightarrow> instance_op \<Rightarrow> ProcessInstance \<Rightarrow> ProcessInstance result" where
  "migrating_state clk Suspend i = Inl (RuntimeError (''Cannot suspend migrating instance '' @ pi_id i))"
| "migrating_state clk Resume i = Inl (RuntimeError (''Cannot resume migrating instance '' @ pi_id i))"
| "migrating_state clk Complete i = Inr (pi_set_state COMPLETED (Some CompletedState) i)"
| "migrating_state clk (Terminate r) i = Inr (end_instance clk TERMINATED TerminatedState (Some r) i)"
| "migrating_state clk (Fail m) i = Inr (end_instance clk FAILED FailedState (Some m) i)"

fun process_state_method ::
  "process_state_obj \<Rightarrow> clock \<Rightarrow> instance_op \<Rightarrow> ProcessInstance \<Rightarrow> ProcessInstance result" where
  "process_state_method ActiveState clk x i = active_state clk x i"
| "process_state_method SuspendedState clk x i = suspended_state clk x i"
| "process_state_method CompletedState clk x i = completed_state x i"
| "process_state_method FailedState clk x i = failed_state x i"
| "process_state_method TerminatedState clk x i = terminated_state x i"
| "process_state_method DraftState clk x i = draft_state clk x i"
| "process_state_method ClosedState clk x i = closed_state x i"
| "process_state_method CompensatingState clk x i = compensating_state clk x i"
| "process_state_method MigratingState clk x i = migrating_state clk x i"

definition pi_get_state :: "ProcessInstance \<Rightarrow> process_state_obj \<times> ProcessInstance" where
  "pi_get_state i =
     (case pi_state_obj i of
        Some ob \<Rightarrow> (ob, i)
      | None \<Rightarrow> (let ob = state_for (pi_state i) in (ob, i\<lparr>pi_state_obj := Some ob\<rparr>)))"

definition instance_apply :: "clock \<Rightarrow> instance_op \<Rightarrow> ProcessInstance \<Rightarrow> ProcessInstance outcome" where
  "instance_apply clk x i =
     (case pi_get_state i of (ob, i') \<Rightarrow>
        (case process_state_method ob clk x i' of
           Inl e \<Rightarrow> (Some e, i')
         | Inr i'' \<Rightarrow> (None, i'')))"

subsection \<open>Activities and incidents of an instance\<close>

definition start_activity ::
  "clock \<Rightarrow> string \<Rightarrow> string \<Rightarrow> string \<Rightarrow> string \<Rightarrow> ProcessInstance \<Rightarrow> ActivityInstance \<times> ProcessInstance" where
  "start_activity clk uuid aid nm ty i =
     (let a = \<lparr>act_id = uuid, act_activity_id = aid, act_name = nm, act_type = ty,
               act_start_time = clk 0, act_end_time = None, act_state = ''active'', act_incident_count = 0\<rparr>
      in (a, i\<lparr>pi_active_activities := dset aid a (pi_active_activities i),
               pi_current_activity_id := Some aid,
               pi_execution_path := pi_execution_path i @ [aid]\<rparr>))"

definition complete_activity :: "clock \<Rightarrow> string \<Rightarrow> ProcessInstance \<Rightarrow> ProcessInstance" where
  "complete_activity clk aid i =
     (case dget (pi_active_activities i) aid of
        None \<Rightarrow> i
      | Some a \<Rightarrow> i\<lparr>pi_active_activities := ddel aid (pi_active_activities i),
                  pi_completed_activities := pi_completed_activities i @
                    [a\<lparr>act_end_time := Some (clk 0), act_state := ''completed''\<rparr>]\<rparr>)"

definition fail_activity :: "string \<Rightarrow> ProcessInstance \<Rightarrow> ProcessInstance" where
  "fail_activity aid i =
     (case dget (pi_active_activities i) aid of
        None \<Rightarrow> i
      | Some a \<Rightarrow> i\<lparr>pi_active_activities :=
          dset aid (a\<lparr>act_state := ''failed'', act_incident_count := act_incident_count a + 1\<rparr>)
            (pi_active_activities i)\<rparr>)"

definition create_incident ::
  "clock \<Rightarrow> string \<Rightarrow> string \<Rightarrow> string \<Rightarrow> string option \<Rightarrow> string option \<Rightarrow> string option
    \<Rightarrow> ProcessInstance \<Rightarrow> IncidentInfo \<times> ProcessInstance" where
  "create_incident clk uuid ty msg aid em es i =
     (let x = \<lparr>inc_id = uuid, inc_type = ty, inc_message = msg, inc_timestamp = clk 0,
               inc_activity_id = aid, inc_job_id = None, inc_exception_message = em,
               inc_exception_stacktrace = es, inc_resolved = False, inc_resolved_at = None\<rparr>;
          i1 = i\<lparr>pi_incidents := pi_incidents i @ [x], pi_incident_count := pi_incident_count i + 1\<rparr>;
          i2 = (case nonempty_opt aid of
                  [] \<Rightarrow> i1
                | k # _ \<Rightarrow>
                    (case dget (pi_active_activities i1) k of
                       None \<Rightarrow> i1
                     | Some a \<Rightarrow> i1\<lparr>pi_active_activities :=
                         dset k (a\<lparr>act_incident_count := act_incident_count a + 1\<rparr>) (pi_active_activities i1)\<rparr>))
      in (x, i2))"

fun resolve_first :: "datetime \<Rightarrow> string \<Rightarrow> IncidentInfo list \<Rightarrow> bool \<times> IncidentInfo list" where
  "resolve_first now k [] = (False, [])"
| "resolve_first now k (x # xs) =
     (if inc_id x = k \<and> \<not> inc_resolved x
      then (True, x\<lparr>inc_resolved := True, inc_resolved_at := Some now\<rparr> # xs)
      else (case resolve_first now k xs of (b, ys) \<Rightarrow> (b, x # ys)))"

definition resolve_incident :: "clock \<Rightarrow> string \<Rightarrow> ProcessInstance \<Rightarrow> bool \<times> ProcessInstance" where
  "resolve_incident clk k i =
     (case resolve_first (clk 0) k (pi_incidents i) of (b, xs) \<Rightarrow> (b, i\<lparr>pi_incidents := xs\<rparr>))"

definition get_active_incidents :: "ProcessInstance \<Rightarrow> IncidentInfo list" where
  "get_active_incidents i = filter (\<lambda>x. \<not> inc_resolved x) (pi_incidents i)"

definition add_child_instance :: "string \<Rightarrow> ProcessInstance \<Rightarrow> ProcessInstance" where
  "add_child_instance c i =
     (if c \<in> set (pi_child_instances i) then i
      else i\<lparr>pi_child_instances := pi_child_instances i @ [c]\<rparr>)"

definition is_root_instance :: "ProcessInstance \<Rightarrow> bool" where
  "is_root_instance i \<longleftrightarrow> pi_instance_type i = ROOT \<and> pi_parent_id i = None"

definition is_subprocess :: "ProcessInstance \<Rightarrow> bool" where
  "is_subprocess i \<longleftrightarrow> pi_instance_type i \<in> {SUBPROCESS, CALL_ACTIVITY, EVENT_SUBPROCESS}"

definition pi_get_metadata :: "string \<Rightarrow> pyval \<Rightarrow> ProcessInstance \<Rightarrow> pyval" where
  "pi_get_metadata k d i = pget_or (pi_metadata i) k d"

definition pi_set_metadata :: "string \<Rightarrow> pyval \<Rightarrow> ProcessInstance \<Rightarrow> ProcessInstance" where
  "pi_set_metadata k v i = i\<lparr>pi_metadata := dset k v (pi_metadata i)\<rparr>"

subsection \<open>Serialisation\<close>

definition active_instances_value :: "ProcessInstance \<Rightarrow> pyval" where
  "active_instances_value i = PDict (map (\<lambda>(k, a). (k, PDict (activity_to_dict a))) (pi_active_activities i))"

definition completed_instances_value :: "ProcessInstance \<Rightarrow> pyval" where
  "completed_instances_value i = PList (map (PDict \<circ> activity_to_dict) (pi_completed_activities i))"

definition incidents_value :: "ProcessInstance \<Rightarrow> pyval" where
  "incidents_value i = PList (map (PDict \<circ> incident_to_dict) (pi_incidents i))"

definition instance_to_dict :: "ProcessInstance \<Rightarrow> pydict" where
  "instance_to_dict i =
     [(''id'', PStr (pi_id i)),
      (''definition_id'', PStr (pi_definition_id i)),
      (''definition_key'', PStr (pi_definition_key i)),
      (''definition_version'', PInt (pi_definition_version i)),
      (''business_key'', opt_str (pi_business_key i)),
      (''tenant_id'', opt_str (pi_tenant_id i)),
      (''state'', PStr (instance_state_value (pi_state i))),
      (''instance_type'', PStr (instance_type_value (pi_instance_type i))),
      (''parent_id'', opt_str (pi_parent_id i)),
      (''root_instance_id'', PStr (pi_root_instance_id i)),
      (''super_instance_id'', opt_str (pi_super_instance_id i)),
      (''start_time'', PStr (isoformat (pi_start_time i))),
      (''end_time'', opt_iso (pi_end_time i)),
      (''duration_ms'', opt_int (pi_duration_ms i)),
      (''variables'', PDict (pi_variables i)),
      (''active_activity_instances'', active_instances_value i),
      (''completed_activity_instances'', completed_instances_value i),
      (''incidents'', incidents_value i),
      (''active_activities'', PInt (int (length (pi_active_activities i)))),
      (''completed_activities'', PInt (int (length (pi_completed_activities i)))),
      (''incident_count'', PInt (pi_incident_count i)),
      (''child_instances'', str_list (pi_child_instances i)),
      (''current_activity_id'', opt_str (pi_current_activity_id i)),
      (''execution_path'', str_list (pi_execution_path i)),
      (''delete_reason'', opt_str (pi_delete_reason i)),
      (''metadata'', PDict (pi_metadata i))]"

text \<open>\<open>payload.pop(k)\<close> removes the entry and its value goes into the nested payload.\<close>

definition instance_to_record :: "ProcessInstance \<Rightarrow> pydict" where
  "instance_to_record i =
     (let p = dset ''instance_id'' (PStr (pi_id i)) (instance_to_dict i);
          rest = fold ddel [''active_activity_instances'', ''completed_activity_instances'', ''incidents'',
                            ''execution_path'', ''current_activity_id'', ''delete_reason''] p
      in dset ''payload'' (PDict
           [(''variables'', PDict (pi_variables i)),
            (''active_activity_instances'', pget p ''active_activity_instances''),
            (''completed_activity_instances'', pget p ''completed_activity_instances''),
            (''incidents'', pget p ''incidents''),
            (''metadata'', PDict (pi_metadata i)),
            (''execution_path'', pget p ''execution_path''),
            (''current_activity_id'', pget p ''current_activity_id''),
            (''delete_reason'', pget p ''delete_reason''),
            (''child_instances'', pget p ''child_instances'')]) rest)"

text \<open>\<open>[parse(x) for x in xs if isinstance(x, dict)]\<close>, the clock advancing from item to item\<close>

fun parse_dicts :: "(clock \<Rightarrow> pydict \<Rightarrow> 'a result) \<Rightarrow> clock \<Rightarrow> pyval list \<Rightarrow> 'a list result" where
  "parse_dicts f clk [] = Inr []"
| "parse_dicts f clk (PDict d # vs) =
     bindr (f clk d) (\<lambda>x. bindr (parse_dicts f (\<lambda>n. clk (n + 2)) vs) (\<lambda>xs. Inr (x # xs)))"
| "parse_dicts f clk (v # vs) = parse_dicts f clk vs"

fun parse_dict_values ::
  "(clock \<Rightarrow> pydict \<Rightarrow> 'a result) \<Rightarrow> clock \<Rightarrow> pydict \<Rightarrow> (string, 'a) dict result" where
  "parse_dict_values f clk [] = Inr []"
| "parse_dict_values f clk ((k, PDict d) # vs) =
     bindr (f clk d) (\<lambda>x. bindr (parse_dict_values f (\<lambda>n. clk (n + 2)) vs) (\<lambda>xs. Inr ((k, x) # xs)))"
| "parse_dict_values f clk (v # vs) = parse_dict_values f clk vs"

definition instance_from_record :: "clock \<Rightarrow> pydict \<Rightarrow> ProcessInstance result" where
  "instance_from_record clk p =
     (let n = as_dict (pget p ''payload'') in
     bindr (py_str (por (pget p ''instance_id'') (pget p ''id''))) (\<lambda>iid.
     bindr (py_str (pget_or p ''definition_id'' (PStr []))) (\<lambda>did.
     bindr (py_str (pget_or p ''definition_key'' (PStr []))) (\<lambda>dkey.
     bindr (py_int (pget_or p ''definition_version'' (PInt 0))) (\<lambda>ver.
     bindr (optional_str (pget p ''business_key'')) (\<lambda>bkey.
     bindr (optional_str (pget p ''tenant_id'')) (\<lambda>tenant.
     bindr (bindr (py_str (pget_or p ''state'' (PStr (instance_state_value ACTIVE)))) instance_state_of) (\<lambda>st.
     bindr (bindr (py_str (pget_or p ''instance_type'' (PStr (instance_type_value ROOT)))) instance_type_of) (\<lambda>ty.
     bindr (optional_str (pget p ''parent_id'')) (\<lambda>par.
     bindr (optional_str (pget p ''root_instance_id'')) (\<lambda>rootid.
     bindr (optional_str (pget p ''super_instance_id'')) (\<lambda>super.
     bindr (parse_datetime (clk 0) (pget p ''start_time'')) (\<lambda>start.
     bindr (py_dict (por (por (pget n ''variables'') (pget p ''variables'')) (PDict []))) (\<lambda>vars.
     let i0 = new_instance clk iid did dkey ver bkey tenant st ty par rootid super (Some start) (Some vars) in
     bindr (parse_opt_datetime (clk 1) (pget p ''end_time'')) (\<lambda>et.
     bindr (if pget p ''duration_ms'' \<noteq> PNone
            then bindr (bindr (pindex p ''duration_ms'') py_int) (Inr \<circ> Some) else Inr None) (\<lambda>dur.
     bindr (read_str_list (por (pget n ''child_instances'') (pget p ''child_instances''))) (\<lambda>kids.
     bindr (optional_str (pget n ''current_activity_id'')) (\<lambda>cur.
     bindr (read_str_list (pget n ''execution_path'')) (\<lambda>path.
     bindr (optional_str (pget n ''delete_reason'')) (\<lambda>reason.
     bindr (py_dict (por (por (pget n ''metadata'') (pget p ''metadata'')) (PDict []))) (\<lambda>meta.
     bindr (bindr (py_list (por (pget n ''incidents'') (PList [])))
              (parse_dicts incident_from_dict (\<lambda>k. clk (3 * k + 2)))) (\<lambda>incs.
     bindr (case por (pget n ''active_activity_instances'') (PDict []) of
              PDict d \<Rightarrow> parse_dict_values activity_from_dict (\<lambda>k. clk (3 * k + 3)) d
            | _ \<Rightarrow> Inr []) (\<lambda>acts.
     bindr (bindr (py_list (por (pget n ''completed_activity_instances'') (PList [])))
              (parse_dicts activity_from_dict (\<lambda>k. clk (3 * k + 4)))) (\<lambda>fin.
     Inr (i0\<lparr>pi_end_time := et, pi_duration_ms := dur, pi_child_instances := kids,
             pi_current_activity_id := cur, pi_execution_path := path, pi_delete_reason := reason,
             pi_metadata := meta, pi_incidents := incs, pi_incident_count := int (length incs),
             pi_active_activities := acts, pi_completed_activities := fin\<rparr>)))))))))))))))))))))))))"

subsection \<open>The instance manager\<close>

record InstanceManager =
  im_instances :: "(string, ProcessInstance) dict"
  im_business_key_index :: "(string, string) index"
  im_definition_index :: "(string, string) index"

definition instance_manager_init :: InstanceManager where
  "instance_manager_init = \<lparr>im_instances = [], im_business_key_index = [], im_definition_index = []\<rparr>"

definition file_instance :: "string \<Rightarrow> ProcessInstance \<Rightarrow> InstanceManager \<Rightarrow> InstanceManager" where
  "file_instance iid i m =
     m\<lparr>im_instances := dset iid i (im_instances m),
       im_business_key_index :=
         fold (\<lambda>b ix. idx_add b iid ix) (nonempty_opt (pi_business_key i)) (im_business_key_index m),
       im_definition_index := idx_add (pi_definition_key i) iid (im_definition_index m)\<rparr>"

definition add_instance :: "ProcessInstance \<Rightarrow> InstanceManager \<Rightarrow> InstanceManager" where
  "add_instance i m = file_instance (pi_id i) i m"

definition get_instance :: "string \<Rightarrow> InstanceManager \<Rightarrow> ProcessInstance option" where
  "get_instance iid m = dget (im_instances m) iid"

definition remove_instance :: "string \<Rightarrow> InstanceManager \<Rightarrow> bool \<times> InstanceManager" where
  "remove_instance iid m =
     (case dget (im_instances m) iid of
        None \<Rightarrow> (False, m)
      | Some i \<Rightarrow>
          (True,
           m\<lparr>im_instances := ddel iid (im_instances m),
             im_business_key_index :=
               fold (\<lambda>b ix. idx_discard b iid ix) (nonempty_opt (pi_business_key i)) (im_business_key_index m),
             im_definition_index := idx_discard (pi_definition_key i) iid (im_definition_index m)\<rparr>))"

definition find_by_business_key :: "string \<Rightarrow> InstanceManager \<Rightarrow> ProcessInstance list" where
  "find_by_business_key b m = select (im_instances m) (idx_get (im_business_key_index m) b)"

definition find_by_definition :: "string \<Rightarrow> InstanceManager \<Rightarrow> ProcessInstance list" where
  "find_by_definition d m = select (im_instances m) (idx_get (im_definition_index m) d)"

definition find_by_state :: "InstanceState \<Rightarrow> InstanceManager \<Rightarrow> ProcessInstance list" where
  "find_by_state st m = filter (\<lambda>i. pi_state i = st) (dvals (im_instances m))"

record instance_statistics =
  is_total :: nat
  is_states :: "(string, nat) dict"
  is_definitions :: nat
  is_business_keys :: nat

definition instance_get_statistics :: "InstanceManager \<Rightarrow> instance_statistics" where
  "instance_get_statistics m =
     \<lparr>is_total = length (im_instances m),
      is_states = tally (map (instance_state_value \<circ> pi_state) (dvals (im_instances m))),
      is_definitions = length (im_definition_index m),
      is_business_keys = length (im_business_key_index m)\<rparr>"

definition persist_instance ::
  "(string \<Rightarrow> pydict \<Rightarrow> 'r \<Rightarrow> pydict \<times> 'r) \<Rightarrow> string \<Rightarrow> InstanceManager \<Rightarrow> 'r option
    \<Rightarrow> pydict option \<times> 'r option" where
  "persist_instance save iid m rep =
     (case rep of
        None \<Rightarrow> (None, None)
      | Some r \<Rightarrow>
          (case get_instance iid m of
             None \<Rightarrow> (None, Some r)
           | Some i \<Rightarrow> (case save iid (instance_to_record i) r of (p, r') \<Rightarrow> (Some p, Some r'))))"

definition load_instance ::
  "(string \<Rightarrow> 'r \<Rightarrow> pydict option) \<Rightarrow> clock \<Rightarrow> 'r option \<Rightarrow> string \<Rightarrow> InstanceManager
    \<Rightarrow> ProcessInstance option result \<times> InstanceManager" where
  "load_instance get clk rep iid m =
     (case rep of
        None \<Rightarrow> (Inr (get_instance iid m), m)
      | Some r \<Rightarrow>
          (case get iid r of
             None \<Rightarrow> (Inr None, m)
           | Some payload \<Rightarrow>
               (case instance_from_record clk payload of
                  Inl e \<Rightarrow> (Inl e, m)
                | Inr i \<Rightarrow> (Inr (Some i), add_instance i m))))"

fun load_instance_rows ::
  "clock \<Rightarrow> pydict list \<Rightarrow> InstanceManager \<Rightarrow> ProcessInstance list result \<times> InstanceManager" where
  "load_instance_rows clk [] m = (Inr [], m)"
| "load_instance_rows clk (p # ps) m =
     (case instance_from_record clk p of
        Inl e \<Rightarrow> (Inl e, m)
      | Inr i \<Rightarrow>
          (case load_instance_rows clk ps (add_instance i m) of
             (Inl e, m') \<Rightarrow> (Inl e, m')
           | (Inr is, m') \<Rightarrow> (Inr (i # is), m')))"

definition load_all_instances ::
  "('r \<Rightarrow> pydict list) \<Rightarrow> clock \<Rightarrow> 'r option \<Rightarrow> InstanceManager
    \<Rightarrow> ProcessInstance list result \<times> InstanceManager" where
  "load_all_instances rows clk rep m =
     (case rep of
        None \<Rightarrow> (Inr (dvals (im_instances m)), m)
      | Some r \<Rightarrow> load_instance_rows clk (rows r) m)"

subsection \<open>The lifecycle as an abstract machine\<close>

fun instance_spec :: "InstanceState \<Rightarrow> instance_op \<Rightarrow> InstanceState option" where
  "instance_spec ACTIVE Suspend = Some SUSPENDED"
| "instance_spec SUSPENDED Resume = Some ACTIVE"
| "instance_spec ACTIVE Complete = Some COMPLETED"
| "instance_spec COMPENSATING Complete = Some COMPLETED"
| "instance_spec MIGRATING Complete = Some COMPLETED"
| "instance_spec ACTIVE (Terminate _) = Some TERMINATED"
| "instance_spec SUSPENDED (Terminate _) = Some TERMINATED"
| "instance_spec DRAFT (Terminate _) = Some TERMINATED"
| "instance_spec COMPENSATING (Terminate _) = Some TERMINATED"
| "instance_spec MIGRATING (Terminate _) = Some TERMINATED"
| "instance_spec FAILED (Terminate _) = Some TERMINATED"
| "instance_spec ACTIVE (Fail _) = Some FAILED"
| "instance_spec SUSPENDED (Fail _) = Some FAILED"
| "instance_spec DRAFT (Fail _) = Some FAILED"
| "instance_spec COMPENSATING (Fail _) = Some FAILED"
| "instance_spec MIGRATING (Fail _) = Some FAILED"
| "instance_spec _ _ = None"

definition instance_wf :: "ProcessInstance \<Rightarrow> bool" where
  "instance_wf i \<longleftrightarrow> (\<forall>ob. pi_state_obj i = Some ob \<longrightarrow> ob = state_for (pi_state i))"

lemma pi_get_state_wf:
  "instance_wf i \<Longrightarrow> pi_get_state i = (state_for (pi_state i), i\<lparr>pi_state_obj := Some (state_for (pi_state i))\<rparr>)"
  by (cases i) (auto simp: pi_get_state_def instance_wf_def Let_def split: option.splits)

lemma end_instance_simps [simp]:
  "pi_state (end_instance clk e ob r i) = e"
  "pi_state_obj (end_instance clk e ob r i) = Some ob"
  "pi_end_time (end_instance clk e ob r i) = Some (clk 0)"
  "pi_start_time (end_instance clk e ob r i) = pi_start_time i"
  "pi_duration_ms (end_instance clk e ob r i) = Some (total_ms (clk 0 - pi_start_time i))"
  "pi_delete_reason (end_instance clk e ob r i) = (case r of None \<Rightarrow> pi_delete_reason i | Some x \<Rightarrow> Some x)"
  by (simp_all add: end_instance_def calculate_duration_def pi_set_state_def Let_def split: option.splits)

lemma pi_set_state_simps [simp]:
  "pi_state (pi_set_state e (Some ob) i) = e" "pi_state_obj (pi_set_state e (Some ob) i) = Some ob"
  "pi_end_time (pi_set_state e (Some ob) i) = pi_end_time i"
  "pi_start_time (pi_set_state e (Some ob) i) = pi_start_time i"
  "pi_duration_ms (pi_set_state e (Some ob) i) = pi_duration_ms i"
  "pi_delete_reason (pi_set_state e (Some ob) i) = pi_delete_reason i"
  by (simp_all add: pi_set_state_def)

lemma instance_apply_wf: "instance_wf i \<Longrightarrow> instance_wf (snd (instance_apply clk x i))"
  by (cases "pi_state i"; cases x) (simp_all add: instance_apply_def pi_get_state_wf, simp_all add: instance_wf_def)

lemma instance_apply_status:
  assumes "instance_wf i"
  shows "(case instance_spec (pi_state i) x of
      None \<Rightarrow> (\<exists>msg. fst (instance_apply clk x i) = Some (RuntimeError msg)) \<and>
        snd (instance_apply clk x i) = i\<lparr>pi_state_obj := Some (state_for (pi_state i))\<rparr>
    | Some s \<Rightarrow> fst (instance_apply clk x i) = None \<and> pi_state (snd (instance_apply clk x i)) = s)"
  using assms by (cases "pi_state i"; cases x) (simp_all add: instance_apply_def pi_get_state_wf)

interpretation instance_life: machine "\<lambda>(clk, x). instance_apply clk x" instance_wf pi_state snd instance_spec
proof
  fix s :: ProcessInstance and x :: "clock \<times> instance_op"
  assume wf: "instance_wf s"
  obtain clk y where x: "x = (clk, y)" by fastforce
  show "instance_wf (snd ((case x of (clk, x) \<Rightarrow> instance_apply clk x) s))"
    using wf by (simp add: x instance_apply_wf)
  show "pi_state (snd ((case x of (clk, x) \<Rightarrow> instance_apply clk x) s)) = spec_step instance_spec (snd x) (pi_state s)"
    "fst ((case x of (clk, x) \<Rightarrow> instance_apply clk x) s) = None \<longleftrightarrow> instance_spec (pi_state s) (snd x) \<noteq> None"
    using instance_apply_status [OF wf, of clk y] by (auto simp: x spec_step_def split: option.splits)
qed

lemma instance_spec_final: "spec_final instance_spec s \<longleftrightarrow> s \<in> {COMPLETED, TERMINATED, CLOSED}"
proof -
  have "s \<in> {COMPLETED, TERMINATED, CLOSED}" if "spec_final instance_spec s"
    using that spec_finalD [of instance_spec s "Terminate []"] by (cases s) auto
  moreover have "spec_final instance_spec s" if "s \<in> {COMPLETED, TERMINATED, CLOSED}"
    unfolding spec_final_def
  proof (intro allI impI)
    fix x s' assume "instance_spec s x = Some s'"
    with that show "s' = s" by (cases s; cases x) simp_all
  qed
  ultimately show ?thesis by blast
qed

subsection \<open>What instances keep\<close>

text \<open>
  The instance's clock, activity and incident bookkeeping.  An instance ends through its
  lifecycle methods; \<open>inst_timed\<close> excepts the completion of a compensating or migrating one,
  which the code leaves without an end time.
\<close>

definition inst_timed :: "ProcessInstance \<Rightarrow> bool" where
  "inst_timed i \<longleftrightarrow> pi_duration_ms i = map_option (\<lambda>e. total_ms (e - pi_start_time i)) (pi_end_time i)"

definition inst_tracked :: "ProcessInstance \<Rightarrow> bool" where
  "inst_tracked i \<longleftrightarrow>
     dict_ok (pi_active_activities i) \<and>
     (\<forall>k a. dget (pi_active_activities i) k = Some a \<longrightarrow> act_activity_id a = k \<and> act_end_time a = None) \<and>
     (\<forall>a \<in> set (pi_completed_activities i). act_end_time a \<noteq> None \<and> act_state a = ''completed'') \<and>
     set (pi_execution_path i) =
       set (dkeys (pi_active_activities i)) \<union> act_activity_id ` set (pi_completed_activities i)"

definition inst_inv :: "ProcessInstance \<Rightarrow> bool" where
  "inst_inv i \<longleftrightarrow> instance_wf i \<and> inst_timed i \<and> inst_tracked i \<and>
     pi_incident_count i = int (length (pi_incidents i)) \<and> distinct (pi_child_instances i)"

inductive instance_reach :: "ProcessInstance \<Rightarrow> bool" where
  create: "instance_reach (new_instance clk iid did dkey ver bkey tenant st ty par rootid super start vars)"
| op: "instance_reach i \<Longrightarrow> instance_reach (snd (instance_apply clk x i))"
| set: "instance_reach i \<Longrightarrow> instance_reach (pi_set_state e None i)"
| var: "instance_reach i \<Longrightarrow> instance_reach (pi_set_variable n v i)"
| unset: "instance_reach i \<Longrightarrow> instance_reach (snd (pi_remove_variable n i))"
| vars: "instance_reach i \<Longrightarrow> instance_reach (pi_set_variables vs i)"
| start: "instance_reach i \<Longrightarrow> instance_reach (snd (start_activity clk uuid aid nm ty i))"
| finish: "instance_reach i \<Longrightarrow> instance_reach (complete_activity clk aid i)"
| fail: "instance_reach i \<Longrightarrow> instance_reach (fail_activity aid i)"
| incident: "instance_reach i \<Longrightarrow> instance_reach (snd (create_incident clk uuid ty msg aid' em es i))"
| resolve: "instance_reach i \<Longrightarrow> instance_reach (snd (resolve_incident clk k i))"
| child: "instance_reach i \<Longrightarrow> instance_reach (add_child_instance c i)"
| meta: "instance_reach i \<Longrightarrow> instance_reach (pi_set_metadata k v i)"

text \<open>The lifecycle methods leave the bookkeeping alone.\<close>

lemma end_instance_frame [simp, frame_simps]:
  "pi_active_activities (end_instance clk e ob r i) = pi_active_activities i"
  "pi_completed_activities (end_instance clk e ob r i) = pi_completed_activities i"
  "pi_execution_path (end_instance clk e ob r i) = pi_execution_path i"
  "pi_incidents (end_instance clk e ob r i) = pi_incidents i"
  "pi_incident_count (end_instance clk e ob r i) = pi_incident_count i"
  "pi_child_instances (end_instance clk e ob r i) = pi_child_instances i"
  "pi_id (end_instance clk e ob r i) = pi_id i"
  "pi_business_key (end_instance clk e ob r i) = pi_business_key i"
  "pi_definition_key (end_instance clk e ob r i) = pi_definition_key i"
  by (simp_all add: end_instance_def calculate_duration_def pi_set_state_def Let_def split: option.splits)

lemma pi_set_state_frame [simp, frame_simps]:
  "pi_active_activities (pi_set_state e ob i) = pi_active_activities i"
  "pi_completed_activities (pi_set_state e ob i) = pi_completed_activities i"
  "pi_execution_path (pi_set_state e ob i) = pi_execution_path i"
  "pi_incidents (pi_set_state e ob i) = pi_incidents i"
  "pi_incident_count (pi_set_state e ob i) = pi_incident_count i"
  "pi_child_instances (pi_set_state e ob i) = pi_child_instances i"
  "pi_id (pi_set_state e ob i) = pi_id i"
  "pi_business_key (pi_set_state e ob i) = pi_business_key i"
  "pi_definition_key (pi_set_state e ob i) = pi_definition_key i"
  by (simp_all add: pi_set_state_def)

definition tracking :: "ProcessInstance \<Rightarrow> (string, ActivityInstance) dict \<times> ActivityInstance list \<times> string list \<times>
    IncidentInfo list \<times> int \<times> string list \<times> string \<times> string option \<times> string" where
  "tracking i = (pi_active_activities i, pi_completed_activities i, pi_execution_path i, pi_incidents i,
     pi_incident_count i, pi_child_instances i, pi_id i, pi_business_key i, pi_definition_key i)"

lemma instance_apply_frame: "tracking (snd (instance_apply clk x i)) = tracking i"
proof -
  obtain ob i' where g: "pi_get_state i = (ob, i')" by fastforce
  then have "tracking i' = tracking i"
    by (auto simp: pi_get_state_def tracking_def Let_def split: option.splits)
  with g show ?thesis
    by (cases ob; cases x) (simp_all add: instance_apply_def tracking_def)
qed

lemmas instance_apply_fields = instance_apply_frame [unfolded tracking_def prod.inject]

lemma instance_apply_timed:
  assumes "instance_wf i" "inst_timed i"
  shows "inst_timed (snd (instance_apply clk x i))"
  using assms by (cases "pi_state i"; cases x) (simp_all add: instance_apply_def pi_get_state_wf inst_timed_def)

lemma instance_apply_inv: "inst_inv i \<Longrightarrow> inst_inv (snd (instance_apply clk x i))"
  by (simp add: inst_inv_def instance_apply_wf instance_apply_timed inst_tracked_def instance_apply_fields)

lemma tracked_start:
  assumes "inst_tracked i"
  shows "inst_tracked (snd (start_activity clk uuid aid nm ty i))"
  using assms by (auto simp: inst_tracked_def start_activity_def Let_def dkeys_dset [simplified])

lemma dkeys_ddel: "set (dkeys (ddel k d)) = set (dkeys d) - {k}"
  by (induction d) auto

lemma tracked_complete:
  assumes "inst_tracked i"
  shows "inst_tracked (complete_activity clk aid i)"
proof (cases "dget (pi_active_activities i) aid")
  case None
  then show ?thesis using assms by (simp add: complete_activity_def)
next
  case (Some a)
  then have a: "act_activity_id a = aid" "aid \<in> set (dkeys (pi_active_activities i))"
    using assms dget_dkeys [OF Some] by (simp_all add: inst_tracked_def)
  from assms have path: "set (pi_execution_path i) =
      set (dkeys (pi_active_activities i)) \<union> act_activity_id ` set (pi_completed_activities i)"
    and fin: "\<forall>a \<in> set (pi_completed_activities i). act_end_time a \<noteq> None \<and> act_state a = ''completed''"
    and act: "\<forall>k a. dget (pi_active_activities i) k = Some a \<longrightarrow> act_activity_id a = k \<and> act_end_time a = None"
    and ok: "dict_ok (pi_active_activities i)"
    by (simp_all add: inst_tracked_def)
  let ?i = "complete_activity clk aid i"
  let ?a = "a\<lparr>act_end_time := Some (clk 0), act_state := ''completed''\<rparr>"
  have eq: "pi_active_activities ?i = ddel aid (pi_active_activities i)"
    "pi_completed_activities ?i = pi_completed_activities i @ [?a]"
    "pi_execution_path ?i = pi_execution_path i"
    using Some by (simp_all add: complete_activity_def)
  have "set (pi_execution_path ?i) = set (dkeys (pi_active_activities ?i)) \<union> act_activity_id ` set (pi_completed_activities ?i)"
    unfolding eq path dkeys_ddel using a by auto
  then show ?thesis
    unfolding inst_tracked_def using ok act fin unfolding eq by simp
qed

lemma tracked_same:
  assumes "inst_tracked i" and "dget (pi_active_activities i) aid = Some a"
    and "act_activity_id a' = act_activity_id a" and "act_end_time a' = act_end_time a"
  shows "inst_tracked (i\<lparr>pi_active_activities := dset aid a' (pi_active_activities i)\<rparr>)"
proof -
  have "aid \<in> set (dkeys (pi_active_activities i))"
    using assms(2) by (rule dget_dkeys)
  then have "set (dkeys (dset aid a' (pi_active_activities i))) = set (dkeys (pi_active_activities i))"
    by (auto simp: dkeys_dset [simplified])
  then show ?thesis using assms by (auto simp: inst_tracked_def)
qed

lemma inst_inv_activity:
  assumes "inst_inv i" and "dget (pi_active_activities i) k = Some a"
    and "act_activity_id a' = act_activity_id a" and "act_end_time a' = act_end_time a"
  shows "inst_inv (i\<lparr>pi_active_activities := dset k a' (pi_active_activities i)\<rparr>)"
  using assms(1) tracked_same [OF _ assms(2-4)] by (simp add: inst_inv_def instance_wf_def inst_timed_def)

lemma resolve_first_length: "length (snd (resolve_first now k xs)) = length xs"
  by (induction xs) (auto split: prod.splits)

lemma inst_inv_incident: "inst_inv i \<Longrightarrow> inst_inv (snd (create_incident clk uuid ty msg aid em es i))"
proof -
  assume inv: "inst_inv i"
  let ?x = "\<lparr>inc_id = uuid, inc_type = ty, inc_message = msg, inc_timestamp = clk 0,
               inc_activity_id = aid, inc_job_id = None, inc_exception_message = em,
               inc_exception_stacktrace = es, inc_resolved = False, inc_resolved_at = None\<rparr>"
  let ?i = "i\<lparr>pi_incidents := pi_incidents i @ [?x], pi_incident_count := pi_incident_count i + 1\<rparr>"
  have inv1: "inst_inv ?i" using inv by (simp add: inst_inv_def instance_wf_def inst_timed_def inst_tracked_def)
  show ?thesis
    using inv1 inst_inv_activity [OF inv1]
    by (simp add: create_incident_def Let_def split: list.splits option.splits)
qed

lemma instance_reach_inv: "instance_reach i \<Longrightarrow> inst_inv i"
proof (induction rule: instance_reach.induct)
  case (create clk iid did dkey ver bkey tenant st ty par rootid super start vars)
  then show ?case
    by (simp add: new_instance_def inst_inv_def instance_wf_def inst_timed_def inst_tracked_def)
next
  case (op i clk x)
  then show ?case by (simp add: instance_apply_inv)
next
  case (start i clk uuid aid nm ty)
  then have "inst_tracked (snd (start_activity clk uuid aid nm ty i))" by (simp add: tracked_start inst_inv_def)
  with start show ?case
    by (simp add: inst_inv_def instance_wf_def inst_timed_def start_activity_def Let_def)
next
  case (finish i clk aid)
  then have "inst_tracked (complete_activity clk aid i)" by (simp add: tracked_complete inst_inv_def)
  with finish show ?case
    by (simp add: inst_inv_def instance_wf_def inst_timed_def complete_activity_def split: option.splits)
next
  case (fail i aid)
  then show ?case
    using inst_inv_activity [of i aid] by (simp add: fail_activity_def split: option.splits)
next
  case (incident i clk uuid ty msg aid' em es)
  then show ?case by (simp add: inst_inv_incident)
next
  case (resolve i clk k)
  then show ?case
    using resolve_first_length [of "clk 0" k "pi_incidents i"]
    by (simp add: inst_inv_def instance_wf_def inst_timed_def inst_tracked_def resolve_incident_def case_prod_beta)
next
  case (set i e)
  then show ?case by (simp add: inst_inv_def instance_wf_def inst_timed_def inst_tracked_def pi_set_state_def)
next
  case (child i c)
  then show ?case
    by (simp add: inst_inv_def instance_wf_def inst_timed_def inst_tracked_def add_child_instance_def)
qed (simp_all add: inst_inv_def instance_wf_def inst_timed_def inst_tracked_def pi_set_variable_def
    pi_remove_variable_def pi_set_variables_def pi_set_metadata_def)

subsection \<open>Round trip through the record format\<close>

definition incident_times_ok :: "IncidentInfo \<Rightarrow> bool" where
  "incident_times_ok x \<longleftrightarrow> valid_datetime (inc_timestamp x) \<and> pred_option valid_datetime (inc_resolved_at x)"

definition activity_times_ok :: "ActivityInstance \<Rightarrow> bool" where
  "activity_times_ok a \<longleftrightarrow> valid_datetime (act_start_time a) \<and> pred_option valid_datetime (act_end_time a)"

definition instance_times_ok :: "ProcessInstance \<Rightarrow> bool" where
  "instance_times_ok i \<longleftrightarrow> valid_datetime (pi_start_time i) \<and> pred_option valid_datetime (pi_end_time i) \<and>
     list_all incident_times_ok (pi_incidents i) \<and> list_all activity_times_ok (dvals (pi_active_activities i)) \<and>
     list_all activity_times_ok (pi_completed_activities i)"

lemma incident_roundtrip: "incident_times_ok x \<Longrightarrow> incident_from_dict clk (incident_to_dict x) = Inr x"
  by (cases x) (simp add: incident_from_dict_def incident_to_dict_def incident_times_ok_def payload_simps)

lemma activity_roundtrip: "activity_times_ok a \<Longrightarrow> activity_from_dict clk (activity_to_dict a) = Inr a"
  by (cases a) (simp add: activity_from_dict_def activity_to_dict_def activity_times_ok_def payload_simps)

lemma parse_dicts_roundtrip:
  assumes "\<And>clk x. ok x \<Longrightarrow> parse clk (unparse x) = Inr x" and "list_all ok xs"
  shows "parse_dicts parse clk (map (PDict \<circ> unparse) xs) = Inr xs"
  using assms by (induction xs arbitrary: clk) simp_all

lemma parse_dict_values_roundtrip:
  assumes "\<And>clk x. ok x \<Longrightarrow> parse clk (unparse x) = Inr x" and "list_all ok (dvals d)"
  shows "parse_dict_values parse clk (map (\<lambda>(k, x). (k, PDict (unparse x))) d) = Inr d"
  using assms by (induction d arbitrary: clk) auto

lemma por_PList [simp]: "por (PList xs) (PList []) = PList xs"
  and por_PDict [simp]: "por (PDict d) (PDict []) = PDict d"
  and por_same [simp]: "por v v = v"
  by (simp_all add: por_def)

text \<open>The record in plain form: what is left of the dictionary, then the two entries added to it.\<close>

lemma instance_to_record_eq:
  "instance_to_record i =
     [(''id'', PStr (pi_id i)),
      (''definition_id'', PStr (pi_definition_id i)),
      (''definition_key'', PStr (pi_definition_key i)),
      (''definition_version'', PInt (pi_definition_version i)),
      (''business_key'', opt_str (pi_business_key i)),
      (''tenant_id'', opt_str (pi_tenant_id i)),
      (''state'', PStr (instance_state_value (pi_state i))),
      (''instance_type'', PStr (instance_type_value (pi_instance_type i))),
      (''parent_id'', opt_str (pi_parent_id i)),
      (''root_instance_id'', PStr (pi_root_instance_id i)),
      (''super_instance_id'', opt_str (pi_super_instance_id i)),
      (''start_time'', PStr (isoformat (pi_start_time i))),
      (''end_time'', opt_iso (pi_end_time i)),
      (''duration_ms'', opt_int (pi_duration_ms i)),
      (''variables'', PDict (pi_variables i)),
      (''active_activities'', PInt (int (length (pi_active_activities i)))),
      (''completed_activities'', PInt (int (length (pi_completed_activities i)))),
      (''incident_count'', PInt (pi_incident_count i)),
      (''child_instances'', str_list (pi_child_instances i)),
      (''metadata'', PDict (pi_metadata i)),
      (''instance_id'', PStr (pi_id i)),
      (''payload'', PDict
        [(''variables'', PDict (pi_variables i)),
         (''active_activity_instances'', active_instances_value i),
         (''completed_activity_instances'', completed_instances_value i),
         (''incidents'', incidents_value i),
         (''metadata'', PDict (pi_metadata i)),
         (''execution_path'', str_list (pi_execution_path i)),
         (''current_activity_id'', opt_str (pi_current_activity_id i)),
         (''delete_reason'', opt_str (pi_delete_reason i)),
         (''child_instances'', str_list (pi_child_instances i))])]"
  by (simp add: instance_to_record_def instance_to_dict_def pget_simps Let_def)

lemma instance_record_roundtrip_ext:
  assumes "instance_times_ok i" and "pi_root_instance_id i \<noteq> []"
    and "pi_incident_count i = int (length (pi_incidents i))"
  shows "instance_from_record clk (instance_to_record i @ ext) = Inr (i\<lparr>pi_state_obj := None\<rparr>)"
proof -
  have incs: "bindr (py_list (por (incidents_value i) (PList []))) (parse_dicts incident_from_dict c) =
      Inr (pi_incidents i)" for c
    using assms(1) parse_dicts_roundtrip [of incident_times_ok incident_from_dict incident_to_dict, OF incident_roundtrip]
    by (simp add: incidents_value_def instance_times_ok_def)
  have fin: "bindr (py_list (por (completed_instances_value i) (PList []))) (parse_dicts activity_from_dict c) =
      Inr (pi_completed_activities i)" for c
    using assms(1) parse_dicts_roundtrip [of activity_times_ok activity_from_dict activity_to_dict, OF activity_roundtrip]
    by (simp add: completed_instances_value_def instance_times_ok_def)
  have act: "(case por (active_instances_value i) (PDict []) of
              PDict d \<Rightarrow> parse_dict_values activity_from_dict c d | _ \<Rightarrow> Inr []) = Inr (pi_active_activities i)" for c
    using assms(1) parse_dict_values_roundtrip [of activity_times_ok activity_from_dict activity_to_dict, OF activity_roundtrip]
    by (simp add: active_instances_value_def instance_times_ok_def)
  have rt: "optional_str (PStr (pi_root_instance_id i)) = Inr (Some (pi_root_instance_id i))"
    by (simp add: optional_str_def)
  have idp: "py_str (por (PStr (pi_id i)) (PStr (pi_id i))) = Inr (pi_id i)" by simp
  have times: "valid_datetime (pi_start_time i)" "pred_option valid_datetime (pi_end_time i)"
    using assms(1) by (simp_all add: instance_times_ok_def)
  show ?thesis
    unfolding instance_from_record_def instance_to_record_eq
    using assms(2,3)
    by (cases "pi_duration_ms i")
       (simp_all add: payload_simps as_dict_def incs fin act rt idp times opt_int_def new_instance_def
          nonempty_opt_def del: por_PList por_PDict)
qed

subsection \<open>The manager's indexes\<close>

abbreviation business_keys :: "ProcessInstance \<Rightarrow> string list" where
  "business_keys i \<equiv> nonempty_opt (pi_business_key i)"

abbreviation definition_keys :: "ProcessInstance \<Rightarrow> string list" where
  "definition_keys i \<equiv> [pi_definition_key i]"

interpretation by_definition:
  indexed_store im_instances im_definition_index definition_keys file_instance "\<lambda>i m. snd (remove_instance i m)"
  by unfold_locales (auto simp: fun_eq_iff file_instance_def remove_instance_def split: option.splits)

interpretation by_business_key:
  indexed_store im_instances im_business_key_index business_keys file_instance "\<lambda>i m. snd (remove_instance i m)"
proof
  fix i k and ob :: ProcessInstance and s :: InstanceManager
  show "idx_get (im_business_key_index (file_instance i ob s)) k =
    (if k \<in> set (business_keys ob) then sadd i (idx_get (im_business_key_index s) k)
     else idx_get (im_business_key_index s) k)"
    using nonempty_opt_cases [of "pi_business_key ob"] by (auto simp: file_instance_def)
next
  fix i k and ob :: ProcessInstance and s :: InstanceManager
  assume "dget (im_instances s) i = Some ob"
  then show "idx_get (im_business_key_index (snd (remove_instance i s))) k =
    (if k \<in> set (business_keys ob) then sdiscard i (idx_get (im_business_key_index s) k)
     else idx_get (im_business_key_index s) k)"
    using nonempty_opt_cases [of "pi_business_key ob"] by (auto simp: remove_instance_def)
qed (auto simp: fun_eq_iff file_instance_def remove_instance_def split: option.splits)

definition im_inv :: "InstanceManager \<Rightarrow> bool" where
  "im_inv m \<longleftrightarrow> dict_ok (im_instances m) \<and>
     (\<forall>iid i. dget (im_instances m) iid = Some i \<longrightarrow> pi_id i = iid) \<and>
     index_consistent business_keys (im_instances m) (im_business_key_index m) \<and>
     index_consistent definition_keys (im_instances m) (im_definition_index m)"

text \<open>A method call on a stored instance; \<open>f\<close> keeps the identity and the two index keys.\<close>

definition update_instance :: "string \<Rightarrow> (ProcessInstance \<Rightarrow> ProcessInstance) \<Rightarrow> InstanceManager \<Rightarrow> InstanceManager" where
  "update_instance iid f m =
     (case dget (im_instances m) iid of
        None \<Rightarrow> m
      | Some i \<Rightarrow> m\<lparr>im_instances := dset iid (f i) (im_instances m)\<rparr>)"

lemma im_dict_ok:
  "dict_ok (im_instances m) \<Longrightarrow> dict_ok (im_instances (add_instance i m))"
  "dict_ok (im_instances m) \<Longrightarrow> dict_ok (im_instances (snd (remove_instance iid m)))"
  "dict_ok (im_instances m) \<Longrightarrow> dict_ok (im_instances (update_instance iid f m))"
  by (simp_all add: add_instance_def file_instance_def remove_instance_def update_instance_def split: option.splits)

lemma im_inv_init: "im_inv instance_manager_init"
  by (simp add: im_inv_def instance_manager_init_def)

lemma im_inv_add:
  assumes inv: "im_inv m" and fresh: "case dget (im_instances m) (pi_id i) of None \<Rightarrow> True
      | Some i0 \<Rightarrow> pi_business_key i0 = pi_business_key i \<and> pi_definition_key i0 = pi_definition_key i"
  shows "im_inv (add_instance i m)"
proof -
  have "index_consistent business_keys (im_instances (add_instance i m)) (im_business_key_index (add_instance i m))"
    using assms by_business_key.put_consistent [of m "pi_id i" i]
      by_business_key.put_same_keys_consistent [of m "pi_id i" _ i]
    by (auto simp: im_inv_def add_instance_def split: option.splits)
  moreover have "index_consistent definition_keys (im_instances (add_instance i m)) (im_definition_index (add_instance i m))"
    using assms by_definition.put_consistent [of m "pi_id i" i]
      by_definition.put_same_keys_consistent [of m "pi_id i" _ i]
    by (auto simp: im_inv_def add_instance_def split: option.splits)
  moreover have "\<forall>k j. dget (im_instances (add_instance i m)) k = Some j \<longrightarrow> pi_id j = k"
    using inv by (auto simp: im_inv_def add_instance_def by_definition.objs_put)
  moreover have "dict_ok (im_instances (add_instance i m))" using inv by (simp add: im_inv_def im_dict_ok)
  ultimately show ?thesis by (simp add: im_inv_def)
qed

lemma im_inv_remove: "im_inv m \<Longrightarrow> im_inv (snd (remove_instance iid m))"
  by (auto simp: im_inv_def im_dict_ok by_definition.drop_consistent by_business_key.drop_consistent
      by_definition.objs_drop split: if_splits)

lemma im_inv_update:
  assumes "im_inv m" and "\<And>i. pi_id (f i) = pi_id i" "\<And>i. pi_business_key (f i) = pi_business_key i"
    "\<And>i. pi_definition_key (f i) = pi_definition_key i"
  shows "im_inv (update_instance iid f m)"
proof (cases "dget (im_instances m) iid")
  case None
  then show ?thesis using assms(1) by (simp add: update_instance_def)
next
  case (Some i)
  then have eq: "update_instance iid f m = m\<lparr>im_instances := dset iid (f i) (im_instances m)\<rparr>"
    by (simp add: update_instance_def)
  have "index_consistent business_keys (dset iid (f i) (im_instances m)) (im_business_key_index m)"
    "index_consistent definition_keys (dset iid (f i) (im_instances m)) (im_definition_index m)"
    using assms Some by (auto simp: im_inv_def intro!: index_consistent_update)
  then show ?thesis
    using assms Some unfolding eq by (simp add: im_inv_def)
qed

inductive im_reach :: "InstanceManager \<Rightarrow> bool" where
  init: "im_reach instance_manager_init"
| add: "im_reach m \<Longrightarrow> dget (im_instances m) (pi_id i) = None \<Longrightarrow> im_reach (add_instance i m)"
| reload: "im_reach m \<Longrightarrow> dget (im_instances m) (pi_id i) = Some i0 \<Longrightarrow>
    pi_business_key i0 = pi_business_key i \<Longrightarrow> pi_definition_key i0 = pi_definition_key i \<Longrightarrow>
    im_reach (add_instance i m)"
| remove: "im_reach m \<Longrightarrow> im_reach (snd (remove_instance iid m))"
| call: "im_reach m \<Longrightarrow> im_reach (update_instance iid (\<lambda>i. snd (instance_apply clk x i)) m)"

lemma im_reach_inv: "im_reach m \<Longrightarrow> im_inv m"
proof (induction rule: im_reach.induct)
  case (call m iid clk x)
  then show ?case by (intro im_inv_update) (simp_all add: instance_apply_fields)
qed (simp_all add: im_inv_init im_inv_add im_inv_remove)

subsection \<open>Properties\<close>

text \<open>
  C3: Whatever sequence of \<open>suspend\<close>, \<open>resume\<close>, \<open>complete\<close>, \<open>terminate\<close> and \<open>fail\<close> calls a process
  instance receives, exceptions survived, its state is the one the abstract lifecycle computes,
  and the next call raises exactly where the lifecycle has no transition.
\<close>

theorem instance_run_refines:
  assumes "instance_reach i"
  shows "pi_state (run_ops (\<lambda>(clk, x). instance_apply clk x) xs i) = spec_run instance_spec (map snd xs) (pi_state i) \<and>
    (fst (instance_apply clk x (run_ops (\<lambda>(clk, x). instance_apply clk x) xs i)) = None \<longleftrightarrow>
      instance_spec (spec_run instance_spec (map snd xs) (pi_state i)) x \<noteq> None)"
proof -
  have wf: "instance_wf i" using instance_reach_inv [OF assms] by (simp add: inst_inv_def)
  show ?thesis
    using instance_life.run_refines [OF wf, of xs] instance_life.run_raises [OF wf, of "(clk, x)" xs] by simp
qed

definition demo_instance :: "InstanceState \<Rightarrow> ProcessInstance" where
  "demo_instance st = new_instance (\<lambda>_. 0) ''i'' ''d:1'' ''d'' 1 (Some ''order-7'') None st ROOT None None None None None"

theorem instance_run_refines_witness:
  "pi_state (run_ops (\<lambda>(clk, x). instance_apply clk x)
     [(\<lambda>_. 1, Suspend), (\<lambda>_. 2, Complete), (\<lambda>_. 3, Fail ''e''), (\<lambda>_. 4, Terminate ''x'')] (demo_instance ACTIVE)) = TERMINATED"
proof -
  have "instance_reach (demo_instance ACTIVE)" unfolding demo_instance_def by (rule instance_reach.create)
  from instance_run_refines [OF this, of "[(\<lambda>_. 1, Suspend), (\<lambda>_. 2, Complete), (\<lambda>_. 3, Fail ''e''), (\<lambda>_. 4, Terminate ''x'')]"]
  show ?thesis by (simp add: demo_instance_def new_instance_def spec_run_def spec_step_def)
qed

text \<open>
  A completed, terminated or closed instance stays so under every further sequence of
  lifecycle calls, and every such call raises.
\<close>

theorem instance_final_absorbing:
  assumes "instance_reach i" and "pi_state i \<in> {COMPLETED, TERMINATED, CLOSED}"
  shows "pi_state (run_ops (\<lambda>(clk, x). instance_apply clk x) xs i) = pi_state i \<and>
    (\<exists>msg. fst (instance_apply clk x (run_ops (\<lambda>(clk, x). instance_apply clk x) xs i)) = Some (RuntimeError msg))"
proof -
  let ?r = "run_ops (\<lambda>(clk, x). instance_apply clk x) xs i"
  have wf: "instance_wf i" using instance_reach_inv [OF assms(1)] by (simp add: inst_inv_def)
  have st: "pi_state ?r = pi_state i"
    using assms(2) by (intro instance_life.run_final [OF wf]) (simp add: instance_spec_final)
  have "instance_spec (pi_state ?r) x = None" using st assms(2) by (cases x) auto
  then show ?thesis
    using instance_apply_status [OF instance_life.run_wf [OF wf, of xs], of clk x] st by simp
qed

theorem instance_final_absorbing_witness:
  "pi_state (run_ops (\<lambda>(clk, x). instance_apply clk x) [(\<lambda>_. 1, Resume), (\<lambda>_. 2, Fail ''e'')] (demo_instance CLOSED)) = CLOSED"
proof -
  have "instance_reach (demo_instance CLOSED)" unfolding demo_instance_def by (rule instance_reach.create)
  moreover have "pi_state (demo_instance CLOSED) = CLOSED" by (simp add: demo_instance_def new_instance_def)
  ultimately show ?thesis
    using instance_final_absorbing [of "demo_instance CLOSED" "[(\<lambda>_. 1, Resume), (\<lambda>_. 2, Fail ''e'')]"] by simp
qed

text \<open>
  In every instance the class can produce, the duration is that of the end time, the
  incident count is the number of incidents, every active activity is filed under its own id and
  has not ended, every completed one has, and the activities on the execution path are exactly
  the active and the completed ones.
\<close>

theorem instance_bookkeeping:
  assumes "instance_reach i"
  shows "pi_duration_ms i = map_option (\<lambda>e. total_ms (e - pi_start_time i)) (pi_end_time i) \<and>
    pi_incident_count i = int (length (pi_incidents i)) \<and>
    (\<forall>k a. dget (pi_active_activities i) k = Some a \<longrightarrow> act_activity_id a = k \<and> act_end_time a = None) \<and>
    (\<forall>a \<in> set (pi_completed_activities i). act_end_time a \<noteq> None) \<and>
    set (pi_execution_path i) =
      set (dkeys (pi_active_activities i)) \<union> act_activity_id ` set (pi_completed_activities i)"
  using instance_reach_inv [OF assms] by (simp add: inst_inv_def inst_timed_def inst_tracked_def)

theorem instance_bookkeeping_witness:
  "pi_incident_count (snd (create_incident (\<lambda>_. 2) ''u'' ''failed_job'' ''m'' (Some ''a'') None None
     (snd (start_activity (\<lambda>_. 1) ''v'' ''a'' ''A'' ''task'' (demo_instance ACTIVE))))) = 1"
proof -
  let ?i = "snd (create_incident (\<lambda>_. 2) ''u'' ''failed_job'' ''m'' (Some ''a'') None None
     (snd (start_activity (\<lambda>_. 1) ''v'' ''a'' ''A'' ''task'' (demo_instance ACTIVE))))"
  have "instance_reach ?i"
    unfolding demo_instance_def
    by (rule instance_reach.incident [OF instance_reach.start [OF instance_reach.create]])
  from instance_bookkeeping [OF this] show ?thesis
    by (simp add: create_incident_def start_activity_def demo_instance_def new_instance_def nonempty_opt_def Let_def)
qed

text \<open>
  Completing an instance that is compensating or migrating leaves its end time and duration
  as they were, that is unset for one that never ended, while completing an active instance
  sets both.
\<close>

theorem completion_time_depends_on_state:
  assumes "instance_reach i" and "instance_spec (pi_state i) Complete = Some COMPLETED"
  shows "let i' = snd (instance_apply clk Complete i)
         in pi_state i' = COMPLETED \<and>
            pi_end_time i' = (if pi_state i = ACTIVE then Some (clk 0) else pi_end_time i) \<and>
            pi_duration_ms i' = (if pi_state i = ACTIVE then Some (total_ms (clk 0 - pi_start_time i)) else pi_duration_ms i)"
proof -
  have wf: "instance_wf i" using instance_reach_inv [OF assms(1)] by (simp add: inst_inv_def)
  show ?thesis
    using assms(2) by (cases "pi_state i") (simp_all add: Let_def instance_apply_def pi_get_state_wf [OF wf])
qed

theorem completion_time_depends_on_state_witness:
  "pi_end_time (snd (instance_apply (\<lambda>_. 9) Complete (demo_instance MIGRATING))) = None"
proof -
  have "instance_reach (demo_instance MIGRATING)" unfolding demo_instance_def by (rule instance_reach.create)
  moreover have "pi_state (demo_instance MIGRATING) = MIGRATING" "pi_end_time (demo_instance MIGRATING) = None"
    by (simp_all add: demo_instance_def new_instance_def)
  ultimately show ?thesis
    using completion_time_depends_on_state [of "demo_instance MIGRATING" "\<lambda>_. 9"] by (simp add: Let_def)
qed

text \<open>
  After any sequence of additions under fresh ids, reloads that keep the keys, removals and
  lifecycle calls, the look-ups by business key and by definition return exactly the stored
  instances with that key.
\<close>

theorem instance_lookup_exact:
  assumes "im_reach m"
  shows "(i \<in> set (find_by_business_key b m) \<longleftrightarrow>
      get_instance (pi_id i) m = Some i \<and> pi_business_key i = Some b \<and> b \<noteq> []) \<and>
    (i \<in> set (find_by_definition d m) \<longleftrightarrow>
      get_instance (pi_id i) m = Some i \<and> pi_definition_key i = d)"
proof -
  note inv = im_reach_inv [OF assms]
  have bk: "b \<in> set (business_keys i) \<longleftrightarrow> pi_business_key i = Some b \<and> b \<noteq> []"
    by (rule nonempty_opt_mem)
  have id: "pi_id i = k" if "dget (im_instances m) k = Some i" for k
    using inv that by (simp add: im_inv_def)
  have "(i \<in> set (find_by_business_key b m)) = (\<exists>k. dget (im_instances m) k = Some i \<and> b \<in> set (business_keys i))"
    unfolding find_by_business_key_def using inv by (intro by_business_key.find_exact) (simp add: im_inv_def)
  then have B: "(i \<in> set (find_by_business_key b m)) =
      (get_instance (pi_id i) m = Some i \<and> pi_business_key i = Some b \<and> b \<noteq> [])"
    unfolding bk get_instance_def using id by blast
  have "(i \<in> set (find_by_definition d m)) = (\<exists>k. dget (im_instances m) k = Some i \<and> d \<in> set (definition_keys i))"
    unfolding find_by_definition_def using inv by (intro by_definition.find_exact) (simp add: im_inv_def)
  then have D: "(i \<in> set (find_by_definition d m)) = (get_instance (pi_id i) m = Some i \<and> pi_definition_key i = d)"
    unfolding get_instance_def using id by (simp only: list.set Un_empty_right insert_iff empty_iff) blast
  from B D show ?thesis by blast
qed

theorem instance_lookup_exact_witness:
  "demo_instance ACTIVE \<in> set (find_by_business_key ''order-7'' (add_instance (demo_instance ACTIVE) instance_manager_init))"
proof -
  have "im_reach (add_instance (demo_instance ACTIVE) instance_manager_init)"
    by (rule im_reach.add [OF im_reach.init]) (simp add: instance_manager_init_def)
  from instance_lookup_exact [OF this, of "demo_instance ACTIVE" "''order-7''"] show ?thesis
    by (simp add: get_instance_def add_instance_def by_definition.objs_put) (simp add: demo_instance_def new_instance_def)
qed

text \<open>
  An instance persisted into a repository is loaded as the instance it was, activities and
  incidents included, up to the cached state object.
\<close>

theorem instance_persist_load:
  assumes "instance_reach i" and "instance_times_ok i" and "pi_root_instance_id i \<noteq> []"
    and "get_instance (pi_id i) m = Some i"
  shows "load_instance get_persisted clk (snd (persist_instance (save_persisted now uid rt) (pi_id i) m (Some r))) (pi_id i) m' =
    (Inr (Some (i\<lparr>pi_state_obj := None\<rparr>)), add_instance (i\<lparr>pi_state_obj := None\<rparr>) m')"
proof -
  have "pi_incident_count i = int (length (pi_incidents i))"
    using instance_reach_inv [OF assms(1)] by (simp add: inst_inv_def)
  note parse = instance_record_roundtrip_ext [OF assms(2,3) this, of clk]
  have "map_option (instance_from_record clk)
        (get_persisted (pi_id i) (snd (save_persisted now uid rt (pi_id i) (instance_to_record i) r))) =
      Some (Inr (i\<lparr>pi_state_obj := None\<rparr>))"
    using parse by (rule persistent_repo.read_back)
  then show ?thesis
    using assms(4) by (auto simp: persist_instance_def load_instance_def case_prod_beta split: option.splits)
qed

theorem instance_persist_load_witness:
  "fst (load_instance get_persisted (\<lambda>_. 9) (snd (persist_instance (save_persisted 0 ''u'' ''instance'') ''i''
      (add_instance (demo_instance DRAFT) instance_manager_init) (Some []))) ''i'' instance_manager_init) =
     Inr (Some (demo_instance DRAFT))"
proof -
  have r: "instance_reach (demo_instance DRAFT)" unfolding demo_instance_def by (rule instance_reach.create)
  have t: "instance_times_ok (demo_instance DRAFT)"
    by (simp add: instance_times_ok_def demo_instance_def new_instance_def valid_datetime_def max_datetime_def
        days_before_year_def us_per_day_def)
  have k: "pi_id (demo_instance DRAFT) = ''i''" "pi_root_instance_id (demo_instance DRAFT) \<noteq> []"
    "(demo_instance DRAFT)\<lparr>pi_state_obj := None\<rparr> = demo_instance DRAFT"
    by (simp_all add: demo_instance_def new_instance_def nonempty_opt_def)
  have g: "get_instance (pi_id (demo_instance DRAFT)) (add_instance (demo_instance DRAFT) instance_manager_init) =
      Some (demo_instance DRAFT)"
    by (simp add: get_instance_def add_instance_def by_definition.objs_put)
  from instance_persist_load [OF r t k(2) g] show ?thesis unfolding k by simp
qed

end
