(* ===== verification/Transactions.thy ===== *)
theory Transactions
  imports PyVal
begin

section \<open>Transactions\<close>

text \<open>
  \<open>core/transaction.py\<close> (\<open>TransactionScope\<close>, \<open>TransactionManager\<close>) and \<open>core/transaction_states.py\<close>
  (the eight state objects).  The handlers of participants and of compensation actions are the
  caller's code: a run is parameterised by \<open>env\<close>, which maps the calls made so far and the
  call at hand to the exception text it raises or the truth value it returns.  The handlers
  receive the scope but are taken not to change it.  \<open>tx_calls\<close> is the trace of handler calls,
  which the code does not keep.  The clock is read once per log entry (reading \<open>2 * j\<close> for
  entry \<open>j\<close>) and at the end of a commit or rollback (reading \<open>2 * j + 1\<close> before entry \<open>j\<close>).
\<close>

datatype TransactionState =
    ACTIVE | PREPARING | PREPARED | COMMITTING | COMMITTED | ROLLING_BACK | ROLLED_BACK | FAILED

datatype IsolationLevel = READ_UNCOMMITTED | READ_COMMITTED | REPEATABLE_READ | SERIALIZABLE

datatype lifecycle_state =
    ActiveState | PreparingState | PreparedState | CommittingState | CommittedState
  | RollingBackState | RolledBackState | FailedState

fun lifecycle_name :: "lifecycle_state \<Rightarrow> string" where
  "lifecycle_name ActiveState = ''active''"
| "lifecycle_name PreparingState = ''preparing''"
| "lifecycle_name PreparedState = ''prepared''"
| "lifecycle_name CommittingState = ''committing''"
| "lifecycle_name CommittedState = ''committed''"
| "lifecycle_name RollingBackState = ''rolling_back''"
| "lifecycle_name RolledBackState = ''rolled_back''"
| "lifecycle_name FailedState = ''failed''"

fun tx_state_value :: "TransactionState \<Rightarrow> string" where
  "tx_state_value ACTIVE = ''active''"
| "tx_state_value PREPARING = ''preparing''"
| "tx_state_value PREPARED = ''prepared''"
| "tx_state_value COMMITTING = ''committing''"
| "tx_state_value COMMITTED = ''committed''"
| "tx_state_value ROLLING_BACK = ''rolling_back''"
| "tx_state_value ROLLED_BACK = ''rolled_back''"
| "tx_state_value FAILED = ''failed''"

fun isolation_value :: "IsolationLevel \<Rightarrow> string" where
  "isolation_value READ_UNCOMMITTED = ''read_uncommitted''"
| "isolation_value READ_COMMITTED = ''read_committed''"
| "isolation_value REPEATABLE_READ = ''repeatable_read''"
| "isolation_value SERIALIZABLE = ''serializable''"

record TransactionParticipant =
  tp_participant_id :: string
  tp_name :: string
  tp_has_prepare :: bool
  tp_has_commit :: bool
  tp_has_rollback :: bool
  tp_is_prepared :: bool
  tp_metadata :: pydict

record CompensationAction =
  ca_action_id :: string
  ca_name :: string
  ca_order :: int
  ca_executed :: bool
  ca_metadata :: pydict

datatype handler_call = PrepareCall string | CommitCall string | RollbackCall string | CompensateCall nat

type_synonym handlers = "handler_call list \<Rightarrow> handler_call \<Rightarrow> string + bool"

record log_entry =
  le_timestamp :: string
  le_event :: string
  le_data :: pydict

record TransactionScope =
  tx_transaction_id :: string
  tx_isolation_level :: IsolationLevel
  tx_parent :: "nat option"
  tx_lifecycle_state :: lifecycle_state
  tx_start_time :: datetime
  tx_end_time :: "datetime option"
  tx_participants :: "(string, TransactionParticipant) dict"
  tx_compensation_actions :: "CompensationAction list"
  tx_log :: "log_entry list"
  tx_metadata :: pydict
  tx_savepoints :: "(string, nat) dict"
  tx_calls :: "handler_call list"

definition new_tx :: "datetime \<Rightarrow> string \<Rightarrow> IsolationLevel \<Rightarrow> nat option \<Rightarrow> TransactionScope" where
  "new_tx now tid lvl par =
     \<lparr>tx_transaction_id = tid, tx_isolation_level = lvl, tx_parent = par,
      tx_lifecycle_state = ActiveState, tx_start_time = now, tx_end_time = None,
      tx_participants = [], tx_compensation_actions = [], tx_log = [], tx_metadata = [],
      tx_savepoints = [], tx_calls = []\<rparr>"

definition tx_states :: "TransactionState list" where
  "tx_states = [ACTIVE, PREPARING, PREPARED, COMMITTING, COMMITTED, ROLLING_BACK, ROLLED_BACK, FAILED]"

definition tx_state :: "TransactionScope \<Rightarrow> TransactionState" where
  "tx_state t =
     (case List.find (\<lambda>s. tx_state_value s = lifecycle_name (tx_lifecycle_state t)) tx_states of
        Some s \<Rightarrow> s | None \<Rightarrow> FAILED)"

definition tx_log_event :: "clock \<Rightarrow> string \<Rightarrow> pydict \<Rightarrow> TransactionScope \<Rightarrow> TransactionScope" where
  "tx_log_event clk ev data t =
     t\<lparr>tx_log := tx_log t @
         [\<lparr>le_timestamp = isoformat (clk (2 * length (tx_log t))), le_event = ev, le_data = data\<rparr>]\<rparr>"

definition end_now :: "clock \<Rightarrow> TransactionScope \<Rightarrow> TransactionScope" where
  "end_now clk t = t\<lparr>tx_end_time := Some (clk (2 * length (tx_log t) + 1))\<rparr>"

definition add_participant ::
  "clock \<Rightarrow> string \<Rightarrow> string \<Rightarrow> bool \<Rightarrow> bool \<Rightarrow> bool \<Rightarrow> string option \<Rightarrow> TransactionScope
    \<Rightarrow> string \<times> TransactionScope" where
  "add_participant clk uuid name pre com rol pid_opt t =
     (let pid = (case pid_opt of None \<Rightarrow> uuid | Some p \<Rightarrow> p);
          p = \<lparr>tp_participant_id = pid, tp_name = name, tp_has_prepare = pre, tp_has_commit = com,
               tp_has_rollback = rol, tp_is_prepared = False, tp_metadata = []\<rparr>
      in (pid, tx_log_event clk ''participant_added'' [(''participant_id'', PStr pid), (''name'', PStr name)]
           (t\<lparr>tx_participants := dset pid p (tx_participants t)\<rparr>)))"

definition add_compensation ::
  "clock \<Rightarrow> string \<Rightarrow> string \<Rightarrow> int \<Rightarrow> string option \<Rightarrow> TransactionScope \<Rightarrow> string \<times> TransactionScope" where
  "add_compensation clk uuid name order aid_opt t =
     (let aid = (case aid_opt of None \<Rightarrow> uuid | Some a \<Rightarrow> a);
          a = \<lparr>ca_action_id = aid, ca_name = name, ca_order = order, ca_executed = False, ca_metadata = []\<rparr>
      in (aid, tx_log_event clk ''compensation_added'' [(''action_id'', PStr aid), (''name'', PStr name)]
           (t\<lparr>tx_compensation_actions := tx_compensation_actions t @ [a]\<rparr>)))"

subsection \<open>The work of each phase\<close>

text \<open>A handler call: its outcome, and the call recorded.\<close>

definition call_handler :: "handlers \<Rightarrow> handler_call \<Rightarrow> TransactionScope \<Rightarrow> (string + bool) \<times> TransactionScope" where
  "call_handler env c t = (env (tx_calls t) c, t\<lparr>tx_calls := tx_calls t @ [c]\<rparr>)"

definition mark_prepared :: "string \<Rightarrow> TransactionParticipant \<Rightarrow> TransactionScope \<Rightarrow> TransactionScope" where
  "mark_prepared pid p t = t\<lparr>tx_participants := dset pid (p\<lparr>tp_is_prepared := True\<rparr>) (tx_participants t)\<rparr>"

text \<open>The loop of \<open>_do_prepare\<close>; an exception is returned to the enclosing \<open>try\<close>.\<close>

fun prepare_loop ::
  "handlers \<Rightarrow> (string \<times> TransactionParticipant) list \<Rightarrow> TransactionScope \<Rightarrow> (string + bool) \<times> TransactionScope" where
  "prepare_loop env [] t = (Inr True, t)"
| "prepare_loop env ((pid, p) # ps) t =
     (if tp_has_prepare p
      then (case call_handler env (PrepareCall pid) t of
              (Inl e, t1) \<Rightarrow> (Inl e, t1)
            | (Inr r, t1) \<Rightarrow> if r then prepare_loop env ps (mark_prepared pid p t1) else (Inr False, t1))
      else prepare_loop env ps (mark_prepared pid p t))"

definition do_prepare :: "handlers \<Rightarrow> clock \<Rightarrow> TransactionScope \<Rightarrow> bool \<times> TransactionScope" where
  "do_prepare env clk t =
     (let t1 = tx_log_event clk ''prepare_started'' [] t
      in case prepare_loop env (tx_participants t1) t1 of
           (Inr True, t2) \<Rightarrow> (True, tx_log_event clk ''prepare_completed'' [] t2)
         | (Inr False, t2) \<Rightarrow> (False, t2)
         | (Inl e, t2) \<Rightarrow> (False, tx_log_event clk ''prepare_failed'' [(''error'', PStr e)] t2))"

fun rollback_loop :: "handlers \<Rightarrow> (string \<times> TransactionParticipant) list \<Rightarrow> TransactionScope \<Rightarrow> TransactionScope" where
  "rollback_loop env [] t = t"
| "rollback_loop env ((pid, p) # ps) t =
     (if tp_has_rollback p
      then rollback_loop env ps (snd (call_handler env (RollbackCall pid) t))
      else rollback_loop env ps t)"

text \<open>\<open>sorted(..., key=order, reverse=True)\<close> keeps the order of equal keys, as does sorting by \<open>-order\<close>.\<close>

definition sorted_actions :: "TransactionScope \<Rightarrow> nat list" where
  "sorted_actions t =
     (let acts = tx_compensation_actions t
      in sort_key (\<lambda>j. - ca_order (acts ! j)) [0..<length acts])"

fun compensation_loop :: "handlers \<Rightarrow> clock \<Rightarrow> nat list \<Rightarrow> TransactionScope \<Rightarrow> TransactionScope" where
  "compensation_loop env clk [] t = t"
| "compensation_loop env clk (j # js) t =
     (let a = tx_compensation_actions t ! j
      in if ca_executed a then compensation_loop env clk js t
         else (case call_handler env (CompensateCall j) t of
                 (Inl e, t1) \<Rightarrow> compensation_loop env clk js t1
               | (Inr r, t1) \<Rightarrow>
                   compensation_loop env clk js
                     (tx_log_event clk ''compensation_executed'' [(''action_id'', PStr (ca_action_id a))]
                       (t1\<lparr>tx_compensation_actions := (tx_compensation_actions t1)[j := a\<lparr>ca_executed := True\<rparr>]\<rparr>))))"

text \<open>Every handler is called inside its own \<open>try\<close>, so the outer \<open>except\<close> is never reached.\<close>

definition do_rollback :: "handlers \<Rightarrow> clock \<Rightarrow> TransactionScope \<Rightarrow> bool \<times> TransactionScope" where
  "do_rollback env clk t =
     (let t1 = tx_log_event clk ''rollback_started'' [] t;
          t2 = rollback_loop env (tx_participants t1) t1;
          t3 = compensation_loop env clk (sorted_actions t2) t2
      in (True, tx_log_event clk ''rollback_completed'' [] (end_now clk t3)))"

subsection \<open>The state objects\<close>

definition active_prepare :: "handlers \<Rightarrow> clock \<Rightarrow> TransactionScope \<Rightarrow> bool \<times> TransactionScope" where
  "active_prepare env clk t =
     (case do_prepare env clk (t\<lparr>tx_lifecycle_state := PreparingState\<rparr>) of
        (r, t1) \<Rightarrow> (r, t1\<lparr>tx_lifecycle_state := (if r then PreparedState else FailedState)\<rparr>))"

definition active_rollback :: "handlers \<Rightarrow> clock \<Rightarrow> TransactionScope \<Rightarrow> bool \<times> TransactionScope" where
  "active_rollback env clk t =
     (case do_rollback env clk (t\<lparr>tx_lifecycle_state := RollingBackState\<rparr>) of
        (r, t1) \<Rightarrow> (r, t1\<lparr>tx_lifecycle_state := (if r then RolledBackState else FailedState)\<rparr>))"

fun rollback_in :: "lifecycle_state \<Rightarrow> handlers \<Rightarrow> clock \<Rightarrow> TransactionScope \<Rightarrow> bool \<times> TransactionScope" where
  "rollback_in CommittedState env clk t = (False, t)"
| "rollback_in RolledBackState env clk t = (False, t)"
| "rollback_in RollingBackState env clk t = (True, t)"
| "rollback_in st env clk t = active_rollback env clk t"

definition tx_rollback :: "handlers \<Rightarrow> clock \<Rightarrow> TransactionScope \<Rightarrow> bool \<times> TransactionScope" where
  "tx_rollback env clk t = rollback_in (tx_lifecycle_state t) env clk t"

fun commit_loop ::
  "handlers \<Rightarrow> (string \<times> TransactionParticipant) list \<Rightarrow> TransactionScope \<Rightarrow> string option \<times> TransactionScope" where
  "commit_loop env [] t = (None, t)"
| "commit_loop env ((pid, p) # ps) t =
     (if tp_has_commit p
      then (case call_handler env (CommitCall pid) t of
              (Inl e, t1) \<Rightarrow> (Some e, t1)
            | (Inr r, t1) \<Rightarrow> commit_loop env ps t1)
      else commit_loop env ps t)"

definition do_commit :: "handlers \<Rightarrow> clock \<Rightarrow> TransactionScope \<Rightarrow> bool \<times> TransactionScope" where
  "do_commit env clk t =
     (let t1 = tx_log_event clk ''commit_started'' [] t
      in case commit_loop env (tx_participants t1) t1 of
           (None, t2) \<Rightarrow> (True, tx_log_event clk ''commit_completed'' [] (end_now clk t2))
         | (Some e, t2) \<Rightarrow>
             (False, snd (tx_rollback env clk (tx_log_event clk ''commit_failed'' [(''error'', PStr e)] t2))))"

definition prepared_commit :: "handlers \<Rightarrow> clock \<Rightarrow> TransactionScope \<Rightarrow> bool \<times> TransactionScope" where
  "prepared_commit env clk t =
     (case do_commit env clk (t\<lparr>tx_lifecycle_state := CommittingState\<rparr>) of
        (True, t1) \<Rightarrow> (True, t1\<lparr>tx_lifecycle_state := CommittedState\<rparr>)
      | (False, t1) \<Rightarrow> (False, snd (active_rollback env clk (t1\<lparr>tx_lifecycle_state := FailedState\<rparr>))))"

fun prepare_in ::
  "lifecycle_state \<Rightarrow> handlers \<Rightarrow> clock \<Rightarrow> TransactionScope \<Rightarrow> bool result \<times> TransactionScope" where
  "prepare_in ActiveState env clk t = apfst Inr (active_prepare env clk t)"
| "prepare_in PreparingState env clk t =
     (case do_prepare env clk t of
        (r, t1) \<Rightarrow> (Inr r, t1\<lparr>tx_lifecycle_state := (if r then PreparedState else FailedState)\<rparr>))"
| "prepare_in PreparedState env clk t = (Inr True, t)"
| "prepare_in CommittingState env clk t = (Inl (RuntimeError ''Cannot prepare while committing''), t)"
| "prepare_in CommittedState env clk t = (Inl (RuntimeError ''Cannot prepare a committed transaction''), t)"
| "prepare_in RollingBackState env clk t = (Inl (RuntimeError ''Cannot prepare while rolling back''), t)"
| "prepare_in RolledBackState env clk t = (Inl (RuntimeError ''Cannot prepare a rolled-back transaction''), t)"
| "prepare_in FailedState env clk t = apfst Inr (active_prepare env clk t)"

text \<open>
  \<open>ActiveState.commit\<close> prepares and then calls \<open>commit\<close> on the state object the preparation
  left, which is \<open>PreparedState\<close> when it succeeded (\<open>active_prepare_state\<close> below).
\<close>

fun commit_in ::
  "lifecycle_state \<Rightarrow> handlers \<Rightarrow> clock \<Rightarrow> TransactionScope \<Rightarrow> bool result \<times> TransactionScope" where
  "commit_in ActiveState env clk t =
     (case active_prepare env clk t of
        (True, t1) \<Rightarrow> apfst Inr (prepared_commit env clk t1)
      | (False, t1) \<Rightarrow> (Inr False, t1))"
| "commit_in PreparingState env clk t = (Inl (RuntimeError ''Cannot commit while preparing''), t)"
| "commit_in PreparedState env clk t = apfst Inr (prepared_commit env clk t)"
| "commit_in CommittingState env clk t = (Inr True, t)"
| "commit_in CommittedState env clk t = (Inr True, t)"
| "commit_in RollingBackState env clk t = (Inl (RuntimeError ''Cannot commit while rolling back''), t)"
| "commit_in RolledBackState env clk t = (Inl (RuntimeError ''Cannot commit a rolled-back transaction''), t)"
| "commit_in FailedState env clk t = apfst Inr (active_rollback env clk t)"

definition tx_prepare :: "handlers \<Rightarrow> clock \<Rightarrow> TransactionScope \<Rightarrow> bool result \<times> TransactionScope" where
  "tx_prepare env clk t = prepare_in (tx_lifecycle_state t) env clk t"

definition tx_commit :: "handlers \<Rightarrow> clock \<Rightarrow> TransactionScope \<Rightarrow> bool result \<times> TransactionScope" where
  "tx_commit env clk t = commit_in (tx_lifecycle_state t) env clk t"

definition tx_get_duration_ms :: "TransactionScope \<Rightarrow> int option" where
  "tx_get_duration_ms t = map_option (\<lambda>e. total_ms (e - tx_start_time t)) (tx_end_time t)"

definition tx_to_dict :: "TransactionScope \<Rightarrow> pydict" where
  "tx_to_dict t =
     [(''transaction_id'', PStr (tx_transaction_id t)),
      (''state'', PStr (tx_state_value (tx_state t))),
      (''isolation_level'', PStr (isolation_value (tx_isolation_level t))),
      (''start_time'', PStr (isoformat (tx_start_time t))),
      (''end_time'', opt_iso (tx_end_time t)),
      (''duration_ms'', opt_int (tx_get_duration_ms t)),
      (''participants'', PInt (int (length (tx_participants t)))),
      (''compensation_actions'', PInt (int (length (tx_compensation_actions t)))),
      (''savepoints'', PInt (int (length (tx_savepoints t)))),
      (''metadata'', PDict (tx_metadata t))]"

subsection \<open>Savepoints\<close>

text \<open>
  A savepoint is a scope of its own that refers to its parent; the scopes live in a heap and
  refer to one another by address.
\<close>

type_synonym tx_heap = "(nat, TransactionScope) dict"

definition create_savepoint :: "clock \<Rightarrow> datetime \<Rightarrow> nat \<Rightarrow> nat \<Rightarrow> string \<Rightarrow> tx_heap \<Rightarrow> tx_heap" where
  "create_savepoint clk now addr fresh name h =
     (case dget h addr of
        None \<Rightarrow> h
      | Some t \<Rightarrow>
          (let sp = new_tx now (tx_transaction_id t @ '':'' @ name) (tx_isolation_level t) (Some addr);
               t1 = t\<lparr>tx_savepoints := dset name fresh (tx_savepoints t)\<rparr>
           in dset addr (tx_log_event clk ''savepoint_created'' [(''name'', PStr name)] t1) (dset fresh sp h)))"

definition rollback_to_savepoint ::
  "handlers \<Rightarrow> clock \<Rightarrow> clock \<Rightarrow> nat \<Rightarrow> string \<Rightarrow> tx_heap \<Rightarrow> bool \<times> tx_heap" where
  "rollback_to_savepoint env clk clk' addr name h =
     (case dget h addr of
        None \<Rightarrow> (False, h)
      | Some t \<Rightarrow>
          (case dget (tx_savepoints t) name of
             None \<Rightarrow> (False, h)
           | Some sp \<Rightarrow>
               (case dget h sp of
                  None \<Rightarrow> (False, h)
                | Some s \<Rightarrow>
                    (case tx_rollback env clk' s of
                       (r, s') \<Rightarrow>
                         (r, dset addr (tx_log_event clk ''savepoint_rollback''
                               [(''name'', PStr name), (''success'', PBool r)] t) (dset sp s' h))))))"

subsection \<open>The transaction manager\<close>

record TransactionManager =
  txm_transactions :: "(string, TransactionScope) dict"
  txm_active_transactions :: "string list"
  txm_total_committed :: nat
  txm_total_rolled_back :: nat
  txm_total_failed :: nat

definition transaction_manager_init :: TransactionManager where
  "transaction_manager_init =
     \<lparr>txm_transactions = [], txm_active_transactions = [], txm_total_committed = 0,
      txm_total_rolled_back = 0, txm_total_failed = 0\<rparr>"

definition begin_transaction ::
  "datetime \<Rightarrow> string \<Rightarrow> IsolationLevel \<Rightarrow> string option \<Rightarrow> TransactionManager \<Rightarrow> string \<times> TransactionManager" where
  "begin_transaction now uuid lvl tid_opt m =
     (let tid = (case tid_opt of None \<Rightarrow> uuid | Some x \<Rightarrow> x)
      in (tid, m\<lparr>txm_transactions := dset tid (new_tx now tid lvl None) (txm_transactions m),
                 txm_active_transactions := sadd tid (txm_active_transactions m)\<rparr>))"

definition get_transaction :: "string \<Rightarrow> TransactionManager \<Rightarrow> TransactionScope option" where
  "get_transaction tid m = dget (txm_transactions m) tid"

definition put_tx :: "string \<Rightarrow> TransactionScope \<Rightarrow> TransactionManager \<Rightarrow> TransactionManager" where
  "put_tx tid t m = m\<lparr>txm_transactions := dset tid t (txm_transactions m)\<rparr>"

definition commit_transaction ::
  "handlers \<Rightarrow> clock \<Rightarrow> string \<Rightarrow> TransactionManager \<Rightarrow> bool result \<times> TransactionManager" where
  "commit_transaction env clk tid m =
     (case dget (txm_transactions m) tid of
        None \<Rightarrow> (Inr False, m)
      | Some t \<Rightarrow>
          (case tx_commit env clk t of
             (Inl e, t1) \<Rightarrow> (Inl e, put_tx tid t1 m)
           | (Inr True, t1) \<Rightarrow>
               (Inr True, (put_tx tid t1 m)\<lparr>txm_total_committed := txm_total_committed m + 1,
                  txm_active_transactions := sdiscard tid (txm_active_transactions m)\<rparr>)
           | (Inr False, t1) \<Rightarrow>
               (Inr False, (put_tx tid t1 m)\<lparr>txm_total_failed := txm_total_failed m + 1\<rparr>)))"

definition rollback_transaction ::
  "handlers \<Rightarrow> clock \<Rightarrow> string \<Rightarrow> TransactionManager \<Rightarrow> bool \<times> TransactionManager" where
  "rollback_transaction env clk tid m =
     (case dget (txm_transactions m) tid of
        None \<Rightarrow> (False, m)
      | Some t \<Rightarrow>
          (case tx_rollback env clk t of
             (True, t1) \<Rightarrow>
               (True, (put_tx tid t1 m)\<lparr>txm_total_rolled_back := txm_total_rolled_back m + 1,
                  txm_active_transactions := sdiscard tid (txm_active_transactions m)\<rparr>)
           | (False, t1) \<Rightarrow>
               (False, (put_tx tid t1 m)\<lparr>txm_total_failed := txm_total_failed m + 1\<rparr>)))"

text \<open>
  \<open>async with manager.transaction() as tx: body\<close>: the body works on the new scope and may raise.
\<close>

definition transaction_block ::
  "handlers \<Rightarrow> clock \<Rightarrow> datetime \<Rightarrow> string \<Rightarrow> IsolationLevel \<Rightarrow> (TransactionScope \<Rightarrow> TransactionScope outcome)
    \<Rightarrow> TransactionManager \<Rightarrow> TransactionManager outcome" where
  "transaction_block env clk now uuid lvl body m =
     (case begin_transaction now uuid lvl None m of
        (tid, m1) \<Rightarrow>
          (let leave = (\<lambda>e t. (e, (put_tx tid t m1)\<lparr>txm_active_transactions :=
                                   sdiscard tid (txm_active_transactions m1)\<rparr>))
           in case body (new_tx now tid lvl None) of
                (Some e, t1) \<Rightarrow> leave (Some e) (snd (tx_rollback env clk t1))
              | (None, t1) \<Rightarrow>
                  (case tx_commit env clk t1 of
                     (Inl e, t2) \<Rightarrow> leave (Some e) (snd (tx_rollback env clk t2))
                   | (Inr r, t2) \<Rightarrow> leave None t2)))"

definition stale_transaction :: "datetime \<Rightarrow> int \<Rightarrow> TransactionScope \<Rightarrow> bool" where
  "stale_transaction now max_age t \<longleftrightarrow>
     tx_state t \<in> {COMMITTED, ROLLED_BACK} \<and>
     (case tx_end_time t of None \<Rightarrow> False | Some e \<Rightarrow> seconds_exceed (now - e) max_age)"

definition cleanup_completed_transactions ::
  "datetime \<Rightarrow> int \<Rightarrow> TransactionManager \<Rightarrow> nat \<times> TransactionManager" where
  "cleanup_completed_transactions now max_age m =
     (let to_remove = map fst (filter (\<lambda>(tid, t). stale_transaction now max_age t) (txm_transactions m))
      in (length to_remove, m\<lparr>txm_transactions := fold ddel to_remove (txm_transactions m)\<rparr>))"

record tx_statistics =
  txs_total :: nat
  txs_active :: nat
  txs_committed :: nat
  txs_rolled_back :: nat
  txs_failed :: nat
  txs_states :: "(string, nat) dict"

definition tx_get_statistics :: "TransactionManager \<Rightarrow> tx_statistics" where
  "tx_get_statistics m =
     \<lparr>txs_total = length (txm_transactions m), txs_active = length (txm_active_transactions m),
      txs_committed = txm_total_committed m, txs_rolled_back = txm_total_rolled_back m,
      txs_failed = txm_total_failed m,
      txs_states = tally (map (tx_state_value \<circ> tx_state) (dvals (txm_transactions m)))\<rparr>"

subsection \<open>What the phases leave alone\<close>

lemma tx_log_event_frame [simp, frame_simps]:
  "tx_lifecycle_state (tx_log_event clk ev d t) = tx_lifecycle_state t"
  "tx_participants (tx_log_event clk ev d t) = tx_participants t"
  "tx_compensation_actions (tx_log_event clk ev d t) = tx_compensation_actions t"
  "tx_calls (tx_log_event clk ev d t) = tx_calls t"
  "tx_end_time (tx_log_event clk ev d t) = tx_end_time t"
  by (simp_all add: tx_log_event_def)

lemma end_now_frame [simp, frame_simps]:
  "tx_lifecycle_state (end_now clk t) = tx_lifecycle_state t"
  "tx_participants (end_now clk t) = tx_participants t"
  "tx_compensation_actions (end_now clk t) = tx_compensation_actions t"
  "tx_calls (end_now clk t) = tx_calls t"
  by (simp_all add: end_now_def)

lemma mark_prepared_frame [simp, frame_simps]:
  "tx_lifecycle_state (mark_prepared pid p t) = tx_lifecycle_state t"
  "tx_compensation_actions (mark_prepared pid p t) = tx_compensation_actions t"
  "tx_calls (mark_prepared pid p t) = tx_calls t"
  by (simp_all add: mark_prepared_def)

text \<open>
  The calls of a phase in the order it makes them, and whether each of them has an outcome the
  phase accepts, given the calls before it.
\<close>

definition prepare_calls :: "(string, TransactionParticipant) dict \<Rightarrow> handler_call list" where
  "prepare_calls ps = map (\<lambda>(pid, p). PrepareCall pid) (filter (\<lambda>(pid, p). tp_has_prepare p) ps)"

definition commit_calls :: "(string, TransactionParticipant) dict \<Rightarrow> handler_call list" where
  "commit_calls ps = map (\<lambda>(pid, p). CommitCall pid) (filter (\<lambda>(pid, p). tp_has_commit p) ps)"

definition rollback_calls :: "(string, TransactionParticipant) dict \<Rightarrow> handler_call list" where
  "rollback_calls ps = map (\<lambda>(pid, p). RollbackCall pid) (filter (\<lambda>(pid, p). tp_has_rollback p) ps)"

fun calls_ok :: "handlers \<Rightarrow> (string + bool \<Rightarrow> bool) \<Rightarrow> handler_call list \<Rightarrow> handler_call list \<Rightarrow> bool" where
  "calls_ok env ok tr [] = True"
| "calls_ok env ok tr (c # cs) = (ok (env tr c) \<and> calls_ok env ok (tr @ [c]) cs)"

definition voted_yes :: "string + bool \<Rightarrow> bool" where
  "voted_yes r \<longleftrightarrow> r = Inr True"

definition returned :: "string + bool \<Rightarrow> bool" where
  "returned r \<longleftrightarrow> (\<exists>b. r = Inr b)"

lemma outcome_simps [simp]:
  "voted_yes (Inr b) = b" "\<not> voted_yes (Inl e)" "returned (Inr b)" "\<not> returned (Inl e)"
  by (simp_all add: voted_yes_def returned_def)

lemma prepare_loop_spec:
  "\<exists>cs cs'. prepare_calls ps = cs @ cs' \<and> tx_calls (snd (prepare_loop env ps t)) = tx_calls t @ cs \<and>
     (fst (prepare_loop env ps t) = Inr True \<longleftrightarrow> calls_ok env voted_yes (tx_calls t) (prepare_calls ps)) \<and>
     (fst (prepare_loop env ps t) = Inr True \<longrightarrow> cs' = []) \<and>
     tx_lifecycle_state (snd (prepare_loop env ps t)) = tx_lifecycle_state t \<and>
     tx_compensation_actions (snd (prepare_loop env ps t)) = tx_compensation_actions t"
proof (induction ps arbitrary: t)
  case Nil
  then show ?case by (simp add: prepare_calls_def)
next
  case (Cons q ps)
  obtain pid p where q: "q = (pid, p)" by fastforce
  show ?case
  proof (cases "tp_has_prepare p")
    case False
    with Cons.IH [of "mark_prepared pid p t"] show ?thesis by (simp add: q prepare_calls_def)
  next
    case True
    let ?c = "PrepareCall pid"
    let ?t1 = "t\<lparr>tx_calls := tx_calls t @ [?c]\<rparr>"
    have pc: "prepare_calls (q # ps) = ?c # prepare_calls ps" using True by (simp add: q prepare_calls_def)
    show ?thesis
    proof (cases "env (tx_calls t) ?c = Inr True")
      case False
      then have no: "prepare_loop env (q # ps) t = (env (tx_calls t) ?c, ?t1)"
        using True by (auto simp: q call_handler_def split: sum.splits)
      show ?thesis
        unfolding pc no
        by (rule exI [where x = "[?c]"], rule exI [where x = "prepare_calls ps"])
           (simp add: False voted_yes_def [of "env (tx_calls t) ?c"])
    next
      case yes: True
      then have step: "prepare_loop env (q # ps) t = prepare_loop env ps (mark_prepared pid p ?t1)"
        using True by (simp add: q call_handler_def)
      from Cons.IH [of "mark_prepared pid p ?t1"] obtain cs cs' where
        IH: "prepare_calls ps = cs @ cs'"
          "tx_calls (snd (prepare_loop env ps (mark_prepared pid p ?t1))) = tx_calls t @ [?c] @ cs"
          "fst (prepare_loop env ps (mark_prepared pid p ?t1)) = Inr True \<longleftrightarrow>
             calls_ok env voted_yes (tx_calls t @ [?c]) (prepare_calls ps)"
          "fst (prepare_loop env ps (mark_prepared pid p ?t1)) = Inr True \<longrightarrow> cs' = []"
          "tx_lifecycle_state (snd (prepare_loop env ps (mark_prepared pid p ?t1))) = tx_lifecycle_state t"
          "tx_compensation_actions (snd (prepare_loop env ps (mark_prepared pid p ?t1))) = tx_compensation_actions t"
        by auto
      show ?thesis
        unfolding step pc
        by (rule exI [where x = "?c # cs"], rule exI [where x = cs'])
           (use IH yes in simp)
    qed
  qed
qed

lemma commit_loop_spec:
  "\<exists>cs cs'. commit_calls ps = cs @ cs' \<and> tx_calls (snd (commit_loop env ps t)) = tx_calls t @ cs \<and>
     (fst (commit_loop env ps t) = None \<longleftrightarrow> calls_ok env returned (tx_calls t) (commit_calls ps)) \<and>
     (fst (commit_loop env ps t) = None \<longrightarrow> cs' = []) \<and>
     tx_lifecycle_state (snd (commit_loop env ps t)) = tx_lifecycle_state t \<and>
     tx_participants (snd (commit_loop env ps t)) = tx_participants t \<and>
     tx_compensation_actions (snd (commit_loop env ps t)) = tx_compensation_actions t"
proof (induction ps arbitrary: t)
  case Nil
  then show ?case by (simp add: commit_calls_def)
next
  case (Cons q ps)
  obtain pid p where q: "q = (pid, p)" by fastforce
  show ?case
  proof (cases "tp_has_commit p")
    case False
    with Cons.IH [of t] show ?thesis by (simp add: q commit_calls_def)
  next
    case True
    let ?c = "CommitCall pid"
    let ?t1 = "t\<lparr>tx_calls := tx_calls t @ [?c]\<rparr>"
    have pc: "commit_calls (q # ps) = ?c # commit_calls ps" using True by (simp add: q commit_calls_def)
    show ?thesis
    proof (cases "env (tx_calls t) ?c")
      case (Inl e)
      then have no: "commit_loop env (q # ps) t = (Some e, ?t1)"
        using True by (simp add: q call_handler_def)
      show ?thesis
        unfolding pc no
        by (rule exI [where x = "[?c]"], rule exI [where x = "commit_calls ps"]) (simp add: Inl)
    next
      case (Inr b)
      then have step: "commit_loop env (q # ps) t = commit_loop env ps ?t1"
        using True by (simp add: q call_handler_def)
      from Cons.IH [of ?t1] obtain cs cs' where
        IH: "commit_calls ps = cs @ cs'" "tx_calls (snd (commit_loop env ps ?t1)) = tx_calls t @ [?c] @ cs"
          "fst (commit_loop env ps ?t1) = None \<longleftrightarrow> calls_ok env returned (tx_calls t @ [?c]) (commit_calls ps)"
          "fst (commit_loop env ps ?t1) = None \<longrightarrow> cs' = []"
          "tx_lifecycle_state (snd (commit_loop env ps ?t1)) = tx_lifecycle_state t"
          "tx_participants (snd (commit_loop env ps ?t1)) = tx_participants t"
          "tx_compensation_actions (snd (commit_loop env ps ?t1)) = tx_compensation_actions t"
        by auto
      show ?thesis
        unfolding step pc
        by (rule exI [where x = "?c # cs"], rule exI [where x = cs'])
           (use IH Inr in simp)
    qed
  qed
qed

lemma rollback_loop_spec:
  "tx_calls (rollback_loop env ps t) = tx_calls t @ rollback_calls ps"
  "tx_lifecycle_state (rollback_loop env ps t) = tx_lifecycle_state t"
  "tx_participants (rollback_loop env ps t) = tx_participants t"
  "tx_compensation_actions (rollback_loop env ps t) = tx_compensation_actions t"
  by (induction ps arbitrary: t) (auto simp: rollback_calls_def call_handler_def)

text \<open>\<open>mark_prepared\<close> changes flags only: who has which handler stays.\<close>

definition handlers_of :: "(string, TransactionParticipant) dict \<Rightarrow> (string \<times> bool \<times> bool \<times> bool) list" where
  "handlers_of ps = map (\<lambda>(pid, p). (pid, tp_has_prepare p, tp_has_commit p, tp_has_rollback p)) ps"

lemma calls_of_handlers:
  "commit_calls ps = map (\<lambda>(pid, _). CommitCall pid) (filter (\<lambda>(pid, a, b, c). b) (handlers_of ps))"
  "rollback_calls ps = map (\<lambda>(pid, _). RollbackCall pid) (filter (\<lambda>(pid, a, b, c). c) (handlers_of ps))"
  by (induction ps) (auto simp: commit_calls_def rollback_calls_def handlers_of_def)

lemma handlers_of_same:
  assumes "dget ps pid = Some p0" "tp_has_prepare p = tp_has_prepare p0" "tp_has_commit p = tp_has_commit p0"
    "tp_has_rollback p = tp_has_rollback p0"
  shows "handlers_of (dset pid p ps) = handlers_of ps"
  using assms by (induction ps) (auto simp: handlers_of_def)

lemma prepare_loop_handlers:
  assumes "\<forall>(pid, p) \<in> set ps. \<exists>p0. dget (tx_participants t) pid = Some p0 \<and>
      handlers_of [(pid, p0)] = handlers_of [(pid, p)]"
  shows "handlers_of (tx_participants (snd (prepare_loop env ps t))) = handlers_of (tx_participants t)"
  using assms
proof (induction ps arbitrary: t)
  case Nil
  then show ?case by simp
next
  case (Cons q ps)
  obtain pid p where q: "q = (pid, p)" by fastforce
  obtain p0 where p0: "dget (tx_participants t) pid = Some p0" "handlers_of [(pid, p0)] = handlers_of [(pid, p)]"
    using Cons.prems by (auto simp: q)
  let ?P = "dset pid (p\<lparr>tp_is_prepared := True\<rparr>) (tx_participants t)"
  have same: "handlers_of ?P = handlers_of (tx_participants t)"
    using p0(2) by (intro handlers_of_same [OF p0(1)]) (simp_all add: handlers_of_def)
  have step: "handlers_of (tx_participants (snd (prepare_loop env ps u))) = handlers_of (tx_participants t)"
    if u: "tx_participants u = ?P" for u
  proof -
    have "\<forall>(k, r) \<in> set ps. \<exists>r0. dget ?P k = Some r0 \<and> handlers_of [(k, r0)] = handlers_of [(k, r)]"
    proof clarify
      fix k r assume "(k, r) \<in> set ps"
      then obtain r0 where r0: "dget (tx_participants t) k = Some r0" "handlers_of [(k, r0)] = handlers_of [(k, r)]"
        using Cons.prems by auto
      show "\<exists>r0. dget ?P k = Some r0 \<and> handlers_of [(k, r0)] = handlers_of [(k, r)]"
        using r0 p0 by (cases "k = pid") (auto simp: handlers_of_def)
    qed
    then show ?thesis using Cons.IH [of u] unfolding u same by blast
  qed
  show ?case
    using step by (auto simp: q call_handler_def mark_prepared_def split: sum.splits)
qed

lemma prepare_loop_own_handlers:
  assumes "dict_ok (tx_participants t)"
  shows "handlers_of (tx_participants (snd (prepare_loop env (tx_participants t) t))) = handlers_of (tx_participants t)"
  using assms by (intro prepare_loop_handlers) auto

subsection \<open>Compensation\<close>

definition succeeded :: "handlers \<Rightarrow> handler_call list \<Rightarrow> handler_call \<Rightarrow> nat" where
  "succeeded env tr c = length (filter (\<lambda>i. tr ! i = c \<and> returned (env (take i tr) c)) [0..<length tr])"

lemma succeeded_Nil [simp]: "succeeded env [] c = 0"
  by (simp add: succeeded_def)

lemma succeeded_snoc [simp]:
  "succeeded env (tr @ [d]) c = succeeded env tr c + (if d = c \<and> returned (env tr c) then 1 else 0)"
proof -
  have "filter (\<lambda>i. (tr @ [d]) ! i = c \<and> returned (env (take i (tr @ [d])) c)) [0..<length tr] =
      filter (\<lambda>i. tr ! i = c \<and> returned (env (take i tr) c)) [0..<length tr]"
    by (rule filter_cong) (auto simp: nth_append)
  then show ?thesis by (simp add: succeeded_def)
qed

definition compensate_once :: "handlers \<Rightarrow> TransactionScope \<Rightarrow> bool" where
  "compensate_once env t \<longleftrightarrow>
     (\<forall>j. succeeded env (tx_calls t) (CompensateCall j) =
        (if j < length (tx_compensation_actions t) \<and> ca_executed (tx_compensation_actions t ! j) then 1 else 0))"

text \<open>The compensation handlers that are called: the actions not executed yet, in the given order.\<close>

definition pending :: "TransactionScope \<Rightarrow> nat list \<Rightarrow> nat list" where
  "pending t js = filter (\<lambda>j. \<not> ca_executed (tx_compensation_actions t ! j)) js"

lemma compensation_loop_frame [simp]:
  "tx_lifecycle_state (compensation_loop env clk js t) = tx_lifecycle_state t"
  "tx_participants (compensation_loop env clk js t) = tx_participants t"
  "length (tx_compensation_actions (compensation_loop env clk js t)) = length (tx_compensation_actions t)"
  by (induction js arbitrary: t) (auto simp: Let_def call_handler_def split: sum.splits)

lemma compensation_loop_calls:
  assumes "distinct js" and "\<forall>j \<in> set js. j < length (tx_compensation_actions t)"
  shows "tx_calls (compensation_loop env clk js t) = tx_calls t @ map CompensateCall (pending t js)"
  using assms
proof (induction js arbitrary: t)
  case Nil
  then show ?case by (simp add: pending_def)
next
  case (Cons j js)
  let ?a = "tx_compensation_actions t ! j"
  let ?t1 = "t\<lparr>tx_calls := tx_calls t @ [CompensateCall j]\<rparr>"
  let ?t2 = "tx_log_event clk ''compensation_executed'' [(''action_id'', PStr (ca_action_id ?a))]
      (?t1\<lparr>tx_compensation_actions := (tx_compensation_actions t)[j := ?a\<lparr>ca_executed := True\<rparr>]\<rparr>)"
  have p1: "pending ?t1 js = pending t js" by (simp add: pending_def)
  have p2: "pending ?t2 js = pending t js"
    unfolding pending_def using Cons.prems by (intro filter_cong) (auto simp: nth_list_update)
  show ?case
  proof (cases "ca_executed ?a")
    case True
    then show ?thesis using Cons by (simp add: pending_def Let_def)
  next
    case False
    then have pj: "pending t (j # js) = j # pending t js" by (simp add: pending_def)
    show ?thesis
    proof (cases "env (tx_calls t) (CompensateCall j)")
      case (Inl e)
      then have "compensation_loop env clk (j # js) t = compensation_loop env clk js ?t1"
        using False by (simp add: call_handler_def Let_def)
      with Cons.IH [of ?t1] Cons.prems p1 pj show ?thesis by simp
    next
      case (Inr b)
      then have "compensation_loop env clk (j # js) t = compensation_loop env clk js ?t2"
        using False by (simp add: call_handler_def Let_def)
      with Cons.IH [of ?t2] Cons.prems p2 pj show ?thesis by simp
    qed
  qed
qed

lemma compensation_loop_once:
  assumes "compensate_once env t" and "\<forall>j \<in> set js. j < length (tx_compensation_actions t)"
  shows "compensate_once env (compensation_loop env clk js t)"
  using assms
proof (induction js arbitrary: t)
  case Nil
  then show ?case by simp
next
  case (Cons j js)
  let ?a = "tx_compensation_actions t ! j"
  let ?t1 = "t\<lparr>tx_calls := tx_calls t @ [CompensateCall j]\<rparr>"
  let ?t2 = "tx_log_event clk ''compensation_executed'' [(''action_id'', PStr (ca_action_id ?a))]
      (?t1\<lparr>tx_compensation_actions := (tx_compensation_actions t)[j := ?a\<lparr>ca_executed := True\<rparr>]\<rparr>)"
  show ?case
  proof (cases "ca_executed ?a")
    case True
    then show ?thesis using Cons by (simp add: Let_def)
  next
    case new: False
    show ?thesis
    proof (cases "env (tx_calls t) (CompensateCall j)")
      case (Inl e)
      then have "compensation_loop env clk (j # js) t = compensation_loop env clk js ?t1"
        using new by (simp add: call_handler_def Let_def)
      moreover have "compensate_once env ?t1"
        using Cons.prems(1) Inl by (simp add: compensate_once_def)
      ultimately show ?thesis using Cons.IH [of ?t1] Cons.prems by simp
    next
      case (Inr b)
      then have "compensation_loop env clk (j # js) t = compensation_loop env clk js ?t2"
        using new by (simp add: call_handler_def Let_def)
      moreover have "compensate_once env ?t2"
        using Cons.prems Inr new by (auto simp: compensate_once_def nth_list_update)
      ultimately show ?thesis using Cons.IH [of ?t2] Cons.prems by simp
    qed
  qed
qed

lemma sorted_actions_perm: "set (sorted_actions t) = {..<length (tx_compensation_actions t)}" "distinct (sorted_actions t)"
  by (auto simp: sorted_actions_def Let_def)

subsection \<open>The outcome of each phase\<close>

lemma active_prepare_spec:
  "\<exists>cs cs'. prepare_calls (tx_participants t) = cs @ cs' \<and>
     tx_calls (snd (active_prepare env clk t)) = tx_calls t @ cs \<and>
     (fst (active_prepare env clk t) \<longleftrightarrow> calls_ok env voted_yes (tx_calls t) (prepare_calls (tx_participants t))) \<and>
     (fst (active_prepare env clk t) \<longrightarrow> cs' = []) \<and>
     tx_lifecycle_state (snd (active_prepare env clk t)) =
       (if fst (active_prepare env clk t) then PreparedState else FailedState) \<and>
     tx_compensation_actions (snd (active_prepare env clk t)) = tx_compensation_actions t \<and>
     (dict_ok (tx_participants t) \<longrightarrow>
       handlers_of (tx_participants (snd (active_prepare env clk t))) = handlers_of (tx_participants t))"
proof -
  let ?t0 = "tx_log_event clk ''prepare_started'' [] (t\<lparr>tx_lifecycle_state := PreparingState\<rparr>)"
  obtain r u where r: "prepare_loop env (tx_participants ?t0) ?t0 = (r, u)" by fastforce
  have own: "dict_ok (tx_participants t) \<Longrightarrow> handlers_of (tx_participants u) = handlers_of (tx_participants t)"
    using prepare_loop_own_handlers [of ?t0 env] unfolding r by simp
  have ap: "active_prepare env clk t =
      (r = Inr True, (case r of Inr _ \<Rightarrow> (if r = Inr True then tx_log_event clk ''prepare_completed'' [] u else u)
                      | Inl e \<Rightarrow> tx_log_event clk ''prepare_failed'' [(''error'', PStr e)] u)
         \<lparr>tx_lifecycle_state := (if r = Inr True then PreparedState else FailedState)\<rparr>)"
    using r by (auto simp: active_prepare_def do_prepare_def Let_def split: sum.splits bool.splits)
  show ?thesis
    using prepare_loop_spec [of "tx_participants ?t0" env ?t0] own
    unfolding r ap by (cases r) (auto split: if_splits)
qed

lemma active_prepare_state:
  "tx_lifecycle_state (snd (active_prepare env clk t)) =
     (if fst (active_prepare env clk t) then PreparedState else FailedState)"
  using active_prepare_spec [of t env clk] by blast

lemma active_rollback_spec:
  "fst (active_rollback env clk t)"
  "tx_lifecycle_state (snd (active_rollback env clk t)) = RolledBackState"
  "tx_participants (snd (active_rollback env clk t)) = tx_participants t"
  "tx_calls (snd (active_rollback env clk t)) =
     tx_calls t @ rollback_calls (tx_participants t) @ map CompensateCall (pending t (sorted_actions t))"
  "\<exists>e. tx_end_time (snd (active_rollback env clk t)) = Some e"
proof -
  let ?t0 = "tx_log_event clk ''rollback_started'' [] (t\<lparr>tx_lifecycle_state := RollingBackState\<rparr>)"
  let ?t1 = "rollback_loop env (tx_participants t) ?t0"
  have c: "tx_compensation_actions ?t1 = tx_compensation_actions t" by (simp add: rollback_loop_spec)
  then have s: "sorted_actions ?t1 = sorted_actions t" "pending ?t1 = pending t"
    by (simp_all add: sorted_actions_def pending_def fun_eq_iff)
  have "tx_calls (compensation_loop env clk (sorted_actions ?t1) ?t1) =
      tx_calls ?t1 @ map CompensateCall (pending ?t1 (sorted_actions ?t1))"
    using sorted_actions_perm [of ?t1] by (intro compensation_loop_calls) auto
  then show "tx_calls (snd (active_rollback env clk t)) =
     tx_calls t @ rollback_calls (tx_participants t) @ map CompensateCall (pending t (sorted_actions t))"
    by (simp add: active_rollback_def do_rollback_def Let_def rollback_loop_spec s)
qed (simp_all add: active_rollback_def do_rollback_def Let_def rollback_loop_spec end_now_def)

lemma compensate_once_log [simp]: "compensate_once env (tx_log_event clk ev d t) = compensate_once env t"
  and compensate_once_state [simp]: "compensate_once env (t\<lparr>tx_lifecycle_state := st\<rparr>) = compensate_once env t"
  and compensate_once_end [simp]: "compensate_once env (end_now clk t) = compensate_once env t"
  by (simp_all add: compensate_once_def)

lemma compensate_once_other:
  assumes "compensate_once env t" and "\<forall>j. CompensateCall j \<notin> set cs"
    and "tx_calls u = tx_calls t @ cs" and "tx_compensation_actions u = tx_compensation_actions t"
  shows "compensate_once env u"
proof -
  have "succeeded env (tx_calls t @ cs) (CompensateCall j) = succeeded env (tx_calls t) (CompensateCall j)" for j
    using assms(2)
  proof (induction cs rule: rev_induct)
    case (snoc c cs)
    then show ?case using succeeded_snoc [of env "tx_calls t @ cs" c "CompensateCall j"] by auto
  qed simp
  then show ?thesis using assms(1,3,4) by (simp add: compensate_once_def)
qed

lemma active_rollback_once: "compensate_once env t \<Longrightarrow> compensate_once env (snd (active_rollback env clk t))"
proof -
  assume o: "compensate_once env t"
  let ?t0 = "tx_log_event clk ''rollback_started'' [] (t\<lparr>tx_lifecycle_state := RollingBackState\<rparr>)"
  let ?t1 = "rollback_loop env (tx_participants ?t0) ?t0"
  have "compensate_once env ?t1"
    by (rule compensate_once_other [of env ?t0 "rollback_calls (tx_participants ?t0)"])
       (use o in \<open>auto simp: rollback_loop_spec rollback_calls_def\<close>)
  then have "compensate_once env (compensation_loop env clk (sorted_actions ?t1) ?t1)"
    using sorted_actions_perm [of ?t1] by (intro compensation_loop_once) auto
  then show ?thesis by (simp add: active_rollback_def do_rollback_def Let_def)
qed

lemma active_prepare_once: "compensate_once env t \<Longrightarrow> compensate_once env (snd (active_prepare env clk t))"
proof -
  assume o: "compensate_once env t"
  obtain cs cs' where cs: "prepare_calls (tx_participants t) = cs @ cs'"
    "tx_calls (snd (active_prepare env clk t)) = tx_calls t @ cs"
    "tx_compensation_actions (snd (active_prepare env clk t)) = tx_compensation_actions t"
    using active_prepare_spec [of t env clk] by blast
  then have "set cs \<subseteq> set (prepare_calls (tx_participants t))" by simp
  then have "\<forall>j. CompensateCall j \<notin> set cs" by (auto simp: prepare_calls_def)
  from compensate_once_other [OF o this cs(2,3)] show ?thesis .
qed

text \<open>
  Committing a prepared scope: all commit handlers, or the ones up to the one that raises and
  then two rounds of rollback.
\<close>

lemma prepared_commit_spec:
  "\<exists>cs cs'. commit_calls (tx_participants t) = cs @ cs' \<and>
    (if calls_ok env returned (tx_calls t) (commit_calls (tx_participants t))
     then fst (prepared_commit env clk t) \<and> cs' = [] \<and>
       tx_lifecycle_state (snd (prepared_commit env clk t)) = CommittedState \<and>
       tx_calls (snd (prepared_commit env clk t)) = tx_calls t @ cs
     else \<not> fst (prepared_commit env clk t) \<and>
       tx_lifecycle_state (snd (prepared_commit env clk t)) = RolledBackState \<and>
       (\<exists>js js'. tx_calls (snd (prepared_commit env clk t)) =
          tx_calls t @ cs @ rollback_calls (tx_participants t) @ map CompensateCall js @
          rollback_calls (tx_participants t) @ map CompensateCall js')) \<and>
    (compensate_once env t \<longrightarrow> compensate_once env (snd (prepared_commit env clk t)))"
proof -
  let ?t0 = "tx_log_event clk ''commit_started'' [] (t\<lparr>tx_lifecycle_state := CommittingState\<rparr>)"
  obtain r u where r: "commit_loop env (tx_participants t) ?t0 = (r, u)" by fastforce
  from commit_loop_spec [of "tx_participants t" env ?t0] obtain cs cs' where
    cs: "commit_calls (tx_participants t) = cs @ cs'" "tx_calls u = tx_calls t @ cs"
      "r = None \<longleftrightarrow> calls_ok env returned (tx_calls t) (commit_calls (tx_participants t))"
      "r = None \<longrightarrow> cs' = []" "tx_lifecycle_state u = CommittingState" "tx_participants u = tx_participants t"
      "tx_compensation_actions u = tx_compensation_actions t"
    unfolding r by auto
  have "set cs \<subseteq> set (commit_calls (tx_participants t))" using cs(1) by simp
  then have nc: "\<forall>j. CompensateCall j \<notin> set cs" by (auto simp: commit_calls_def)
  have o: "compensate_once env t \<Longrightarrow> compensate_once env u"
    by (rule compensate_once_other [OF _ nc cs(2,7)])
  show ?thesis
  proof (cases r)
    case None
    with r have "prepared_commit env clk t =
        (True, (tx_log_event clk ''commit_completed'' [] (end_now clk u))\<lparr>tx_lifecycle_state := CommittedState\<rparr>)"
      by (simp add: prepared_commit_def do_commit_def)
    then show ?thesis
      by - (rule exI [of _ cs], rule exI [of _ cs'], use cs None o in simp)
  next
    case (Some e)
    let ?u1 = "tx_log_event clk ''commit_failed'' [(''error'', PStr e)] u"
    let ?u2 = "snd (active_rollback env clk ?u1)"
    have pc: "prepared_commit env clk t = (False, snd (active_rollback env clk (?u2\<lparr>tx_lifecycle_state := FailedState\<rparr>)))"
      using r Some cs(5) by (simp add: prepared_commit_def do_commit_def tx_rollback_def)
    have "\<not> calls_ok env returned (tx_calls t) (commit_calls (tx_participants t))" using cs(3) Some by simp
    then show ?thesis
      unfolding pc
      by - (rule exI [of _ cs], rule exI [of _ cs'],
          use cs o in \<open>auto simp: active_rollback_spec intro!: active_rollback_once\<close>)
  qed
qed

lemma prepared_commit_state:
  "tx_lifecycle_state (snd (prepared_commit env clk t)) =
     (if fst (prepared_commit env clk t) then CommittedState else RolledBackState)"
  using prepared_commit_spec [of t env clk] by (metis (full_types))

subsection \<open>Reachable scopes\<close>

datatype tx_op = Prepare | Commit | Rollback

definition tx_apply :: "handlers \<Rightarrow> clock \<Rightarrow> tx_op \<Rightarrow> TransactionScope \<Rightarrow> TransactionScope outcome" where
  "tx_apply env clk x t =
     (let out = (\<lambda>(r, t'). (case r of Inl e \<Rightarrow> Some e | Inr (_::bool) \<Rightarrow> None, t'))
      in case x of
           Prepare \<Rightarrow> out (tx_prepare env clk t)
         | Commit \<Rightarrow> out (tx_commit env clk t)
         | Rollback \<Rightarrow> out (apfst Inr (tx_rollback env clk t)))"

lemma tx_apply_snd [simp]:
  "snd (tx_apply env clk Prepare t) = snd (tx_prepare env clk t)"
  "snd (tx_apply env clk Commit t) = snd (tx_commit env clk t)"
  "snd (tx_apply env clk Rollback t) = snd (tx_rollback env clk t)"
  by (simp_all add: tx_apply_def Let_def case_prod_beta)

inductive tx_reach :: "handlers \<Rightarrow> TransactionScope \<Rightarrow> bool" for env :: handlers where
  new: "tx_reach env (new_tx now tid lvl par)"
| participant: "tx_reach env t \<Longrightarrow> tx_reach env (snd (add_participant clk uuid name pre com rol pid t))"
| compensation: "tx_reach env t \<Longrightarrow> tx_reach env (snd (add_compensation clk uuid name order aid t))"
| op: "tx_reach env t \<Longrightarrow> tx_reach env (snd (tx_apply env clk x t))"

text \<open>The states a scope can be in between two calls; the others only occur inside one.\<close>

definition settled :: "lifecycle_state \<Rightarrow> bool" where
  "settled st \<longleftrightarrow> st \<in> {ActiveState, PreparedState, CommittedState, RolledBackState, FailedState}"

definition ended :: "lifecycle_state \<Rightarrow> bool" where
  "ended st \<longleftrightarrow> st \<in> {CommittedState, RolledBackState}"

definition tx_inv :: "handlers \<Rightarrow> TransactionScope \<Rightarrow> bool" where
  "tx_inv env t \<longleftrightarrow> dict_ok (tx_participants t) \<and> compensate_once env t \<and> settled (tx_lifecycle_state t)"

lemma prepare_loop_dict_ok:
  "dict_ok (tx_participants t) \<Longrightarrow> dict_ok (tx_participants (snd (prepare_loop env ps t)))"
  by (induction ps arbitrary: t) (auto simp: call_handler_def mark_prepared_def split: sum.splits prod.splits)

lemma active_prepare_dict_ok:
  "dict_ok (tx_participants t) \<Longrightarrow> dict_ok (tx_participants (snd (active_prepare env clk t)))"
  using prepare_loop_dict_ok [of "tx_log_event clk ''prepare_started'' [] (t\<lparr>tx_lifecycle_state := PreparingState\<rparr>)" env
      "tx_participants t"]
  by (auto simp: active_prepare_def do_prepare_def Let_def split: prod.splits sum.splits bool.splits)

lemma commit_loop_participants: "tx_participants (snd (commit_loop env ps t)) = tx_participants t"
  using commit_loop_spec [of ps env t] by blast

lemma prepared_commit_participants: "tx_participants (snd (prepared_commit env clk t)) = tx_participants t"
proof -
  let ?t0 = "tx_log_event clk ''commit_started'' [] (t\<lparr>tx_lifecycle_state := CommittingState\<rparr>)"
  have "tx_participants (snd (rollback_in st env clk u)) = tx_participants u" for st u
    by (cases st) (simp_all add: active_rollback_spec)
  then show ?thesis
    using commit_loop_participants [of env "tx_participants t" ?t0]
    by (auto simp: prepared_commit_def do_commit_def Let_def active_rollback_spec tx_rollback_def
        split: prod.splits option.splits bool.splits)
qed

lemma prepared_commit_keeps:
  assumes "tx_inv env t"
  shows "tx_inv env (snd (prepared_commit env clk t))"
proof -
  have "compensate_once env (snd (prepared_commit env clk t))"
    "tx_lifecycle_state (snd (prepared_commit env clk t)) \<in> {CommittedState, RolledBackState}"
    using prepared_commit_spec [of t env clk] assms by (auto simp: tx_inv_def split: if_splits)
  then show ?thesis
    using assms by (auto simp: tx_inv_def settled_def prepared_commit_participants)
qed

lemma active_prepare_keeps: "tx_inv env t \<Longrightarrow> tx_inv env (snd (active_prepare env clk t))"
  by (simp add: tx_inv_def active_prepare_dict_ok active_prepare_once active_prepare_state settled_def)

lemma active_rollback_keeps: "tx_inv env t \<Longrightarrow> tx_inv env (snd (active_rollback env clk t))"
  by (simp add: tx_inv_def active_rollback_spec active_rollback_once settled_def)

lemma tx_apply_inv:
  assumes "tx_inv env t"
  shows "tx_inv env (snd (tx_apply env clk x t))"
proof -
  have st: "tx_lifecycle_state t \<in> {ActiveState, PreparedState, CommittedState, RolledBackState, FailedState}"
    using assms by (simp add: tx_inv_def settled_def)
  have c: "tx_inv env (snd (commit_in ActiveState env clk t))"
    using prepared_commit_keeps [OF active_prepare_keeps [OF assms]] active_prepare_keeps [OF assms, of clk]
    by (cases "active_prepare env clk t"; cases "fst (active_prepare env clk t)") (simp_all, metis snd_conv)
  show ?thesis
    using st assms c
    by (cases x)
       (auto simp: tx_prepare_def tx_commit_def tx_rollback_def prepared_commit_keeps active_prepare_keeps
          active_rollback_keeps simp del: commit_in.simps(1))
qed

lemma tx_reach_inv: "tx_reach env t \<Longrightarrow> tx_inv env t"
proof (induction rule: tx_reach.induct)
  case (new now tid lvl par)
  then show ?case by (simp add: new_tx_def tx_inv_def compensate_once_def settled_def)
next
  case (participant t clk uuid name pre com rol pid)
  then show ?case by (simp add: tx_inv_def add_participant_def Let_def compensate_once_def)
next
  case (compensation t clk uuid name order aid)
  then show ?case by (auto simp: tx_inv_def add_compensation_def Let_def compensate_once_def nth_append)
next
  case (op t clk x)
  then show ?case by (simp add: tx_apply_inv)
qed

interpretation tx_life: lifecycle "\<lambda>(clk, x). tx_apply env clk x" "\<lambda>_. True" tx_lifecycle_state ended
proof
  fix t :: TransactionScope and x :: "clock \<times> tx_op"
  assume "ended (tx_lifecycle_state t)"
  then show "tx_lifecycle_state (snd ((case x of (clk, x) \<Rightarrow> tx_apply env clk x) t)) = tx_lifecycle_state t"
    by (cases "snd x") (auto simp: ended_def tx_prepare_def tx_commit_def tx_rollback_def split: prod.splits)
qed simp

lemma sorted_stable_wrt:
  fixes f :: "nat \<Rightarrow> int"
  assumes "sorted (map f ys)" and "\<forall>k. sorted (filter (\<lambda>y. f y = k) ys)" and "distinct ys"
  shows "sorted_wrt (\<lambda>x y. f x < f y \<or> f x = f y \<and> x < y) ys"
  using assms
proof (induction ys)
  case (Cons y ys)
  have "f y < f z \<or> f y = f z \<and> y < z" if z: "z \<in> set ys" for z
  proof (cases "f y = f z")
    case True
    have "sorted (filter (\<lambda>x. f x = f y) (y # ys))" using Cons.prems(2) by blast
    with True z have "y \<le> z" by auto
    with z Cons.prems(3) True show ?thesis by (auto simp: le_less)
  next
    case False
    then show ?thesis using Cons.prems(1) z by auto
  qed
  moreover have "\<forall>k. sorted (filter (\<lambda>y. f y = k) ys)"
  proof
    fix k
    have "sorted (filter (\<lambda>y. f y = k) (y # ys))" using Cons.prems(2) by blast
    then show "sorted (filter (\<lambda>y. f y = k) ys)" by (auto split: if_splits)
  qed
  ultimately show ?case using Cons by simp
qed simp

lemma sorted_actions_order:
  "sorted_wrt (\<lambda>i j. let a = ca_order (tx_compensation_actions t ! i); b = ca_order (tx_compensation_actions t ! j)
     in b < a \<or> a = b \<and> i < j) (sorted_actions t)"
proof -
  let ?f = "\<lambda>j. - ca_order (tx_compensation_actions t ! j)"
  have "sorted_wrt (\<lambda>x y. ?f x < ?f y \<or> ?f x = ?f y \<and> x < y) (sorted_actions t)"
    by (rule sorted_stable_wrt)
       (simp_all add: sorted_actions_def Let_def sort_key_stable sorted_filter [of id, simplified])
  then show ?thesis by (simp add: Let_def)
qed

subsection \<open>Properties\<close>

lemma tx_state_eq [simp]:
  "tx_state t = ACTIVE \<longleftrightarrow> tx_lifecycle_state t = ActiveState"
  "tx_state t = PREPARED \<longleftrightarrow> tx_lifecycle_state t = PreparedState"
  "tx_state t = COMMITTED \<longleftrightarrow> tx_lifecycle_state t = CommittedState"
  "tx_state t = ROLLED_BACK \<longleftrightarrow> tx_lifecycle_state t = RolledBackState"
  "tx_state t = FAILED \<longleftrightarrow> tx_lifecycle_state t = FailedState"
  by (cases "tx_lifecycle_state t"; simp add: tx_state_def tx_states_def)+

lemma tx_state_cong: "tx_lifecycle_state t = tx_lifecycle_state u \<Longrightarrow> tx_state t = tx_state u"
  by (simp add: tx_state_def)

text \<open>
  C1: Committing an active transaction is two-phase.  It returns true exactly when every prepare
  handler votes yes and then every commit handler returns, and no commit handler is called
  before all votes are in.  A missing vote leaves it failed after the votes so far, with no
  rollback; a commit handler that raises leads to rolled back, with the rollback handlers of
  all participants called twice.
\<close>

theorem commit_two_phase:
  assumes "tx_reach env t" and "tx_state t = ACTIVE"
  shows "let pre = prepare_calls (tx_participants t); com = commit_calls (tx_participants t);
             rb = rollback_calls (tx_participants t);
             yes = calls_ok env voted_yes (tx_calls t) pre;
             fine = calls_ok env returned (tx_calls t @ pre) com;
             t' = snd (tx_commit env clk t)
         in fst (tx_commit env clk t) = Inr (yes \<and> fine) \<and>
            (\<not> yes \<longrightarrow> tx_state t' = FAILED \<and> (\<exists>cs cs'. pre = cs @ cs' \<and> tx_calls t' = tx_calls t @ cs)) \<and>
            (yes \<and> fine \<longrightarrow> tx_state t' = COMMITTED \<and> tx_calls t' = tx_calls t @ pre @ com) \<and>
            (yes \<and> \<not> fine \<longrightarrow> tx_state t' = ROLLED_BACK \<and>
              (\<exists>cs cs' js js'. com = cs @ cs' \<and>
                 tx_calls t' = tx_calls t @ pre @ cs @ rb @ map CompensateCall js @ rb @ map CompensateCall js'))"
proof -
  let ?pre = "prepare_calls (tx_participants t)" and ?p = "active_prepare env clk t"
  have ok: "dict_ok (tx_participants t)" using tx_reach_inv [OF assms(1)] by (simp add: tx_inv_def)
  have st: "tx_lifecycle_state t = ActiveState" using assms(2) by simp
  obtain cs cs' where cs: "?pre = cs @ cs'" "tx_calls (snd ?p) = tx_calls t @ cs"
    "fst ?p = calls_ok env voted_yes (tx_calls t) ?pre" "fst ?p \<longrightarrow> cs' = []"
    "handlers_of (tx_participants (snd ?p)) = handlers_of (tx_participants t)"
    using active_prepare_spec [of t env clk] ok by blast
  have same: "commit_calls (tx_participants (snd ?p)) = commit_calls (tx_participants t)"
    "rollback_calls (tx_participants (snd ?p)) = rollback_calls (tx_participants t)"
    unfolding calls_of_handlers cs(5) by simp_all
  show ?thesis
  proof (cases "fst ?p")
    case False
    then have "tx_commit env clk t = (Inr False, snd ?p)"
      by (cases ?p) (simp add: tx_commit_def st)
    then show ?thesis
      using False cs(1-3) active_prepare_state [of env clk t] by (auto simp: Let_def)
  next
    case True
    then have c: "tx_commit env clk t = apfst Inr (prepared_commit env clk (snd ?p))"
      by (cases ?p) (simp add: tx_commit_def st)
    have calls: "tx_calls (snd ?p) = tx_calls t @ ?pre" using True cs by simp
    show ?thesis
      using prepared_commit_spec [of "snd ?p" env clk] True cs(3)
      unfolding c calls same by (auto simp: Let_def split: if_splits)
  qed
qed

definition demo_tx :: TransactionScope where
  "demo_tx = snd (add_participant (\<lambda>_. 1) ''u'' ''b'' True True True (Some ''b'')
     (snd (add_participant (\<lambda>_. 1) ''u'' ''a'' True True True (Some ''a'') (new_tx 0 ''t'' READ_COMMITTED None))))"

lemma demo_tx_reach: "tx_reach env demo_tx"
  unfolding demo_tx_def by (intro tx_reach.participant tx_reach.new)

lemma demo_tx_fields:
  "tx_state demo_tx = ACTIVE" "tx_calls demo_tx = []"
  "prepare_calls (tx_participants demo_tx) = [PrepareCall ''a'', PrepareCall ''b'']"
  "commit_calls (tx_participants demo_tx) = [CommitCall ''a'', CommitCall ''b'']"
  by (simp_all add: demo_tx_def add_participant_def new_tx_def prepare_calls_def commit_calls_def Let_def)

theorem commit_two_phase_witness:
  "fst (tx_commit (\<lambda>_ _. Inr True) (\<lambda>_. 2) demo_tx) = Inr True \<and>
   tx_calls (snd (tx_commit (\<lambda>_ _. Inr True) (\<lambda>_. 2) demo_tx)) =
     [PrepareCall ''a'', PrepareCall ''b'', CommitCall ''a'', CommitCall ''b'']"
  using commit_two_phase [OF demo_tx_reach demo_tx_fields(1), of "\<lambda>_ _. Inr True" "\<lambda>_. 2"]
  by (simp add: Let_def demo_tx_fields)

text \<open>
  C35: Over the whole life of a transaction, whatever is prepared, committed and rolled back and
  however often, each compensation handler completes at most once, and it has completed exactly
  when its action is marked executed.
\<close>

theorem compensation_at_most_once:
  assumes "tx_reach env t"
  shows "succeeded env (tx_calls t) (CompensateCall j) =
    (if j < length (tx_compensation_actions t) \<and> ca_executed (tx_compensation_actions t ! j) then 1 else 0)"
  using tx_reach_inv [OF assms] by (simp add: tx_inv_def compensate_once_def)

theorem compensation_at_most_once_witness:
  "succeeded (\<lambda>_ _. Inr True)
     (tx_calls (snd (tx_apply (\<lambda>_ _. Inr True) (\<lambda>_. 3) Rollback
        (snd (add_compensation (\<lambda>_. 1) ''u'' ''undo'' 0 None (new_tx 0 ''t'' SERIALIZABLE None)))))) (CompensateCall 0) = 1"
proof -
  let ?t = "snd (tx_apply (\<lambda>_ _. Inr True) (\<lambda>_. 3) Rollback
        (snd (add_compensation (\<lambda>_. 1) ''u'' ''undo'' 0 None (new_tx 0 ''t'' SERIALIZABLE None))))"
  have "tx_reach (\<lambda>_ _. Inr True) ?t" by (intro tx_reach.op tx_reach.compensation tx_reach.new)
  from compensation_at_most_once [OF this, of 0] show ?thesis
    by (simp add: tx_rollback_def add_compensation_def new_tx_def active_rollback_def do_rollback_def
        sorted_actions_def tx_log_event_def end_now_def call_handler_def Let_def)
qed



text \<open>
  A committed or rolled-back transaction stays so under every further sequence of
  \<open>prepare\<close>, \<open>commit\<close> and \<open>rollback\<close> calls, and between calls no transaction is ever seen preparing,
  committing or rolling back.
\<close>

theorem tx_states_settled:
  assumes "tx_reach env t"
  shows "tx_state (run_ops (\<lambda>(clk, x). tx_apply env clk x) xs t) \<in> {ACTIVE, PREPARED, COMMITTED, ROLLED_BACK, FAILED} \<and>
    (tx_state t \<in> {COMMITTED, ROLLED_BACK} \<longrightarrow>
      tx_state (run_ops (\<lambda>(clk, x). tx_apply env clk x) xs t) = tx_state t)"
proof -
  let ?r = "run_ops (\<lambda>(clk, x). tx_apply env clk x) xs t"
  have "tx_reach env ?r"
    using assms by (induction xs arbitrary: t) (auto simp: run_ops_def intro: tx_reach.op split: prod.splits)
  then have "settled (tx_lifecycle_state ?r)" using tx_reach_inv by (auto simp: tx_inv_def)
  moreover have "ended (tx_lifecycle_state t) \<Longrightarrow> tx_lifecycle_state ?r = tx_lifecycle_state t"
    by (rule tx_life.run_final) simp_all
  ultimately show ?thesis
    using tx_state_cong [of ?r t] by (auto simp: settled_def ended_def simp del: split_paired_All)
qed

theorem tx_states_settled_witness:
  "tx_state (run_ops (\<lambda>(clk, x). tx_apply (\<lambda>_ _. Inr True) clk x) [(\<lambda>_. 5, Rollback), (\<lambda>_. 6, Commit)] demo_tx)
     \<in> {ACTIVE, PREPARED, COMMITTED, ROLLED_BACK, FAILED}"
  using tx_states_settled [OF demo_tx_reach, of "\<lambda>_ _. Inr True" "[(\<lambda>_. 5, Rollback), (\<lambda>_. 6, Commit)]"] by blast

text \<open>
  Committing a failed transaction through the manager rolls it back, but the manager reports
  success and counts it as committed.
\<close>

theorem failed_commit_counts_as_committed:
  assumes "get_transaction tid m = Some t" and "tx_state t = FAILED"
  shows "\<exists>m' t'. commit_transaction env clk tid m = (Inr True, m') \<and>
    txm_total_committed m' = txm_total_committed m + 1 \<and>
    txm_total_rolled_back m' = txm_total_rolled_back m \<and>
    get_transaction tid m' = Some t' \<and> tx_state t' = ROLLED_BACK"
proof -
  obtain r t' where r: "active_rollback env clk t = (r, t')" by fastforce
  then have "r" "tx_lifecycle_state t' = RolledBackState"
    using active_rollback_spec(1,2) [of env clk t] by simp_all
  moreover have "tx_commit env clk t = (Inr r, t')" using assms(2) r by (simp add: tx_commit_def)
  ultimately show ?thesis
    using assms(1) by (simp add: commit_transaction_def get_transaction_def put_tx_def)
qed

definition demo_manager :: "lifecycle_state \<Rightarrow> TransactionManager" where
  "demo_manager st = put_tx ''t'' (demo_tx\<lparr>tx_lifecycle_state := st\<rparr>)
     (snd (begin_transaction 0 ''t'' READ_COMMITTED None transaction_manager_init))"

theorem failed_commit_counts_as_committed_witness:
  "\<exists>m'. commit_transaction (\<lambda>_ _. Inr True) (\<lambda>_. 3) ''t'' (demo_manager FailedState) = (Inr True, m') \<and>
     txm_total_committed m' = 1"
  using failed_commit_counts_as_committed [of "''t''" "demo_manager FailedState" "demo_tx\<lparr>tx_lifecycle_state := FailedState\<rparr>"
      "\<lambda>_ _. Inr True" "\<lambda>_. 3"]
  by (simp add: demo_manager_def get_transaction_def put_tx_def begin_transaction_def transaction_manager_init_def Let_def)
     fastforce

text \<open>
  The \<open>transaction()\<close> block never leaves its transaction active or prepared, re-raises exactly
  the exception of its body, and when the body returns but the commit fails it returns
  normally, with the transaction failed or rolled back.
\<close>

theorem transaction_block_outcome:
  assumes "tx_reach env (snd (body (new_tx now uuid lvl None)))"
    and "tx_state (snd (body (new_tx now uuid lvl None))) = ACTIVE"
  shows "\<exists>m' t'. transaction_block env clk now uuid lvl body m = (fst (body (new_tx now uuid lvl None)), m') \<and>
    uuid \<notin> set (txm_active_transactions m') \<and> get_transaction uuid m' = Some t' \<and>
    tx_state t' =
      (if fst (body (new_tx now uuid lvl None)) \<noteq> None then ROLLED_BACK
       else if \<not> calls_ok env voted_yes (tx_calls (snd (body (new_tx now uuid lvl None))))
              (prepare_calls (tx_participants (snd (body (new_tx now uuid lvl None))))) then FAILED
       else if fst (tx_commit env clk (snd (body (new_tx now uuid lvl None)))) = Inr True then COMMITTED
       else ROLLED_BACK)"
proof -
  obtain e t where b: "body (new_tx now uuid lvl None) = (e, t)" by fastforce
  have st: "tx_lifecycle_state t = ActiveState" using assms(2) by (simp add: b)
  show ?thesis
  proof (cases e)
    case (Some err)
    then show ?thesis
      using active_rollback_spec(2) [of env clk t]
      by (simp add: transaction_block_def begin_transaction_def b Let_def tx_rollback_def st
          put_tx_def get_transaction_def)
  next
    case None
    obtain r t' where c: "tx_commit env clk t = (r, t')" by fastforce
    obtain p u where p: "active_prepare env clk t = (p, u)" by fastforce
    have pv: "p = calls_ok env voted_yes (tx_calls t) (prepare_calls (tx_participants t))"
      "tx_lifecycle_state u = (if p then PreparedState else FailedState)"
      using active_prepare_spec [of t env clk] by (auto simp: p)
    have "r = Inr (p \<and> fst (prepared_commit env clk u)) \<and>
        tx_lifecycle_state t' = (if \<not> p then FailedState else if r = Inr True then CommittedState else RolledBackState)"
      using c prepared_commit_state [of env clk u] pv(2)
      by (cases p; cases "prepared_commit env clk u") (auto simp: tx_commit_def st p)
    then show ?thesis
      using None pv(1)
      by (auto simp: transaction_block_def begin_transaction_def b Let_def c put_tx_def get_transaction_def)
  qed
qed

theorem transaction_block_outcome_witness:
  "fst (transaction_block (\<lambda>_ _. Inl ''boom'') (\<lambda>_. 3) 0 ''t'' READ_COMMITTED
     (\<lambda>t. (None, snd (add_participant (\<lambda>_. 1) ''p'' ''a'' True True True None t))) transaction_manager_init) = None"
proof -
  let ?body = "\<lambda>t. (None, snd (add_participant (\<lambda>_. 1) ''p'' ''a'' True True True None t))"
  have "tx_reach (\<lambda>_ _. Inl ''boom'') (snd (?body (new_tx 0 ''t'' READ_COMMITTED None)))"
    unfolding snd_conv by (intro tx_reach.participant tx_reach.new)
  moreover have "tx_state (snd (?body (new_tx 0 ''t'' READ_COMMITTED None))) = ACTIVE"
    by (simp add: add_participant_def new_tx_def Let_def)
  ultimately show ?thesis
    using transaction_block_outcome [of "\<lambda>_ _. Inl ''boom''" ?body 0 "''t''" READ_COMMITTED "\<lambda>_. 3" transaction_manager_init]
    by auto
qed

end
