(* ===== verification/EventBus.thy ===== *)
theory EventBus
  imports Repository
begin

section \<open>The event bus\<close>

text \<open>
  \<open>core/event_bus.py\<close>: events and their record format, subscriptions with the index by event type,
  the bounded history, the queue and the delivery of events.  Handlers and filters are the
  caller's code; a filter is a function of the event that may raise, and a handler is taken
  not to call the bus.  \<open>eb_calls\<close> records the handler calls (subscription and event), which the
  code does not keep.  The processor task takes the queue's events one at a time; one turn of
  its loop is \<open>process_next\<close>.  Persistence is the default configuration of \<open>EventRepository\<close>.
\<close>

datatype EventType =
    ENGINE_STARTED | ENGINE_STOPPED | ENGINE_PAUSED | ENGINE_RESUMED
  | DEPLOYMENT_CREATED | DEPLOYMENT_DELETED | PROCESS_INSTANCE_STARTED | PROCESS_INSTANCE_COMPLETED
  | PROCESS_INSTANCE_TERMINATED | PROCESS_INSTANCE_SUSPENDED | PROCESS_INSTANCE_RESUMED | ACTIVITY_STARTED
  | ACTIVITY_COMPLETED | ACTIVITY_FAILED | ACTIVITY_CANCELLED | TASK_CREATED
  | TASK_ASSIGNED | TASK_COMPLETED | MESSAGE_RECEIVED | MESSAGE_SENT
  | MESSAGE_CORRELATED | SIGNAL_THROWN | SIGNAL_CAUGHT | TIMER_FIRED
  | TIMER_CANCELLED | ERROR_THROWN | ERROR_CAUGHT | COMPENSATION_TRIGGERED
  | COMPENSATION_COMPLETED | JOB_CREATED | JOB_EXECUTED | JOB_FAILED
  | INCIDENT_CREATED | INCIDENT_RESOLVED | METRICS_COLLECTED | CUSTOM

fun event_type_value :: "EventType \<Rightarrow> string" where
  "event_type_value ENGINE_STARTED = ''engine.started''"
| "event_type_value ENGINE_STOPPED = ''engine.stopped''"
| "event_type_value ENGINE_PAUSED = ''engine.paused''"
| "event_type_value ENGINE_RESUMED = ''engine.resumed''"
| "event_type_value DEPLOYMENT_CREATED = ''deployment.created''"
| "event_type_value DEPLOYMENT_DELETED = ''deployment.deleted''"
| "event_type_value PROCESS_INSTANCE_STARTED = ''process.instance.started''"
| "event_type_value PROCESS_INSTANCE_COMPLETED = ''process.instance.completed''"
| "event_type_value PROCESS_INSTANCE_TERMINATED = ''process.instance.terminated''"
| "event_type_value PROCESS_INSTANCE_SUSPENDED = ''process.instance.suspended''"
| "event_type_value PROCESS_INSTANCE_RESUMED = ''process.instance.resumed''"
| "event_type_value ACTIVITY_STARTED = ''activity.started''"
| "event_type_value ACTIVITY_COMPLETED = ''activity.completed''"
| "event_type_value ACTIVITY_FAILED = ''activity.failed''"
| "event_type_value ACTIVITY_CANCELLED = ''activity.cancelled''"
| "event_type_value TASK_CREATED = ''task.created''"
| "event_type_value TASK_ASSIGNED = ''task.assigned''"
| "event_type_value TASK_COMPLETED = ''task.completed''"
| "event_type_value MESSAGE_RECEIVED = ''message.received''"
| "event_type_value MESSAGE_SENT = ''message.sent''"
| "event_type_value MESSAGE_CORRELATED = ''message.correlated''"
| "event_type_value SIGNAL_THROWN = ''signal.thrown''"
| "event_type_value SIGNAL_CAUGHT = ''signal.caught''"
| "event_type_value TIMER_FIRED = ''timer.fired''"
| "event_type_value TIMER_CANCELLED = ''timer.cancelled''"
| "event_type_value ERROR_THROWN = ''error.thrown''"
| "event_type_value ERROR_CAUGHT = ''error.caught''"
| "event_type_value COMPENSATION_TRIGGERED = ''compensation.triggered''"
| "event_type_value COMPENSATION_COMPLETED = ''compensation.completed''"
| "event_type_value JOB_CREATED = ''job.created''"
| "event_type_value JOB_EXECUTED = ''job.executed''"
| "event_type_value JOB_FAILED = ''job.failed''"
| "event_type_value INCIDENT_CREATED = ''incident.created''"
| "event_type_value INCIDENT_RESOLVED = ''incident.resolved''"
| "event_type_value METRICS_COLLECTED = ''metrics.collected''"
| "event_type_value CUSTOM = ''custom''"

definition event_types :: "EventType list" where
  "event_types =
     [ENGINE_STARTED, ENGINE_STOPPED, ENGINE_PAUSED, ENGINE_RESUMED, DEPLOYMENT_CREATED,
      DEPLOYMENT_DELETED, PROCESS_INSTANCE_STARTED, PROCESS_INSTANCE_COMPLETED, PROCESS_INSTANCE_TERMINATED, PROCESS_INSTANCE_SUSPENDED,
      PROCESS_INSTANCE_RESUMED, ACTIVITY_STARTED, ACTIVITY_COMPLETED, ACTIVITY_FAILED, ACTIVITY_CANCELLED,
      TASK_CREATED, TASK_ASSIGNED, TASK_COMPLETED, MESSAGE_RECEIVED, MESSAGE_SENT,
      MESSAGE_CORRELATED, SIGNAL_THROWN, SIGNAL_CAUGHT, TIMER_FIRED, TIMER_CANCELLED,
      ERROR_THROWN, ERROR_CAUGHT, COMPENSATION_TRIGGERED, COMPENSATION_COMPLETED, JOB_CREATED,
      JOB_EXECUTED, JOB_FAILED, INCIDENT_CREATED, INCIDENT_RESOLVED, METRICS_COLLECTED,
      CUSTOM]"

definition event_type_of :: "string \<Rightarrow> EventType result" where
  "event_type_of s = enum_of event_type_value event_types s"

datatype EventPriority = LOW | NORMAL | HIGH | CRITICAL

fun event_priority_value :: "EventPriority \<Rightarrow> int" where
  "event_priority_value LOW = 1"
| "event_priority_value NORMAL = 2"
| "event_priority_value HIGH = 3"
| "event_priority_value CRITICAL = 4"

definition event_priority_of :: "int \<Rightarrow> EventPriority option" where
  "event_priority_of n = List.find (\<lambda>p. event_priority_value p = n) [LOW, NORMAL, HIGH, CRITICAL]"

record Event =
  ev_type :: EventType
  ev_data :: pydict
  ev_event_id :: string
  ev_timestamp :: datetime
  ev_priority :: EventPriority
  ev_source :: "string option"
  ev_correlation_id :: "string option"
  ev_metadata :: pydict

definition event_to_dict :: "Event \<Rightarrow> pydict" where
  "event_to_dict e =
     [(''event_id'', PStr (ev_event_id e)),
      (''type'', PStr (event_type_value (ev_type e))),
      (''data'', PDict (ev_data e)),
      (''timestamp'', PStr (isoformat (ev_timestamp e))),
      (''priority'', PInt (event_priority_value (ev_priority e))),
      (''source'', opt_str (ev_source e)),
      (''correlation_id'', opt_str (ev_correlation_id e)),
      (''metadata'', PDict (ev_metadata e))]"

definition event_to_record :: "Event \<Rightarrow> pydict" where
  "event_to_record e =
     [(''event_id'', PStr (ev_event_id e)),
      (''instance_id'', pget (ev_data e) ''instance_id''),
      (''event_type'', PStr (event_type_value (ev_type e))),
      (''type'', PStr (event_type_value (ev_type e))),
      (''correlation_id'', opt_str (ev_correlation_id e)),
      (''created_at'', PStr (isoformat (ev_timestamp e))),
      (''recorded_at'', PStr (isoformat (ev_timestamp e))),
      (''payload'', PDict
        [(''data'', PDict (ev_data e)),
         (''priority'', PInt (event_priority_value (ev_priority e))),
         (''source'', opt_str (ev_source e)),
         (''metadata'', PDict (ev_metadata e))])]"

text \<open>\<open>EventPriority(int(raw))\<close> with \<open>TypeError\<close> and \<open>ValueError\<close> caught\<close>

definition read_priority :: "pyval \<Rightarrow> EventPriority result" where
  "read_priority v =
     (case py_int v of
        Inr n \<Rightarrow> Inr (case event_priority_of n of Some p \<Rightarrow> p | None \<Rightarrow> NORMAL)
      | Inl (Unmodelled s) \<Rightarrow> Inl (Unmodelled s)
      | Inl _ \<Rightarrow> Inr NORMAL)"

definition event_from_record :: "datetime \<Rightarrow> string \<Rightarrow> pydict \<Rightarrow> Event result" where
  "event_from_record now uuid p =
     (let n = as_dict (pget p ''payload'') in
     bindr (py_str (por (por (pget p ''event_type'') (pget p ''type'')) (PStr (event_type_value CUSTOM)))) (\<lambda>raw.
     let ty = (case event_type_of raw of Inr t \<Rightarrow> t | Inl _ \<Rightarrow> CUSTOM) in
     bindr (read_priority (pget_or n ''priority'' (PInt (event_priority_value NORMAL)))) (\<lambda>prio.
     bindr (py_dict (por (por (pget n ''data'') (pget p ''data'')) (PDict []))) (\<lambda>data.
     bindr (py_str (pget_or p ''event_id'' (PStr uuid))) (\<lambda>eid.
     bindr (parse_datetime now (por (pget p ''recorded_at'') (pget p ''created_at''))) (\<lambda>ts.
     bindr (optional_str (por (pget n ''source'') (pget p ''source''))) (\<lambda>source.
     bindr (optional_str (pget p ''correlation_id'')) (\<lambda>cid.
     bindr (py_dict (por (por (pget n ''metadata'') (pget p ''metadata'')) (PDict []))) (\<lambda>meta.
     Inr \<lparr>ev_type = ty, ev_data = data, ev_event_id = eid, ev_timestamp = ts, ev_priority = prio,
          ev_source = source, ev_correlation_id = cid, ev_metadata = meta\<rparr>)))))))))"

definition set_osdm_metadata ::
  "string option \<Rightarrow> string option \<Rightarrow> string option \<Rightarrow> Event \<Rightarrow> Event" where
  "set_osdm_metadata listener def_type operator e =
     (let put = (\<lambda>k v m. case v of None \<Rightarrow> m | Some s \<Rightarrow> dset k (PStr s) m)
      in e\<lparr>ev_metadata := put ''osdm_cep_operator'' operator
             (put ''osdm_event_definition_type'' def_type
               (put ''osdm_listener_type'' listener (ev_metadata e)))\<rparr>)"

record Subscription =
  sub_subscription_id :: string
  sub_event_types :: "EventType list"
  sub_filter_func :: "(Event \<Rightarrow> bool result) option"
  sub_is_async :: bool
  sub_priority :: int
  sub_created_at :: datetime
  sub_metadata :: pydict

record EventBus =
  eb_max_history_size :: int
  eb_subscriptions :: "(string, Subscription) dict"
  eb_type_subscriptions :: "(EventType, string) index"
  eb_event_queue :: "Event list"
  eb_event_history :: "Event list"
  eb_published_count :: nat
  eb_processed_count :: nat
  eb_failed_count :: nat
  eb_event_repository :: "repo option"
  eb_is_running :: bool
  eb_calls :: "(string \<times> Event) list"

definition event_bus_init :: "int \<Rightarrow> repo option \<Rightarrow> EventBus" where
  "event_bus_init n rep =
     \<lparr>eb_max_history_size = n, eb_subscriptions = [], eb_type_subscriptions = [], eb_event_queue = [],
      eb_event_history = [], eb_published_count = 0, eb_processed_count = 0, eb_failed_count = 0,
      eb_event_repository = rep, eb_is_running = False, eb_calls = []\<rparr>"

definition bus_start :: "EventBus \<Rightarrow> EventBus" where
  "bus_start b = (if eb_is_running b then b else b\<lparr>eb_is_running := True\<rparr>)"

definition bus_stop :: "EventBus \<Rightarrow> EventBus" where
  "bus_stop b = (if \<not> eb_is_running b then b else b\<lparr>eb_is_running := False\<rparr>)"

definition file_subscription :: "string \<Rightarrow> Subscription \<Rightarrow> EventBus \<Rightarrow> EventBus" where
  "file_subscription sid s b =
     b\<lparr>eb_subscriptions := dset sid s (eb_subscriptions b),
       eb_type_subscriptions := fold (\<lambda>t ix. idx_add t sid ix) (sub_event_types s) (eb_type_subscriptions b)\<rparr>"

definition subscribe ::
  "datetime \<Rightarrow> string \<Rightarrow> EventType list \<Rightarrow> (Event \<Rightarrow> bool result) option \<Rightarrow> bool \<Rightarrow> int \<Rightarrow> string option
    \<Rightarrow> EventBus \<Rightarrow> string \<times> EventBus" where
  "subscribe now uuid types flt is_async prio sid_opt b =
     (let sid = (case sid_opt of None \<Rightarrow> uuid | Some s \<Rightarrow> s);
          s = \<lparr>sub_subscription_id = sid, sub_event_types = remdups types, sub_filter_func = flt,
               sub_is_async = is_async, sub_priority = prio, sub_created_at = now, sub_metadata = []\<rparr>
      in (sid, file_subscription sid s b))"

definition unsubscribe :: "string \<Rightarrow> EventBus \<Rightarrow> bool \<times> EventBus" where
  "unsubscribe sid b =
     (case dget (eb_subscriptions b) sid of
        None \<Rightarrow> (False, b)
      | Some s \<Rightarrow>
          (True, b\<lparr>eb_subscriptions := ddel sid (eb_subscriptions b),
                   eb_type_subscriptions :=
                     fold (\<lambda>t ix. idx_discard_default t sid ix) (sub_event_types s) (eb_type_subscriptions b)\<rparr>))"

definition append_history :: "Event \<Rightarrow> EventBus \<Rightarrow> EventBus" where
  "append_history e b = b\<lparr>eb_event_history := push_bounded (eb_max_history_size b) e (eb_event_history b)\<rparr>"

definition persist_event :: "datetime \<Rightarrow> string \<Rightarrow> Event \<Rightarrow> EventBus \<Rightarrow> EventBus outcome" where
  "persist_event now uuid e b =
     (case eb_event_repository b of
        None \<Rightarrow> (None, b)
      | Some r \<Rightarrow>
          (case event_append_persisted now now uuid (event_to_record e) r of
             Inl err \<Rightarrow> (Some err, b)
           | Inr (p, r') \<Rightarrow> (None, b\<lparr>eb_event_repository := Some r'\<rparr>)))"

text \<open>
  Whether a subscription's handler is called: it has no filter, or the filter returns true; a
  filter that raises is logged and skipped, as is a handler that raises.
\<close>

definition accepts :: "Event \<Rightarrow> Subscription \<Rightarrow> bool" where
  "accepts e s = (case sub_filter_func s of None \<Rightarrow> True | Some f \<Rightarrow> f e = Inr True)"

definition subscribers :: "EventType \<Rightarrow> EventBus \<Rightarrow> Subscription list" where
  "subscribers ty b =
     sort_key (\<lambda>s. - sub_priority s) (select (eb_subscriptions b) (idx_get (eb_type_subscriptions b) ty))"

definition handle_event :: "Event \<Rightarrow> EventBus \<Rightarrow> EventBus" where
  "handle_event e b =
     b\<lparr>eb_calls := eb_calls b @
         map (\<lambda>s. (sub_subscription_id s, e)) (filter (accepts e) (subscribers (ev_type e) b))\<rparr>"

definition publish :: "datetime \<Rightarrow> string \<Rightarrow> Event \<Rightarrow> EventBus \<Rightarrow> EventBus outcome" where
  "publish now uuid e b =
     (case persist_event now uuid e (append_history e (b\<lparr>eb_published_count := eb_published_count b + 1\<rparr>)) of
        (Some err, b1) \<Rightarrow> (Some err, b1)
      | (None, b1) \<Rightarrow> (None, b1\<lparr>eb_event_queue := eb_event_queue b1 @ [e]\<rparr>))"

definition publish_sync :: "datetime \<Rightarrow> string \<Rightarrow> Event \<Rightarrow> EventBus \<Rightarrow> EventBus outcome" where
  "publish_sync now uuid e b =
     (case persist_event now uuid e (append_history e (b\<lparr>eb_published_count := eb_published_count b + 1\<rparr>)) of
        (Some err, b1) \<Rightarrow> (Some err, b1)
      | (None, b1) \<Rightarrow> (None, handle_event e b1))"

definition process_next :: "EventBus \<Rightarrow> EventBus" where
  "process_next b =
     (if \<not> eb_is_running b then b
      else case eb_event_queue b of
             [] \<Rightarrow> b
           | e # es \<Rightarrow> (let b1 = handle_event e (b\<lparr>eb_event_queue := es\<rparr>)
                       in b1\<lparr>eb_processed_count := eb_processed_count b1 + 1\<rparr>))"

definition get_event_history :: "EventType option \<Rightarrow> int \<Rightarrow> EventBus \<Rightarrow> Event list" where
  "get_event_history ty limit b =
     slice_last limit (case ty of None \<Rightarrow> eb_event_history b
                       | Some t \<Rightarrow> filter (\<lambda>e. ev_type e = t) (eb_event_history b))"

definition clear_history :: "EventBus \<Rightarrow> EventBus" where
  "clear_history b = b\<lparr>eb_event_history := []\<rparr>"

definition reload_history :: "datetime \<Rightarrow> string \<Rightarrow> int \<Rightarrow> EventBus \<Rightarrow> Event list result \<times> EventBus" where
  "reload_history now uuid limit b =
     (case eb_event_repository b of
        None \<Rightarrow> (Inr (get_event_history None limit b), b)
      | Some r \<Rightarrow>
          (case mapr (event_from_record now uuid) (slice_last limit (repo_list None r)) of
             Inl e \<Rightarrow> (Inl e, b)
           | Inr es \<Rightarrow> (Inr es, b\<lparr>eb_event_history := es\<rparr>)))"

definition replay_events ::
  "datetime \<Rightarrow> string \<Rightarrow> EventType option \<Rightarrow> string option \<Rightarrow> int \<Rightarrow> bool \<Rightarrow> EventBus
    \<Rightarrow> Event list result \<times> EventBus" where
  "replay_events now uuid ty cid limit again b =
     (let evs =
        (case eb_event_repository b of
           None \<Rightarrow> Inr (get_event_history ty limit b)
         | Some r \<Rightarrow>
             (let rows1 = (case ty of None \<Rightarrow> repo_list None r
                           | Some t \<Rightarrow> filter (\<lambda>row. pget row ''event_type'' = PStr (event_type_value t) \<or>
                                                     pget row ''type'' = PStr (event_type_value t)) (repo_list None r));
                  rows2 = (case cid of None \<Rightarrow> rows1
                           | Some c \<Rightarrow> filter (\<lambda>row. pget row ''correlation_id'' = PStr c) rows1)
              in mapr (event_from_record now uuid) (slice_last limit rows2)))
      in case evs of
           Inl e \<Rightarrow> (Inl e, b)
         | Inr es \<Rightarrow> (Inr es, if again then fold handle_event es b else b))"

record bus_statistics =
  bs_published :: nat
  bs_processed :: nat
  bs_failed :: nat
  bs_queue_size :: nat
  bs_history_size :: nat
  bs_subscriptions :: nat
  bs_types :: "(string, nat) dict"

definition bus_get_statistics :: "EventBus \<Rightarrow> bus_statistics" where
  "bus_get_statistics b =
     \<lparr>bs_published = eb_published_count b, bs_processed = eb_processed_count b, bs_failed = eb_failed_count b,
      bs_queue_size = length (eb_event_queue b), bs_history_size = length (eb_event_history b),
      bs_subscriptions = length (eb_subscriptions b),
      bs_types = tally (map (event_type_value \<circ> ev_type) (eb_event_history b))\<rparr>"

definition get_subscriptions :: "EventType option \<Rightarrow> EventBus \<Rightarrow> Subscription list" where
  "get_subscriptions ty b =
     (case ty of
        None \<Rightarrow> dvals (eb_subscriptions b)
      | Some t \<Rightarrow> select (eb_subscriptions b) (idx_get (eb_type_subscriptions b) t))"

subsection \<open>The record format\<close>

lemma event_type_of_value [simp]: "event_type_of (event_type_value t) = Inr t"
  by (cases t) (simp_all add: event_type_of_def event_types_def enum_of_def)

lemma read_priority_value [simp]: "read_priority (PInt (event_priority_value p)) = Inr p"
  by (cases p) (simp_all add: read_priority_def event_priority_of_def)

lemma event_type_value_nonempty: "event_type_value t \<noteq> []"
  by (cases t) simp_all

lemma pget_append: "pget (p @ ext) k = (case dget p k of Some v \<Rightarrow> v | None \<Rightarrow> pget ext k)"
  by (simp add: pget_def dget_or_def map_add_def split: option.splits)

lemma pget_admin:
  assumes "fst ` set ext \<subseteq> admin_keys" "k \<notin> admin_keys"
  shows "pget ext k = PNone"
proof -
  have "dget ext k = None" using assms by (auto simp: map_of_eq_None_iff)
  then show ?thesis by (simp add: pget_def dget_or_def)
qed

lemma event_record_roundtrip_ext:
  assumes "valid_datetime (ev_timestamp e)" and "ev_source e \<noteq> Some []" and "fst ` set ext \<subseteq> admin_keys"
  shows "event_from_record now uuid (event_to_record e @ ext) = Inr e"
proof -
  have none: "pget ext ''data'' = PNone" "pget ext ''source'' = PNone" "pget ext ''metadata'' = PNone"
    using pget_admin [OF assms(3)] by (simp_all add: admin_keys_def)
  have src: "optional_str (por (opt_str (ev_source e)) PNone) = Inr (ev_source e)"
    using assms(2) by (cases "ev_source e") (auto simp: opt_str_def por_def optional_str_def)
  have dct: "py_dict (por (por (PDict d) PNone) (PDict [])) = Inr d" for d by (simp add: por_def)
  have iso: "por (PStr (isoformat t)) v = PStr (isoformat t)" for t v
    by (simp add: por_def isoformat_def Let_def split: prod.splits)
  show ?thesis
    unfolding event_from_record_def event_to_record_def
    using assms(1)
    by (simp add: payload_simps as_dict_def none src dct iso por_def [of "PStr (event_type_value t)" for t] event_type_value_nonempty)
qed

subsection \<open>Subscriptions and delivery\<close>

interpretation by_type:
  identified_store eb_subscriptions eb_type_subscriptions sub_event_types file_subscription "\<lambda>i b. snd (unsubscribe i b)"
    sub_subscription_id
  by unfold_locales
     (auto simp: fun_eq_iff file_subscription_def unsubscribe_def dict_simps split: option.splits)

definition eb_inv :: "EventBus \<Rightarrow> bool" where
  "eb_inv b \<longleftrightarrow> store_ok sub_subscription_id sub_event_types (eb_subscriptions b) (eb_type_subscriptions b)"

lemma eb_inv_cong:
  assumes "eb_subscriptions b' = eb_subscriptions b" "eb_type_subscriptions b' = eb_type_subscriptions b"
  shows "eb_inv b' = eb_inv b"
  by (simp add: eb_inv_def assms)

lemma bus_frame [simp, frame_simps]:
  "eb_subscriptions (append_history e b) = eb_subscriptions b"
  "eb_type_subscriptions (append_history e b) = eb_type_subscriptions b"
  "eb_subscriptions (handle_event e b) = eb_subscriptions b"
  "eb_type_subscriptions (handle_event e b) = eb_type_subscriptions b"
  "eb_subscriptions (snd (persist_event now uuid e b)) = eb_subscriptions b"
  "eb_type_subscriptions (snd (persist_event now uuid e b)) = eb_type_subscriptions b"
  "eb_subscriptions (process_next b) = eb_subscriptions b"
  "eb_type_subscriptions (process_next b) = eb_type_subscriptions b"
  by (simp_all add: append_history_def handle_event_def persist_event_def process_next_def Let_def
      split: option.splits sum.splits prod.splits list.splits)

lemma publish_frame [simp, frame_simps]:
  "eb_subscriptions (snd (publish now uuid e b)) = eb_subscriptions b"
  "eb_type_subscriptions (snd (publish now uuid e b)) = eb_type_subscriptions b"
proof -
  let ?b = "append_history e (b\<lparr>eb_published_count := eb_published_count b + 1\<rparr>)"
  obtain err b1 where p: "persist_event now uuid e ?b = (err, b1)" by fastforce
  have "eb_subscriptions b1 = eb_subscriptions b" "eb_type_subscriptions b1 = eb_type_subscriptions b"
    using bus_frame(5,6) [of now uuid e ?b] unfolding p by simp_all
  then show "eb_subscriptions (snd (publish now uuid e b)) = eb_subscriptions b"
    "eb_type_subscriptions (snd (publish now uuid e b)) = eb_type_subscriptions b"
    unfolding publish_def p by (simp_all split: option.splits)
qed

inductive eb_reach :: "EventBus \<Rightarrow> bool" where
  init: "eb_reach (event_bus_init n rep)"
| subscribe: "eb_reach b \<Longrightarrow> dget (eb_subscriptions b) (case sid of None \<Rightarrow> uuid | Some s \<Rightarrow> s) = None \<Longrightarrow>
    eb_reach (snd (subscribe now uuid types flt as prio sid b))"
| unsubscribe: "eb_reach b \<Longrightarrow> eb_reach (snd (unsubscribe sid b))"
| start: "eb_reach b \<Longrightarrow> eb_reach (bus_start b)"
| stop: "eb_reach b \<Longrightarrow> eb_reach (bus_stop b)"
| publish: "eb_reach b \<Longrightarrow> eb_reach (snd (publish now uuid e b))"
| handle: "eb_reach b \<Longrightarrow> eb_reach (handle_event e b)"
| step: "eb_reach b \<Longrightarrow> eb_reach (process_next b)"
| clear: "eb_reach b \<Longrightarrow> eb_reach (clear_history b)"

lemma eb_reach_inv: "eb_reach b \<Longrightarrow> eb_inv b"
proof (induction rule: eb_reach.induct)
  case (init n rep)
  then show ?case by (simp add: event_bus_init_def eb_inv_def)
next
  case (subscribe b sid uuid now types flt as prio)
  then show ?case by (simp add: subscribe_def Let_def eb_inv_def by_type.put_ok)
next
  case (unsubscribe b sid)
  then show ?case by (simp add: eb_inv_def by_type.drop_ok)
qed (simp_all add: eb_inv_def bus_start_def bus_stop_def clear_history_def)

text \<open>The handler calls that the delivery of one event makes.\<close>

definition deliveries :: "Event \<Rightarrow> EventBus \<Rightarrow> (string \<times> Event) list" where
  "deliveries e b = map (\<lambda>s. (sub_subscription_id s, e)) (filter (accepts e) (subscribers (ev_type e) b))"

lemma handle_event_calls: "eb_calls (handle_event e b) = eb_calls b @ deliveries e b"
  by (simp add: handle_event_def deliveries_def)

lemma deliveries_cong:
  assumes "eb_subscriptions b' = eb_subscriptions b" "eb_type_subscriptions b' = eb_type_subscriptions b"
  shows "deliveries e b' = deliveries e b"
  by (simp add: deliveries_def subscribers_def assms)

lemma subscribers_set:
  assumes "eb_inv b"
  shows "s \<in> set (subscribers ty b) \<longleftrightarrow>
    dget (eb_subscriptions b) (sub_subscription_id s) = Some s \<and> ty \<in> set (sub_event_types s)"
  using store_ok_select(2) [OF assms [unfolded eb_inv_def], of ty] by (simp add: subscribers_def)

lemma subscribers_distinct:
  assumes "eb_inv b"
  shows "distinct (map sub_subscription_id (subscribers ty b))"
proof -
  let ?subs = "select (eb_subscriptions b) (idx_get (eb_type_subscriptions b) ty)"
  note ok = assms [unfolded eb_inv_def]
  have "distinct (map sub_subscription_id ?subs)"
    unfolding store_ok_select(1) [OF ok] by (rule index_consistentD(1) [OF store_okD(3) [OF ok]])
  moreover have "mset (map sub_subscription_id (subscribers ty b)) = mset (map sub_subscription_id ?subs)"
    by (simp add: subscribers_def)
  ultimately show ?thesis by (metis mset_eq_imp_distinct_iff)
qed

subsection \<open>Properties\<close>


definition demo_event :: Event where
  "demo_event = \<lparr>ev_type = TIMER_FIRED, ev_data = [], ev_event_id = ''e1'', ev_timestamp = 0, ev_priority = HIGH,
     ev_source = None, ev_correlation_id = Some ''c'', ev_metadata = []\<rparr>"


lemma publish_no_repo:
  assumes "eb_event_repository b = None"
  shows "eb_event_queue (snd (publish now uuid e b)) = eb_event_queue b @ [e]"
    "eb_calls (snd (publish now uuid e b)) = eb_calls b"
    "eb_is_running (snd (publish now uuid e b)) = eb_is_running b"
    "eb_event_repository (snd (publish now uuid e b)) = None"
    "eb_max_history_size (snd (publish now uuid e b)) = eb_max_history_size b"
    "eb_event_history (snd (publish now uuid e b)) = push_bounded (eb_max_history_size b) e (eb_event_history b)"
    "eb_published_count (snd (publish now uuid e b)) = eb_published_count b + 1"
  using assms by (simp_all add: publish_def persist_event_def append_history_def)

lemma publish_all_no_repo:
  assumes "eb_event_repository b = None"
  shows "let b' = fold (\<lambda>e b. snd (publish now uuid e b)) es b
    in eb_event_queue b' = eb_event_queue b @ es \<and> eb_calls b' = eb_calls b \<and> eb_is_running b' = eb_is_running b \<and>
       eb_subscriptions b' = eb_subscriptions b \<and> eb_type_subscriptions b' = eb_type_subscriptions b \<and>
       eb_published_count b' = eb_published_count b + length es"
  using assms
proof (induction es arbitrary: b)
  case (Cons e es)
  from Cons.IH [of "snd (publish now uuid e b)"] publish_no_repo [OF Cons.prems, of now uuid e]
  show ?case by (simp add: Let_def)
qed simp

lemma drain_queue:
  assumes "eb_is_running b" and "eb_event_queue b = es"
  shows "let b' = (process_next ^^ length es) b
    in eb_event_queue b' = [] \<and> eb_calls b' = eb_calls b @ concat (map (\<lambda>e. deliveries e b) es) \<and>
       eb_processed_count b' = eb_processed_count b + length es"
  using assms
proof (induction es arbitrary: b)
  case (Cons e es)
  let ?b = "process_next b"
  have b: "eb_is_running ?b" "eb_event_queue ?b = es" "eb_processed_count ?b = eb_processed_count b + 1"
    "eb_calls ?b = eb_calls b @ deliveries e b"
    using Cons.prems
    by (simp_all add: process_next_def Let_def handle_event_def deliveries_def subscribers_def)
  have "deliveries x ?b = deliveries x b" for x by (rule deliveries_cong) simp_all
  with Cons.IH [OF b(1,2)] b(3,4) show ?case by (simp add: Let_def funpow_swap1)
qed simp



lemma history_window:
  assumes "eb_event_repository b = None" and "0 \<le> eb_max_history_size b"
    and "eb_event_history b = drop (length hs - nat (eb_max_history_size b)) hs"
  shows "eb_event_history (fold (\<lambda>e b. snd (publish now uuid e b)) es b) =
    drop (length (hs @ es) - nat (eb_max_history_size b)) (hs @ es)"
  using assms
proof (induction es arbitrary: b hs)
  case (Cons e es)
  let ?n = "nat (eb_max_history_size b)" and ?b = "snd (publish now uuid e b)"
  have "int (length (eb_event_history b)) \<le> eb_max_history_size b" using Cons.prems(2,3) by simp
  then have "eb_event_history ?b = drop (Suc (length (eb_event_history b)) - ?n) (eb_event_history b @ [e])"
    unfolding publish_no_repo [OF Cons.prems(1)] using Cons.prems(2) by (intro push_bounded_suffix)
  also have "\<dots> = drop (length (hs @ [e]) - ?n) (hs @ [e])"
    by (cases "length hs \<le> ?n") (auto simp: Cons.prems(3) Suc_diff_le)
  finally have h: "eb_event_history ?b = drop (length (hs @ [e]) - nat (eb_max_history_size ?b)) (hs @ [e])"
    using publish_no_repo(5) [OF Cons.prems(1)] by simp
  have m: "eb_max_history_size ?b = eb_max_history_size b" "eb_event_repository ?b = None"
    using publish_no_repo [OF Cons.prems(1)] by simp_all
  from Cons.IH [of ?b "hs @ [e]"] h m Cons.prems(2) show ?case by simp
qed simp

text \<open>
  The history is a window: after publishing any sequence of events on a fresh bus it holds
  exactly the last \<open>max_history_size\<close> of them, in order.
\<close>

theorem history_is_last_events:
  assumes "0 \<le> n"
  shows "eb_event_history (fold (\<lambda>e b. snd (publish now uuid e b)) es (event_bus_init n None)) =
    drop (length es - nat n) es"
  using history_window [of "event_bus_init n None" "[]" now uuid es] assms by (simp add: event_bus_init_def)

theorem history_is_last_events_witness:
  "eb_event_history (fold (\<lambda>e b. snd (publish 0 ''u'' e b))
      [demo_event, demo_event\<lparr>ev_event_id := ''e2''\<rparr>] (event_bus_init 1 None)) = [demo_event\<lparr>ev_event_id := ''e2''\<rparr>]"
  using history_is_last_events [of 1 0 "''u''" "[demo_event, demo_event\<lparr>ev_event_id := ''e2''\<rparr>]"] by simp

text \<open>
  Subscribing again under the id of an existing subscription leaves the old event types in
  the index: the new handler is also called for events of a type it did not subscribe to.
\<close>

theorem resubscribe_keeps_old_types:
  assumes "t1 \<noteq> t2" and "ev_type e = t1"
  shows "let b = snd (subscribe now uuid [t2] None as prio (Some sid)
               (snd (subscribe now uuid [t1] None as prio (Some sid) (event_bus_init n None))))
         in map sub_event_types (dvals (eb_subscriptions b)) = [[t2]] \<and>
            eb_calls (handle_event e b) = [(sid, e)]"
  using assms
  by (simp add: subscribe_def file_subscription_def event_bus_init_def handle_event_def subscribers_def accepts_def
      Let_def idx_add_def idx_get_def dget_or_def sadd_def)

theorem resubscribe_keeps_old_types_witness:
  "eb_calls (handle_event demo_event (snd (subscribe 0 ''u'' [JOB_FAILED] None True 0 (Some ''s'')
     (snd (subscribe 0 ''u'' [TIMER_FIRED] None True 0 (Some ''s'') (event_bus_init 10 None)))))) = [(''s'', demo_event)]"
  using resubscribe_keeps_old_types [of TIMER_FIRED JOB_FAILED demo_event 0 "''u''" True 0 "''s''" 10]
  by (simp add: demo_event_def Let_def)

text \<open>
  A published event is persisted under its id and read back unchanged, unless its source is
  the empty text.
\<close>

theorem event_persist_roundtrip:
  assumes "ev_event_id e \<noteq> []" and "valid_datetime (ev_timestamp e)" and "ev_source e \<noteq> Some []"
    and "eb_event_repository b = Some r"
  shows "\<exists>r'. fst (publish now uuid e b) = None \<and> eb_event_repository (snd (publish now uuid e b)) = Some r' \<and>
    map_option (event_from_record now' uuid') (get_persisted (ev_event_id e) r') = Some (Inr e)"
proof -
  let ?p = "event_to_record e"
  have "setdefault ''recorded_at'' v ?p = ?p" "setdefault ''event_type'' v ?p = ?p" for v
    by (simp_all add: setdefault_def has_key_def event_to_record_def)
  then have app: "event_append_persisted now now uuid ?p q =
      Inr (save_persisted now uuid ''event'' (ev_event_id e) ?p q)" for q
    using assms(1) by (simp add: event_append_persisted_def Let_def) (simp add: event_to_record_def pget_simps)
  let ?r = "snd (save_persisted now uuid ''event'' (ev_event_id e) ?p r)"
  have "map_option (event_from_record now' uuid') (get_persisted (ev_event_id e) ?r) = Some (Inr e)"
    using event_record_roundtrip_ext [OF assms(2,3)] by (rule persistent_repo.read_back)
  moreover have "fst (publish now uuid e b) = None" "eb_event_repository (snd (publish now uuid e b)) = Some ?r"
    using assms(4)
    by (simp_all add: publish_def persist_event_def append_history_def app split: prod.splits)
  ultimately show ?thesis by blast
qed

theorem event_persist_roundtrip_witness:
  "\<exists>r'. eb_event_repository (snd (publish 0 ''u'' demo_event (event_bus_init 10 (Some [])))) = Some r' \<and>
     map_option (event_from_record 7 ''w'') (get_persisted ''e1'' r') = Some (Inr demo_event)"
proof -
  have "ev_event_id demo_event \<noteq> []" "valid_datetime (ev_timestamp demo_event)" "ev_source demo_event \<noteq> Some []"
    "eb_event_repository (event_bus_init 10 (Some [])) = Some []"
    by (simp_all add: demo_event_def event_bus_init_def valid_datetime_def max_datetime_def days_before_year_def us_per_day_def)
  from event_persist_roundtrip [OF this, of 0 "''u''" 7 "''w''"] show ?thesis by (simp add: demo_event_def)
qed

end
