(* ===== verification/Heapq.thy ===== *)
theory Heapq
  imports Prelude
begin

section \<open>Binary heaps in a list\<close>

text \<open>
  The functions \<open>heappush\<close> and \<open>heappop\<close> of Python's \<open>heapq\<close>, which \<open>core/scheduler.py\<close> keeps its
  tasks with.  As there, the heap is a plain list whose element at \<open>i\<close> has its children at
  \<open>2 * i + 1\<close> and \<open>2 * i + 2\<close>, elements are compared with \<open>__lt__\<close> only (here: the strict order of
  a key), pushing moves the new element up from the end, and popping moves the hole at the root
  down to a leaf, puts the last element there and moves it up again.
\<close>

definition parent :: "nat \<Rightarrow> nat" where
  "parent i = (i - 1) div 2"

lemma parent_less: "0 < i \<Longrightarrow> parent i < i"
  by (simp add: parent_def)

lemma parent_le: "parent i \<le> i"
  by (simp add: parent_def)

lemma parent_eq_iff: "parent i = j \<and> 0 < i \<longleftrightarrow> i = 2 * j + 1 \<or> i = 2 * j + 2"
  unfolding parent_def by presburger

text \<open>\<open>_siftdown(heap, 0, pos)\<close>: the element \<open>x\<close> is moved up from \<open>pos\<close> to its place.\<close>

function siftdown :: "('a \<Rightarrow> 'b::linorder) \<Rightarrow> 'a \<Rightarrow> 'a list \<Rightarrow> nat \<Rightarrow> 'a list" where
  "siftdown k x h pos =
     (if 0 < pos
      then if k x < k (h ! parent pos) then siftdown k x (h[pos := h ! parent pos]) (parent pos)
           else h[pos := x]
      else h[pos := x])"
  by pat_completeness auto
termination by (relation "measure (\<lambda>(k, x, h, pos). pos)") (auto simp: parent_less)

declare siftdown.simps [simp del]

text \<open>The loop of \<open>_siftup\<close>: the hole at \<open>pos\<close> is moved down, the smaller child up, to a leaf.\<close>

definition smaller_child :: "('a \<Rightarrow> 'b::linorder) \<Rightarrow> 'a list \<Rightarrow> nat \<Rightarrow> nat" where
  "smaller_child k h pos =
     (let c = 2 * pos + 1
      in if c + 1 < length h \<and> \<not> k (h ! c) < k (h ! (c + 1)) then c + 1 else c)"

function sink_hole :: "('a \<Rightarrow> 'b::linorder) \<Rightarrow> 'a list \<Rightarrow> nat \<Rightarrow> 'a list \<times> nat" where
  "sink_hole k h pos =
     (if 2 * pos + 1 < length h
      then sink_hole k (h[pos := h ! smaller_child k h pos]) (smaller_child k h pos)
      else (h, pos))"
  by pat_completeness auto
termination
  by (relation "measure (\<lambda>(k, h, pos). length h - pos)") (auto simp: smaller_child_def Let_def)

declare sink_hole.simps [simp del]

definition siftup :: "('a \<Rightarrow> 'b::linorder) \<Rightarrow> 'a list \<Rightarrow> 'a list" where
  "siftup k h = (case sink_hole k h 0 of (h', pos) \<Rightarrow> siftdown k (h ! 0) h' pos)"

definition heap_push :: "('a \<Rightarrow> 'b::linorder) \<Rightarrow> 'a \<Rightarrow> 'a list \<Rightarrow> 'a list" where
  "heap_push k x h = siftdown k x (h @ [x]) (length h)"

text \<open>\<open>heappop\<close> of a heap that is not empty (Python raises \<open>IndexError\<close> on an empty one).\<close>

definition heap_pop :: "('a \<Rightarrow> 'b::linorder) \<Rightarrow> 'a list \<Rightarrow> ('a \<times> 'a list) option" where
  "heap_pop k h =
     (if h = [] then None
      else if butlast h = [] then Some (last h, [])
      else Some (butlast h ! 0, siftup k ((butlast h)[0 := last h])))"

lemma length_siftdown [simp]: "length (siftdown k x h pos) = length h"
  by (induction k x h pos rule: siftdown.induct) (subst siftdown.simps, simp)

lemma length_sink_hole [simp]: "length (fst (sink_hole k h pos)) = length h"
  by (induction k h pos rule: sink_hole.induct) (subst sink_hole.simps, simp)

lemma length_siftup [simp]: "length (siftup k h) = length h"
  using length_sink_hole [of k h 0] by (cases "sink_hole k h 0") (simp del: length_sink_hole add: siftup_def)

lemma length_heap_pop: "heap_pop k h = Some (x, h') \<Longrightarrow> length h = Suc (length h')"
  by (cases h rule: rev_cases) (auto simp: heap_pop_def split: if_splits)

subsection \<open>The heap order\<close>

definition is_heap :: "('a \<Rightarrow> 'b::linorder) \<Rightarrow> 'a list \<Rightarrow> bool" where
  "is_heap k h \<longleftrightarrow> (\<forall>i < length h. 0 < i \<longrightarrow> k (h ! parent i) \<le> k (h ! i))"

lemma is_heap_cong:
  assumes "\<And>a. a \<in> set h \<Longrightarrow> k a = k' a"
  shows "is_heap k h = is_heap k' h"
proof -
  have "k (h ! i) = k' (h ! i)" "k (h ! parent i) = k' (h ! parent i)" if "i < length h" for i
    using assms that order.strict_trans1 [OF parent_le that] by auto
  then show ?thesis by (simp add: is_heap_def)
qed

text \<open>The order of everything but the hole at \<open>pos\<close>, whose children are above its parent.\<close>

definition heap_but :: "('a \<Rightarrow> 'b::linorder) \<Rightarrow> 'a list \<Rightarrow> nat \<Rightarrow> bool" where
  "heap_but k h pos \<longleftrightarrow>
     (\<forall>i < length h. 0 < i \<longrightarrow> i \<noteq> pos \<longrightarrow> parent i \<noteq> pos \<longrightarrow> k (h ! parent i) \<le> k (h ! i)) \<and>
     (\<forall>i < length h. 0 < i \<longrightarrow> parent i = pos \<longrightarrow> 0 < pos \<longrightarrow> k (h ! parent pos) \<le> k (h ! i))"

lemma heap_butD:
  assumes "heap_but k h pos" and "i < length h" and "0 < i"
  shows "i \<noteq> pos \<Longrightarrow> parent i \<noteq> pos \<Longrightarrow> k (h ! parent i) \<le> k (h ! i)"
    and "parent i = pos \<Longrightarrow> 0 < pos \<Longrightarrow> k (h ! parent pos) \<le> k (h ! i)"
  using assms by (auto simp: heap_but_def)

lemma is_heap_heap_but:
  assumes "is_heap k h"
  shows "heap_but k h pos"
proof -
  have "k (h ! parent pos) \<le> k (h ! i)" if "i < length h" "0 < i" "parent i = pos" "0 < pos" for i
  proof -
    have "pos < i" using that(2,3) parent_less by blast
    then have "k (h ! parent pos) \<le> k (h ! pos)" "k (h ! pos) \<le> k (h ! i)"
      using assms that by (auto simp: is_heap_def)
    then show ?thesis by (rule order_trans)
  qed
  with assms show ?thesis by (auto simp: heap_but_def is_heap_def)
qed

lemma heap_root_least:
  assumes "is_heap k h" and "i < length h"
  shows "k (h ! 0) \<le> k (h ! i)"
  using assms(2)
proof (induction i rule: less_induct)
  case (less i)
  show ?case
  proof (cases "i = 0")
    case False
    then have "k (h ! 0) \<le> k (h ! parent i)" "k (h ! parent i) \<le> k (h ! i)"
      using less assms(1) parent_less [of i] by (auto simp: is_heap_def)
    then show ?thesis by (rule order_trans)
  qed simp
qed

subsection \<open>Moving an element up\<close>

lemma siftdown_mset: "pos < length h \<Longrightarrow> mset (siftdown k x h pos) = mset (h[pos := x])"
proof (induction k x h pos rule: siftdown.induct)
  case (1 k x h pos)
  show ?case
  proof (cases "0 < pos \<and> k x < k (h ! parent pos)")
    case True
    let ?p = "parent pos" and ?h = "h[pos := x]"
    have p: "?p < length h" "?p \<noteq> pos" using 1(2) True parent_less [of pos] by auto
    have "siftdown k x h pos = siftdown k x (h[pos := h ! ?p]) ?p"
      using True by (subst siftdown.simps) simp
    also have "mset \<dots> = mset (h[pos := h ! ?p, ?p := x])" using 1(1) True p by simp
    also have "h[pos := h ! ?p, ?p := x] = ?h[pos := ?h ! ?p, ?p := ?h ! pos]" using p 1(2) by simp
    also have "mset \<dots> = mset ?h" using p 1(2) by (intro mset_swap) simp_all
    finally show ?thesis .
  next
    case False
    then show ?thesis by (subst siftdown.simps) auto
  qed
qed

lemma heap_fill:
  assumes "heap_but k h pos" and "pos < length h"
    and "\<And>i. i < length h \<Longrightarrow> 0 < i \<Longrightarrow> parent i = pos \<Longrightarrow> k x \<le> k (h ! i)"
    and "0 < pos \<Longrightarrow> k (h ! parent pos) \<le> k x"
  shows "is_heap k (h[pos := x])"
  unfolding is_heap_def
proof (intro allI impI)
  fix i assume i: "i < length (h[pos := x])" "0 < i"
  then have p: "parent i < i" "i < length h" using parent_less by auto
  show "k (h[pos := x] ! parent i) \<le> k (h[pos := x] ! i)"
    using assms i p heap_butD(1) [OF assms(1), of i]
    by (cases "i = pos"; cases "parent i = pos") auto
qed

lemma heap_but_up:
  assumes "heap_but k h pos" and "pos < length h" and "0 < pos"
  shows "heap_but k (h[pos := h ! parent pos]) (parent pos)"
proof -
  let ?p = "parent pos" and ?h = "h[pos := h ! parent pos]"
  have pos: "?p < pos" using assms(3) by (rule parent_less)
  have "k (?h ! parent i) \<le> k (?h ! i)" if i: "i < length h" "0 < i" "i \<noteq> ?p" "parent i \<noteq> ?p" for i
    using i pos assms heap_butD [OF assms(1) i(1,2)] parent_less [OF i(2)]
    by (cases "i = pos"; cases "parent i = pos") auto
  moreover have "k (?h ! parent ?p) \<le> k (?h ! i)" if i: "i < length h" "0 < i" "parent i = ?p" "0 < ?p" for i
  proof -
    have "k (h ! parent ?p) \<le> k (h ! ?p)"
      using heap_butD(1) [OF assms(1), of ?p] pos assms(2) i(4) parent_less [of ?p] by auto
    moreover have "k (h ! ?p) \<le> k (?h ! i)"
      using heap_butD(1) [OF assms(1) i(1,2)] i(1,3) pos by (cases "i = pos") auto
    ultimately show ?thesis using pos parent_less [of ?p] i(4) by auto
  qed
  ultimately show ?thesis by (simp add: heap_but_def)
qed

lemma siftdown_heap:
  assumes "heap_but k h pos" and "pos < length h"
    and "\<And>i. i < length h \<Longrightarrow> 0 < i \<Longrightarrow> parent i = pos \<Longrightarrow> k x \<le> k (h ! i)"
  shows "is_heap k (siftdown k x h pos)"
  using assms
proof (induction k x h pos rule: siftdown.induct)
  case (1 k x h pos)
  let ?p = "parent pos"
  show ?case
  proof (cases "0 < pos \<and> k x < k (h ! ?p)")
    case True
    have "k x \<le> k (h[pos := h ! ?p] ! i)" if "i < length h" "0 < i" "parent i = ?p" for i
      using True that heap_butD(1) [OF 1(2) that(1,2)] parent_less [of pos]
      by (cases "i = pos") auto
    then have "is_heap k (siftdown k x (h[pos := h ! ?p]) ?p)"
      using 1(1) True 1(3) heap_but_up [OF 1(2,3)] parent_less [of pos] by auto
    then show ?thesis using True by (subst siftdown.simps) simp
  next
    case False
    have "is_heap k (h[pos := x])" using 1(2-) False by (intro heap_fill) auto
    then show ?thesis using False by (subst siftdown.simps) auto
  qed
qed

subsection \<open>Moving the hole down\<close>

lemma smaller_child:
  assumes "2 * pos + 1 < length h"
  shows "parent (smaller_child k h pos) = pos" "smaller_child k h pos < length h" "pos < smaller_child k h pos"
    "\<And>i. i < length h \<Longrightarrow> 0 < i \<Longrightarrow> parent i = pos \<Longrightarrow> k (h ! smaller_child k h pos) \<le> k (h ! i)"
proof -
  show "parent (smaller_child k h pos) = pos" "smaller_child k h pos < length h" "pos < smaller_child k h pos"
    using assms by (auto simp: smaller_child_def parent_def Let_def)
  show "k (h ! smaller_child k h pos) \<le> k (h ! i)" if "i < length h" "0 < i" "parent i = pos" for i
    using that parent_eq_iff [of i pos] assms by (auto simp: smaller_child_def Let_def)
qed

lemma heap_but_down:
  assumes "heap_but k h pos" and "2 * pos + 1 < length h"
  shows "heap_but k (h[pos := h ! smaller_child k h pos]) (smaller_child k h pos)"
proof -
  let ?c = "smaller_child k h pos"
  let ?h = "h[pos := h ! ?c]"
  note c = smaller_child [OF assms(2), where k = k]
  have "k (?h ! parent i) \<le> k (?h ! i)" if i: "i < length h" "0 < i" "i \<noteq> ?c" "parent i \<noteq> ?c" for i
    using heap_butD [OF assms(1) i(1,2)] heap_butD(2) [OF assms(1) c(2)] c i parent_less [OF i(2)]
    by (cases "i = pos"; cases "parent i = pos") auto
  moreover have "k (?h ! parent ?c) \<le> k (?h ! i)" if i: "i < length h" "0 < i" "parent i = ?c" for i
    using heap_butD(1) [OF assms(1) i(1,2)] c i parent_less [OF i(2)] by auto
  ultimately show ?thesis using assms by (simp add: heap_but_def)
qed

lemma sink_hole_spec:
  assumes "heap_but k h pos" and "pos < length h"
  shows "case sink_hole k h pos of (h', pos') \<Rightarrow>
    heap_but k h' pos' \<and> pos' < length h' \<and> length h' = length h \<and> \<not> 2 * pos' + 1 < length h' \<and>
    (\<forall>x. mset (h'[pos' := x]) = mset (h[pos := x]))"
  using assms
proof (induction k h pos rule: sink_hole.induct)
  case (1 k h pos)
  let ?c = "smaller_child k h pos"
  show ?case
  proof (cases "2 * pos + 1 < length h")
    case True
    note c = smaller_child [OF True, where k = k]
    have "mset (h[pos := h ! ?c, ?c := x]) = mset (h[pos := x])" for x
      using mset_swap [of ?c "h[pos := x]" pos] c 1(3) by auto
    then show ?thesis
      using 1(1) [OF True] heap_but_down [OF 1(2) True] c True
      by (subst sink_hole.simps) (auto split: prod.splits)
  next
    case False
    with 1(2-) show ?thesis by (subst sink_hole.simps) simp
  qed
qed

lemma siftup_spec:
  assumes "heap_but k h 0" and "h \<noteq> []"
  shows "is_heap k (siftup k h)" and "mset (siftup k h) = mset h"
proof -
  obtain h' pos where s: "sink_hole k h 0 = (h', pos)" by fastforce
  have f: "heap_but k h' pos" "pos < length h'" "\<not> 2 * pos + 1 < length h'"
    "\<And>x. mset (h'[pos := x]) = mset (h[0 := x])"
    using sink_hole_spec [OF assms(1)] assms(2) by (simp_all add: s)
  have leaf: "k x \<le> k (h' ! i)" if "i < length h'" "0 < i" "parent i = pos" for i x
    using that(1) f(3) parent_eq_iff [THEN iffD1, OF conjI, OF that(3,2)] by linarith
  show "is_heap k (siftup k h)"
    unfolding siftup_def s prod.case by (rule siftdown_heap [OF f(1,2)]) (rule leaf)
  show "mset (siftup k h) = mset h"
    unfolding siftup_def s prod.case siftdown_mset [OF f(2)] f(4) by simp
qed

subsection \<open>The contract of a priority queue\<close>

locale priority_queue =
  fixes key :: "'a \<Rightarrow> 'b::linorder"
    and push :: "'a \<Rightarrow> 'a list \<Rightarrow> 'a list"
    and pop :: "'a list \<Rightarrow> ('a \<times> 'a list) option"
    and ok :: "'a list \<Rightarrow> bool"
  assumes ok_Nil: "ok []"
    and ok_push: "ok q \<Longrightarrow> ok (push x q)"
    and mset_push: "ok q \<Longrightarrow> mset (push x q) = add_mset x (mset q)"
    and pop_None: "pop q = None \<longleftrightarrow> q = []"
    and ok_pop: "ok q \<Longrightarrow> pop q = Some (x, q') \<Longrightarrow> ok q'"
    and mset_pop: "ok q \<Longrightarrow> pop q = Some (x, q') \<Longrightarrow> mset q = add_mset x (mset q')"
    and pop_least: "ok q \<Longrightarrow> pop q = Some (x, q') \<Longrightarrow> y \<in> set q \<Longrightarrow> key x \<le> key y"
    and pop_hd: "pop q = Some (x, q') \<Longrightarrow> x = hd q"
begin

lemma set_push: "ok q \<Longrightarrow> set (push x q) = insert x (set q)"
  using mset_push [of q x] by (metis set_mset_add_mset_insert set_mset_mset)

lemma set_pop: "ok q \<Longrightarrow> pop q = Some (x, q') \<Longrightarrow> set q = insert x (set q')"
  using mset_pop [of q x q'] by (metis set_mset_add_mset_insert set_mset_mset)

lemma distinct_push: "ok q \<Longrightarrow> distinct (push x q) \<longleftrightarrow> x \<notin> set q \<and> distinct q"
  using mset_push [of q x] mset_eq_imp_distinct_iff [of "push x q" "x # q"] by simp

lemma length_pop: "ok q \<Longrightarrow> pop q = Some (x, q') \<Longrightarrow> length q = Suc (length q')"
  using mset_pop [of q x q'] by (metis size_add_mset size_mset)

lemma hd_least: "ok q \<Longrightarrow> y \<in> set q \<Longrightarrow> key (hd q) \<le> key y"
  using pop_None [of q] pop_hd [of q] pop_least [of q _ _ y] by (cases "pop q") auto

end

lemma heap_push_spec:
  assumes "is_heap k h"
  shows "is_heap k (heap_push k x h)"
proof -
  have "heap_but k (h @ [x]) (length h)"
    unfolding heap_but_def
  proof (intro conjI allI impI)
    fix i assume i: "i < length (h @ [x])" "0 < i" "i \<noteq> length h" "parent i \<noteq> length h"
    then have "i < length h" "parent i < length h" using parent_less [of i] by auto
    then show "k ((h @ [x]) ! parent i) \<le> k ((h @ [x]) ! i)" using assms i(2) by (simp add: is_heap_def nth_append)
  next
    fix i assume "i < length (h @ [x])" "0 < i" "parent i = length h"
    then show "k ((h @ [x]) ! parent (length h)) \<le> k ((h @ [x]) ! i)" using parent_less [of i] by auto
  qed
  moreover have "k x \<le> k ((h @ [x]) ! i)" if "i < length (h @ [x])" "0 < i" "parent i = length h" for i
    using that parent_less [of i] by auto
  ultimately show "is_heap k (heap_push k x h)"
    unfolding heap_push_def by (intro siftdown_heap) auto
qed

lemma mset_heap_push: "mset (heap_push k x h) = add_mset x (mset h)"
  by (simp add: heap_push_def siftdown_mset)

lemma set_heap_push [simp]: "set (heap_push k x h) = insert x (set h)"
  using mset_heap_push [of k x h] by (metis set_mset_add_mset_insert set_mset_mset)


lemma heap_pop_spec:
  assumes "is_heap k h" and "heap_pop k h = Some (x, h')"
  shows "is_heap k h'" "mset h = add_mset x (mset h')"
proof -
  let ?b = "(butlast h)[0 := last h]"
  have ne: "h \<noteq> []" using assms(2) by (auto simp: heap_pop_def)
  have split: "mset h = add_mset (last h) (mset (butlast h))"
    using ne by (cases h rule: rev_cases) simp_all
  have "is_heap k h' \<and> mset h = add_mset x (mset h')"
  proof (cases "butlast h = []")
    case True
    then show ?thesis using assms ne split by (auto simp: heap_pop_def is_heap_def)
  next
    case False
    have "is_heap k (butlast h)"
      using assms(1) order.strict_trans1 [OF parent_le] by (simp add: is_heap_def nth_butlast)
    then have "heap_but k (butlast h) 0" by (rule is_heap_heap_but)
    then have hb: "heap_but k ?b 0" by (auto simp: heap_but_def)
    have x: "x = butlast h ! 0" "h' = siftup k ?b" using assms(2) ne False by (auto simp: heap_pop_def)
    have "mset (butlast h) = add_mset (butlast h ! 0) (mset (tl (butlast h)))"
      using False by (cases "butlast h") auto
    moreover have "mset ?b = add_mset (last h) (mset (tl (butlast h)))"
      using False by (cases "butlast h") auto
    ultimately show ?thesis
      using siftup_spec [OF hb] False split by (simp add: x)
  qed
  then show "is_heap k h'" "mset h = add_mset x (mset h')" by blast+
qed

lemma heap_pop_hd: "heap_pop k h = Some (x, h') \<Longrightarrow> x = hd h"
  by (cases h rule: rev_cases) (auto simp: heap_pop_def hd_append hd_conv_nth split: if_splits)

interpretation heapq: priority_queue key "heap_push key" "heap_pop key" "is_heap key" for key :: "'a \<Rightarrow> 'b::linorder"
proof unfold_locales
  show "is_heap key []" by (simp add: is_heap_def)
  show "heap_pop key q = None \<longleftrightarrow> q = []" for q by (simp add: heap_pop_def)
  show "key x \<le> key y" if "is_heap key q" "heap_pop key q = Some (x, q')" "y \<in> set q" for q x q' y
  proof -
    obtain i where "y = q ! i" "i < length q" using \<open>y \<in> set q\<close> by (auto simp: in_set_conv_nth)
    then show ?thesis
      using heap_root_least [OF that(1), of i] heap_pop_hd [OF that(2)] by (cases q) auto
  qed
qed (blast intro: heap_push_spec mset_heap_push heap_pop_spec heap_pop_hd)+

end
