(* ===== verification/Scheduling.thy ===== *)
theory Scheduling
  imports Repository Heapq
begin

section \<open>The scheduler\<close>

text \<open>
  \<open>core/scheduler.py\<close> (\<open>ScheduledTask\<close>, \<open>Scheduler\<close>).  Tasks are objects shared by the \<open>dict\<close> of
  tasks and the heap, so they live in a store and are referred to by address; an address is a
  position in the store, which only grows.  The heap is the list \<open>heapq\<close> keeps, theory
  \<open>Heapq\<close>, with the next execution time (\<open>ScheduledTask.__lt__\<close>) as its key.

  \<open>asyncio.create_task\<close> puts a coroutine aside (\<open>sch_spawned\<close>); the event loop runs it later, up
  to the call of the handler (\<open>exec_begin\<close>), and then from its return to the end
  (\<open>exec_finish\<close>).  The handler's outcome and the failures of the history storage are arguments.
\<close>

datatype ScheduleType = ONE_TIME | RECURRING | INTERVAL | CRON

datatype TaskState = PENDING | RUNNING | COMPLETED | FAILED | CANCELLED

fun schedule_type_value :: "ScheduleType \<Rightarrow> string" where
  "schedule_type_value ONE_TIME = ''one_time''"
| "schedule_type_value RECURRING = ''recurring''"
| "schedule_type_value INTERVAL = ''interval''"
| "schedule_type_value CRON = ''cron''"

fun task_state_value :: "TaskState \<Rightarrow> string" where
  "task_state_value PENDING = ''pending''"
| "task_state_value RUNNING = ''running''"
| "task_state_value COMPLETED = ''completed''"
| "task_state_value FAILED = ''failed''"
| "task_state_value CANCELLED = ''cancelled''"

definition schedule_type_of :: "string \<Rightarrow> ScheduleType result" where
  "schedule_type_of = enum_of schedule_type_value [ONE_TIME, RECURRING, INTERVAL, CRON]"

definition task_state_of :: "string \<Rightarrow> TaskState result" where
  "task_state_of = enum_of task_state_value [PENDING, RUNNING, COMPLETED, FAILED, CANCELLED]"

record ScheduledTask =
  st_task_id :: string
  st_name :: string
  st_schedule_type :: ScheduleType
  st_next_execution :: datetime
  st_schedule_data :: pydict
  st_state :: TaskState
  st_created_at :: datetime
  st_last_execution :: "datetime option"
  st_execution_count :: int
  st_failure_count :: int
  st_max_retries :: int
  st_retry_delay_seconds :: int
  st_metadata :: pydict

definition new_task ::
  "datetime \<Rightarrow> string \<Rightarrow> string \<Rightarrow> ScheduleType \<Rightarrow> datetime \<Rightarrow> pydict \<Rightarrow> pydict option \<Rightarrow> ScheduledTask" where
  "new_task now tid name ty next_exec data meta =
     \<lparr>st_task_id = tid, st_name = name, st_schedule_type = ty, st_next_execution = next_exec,
      st_schedule_data = data, st_state = PENDING, st_created_at = now, st_last_execution = None,
      st_execution_count = 0, st_failure_count = 0, st_max_retries = 3, st_retry_delay_seconds = 60,
      st_metadata = (case meta of None \<Rightarrow> [] | Some m \<Rightarrow> m)\<rparr>"

definition task_to_record :: "ScheduledTask \<Rightarrow> pydict" where
  "task_to_record t =
     [(''job_id'', PStr (st_task_id t)),
      (''job_type'', PStr (schedule_type_value (st_schedule_type t))),
      (''state'', PStr (task_state_value (st_state t))),
      (''updated_at'', PStr (isoformat (case st_last_execution t of Some l \<Rightarrow> l | None \<Rightarrow> st_created_at t))),
      (''payload'', PDict
        [(''name'', PStr (st_name t)),
         (''next_execution'', PStr (isoformat (st_next_execution t))),
         (''schedule_data'', PDict (st_schedule_data t)),
         (''created_at'', PStr (isoformat (st_created_at t))),
         (''last_execution'', opt_iso (st_last_execution t)),
         (''execution_count'', PInt (st_execution_count t)),
         (''failure_count'', PInt (st_failure_count t)),
         (''max_retries'', PInt (st_max_retries t)),
         (''retry_delay_seconds'', PInt (st_retry_delay_seconds t)),
         (''metadata'', PDict (st_metadata t))])]"

record Scheduler =
  sch_max_concurrent_tasks :: int
  sch_store :: "ScheduledTask list"
  sch_tasks :: "(string, nat) dict"
  sch_task_heap :: "nat list"
  sch_running_tasks :: "string list"
  sch_is_running :: bool
  sch_is_paused :: bool
  sch_total_executed :: nat
  sch_total_failed :: nat
  sch_history_repository :: "repo option"
  sch_spawned :: "nat list"
  sch_in_flight :: "nat list"

definition scheduler_init :: "int \<Rightarrow> repo option \<Rightarrow> Scheduler" where
  "scheduler_init n hist =
     \<lparr>sch_max_concurrent_tasks = n, sch_store = [], sch_tasks = [], sch_task_heap = [], sch_running_tasks = [],
      sch_is_running = False, sch_is_paused = False, sch_total_executed = 0, sch_total_failed = 0,
      sch_history_repository = hist, sch_spawned = [], sch_in_flight = []\<rparr>"

definition sch_start :: "Scheduler \<Rightarrow> Scheduler" where
  "sch_start s = (if sch_is_running s then s else s\<lparr>sch_is_running := True, sch_is_paused := False\<rparr>)"

definition sch_stop :: "Scheduler \<Rightarrow> Scheduler" where
  "sch_stop s = (if \<not> sch_is_running s then s else s\<lparr>sch_is_running := False\<rparr>)"

definition sch_pause :: "Scheduler \<Rightarrow> Scheduler" where
  "sch_pause s = s\<lparr>sch_is_paused := True\<rparr>"

definition sch_resume :: "Scheduler \<Rightarrow> Scheduler" where
  "sch_resume s = s\<lparr>sch_is_paused := False\<rparr>"

definition deref :: "Scheduler \<Rightarrow> nat \<Rightarrow> ScheduledTask" where
  "deref s a = sch_store s ! a"

definition update_task :: "nat \<Rightarrow> (ScheduledTask \<Rightarrow> ScheduledTask) \<Rightarrow> Scheduler \<Rightarrow> Scheduler" where
  "update_task a f s = s\<lparr>sch_store := (sch_store s)[a := f (sch_store s ! a)]\<rparr>"

text \<open>\<open>heapq.heappush(self.task_heap, task)\<close>, tasks being ordered by \<open>__lt__\<close>\<close>

definition due_at :: "Scheduler \<Rightarrow> nat \<Rightarrow> datetime" where
  "due_at s a = st_next_execution (deref s a)"

definition heappush :: "nat \<Rightarrow> Scheduler \<Rightarrow> Scheduler" where
  "heappush a s = s\<lparr>sch_task_heap := heap_push (due_at s) a (sch_task_heap s)\<rparr>"

definition add_task :: "ScheduledTask \<Rightarrow> Scheduler \<Rightarrow> Scheduler" where
  "add_task t s =
     (let a = length (sch_store s)
      in heappush a (s\<lparr>sch_store := sch_store s @ [t], sch_tasks := dset (st_task_id t) a (sch_tasks s)\<rparr>))"

definition schedule_once ::
  "datetime \<Rightarrow> string \<Rightarrow> string \<Rightarrow> datetime \<Rightarrow> string option \<Rightarrow> pydict option \<Rightarrow> Scheduler \<Rightarrow> string \<times> Scheduler" where
  "schedule_once now uuid name execute_at tid_opt meta s =
     (let tid = (case tid_opt of None \<Rightarrow> uuid | Some x \<Rightarrow> x)
      in (tid, add_task (new_task now tid name ONE_TIME execute_at [] meta) s))"

definition schedule_interval ::
  "clock \<Rightarrow> string \<Rightarrow> string \<Rightarrow> int \<Rightarrow> datetime option \<Rightarrow> string option \<Rightarrow> pydict option \<Rightarrow> Scheduler
    \<Rightarrow> string \<times> Scheduler" where
  "schedule_interval clk uuid name interval start_at tid_opt meta s =
     (let tid = (case tid_opt of None \<Rightarrow> uuid | Some x \<Rightarrow> x);
          start = (case start_at of None \<Rightarrow> clk 0 | Some x \<Rightarrow> x)
      in (tid, add_task (new_task (clk 1) tid name INTERVAL start [(''interval_seconds'', PInt interval)] meta) s))"

text \<open>\<open>datetime + timedelta(seconds=n)\<close>\<close>

definition add_seconds :: "datetime \<Rightarrow> int \<Rightarrow> datetime result" where
  "add_seconds t n = (if valid_datetime (t + n * 1000000) then Inr (t + n * 1000000) else Inl OverflowError)"

text \<open>\<open>_calculate_next_cron_execution\<close>: one hour from now, whatever the expression.\<close>

definition next_cron_execution :: "datetime \<Rightarrow> string \<Rightarrow> datetime result" where
  "next_cron_execution now expr = add_seconds now 3600"

definition schedule_cron ::
  "clock \<Rightarrow> string \<Rightarrow> string \<Rightarrow> string \<Rightarrow> string option \<Rightarrow> pydict option \<Rightarrow> Scheduler
    \<Rightarrow> string result \<times> Scheduler" where
  "schedule_cron clk uuid name expr tid_opt meta s =
     (let tid = (case tid_opt of None \<Rightarrow> uuid | Some x \<Rightarrow> x)
      in case next_cron_execution (clk 0) expr of
           Inl e \<Rightarrow> (Inl e, s)
         | Inr nx \<Rightarrow>
             (Inr tid, add_task (new_task (clk 1) tid name CRON nx [(''cron_expression'', PStr expr)] meta) s))"

definition cancel_task :: "string \<Rightarrow> Scheduler \<Rightarrow> bool \<times> Scheduler" where
  "cancel_task tid s =
     (case dget (sch_tasks s) tid of
        None \<Rightarrow> (False, s)
      | Some a \<Rightarrow> (True, update_task a (\<lambda>t. t\<lparr>st_state := CANCELLED\<rparr>) s))"

definition get_task :: "string \<Rightarrow> Scheduler \<Rightarrow> ScheduledTask option" where
  "get_task tid s = map_option (deref s) (dget (sch_tasks s) tid)"

subsection \<open>Due jobs\<close>

function due_loop :: "(nat \<Rightarrow> ScheduledTask) \<Rightarrow> datetime \<Rightarrow> bool \<Rightarrow> nat list \<Rightarrow> nat list \<times> nat list" where
  "due_loop st now full heap =
     (if heap \<noteq> [] \<and> st_next_execution (st (heap ! 0)) \<le> now
      then if full then ([], heap)
           else (case heap_pop (\<lambda>a. st_next_execution (st a)) heap of
                   None \<Rightarrow> ([], heap)
                 | Some (a, heap1) \<Rightarrow>
                     (case due_loop st now full heap1 of
                        (spawned, heap2) \<Rightarrow> (if st_state (st a) = CANCELLED then spawned else a # spawned, heap2)))
      else ([], heap))"
  by pat_completeness auto
termination by (relation "measure (\<lambda>(st, now, full, heap). length heap)") (auto dest!: length_heap_pop)

declare due_loop.simps [simp del]

text \<open>The limit is on the tasks that have begun, which do not change while the loop runs.\<close>

definition process_due_jobs :: "datetime \<Rightarrow> Scheduler \<Rightarrow> nat \<times> Scheduler" where
  "process_due_jobs now s =
     (case due_loop (deref s) now (int (length (sch_running_tasks s)) \<ge> sch_max_concurrent_tasks s) (sch_task_heap s) of
        (spawned, heap) \<Rightarrow>
          (length spawned, s\<lparr>sch_task_heap := heap, sch_spawned := sch_spawned s @ spawned\<rparr>))"

text \<open>One turn of \<open>_scheduler_loop\<close>.\<close>

definition loop_turn :: "datetime \<Rightarrow> Scheduler \<Rightarrow> Scheduler" where
  "loop_turn now s =
     (if sch_is_running s \<and> \<not> sch_is_paused s then snd (process_due_jobs now s) else s)"

subsection \<open>Executing a task\<close>

text \<open>
  \<open>_persist_task_state\<close>: \<open>io action\<close> is the exception the storage raises for the record, if any.
\<close>

definition persist_task_state ::
  "(string \<Rightarrow> py_error option) \<Rightarrow> datetime \<Rightarrow> string \<Rightarrow> string \<Rightarrow> nat \<Rightarrow> Scheduler \<Rightarrow> Scheduler outcome" where
  "persist_task_state io now uuid action a s =
     (case sch_history_repository s of
        None \<Rightarrow> (None, s)
      | Some r \<Rightarrow>
          (let t = deref s a
           in case py_str (pget_or (st_metadata t) ''instance_id'' (PStr ''scheduler'')) of
                Inl e \<Rightarrow> (Some e, s)
              | Inr iid \<Rightarrow>
                  (case io action of
                     Some e \<Rightarrow> (Some e, s)
                   | None \<Rightarrow>
                       (case append_persisted now now uuid iid
                               [(''action'', PStr action),
                                (''activity_id'', pget (st_metadata t) ''activity_id''),
                                (''payload'', PDict (task_to_record t)),
                                (''created_at'', PStr (isoformat now))] r of
                          Inl e \<Rightarrow> (Some e, s)
                        | Inr (p, r') \<Rightarrow> (None, s\<lparr>sch_history_repository := Some r'\<rparr>)))))"

text \<open>The value \<open>timedelta(seconds=v)\<close> accepts; a float's is not computed here.\<close>

fun seconds_of :: "pyval \<Rightarrow> int result" where
  "seconds_of (PInt i) = Inr i"
| "seconds_of (PBool b) = Inr (if b then 1 else 0)"
| "seconds_of (PFloat f) = Inl (Unmodelled ''timedelta'')"
| "seconds_of v = Inl (TypeError ''timedelta'')"

definition next_run :: "datetime \<Rightarrow> ScheduledTask \<Rightarrow> datetime result" where
  "next_run now t =
     (case st_schedule_type t of
        INTERVAL \<Rightarrow> bindr (seconds_of (pget_or (st_schedule_data t) ''interval_seconds'' (PInt 60))) (add_seconds now)
      | CRON \<Rightarrow> bindr (py_str (pget_or (st_schedule_data t) ''cron_expression'' (PStr []))) (next_cron_execution now)
      | _ \<Rightarrow> Inr (st_next_execution t))"

definition reschedule_task :: "datetime \<Rightarrow> nat \<Rightarrow> Scheduler \<Rightarrow> Scheduler outcome" where
  "reschedule_task now a s =
     (case next_run now (deref s a) of
        Inl e \<Rightarrow> (Some e, s)
      | Inr nx \<Rightarrow> (None, heappush a (update_task a (\<lambda>t. t\<lparr>st_next_execution := nx, st_state := PENDING\<rparr>) s)))"

definition retry_delay :: "ScheduledTask \<Rightarrow> int" where
  "retry_delay t = st_retry_delay_seconds t * 2 ^ nat (st_failure_count t - 1)"

definition schedule_retry :: "datetime \<Rightarrow> nat \<Rightarrow> Scheduler \<Rightarrow> Scheduler outcome" where
  "schedule_retry now a s =
     (case add_seconds now (retry_delay (deref s a)) of
        Inl e \<Rightarrow> (Some e, s)
      | Inr nx \<Rightarrow> (None, heappush a (update_task a (\<lambda>t. t\<lparr>st_next_execution := nx, st_state := PENDING\<rparr>) s)))"

text \<open>From the start of \<open>_execute_task\<close> to the call of the handler.\<close>

definition exec_begin ::
  "(string \<Rightarrow> py_error option) \<Rightarrow> clock \<Rightarrow> string \<Rightarrow> nat \<Rightarrow> Scheduler \<Rightarrow> Scheduler outcome" where
  "exec_begin io clk uuid a s =
     (let s1 = update_task a (\<lambda>t. t\<lparr>st_state := RUNNING, st_last_execution := Some (clk 0)\<rparr>)
                 (s\<lparr>sch_spawned := remove1 a (sch_spawned s)\<rparr>);
          s2 = s1\<lparr>sch_running_tasks := sadd (st_task_id (deref s1 a)) (sch_running_tasks s1)\<rparr>
      in case persist_task_state io (clk 1) uuid ''job.running'' a s2 of
           (Some e, s3) \<Rightarrow> (Some e, s3)
         | (None, s3) \<Rightarrow> (None, s3\<lparr>sch_in_flight := sch_in_flight s3 @ [a]\<rparr>))"

text \<open>The rest of the \<open>try\<close> block after the handler, its \<open>except\<close> branch, and both with \<open>finally\<close>.\<close>

definition exec_success ::
  "(string \<Rightarrow> py_error option) \<Rightarrow> clock \<Rightarrow> string \<Rightarrow> nat \<Rightarrow> Scheduler \<Rightarrow> Scheduler outcome" where
  "exec_success io clk uuid a s =
     (let s1 = (update_task a (\<lambda>t. t\<lparr>st_execution_count := st_execution_count t + 1, st_state := COMPLETED\<rparr>) s)
                 \<lparr>sch_total_executed := sch_total_executed s + 1\<rparr>
      in case persist_task_state io (clk 0) uuid ''job.completed'' a s1 of
           (Some e, s2) \<Rightarrow> (Some e, s2)
         | (None, s2) \<Rightarrow>
             if st_schedule_type (deref s2 a) \<in> {INTERVAL, CRON, RECURRING} then reschedule_task (clk 1) a s2
             else (None, s2))"

definition exec_failure ::
  "(string \<Rightarrow> py_error option) \<Rightarrow> clock \<Rightarrow> string \<Rightarrow> nat \<Rightarrow> Scheduler \<Rightarrow> Scheduler outcome" where
  "exec_failure io clk uuid a s =
     (let s1 = (update_task a (\<lambda>t. t\<lparr>st_failure_count := st_failure_count t + 1, st_state := FAILED\<rparr>) s)
                 \<lparr>sch_total_failed := sch_total_failed s + 1\<rparr>
      in case persist_task_state io (clk 2) uuid ''job.failed'' a s1 of
           (Some e, s2) \<Rightarrow> (Some e, s2)
         | (None, s2) \<Rightarrow>
             if st_failure_count (deref s2 a) < st_max_retries (deref s2 a) then schedule_retry (clk 3) a s2
             else (None, s2))"

definition exec_finish ::
  "(string \<Rightarrow> py_error option) \<Rightarrow> clock \<Rightarrow> string \<Rightarrow> bool \<Rightarrow> nat \<Rightarrow> Scheduler \<Rightarrow> Scheduler outcome" where
  "exec_finish io clk uuid handler_ok a s0 =
     (let s = s0\<lparr>sch_in_flight := remove1 a (sch_in_flight s0)\<rparr>;
          leave = (\<lambda>(e, s'). (e, s'\<lparr>sch_running_tasks := sdiscard (st_task_id (deref s' a)) (sch_running_tasks s')\<rparr>))
      in if handler_ok
         then (case exec_success io clk uuid a s of
                 (None, s1) \<Rightarrow> leave (None, s1)
               | (Some e, s1) \<Rightarrow> leave (exec_failure io clk uuid a s1))
         else leave (exec_failure io clk uuid a s))"

subsection \<open>Reloading from the history\<close>

definition task_from_row :: "clock \<Rightarrow> string \<Rightarrow> pydict \<Rightarrow> pydict \<Rightarrow> ScheduledTask result" where
  "task_from_row clk tid payload job =
     bindr (py_str (pget_or job ''name'' (PStr tid))) (\<lambda>name.
     bindr (bindr (py_str (pget_or payload ''job_type'' (PStr (schedule_type_value ONE_TIME)))) schedule_type_of) (\<lambda>ty.
     bindr (bindr (py_str (pget_or job ''next_execution'' (PStr (isoformat (clk 0))))) fromisoformat) (\<lambda>nx.
     bindr (py_dict (por (pget job ''schedule_data'') (PDict []))) (\<lambda>data.
     bindr (bindr (py_str (pget_or payload ''state'' (PStr (task_state_value PENDING)))) task_state_of) (\<lambda>st.
     bindr (py_dict (por (pget job ''metadata'') (PDict []))) (\<lambda>meta.
     bindr (bindr (py_str (pget_or job ''created_at'' (PStr (isoformat (clk 1))))) fromisoformat) (\<lambda>cre.
     bindr (if truthy (pget job ''last_execution'')
            then bindr (bindr (py_str (pget job ''last_execution'')) fromisoformat) (Inr \<circ> Some) else Inr None) (\<lambda>lst.
     bindr (py_int (pget_or job ''execution_count'' (PInt 0))) (\<lambda>ec.
     bindr (py_int (pget_or job ''failure_count'' (PInt 0))) (\<lambda>fc.
     bindr (py_int (pget_or job ''max_retries'' (PInt 3))) (\<lambda>mr.
     bindr (py_int (pget_or job ''retry_delay_seconds'' (PInt 60))) (\<lambda>rd.
     Inr \<lparr>st_task_id = tid, st_name = name, st_schedule_type = ty, st_next_execution = nx,
          st_schedule_data = data, st_state = st, st_created_at = cre, st_last_execution = lst,
          st_execution_count = ec, st_failure_count = fc, st_max_retries = mr,
          st_retry_delay_seconds = rd, st_metadata = meta\<rparr>))))))))))))"

definition restore_task :: "ScheduledTask \<Rightarrow> Scheduler \<Rightarrow> Scheduler" where
  "restore_task t s =
     (let a = length (sch_store s);
          s1 = s\<lparr>sch_store := sch_store s @ [t], sch_tasks := dset (st_task_id t) a (sch_tasks s)\<rparr>
      in if st_state t \<in> {PENDING, RUNNING} then heappush a s1 else s1)"

text \<open>One row: \<open>None\<close> where the loop continues with the next one.\<close>

definition reload_row :: "clock \<Rightarrow> string list \<Rightarrow> pydict \<Rightarrow> ScheduledTask option result" where
  "reload_row clk seen row =
     (case pget row ''payload'' of
        PDict payload \<Rightarrow>
          (case pget payload ''payload'' of
             PDict job \<Rightarrow>
               bindr (py_str (pget_or payload ''job_id'' (PStr []))) (\<lambda>tid.
                 if tid = [] \<or> tid \<in> set seen then Inr None
                 else bindr (task_from_row clk tid payload job) (Inr \<circ> Some))
           | _ \<Rightarrow> Inr None)
      | _ \<Rightarrow> Inr None)"

fun reload_loop ::
  "clock \<Rightarrow> string list \<Rightarrow> pydict list \<Rightarrow> Scheduler \<Rightarrow> ScheduledTask list result \<times> Scheduler" where
  "reload_loop clk seen [] s = (Inr [], s)"
| "reload_loop clk seen (row # rows) s =
     (case reload_row clk seen row of
        Inl e \<Rightarrow> (Inl e, s)
      | Inr None \<Rightarrow> reload_loop clk seen rows s
      | Inr (Some t) \<Rightarrow>
          (case reload_loop (\<lambda>n. clk (n + 2)) (sadd (st_task_id t) seen) rows (restore_task t s) of
             (Inl e, s') \<Rightarrow> (Inl e, s')
           | (Inr ts, s') \<Rightarrow> (Inr (t # ts), s')))"

definition reload_tasks_from_history ::
  "clock \<Rightarrow> string \<Rightarrow> Scheduler \<Rightarrow> ScheduledTask list result \<times> Scheduler" where
  "reload_tasks_from_history clk iid s =
     (case sch_history_repository s of
        None \<Rightarrow> (Inr (map (deref s) (dvals (sch_tasks s))), s)
      | Some r \<Rightarrow>
          (case history_query iid r of
             Inl e \<Rightarrow> (Inl e, s)
           | Inr rows \<Rightarrow> reload_loop clk [] rows s))"

definition get_pending_tasks :: "Scheduler \<Rightarrow> ScheduledTask list" where
  "get_pending_tasks s = filter (\<lambda>t. st_state t = PENDING) (map (deref s) (dvals (sch_tasks s)))"

definition get_running_tasks :: "Scheduler \<Rightarrow> ScheduledTask list" where
  "get_running_tasks s = filter (\<lambda>t. st_state t = RUNNING) (map (deref s) (dvals (sch_tasks s)))"

record scheduler_statistics =
  ss_total :: nat
  ss_running :: nat
  ss_pending :: nat
  ss_executed :: nat
  ss_failed :: nat
  ss_states :: "(string, nat) dict"
  ss_paused :: bool

definition scheduler_get_statistics :: "Scheduler \<Rightarrow> scheduler_statistics" where
  "scheduler_get_statistics s =
     \<lparr>ss_total = length (sch_tasks s), ss_running = length (sch_running_tasks s),
      ss_pending = length (get_pending_tasks s), ss_executed = sch_total_executed s,
      ss_failed = sch_total_failed s,
      ss_states = tally (map (task_state_value \<circ> st_state \<circ> deref s) (dvals (sch_tasks s))),
      ss_paused = sch_is_paused s\<rparr>"

subsection \<open>The heap and the tasks on their way\<close>

text \<open>
  A task object is at any time in at most one of three places: in the heap, spawned, or being
  executed.  The heap is in heap order with respect to the next execution time.
\<close>

definition places :: "Scheduler \<Rightarrow> nat list" where
  "places s = sch_task_heap s @ sch_spawned s @ sch_in_flight s"

definition heap_ordered :: "Scheduler \<Rightarrow> bool" where
  "heap_ordered s \<longleftrightarrow> is_heap (due_at s) (sch_task_heap s)"

definition sch_inv :: "Scheduler \<Rightarrow> bool" where
  "sch_inv s \<longleftrightarrow> heap_ordered s \<and> distinct (places s) \<and> (\<forall>a \<in> set (places s). a < length (sch_store s)) \<and>
     (\<forall>a \<in> set (dvals (sch_tasks s)). a < length (sch_store s))"

lemma heappush_fields [simp]:
  "sch_store (heappush a s) = sch_store s" "sch_tasks (heappush a s) = sch_tasks s"
  "sch_spawned (heappush a s) = sch_spawned s" "sch_in_flight (heappush a s) = sch_in_flight s"
  "sch_running_tasks (heappush a s) = sch_running_tasks s" "due_at (heappush a s) = due_at s"
  "set (sch_task_heap (heappush a s)) = insert a (set (sch_task_heap s))"
  by (simp_all add: heappush_def due_at_def deref_def fun_eq_iff)

lemma due_at_fields [simp]:
  "due_at (s\<lparr>sch_task_heap := h\<rparr>) = due_at s" "due_at (s\<lparr>sch_spawned := xs\<rparr>) = due_at s"
  "due_at (s\<lparr>sch_in_flight := xs\<rparr>) = due_at s" "due_at (s\<lparr>sch_running_tasks := ids\<rparr>) = due_at s"
  "due_at (s\<lparr>sch_is_running := b\<rparr>) = due_at s" "due_at (s\<lparr>sch_is_paused := b\<rparr>) = due_at s"
  "due_at (s\<lparr>sch_total_executed := n\<rparr>) = due_at s" "due_at (s\<lparr>sch_total_failed := n\<rparr>) = due_at s"
  by (simp_all add: due_at_def deref_def fun_eq_iff)

lemma heappush_heap:
  assumes "heap_ordered s"
  shows "distinct (sch_task_heap (heappush a s)) \<longleftrightarrow> a \<notin> set (sch_task_heap s) \<and> distinct (sch_task_heap s)"
    "heap_ordered (heappush a s)"
  using assms heapq.distinct_push [of "due_at s" "sch_task_heap s" a]
    heapq.ok_push [of "due_at s" "sch_task_heap s" a]
  by (simp_all add: heap_ordered_def) (simp_all add: heappush_def)

lemma heap_ordered_cong:
  assumes "\<And>b. b \<in> set (sch_task_heap s) \<Longrightarrow> due_at s' b = due_at s b" and "sch_task_heap s' = sch_task_heap s"
  shows "heap_ordered s' = heap_ordered s"
  using is_heap_cong [of "sch_task_heap s" "due_at s'" "due_at s"] assms by (simp add: heap_ordered_def)

lemma update_task_fields [simp]:
  "sch_tasks (update_task a f s) = sch_tasks s" "sch_task_heap (update_task a f s) = sch_task_heap s"
  "sch_spawned (update_task a f s) = sch_spawned s" "sch_in_flight (update_task a f s) = sch_in_flight s"
  "sch_running_tasks (update_task a f s) = sch_running_tasks s"
  "length (sch_store (update_task a f s)) = length (sch_store s)"
  "sch_history_repository (update_task a f s) = sch_history_repository s"
  by (simp_all add: update_task_def)

lemma deref_update [simp]: "a < length (sch_store s) \<Longrightarrow> deref (update_task a f s) a = f (deref s a)"
  by (simp add: deref_def update_task_def)

lemma persist_fields [simp]:
  "sch_store (snd (persist_task_state io now uuid action a s)) = sch_store s"
  "sch_tasks (snd (persist_task_state io now uuid action a s)) = sch_tasks s"
  "sch_task_heap (snd (persist_task_state io now uuid action a s)) = sch_task_heap s"
  "sch_spawned (snd (persist_task_state io now uuid action a s)) = sch_spawned s"
  "sch_in_flight (snd (persist_task_state io now uuid action a s)) = sch_in_flight s"
  "sch_running_tasks (snd (persist_task_state io now uuid action a s)) = sch_running_tasks s"
  by (simp_all add: persist_task_state_def Let_def split: option.splits sum.splits prod.splits)

lemma sch_inv_push:
  assumes "sch_inv s" and "a \<notin> set (places s)" and "a < length (sch_store s)"
  shows "sch_inv (heappush a s)"
  using assms heappush_heap [of s a] by (auto simp: sch_inv_def places_def)

lemma sch_inv_update:
  assumes "sch_inv s" and "a \<notin> set (sch_task_heap s) \<or> (\<forall>t. st_next_execution (f t) = st_next_execution t)"
  shows "sch_inv (update_task a f s)"
proof -
  have "due_at (update_task a f s) b = due_at s b" if "b \<in> set (sch_task_heap s)" for b
    using assms(2) that
    by (cases "a = b"; cases "a < length (sch_store s)") (auto simp: due_at_def deref_def update_task_def list_update_beyond)
  then have "heap_ordered (update_task a f s) = heap_ordered s"
    by (intro heap_ordered_cong) auto
  then show ?thesis using assms(1) by (simp add: sch_inv_def places_def)
qed

lemma sch_inv_cong:
  assumes "sch_inv s" "sch_store s' = sch_store s" "sch_tasks s' = sch_tasks s" "sch_task_heap s' = sch_task_heap s"
    and "mset (places s') = mset (places s)"
  shows "sch_inv s'"
proof -
  have "set (places s') = set (places s)" "distinct (places s') = distinct (places s)"
    using assms(5) by (auto dest: mset_eq_setD mset_eq_imp_distinct_iff)
  moreover have "heap_ordered s' = heap_ordered s"
    using assms(2,4) by (intro heap_ordered_cong) (simp_all add: due_at_def deref_def)
  ultimately show ?thesis using assms by (simp add: sch_inv_def)
qed

text \<open>Storing a new task object, at an address nothing refers to yet.\<close>

lemma sch_inv_extend:
  assumes "sch_inv s"
  shows "sch_inv (s\<lparr>sch_store := sch_store s @ [t], sch_tasks := dset tid (length (sch_store s)) (sch_tasks s)\<rparr>)"
    (is "sch_inv ?s")
    and "length (sch_store s) \<notin> set (places s)"
proof -
  have valid: "\<forall>a \<in> set (places s). a < length (sch_store s)" using assms by (simp add: sch_inv_def)
  then show "length (sch_store s) \<notin> set (places s)" by auto
  have "heap_ordered ?s = heap_ordered s"
    using valid by (intro heap_ordered_cong) (auto simp: due_at_def deref_def places_def nth_append)
  then have "heap_ordered ?s" using assms by (simp add: sch_inv_def)
  moreover have "a < Suc (length (sch_store s))" if "a \<in> set (dvals (dset tid (length (sch_store s)) (sch_tasks s)))" for a
  proof -
    have "set (dvals (dset k v d)) \<subseteq> insert v (set (dvals d))" for k and v :: nat and d :: "(string, nat) dict"
      by (induction d) auto
    then have "a \<in> insert (length (sch_store s)) (set (dvals (sch_tasks s)))" using that by blast
    then show ?thesis using assms by (auto simp: sch_inv_def)
  qed
  moreover have "\<forall>a \<in> set (places ?s). a < length (sch_store ?s)"
    using valid by (auto simp: places_def intro: less_SucI)
  moreover have "distinct (places ?s)" using assms by (simp add: sch_inv_def places_def)
  ultimately show "sch_inv ?s" by (simp add: sch_inv_def)
qed

lemma sch_inv_add: "sch_inv s \<Longrightarrow> sch_inv (add_task t s)"
  unfolding add_task_def Let_def
  by (rule sch_inv_push [OF sch_inv_extend(1)]) (auto dest: sch_inv_extend(2) simp: places_def)

lemma sch_inv_restore: "sch_inv s \<Longrightarrow> sch_inv (restore_task t s)"
  unfolding restore_task_def Let_def
  by (auto intro!: sch_inv_push sch_inv_extend(1)) (auto dest: sch_inv_extend(2) simp: places_def)

lemma reload_inv: "sch_inv s \<Longrightarrow> sch_inv (snd (reload_loop clk seen rows s))"
  by (induction rows arbitrary: clk seen s)
     (simp_all add: sch_inv_restore case_prod_beta split: sum.splits option.splits)

subsection \<open>Due jobs and the execution steps\<close>

lemma due_loop_full: "due_loop st now True heap = ([], heap)"
  by (subst due_loop.simps) simp

lemma due_loop_step:
  assumes "heap \<noteq> []" and "st_next_execution (st (hd heap)) \<le> now"
  obtains a heap1 spawned heap2 where "heap_pop (\<lambda>a. st_next_execution (st a)) heap = Some (a, heap1)"
    "due_loop st now False heap1 = (spawned, heap2)" "a = hd heap"
    "due_loop st now False heap = (if st_state (st a) = CANCELLED then spawned else a # spawned, heap2)"
proof -
  obtain a heap1 where p: "heap_pop (\<lambda>a. st_next_execution (st a)) heap = Some (a, heap1)"
    using assms(1) heapq.pop_None [of "\<lambda>a. st_next_execution (st a)" heap]
    by (cases "heap_pop (\<lambda>a. st_next_execution (st a)) heap") auto
  obtain sp heap2 where d: "due_loop st now False heap1 = (sp, heap2)" by fastforce
  have "due_loop st now False heap = (if st_state (st a) = CANCELLED then sp else a # sp, heap2)"
    using assms by (subst due_loop.simps) (simp add: p d hd_conv_nth)
  with that [OF p d heapq.pop_hd [OF p]] show ?thesis .
qed

lemma due_loop_stop:
  assumes "heap = [] \<or> now < st_next_execution (st (hd heap))"
  shows "due_loop st now full heap = ([], heap)"
  using assms by (subst due_loop.simps) (auto simp: hd_conv_nth)

lemma due_loop_spec:
  assumes "is_heap (\<lambda>a. st_next_execution (st a)) heap" and "due_loop st now False heap = (sp, heap')"
  shows "is_heap (\<lambda>a. st_next_execution (st a)) heap' \<and>
    mset sp = {#a \<in># mset heap. st_next_execution (st a) \<le> now \<and> st_state (st a) \<noteq> CANCELLED#} \<and>
    mset heap' = {#a \<in># mset heap. now < st_next_execution (st a)#} \<and>
    sorted (map (\<lambda>a. st_next_execution (st a)) sp)"
  using assms
proof (induction heap arbitrary: sp heap' rule: length_induct)
  case (1 heap)
  let ?k = "\<lambda>a. st_next_execution (st a)"
  show ?case
  proof (cases "heap \<noteq> [] \<and> ?k (hd heap) \<le> now")
    case True
    then obtain a heap1 sp1 heap2 where p: "heap_pop ?k heap = Some (a, heap1)" "due_loop st now False heap1 = (sp1, heap2)"
      "a = hd heap" "due_loop st now False heap = (if st_state (st a) = CANCELLED then sp1 else a # sp1, heap2)"
      using due_loop_step [of heap st now] by metis
    have m: "mset heap = add_mset a (mset heap1)" "is_heap ?k heap1" "length heap = Suc (length heap1)"
      using heapq.mset_pop [OF 1(2) p(1)] heapq.ok_pop [OF 1(2) p(1)] heapq.length_pop [OF 1(2) p(1)] by auto
    have ih: "is_heap ?k heap2" "mset sp1 = {#a \<in># mset heap1. ?k a \<le> now \<and> st_state (st a) \<noteq> CANCELLED#}"
      "mset heap2 = {#a \<in># mset heap1. now < ?k a#}" "sorted (map ?k sp1)"
      using 1(1) m(2,3) p(2) by auto
    have "set sp1 \<subseteq> set heap1" using arg_cong [OF ih(2), of set_mset] by auto
    then have "\<forall>b \<in> set sp1. ?k a \<le> ?k b"
      using heapq.pop_least [OF 1(2) p(1)] heapq.set_pop [OF 1(2) p(1)] by auto
    moreover have "sp = (if st_state (st a) = CANCELLED then sp1 else a # sp1)" "heap' = heap2"
      using p(4) 1(3) by simp_all
    ultimately show ?thesis using True p(3) by (simp add: ih m(1))
  next
    case False
    have "now < ?k b" if "b \<in> set heap" for b
      using False heapq.hd_least [OF 1(2) that] that by force
    then have "{#a \<in># mset heap. ?k a \<le> now \<and> st_state (st a) \<noteq> CANCELLED#} = {#}" "{#a \<in># mset heap. now < ?k a#} = mset heap"
      by (auto simp: filter_mset_eq_conv multiset_eq_iff dest: leD)
    then show ?thesis using False due_loop_stop [of heap now st False] 1(2,3) by auto
  qed
qed

lemma due_loop_places:
  assumes "is_heap (\<lambda>a. st_next_execution (st a)) heap" and "due_loop st now full heap = (sp, heap')"
  shows "is_heap (\<lambda>a. st_next_execution (st a)) heap'" "set sp \<union> set heap' \<subseteq> set heap" "distinct heap \<Longrightarrow> distinct (sp @ heap')"
proof -
  have "is_heap (\<lambda>a. st_next_execution (st a)) heap' \<and> mset sp + mset heap' \<subseteq># mset heap"
  proof (cases full)
    case True
    then show ?thesis using assms by (simp add: due_loop_full)
  next
    case False
    have disj: "{#a \<in># mset heap. P a#} + {#a \<in># mset heap. Q a#} \<subseteq># mset heap" if "\<And>a. \<not> (P a \<and> Q a)" for P Q
      using that by (intro mset_subset_eqI) auto
    show ?thesis
      using due_loop_spec [of st heap now sp heap'] assms False by (auto intro!: disj)
  qed
  then have h: "is_heap (\<lambda>a. st_next_execution (st a)) heap'" and m: "mset (sp @ heap') \<subseteq># mset heap" by simp_all
  show "is_heap (\<lambda>a. st_next_execution (st a)) heap'" by fact
  show "set sp \<union> set heap' \<subseteq> set heap" using set_mset_mono [OF m] by simp
  show "distinct (sp @ heap')" if "distinct heap"
  proof -
    have "count (mset (sp @ heap')) x \<le> count (mset heap) x" for x using m by (simp only: subseteq_mset_def)
    then show ?thesis using that unfolding distinct_count_atmost_1
      by (metis One_nat_def count_mset_0_iff le_0_eq le_Suc_eq nat.distinct(1))
  qed
qed

lemma sch_inv_process:
  assumes "sch_inv s"
  shows "sch_inv (snd (process_due_jobs now s))"
proof -
  let ?full = "int (length (sch_running_tasks s)) \<ge> sch_max_concurrent_tasks s"
  obtain sp heap where d: "due_loop (deref s) now ?full (sch_task_heap s) = (sp, heap)" by fastforce
  have "is_heap (\<lambda>a. st_next_execution (deref s a)) (sch_task_heap s)" "distinct (sch_task_heap s)"
    using assms by (simp_all add: sch_inv_def places_def heap_ordered_def due_at_def [abs_def])
  note p = due_loop_places [OF this(1) d] this(2)
  have "heap_ordered (s\<lparr>sch_task_heap := heap, sch_spawned := sch_spawned s @ sp\<rparr>)"
    using p(1) by (simp add: heap_ordered_def due_at_def [abs_def] deref_def)
  then show ?thesis
    using assms p by (auto simp: process_due_jobs_def d sch_inv_def places_def)
qed

lemma exec_begin_inv:
  assumes "sch_inv s" and "a \<in> set (sch_spawned s)"
  shows "sch_inv (snd (exec_begin io clk uuid a s))"
proof -
  let ?s0 = "s\<lparr>sch_spawned := remove1 a (sch_spawned s)\<rparr>"
  let ?s1 = "update_task a (\<lambda>t. t\<lparr>st_state := RUNNING, st_last_execution := Some (clk 0)\<rparr>) ?s0"
  let ?s2 = "?s1\<lparr>sch_running_tasks := sadd (st_task_id (deref ?s1 a)) (sch_running_tasks ?s1)\<rparr>"
  obtain e s3 where p: "persist_task_state io (clk 1) uuid ''job.running'' a ?s2 = (e, s3)" by fastforce
  have eq: "sch_store s3 = sch_store ?s1" "sch_tasks s3 = sch_tasks ?s1" "sch_task_heap s3 = sch_task_heap ?s1"
    "sch_spawned s3 = remove1 a (sch_spawned s)" "sch_in_flight s3 = sch_in_flight s"
    using persist_fields [of io "clk 1" uuid "''job.running''" a ?s2] unfolding p by simp_all
  have a: "a \<notin> set (sch_task_heap s)" "a \<notin> set (sch_in_flight s)" "distinct (sch_spawned s)" "a < length (sch_store s)"
    using assms by (auto simp: sch_inv_def places_def)
  have i0: "sch_inv ?s0"
    using assms(1) set_remove1_subset [of a "sch_spawned s"]
    by (auto simp: sch_inv_def places_def heap_ordered_def distinct_remove1)
  then have i1: "sch_inv ?s1" by (intro sch_inv_update) simp_all
  then have i3: "sch_inv s3" by (rule sch_inv_cong) (simp_all add: eq places_def)
  have "sch_inv (s3\<lparr>sch_in_flight := sch_in_flight s3 @ [a]\<rparr>)"
    using i3 a eq by (auto simp: sch_inv_def places_def heap_ordered_def)
  with i3 show ?thesis
    unfolding exec_begin_def Let_def p by (cases e) simp_all
qed

text \<open>A task that is executed is nowhere in the queues, so it may be pushed again.\<close>

definition off_queues :: "nat \<Rightarrow> Scheduler \<Rightarrow> bool" where
  "off_queues a s \<longleftrightarrow> sch_inv s \<and> a \<notin> set (places s) \<and> a < length (sch_store s)"

lemma off_queues_update: "off_queues a s \<Longrightarrow> off_queues a (update_task a f s)"
  using sch_inv_update [of s a f] by (auto simp: off_queues_def places_def)

lemma off_queues_counters:
  "off_queues a s \<Longrightarrow> off_queues a (s\<lparr>sch_total_executed := n\<rparr>)"
  "off_queues a s \<Longrightarrow> off_queues a (s\<lparr>sch_total_failed := n\<rparr>)"
  by (simp_all add: off_queues_def sch_inv_def places_def heap_ordered_def)

lemma off_queues_persist: "off_queues a s \<Longrightarrow> off_queues a (snd (persist_task_state io now uuid action a s))"
  unfolding off_queues_def by (auto intro: sch_inv_cong simp: places_def)

lemma off_queues_push: "off_queues a s \<Longrightarrow> sch_inv (heappush a s)"
  by (simp add: off_queues_def sch_inv_push)

lemma reschedule_spec:
  assumes "off_queues a s"
  shows "sch_inv (snd (reschedule_task now a s))"
    and "fst (reschedule_task now a s) \<noteq> None \<Longrightarrow> off_queues a (snd (reschedule_task now a s))"
  using assms off_queues_push [OF off_queues_update [OF assms]]
  by (auto simp: reschedule_task_def off_queues_def split: sum.splits)

lemma schedule_retry_inv:
  assumes "off_queues a s"
  shows "sch_inv (snd (schedule_retry now a s))"
  using assms off_queues_push [OF off_queues_update [OF assms]]
  by (auto simp: schedule_retry_def off_queues_def split: sum.splits)

lemma exec_success_spec:
  assumes "off_queues a s"
  shows "sch_inv (snd (exec_success io clk uuid a s))"
    and "fst (exec_success io clk uuid a s) \<noteq> None \<Longrightarrow> off_queues a (snd (exec_success io clk uuid a s))"
proof -
  let ?s1 = "(update_task a (\<lambda>t. t\<lparr>st_execution_count := st_execution_count t + 1, st_state := COMPLETED\<rparr>) s)
                 \<lparr>sch_total_executed := sch_total_executed s + 1\<rparr>"
  obtain e s2 where p: "persist_task_state io (clk 0) uuid ''job.completed'' a ?s1 = (e, s2)" by fastforce
  have "off_queues a ?s1" using assms by (intro off_queues_counters off_queues_update)
  from off_queues_persist [OF this, of io "clk 0" uuid "''job.completed''"] have s2: "off_queues a s2"
    unfolding p by simp
  show "sch_inv (snd (exec_success io clk uuid a s))"
    "fst (exec_success io clk uuid a s) \<noteq> None \<Longrightarrow> off_queues a (snd (exec_success io clk uuid a s))"
    using s2 reschedule_spec [OF s2, of "clk 1"] unfolding exec_success_def Let_def p
    by (auto simp: off_queues_def split: option.splits if_splits)
qed

lemma exec_failure_inv:
  assumes "off_queues a s"
  shows "sch_inv (snd (exec_failure io clk uuid a s))"
proof -
  let ?s1 = "(update_task a (\<lambda>t. t\<lparr>st_failure_count := st_failure_count t + 1, st_state := FAILED\<rparr>) s)
                 \<lparr>sch_total_failed := sch_total_failed s + 1\<rparr>"
  obtain e s2 where p: "persist_task_state io (clk 2) uuid ''job.failed'' a ?s1 = (e, s2)" by fastforce
  have "off_queues a ?s1" using assms by (intro off_queues_counters off_queues_update)
  from off_queues_persist [OF this, of io "clk 2" uuid "''job.failed''"] have s2: "off_queues a s2"
    unfolding p by simp
  show ?thesis
    using s2 schedule_retry_inv [OF s2, of "clk 3"] unfolding exec_failure_def Let_def p
    by (auto simp: off_queues_def split: option.splits if_splits)
qed

lemma exec_finish_inv:
  assumes "sch_inv s" and "a \<in> set (sch_in_flight s)"
  shows "sch_inv (snd (exec_finish io clk uuid ok a s))"
proof -
  let ?s = "s\<lparr>sch_in_flight := remove1 a (sch_in_flight s)\<rparr>"
  have q: "off_queues a ?s"
    using assms set_remove1_subset [of a "sch_in_flight s"]
    by (auto simp: off_queues_def sch_inv_def places_def heap_ordered_def distinct_remove1)
  have leave: "sch_inv (u\<lparr>sch_running_tasks := xs\<rparr>) = sch_inv u" for u xs
    by (simp add: sch_inv_def places_def heap_ordered_def)
  show ?thesis
    using exec_success_spec [OF q, of io clk uuid] exec_failure_inv [OF q, of io clk uuid]
      exec_failure_inv [of a "snd (exec_success io clk uuid a ?s)" io clk uuid]
    by (auto simp: exec_finish_def Let_def case_prod_beta leave split: option.splits)
qed

inductive sch_reach :: "Scheduler \<Rightarrow> bool" where
  init: "sch_reach (scheduler_init n hist)"
| add: "sch_reach s \<Longrightarrow> sch_reach (add_task t s)"
| cancel: "sch_reach s \<Longrightarrow> sch_reach (snd (cancel_task tid s))"
| start: "sch_reach s \<Longrightarrow> sch_reach (sch_start s)"
| stop: "sch_reach s \<Longrightarrow> sch_reach (sch_stop s)"
| pause: "sch_reach s \<Longrightarrow> sch_reach (sch_pause s)"
| resume: "sch_reach s \<Longrightarrow> sch_reach (sch_resume s)"
| due: "sch_reach s \<Longrightarrow> sch_reach (snd (process_due_jobs now s))"
| run: "sch_reach s \<Longrightarrow> a \<in> set (sch_spawned s) \<Longrightarrow> sch_reach (snd (exec_begin io clk uuid a s))"
| finish: "sch_reach s \<Longrightarrow> a \<in> set (sch_in_flight s) \<Longrightarrow> sch_reach (snd (exec_finish io clk uuid ok a s))"
| reload: "sch_reach s \<Longrightarrow> sch_reach (snd (reload_tasks_from_history clk iid s))"

lemma sch_reach_inv: "sch_reach s \<Longrightarrow> sch_inv s"
proof (induction rule: sch_reach.induct)
  case (init n hist)
  then show ?case by (simp add: scheduler_init_def sch_inv_def places_def heap_ordered_def is_heap_def)
next
  case (cancel s tid)
  then show ?case by (auto simp: cancel_task_def sch_inv_update split: option.splits)
next
  case (reload s clk iid)
  then show ?case by (auto simp: reload_tasks_from_history_def reload_inv split: option.splits sum.splits)
qed (simp_all add: sch_inv_add sch_inv_process exec_begin_inv exec_finish_inv,
     simp_all add: sch_inv_def places_def heap_ordered_def sch_start_def sch_stop_def sch_pause_def sch_resume_def)

subsection \<open>Properties\<close>

text \<open>
  C31: In every state of the scheduler, each task object is at most once in the heap, spawned or
  being executed, never in two of these places at once, and the first element of the heap is
  a task that is due no later than any other.
\<close>

theorem task_in_one_place:
  assumes "sch_reach s"
  shows "distinct (sch_task_heap s @ sch_spawned s @ sch_in_flight s) \<and>
    (\<forall>a \<in> set (sch_task_heap s). st_next_execution (deref s (sch_task_heap s ! 0)) \<le> st_next_execution (deref s a))"
proof -
  have i: "is_heap (due_at s) (sch_task_heap s)" "distinct (places s)"
    using sch_reach_inv [OF assms] by (simp_all add: sch_inv_def heap_ordered_def)
  show ?thesis
    using i(2) heapq.hd_least [OF i(1)] by (cases "sch_task_heap s") (auto simp: places_def due_at_def)
qed

definition demo_scheduler :: Scheduler where
  "demo_scheduler =
     snd (schedule_interval (\<lambda>_. 0) ''u'' ''poll'' 30 (Some 5) (Some ''b'') None
       (snd (schedule_once 0 ''u'' ''one'' 3 (Some ''a'') None (scheduler_init 1 None))))"

lemma demo_scheduler_reach: "sch_reach demo_scheduler"
  unfolding demo_scheduler_def schedule_interval_def schedule_once_def Let_def snd_conv
  by (intro sch_reach.add sch_reach.init)

lemma demo_scheduler_fields:
  "sch_task_heap demo_scheduler = [0, 1]" "sch_running_tasks demo_scheduler = []"
  "sch_max_concurrent_tasks demo_scheduler = 1" "sch_spawned demo_scheduler = []"
  "sch_store demo_scheduler = [new_task 0 ''a'' ''one'' ONE_TIME 3 [] None,
     new_task 0 ''b'' ''poll'' INTERVAL 5 [(''interval_seconds'', PInt 30)] None]"
  "sch_history_repository demo_scheduler = None" "sch_in_flight demo_scheduler = []"
  "sch_tasks demo_scheduler = [(''a'', 0), (''b'', 1)]"
  by (simp_all add: demo_scheduler_def schedule_interval_def schedule_once_def Let_def add_task_def heappush_def
      scheduler_init_def new_task_def due_at_def deref_def heap_push_def siftdown.simps parent_def)

lemma demo_scheduler_deref:
  "st_next_execution (deref demo_scheduler 0) = 3" "st_state (deref demo_scheduler 0) = PENDING"
  "st_next_execution (deref demo_scheduler (Suc 0)) = 5" "st_state (deref demo_scheduler (Suc 0)) = PENDING"
  by (simp_all add: deref_def demo_scheduler_fields new_task_def)

lemma demo_scheduler_due:
  "snd (process_due_jobs 10 demo_scheduler) = demo_scheduler\<lparr>sch_task_heap := [], sch_spawned := [0, 1]\<rparr>"
  by (simp add: process_due_jobs_def demo_scheduler_fields demo_scheduler_deref due_loop.simps heap_pop_def siftup_def
      sink_hole.simps siftdown.simps)

theorem task_in_one_place_witness:
  "distinct (sch_task_heap demo_scheduler @ sch_spawned demo_scheduler @ sch_in_flight demo_scheduler)"
  using task_in_one_place [OF demo_scheduler_reach] by blast

text \<open>
  C21: Unless the limit is already reached, \<open>process_due_jobs\<close> takes all due tasks off the heap,
  spawns those that are not cancelled in ascending order of their time, leaves the others in
  the heap and returns the number spawned.  The limit is not applied to the tasks of one call.
\<close>

theorem due_jobs_exact:
  assumes "sch_reach s" and "int (length (sch_running_tasks s)) < sch_max_concurrent_tasks s"
  shows "\<exists>sp. let s' = snd (process_due_jobs now s)
    in fst (process_due_jobs now s) = length sp \<and> sch_spawned s' = sch_spawned s @ sp \<and>
       mset sp = {#a \<in># mset (sch_task_heap s). st_next_execution (deref s a) \<le> now \<and> st_state (deref s a) \<noteq> CANCELLED#} \<and>
       sorted (map (\<lambda>a. st_next_execution (deref s a)) sp) \<and>
       mset (sch_task_heap s') = {#a \<in># mset (sch_task_heap s). now < st_next_execution (deref s a)#}"
proof -
  have h: "is_heap (\<lambda>a. st_next_execution (deref s a)) (sch_task_heap s)"
    using sch_reach_inv [OF assms(1)] by (simp add: sch_inv_def heap_ordered_def due_at_def [abs_def])
  obtain sp heap where d: "due_loop (deref s) now False (sch_task_heap s) = (sp, heap)" by fastforce
  have full: "(int (length (sch_running_tasks s)) \<ge> sch_max_concurrent_tasks s) = False" using assms(2) by simp
  show ?thesis
    using due_loop_spec [OF h d] unfolding process_due_jobs_def full d by (intro exI [of _ sp]) simp
qed

theorem due_jobs_exact_witness:
  "fst (process_due_jobs 10 demo_scheduler) = 2 \<and> sch_max_concurrent_tasks demo_scheduler = 1"
proof -
  obtain sp where "fst (process_due_jobs 10 demo_scheduler) = length sp"
    "mset sp = {#a \<in># mset (sch_task_heap demo_scheduler). st_next_execution (deref demo_scheduler a) \<le> 10 \<and>
       st_state (deref demo_scheduler a) \<noteq> CANCELLED#}"
    using due_jobs_exact [OF demo_scheduler_reach, of 10] by (auto simp: demo_scheduler_fields Let_def)
  then show ?thesis
    using size_mset [of sp] by (simp add: demo_scheduler_fields demo_scheduler_deref)
qed

text \<open>
  When the handler of a task in flight raises and no history storage is configured, the
  failure is counted; below the retry limit the task is pending again, in the heap, with
  exponential back-off from the current time, and at the limit it is failed and in no queue.
\<close>

theorem failure_backoff:
  assumes "sch_reach s" and "a \<in> set (sch_in_flight s)" and "sch_history_repository s = None"
    and "n = st_failure_count (deref s a) + 1"
    and "valid_datetime (clk 3 + st_retry_delay_seconds (deref s a) * 2 ^ nat (n - 1) * 1000000)"
  shows "let s' = snd (exec_finish io clk uuid False a s); t' = deref s' a
    in fst (exec_finish io clk uuid False a s) = None \<and> st_failure_count t' = n \<and>
       st_task_id t' \<notin> set (sch_running_tasks s') \<and>
       (if n < st_max_retries (deref s a)
        then st_state t' = PENDING \<and> a \<in> set (sch_task_heap s') \<and>
          st_next_execution t' = clk 3 + st_retry_delay_seconds (deref s a) * 2 ^ nat (n - 1) * 1000000
        else st_state t' = FAILED \<and> a \<notin> set (places s'))"
proof -
  have inv: "sch_inv s" using sch_reach_inv [OF assms(1)] .
  have a: "a < length (sch_store s)" "a \<notin> set (sch_task_heap s)" "a \<notin> set (sch_spawned s)" "distinct (sch_in_flight s)"
    using inv assms(2) by (auto simp: sch_inv_def places_def)
  define s1 where "s1 = (update_task a (\<lambda>t. t\<lparr>st_failure_count := st_failure_count t + 1, st_state := FAILED\<rparr>)
      (s\<lparr>sch_in_flight := remove1 a (sch_in_flight s)\<rparr>))\<lparr>sch_total_failed := sch_total_failed s + 1\<rparr>"
  have d: "deref s1 a = (deref s a)\<lparr>st_failure_count := n, st_state := FAILED\<rparr>" "a < length (sch_store s1)"
    "sch_history_repository s1 = None" "a \<notin> set (places s1)" "sch_running_tasks s1 = sch_running_tasks s"
    using a assms(3,4)
    by (simp_all add: s1_def deref_def update_task_def places_def set_remove1_eq)
  have p: "persist_task_state io (clk 2) uuid ''job.failed'' a s1 = (None, s1)"
    using d(3) by (simp add: persist_task_state_def)
  have f: "exec_failure io clk uuid a (s\<lparr>sch_in_flight := remove1 a (sch_in_flight s)\<rparr>) =
      (if n < st_max_retries (deref s a) then schedule_retry (clk 3) a s1 else (None, s1))"
    unfolding exec_failure_def Let_def using p d(1) by (simp add: s1_def)
  let ?nx = "clk 3 + st_retry_delay_seconds (deref s a) * 2 ^ nat (n - 1) * 1000000"
  have r: "schedule_retry (clk 3) a s1 = (None, heappush a (update_task a (\<lambda>t. t\<lparr>st_next_execution := ?nx, st_state := PENDING\<rparr>) s1))"
    using assms(5) by (simp add: schedule_retry_def add_seconds_def retry_delay_def d(1))
  show ?thesis
    using d f r by (simp add: exec_finish_def Let_def places_def) (simp add: deref_def update_task_def)
qed

theorem failure_backoff_witness:
  "let s = snd (exec_begin (\<lambda>_. None) (\<lambda>_. 11) ''w'' 0 (snd (process_due_jobs 10 demo_scheduler)))
   in st_next_execution (deref (snd (exec_finish (\<lambda>_. None) (\<lambda>_. 12) ''w'' False 0 s)) 0) = 60000012"
proof -
  let ?s1 = "snd (process_due_jobs 10 demo_scheduler)"
  let ?s = "snd (exec_begin (\<lambda>_. None) (\<lambda>_. 11) ''w'' 0 ?s1)"
  have reach: "sch_reach ?s"
    by (rule sch_reach.run [OF sch_reach.due [OF demo_scheduler_reach]]) (simp add: demo_scheduler_due)
  have f: "0 \<in> set (sch_in_flight ?s)" "sch_history_repository ?s = None"
    "st_failure_count (deref ?s 0) = 0" "st_retry_delay_seconds (deref ?s 0) = 60" "st_max_retries (deref ?s 0) = 3"
    by (simp_all add: demo_scheduler_due exec_begin_def persist_task_state_def update_task_def deref_def demo_scheduler_fields new_task_def Let_def)
  have v: "valid_datetime (12 + st_retry_delay_seconds (deref ?s 0) * 2 ^ nat (1 - 1) * 1000000)"
    by (simp add: f(4) valid_datetime_def max_datetime_def days_before_year_def us_per_day_def)
  show ?thesis
    using failure_backoff [OF reach f(1,2), of 1 "\<lambda>_. 12" "\<lambda>_. None" "''w''"] v f(3,4,5) by (simp add: Let_def)
qed

text \<open>
  Cancelling an interval task while it is being executed has no effect: when the handler
  returns, the task is pending again and back in the heap.
\<close>

theorem cancel_while_running_is_lost:
  assumes "sch_reach s" and "a \<in> set (sch_in_flight s)" and "sch_history_repository s = None"
    and "dget (sch_tasks s) tid = Some a" and "st_schedule_type (deref s a) = INTERVAL"
    and "dget (st_schedule_data (deref s a)) ''interval_seconds'' = Some (PInt i)"
    and "valid_datetime (clk 1 + i * 1000000)"
  shows "let s1 = snd (cancel_task tid s); s2 = snd (exec_finish io clk uuid True a s1)
    in st_state (deref s1 a) = CANCELLED \<and> st_state (deref s2 a) = PENDING \<and> a \<in> set (sch_task_heap s2) \<and>
       st_next_execution (deref s2 a) = clk 1 + i * 1000000"
proof -
  have a: "a < length (sch_store s)"
    using sch_reach_inv [OF assms(1)] assms(2) by (auto simp: sch_inv_def places_def)
  define s1 where "s1 = update_task a (\<lambda>t. t\<lparr>st_state := CANCELLED\<rparr>) s"
  have c: "snd (cancel_task tid s) = s1" using assms(4) by (simp add: cancel_task_def s1_def)
  have d1: "deref s1 a = (deref s a)\<lparr>st_state := CANCELLED\<rparr>" "a < length (sch_store s1)" "sch_history_repository s1 = None"
    using a assms(3) by (simp_all add: s1_def)
  define s2 where "s2 = (update_task a (\<lambda>t. t\<lparr>st_execution_count := st_execution_count t + 1, st_state := COMPLETED\<rparr>)
      (s1\<lparr>sch_in_flight := remove1 a (sch_in_flight s1)\<rparr>))\<lparr>sch_total_executed := sch_total_executed s1 + 1\<rparr>"
  have d2: "deref s2 a = (deref s a)\<lparr>st_execution_count := st_execution_count (deref s a) + 1, st_state := COMPLETED\<rparr>"
    "a < length (sch_store s2)" "sch_history_repository s2 = None"
    using d1 by (simp_all add: s2_def deref_def update_task_def)
  have nx: "next_run (clk 1) (deref s2 a) = Inr (clk 1 + i * 1000000)"
    using assms(5-7) by (simp add: d2(1) next_run_def dget_or_def add_seconds_def)
  let ?s3 = "heappush a (update_task a (\<lambda>t. t\<lparr>st_next_execution := clk 1 + i * 1000000, st_state := PENDING\<rparr>) s2)"
  have "persist_task_state io (clk 0) uuid ''job.completed'' a s2 = (None, s2)"
    using d2(3) by (simp add: persist_task_state_def)
  then have "exec_success io clk uuid a (s1\<lparr>sch_in_flight := remove1 a (sch_in_flight s1)\<rparr>) =
      (if st_schedule_type (deref s2 a) \<in> {INTERVAL, CRON, RECURRING} then reschedule_task (clk 1) a s2 else (None, s2))"
    by (simp del: One_nat_def add: exec_success_def Let_def s2_def)
  then have "exec_success io clk uuid a (s1\<lparr>sch_in_flight := remove1 a (sch_in_flight s1)\<rparr>) = (None, ?s3)"
    using assms(5) nx by (simp del: One_nat_def add: d2(1) reschedule_task_def)
  then show ?thesis
    unfolding c using d1(1) d2(2) by (simp add: exec_finish_def Let_def) (simp add: deref_def update_task_def)
qed

theorem cancel_while_running_is_lost_witness:
  "let s = snd (exec_begin (\<lambda>_. None) (\<lambda>_. 11) ''w'' 1 (snd (process_due_jobs 10 demo_scheduler)))
   in st_state (deref (snd (exec_finish (\<lambda>_. None) (\<lambda>_. 12) ''w'' True 1 (snd (cancel_task ''b'' s)))) 1) = PENDING"
proof -
  let ?s1 = "snd (process_due_jobs 10 demo_scheduler)"
  let ?s = "snd (exec_begin (\<lambda>_. None) (\<lambda>_. 11) ''w'' 1 ?s1)"
  have reach: "sch_reach ?s"
    by (rule sch_reach.run [OF sch_reach.due [OF demo_scheduler_reach]]) (simp add: demo_scheduler_due)
  have f: "1 \<in> set (sch_in_flight ?s)" "sch_history_repository ?s = None" "dget (sch_tasks ?s) ''b'' = Some 1"
    "st_schedule_type (deref ?s 1) = INTERVAL"
    "dget (st_schedule_data (deref ?s 1)) ''interval_seconds'' = Some (PInt 30)"
    by (simp_all add: demo_scheduler_due exec_begin_def persist_task_state_def update_task_def deref_def demo_scheduler_fields new_task_def Let_def)
  have v: "valid_datetime ((\<lambda>_. 12) 1 + 30 * 1000000)"
    by (simp add: valid_datetime_def max_datetime_def days_before_year_def us_per_day_def)
  from cancel_while_running_is_lost [OF reach f v, of "\<lambda>_. None" "''w''"] show ?thesis by (simp add: Let_def)
qed

end
