(* ===== verification/Resilience.thy ===== *)
theory Resilience
  imports Prelude Complex_Main
begin

section \<open>Circuit breakers, retries and rate limits\<close>

text \<open>
  \<open>runtime/circuit_breaker.py\<close>, \<open>runtime/circuit_states.py\<close> and \<open>runtime/rate_limiter.py\<close>.  Times
  are readings of \<open>time.time()\<close> in seconds, as rational numbers: the code only adds whole
  seconds to them and subtracts them from one another, and for readings below \<open>2 ^ 31\<close>, which are
  multiples of \<open>2 ^ - 22\<close>, these operations on doubles are exact.  The delays between retries are
  a parameter: they involve a random jitter and only control how long the thread sleeps.
\<close>

type_synonym seconds = rat

datatype CircuitState = CLOSED | OPEN | HALF_OPEN

datatype cb_state_obj = ClosedState | OpenState | HalfOpenState

fun circuit_state_value :: "CircuitState \<Rightarrow> string" where
  "circuit_state_value CLOSED = ''closed''"
| "circuit_state_value OPEN = ''open''"
| "circuit_state_value HALF_OPEN = ''half_open''"

record CircuitBreakerConfig =
  cbc_failure_threshold :: int
  cbc_success_threshold :: int
  cbc_open_duration_seconds :: int
  cbc_half_open_max_calls :: int
  cbc_monitor_window_seconds :: int

definition default_breaker_config :: CircuitBreakerConfig where
  "default_breaker_config =
     \<lparr>cbc_failure_threshold = 5, cbc_success_threshold = 3, cbc_open_duration_seconds = 60,
      cbc_half_open_max_calls = 1, cbc_monitor_window_seconds = 300\<rparr>"

record CircuitBreaker =
  cb_name :: string
  cb_config :: CircuitBreakerConfig
  cb_state :: string
  cb_failure_count :: int
  cb_success_count :: int
  cb_last_failure_time :: seconds
  cb_half_open_calls :: int
  cb_state_obj :: cb_state_obj

definition cb_state_for :: "string \<Rightarrow> cb_state_obj" where
  "cb_state_for s =
     (if s = ''closed'' then ClosedState else if s = ''open'' then OpenState
      else if s = ''half_open'' then HalfOpenState else ClosedState)"

definition new_breaker :: "string \<Rightarrow> CircuitBreakerConfig \<Rightarrow> CircuitBreaker" where
  "new_breaker name cfg =
     \<lparr>cb_name = name, cb_config = cfg, cb_state = circuit_state_value CLOSED, cb_failure_count = 0,
      cb_success_count = 0, cb_last_failure_time = 0, cb_half_open_calls = 0,
      cb_state_obj = cb_state_for (circuit_state_value CLOSED)\<rparr>"

subsection \<open>The state objects\<close>

definition base_record_success :: "CircuitBreaker \<Rightarrow> CircuitBreaker" where
  "base_record_success cb = cb\<lparr>cb_failure_count := max 0 (cb_failure_count cb - 1)\<rparr>"

definition base_record_failure :: "seconds \<Rightarrow> CircuitBreaker \<Rightarrow> CircuitBreaker" where
  "base_record_failure now cb =
     cb\<lparr>cb_failure_count := cb_failure_count cb + 1, cb_last_failure_time := now\<rparr>"

fun cb_can_execute_in :: "cb_state_obj \<Rightarrow> seconds \<Rightarrow> CircuitBreaker \<Rightarrow> bool \<times> CircuitBreaker" where
  "cb_can_execute_in ClosedState now cb = (True, cb)"
| "cb_can_execute_in OpenState now cb =
     (if now - cb_last_failure_time cb \<ge> of_int (cbc_open_duration_seconds (cb_config cb))
      then (True, cb\<lparr>cb_state_obj := HalfOpenState, cb_state := ''half_open'', cb_half_open_calls := 0\<rparr>)
      else (False, cb))"
| "cb_can_execute_in HalfOpenState now cb =
     (cb_half_open_calls cb < cbc_half_open_max_calls (cb_config cb), cb)"

fun cb_record_success_in :: "cb_state_obj \<Rightarrow> CircuitBreaker \<Rightarrow> CircuitBreaker" where
  "cb_record_success_in ClosedState cb = base_record_success cb"
| "cb_record_success_in OpenState cb = base_record_success cb"
| "cb_record_success_in HalfOpenState cb =
     (let cb1 = cb\<lparr>cb_success_count := cb_success_count cb + 1, cb_half_open_calls := cb_half_open_calls cb + 1\<rparr>
      in if cb_success_count cb1 \<ge> cbc_success_threshold (cb_config cb1)
         then cb1\<lparr>cb_state_obj := ClosedState, cb_state := ''closed'', cb_failure_count := 0, cb_success_count := 0\<rparr>
         else cb1)"

fun cb_record_failure_in :: "cb_state_obj \<Rightarrow> seconds \<Rightarrow> CircuitBreaker \<Rightarrow> CircuitBreaker" where
  "cb_record_failure_in ClosedState now cb =
     (let cb1 = base_record_failure now cb
      in if cb_failure_count cb1 \<ge> cbc_failure_threshold (cb_config cb1)
         then cb1\<lparr>cb_state_obj := OpenState, cb_state := ''open''\<rparr> else cb1)"
| "cb_record_failure_in OpenState now cb = base_record_failure now cb"
| "cb_record_failure_in HalfOpenState now cb =
     (base_record_failure now cb)\<lparr>cb_state_obj := OpenState, cb_state := ''open'', cb_half_open_calls := 0\<rparr>"

definition can_execute :: "seconds \<Rightarrow> CircuitBreaker \<Rightarrow> bool \<times> CircuitBreaker" where
  "can_execute now cb = cb_can_execute_in (cb_state_obj cb) now cb"

definition record_success :: "CircuitBreaker \<Rightarrow> CircuitBreaker" where
  "record_success cb = cb_record_success_in (cb_state_obj cb) cb"

definition record_failure :: "seconds \<Rightarrow> CircuitBreaker \<Rightarrow> CircuitBreaker" where
  "record_failure now cb = cb_record_failure_in (cb_state_obj cb) now cb"

subsection \<open>The registry\<close>

type_synonym breaker_registry = "(string, CircuitBreaker) dict"

definition get_or_create ::
  "string \<Rightarrow> CircuitBreakerConfig option \<Rightarrow> breaker_registry \<Rightarrow> CircuitBreaker \<times> breaker_registry" where
  "get_or_create name cfg reg =
     (case dget reg name of
        Some cb \<Rightarrow> (cb, reg)
      | None \<Rightarrow> (let cb = new_breaker name (case cfg of Some c \<Rightarrow> c | None \<Rightarrow> default_breaker_config)
                 in (cb, dset name cb reg)))"

definition get_breaker :: "string \<Rightarrow> breaker_registry \<Rightarrow> CircuitBreaker option" where
  "get_breaker name reg = dget reg name"

definition list_breakers :: "breaker_registry \<Rightarrow> CircuitBreaker list" where
  "list_breakers reg = dvals reg"

definition remove_breaker :: "string \<Rightarrow> breaker_registry \<Rightarrow> bool \<times> breaker_registry" where
  "remove_breaker name reg = (has_key reg name, ddel name reg)"

subsection \<open>Retries\<close>

text \<open>
  \<open>execute_with_retry\<close> and its synchronous twin.  Attempt number \<open>k\<close> of the operation returns or
  raises; \<open>abort_on\<close> and \<open>retry_on\<close> are the two tuples of exception classes as predicates.  The
  result carries the attempts after which the handler slept.
\<close>

datatype ('e, 'a) retry_result = Returned 'a | Raised 'e | NoCapturedError

fun retry_loop ::
  "(nat \<Rightarrow> 'e + 'a) \<Rightarrow> ('e \<Rightarrow> bool) \<Rightarrow> ('e \<Rightarrow> bool) \<Rightarrow> int \<Rightarrow> nat list \<Rightarrow> 'e option \<Rightarrow> nat list
    \<Rightarrow> ('e, 'a) retry_result \<times> nat list" where
  "retry_loop oper abort_on retry_on max_attempts [] last_error slept =
     (case last_error of None \<Rightarrow> NoCapturedError | Some e \<Rightarrow> Raised e, slept)"
| "retry_loop oper abort_on retry_on max_attempts (attempt # attempts) last_error slept =
     (case oper attempt of
        Inr v \<Rightarrow> (Returned v, slept)
      | Inl e \<Rightarrow>
          if abort_on e then (Raised e, slept)
          else if retry_on e
          then if int attempt \<ge> max_attempts then (Raised e, slept)
               else retry_loop oper abort_on retry_on max_attempts attempts (Some e) (slept @ [attempt])
          else (Raised e, slept))"

definition execute_with_retry ::
  "(nat \<Rightarrow> 'e + 'a) \<Rightarrow> ('e \<Rightarrow> bool) \<Rightarrow> ('e \<Rightarrow> bool) \<Rightarrow> int \<Rightarrow> ('e, 'a) retry_result \<times> nat list" where
  "execute_with_retry oper abort_on retry_on max_attempts =
     retry_loop oper abort_on retry_on max_attempts [0..<nat (max_attempts + 1)] None []"

subsection \<open>Rate limits\<close>

record RateLimitConfig =
  rlc_resource_name :: string
  rlc_max_requests :: int
  rlc_window_seconds :: int
  rlc_burst_size :: "int option"

definition rate_limit_config :: "string \<Rightarrow> int \<Rightarrow> int \<Rightarrow> int option \<Rightarrow> RateLimitConfig" where
  "rate_limit_config name n w burst =
     \<lparr>rlc_resource_name = name, rlc_max_requests = n, rlc_window_seconds = w,
      rlc_burst_size = (case burst of None \<Rightarrow> Some n | Some b \<Rightarrow> Some b)\<rparr>"

record RateLimitStatus =
  rls_resource_name :: string
  rls_allowed :: bool
  rls_remaining :: int
  rls_reset_time :: seconds
  rls_retry_after_seconds :: seconds
  rls_current_count :: int
  rls_max_requests :: int
  rls_window_seconds :: int

record RateLimiter =
  rl_configs :: "(string, RateLimitConfig) dict"
  rl_windows :: "(string, seconds list) dict"

definition rate_limiter_init :: RateLimiter where
  "rate_limiter_init = \<lparr>rl_configs = [], rl_windows = []\<rparr>"

definition configure :: "RateLimitConfig \<Rightarrow> RateLimiter \<Rightarrow> RateLimiter" where
  "configure cfg rl =
     rl\<lparr>rl_configs := dset (rlc_resource_name cfg) cfg (rl_configs rl),
        rl_windows := (if has_key (rl_windows rl) (rlc_resource_name cfg) then rl_windows rl
                       else dset (rlc_resource_name cfg) [] (rl_windows rl))\<rparr>"

definition unlimited_status :: "string \<Rightarrow> seconds \<Rightarrow> RateLimitStatus" where
  "unlimited_status name now =
     \<lparr>rls_resource_name = name, rls_allowed = True, rls_remaining = 999999, rls_reset_time = now + 60,
      rls_retry_after_seconds = 0, rls_current_count = 0, rls_max_requests = 999999, rls_window_seconds = 60\<rparr>"

definition oldest_or :: "seconds \<Rightarrow> seconds list \<Rightarrow> seconds" where
  "oldest_or now reqs = (case reqs of [] \<Rightarrow> now | t # ts \<Rightarrow> fold min ts t)"

definition denied_status :: "string \<Rightarrow> RateLimitConfig \<Rightarrow> seconds \<Rightarrow> seconds \<Rightarrow> int \<Rightarrow> RateLimitStatus" where
  "denied_status name cfg now oldest current =
     (let reset = oldest + of_int (rlc_window_seconds cfg)
      in \<lparr>rls_resource_name = name, rls_allowed = False, rls_remaining = 0, rls_reset_time = reset,
          rls_retry_after_seconds = max 0 (reset - now), rls_current_count = current,
          rls_max_requests = rlc_max_requests cfg, rls_window_seconds = rlc_window_seconds cfg\<rparr>)"

definition granted_status :: "string \<Rightarrow> RateLimitConfig \<Rightarrow> seconds \<Rightarrow> int \<Rightarrow> int \<Rightarrow> RateLimitStatus" where
  "granted_status name cfg now left current =
     \<lparr>rls_resource_name = name, rls_allowed = True, rls_remaining = left,
      rls_reset_time = now + of_int (rlc_window_seconds cfg), rls_retry_after_seconds = 0,
      rls_current_count = current, rls_max_requests = rlc_max_requests cfg,
      rls_window_seconds = rlc_window_seconds cfg\<rparr>"

definition rl_check :: "seconds \<Rightarrow> string \<Rightarrow> RateLimiter \<Rightarrow> RateLimitStatus \<times> RateLimiter" where
  "rl_check now name rl =
     (case dget (rl_configs rl) name of
        None \<Rightarrow> (unlimited_status name now, rl)
      | Some cfg \<Rightarrow>
          (let cutoff = now - of_int (rlc_window_seconds cfg);
               reqs = filter (\<lambda>t. t > cutoff) (dget_or (rl_windows rl) name []);
               current = int (length reqs)
           in if current \<ge> rlc_max_requests cfg
              then (denied_status name cfg now (oldest_or now reqs) current,
                    rl\<lparr>rl_windows := dset name reqs (rl_windows rl)\<rparr>)
              else (granted_status name cfg now (rlc_max_requests cfg - current - 1) (current + 1),
                    rl\<lparr>rl_windows := dset name (reqs @ [now]) (rl_windows rl)\<rparr>)))"

definition rl_peek :: "seconds \<Rightarrow> string \<Rightarrow> RateLimiter \<Rightarrow> RateLimitStatus" where
  "rl_peek now name rl =
     (case dget (rl_configs rl) name of
        None \<Rightarrow> unlimited_status name now
      | Some cfg \<Rightarrow>
          (let cutoff = now - of_int (rlc_window_seconds cfg);
               reqs = dget_or (rl_windows rl) name [];
               active = int (length (filter (\<lambda>t. t > cutoff) reqs))
           in if active \<ge> rlc_max_requests cfg
              then denied_status name cfg now (oldest_or now reqs) active
              else granted_status name cfg now (rlc_max_requests cfg - active) active))"

definition rl_reset :: "string \<Rightarrow> RateLimiter \<Rightarrow> bool \<times> RateLimiter" where
  "rl_reset name rl =
     (case dget (rl_windows rl) name of
        None \<Rightarrow> (False, rl)
      | Some reqs \<Rightarrow> (True, rl\<lparr>rl_windows := dset name [] (rl_windows rl)\<rparr>))"

definition list_resources :: "RateLimiter \<Rightarrow> string list" where
  "list_resources rl = dkeys (rl_configs rl)"

definition remove_config :: "string \<Rightarrow> RateLimiter \<Rightarrow> bool \<times> RateLimiter" where
  "remove_config name rl =
     (True, rl\<lparr>rl_configs := ddel name (rl_configs rl), rl_windows := ddel name (rl_windows rl)\<rparr>)"

subsection \<open>Breakers over time\<close>

inductive breaker_reach :: "CircuitBreaker \<Rightarrow> bool" where
  new: "breaker_reach (new_breaker name cfg)"
| can: "breaker_reach cb \<Longrightarrow> breaker_reach (snd (can_execute now cb))"
| success: "breaker_reach cb \<Longrightarrow> breaker_reach (record_success cb)"
| failure: "breaker_reach cb \<Longrightarrow> breaker_reach (record_failure now cb)"

definition breaker_inv :: "CircuitBreaker \<Rightarrow> bool" where
  "breaker_inv cb \<longleftrightarrow> cb_state_obj cb = cb_state_for (cb_state cb) \<and>
     cb_state cb \<in> {''closed'', ''open'', ''half_open''} \<and> 0 \<le> cb_failure_count cb \<and>
     (cb_state_obj cb = ClosedState \<and> 1 \<le> cbc_failure_threshold (cb_config cb) \<longrightarrow>
        cb_failure_count cb < cbc_failure_threshold (cb_config cb)) \<and>
     (1 \<le> cbc_success_threshold (cb_config cb) \<longrightarrow> cb_success_count cb < cbc_success_threshold (cb_config cb))"

lemmas breaker_defs = can_execute_def record_success_def record_failure_def base_record_success_def
  base_record_failure_def

lemma breaker_reach_inv: "breaker_reach cb \<Longrightarrow> breaker_inv cb"
proof (induction rule: breaker_reach.induct)
  case (new name cfg)
  then show ?case by (simp add: new_breaker_def breaker_inv_def cb_state_for_def)
next
  case (can cb now)
  then show ?case
    by (cases "cb_state_obj cb") (auto simp: breaker_inv_def breaker_defs cb_state_for_def)
next
  case (success cb)
  then show ?case
    by (cases "cb_state_obj cb") (auto simp: breaker_inv_def breaker_defs cb_state_for_def Let_def)
next
  case (failure cb now)
  then show ?case
    by (cases "cb_state_obj cb") (auto simp: breaker_inv_def breaker_defs cb_state_for_def Let_def)
qed

lemma open_failures:
  "cb_state_obj cb = OpenState \<Longrightarrow>
     cb_state_obj (fold record_failure ts cb) = OpenState \<and>
     cb_config (fold record_failure ts cb) = cb_config cb \<and>
     cb_last_failure_time (fold record_failure ts cb) = last (cb_last_failure_time cb # ts)"
  by (induction ts arbitrary: cb) (simp_all add: breaker_defs)

lemma closed_failures:
  assumes "cb_state_obj cb = ClosedState" and "0 \<le> cb_failure_count cb"
    and "cbc_failure_threshold (cb_config cb) \<le> cb_failure_count cb + int (length ts)" and "ts \<noteq> []"
  shows "cb_state_obj (fold record_failure ts cb) = OpenState \<and>
    cb_config (fold record_failure ts cb) = cb_config cb \<and>
    cb_last_failure_time (fold record_failure ts cb) = last ts"
  using assms
proof (induction ts arbitrary: cb)
  case (Cons t ts)
  let ?cb = "record_failure t cb"
  have r: "cb_failure_count ?cb = cb_failure_count cb + 1" "cb_config ?cb = cb_config cb" "cb_last_failure_time ?cb = t"
    "cb_state_obj ?cb = (if cbc_failure_threshold (cb_config cb) \<le> cb_failure_count cb + 1 then OpenState else ClosedState)"
    using Cons.prems(1) by (simp_all add: breaker_defs Let_def)
  show ?case
  proof (cases "cb_state_obj ?cb = OpenState")
    case True
    then show ?thesis using open_failures [of ?cb ts] r(2,3) by simp
  next
    case False
    then have "ts \<noteq> []" using Cons.prems(3) r(4) by (auto split: if_splits)
    then show ?thesis using Cons.IH [of ?cb] Cons.prems r False by (auto split: if_splits)
  qed
qed simp

text \<open>The protocol of a client: ask, run the operation if allowed, report how it went.\<close>

definition guarded_call :: "seconds \<Rightarrow> bool \<Rightarrow> CircuitBreaker \<Rightarrow> bool \<times> CircuitBreaker" where
  "guarded_call now ok cb =
     (case can_execute now cb of
        (False, cb1) \<Rightarrow> (False, cb1)
      | (True, cb1) \<Rightarrow> (True, if ok then record_success cb1 else record_failure now cb1))"

lemma exhausted_rejects:
  assumes "cb_state_obj cb = HalfOpenState" and "cbc_half_open_max_calls (cb_config cb) \<le> cb_half_open_calls cb"
  shows "guarded_call now ok cb = (False, cb)"
  using assms by (simp add: guarded_call_def can_execute_def)

subsection \<open>Sliding windows\<close>

text \<open>Checks at the given times: the times of the granted ones, and the limiter.\<close>

fun rl_run :: "string \<Rightarrow> seconds list \<Rightarrow> RateLimiter \<Rightarrow> seconds list \<times> RateLimiter" where
  "rl_run name [] rl = ([], rl)"
| "rl_run name (t # ts) rl =
     (case rl_check t name rl of
        (st, rl1) \<Rightarrow> (case rl_run name ts rl1 of
           (acc, rl2) \<Rightarrow> (if rls_allowed st then t # acc else acc, rl2)))"

definition in_window :: "int \<Rightarrow> seconds \<Rightarrow> seconds list \<Rightarrow> nat" where
  "in_window w a ts = length (filter (\<lambda>t. a - of_int w < t \<and> t \<le> a) ts)"

lemma status_allowed [simp]:
  "rls_allowed (denied_status name cfg now old cur) = False"
  "rls_allowed (granted_status name cfg now left cur) = True"
  "rls_allowed (unlimited_status name now) = True"
  by (simp_all add: denied_status_def granted_status_def unlimited_status_def Let_def)

lemma filter_filter_later:
  fixes t0 :: seconds
  assumes "t0 \<le> t"
  shows "filter (\<lambda>x. x > t) (filter (\<lambda>x. x > t0) xs) = filter (\<lambda>x. x > t) xs"
  using assms by (induction xs) auto

lemma length_filter_mono:
  assumes "\<And>x. x \<in> set xs \<Longrightarrow> P x \<Longrightarrow> Q x"
  shows "length (filter P xs) \<le> length (filter Q xs)"
  using assms by (induction xs) auto

text \<open>
  The window of the limiter holds the granted times that were inside the window at the last
  check; \<open>acc\<close> are the ones granted so far.
\<close>

definition window_inv :: "string \<Rightarrow> RateLimitConfig \<Rightarrow> seconds list \<Rightarrow> seconds \<Rightarrow> RateLimiter \<Rightarrow> bool" where
  "window_inv name cfg acc now rl \<longleftrightarrow>
     dget (rl_configs rl) name = Some cfg \<and>
     dget_or (rl_windows rl) name [] = filter (\<lambda>t. t > now - of_int (rlc_window_seconds cfg)) acc \<and>
     (\<forall>t \<in> set acc. t \<le> now) \<and>
     (\<forall>a. int (in_window (rlc_window_seconds cfg) a acc) \<le> max 0 (rlc_max_requests cfg))"

lemma check_window_inv:
  assumes inv: "window_inv name cfg acc now rl" and le: "now \<le> t" and w: "0 < rlc_window_seconds cfg"
  shows "window_inv name cfg (if rls_allowed (fst (rl_check t name rl)) then acc @ [t] else acc) t
    (snd (rl_check t name rl))"
proof -
  let ?w = "of_int (rlc_window_seconds cfg) :: seconds"
  let ?reqs = "filter (\<lambda>x. x > t - ?w) acc"
  have cfg: "dget (rl_configs rl) name = Some cfg"
    and win: "dget_or (rl_windows rl) name [] = filter (\<lambda>x. x > now - ?w) acc"
    and old: "\<forall>x \<in> set acc. x \<le> now"
    and cnt: "\<And>a. int (in_window (rlc_window_seconds cfg) a acc) \<le> max 0 (rlc_max_requests cfg)"
    using inv by (auto simp: window_inv_def)
  have reqs: "filter (\<lambda>x. x > t - ?w) (dget_or (rl_windows rl) name []) = ?reqs"
    unfolding win using le by (intro filter_filter_later) simp
  show ?thesis
  proof (cases "int (length ?reqs) \<ge> rlc_max_requests cfg")
    case True
    then have "rl_check t name rl = (denied_status name cfg t (oldest_or t ?reqs) (int (length ?reqs)),
        rl\<lparr>rl_windows := dset name ?reqs (rl_windows rl)\<rparr>)"
      by (simp add: rl_check_def cfg reqs Let_def)
    then show ?thesis using cfg old cnt le by (auto simp: window_inv_def dget_or_def)
  next
    case False
    then have chk: "rl_check t name rl = (granted_status name cfg t (rlc_max_requests cfg - int (length ?reqs) - 1)
          (int (length ?reqs) + 1), rl\<lparr>rl_windows := dset name (?reqs @ [t]) (rl_windows rl)\<rparr>)"
      by (simp add: rl_check_def cfg reqs Let_def)
    have "int (in_window (rlc_window_seconds cfg) a (acc @ [t])) \<le> max 0 (rlc_max_requests cfg)" for a
    proof (cases "a - ?w < t \<and> t \<le> a")
      case True
      have "in_window (rlc_window_seconds cfg) a acc \<le> length ?reqs"
        unfolding in_window_def using True by (intro length_filter_mono) auto
      moreover have "in_window (rlc_window_seconds cfg) a (acc @ [t]) = in_window (rlc_window_seconds cfg) a acc + 1"
        using True by (simp add: in_window_def)
      ultimately show ?thesis using False by linarith
    next
      case outside: False
      then have "in_window (rlc_window_seconds cfg) a (acc @ [t]) = in_window (rlc_window_seconds cfg) a acc"
        by (auto simp: in_window_def)
      then show ?thesis using cnt [of a] by simp
    qed
    moreover have "filter (\<lambda>x. x > t - ?w) (acc @ [t]) = (if t > t - ?w then ?reqs @ [t] else ?reqs)" by simp
    ultimately show ?thesis
      using chk cfg old le w by (auto simp: window_inv_def dget_or_def)
  qed
qed

lemma rl_run_window:
  assumes "window_inv name cfg acc now rl" and "sorted (now # ts)" and "0 < rlc_window_seconds cfg"
  shows "window_inv name cfg (acc @ fst (rl_run name ts rl)) (last (now # ts)) (snd (rl_run name ts rl))"
  using assms
proof (induction ts arbitrary: acc now rl)
  case (Cons t ts)
  obtain st rl1 where chk: "rl_check t name rl = (st, rl1)" by fastforce
  have le: "now \<le> t" using Cons.prems(2) by simp
  have inv: "window_inv name cfg (if rls_allowed st then acc @ [t] else acc) t rl1"
    using check_window_inv [OF Cons.prems(1) le Cons.prems(3)] by (simp add: chk)
  have "sorted (t # ts)" using Cons.prems(2) by simp
  from Cons.IH [OF inv this Cons.prems(3)] show ?case
    by (cases "rls_allowed st") (simp_all add: chk case_prod_beta)
qed simp

lemma retry_loop_prefix:
  assumes "\<forall>j \<in> {k..<n}. \<exists>e. oper j = Inl e \<and> \<not> abort_on e \<and> retry_on e" and "k \<le> n" and "int n \<le> m"
  shows "\<exists>err. retry_loop oper abort_on retry_on m [k..<nat (m + 1)] lst slept =
    retry_loop oper abort_on retry_on m [n..<nat (m + 1)] err (slept @ [k..<n])"
  using assms
proof (induction "n - k" arbitrary: k lst slept)
  case 0
  then show ?case by auto
next
  case (Suc d)
  then have k: "k < n" by simp
  obtain e where e: "oper k = Inl e" "\<not> abort_on e" "retry_on e" using Suc.prems(1) k by force
  have "[k..<nat (m + 1)] = k # [Suc k..<nat (m + 1)]" using k Suc.prems(3) by (intro upt_conv_Cons) linarith
  then have "retry_loop oper abort_on retry_on m [k..<nat (m + 1)] lst slept =
      retry_loop oper abort_on retry_on m [Suc k..<nat (m + 1)] (Some e) (slept @ [k])"
    using e k Suc.prems(3) by simp
  moreover have "\<exists>err. retry_loop oper abort_on retry_on m [Suc k..<nat (m + 1)] (Some e) (slept @ [k]) =
      retry_loop oper abort_on retry_on m [n..<nat (m + 1)] err ((slept @ [k]) @ [Suc k..<n])"
    using Suc.hyps(2) Suc.prems k by (intro Suc.hyps(1)) auto
  moreover have "[k..<n] = k # [Suc k..<n]" using k by (rule upt_conv_Cons)
  ultimately show ?case by simp
qed

subsection \<open>Properties\<close>

text \<open>
  A closed breaker opens once the failures since reach its threshold, and then lets nothing
  through until the open duration has passed since the last failure; the first call after that
  is let through half-open.
\<close>

theorem breaker_trips_and_recovers:
  assumes "breaker_reach cb" and "cb_state cb = ''closed''" and "ts \<noteq> []"
    and "cbc_failure_threshold (cb_config cb) \<le> int (length ts)"
  shows "let cb' = fold record_failure ts cb; d = of_int (cbc_open_duration_seconds (cb_config cb))
    in cb_state_obj cb' = OpenState \<and>
       (now - last ts < d \<longrightarrow> can_execute now cb' = (False, cb')) \<and>
       (d \<le> now - last ts \<longrightarrow> fst (can_execute now cb') \<and> cb_state (snd (can_execute now cb')) = ''half_open'')"
proof -
  have "cb_state_obj cb = ClosedState" "0 \<le> cb_failure_count cb"
    using breaker_reach_inv [OF assms(1)] assms(2) by (simp_all add: breaker_inv_def cb_state_for_def)
  with closed_failures [of cb ts] assms(3,4) show ?thesis by (simp add: Let_def can_execute_def)
qed

theorem breaker_trips_and_recovers_witness:
  "cb_state_obj (fold record_failure [1, 2, 3, 4, 5] (new_breaker ''svc'' default_breaker_config)) = OpenState"
proof -
  let ?cb = "new_breaker ''svc'' default_breaker_config"
  have "breaker_reach ?cb" by (rule breaker_reach.new)
  moreover have "cb_state ?cb = ''closed''" "cbc_failure_threshold (cb_config ?cb) \<le> int (length [1, 2, 3, 4, 5 :: seconds])"
    by (simp_all add: new_breaker_def default_breaker_config_def)
  ultimately show ?thesis
    using breaker_trips_and_recovers [of ?cb "[1, 2, 3, 4, 5]" 0] by (simp add: Let_def)
qed

text \<open>
  With the default configuration a breaker that has opened never closes again in sequential
  use: after one successful trial call it stays half-open, and every later call is rejected
  whatever the time.
\<close>

theorem default_breaker_never_closes:
  assumes "t + 60 \<le> t'"
  shows "let cb = snd (guarded_call t' True (fold record_failure [t, t, t, t, t] (new_breaker name default_breaker_config)))
    in cb_state cb = ''half_open'' \<and>
       fold (\<lambda>(now, ok) cb. snd (guarded_call now ok cb)) calls cb = cb \<and> \<not> fst (guarded_call now ok cb)"
proof -
  define cb where
    "cb = snd (guarded_call t' True (fold record_failure [t, t, t, t, t] (new_breaker name default_breaker_config)))"
  have st: "cb_state_obj cb = HalfOpenState" "cb_state cb = ''half_open''"
    "cbc_half_open_max_calls (cb_config cb) \<le> cb_half_open_calls cb"
    using assms
    by (simp_all add: cb_def guarded_call_def breaker_defs new_breaker_def default_breaker_config_def cb_state_for_def Let_def)
  note rej = exhausted_rejects [OF st(1,3)]
  have "fold (\<lambda>(now, ok) cb. snd (guarded_call now ok cb)) calls cb = cb"
    by (induction calls) (auto simp: rej)
  then show ?thesis using st(2) rej unfolding cb_def [symmetric] by (simp add: Let_def)
qed

theorem default_breaker_never_closes_witness:
  "\<not> fst (guarded_call 1000 True (snd (guarded_call 61 True
      (fold record_failure [1, 1, 1, 1, 1] (new_breaker ''svc'' default_breaker_config)))))"
  using default_breaker_never_closes [of 1 61 "''svc''" "[]" 1000 True] by (simp add: Let_def)

text \<open>
  In every state a breaker can reach its text and its state object agree, the failure count
  is not negative, a closed breaker is below its failure threshold and no breaker keeps a
  success count that has reached the success threshold.
\<close>

theorem breaker_invariant:
  assumes "breaker_reach cb" and "1 \<le> cbc_failure_threshold (cb_config cb)" and "1 \<le> cbc_success_threshold (cb_config cb)"
  shows "cb_state_obj cb = cb_state_for (cb_state cb) \<and> cb_state cb \<in> {''closed'', ''open'', ''half_open''} \<and>
    0 \<le> cb_failure_count cb \<and> cb_success_count cb < cbc_success_threshold (cb_config cb) \<and>
    (cb_state cb = ''closed'' \<longrightarrow> cb_failure_count cb < cbc_failure_threshold (cb_config cb))"
  using breaker_reach_inv [OF assms(1)] assms(2,3) by (auto simp: breaker_inv_def cb_state_for_def)

theorem breaker_invariant_witness:
  "cb_failure_count (record_success (record_failure 3 (new_breaker ''svc'' default_breaker_config))) \<ge> 0"
proof -
  let ?cb = "record_success (record_failure 3 (new_breaker ''svc'' default_breaker_config))"
  have "breaker_reach ?cb" by (intro breaker_reach.success breaker_reach.failure breaker_reach.new)
  moreover have "1 \<le> cbc_failure_threshold (cb_config ?cb)" "1 \<le> cbc_success_threshold (cb_config ?cb)"
    by (simp_all add: breaker_defs new_breaker_def default_breaker_config_def cb_state_for_def Let_def)
  ultimately show ?thesis using breaker_invariant [of ?cb] by simp
qed

text \<open>
  With retriable exceptions only, the retry handler returns the result of the first attempt
  that succeeds, after sleeping once per failed attempt; when all \<open>max_attempts + 1\<close> attempts
  fail it raises the exception of the last one, having slept \<open>max_attempts\<close> times.
\<close>

theorem retry_first_success:
  assumes "int n \<le> max_attempts" and "\<forall>j < n. \<exists>e. oper j = Inl e \<and> \<not> abort_on e \<and> retry_on e"
    and "(\<exists>v. oper n = Inr v) \<or> int n = max_attempts \<and> (\<exists>e. oper n = Inl e \<and> \<not> abort_on e \<and> retry_on e)"
  shows "execute_with_retry oper abort_on retry_on max_attempts =
    (case oper n of Inr v \<Rightarrow> Returned v | Inl e \<Rightarrow> Raised e, [0..<n])"
proof -
  obtain err where "execute_with_retry oper abort_on retry_on max_attempts =
      retry_loop oper abort_on retry_on max_attempts [n..<nat (max_attempts + 1)] err [0..<n]"
    using retry_loop_prefix [of 0 n oper abort_on retry_on max_attempts None "[]"] assms(1,2)
    by (auto simp: execute_with_retry_def)
  moreover have "[n..<nat (max_attempts + 1)] = n # [Suc n..<nat (max_attempts + 1)]"
    using assms(1) by (intro upt_conv_Cons) linarith
  ultimately show ?thesis using assms(3) by auto
qed

theorem retry_first_success_witness:
  "execute_with_retry (\<lambda>k. if k = 2 then Inr True else Inl k) (\<lambda>_. False) (\<lambda>_. True) 3 = (Returned True, [0, 1])"
proof -
  let ?f = "\<lambda>k. if k = 2 then Inr True else Inl k :: nat + bool"
  have "int 2 \<le> 3" "\<forall>j < 2. \<exists>e. ?f j = Inl e \<and> \<not> False \<and> True"
    "(\<exists>v. ?f 2 = Inr v) \<or> int 2 = 3 \<and> (\<exists>e. ?f 2 = Inl e \<and> \<not> False \<and> True)" by auto
  from retry_first_success [OF this] show ?thesis by (simp add: upt_rec numeral_2_eq_2)
qed

text \<open>
  C33: However the checks of a configured resource fall, no window of its length ever contains
  more granted requests than the maximum.
\<close>

theorem sliding_window_bound:
  assumes "0 < w" and "0 \<le> n" and "sorted ts"
  shows "int (in_window w a (fst (rl_run name ts (configure (rate_limit_config name n w burst) rate_limiter_init)))) \<le> n"
proof (cases ts)
  case Nil
  then show ?thesis using assms(2) by (simp add: in_window_def)
next
  case (Cons t ts')
  let ?cfg = "rate_limit_config name n w burst" and ?rl = "configure (rate_limit_config name n w burst) rate_limiter_init"
  have "window_inv name ?cfg [] t ?rl"
    by (simp add: window_inv_def configure_def rate_limiter_init_def rate_limit_config_def dget_or_def in_window_def has_key_def)
  from rl_run_window [OF this, of ts] assms Cons
  have "window_inv name ?cfg (fst (rl_run name ts ?rl)) (last (t # ts)) (snd (rl_run name ts ?rl))"
    by (simp add: rate_limit_config_def)
  then show ?thesis using assms(2) by (simp add: window_inv_def rate_limit_config_def)
qed

theorem sliding_window_bound_witness:
  "int (in_window 10 12 (fst (rl_run ''api'' [1, 2, 3, 11, 12] (configure (rate_limit_config ''api'' 2 10 None) rate_limiter_init)))) \<le> 2"
  using sliding_window_bound [of 10 2 "[1, 2, 3, 11, 12]" 12 "''api''" None] by simp

end
