(* ===== verification/Contexts.thy ===== *)
theory Contexts
  imports Repository
begin

section \<open>Execution contexts\<close>

text \<open>
  \<open>core/context.py\<close> (\<open>Variable\<close>, \<open>ExecutionContext\<close>, \<open>ContextManager\<close>) with the validating
  \<open>save_persisted\<close> of \<open>persistence/variable_repository.py\<close>.  Contexts refer to their parent and
  their children and the manager refers to contexts, so they live in a store and are referred to
  by address; a context is allocated after its parent, which is why an address is greater than
  its parent's and walks up or down the tree end.  \<open>ExecutionContext.destroy\<close> is recursive; its
  first argument is the recursion depth Python has left, and running out of it raises.  A schema
  entity (a document model) is represented by its name; the DSDM export only reads the context and
  is left out.
\<close>

datatype ContextScope = GLOBAL | PROCESS | SUBPROCESS | ACTIVITY | LOCAL

datatype VariableScope = PUBLIC | PROTECTED | PRIVATE

fun context_scope_value :: "ContextScope \<Rightarrow> string" where
  "context_scope_value GLOBAL = ''global''"
| "context_scope_value PROCESS = ''process''"
| "context_scope_value SUBPROCESS = ''subprocess''"
| "context_scope_value ACTIVITY = ''activity''"
| "context_scope_value LOCAL = ''local''"

fun variable_scope_value :: "VariableScope \<Rightarrow> string" where
  "variable_scope_value PUBLIC = ''public''"
| "variable_scope_value PROTECTED = ''protected''"
| "variable_scope_value PRIVATE = ''private''"

definition variable_scope_of :: "string \<Rightarrow> VariableScope result" where
  "variable_scope_of = enum_of variable_scope_value [PUBLIC, PROTECTED, PRIVATE]"

subsection \<open>Variables\<close>

record Variable =
  v_name :: string
  v_value :: pyval
  v_type :: string
  v_scope :: VariableScope
  v_created_at :: datetime
  v_updated_at :: datetime
  v_is_transient :: bool
  v_metadata :: pydict
  v_schema_binding :: "string option option"
  v_schema_entity_cache :: "string option"

definition bind_variable_schema :: "datetime \<Rightarrow> string option \<Rightarrow> Variable \<Rightarrow> Variable" where
  "bind_variable_schema now entity v =
     v\<lparr>v_schema_binding := Some entity, v_schema_entity_cache := entity, v_updated_at := now\<rparr>"

definition variable_to_record :: "string \<Rightarrow> string \<Rightarrow> Variable \<Rightarrow> pydict" where
  "variable_to_record iid scope_id v =
     [(''instance_id'', PStr iid),
      (''scope_id'', PStr scope_id),
      (''name'', PStr (v_name v)),
      (''value'', v_value v),
      (''value_type'', PStr (v_type v)),
      (''updated_at'', PStr (isoformat (v_updated_at v))),
      (''payload'', PDict
        [(''scope'', PStr (variable_scope_value (v_scope v))),
         (''created_at'', PStr (isoformat (v_created_at v))),
         (''is_transient'', PBool (v_is_transient v)),
         (''metadata'', PDict (v_metadata v))])]"

text \<open>The binding a record carries: only its entity's name is read back.\<close>

definition read_binding :: "pydict \<Rightarrow> string option option result" where
  "read_binding nested =
     (case as_dict (pget nested ''schema_binding'') of
        [] \<Rightarrow> Inr None
      | sb \<Rightarrow> (case pget sb ''entity'' of
                 PDict ed \<Rightarrow> bindr (py_str (pget_or ed ''name'' (PStr ''unknown''))) (\<lambda>n. Inr (Some (Some n)))
               | _ \<Rightarrow> Inr None))"

definition variable_from_record :: "clock \<Rightarrow> pydict \<Rightarrow> Variable result" where
  "variable_from_record clk p =
     (let nested = as_dict (pget p ''payload'')
      in bindr (read_binding nested) (\<lambda>sb.
         bindr (bindr (pindex p ''name'') py_str) (\<lambda>name.
         bindr (py_str (pget_or p ''value_type'' (PStr ''object''))) (\<lambda>ty.
         bindr (bindr (py_str (pget_or nested ''scope'' (PStr ''public''))) variable_scope_of) (\<lambda>sc.
         bindr (parse_datetime (clk 0) (pget nested ''created_at'')) (\<lambda>ca.
         bindr (parse_datetime (clk 1) (pget p ''updated_at'')) (\<lambda>ua.
         bindr (py_dict (por (pget nested ''metadata'') (PDict []))) (\<lambda>md.
           Inr \<lparr>v_name = name, v_value = pget p ''value'', v_type = ty, v_scope = sc, v_created_at = ca, v_updated_at = ua,
                v_is_transient = truthy (pget_or nested ''is_transient'' (PBool False)), v_metadata = md,
                v_schema_binding = sb, v_schema_entity_cache = None\<rparr>))))))))"

text \<open>\<open>_INFER_TYPE\<close>\<close>

fun infer_type :: "pyval \<Rightarrow> string" where
  "infer_type PNone = ''null''"
| "infer_type (PBool b) = ''boolean''"
| "infer_type (PInt i) = ''integer''"
| "infer_type (PFloat f) = ''double''"
| "infer_type (PStr s) = ''string''"
| "infer_type (PList xs) = ''list''"
| "infer_type (PTuple xs) = ''list''"
| "infer_type (PDict d) = ''json''"
| "infer_type (PBytes s) = ''bytes''"
| "infer_type v = ''object''"

subsection \<open>Contexts\<close>

record ExecutionContext =
  cx_context_id :: string
  cx_scope :: ContextScope
  cx_parent :: "nat option"
  cx_children :: "nat list"
  cx_schema_entity :: "string option"
  cx_schema_registry :: "(string, string) dict"
  cx_variables :: "(string, Variable) dict"
  cx_metadata :: pydict
  cx_created_at :: datetime
  cx_updated_at :: datetime
  cx_is_active :: bool

type_synonym context_store = "ExecutionContext list"

text \<open>\<open>ExecutionContext(context_id, scope, parent)\<close> with its registration at the parent.\<close>

definition new_context :: "clock \<Rightarrow> string \<Rightarrow> ContextScope \<Rightarrow> nat option \<Rightarrow> ExecutionContext" where
  "new_context clk cid sc par =
     \<lparr>cx_context_id = cid, cx_scope = sc, cx_parent = par, cx_children = [], cx_schema_entity = None,
      cx_schema_registry = [], cx_variables = [], cx_metadata = [], cx_created_at = clk 0, cx_updated_at = clk 1,
      cx_is_active = True\<rparr>"

definition alloc_context :: "clock \<Rightarrow> string \<Rightarrow> ContextScope \<Rightarrow> nat option \<Rightarrow> context_store \<Rightarrow> nat \<times> context_store" where
  "alloc_context clk cid sc par st =
     (let a = length st; st1 = st @ [new_context clk cid sc par]
      in case par of
           None \<Rightarrow> (a, st1)
         | Some p \<Rightarrow> (a, st1[p := (st1 ! p)\<lparr>cx_children := cx_children (st1 ! p) @ [a]\<rparr>]))"

definition cx_set_variable ::
  "clock \<Rightarrow> string \<Rightarrow> pyval \<Rightarrow> string option \<Rightarrow> VariableScope \<Rightarrow> bool \<Rightarrow> ExecutionContext \<Rightarrow> ExecutionContext" where
  "cx_set_variable clk name val ty sc transient c =
     (let t = (case ty of None \<Rightarrow> infer_type val | Some t \<Rightarrow> t)
      in case dget (cx_variables c) name of
           Some v \<Rightarrow> c\<lparr>cx_variables := dset name (v\<lparr>v_value := val, v_type := t, v_updated_at := clk 0\<rparr>) (cx_variables c),
                       cx_updated_at := clk 1\<rparr>
         | None \<Rightarrow> c\<lparr>cx_variables := dset name
                         \<lparr>v_name = name, v_value = val, v_type = t, v_scope = sc, v_created_at = clk 0, v_updated_at = clk 1,
                          v_is_transient = transient, v_metadata = [], v_schema_binding = None,
                          v_schema_entity_cache = None\<rparr> (cx_variables c),
                      cx_updated_at := clk 2\<rparr>)"

text \<open>The walk up the tree, the context itself first.\<close>

function ancestors :: "context_store \<Rightarrow> nat \<Rightarrow> nat list" where
  "ancestors st a =
     a # (case cx_parent (st ! a) of
            None \<Rightarrow> []
          | Some p \<Rightarrow> if p < a then ancestors st p else [])"
  by pat_completeness auto
termination by (relation "measure snd") auto

declare ancestors.simps [simp del]

definition lineage :: "context_store \<Rightarrow> nat \<Rightarrow> ExecutionContext list" where
  "lineage st a = map (\<lambda>b. st ! b) (ancestors st a)"

text \<open>\<open>get_variable\<close>: Python's \<open>None\<close> stands for an absent variable and for the value.\<close>

fun get_variable_up :: "string \<Rightarrow> ExecutionContext list \<Rightarrow> pyval" where
  "get_variable_up name [] = PNone"
| "get_variable_up name (c # cs) =
     (case dget (cx_variables c) name of
        Some v \<Rightarrow> if v_scope v \<noteq> PRIVATE then v_value v else get_variable_up name cs
      | None \<Rightarrow> get_variable_up name cs)"

definition cx_get_variable :: "string \<Rightarrow> bool \<Rightarrow> nat \<Rightarrow> context_store \<Rightarrow> pyval" where
  "cx_get_variable name search_parent a st =
     (if search_parent then get_variable_up name (lineage st a)
      else (case dget (cx_variables (st ! a)) name of None \<Rightarrow> PNone | Some v \<Rightarrow> v_value v))"

fun variable_object_up :: "string \<Rightarrow> ExecutionContext list \<Rightarrow> Variable option" where
  "variable_object_up name [] = None"
| "variable_object_up name (c # cs) =
     (case dget (cx_variables c) name of Some v \<Rightarrow> Some v | None \<Rightarrow> variable_object_up name cs)"

definition get_variable_object :: "string \<Rightarrow> nat \<Rightarrow> context_store \<Rightarrow> Variable option" where
  "get_variable_object name a st = variable_object_up name (lineage st a)"

definition cx_has_variable :: "string \<Rightarrow> bool \<Rightarrow> nat \<Rightarrow> context_store \<Rightarrow> bool" where
  "cx_has_variable name search_parent a st =
     (if search_parent then list_ex (\<lambda>c. has_key (cx_variables c) name) (lineage st a)
      else has_key (cx_variables (st ! a)) name)"

definition cx_remove_variable :: "datetime \<Rightarrow> string \<Rightarrow> ExecutionContext \<Rightarrow> bool \<times> ExecutionContext" where
  "cx_remove_variable now name c =
     (if has_key (cx_variables c) name
      then (True, c\<lparr>cx_variables := ddel name (cx_variables c), cx_updated_at := now\<rparr>)
      else (False, c))"

definition visible_values :: "bool \<Rightarrow> ExecutionContext \<Rightarrow> pydict" where
  "visible_values include_parent c =
     map (\<lambda>(n, v). (n, v_value v)) (filter (\<lambda>(n, v). v_scope v \<noteq> PRIVATE \<or> \<not> include_parent) (cx_variables c))"

fun all_variables_up :: "ExecutionContext list \<Rightarrow> pydict" where
  "all_variables_up [] = []"
| "all_variables_up (c # cs) = dupdate (all_variables_up cs) (visible_values True c)"

definition cx_get_all_variables :: "bool \<Rightarrow> nat \<Rightarrow> context_store \<Rightarrow> pydict" where
  "cx_get_all_variables include_parent a st =
     (if include_parent then all_variables_up (lineage st a) else dupdate [] (visible_values False (st ! a)))"

text \<open>\<open>set_variables\<close> and \<open>copy_variables_to\<close>; the readings of the clock are numbered per variable.\<close>

definition cx_set_variables :: "clock \<Rightarrow> pydict \<Rightarrow> ExecutionContext \<Rightarrow> ExecutionContext" where
  "cx_set_variables clk vars c =
     fold (\<lambda>(i, name, val). cx_set_variable (\<lambda>j. clk (3 * i + j)) name val None PUBLIC False) (enumerate 0 vars) c"

definition copy_variable :: "clock \<Rightarrow> string \<Rightarrow> Variable \<Rightarrow> ExecutionContext \<Rightarrow> ExecutionContext" where
  "copy_variable clk name v = cx_set_variable clk name (v_value v) (Some (v_type v)) (v_scope v) (v_is_transient v)"

definition copy_variables_to ::
  "clock \<Rightarrow> string list option \<Rightarrow> ExecutionContext \<Rightarrow> ExecutionContext \<Rightarrow> ExecutionContext" where
  "copy_variables_to clk names src tgt =
     (let vars = (case names of
                    None \<Rightarrow> filter (\<lambda>(n, v). v_scope v \<noteq> PRIVATE) (cx_variables src)
                  | Some ns \<Rightarrow> List.map_filter (\<lambda>n. map_option (Pair n) (dget (cx_variables src) n)) ns)
      in fold (\<lambda>(i, n, v). copy_variable (\<lambda>j. clk (3 * i + j)) n v) (enumerate 0 vars) tgt)"

definition create_child_context ::
  "clock \<Rightarrow> string \<Rightarrow> ContextScope \<Rightarrow> string option \<Rightarrow> nat \<Rightarrow> context_store \<Rightarrow> nat \<times> context_store" where
  "create_child_context clk uuid sc cid a st =
     alloc_context clk (case cid of None \<Rightarrow> cx_context_id (st ! a) @ '':'' @ take 8 uuid | Some x \<Rightarrow> x) sc (Some a) st"

fun destroy :: "nat \<Rightarrow> nat \<Rightarrow> context_store \<Rightarrow> context_store outcome"
  and destroy_children :: "nat \<Rightarrow> nat list \<Rightarrow> context_store \<Rightarrow> context_store outcome" where
  "destroy 0 a st = (Some (RuntimeError ''maximum recursion depth exceeded''), st)"
| "destroy (Suc depth) a st =
     (case destroy_children depth (cx_children (st ! a)) (st[a := (st ! a)\<lparr>cx_is_active := False\<rparr>]) of
        (Some e, st1) \<Rightarrow> (Some e, st1)
      | (None, st1) \<Rightarrow>
          (case cx_parent (st1 ! a) of
             None \<Rightarrow> (None, st1)
           | Some p \<Rightarrow>
               if a \<in> set (cx_children (st1 ! p))
               then (None, st1[p := (st1 ! p)\<lparr>cx_children := remove1 a (cx_children (st1 ! p))\<rparr>])
               else (Some (ValueError ''list.remove(x): x not in list''), st1)))"
| "destroy_children depth [] st = (None, st)"
| "destroy_children depth (c # cs) st =
     (case destroy depth c st of
        (Some e, st1) \<Rightarrow> (Some e, st1)
      | (None, st1) \<Rightarrow> destroy_children depth cs st1)"

definition cx_set_metadata :: "datetime \<Rightarrow> string \<Rightarrow> pyval \<Rightarrow> ExecutionContext \<Rightarrow> ExecutionContext" where
  "cx_set_metadata now k v c = c\<lparr>cx_metadata := dset k v (cx_metadata c), cx_updated_at := now\<rparr>"

definition cx_get_metadata :: "string \<Rightarrow> pyval \<Rightarrow> ExecutionContext \<Rightarrow> pyval" where
  "cx_get_metadata k d c = pget_or (cx_metadata c) k d"

definition cx_bind_schema :: "string \<Rightarrow> ExecutionContext \<Rightarrow> ExecutionContext" where
  "cx_bind_schema entity c =
     c\<lparr>cx_schema_entity := Some entity, cx_schema_registry := dset entity entity (cx_schema_registry c)\<rparr>"

definition cx_get_schema :: "string \<Rightarrow> ExecutionContext \<Rightarrow> string option" where
  "cx_get_schema name c = dget (cx_schema_registry c) name"

definition context_to_dict :: "ExecutionContext \<Rightarrow> pydict" where
  "context_to_dict c =
     [(''context_id'', PStr (cx_context_id c)),
      (''scope'', PStr (context_scope_value (cx_scope c))),
      (''is_active'', PBool (cx_is_active c)),
      (''created_at'', PStr (isoformat (cx_created_at c))),
      (''updated_at'', PStr (isoformat (cx_updated_at c))),
      (''variables'', PDict (map (\<lambda>(n, v). (n, PDict
         [(''value'', v_value v), (''type'', PStr (v_type v)),
          (''scope'', PStr (variable_scope_value (v_scope v))), (''is_transient'', PBool (v_is_transient v))]))
         (cx_variables c))),
      (''metadata'', PDict (cx_metadata c)),
      (''children_count'', PInt (int (length (cx_children c))))]"

definition variable_records :: "string \<Rightarrow> ExecutionContext \<Rightarrow> pydict list" where
  "variable_records iid c = map (variable_to_record iid (cx_context_id c)) (dvals (cx_variables c))"

text \<open>\<open>restore_variable_records\<close>: a row that cannot be read leaves the ones before it in place.\<close>

fun restore_rows :: "clock \<Rightarrow> pydict list \<Rightarrow> ExecutionContext \<Rightarrow> ExecutionContext outcome" where
  "restore_rows clk [] c = (None, c\<lparr>cx_updated_at := clk 0\<rparr>)"
| "restore_rows clk (p # ps) c =
     (case variable_from_record clk p of
        Inl e \<Rightarrow> (Some e, c)
      | Inr v \<Rightarrow> restore_rows (\<lambda>i. clk (i + 2)) ps (c\<lparr>cx_variables := dset (v_name v) v (cx_variables c)\<rparr>))"

definition restore_variable_records :: "clock \<Rightarrow> pydict list \<Rightarrow> ExecutionContext \<Rightarrow> ExecutionContext outcome" where
  "restore_variable_records clk ps c = restore_rows clk ps (c\<lparr>cx_variables := []\<rparr>)"

subsection \<open>The variable repository\<close>

text \<open>
  \<open>VariableRepository._extract_schema_binding\<close> and \<open>_validate_against_msdm_schema\<close>: only the name of
  the bound entity is kept, so the validation compares the value with the declared type.  In Python a
  \<open>bool\<close> is an \<open>int\<close>.
\<close>

definition extract_schema_binding :: "pydict \<Rightarrow> string option option result" where
  "extract_schema_binding p =
     (case pget_or p ''payload'' (PDict []) of
        PDict nested \<Rightarrow>
          (case as_dict (pget nested ''schema_binding'') of
             [] \<Rightarrow> Inr None
           | sb \<Rightarrow> (case as_dict (pget sb ''entity'') of
                      [] \<Rightarrow> Inr (Some None)
                    | ed \<Rightarrow> bindr (py_str (pget_or ed ''name'' (PStr ''unknown''))) (\<lambda>n. Inr (Some (Some n)))))
      | _ \<Rightarrow> Inl (AttributeError ''get''))"

fun conforms :: "string \<Rightarrow> pyval \<Rightarrow> bool" where
  "conforms ty v =
     (if ty = ''string'' then (case v of PStr _ \<Rightarrow> True | _ \<Rightarrow> False)
      else if ty = ''integer'' then (case v of PInt _ \<Rightarrow> True | PBool _ \<Rightarrow> True | _ \<Rightarrow> False)
      else if ty = ''double'' \<or> ty = ''float''
      then (case v of PFloat _ \<Rightarrow> True | PInt _ \<Rightarrow> True | PBool _ \<Rightarrow> True | _ \<Rightarrow> False)
      else if ty = ''boolean'' then (case v of PBool _ \<Rightarrow> True | _ \<Rightarrow> False)
      else if ty = ''list'' then (case v of PList _ \<Rightarrow> True | PTuple _ \<Rightarrow> True | _ \<Rightarrow> False)
      else if ty = ''json'' then (case v of PDict _ \<Rightarrow> True | _ \<Rightarrow> False)
      else if ty = ''bytes'' then (case v of PBytes _ \<Rightarrow> True | _ \<Rightarrow> False)
      else True)"

text \<open>Whether there is a validation error; a declared type that is not text has no entry in the table.\<close>

definition validation_fails :: "pydict \<Rightarrow> bool result" where
  "validation_fails p =
     bindr (extract_schema_binding p) (\<lambda>sb.
       case sb of
         Some (Some _) \<Rightarrow>
           (case pget_or p ''value_type'' (PStr ''object'') of
              PStr ty \<Rightarrow> Inr (pget p ''value'' \<noteq> PNone \<and> \<not> conforms ty (pget p ''value''))
            | PList _ \<Rightarrow> if pget p ''value'' = PNone then Inr False else Inl (TypeError ''unhashable'')
            | PDict _ \<Rightarrow> if pget p ''value'' = PNone then Inr False else Inl (TypeError ''unhashable'')
            | _ \<Rightarrow> Inr False)
       | _ \<Rightarrow> Inr False)"

definition variable_save_persisted :: "datetime \<Rightarrow> string \<Rightarrow> string \<Rightarrow> pydict \<Rightarrow> repo \<Rightarrow> repo outcome" where
  "variable_save_persisted now uuid key p r =
     (case validation_fails p of
        Inl e \<Rightarrow> (Some e, r)
      | Inr True \<Rightarrow> (Some (ValueError ''MSDM schema validation failed''), r)
      | Inr False \<Rightarrow> (None, snd (save_persisted now uuid ''variable'' key p r)))"

subsection \<open>The context manager\<close>

record ContextManager =
  cm_store :: context_store
  cm_contexts :: "(string, nat) dict"
  cm_root_contexts :: "string list"
  cm_variable_repository :: "repo option"

definition context_manager_init :: "repo option \<Rightarrow> ContextManager" where
  "context_manager_init r = \<lparr>cm_store = [], cm_contexts = [], cm_root_contexts = [], cm_variable_repository = r\<rparr>"

definition add_context :: "clock \<Rightarrow> string \<Rightarrow> ContextScope \<Rightarrow> nat option \<Rightarrow> ContextManager \<Rightarrow> nat \<times> ContextManager" where
  "add_context clk cid sc par m =
     (case alloc_context clk cid sc par (cm_store m) of
        (a, st) \<Rightarrow> (a, m\<lparr>cm_store := st, cm_contexts := dset cid a (cm_contexts m),
           cm_root_contexts := (if par = None then sadd cid (cm_root_contexts m) else cm_root_contexts m)\<rparr>))"

definition create_context ::
  "clock \<Rightarrow> string \<Rightarrow> ContextScope \<Rightarrow> string option \<Rightarrow> string option \<Rightarrow> ContextManager \<Rightarrow> nat result \<times> ContextManager" where
  "create_context clk uuid sc cid_opt parent_id m =
     (let cid = (case cid_opt of None \<Rightarrow> uuid | Some x \<Rightarrow> x)
      in case nonempty_opt parent_id of
           [] \<Rightarrow> apfst Inr (add_context clk cid sc None m)
         | pid # _ \<Rightarrow>
             (case dget (cm_contexts m) pid of
                None \<Rightarrow> (Inl (ValueError (''Parent context not found: '' @ pid)), m)
              | Some p \<Rightarrow> apfst Inr (add_context clk cid sc (Some p) m)))"

definition get_context :: "string \<Rightarrow> ContextManager \<Rightarrow> nat option" where
  "get_context cid m = dget (cm_contexts m) cid"

definition update_context :: "nat \<Rightarrow> (ExecutionContext \<Rightarrow> ExecutionContext) \<Rightarrow> ContextManager \<Rightarrow> ContextManager" where
  "update_context a f m = m\<lparr>cm_store := (cm_store m)[a := f (cm_store m ! a)]\<rparr>"

definition below :: "nat \<Rightarrow> (nat \<times> nat) set" where
  "below n = {(c, a). a < c \<and> c < n}"

lemma wf_below: "wf (below n)"
  by (rule wf_subset [OF wf_measure [of "\<lambda>a. n - a"]]) (auto simp: below_def)

lemma descend_decreases:
  "(mset queue + mset (filter (\<lambda>c. a < c \<and> c < n) kids), add_mset a (mset queue)) \<in> mult (below n)"
proof -
  have "(mset queue + mset (filter (\<lambda>c. a < c \<and> c < n) kids), mset queue + {#a#}) \<in> mult (below n)"
    by (rule one_step_implies_mult) (auto simp: below_def)
  then show ?thesis by simp
qed

text \<open>
  The breadth-first collection of the contexts below the queue.  A child's address is greater
  than its parent's, so the filter keeps every child; it is what makes the loop end.
\<close>

function descend :: "context_store \<Rightarrow> nat list \<Rightarrow> nat list" where
  "descend st [] = []"
| "descend st (a # queue) =
     (let kids = filter (\<lambda>c. a < c \<and> c < length st) (cx_children (st ! a)) in kids @ descend st (queue @ kids))"
  by pat_completeness auto

termination
proof (relation "same_fst (\<lambda>_. True) (\<lambda>st. inv_image (mult (below (length st))) mset)")
  show "wf (same_fst (\<lambda>_. True) (\<lambda>st :: context_store. inv_image (mult (below (length st))) mset))"
    by (intro wf_same_fst wf_inv_image wf_mult wf_below)
  show "((st, queue @ kids), st, a # queue) \<in> same_fst (\<lambda>_. True) (\<lambda>st. inv_image (mult (below (length st))) mset)"
    if "kids = filter (\<lambda>c. a < c \<and> c < length st) (cx_children (st ! a))" for st a queue kids
    using descend_decreases [of queue a "length st" "cx_children (st ! a)"] that by (simp add: same_fst_def)
qed

fun destroy_ids :: "nat \<Rightarrow> string list \<Rightarrow> ContextManager \<Rightarrow> ContextManager outcome" where
  "destroy_ids depth [] m = (None, m)"
| "destroy_ids depth (cid # cids) m =
     (case dget (cm_contexts m) cid of
        None \<Rightarrow> destroy_ids depth cids m
      | Some a \<Rightarrow>
          (let m1 = m\<lparr>cm_contexts := ddel cid (cm_contexts m)\<rparr>
           in case destroy depth a (cm_store m1) of
                (Some e, st) \<Rightarrow> (Some e, m1\<lparr>cm_store := st\<rparr>)
              | (None, st) \<Rightarrow>
                  destroy_ids depth cids
                    (m1\<lparr>cm_store := st, cm_root_contexts := sdiscard cid (cm_root_contexts m1)\<rparr>)))"

definition destroy_context :: "nat \<Rightarrow> string \<Rightarrow> ContextManager \<Rightarrow> ContextManager outcome" where
  "destroy_context depth cid m =
     (case dget (cm_contexts m) cid of
        None \<Rightarrow> (None, m)
      | Some a \<Rightarrow>
          destroy_ids depth (cid # map (\<lambda>b. cx_context_id (cm_store m ! b)) (descend (cm_store m) [a])) m)"

fun cleanup_ids :: "nat \<Rightarrow> string list \<Rightarrow> ContextManager \<Rightarrow> ContextManager outcome" where
  "cleanup_ids depth [] m = (None, m)"
| "cleanup_ids depth (cid # cids) m =
     (case destroy_context depth cid m of
        (Some e, m1) \<Rightarrow> (Some e, m1)
      | (None, m1) \<Rightarrow> cleanup_ids depth cids m1)"

definition cleanup_inactive_contexts :: "nat \<Rightarrow> ContextManager \<Rightarrow> nat result \<times> ContextManager" where
  "cleanup_inactive_contexts depth m =
     (let inactive = map fst (filter (\<lambda>(cid, a). \<not> cx_is_active (cm_store m ! a)) (cm_contexts m))
      in case cleanup_ids depth inactive m of
           (Some e, m1) \<Rightarrow> (Inl e, m1)
         | (None, m1) \<Rightarrow> (Inr (length inactive), m1))"

record context_statistics =
  cs_total_contexts :: nat
  cs_root_contexts :: nat
  cs_active_contexts :: nat
  cs_scope_distribution :: "(string, nat) dict"

definition context_get_statistics :: "ContextManager \<Rightarrow> context_statistics" where
  "context_get_statistics m =
     (let cs = map (\<lambda>a. cm_store m ! a) (dvals (cm_contexts m))
      in \<lparr>cs_total_contexts = length (cm_contexts m), cs_root_contexts = length (cm_root_contexts m),
          cs_active_contexts = length (filter cx_is_active cs),
          cs_scope_distribution = tally (map (\<lambda>c. context_scope_value (cx_scope c)) cs)\<rparr>)"

text \<open>
  \<open>persist_context_variables\<close> and \<open>load_context_variables\<close> with a \<open>VariableRepository\<close>.  The records
  carry the context's own id, the key the id it was looked up by.
\<close>

fun save_records ::
  "clock \<Rightarrow> (nat \<Rightarrow> string) \<Rightarrow> string \<Rightarrow> string \<Rightarrow> (string \<times> pydict) list \<Rightarrow> repo \<Rightarrow> repo outcome" where
  "save_records clk ids iid cid [] r = (None, r)"
| "save_records clk ids iid cid ((name, p) # ps) r =
     (case variable_save_persisted (clk 0) (ids 0) (iid @ '':'' @ cid @ '':'' @ name) p r of
        (Some e, r1) \<Rightarrow> (Some e, r1)
      | (None, r1) \<Rightarrow> save_records (\<lambda>i. clk (i + 1)) (\<lambda>i. ids (i + 1)) iid cid ps r1)"

definition persist_context_variables ::
  "clock \<Rightarrow> (nat \<Rightarrow> string) \<Rightarrow> string \<Rightarrow> string \<Rightarrow> ContextManager \<Rightarrow> pydict list result \<times> ContextManager" where
  "persist_context_variables clk ids iid cid m =
     (case get_context cid m of
        None \<Rightarrow> (Inr [], m)
      | Some a \<Rightarrow>
          (let c = cm_store m ! a; recs = variable_records iid c
           in case cm_variable_repository m of
                None \<Rightarrow> (Inr recs, m)
              | Some r \<Rightarrow>
                  (case save_records clk ids iid cid (zip (map v_name (dvals (cx_variables c))) recs) r of
                     (Some e, r1) \<Rightarrow> (Inl e, m\<lparr>cm_variable_repository := Some r1\<rparr>)
                   | (None, r1) \<Rightarrow> (Inr recs, m\<lparr>cm_variable_repository := Some r1\<rparr>))))"

definition load_context_variables ::
  "clock \<Rightarrow> string \<Rightarrow> string \<Rightarrow> ContextManager \<Rightarrow> pydict list result \<times> ContextManager" where
  "load_context_variables clk iid cid m =
     (case get_context cid m of
        None \<Rightarrow> (Inr [], m)
      | Some a \<Rightarrow>
          (case cm_variable_repository m of
             None \<Rightarrow> (Inr (variable_records iid (cm_store m ! a)), m)
           | Some r \<Rightarrow>
               (let rows = get_by_scope iid cid r
                in case restore_variable_records clk rows (cm_store m ! a) of
                     (Some e, c) \<Rightarrow> (Inl e, update_context a (\<lambda>_. c) m)
                   | (None, c) \<Rightarrow> (Inr rows, update_context a (\<lambda>_. c) m))))"

subsection \<open>Variables\<close>

lemma variable_scope_of_value [simp]: "variable_scope_of (variable_scope_value sc) = Inr sc"
  by (cases sc) (simp_all add: variable_scope_of_def enum_of_def)

lemma variable_record_roundtrip_ext:
  assumes "valid_datetime (v_created_at v)" "valid_datetime (v_updated_at v)"
  shows "variable_from_record clk (variable_to_record iid sid v @ ext) =
    Inr (v\<lparr>v_schema_binding := None, v_schema_entity_cache := None\<rparr>)"
  using assms
  by (simp add: variable_to_record_def variable_from_record_def read_binding_def as_dict_def Let_def payload_simps)

text \<open>Records the contexts write carry no schema binding, so the repository accepts them.\<close>

lemma variable_record_valid: "validation_fails (variable_to_record iid sid v) = Inr False"
  by (simp add: validation_fails_def extract_schema_binding_def variable_to_record_def as_dict_def payload_simps)

lemma dget_visible:
  "dict_ok d \<Longrightarrow> dget (map (\<lambda>(n, v). (n, v_value v)) (filter (\<lambda>(n, v). P v) d)) x =
     (case dget d x of None \<Rightarrow> None | Some v \<Rightarrow> if P v then Some (v_value v) else None)"
  by (induction d) (auto split: option.splits simp: map_of_eq_None_iff image_iff dest: map_of_SomeD intro: rev_image_eqI)

lemma dict_ok_visible: "dict_ok d \<Longrightarrow> dict_ok (map (\<lambda>(n, v). (n, v_value v)) (filter (\<lambda>(n, v). P v) d))"
proof -
  assume ok: "dict_ok d"
  have eq: "map (fst \<circ> (\<lambda>(n, v). (n, v_value v))) (filter (\<lambda>(n, v). P v) d) = map fst (filter (\<lambda>(n, v). P v) d)"
    by (induction d) auto
  show ?thesis unfolding map_map eq by (rule distinct_map_filter [OF ok])
qed

lemma lookup_in_all:
  assumes "\<forall>c \<in> set cs. dict_ok (cx_variables c)"
  shows "get_variable_up x cs = pget (all_variables_up cs) x"
  using assms
proof (induction cs)
  case (Cons c cs)
  let ?vis = "visible_values True c"
  have "dict_ok ?vis" "dget ?vis x = (case dget (cx_variables c) x of None \<Rightarrow> None | Some v \<Rightarrow> if v_scope v \<noteq> PRIVATE then Some (v_value v) else None)"
    using dict_ok_visible [of "cx_variables c" "\<lambda>v. v_scope v \<noteq> PRIVATE"]
      dget_visible [of "cx_variables c" "\<lambda>v. v_scope v \<noteq> PRIVATE" x] Cons.prems
    by (simp_all add: visible_values_def)
  with Cons show ?case
    by (auto simp: pget_def dget_or_def dget_dupdate dget_rev split: option.splits)
qed (simp add: pget_def dget_or_def)

subsection \<open>The forest of contexts\<close>

text \<open>
  A parent is older than its children, a child list names existing contexts that have the owner
  as their parent, each once, and every context keeps its variables under their names.
\<close>

definition forest :: "context_store \<Rightarrow> bool" where
  "forest st \<longleftrightarrow>
     (\<forall>a < length st. (\<forall>p. cx_parent (st ! a) = Some p \<longrightarrow> p < a) \<and>
        distinct (cx_children (st ! a)) \<and>
        (\<forall>c \<in> set (cx_children (st ! a)). c < length st \<and> cx_parent (st ! c) = Some a))"

lemma forestD:
  assumes "forest st" and "a < length st"
  shows "cx_parent (st ! a) = Some p \<Longrightarrow> p < a" "distinct (cx_children (st ! a))"
    "c \<in> set (cx_children (st ! a)) \<Longrightarrow> c < length st"
    "c \<in> set (cx_children (st ! a)) \<Longrightarrow> cx_parent (st ! c) = Some a"
    "c \<in> set (cx_children (st ! a)) \<Longrightarrow> a < c"
  using assms by (auto simp: forest_def)

text \<open>Ancestors depend on the parents only, and two ancestors of one context are on one line.\<close>

lemma ancestors_self [simp]: "a \<in> set (ancestors st a)"
  by (subst ancestors.simps) simp

lemma ancestors_cong:
  assumes "\<And>b. b \<le> a \<Longrightarrow> cx_parent (st' ! b) = cx_parent (st ! b)"
  shows "ancestors st' a = ancestors st a"
  using assms
proof (induction a rule: less_induct)
  case (less a)
  have "ancestors st' p = ancestors st p" if "p < a" for p using less that by simp
  with less.prems [of a] show ?case
    by (subst (1 2) ancestors.simps) (simp split: option.splits)
qed

lemma ancestors_le: "b \<in> set (ancestors st a) \<Longrightarrow> b \<le> a"
proof (induction a rule: less_induct)
  case (less a)
  from less.prems have "b = a \<or> (\<exists>p < a. b \<in> set (ancestors st p))"
    by (subst (asm) ancestors.simps) (auto split: option.splits if_splits)
  then show ?case using less.IH by fastforce
qed

lemma ancestors_set:
  "set (ancestors st a) = insert a (case cx_parent (st ! a) of None \<Rightarrow> {} | Some p \<Rightarrow> if p < a then set (ancestors st p) else {})"
  by (subst ancestors.simps) (simp split: option.splits)

lemma ancestors_parent:
  assumes "forest st" and "a < length st" and "cx_parent (st ! a) = Some p"
  shows "ancestors st a = a # ancestors st p"
  using forestD(1) [OF assms] assms(3) by (subst ancestors.simps) simp

lemma ancestors_chain:
  assumes "b \<in> set (ancestors st a)" and "c \<in> set (ancestors st a)"
  shows "b \<in> set (ancestors st c) \<or> c \<in> set (ancestors st b)"
  using assms
proof (induction a rule: less_induct)
  case (less a)
  show ?case
  proof (cases "b = a \<or> c = a")
    case True
    with less.prems show ?thesis by auto
  next
    case False
    with less.prems obtain p where "p < a" "b \<in> set (ancestors st p)" "c \<in> set (ancestors st p)"
      unfolding ancestors_set [of st a] by (auto split: option.splits if_splits)
    with less.IH show ?thesis by blast
  qed
qed

lemma siblings_apart:
  assumes "forest st" and "c < length st" "c' < length st"
    and "cx_parent (st ! c) = Some a" "cx_parent (st ! c') = Some a"
    and "c \<in> set (ancestors st b)" "c' \<in> set (ancestors st b)"
  shows "c = c'"
proof -
  have "x = y" if "x \<in> set (ancestors st y)" "y < length st" "x < length st" "cx_parent (st ! x) = Some a"
    "cx_parent (st ! y) = Some a" for x y
  proof (rule ccontr)
    assume "x \<noteq> y"
    with that ancestors_parent [OF assms(1) that(2,5)] have "x \<in> set (ancestors st a)" by auto
    then show False using ancestors_le forestD(1) [OF assms(1) that(3,4)] by fastforce
  qed
  with ancestors_chain [OF assms(6,7)] assms show ?thesis by metis
qed

lemma ancestors_up:
  assumes "forest st" and "b < length st" and "c \<in> set (ancestors st b)" and "cx_parent (st ! c) = Some a"
  shows "a \<in> set (ancestors st b)"
  using assms(2,3)
proof (induction b rule: less_induct)
  case (less b)
  show ?case
  proof (cases "c = b")
    case True
    then show ?thesis using ancestors_parent [OF assms(1) less.prems(1), of a] assms(4) by simp
  next
    case False
    then obtain p where p: "cx_parent (st ! b) = Some p" "p < b" "c \<in> set (ancestors st p)"
      using less.prems(2) unfolding ancestors_set [of st b] by (auto split: option.splits if_splits)
    have "a \<in> set (ancestors st p)" using less.IH [OF p(2) _ p(3)] p(2) less.prems(1) by simp
    then show ?thesis using ancestors_parent [OF assms(1) less.prems(1) p(1)] by simp
  qed
qed

definition child_rel :: "context_store \<Rightarrow> (nat \<times> nat) set" where
  "child_rel st = {(a, c). a < length st \<and> c \<in> set (cx_children (st ! a))}"

lemma under_ancestor:
  assumes "(a, b) \<in> (child_rel st)\<^sup>*" and "forest st" and "a < length st"
  shows "b < length st \<and> a \<in> set (ancestors st b)"
  using assms(1)
proof (induction rule: rtrancl_induct)
  case (step x y)
  then have "y < length st" "cx_parent (st ! y) = Some x"
    using forestD(3,4) [OF assms(2)] by (auto simp: child_rel_def)
  then show ?case using ancestors_parent [OF assms(2)] step.IH by simp
qed (use assms in simp)

text \<open>What destroying contexts keeps: addresses, parents, ids and variables.\<close>

definition same_shape :: "context_store \<Rightarrow> context_store \<Rightarrow> bool" where
  "same_shape st st' \<longleftrightarrow> length st' = length st \<and>
     (\<forall>b < length st. cx_parent (st' ! b) = cx_parent (st ! b) \<and> cx_context_id (st' ! b) = cx_context_id (st ! b) \<and>
        cx_variables (st' ! b) = cx_variables (st ! b))"

lemma same_shape_refl [simp]: "same_shape st st"
  by (simp add: same_shape_def)

lemma same_shape_trans: "same_shape st st' \<Longrightarrow> same_shape st' st'' \<Longrightarrow> same_shape st st''"
  by (simp add: same_shape_def)

lemma same_shape_ancestors:
  assumes "same_shape st st'" and "b < length st"
  shows "ancestors st' b = ancestors st b"
  using assms by (intro ancestors_cong) (simp add: same_shape_def)

lemma under_kept:
  assumes "(c, b) \<in> (child_rel st)\<^sup>*" and "forest st" and "c < length st" and "length st' = length st"
    and "\<And>y. y < length st \<Longrightarrow> c \<in> set (ancestors st y) \<Longrightarrow> cx_children (st' ! y) = cx_children (st ! y)"
  shows "(c, b) \<in> (child_rel st')\<^sup>*"
  using assms(1)
proof (induction rule: rtrancl_induct)
  case (step x y)
  have "x < length st" "c \<in> set (ancestors st x)" using under_ancestor [OF step.hyps(1) assms(2,3)] by auto
  with step.hyps(2) assms(4,5) have "(x, y) \<in> child_rel st'" by (simp add: child_rel_def)
  with step.IH show ?case by (rule rtrancl_into_rtrancl)
qed simp

text \<open>
  What destroying an attached context does: it is taken off its parent's list, nothing else
  outside its subtree changes, and every context of the subtree is inactive and childless.
\<close>

definition destroyed :: "context_store \<Rightarrow> nat \<Rightarrow> context_store \<Rightarrow> bool" where
  "destroyed st a st' \<longleftrightarrow> same_shape st st' \<and> forest st' \<and>
     (\<forall>b < length st. a \<notin> set (ancestors st b) \<longrightarrow>
        st' ! b = (if cx_parent (st ! a) = Some b then (st ! b)\<lparr>cx_children := remove1 a (cx_children (st ! b))\<rparr> else st ! b)) \<and>
     (\<forall>b. (a, b) \<in> (child_rel st)\<^sup>* \<longrightarrow> \<not> cx_is_active (st' ! b) \<and> cx_children (st' ! b) = [])"

definition attached :: "context_store \<Rightarrow> nat \<Rightarrow> bool" where
  "attached st a \<longleftrightarrow> (\<forall>p. cx_parent (st ! a) = Some p \<longrightarrow> a \<in> set (cx_children (st ! p)))"

lemma forest_update:
  assumes "forest st" and "cx_parent (f (st ! a)) = cx_parent (st ! a)"
    and "set (cx_children (f (st ! a))) \<subseteq> set (cx_children (st ! a))"
    and "distinct (cx_children (st ! a)) \<Longrightarrow> distinct (cx_children (f (st ! a)))"
  shows "forest (st[a := f (st ! a)])"
proof (cases "a < length st")
  case True
  have par: "cx_parent (st[a := f (st ! a)] ! b) = cx_parent (st ! b)" for b
    using assms(2) True by (cases "b = a") auto
  have "distinct (cx_children (st[a := f (st ! a)] ! b)) \<and>
      set (cx_children (st[a := f (st ! a)] ! b)) \<subseteq> set (cx_children (st ! b))" if "b < length st" for b
    using assms(3,4) forestD(2) [OF assms(1) that] that by (cases "b = a") auto
  then show ?thesis
    using assms(1) par unfolding forest_def by (auto dest: subsetD)
qed (use assms(1) in \<open>simp add: list_update_beyond\<close>)

lemma destroy_children_spec:
  assumes IH: "\<And>a st. forest st \<Longrightarrow> a < length st \<Longrightarrow> length st - a \<le> d \<Longrightarrow> attached st a \<Longrightarrow>
      \<exists>st'. destroy d a st = (None, st') \<and> destroyed st a st'"
    and "forest st" and "a < length st" and "length st - a \<le> Suc d" and "cx_children (st ! a) = cs"
  shows "\<exists>st'. destroy_children d cs st = (None, st') \<and> same_shape st st' \<and> forest st' \<and>
    st' ! a = (st ! a)\<lparr>cx_children := []\<rparr> \<and>
    (\<forall>b < length st. b \<noteq> a \<longrightarrow> (\<forall>c \<in> set cs. c \<notin> set (ancestors st b)) \<longrightarrow> st' ! b = st ! b) \<and>
    (\<forall>c \<in> set cs. \<forall>b. (c, b) \<in> (child_rel st)\<^sup>* \<longrightarrow> \<not> cx_is_active (st' ! b) \<and> cx_children (st' ! b) = [])"
  using assms(2-5)
proof (induction cs arbitrary: st)
  case (Cons c cs)
  have c: "c < length st" "cx_parent (st ! c) = Some a" "a < c" "distinct (c # cs)"
    using forestD(2-) [OF Cons.prems(1,2)] Cons.prems(4) by auto
  have "attached st c" "length st - c \<le> d" using c(2,3) Cons.prems(3,4) by (simp_all add: attached_def)
  then obtain st1 where d1: "destroy d c st = (None, st1)" "destroyed st c st1"
    using IH [OF Cons.prems(1) c(1)] by blast
  have sh: "same_shape st st1" and fo: "forest st1" and len: "length st1 = length st"
    using d1(2) by (auto simp: destroyed_def same_shape_def)
  have fr: "st1 ! b = (if b = a then (st ! a)\<lparr>cx_children := remove1 c (cx_children (st ! a))\<rparr> else st ! b)"
    if "b < length st" "c \<notin> set (ancestors st b)" for b
    using d1(2) that c(2) by (auto simp: destroyed_def)
  have ca: "c \<notin> set (ancestors st a)" using ancestors_le [of c st a] c(3) by auto
  have a1: "st1 ! a = (st ! a)\<lparr>cx_children := cs\<rparr>" using fr [OF Cons.prems(2) ca] Cons.prems(4) by simp
  obtain st' where s': "destroy_children d cs st1 = (None, st')" "same_shape st1 st'" "forest st'"
    "st' ! a = (st1 ! a)\<lparr>cx_children := []\<rparr>"
    "\<And>b. b < length st \<Longrightarrow> b \<noteq> a \<Longrightarrow> \<forall>c \<in> set cs. c \<notin> set (ancestors st1 b) \<Longrightarrow> st' ! b = st1 ! b"
    "\<And>c b. c \<in> set cs \<Longrightarrow> (c, b) \<in> (child_rel st1)\<^sup>* \<Longrightarrow> \<not> cx_is_active (st' ! b) \<and> cx_children (st' ! b) = []"
    using Cons.IH [OF fo] len Cons.prems(2,3) a1 by auto
  have anc: "ancestors st1 b = ancestors st b" if "b < length st" for b
    using same_shape_ancestors [OF sh that] .
  have sib: "c' \<notin> set (ancestors st b)" if "c \<in> set (ancestors st b)" "c' \<in> set cs" for b c'
  proof -
    have "c' < length st" "cx_parent (st ! c') = Some a" "c' \<noteq> c"
      using forestD(3,4) [OF Cons.prems(1,2), of c'] that(2) c(4) Cons.prems(4) by auto
    then show ?thesis using siblings_apart [OF Cons.prems(1) c(1) _ c(2)] that(1) by blast
  qed
  have frame: "st' ! b = st ! b" if "b < length st" "b \<noteq> a" "\<forall>x \<in> set (c # cs). x \<notin> set (ancestors st b)" for b
    using s'(5) [OF that(1,2)] anc [OF that(1)] fr [OF that(1)] that by simp
  have dead: "\<not> cx_is_active (st' ! b) \<and> cx_children (st' ! b) = []"
    if "x \<in> set (c # cs)" "(x, b) \<in> (child_rel st)\<^sup>*" for x b
  proof (cases "x = c")
    case True
    have b: "b < length st" "c \<in> set (ancestors st b)" using under_ancestor [OF that(2) Cons.prems(1)] True c(1) by auto
    have "b \<noteq> a" using b(2) ca by auto
    then have "st' ! b = st1 ! b" using s'(5) [OF b(1)] anc [OF b(1)] sib [OF b(2)] by simp
    then show ?thesis using d1(2) that(2) True by (simp add: destroyed_def)
  next
    case False
    then have x: "x \<in> set cs" "x < length st" "a < x" using that(1) forestD(3,5) [OF Cons.prems(1,2), of x] Cons.prems(4) by auto
    have "cx_children (st1 ! y) = cx_children (st ! y)" if y: "y < length st" "x \<in> set (ancestors st y)" for y
    proof -
      have "c \<notin> set (ancestors st y)" using sib [of y x] x(1) y(2) by blast
      moreover have "y \<noteq> a" using y(2) x(3) ancestors_le by fastforce
      ultimately show ?thesis using fr [OF y(1)] by simp
    qed
    then have "(x, b) \<in> (child_rel st1)\<^sup>*" using under_kept [OF that(2) Cons.prems(1) x(2) len] by blast
    then show ?thesis using s'(6) x(1) by blast
  qed
  have "st' ! a = (st ! a)\<lparr>cx_children := []\<rparr>" using s'(4) a1 by simp
  then show ?case
    using d1(1) s'(1,3) same_shape_trans [OF sh s'(2)] frame dead by auto
qed simp

lemma destroy_spec:
  assumes "forest st" and "a < length st" and "length st - a \<le> depth" and "attached st a"
  shows "\<exists>st'. destroy depth a st = (None, st') \<and> destroyed st a st'"
  using assms
proof (induction depth arbitrary: a st)
  case (Suc d)
  let ?st1 = "st[a := (st ! a)\<lparr>cx_is_active := False\<rparr>]"
  have f1: "forest ?st1" using forest_update [OF Suc.prems(1), of "\<lambda>c. c\<lparr>cx_is_active := False\<rparr>" a] by simp
  have ch: "cx_children (?st1 ! b) = cx_children (st ! b)" "cx_parent (?st1 ! b) = cx_parent (st ! b)" for b
    using Suc.prems(2) by (cases "b = a"; simp)+
  have sh1: "same_shape st ?st1" using Suc.prems(2) by (auto simp: same_shape_def nth_list_update)
  have anc: "ancestors ?st1 b = ancestors st b" if "b < length st" for b
    using same_shape_ancestors [OF sh1 that] .
  obtain st2 where s2: "destroy_children d (cx_children (st ! a)) ?st1 = (None, st2)" "same_shape ?st1 st2" "forest st2"
    "st2 ! a = (?st1 ! a)\<lparr>cx_children := []\<rparr>"
    "\<And>b. b < length st \<Longrightarrow> b \<noteq> a \<Longrightarrow> \<forall>c \<in> set (cx_children (st ! a)). c \<notin> set (ancestors st b) \<Longrightarrow> st2 ! b = ?st1 ! b"
    "\<And>c b. c \<in> set (cx_children (st ! a)) \<Longrightarrow> (c, b) \<in> (child_rel ?st1)\<^sup>* \<Longrightarrow> \<not> cx_is_active (st2 ! b) \<and> cx_children (st2 ! b) = []"
    using destroy_children_spec [OF Suc.IH f1, of a "cx_children (st ! a)"] Suc.prems(2,3) ch anc by auto
  have sh2: "same_shape st st2" using same_shape_trans [OF sh1 s2(2)] .
  have out: "st2 ! b = st ! b" if "b < length st" "a \<notin> set (ancestors st b)" for b
  proof -
    have "b \<noteq> a" using that(2) ancestors_self by metis
    moreover have "c \<notin> set (ancestors st b)" if "c \<in> set (cx_children (st ! a))" for c
      using ancestors_up [OF Suc.prems(1) \<open>b < length st\<close>, of c a] forestD(4) [OF Suc.prems(1,2) that] \<open>a \<notin> _\<close> by blast
    ultimately show ?thesis using s2(5) [OF that(1)] by simp
  qed
  have rel: "child_rel ?st1 = child_rel st" by (auto simp: child_rel_def ch)
  have dead: "\<not> cx_is_active (st2 ! b) \<and> cx_children (st2 ! b) = []" if "(a, b) \<in> (child_rel st)\<^sup>*" for b
    using that
  proof (cases rule: converse_rtranclE)
    case base
    then show ?thesis using s2(4) Suc.prems(2) by simp
  next
    case (step c)
    then show ?thesis using s2(6) [of c b] rel by (simp add: child_rel_def)
  qed
  show ?case
  proof (cases "cx_parent (st ! a)")
    case None
    then have "destroyed st a st2" using sh2 s2(3) out dead by (simp add: destroyed_def)
    moreover have "destroy (Suc d) a st = (None, st2)" using s2(1,4) None Suc.prems(2) by simp
    ultimately show ?thesis by blast
  next
    case (Some p)
    let ?st3 = "st2[p := (st2 ! p)\<lparr>cx_children := remove1 a (cx_children (st2 ! p))\<rparr>]"
    have p: "p < a" using forestD(1) [OF Suc.prems(1,2) Some] .
    have pa: "a \<notin> set (ancestors st p)" using ancestors_le [of a st p] p by auto
    have p2: "st2 ! p = st ! p" using out [OF _ pa] p Suc.prems(2) by simp
    have len: "length st2 = length st" using sh2 by (simp add: same_shape_def)
    have ne: "b \<noteq> p" if "(a, b) \<in> (child_rel st)\<^sup>*" for b
      using under_ancestor [OF that Suc.prems(1,2)] pa by auto
    have "forest ?st3"
      using forest_update [OF s2(3), of "\<lambda>c. c\<lparr>cx_children := remove1 a (cx_children c)\<rparr>" p]
        set_remove1_subset [of a "cx_children (st2 ! p)"] by (simp add: distinct_remove1)
    moreover have "same_shape st ?st3"
      unfolding same_shape_def
    proof (intro conjI allI impI)
      fix b assume "b < length st"
      then show "cx_parent (?st3 ! b) = cx_parent (st ! b)" "cx_context_id (?st3 ! b) = cx_context_id (st ! b)"
        "cx_variables (?st3 ! b) = cx_variables (st ! b)"
        using sh2 len by (cases "b = p"; simp add: same_shape_def)+
    qed (simp add: len)
    moreover have "?st3 ! b = (if p = b then (st ! b)\<lparr>cx_children := remove1 a (cx_children (st ! b))\<rparr> else st ! b)"
      if "b < length st" "a \<notin> set (ancestors st b)" for b
      using out [OF that] p2 len that(1) by auto
    moreover have "\<not> cx_is_active (?st3 ! b) \<and> cx_children (?st3 ! b) = []" if "(a, b) \<in> (child_rel st)\<^sup>*" for b
      using dead [OF that] ne [OF that] by simp
    ultimately have "destroyed st a ?st3" by (auto simp: destroyed_def Some)
    moreover have "destroy (Suc d) a st = (None, ?st3)"
      using s2(1,4) Some Suc.prems(2,4) p2 by (simp add: attached_def)
    ultimately show ?thesis by blast
  qed
qed simp

lemma same_shape_update:
  assumes "cx_parent (f (st ! a)) = cx_parent (st ! a)" "cx_context_id (f (st ! a)) = cx_context_id (st ! a)"
    "cx_variables (f (st ! a)) = cx_variables (st ! a)"
  shows "same_shape st (st[a := f (st ! a)])"
  using assms by (auto simp: same_shape_def nth_update_in)

text \<open>Destroying keeps the forest also when it raises half way.\<close>

lemma destroy_keeps:
  "forest st \<Longrightarrow> forest (snd (destroy d a st)) \<and> same_shape st (snd (destroy d a st))"
  "forest st \<Longrightarrow> forest (snd (destroy_children d cs st)) \<and> same_shape st (snd (destroy_children d cs st))"
proof (induction d a st and d cs st rule: destroy_destroy_children.induct)
  case (2 d a st)
  let ?st1 = "st[a := (st ! a)\<lparr>cx_is_active := False\<rparr>]"
  obtain e st2 where l: "destroy_children d (cx_children (st ! a)) ?st1 = (e, st2)" by fastforce
  have "forest ?st1" using forest_update [OF 2(2), of "\<lambda>c. c\<lparr>cx_is_active := False\<rparr>" a] by simp
  moreover have "same_shape st ?st1" using same_shape_update [of "\<lambda>c. c\<lparr>cx_is_active := False\<rparr>" st a] by simp
  ultimately have s2: "forest st2" "same_shape st st2" using 2(1) l same_shape_trans by auto
  have s3: "forest (st2[p := (st2 ! p)\<lparr>cx_children := remove1 a (cx_children (st2 ! p))\<rparr>])"
    "same_shape st (st2[p := (st2 ! p)\<lparr>cx_children := remove1 a (cx_children (st2 ! p))\<rparr>])" for p
    using forest_update [OF s2(1), of "\<lambda>c. c\<lparr>cx_children := remove1 a (cx_children c)\<rparr>" p]
      set_remove1_subset [of a "cx_children (st2 ! p)"]
      same_shape_trans [OF s2(2) same_shape_update [of "\<lambda>c. c\<lparr>cx_children := remove1 a (cx_children c)\<rparr>" st2 p]]
    by (simp_all add: distinct_remove1)
  show ?case using s2 s3 by (cases e) (simp_all add: l split: option.splits)
next
  case (4 d c cs st)
  obtain e st1 where l: "destroy d c st = (e, st1)" by fastforce
  then have "forest st1" "same_shape st st1" using 4(1,3) by auto
  then show ?case using 4(2) [OF l [symmetric]] l same_shape_trans by (cases e) auto
qed simp_all

subsection \<open>The manager's invariant\<close>

definition variables_ok :: "(string, Variable) dict \<Rightarrow> bool" where
  "variables_ok d \<longleftrightarrow> dict_ok d \<and> (\<forall>n v. dget d n = Some v \<longrightarrow> v_name v = n)"

definition cm_inv :: "ContextManager \<Rightarrow> bool" where
  "cm_inv m \<longleftrightarrow> forest (cm_store m) \<and>
     (\<forall>cid a. dget (cm_contexts m) cid = Some a \<longrightarrow> a < length (cm_store m) \<and> cx_context_id (cm_store m ! a) = cid) \<and>
     (\<forall>a < length (cm_store m). variables_ok (cx_variables (cm_store m ! a)))"

lemma cm_invD:
  assumes "cm_inv m"
  shows "forest (cm_store m)"
    "dget (cm_contexts m) cid = Some a \<Longrightarrow> a < length (cm_store m)"
    "dget (cm_contexts m) cid = Some a \<Longrightarrow> cx_context_id (cm_store m ! a) = cid"
    "a < length (cm_store m) \<Longrightarrow> variables_ok (cx_variables (cm_store m ! a))"
  using assms by (auto simp: cm_inv_def)

lemma cm_inv_shape:
  assumes "cm_inv m" and "forest st" and "same_shape (cm_store m) st"
    and "\<And>cid a. dget d cid = Some a \<Longrightarrow> dget (cm_contexts m) cid = Some a"
  shows "cm_inv (m\<lparr>cm_contexts := d, cm_store := st, cm_root_contexts := rs\<rparr>)"
proof -
  have "a < length st \<and> cx_context_id (st ! a) = cid" if "dget d cid = Some a" for cid a
    using cm_invD(2,3) [OF assms(1) assms(4) [OF that]] assms(3) by (simp add: same_shape_def)
  moreover have "variables_ok (cx_variables (st ! a))" if "a < length st" for a
    using cm_invD(4) [OF assms(1), of a] assms(3) that by (simp add: same_shape_def)
  ultimately show ?thesis using assms(2) by (simp add: cm_inv_def)
qed

lemma cm_inv_local:
  assumes "cm_inv m" and "\<And>c. cx_parent (f c) = cx_parent c" "\<And>c. cx_children (f c) = cx_children c"
    "\<And>c. cx_context_id (f c) = cx_context_id c" "\<And>c. variables_ok (cx_variables c) \<Longrightarrow> variables_ok (cx_variables (f c))"
  shows "cm_inv (update_context a f m)"
proof -
  have "forest ((cm_store m)[a := f (cm_store m ! a)])"
    using forest_update [OF cm_invD(1) [OF assms(1)], of f a] assms(2,3) by simp
  moreover have "a' < length (cm_store m) \<Longrightarrow> cx_context_id ((cm_store m)[a := f (cm_store m ! a)] ! a') = cx_context_id (cm_store m ! a')"
    "a' < length (cm_store m) \<Longrightarrow> variables_ok (cx_variables ((cm_store m)[a := f (cm_store m ! a)] ! a'))" for a'
    using assms(4,5) cm_invD(4) [OF assms(1), of a'] by (auto simp: nth_update_in)
  ultimately show ?thesis
    using cm_invD(2,3) [OF assms(1)] by (simp add: cm_inv_def update_context_def)
qed

lemma variables_ok_Nil: "variables_ok []"
  by (simp add: variables_ok_def)

lemma variables_ok_dset: "variables_ok d \<Longrightarrow> v_name v = n \<Longrightarrow> variables_ok (dset n v d)"
proof -
  assume d: "variables_ok d" and v: "v_name v = n"
  have "v_name w = k" if "dget (dset n v d) k = Some w" for k w
    using d v that by (cases "k = n") (simp_all add: variables_ok_def)
  moreover have "dict_ok (dset n v d)" using d by (simp add: variables_ok_def)
  ultimately show ?thesis unfolding variables_ok_def by blast
qed

lemma variables_ok_set:
  assumes "variables_ok (cx_variables c)"
  shows "variables_ok (cx_variables (cx_set_variable clk n v ty sc tr c))"
proof (cases "dget (cx_variables c) n")
  case None
  then show ?thesis using assms by (simp add: cx_set_variable_def Let_def variables_ok_dset)
next
  case (Some w)
  then have "v_name w = n" using assms by (simp add: variables_ok_def)
  then show ?thesis using assms Some by (simp add: cx_set_variable_def Let_def variables_ok_dset)
qed

lemma set_variable_frame [simp]:
  "cx_parent (cx_set_variable clk n v ty sc tr c) = cx_parent c"
  "cx_children (cx_set_variable clk n v ty sc tr c) = cx_children c"
  "cx_context_id (cx_set_variable clk n v ty sc tr c) = cx_context_id c"
  by (simp_all add: cx_set_variable_def Let_def split: option.splits)

lemma copy_variables_frame:
  "cx_parent (copy_variables_to clk ns src c) = cx_parent c \<and> cx_children (copy_variables_to clk ns src c) = cx_children c \<and>
   cx_context_id (copy_variables_to clk ns src c) = cx_context_id c \<and>
   (variables_ok (cx_variables c) \<longrightarrow> variables_ok (cx_variables (copy_variables_to clk ns src c)))"
proof -
  have "cx_parent (fold (\<lambda>(i, n, v). copy_variable (g i) n v) vs c) = cx_parent c \<and>
      cx_children (fold (\<lambda>(i, n, v). copy_variable (g i) n v) vs c) = cx_children c \<and>
      cx_context_id (fold (\<lambda>(i, n, v). copy_variable (g i) n v) vs c) = cx_context_id c \<and>
      (variables_ok (cx_variables c) \<longrightarrow> variables_ok (cx_variables (fold (\<lambda>(i, n, v). copy_variable (g i) n v) vs c)))"
    for g :: "nat \<Rightarrow> clock" and vs
    by (induction vs arbitrary: c) (auto simp: copy_variable_def variables_ok_set)
  from this [of "\<lambda>i j. clk (3 * i + j)"] show ?thesis by (simp add: copy_variables_to_def Let_def)
qed

lemma restore_frame:
  "cx_parent (snd (restore_rows clk ps c)) = cx_parent c \<and> cx_children (snd (restore_rows clk ps c)) = cx_children c \<and>
   cx_context_id (snd (restore_rows clk ps c)) = cx_context_id c \<and>
   (variables_ok (cx_variables c) \<longrightarrow> variables_ok (cx_variables (snd (restore_rows clk ps c))))"
proof (induction ps arbitrary: clk c)
  case (Cons p ps)
  show ?case
  proof (cases "variable_from_record clk p")
    case (Inr v)
    then show ?thesis
      using Cons [of "\<lambda>i. clk (i + 2)" "c\<lparr>cx_variables := dset (v_name v) v (cx_variables c)\<rparr>"] variables_ok_dset by simp
  qed simp
qed simp

lemma cm_inv_alloc:
  assumes "cm_inv m" and "\<And>p. par = Some p \<Longrightarrow> p < length (cm_store m)"
    and "alloc_context clk cid sc par (cm_store m) = (a, st)"
  shows "cm_inv (m\<lparr>cm_store := st\<rparr>)" "a = length (cm_store m)" "length st = Suc a" "cx_context_id (st ! a) = cid"
proof -
  let ?s = "cm_store m" and ?n = "new_context clk cid sc par"
  have a: "a = length ?s" using assms(3) by (auto simp: alloc_context_def Let_def split: option.splits)
  show "a = length ?s" by (rule a)
  show "length st = Suc a" using assms(3) a by (auto simp: alloc_context_def Let_def split: option.splits)
  have old: "cx_parent (st ! b) = cx_parent (?s ! b)" "cx_context_id (st ! b) = cx_context_id (?s ! b)"
    "cx_variables (st ! b) = cx_variables (?s ! b)"
    "cx_children (st ! b) = cx_children (?s ! b) @ (if par = Some b then [a] else [])" if "b < length ?s" for b
    using assms(2,3) that
    by (auto simp: alloc_context_def Let_def nth_append nth_list_update split: option.splits)
  have new: "cx_parent (st ! a) = par" "cx_context_id (st ! a) = cid" "cx_variables (st ! a) = []" "cx_children (st ! a) = []"
    using assms(2,3) a
    by (auto simp: alloc_context_def Let_def nth_append nth_list_update new_context_def split: option.splits)
  show "cx_context_id (st ! a) = cid" by (rule new)
  have len: "length st = Suc (length ?s)" using \<open>length st = Suc a\<close> a by simp
  have "forest st"
    unfolding forest_def len
  proof (intro allI impI conjI ballI)
    fix b assume b: "b < Suc (length ?s)"
    note f = forestD [OF cm_invD(1) [OF assms(1)]]
    show "p < b" if "cx_parent (st ! b) = Some p" for p
      using that f(1) [of b p] old(1) [of b] new(1) assms(2) b a by (cases "b = a") auto
    show "distinct (cx_children (st ! b))"
      using f(2,3) [of b] old(4) [of b] new(4) b a by (cases "b = a") auto
    fix c assume c: "c \<in> set (cx_children (st ! b))"
    then have "b < length ?s" using new(4) b a by (cases "b = a") auto
    then show "c < Suc (length ?s)" "cx_parent (st ! c) = Some b"
      using c f(3,4) [of b c] old new(1) a by (auto split: if_splits dest: f(3))
  qed
  then show "cm_inv (m\<lparr>cm_store := st\<rparr>)"
    using assms(1) old new(3) len a by (auto simp: cm_inv_def less_Suc_eq variables_ok_def)
qed

lemma cm_inv_destroy_ids: "cm_inv m \<Longrightarrow> cm_inv (snd (destroy_ids d cids m))"
proof (induction d cids m rule: destroy_ids.induct)
  case (2 d cid cids m)
  show ?case
  proof (cases "dget (cm_contexts m) cid")
    case None
    with 2 show ?thesis by simp
  next
    case (Some a)
    let ?m1 = "m\<lparr>cm_contexts := ddel cid (cm_contexts m)\<rparr>"
    obtain e st where d: "destroy d a (cm_store m) = (e, st)" by fastforce
    have k: "forest st" "same_shape (cm_store m) st"
      using destroy_keeps(1) [OF cm_invD(1) [OF 2(3)], of d a] d by auto
    have "cm_inv (?m1\<lparr>cm_store := st, cm_root_contexts := rs\<rparr>)" for rs
      by (rule cm_inv_shape [OF 2(3) k]) (simp split: if_splits)
    from this this [of "cm_root_contexts m"] show ?thesis
      using 2(2) [OF Some] Some d by (cases e) simp_all
  qed
qed simp

lemma cm_inv_destroy: "cm_inv m \<Longrightarrow> cm_inv (snd (destroy_context d cid m))"
  unfolding destroy_context_def by (cases "dget (cm_contexts m) cid") (simp_all del: destroy_ids.simps add: cm_inv_destroy_ids)

lemma cm_inv_add:
  assumes "cm_inv m" and "\<And>p. par = Some p \<Longrightarrow> p < length (cm_store m)"
  shows "cm_inv (snd (add_context clk cid sc par m))"
proof -
  obtain a st where al: "alloc_context clk cid sc par (cm_store m) = (a, st)" by fastforce
  from cm_inv_alloc [OF assms al] have "cm_inv (m\<lparr>cm_store := st, cm_contexts := dset cid a (cm_contexts m), cm_root_contexts := rs\<rparr>)" for rs
    by (simp add: cm_inv_def)
  then show ?thesis by (simp add: add_context_def al)
qed

lemma cm_inv_create: "cm_inv m \<Longrightarrow> cm_inv (snd (create_context clk uuid sc cid_opt parent_id m))"
  unfolding create_context_def Let_def
  by (auto split: list.splits option.splits intro!: cm_inv_add dest: cm_invD(2))

lemma cm_inv_child:
  assumes "cm_inv m" and "a < length (cm_store m)"
  shows "cm_inv (m\<lparr>cm_store := snd (create_child_context clk uuid sc cid a (cm_store m))\<rparr>)"
proof -
  obtain b st where "create_child_context clk uuid sc cid a (cm_store m) = (b, st)" by fastforce
  then show ?thesis using cm_inv_alloc(1) [OF assms(1), of "Some a"] assms(2) by (auto simp: create_child_context_def)
qed

lemma cm_inv_destroy_one:
  assumes "cm_inv m"
  shows "cm_inv (m\<lparr>cm_store := snd (destroy d a (cm_store m))\<rparr>)"
  using cm_inv_shape [OF assms, of "snd (destroy d a (cm_store m))" "cm_contexts m" "cm_root_contexts m"]
    destroy_keeps(1) [OF cm_invD(1) [OF assms], of d a]
  by simp

lemma cm_inv_cleanup_ids: "cm_inv m \<Longrightarrow> cm_inv (snd (cleanup_ids d cids m))"
proof (induction cids arbitrary: m)
  case (Cons cid cids)
  obtain e m1 where d: "destroy_context d cid m = (e, m1)" by fastforce
  then have "cm_inv m1" using cm_inv_destroy [OF Cons.prems, of d cid] by simp
  then show ?case using Cons.IH d by (cases e) simp_all
qed simp

inductive cm_reach :: "ContextManager \<Rightarrow> bool" where
  init: "cm_reach (context_manager_init r)"
| create: "cm_reach m \<Longrightarrow> cm_reach (snd (create_context clk uuid sc cid_opt parent_id m))"
| child: "cm_reach m \<Longrightarrow> a < length (cm_store m) \<Longrightarrow>
    cm_reach (m\<lparr>cm_store := snd (create_child_context clk uuid sc cid a (cm_store m))\<rparr>)"
| set_var: "cm_reach m \<Longrightarrow> cm_reach (update_context a (cx_set_variable clk n v ty vs tr) m)"
| remove_var: "cm_reach m \<Longrightarrow> cm_reach (update_context a (\<lambda>c. snd (cx_remove_variable now n c)) m)"
| copy_vars: "cm_reach m \<Longrightarrow> cm_reach (update_context a (copy_variables_to clk ns (cm_store m ! b)) m)"
| set_meta: "cm_reach m \<Longrightarrow> cm_reach (update_context a (cx_set_metadata now k v) m)"
| schema: "cm_reach m \<Longrightarrow> cm_reach (update_context a (cx_bind_schema e) m)"
| destroy_one: "cm_reach m \<Longrightarrow> cm_reach (m\<lparr>cm_store := snd (destroy d a (cm_store m))\<rparr>)"
| destroy_tree: "cm_reach m \<Longrightarrow> cm_reach (snd (destroy_context d cid m))"
| cleanup: "cm_reach m \<Longrightarrow> cm_reach (snd (cleanup_inactive_contexts d m))"
| persist: "cm_reach m \<Longrightarrow> cm_reach (snd (persist_context_variables clk ids iid cid m))"
| load: "cm_reach m \<Longrightarrow> cm_reach (snd (load_context_variables clk iid cid m))"

lemma cm_inv_repo: "cm_inv (m\<lparr>cm_variable_repository := r\<rparr>) = cm_inv m"
  by (simp add: cm_inv_def)

lemma variables_ok_ddel: "variables_ok d \<Longrightarrow> variables_ok (ddel n d)"
proof -
  assume d: "variables_ok d"
  have "v_name w = k" if "dget (ddel n d) k = Some w" for k w
    using d that by (cases "k = n") (simp_all add: variables_ok_def)
  moreover have "dict_ok (ddel n d)" using d by (simp add: variables_ok_def)
  ultimately show ?thesis unfolding variables_ok_def by blast
qed

lemma cm_reach_inv: "cm_reach m \<Longrightarrow> cm_inv m"
proof (induction rule: cm_reach.induct)
  case (init r)
  then show ?case by (simp add: context_manager_init_def cm_inv_def forest_def)
next
  case (copy_vars m a clk ns b)
  then show ?case using copy_variables_frame by (intro cm_inv_local) simp_all
next
  case (remove_var m a now n)
  then show ?case by (intro cm_inv_local) (simp_all add: cx_remove_variable_def variables_ok_ddel)
next
  case (cleanup m d)
  let ?ids = "map fst (filter (\<lambda>(cid, a). \<not> cx_is_active (cm_store m ! a)) (cm_contexts m))"
  obtain e m1 where c: "cleanup_ids d ?ids m = (e, m1)" by fastforce
  then have "cm_inv m1" using cm_inv_cleanup_ids [OF cleanup.IH, of d ?ids] by simp
  then show ?case unfolding cleanup_inactive_contexts_def Let_def c by (cases e) simp_all
next
  case (persist m clk ids iid cid)
  then show ?case
    by (auto simp: persist_context_variables_def Let_def cm_inv_repo split: option.splits prod.splits)
next
  case (load m clk iid cid)
  have fr: "cm_inv (update_context a (\<lambda>c. snd (restore_variable_records clk rows c)) m)" for a rows
    using load.IH restore_frame [of clk rows] variables_ok_Nil
    by (intro cm_inv_local) (simp_all add: restore_variable_records_def)
  have "cm_inv (update_context a (\<lambda>_. c) m)" if "restore_variable_records clk rows (cm_store m ! a) = (e, c)" for a rows e c
    using fr [of a rows] that by (simp add: update_context_def)
  then show ?case
    using load.IH by (auto simp: load_context_variables_def Let_def split: option.splits prod.splits)
qed (simp_all add: cm_inv_create cm_inv_child cm_inv_destroy cm_inv_destroy_one cm_inv_local variables_ok_set
      cx_set_metadata_def cx_bind_schema_def)

subsection \<open>Properties\<close>

text \<open>
  C24: Looking a variable up through the context and its ancestors gives exactly what the flattened
  dictionary of all visible variables has under the name.
\<close>

theorem lookup_is_flattened:
  assumes "cm_reach m" and "a < length (cm_store m)"
  shows "cx_get_variable x True a (cm_store m) = pget (cx_get_all_variables True a (cm_store m)) x"
proof -
  have inv: "cm_inv m" using cm_reach_inv [OF assms(1)] .
  have "dict_ok (cx_variables (cm_store m ! b))" if "b \<in> set (ancestors (cm_store m) a)" for b
    using cm_invD(4) [OF inv, of b] ancestors_le [OF that] assms(2) by (simp add: variables_ok_def)
  then show ?thesis
    by (simp add: cx_get_variable_def cx_get_all_variables_def lineage_def lookup_in_all)
qed

definition demo_contexts :: ContextManager where
  "demo_contexts =
     snd (create_context (\<lambda>_. 1) ''u'' ACTIVITY (Some ''task'') (Some ''proc'')
       (update_context 0 (cx_set_variable (\<lambda>_. 1) ''x'' (PInt 7) None PUBLIC False)
         (snd (create_context (\<lambda>_. 0) ''u'' PROCESS (Some ''proc'') None (context_manager_init (Some []))))))"

lemma demo_contexts_reach: "cm_reach demo_contexts"
  unfolding demo_contexts_def by (intro cm_reach.create cm_reach.set_var cm_reach.init)

lemma demo_contexts_fields:
  "length (cm_store demo_contexts) = 2" "cm_contexts demo_contexts = [(''proc'', 0), (''task'', 1)]"
  "cx_parent (cm_store demo_contexts ! 0) = None" "cx_parent (cm_store demo_contexts ! Suc 0) = Some 0"
  "cx_children (cm_store demo_contexts ! 0) = [1]" "cx_children (cm_store demo_contexts ! Suc 0) = []"
  "cx_variables (cm_store demo_contexts ! 0) = [(''x'', \<lparr>v_name = ''x'', v_value = PInt 7, v_type = ''integer'', v_scope = PUBLIC,
     v_created_at = 1, v_updated_at = 1, v_is_transient = False, v_metadata = [], v_schema_binding = None,
     v_schema_entity_cache = None\<rparr>)]"
  "cx_variables (cm_store demo_contexts ! Suc 0) = []" "cm_variable_repository demo_contexts = Some []"
  "cx_context_id (cm_store demo_contexts ! 0) = ''proc''" "cx_context_id (cm_store demo_contexts ! Suc 0) = ''task''"
  by (simp_all add: demo_contexts_def create_context_def add_context_def alloc_context_def new_context_def Let_def nonempty_opt_def
      context_manager_init_def update_context_def cx_set_variable_def)

lemma demo_contexts_ancestors:
  "ancestors (cm_store demo_contexts) 0 = [0]" "ancestors (cm_store demo_contexts) (Suc 0) = [Suc 0, 0]"
  by (simp_all add: ancestors.simps demo_contexts_fields)

theorem lookup_is_flattened_witness:
  "pget (cx_get_all_variables True 1 (cm_store demo_contexts)) ''x'' = PInt 7"
  using lookup_is_flattened [OF demo_contexts_reach, of 1 "''x''"]
  by (simp add: demo_contexts_fields demo_contexts_ancestors cx_get_variable_def lineage_def)

text \<open>A variable is seen from below when it is there and not private.\<close>

definition sees :: "string \<Rightarrow> ExecutionContext \<Rightarrow> bool" where
  "sees x c \<longleftrightarrow> (\<exists>v. dget (cx_variables c) x = Some v \<and> v_scope v \<noteq> PRIVATE)"

lemma set_variable_get:
  "dget (cx_variables (cx_set_variable clk x val ty sc tr c)) y =
     (if y = x then Some (case dget (cx_variables c) x of
          Some v \<Rightarrow> v\<lparr>v_value := val, v_type := (case ty of None \<Rightarrow> infer_type val | Some t \<Rightarrow> t), v_updated_at := clk 0\<rparr>
        | None \<Rightarrow> \<lparr>v_name = x, v_value = val, v_type = (case ty of None \<Rightarrow> infer_type val | Some t \<Rightarrow> t), v_scope = sc,
            v_created_at = clk 0, v_updated_at = clk 1, v_is_transient = tr, v_metadata = [], v_schema_binding = None,
            v_schema_entity_cache = None\<rparr>)
      else dget (cx_variables c) y)"
  by (simp add: cx_set_variable_def Let_def split: option.splits)

lemma ancestors_distinct: "distinct (ancestors st a)"
proof (induction a rule: less_induct)
  case (less a)
  have "a \<notin> set (ancestors st p)" if "p < a" for p using ancestors_le that by fastforce
  with less show ?case by (subst ancestors.simps) (simp split: option.splits)
qed

lemma lookup_after_set:
  assumes "distinct as"
  shows "get_variable_up y (map (\<lambda>b. if b = a then cx_set_variable clk x val ty sc tr (st ! a) else st ! b) as) =
    (if y = x \<and> a \<in> set as \<and> (case dget (cx_variables (st ! a)) x of Some v \<Rightarrow> v_scope v \<noteq> PRIVATE | None \<Rightarrow> sc \<noteq> PRIVATE) \<and>
        (\<forall>b \<in> set (takeWhile (\<lambda>b. b \<noteq> a) as). \<not> sees x (st ! b))
     then val else get_variable_up y (map (\<lambda>b. st ! b) as))"
  using assms
proof (induction as)
  case (Cons b as)
  show ?case
  proof (cases "b = a")
    case True
    with Cons.prems have eq: "map (\<lambda>b. if b = a then cx_set_variable clk x val ty sc tr (st ! a) else st ! b) as = map (\<lambda>b. st ! b) as"
      by auto
    show ?thesis
      by (simp only: True list.map get_variable_up.simps eq set_variable_get if_True simp_thms)
         (simp add: set_variable_get split: option.splits)
  next
    case False
    then show ?thesis
      using Cons by (cases "dget (cx_variables (st ! b)) y") (auto simp: sees_def)
  qed
qed simp

text \<open>
  Setting a variable changes exactly the look-ups it should: from a context the new value is
  seen if and only if the changed context is the context itself or one of its ancestors, the
  variable is not private there, and no context in between has a visible variable of that name;
  every other look-up in the whole forest is unchanged.
\<close>

theorem set_variable_lookup:
  assumes "cm_reach m" and "a < length (cm_store m)" and "b < length (cm_store m)"
  shows "let st = cm_store m; st' = cm_store (update_context a (cx_set_variable clk x val ty sc tr) m)
    in cx_get_variable y True b st' =
       (if y = x \<and> a \<in> set (ancestors st b) \<and>
           (case dget (cx_variables (st ! a)) x of Some v \<Rightarrow> v_scope v \<noteq> PRIVATE | None \<Rightarrow> sc \<noteq> PRIVATE) \<and>
           (\<forall>c \<in> set (takeWhile (\<lambda>c. c \<noteq> a) (ancestors st b)). \<not> sees x (st ! c))
        then val else cx_get_variable y True b st)"
proof -
  let ?st = "cm_store m" and ?f = "cx_set_variable clk x val ty sc tr"
  let ?st' = "?st[a := ?f (?st ! a)]"
  have "cx_parent (?st' ! c) = cx_parent (?st ! c)" for c
    using assms(2) by (cases "c = a") simp_all
  then have anc: "ancestors ?st' b = ancestors ?st b" by (intro ancestors_cong) blast
  have m: "map (\<lambda>c. ?st' ! c) (ancestors ?st b) = map (\<lambda>c. if c = a then ?f (?st ! a) else ?st ! c) (ancestors ?st b)"
    using assms(2) by auto
  show ?thesis
    using lookup_after_set [OF ancestors_distinct, of y a clk x val ty sc tr ?st ?st b]
    by (simp add: Let_def cx_get_variable_def lineage_def update_context_def anc m)
qed

theorem set_variable_lookup_witness:
  "cx_get_variable ''x'' True 1 (cm_store (update_context 1 (cx_set_variable (\<lambda>_. 3) ''x'' (PInt 8) None PRIVATE False) demo_contexts)) = PInt 7 \<and>
   cx_get_variable ''x'' True 1 (cm_store (update_context 0 (cx_set_variable (\<lambda>_. 3) ''x'' (PInt 9) None PRIVATE False) demo_contexts)) = PInt 9"
  using set_variable_lookup [OF demo_contexts_reach, of 1 1 "\<lambda>_. 3" "''x''" "PInt 8" None PRIVATE False "''x''"]
    set_variable_lookup [OF demo_contexts_reach, of 0 1 "\<lambda>_. 3" "''x''" "PInt 9" None PRIVATE False "''x''"]
  by (simp add: Let_def demo_contexts_fields demo_contexts_ancestors cx_get_variable_def lineage_def sees_def)

text \<open>
  Destroying a context that its parent still lists succeeds, given enough recursion depth: the
  context disappears from its parent's list, every context below it is inactive and without
  children, and no context outside the subtree changes in any other way.
\<close>

theorem destroy_subtree:
  assumes "cm_reach m" and "a < length (cm_store m)" and "length (cm_store m) - a \<le> depth"
    and "\<And>p. cx_parent (cm_store m ! a) = Some p \<Longrightarrow> a \<in> set (cx_children (cm_store m ! p))"
  shows "\<exists>st'. destroy depth a (cm_store m) = (None, st') \<and>
    (\<forall>b. (a, b) \<in> (child_rel (cm_store m))\<^sup>* \<longrightarrow> \<not> cx_is_active (st' ! b) \<and> cx_children (st' ! b) = []) \<and>
    (\<forall>b < length (cm_store m). a \<notin> set (ancestors (cm_store m) b) \<longrightarrow>
       st' ! b = (if cx_parent (cm_store m ! a) = Some b
                  then (cm_store m ! b)\<lparr>cx_children := remove1 a (cx_children (cm_store m ! b))\<rparr> else cm_store m ! b))"
  using destroy_spec [OF cm_invD(1) [OF cm_reach_inv [OF assms(1)]] assms(2,3)] assms(4)
  by (auto simp: attached_def destroyed_def)

theorem destroy_subtree_witness:
  "\<exists>st'. destroy 2 0 (cm_store demo_contexts) = (None, st') \<and> \<not> cx_is_active (st' ! 1)"
proof -
  have "(0, 1) \<in> (child_rel (cm_store demo_contexts))\<^sup>*"
    by (rule r_into_rtrancl) (simp add: child_rel_def demo_contexts_fields)
  then show ?thesis
    using destroy_subtree [OF demo_contexts_reach, of 0 2] by (auto simp: demo_contexts_fields)
qed

text \<open>
  \<open>destroy_context\<close> on a context whose first child was created through the manager always
  raises: the recursive \<open>destroy\<close> has already taken the child off the list when the loop destroys
  it once more.  The context and that child are unregistered, all others stay registered.
\<close>

theorem destroy_context_raises:
  assumes "cm_reach m" and "get_context cid m = Some a" and "length (cm_store m) - a \<le> depth"
    and "\<And>p. cx_parent (cm_store m ! a) = Some p \<Longrightarrow> a \<in> set (cx_children (cm_store m ! p))"
    and "cx_children (cm_store m ! a) = c # cs" and "get_context (cx_context_id (cm_store m ! c)) m = Some c"
  shows "fst (destroy_context depth cid m) = Some (ValueError ''list.remove(x): x not in list'') \<and>
    cm_contexts (snd (destroy_context depth cid m)) = ddel (cx_context_id (cm_store m ! c)) (ddel cid (cm_contexts m))"
proof -
  let ?st = "cm_store m"
  have inv: "cm_inv m" using cm_reach_inv [OF assms(1)] .
  have a: "a < length ?st" "cx_context_id (?st ! a) = cid" using cm_invD(2,3) [OF inv] assms(2) by (auto simp: get_context_def)
  have c: "c < length ?st" "cx_parent (?st ! c) = Some a" "a < c"
    using forestD(3-5) [OF cm_invD(1) [OF inv] a(1), of c] assms(5) by auto
  obtain st1 where d1: "destroy depth a ?st = (None, st1)" "destroyed ?st a st1"
    using destroy_spec [OF cm_invD(1) [OF inv] a(1) assms(3)] assms(4) by (auto simp: attached_def)
  have "(a, c) \<in> (child_rel ?st)\<^sup>*" by (rule r_into_rtrancl) (simp add: child_rel_def a(1) assms(5))
  then have s1: "cx_children (st1 ! a) = []" "cx_children (st1 ! c) = []" "cx_parent (st1 ! c) = Some a" "length st1 = length ?st"
    using d1(2) c by (auto simp: destroyed_def same_shape_def)
  obtain d where d: "depth = Suc d" using assms(3) a(1) by (cases depth) auto
  have d2: "fst (destroy depth c st1) = Some (ValueError ''list.remove(x): x not in list'')"
    using s1 c by (simp add: d)
  have ne: "cx_context_id (?st ! c) \<noteq> cid"
    using assms(2,6) c(3) by (auto simp: get_context_def)
  obtain ds where q: "descend ?st [a] = c # ds" using c(1,3) assms(5) by (simp add: Let_def)
  show ?thesis
    using assms(2,6) d1(1) d2 ne q
    by (cases "destroy depth c st1") (simp add: destroy_context_def get_context_def)
qed

theorem destroy_context_raises_witness:
  "fst (destroy_context 1000 ''proc'' demo_contexts) = Some (ValueError ''list.remove(x): x not in list'')"
  using destroy_context_raises [OF demo_contexts_reach, of "''proc''" 0 1000 1 "[]"]
  by (simp add: get_context_def demo_contexts_fields)

subsection \<open>Persistence of variables\<close>

definition strip_binding :: "Variable \<Rightarrow> Variable" where
  "strip_binding v = v\<lparr>v_schema_binding := None, v_schema_entity_cache := None\<rparr>"

definition variable_times_ok :: "Variable \<Rightarrow> bool" where
  "variable_times_ok v \<longleftrightarrow> valid_datetime (v_created_at v) \<and> valid_datetime (v_updated_at v)"

lemma persisted_record:
  "\<exists>ext. fst ` set ext \<subseteq> admin_keys \<and>
     variable_save_persisted now uuid k (variable_to_record iid cid v) r = (None, dset k (variable_to_record iid cid v @ ext) r)"
proof -
  obtain ext where "fst ` set ext \<subseteq> admin_keys"
    "get_persisted k (snd (save_persisted now uuid ''variable'' k (variable_to_record iid cid v) r)) = Some (variable_to_record iid cid v @ ext)"
    using persistent_repo.get_save [of k now uuid "''variable''" "variable_to_record iid cid v" r] by auto
  then show ?thesis
    by (intro exI [of _ ext])
       (simp add: variable_save_persisted_def variable_record_valid save_persisted_def repo_save_def get_persisted_def repo_get_def)
qed

lemma save_records_spec:
  assumes "distinct (map v_name vs)"
  shows "\<exists>r'. save_records clk ids iid cid (map (\<lambda>v. (v_name v, variable_to_record iid cid v)) vs) r = (None, r') \<and>
    (dict_ok r \<longrightarrow> dict_ok r') \<and>
    (\<forall>v \<in> set vs. \<exists>ext. dget r' (iid @ '':'' @ cid @ '':'' @ v_name v) = Some (variable_to_record iid cid v @ ext)) \<and>
    (\<forall>k. k \<notin> (\<lambda>v. iid @ '':'' @ cid @ '':'' @ v_name v) ` set vs \<longrightarrow> dget r' k = dget r k)"
  using assms
proof (induction vs arbitrary: clk ids r)
  case (Cons v vs)
  let ?k = "\<lambda>v. iid @ '':'' @ cid @ '':'' @ v_name v"
  obtain ext where e: "variable_save_persisted (clk 0) (ids 0) (?k v) (variable_to_record iid cid v) r =
      (None, dset (?k v) (variable_to_record iid cid v @ ext) r)"
    using persisted_record by blast
  let ?r1 = "dset (?k v) (variable_to_record iid cid v @ ext) r"
  obtain r' where r': "save_records (\<lambda>i. clk (i + 1)) (\<lambda>i. ids (i + 1)) iid cid (map (\<lambda>v. (v_name v, variable_to_record iid cid v)) vs) ?r1 = (None, r')"
    "dict_ok ?r1 \<longrightarrow> dict_ok r'"
    "\<forall>v \<in> set vs. \<exists>ext. dget r' (?k v) = Some (variable_to_record iid cid v @ ext)"
    "\<forall>k. k \<notin> ?k ` set vs \<longrightarrow> dget r' k = dget ?r1 k"
    using Cons.IH [of "\<lambda>i. clk (i + 1)" "\<lambda>i. ids (i + 1)" ?r1] Cons.prems by auto
  have "?k v \<notin> ?k ` set vs" using Cons.prems by auto
  then have "dget r' (?k v) = Some (variable_to_record iid cid v @ ext)" using r'(4) by simp
  then show ?case using e r' by auto
qed simp

lemma restore_rows_spec:
  assumes "\<And>row clk. row \<in> set rows \<Longrightarrow> variable_from_record clk row = Inr (g row)"
  shows "\<exists>t. restore_rows clk rows c =
    (None, c\<lparr>cx_variables := fold (\<lambda>row d. dset (v_name (g row)) (g row) d) rows (cx_variables c), cx_updated_at := t\<rparr>)"
  using assms
proof (induction rows arbitrary: clk c)
  case (Cons row rows)
  then show ?case
    using Cons.IH [of "\<lambda>i. clk (i + 2)" "c\<lparr>cx_variables := dset (v_name (g row)) (g row) (cx_variables c)\<rparr>"] by simp
qed auto

lemma fold_dset_get:
  assumes "\<And>row. row \<in> set rows \<Longrightarrow> h (v_name (g row)) = Some (g row)"
  shows "dget (fold (\<lambda>row d. dset (v_name (g row)) (g row) d) rows d) x =
    (if x \<in> (\<lambda>row. v_name (g row)) ` set rows then h x else dget d x)"
  using assms by (induction rows arbitrary: d) auto

text \<open>The rows of a scope after its records were saved into a repository that had none of them.\<close>

lemma scope_rows:
  assumes "dict_ok r'" and "get_by_scope iid cid r = []"
    and saved: "\<And>v. v \<in> V \<Longrightarrow> \<exists>ext. dget r' (iid @ '':'' @ cid @ '':'' @ v_name v) = Some (variable_to_record iid cid v @ ext)"
    and rest: "\<And>k. k \<notin> (\<lambda>v. iid @ '':'' @ cid @ '':'' @ v_name v) ` V \<Longrightarrow> dget r' k = dget r k"
  shows "row \<in> set (get_by_scope iid cid r') \<Longrightarrow> \<exists>v \<in> V. \<exists>ext. row = variable_to_record iid cid v @ ext"
    and "v \<in> V \<Longrightarrow> \<exists>row \<in> set (get_by_scope iid cid r'). \<exists>ext. row = variable_to_record iid cid v @ ext"
proof -
  let ?k = "\<lambda>v. iid @ '':'' @ cid @ '':'' @ v_name v"
  assume "row \<in> set (get_by_scope iid cid r')"
  then obtain k where k: "dget r' k = Some row" "pget row ''instance_id'' = PStr iid \<and> pget row ''scope_id'' = PStr cid"
    using dvals_dget [OF assms(1), of row] by (auto simp: get_by_scope_def repo_list_def)
  have "k \<in> ?k ` V"
  proof (rule ccontr)
    assume "k \<notin> ?k ` V"
    then have "row \<in> set (dvals r)" using rest k(1) dget_dvals by metis
    then show False using assms(2) k(2) by (auto simp: get_by_scope_def repo_list_def filter_empty_conv)
  qed
  then show "\<exists>v \<in> V. \<exists>ext. row = variable_to_record iid cid v @ ext" using saved k(1) by fastforce
next
  assume "v \<in> V"
  then obtain ext where e: "dget r' (iid @ '':'' @ cid @ '':'' @ v_name v) = Some (variable_to_record iid cid v @ ext)"
    using saved by blast
  have "variable_to_record iid cid v @ ext \<in> set (get_by_scope iid cid r')"
    using dget_dvals [OF e] by (auto simp: get_by_scope_def repo_list_def variable_to_record_def payload_simps)
  then show "\<exists>row \<in> set (get_by_scope iid cid r'). \<exists>ext. row = variable_to_record iid cid v @ ext" by blast
qed

text \<open>Restoring a set of rows that are the records of the values of a dict gives that dict back.\<close>

lemma restore_records:
  assumes "variables_ok d" and "\<forall>v \<in> set (dvals d). variable_times_ok v"
    and row: "\<And>row. row \<in> set rows \<Longrightarrow> \<exists>v \<in> set (dvals d). \<exists>ext. row = variable_to_record iid cid v @ ext"
    and has: "\<And>v. v \<in> set (dvals d) \<Longrightarrow> \<exists>row \<in> set rows. \<exists>ext. row = variable_to_record iid cid v @ ext"
  shows "\<exists>c'. restore_variable_records clk rows c = (None, c') \<and>
    (\<forall>x. dget (cx_variables c') x = map_option strip_binding (dget d x))"
proof -
  define g where "g row = (case variable_from_record (\<lambda>_. 0) row of Inr v \<Rightarrow> v | Inl _ \<Rightarrow> undefined)" for row
  let ?h = "\<lambda>x. map_option strip_binding (dget d x)"
  have parse: "variable_from_record clk (variable_to_record iid cid v @ ext) = Inr (strip_binding v)"
    "g (variable_to_record iid cid v @ ext) = strip_binding v" if "v \<in> set (dvals d)" for clk v ext
    using assms(2) that variable_record_roundtrip_ext [of v _ iid cid ext]
    by (auto simp: g_def variable_times_ok_def strip_binding_def)
  have nm: "v_name (strip_binding v) = v_name v" for v by (simp add: strip_binding_def)
  have h: "?h (v_name v) = Some (strip_binding v)" if "v \<in> set (dvals d)" for v
    using assms(1) that dvals_dget [of d v] unfolding variables_ok_def by auto
  have "variable_from_record clk row = Inr (g row)" "?h (v_name (g row)) = Some (g row)" if "row \<in> set rows" for row clk
    using row [OF that] parse h nm by (metis (no_types))+
  note rg = this
  obtain t where res: "restore_variable_records clk rows c =
      (None, c\<lparr>cx_variables := fold (\<lambda>row d. dset (v_name (g row)) (g row) d) rows [], cx_updated_at := t\<rparr>)"
    unfolding restore_variable_records_def using restore_rows_spec [of rows g clk "c\<lparr>cx_variables := []\<rparr>"] rg(1) by auto
  have "?h x = None" if "x \<notin> (\<lambda>row. v_name (g row)) ` set rows" for x
  proof (cases "dget d x")
    case (Some v)
    have v: "v \<in> set (dvals d)" "v_name v = x" using dget_dvals [OF Some] assms(1) Some unfolding variables_ok_def by blast+
    obtain row ext where "row \<in> set rows" "row = variable_to_record iid cid v @ ext" using has [OF v(1)] by blast
    then have "x \<in> (\<lambda>row. v_name (g row)) ` set rows"
      using parse(2) [OF v(1)] nm v(2) by (intro rev_image_eqI [of row]) simp_all
    with that show ?thesis by contradiction
  qed simp
  then have "dget (fold (\<lambda>row d. dset (v_name (g row)) (g row) d) rows []) x = ?h x" for x
    using fold_dset_get [of rows ?h g "[]" x, OF rg(2)] by simp
  with res show ?thesis by auto
qed

text \<open>
  Persisting the variables of a context and loading them again gives the same variables, up to
  the schema binding, which is not written; this needs a repository that has no rows of the
  context yet.
\<close>

theorem context_persist_load:
  assumes "cm_reach m" and "get_context cid m = Some a" and "cm_variable_repository m = Some r" and "dict_ok r"
    and "get_by_scope iid cid r = []" and "\<forall>v \<in> set (dvals (cx_variables (cm_store m ! a))). variable_times_ok v"
  shows "let m1 = snd (persist_context_variables clk ids iid cid m); m2 = snd (load_context_variables clk' iid cid m1)
    in is_ok (fst (persist_context_variables clk ids iid cid m)) \<and> is_ok (fst (load_context_variables clk' iid cid m1)) \<and>
       (\<forall>x. dget (cx_variables (cm_store m2 ! a)) x = map_option strip_binding (dget (cx_variables (cm_store m ! a)) x))"
proof -
  let ?c = "cm_store m ! a" and ?k = "\<lambda>v. iid @ '':'' @ cid @ '':'' @ v_name v"
  let ?vs = "dvals (cx_variables ?c)"
  have inv: "cm_inv m" using cm_reach_inv [OF assms(1)] .
  have a: "a < length (cm_store m)" "cx_context_id ?c = cid" using cm_invD(2,3) [OF inv] assms(2) by (auto simp: get_context_def)
  have ok: "variables_ok (cx_variables ?c)" using cm_invD(4) [OF inv a(1)] .
  have names: "map v_name ?vs = dkeys (cx_variables ?c)" using ok by (auto simp: variables_ok_def)
  have dis: "distinct (map v_name ?vs)" unfolding names using ok by (simp add: variables_ok_def)
  have zip: "zip (map v_name ?vs) (variable_records iid ?c) = map (\<lambda>v. (v_name v, variable_to_record iid cid v)) ?vs"
    by (simp add: variable_records_def a(2) zip_map_map zip_same_conv_map)
  obtain r' where r': "save_records clk ids iid cid (map (\<lambda>v. (v_name v, variable_to_record iid cid v)) ?vs) r = (None, r')" "dict_ok r'"
    "\<And>v. v \<in> set ?vs \<Longrightarrow> \<exists>ext. dget r' (?k v) = Some (variable_to_record iid cid v @ ext)"
    "\<And>k. k \<notin> ?k ` set ?vs \<Longrightarrow> dget r' k = dget r k"
    using save_records_spec [OF dis, of clk ids iid cid r] assms(4) by blast
  note rows = scope_rows [where V = "set ?vs", OF r'(2) assms(5) r'(3,4)]
  obtain c' where c': "restore_variable_records clk' (get_by_scope iid cid r') ?c = (None, c')"
    "\<forall>x. dget (cx_variables c') x = map_option strip_binding (dget (cx_variables ?c) x)"
    using restore_records [OF ok assms(6) rows(1) rows(2), of clk' ?c] by blast
  show ?thesis
    using assms(2,3) zip r'(1) c' a(1)
    by (simp add: persist_context_variables_def load_context_variables_def get_context_def Let_def update_context_def)
qed

theorem context_persist_load_witness:
  "let m1 = snd (persist_context_variables (\<lambda>_. 5) (\<lambda>_. ''id'') ''i'' ''proc'' demo_contexts);
       m2 = snd (load_context_variables (\<lambda>_. 6) ''i'' ''proc'' m1)
   in map_option v_value (dget (cx_variables (cm_store m2 ! 0)) ''x'') = Some (PInt 7)"
proof -
  have "valid_datetime 1" by (simp add: valid_datetime_def max_datetime_def days_before_year_def us_per_day_def)
  then have "\<forall>v \<in> set (dvals (cx_variables (cm_store demo_contexts ! 0))). variable_times_ok v"
    by (simp add: demo_contexts_fields variable_times_ok_def)
  moreover have "get_context ''proc'' demo_contexts = Some 0" "get_by_scope ''i'' ''proc'' [] = []"
    by (simp_all add: get_context_def demo_contexts_fields get_by_scope_def repo_list_def)
  ultimately show ?thesis
    using context_persist_load [OF demo_contexts_reach, of "''proc''" 0 "[]" "''i''" "\<lambda>_. 5" "\<lambda>_. ''id''" "\<lambda>_. 6"]
    by (simp add: Let_def demo_contexts_fields strip_binding_def)
qed

end
