(* ===== verification/Correlation.thy ===== *)
theory Correlation
  imports EventBus
begin

section \<open>Message and event correlation\<close>

text \<open>
  \<open>core/correlation.py\<close>: correlation keys, messages, subscriptions and the \<open>CorrelationEngine\<close>, which
  finds the subscriptions that wait for a message, buffers messages nobody waits for yet, and
  rebuilds its state from the history.  The engine publishes its matches on the event bus, theory
  \<open>EventBus\<close>, which is part of its state here.  \<open>asyncio.create_task\<close> puts a coroutine aside
  (\<open>ce_spawned\<close>); \<open>run_spawned\<close> is the event loop running the next one.  A coroutine of the engine is
  one step: what it awaits are the bus and the in-memory history, which do not wait for anything.
\<close>

subsection \<open>Keys\<close>

record CorrelationKey =
  ck_name :: string
  ck_value :: string

type_synonym CorrelationKeySet = "CorrelationKey list"

definition add_key :: "string \<Rightarrow> string \<Rightarrow> CorrelationKeySet \<Rightarrow> CorrelationKeySet" where
  "add_key n v ks = ks @ [\<lparr>ck_name = n, ck_value = v\<rparr>]"

definition keys_to_dict :: "CorrelationKeySet \<Rightarrow> (string, string) dict" where
  "keys_to_dict ks = dupdate [] (map (\<lambda>k. (ck_name k, ck_value k)) ks)"

text \<open>\<open>d == e\<close> on dicts: the order of the entries does not matter.\<close>

definition dict_eq :: "('k, 'v) dict \<Rightarrow> ('k, 'v) dict \<Rightarrow> bool" where
  "dict_eq d e \<longleftrightarrow> length d = length e \<and> list_all (\<lambda>(k, v). dget e k = Some v) d"

definition keys_match :: "CorrelationKeySet \<Rightarrow> CorrelationKeySet \<Rightarrow> bool" where
  "keys_match ks ks' \<longleftrightarrow> length ks = length ks' \<and> dict_eq (keys_to_dict ks) (keys_to_dict ks')"

definition keys_eq :: "CorrelationKeySet \<Rightarrow> CorrelationKeySet \<Rightarrow> bool" where
  "keys_eq ks ks' \<longleftrightarrow> dict_eq (keys_to_dict ks) (keys_to_dict ks')"

record CorrelationBinding =
  cb_name :: string
  cb_value :: string
  cb_property_ref_name :: "string option"
  cb_data_path :: "string option"

record CorrelationRule =
  cr_rule_id :: string
  cr_name :: string
  cr_bindings :: "CorrelationBinding list"

definition binding_matches :: "CorrelationBinding \<Rightarrow> string option \<Rightarrow> bool" where
  "binding_matches b v \<longleftrightarrow> v = Some (cb_value b)"

definition rule_evaluate :: "CorrelationRule \<Rightarrow> CorrelationKeySet \<Rightarrow> bool" where
  "rule_evaluate r ks \<longleftrightarrow>
     list_all (\<lambda>b. has_key (keys_to_dict ks) (cb_name b) \<and> binding_matches b (dget (keys_to_dict ks) (cb_name b)))
       (cr_bindings r)"

subsection \<open>Messages and subscriptions\<close>

record Message =
  msg_message_id :: string
  msg_message_name :: string
  msg_correlation_keys :: CorrelationKeySet
  msg_payload :: pydict
  msg_timestamp :: datetime
  msg_ttl_seconds :: "int option"
  msg_metadata :: pydict

definition keys_value :: "CorrelationKeySet \<Rightarrow> pyval" where
  "keys_value ks = PDict (map (\<lambda>(n, v). (n, PStr v)) (keys_to_dict ks))"

definition message_to_dict :: "Message \<Rightarrow> pydict" where
  "message_to_dict m =
     [(''message_id'', PStr (msg_message_id m)),
      (''message_name'', PStr (msg_message_name m)),
      (''correlation_keys'', keys_value (msg_correlation_keys m)),
      (''payload'', PDict (msg_payload m)),
      (''timestamp'', PStr (isoformat (msg_timestamp m))),
      (''ttl_seconds'', opt_int (msg_ttl_seconds m)),
      (''metadata'', PDict (msg_metadata m))]"

definition read_keys :: "pydict \<Rightarrow> CorrelationKeySet result" where
  "read_keys p =
     bindr (py_dict (por (pget p ''correlation_keys'') (PDict []))) (mapr (\<lambda>(n, v).
       bindr (py_str v) (\<lambda>s. Inr \<lparr>ck_name = n, ck_value = s\<rparr>)))"

definition index_str :: "pydict \<Rightarrow> string \<Rightarrow> string result" where
  "index_str p k = bindr (pindex p k) py_str"

definition message_from_dict :: "datetime \<Rightarrow> pydict \<Rightarrow> Message result" where
  "message_from_dict now p =
     bindr (index_str p ''message_id'') (\<lambda>mid.
     bindr (index_str p ''message_name'') (\<lambda>name.
     bindr (read_keys p) (\<lambda>ks.
     bindr (py_dict (por (pget p ''payload'') (PDict []))) (\<lambda>pl.
     bindr (parse_datetime now (pget p ''timestamp'')) (\<lambda>ts.
     bindr (if pget p ''ttl_seconds'' = PNone then Inr None
            else bindr (bindr (pindex p ''ttl_seconds'') py_int) (\<lambda>i. Inr (Some i))) (\<lambda>ttl.
     bindr (py_dict (por (pget p ''metadata'') (PDict []))) (\<lambda>md.
       Inr \<lparr>msg_message_id = mid, msg_message_name = name, msg_correlation_keys = ks, msg_payload = pl,
            msg_timestamp = ts, msg_ttl_seconds = ttl, msg_metadata = md\<rparr>)))))))"

record MessageSubscription =
  ms_subscription_id :: string
  ms_message_name :: string
  ms_correlation_keys :: CorrelationKeySet
  ms_instance_id :: string
  ms_activity_id :: string
  ms_created_at :: datetime
  ms_metadata :: pydict

definition message_sub_to_dict :: "MessageSubscription \<Rightarrow> pydict" where
  "message_sub_to_dict s =
     [(''subscription_id'', PStr (ms_subscription_id s)),
      (''message_name'', PStr (ms_message_name s)),
      (''correlation_keys'', keys_value (ms_correlation_keys s)),
      (''instance_id'', PStr (ms_instance_id s)),
      (''activity_id'', PStr (ms_activity_id s)),
      (''created_at'', PStr (isoformat (ms_created_at s))),
      (''metadata'', PDict (ms_metadata s))]"

definition message_sub_from_dict :: "datetime \<Rightarrow> pydict \<Rightarrow> MessageSubscription result" where
  "message_sub_from_dict now p =
     bindr (index_str p ''subscription_id'') (\<lambda>sid.
     bindr (index_str p ''message_name'') (\<lambda>name.
     bindr (read_keys p) (\<lambda>ks.
     bindr (index_str p ''instance_id'') (\<lambda>iid.
     bindr (index_str p ''activity_id'') (\<lambda>aid.
     bindr (parse_datetime now (pget p ''created_at'')) (\<lambda>ca.
     bindr (py_dict (por (pget p ''metadata'') (PDict []))) (\<lambda>md.
       Inr \<lparr>ms_subscription_id = sid, ms_message_name = name, ms_correlation_keys = ks, ms_instance_id = iid,
            ms_activity_id = aid, ms_created_at = ca, ms_metadata = md\<rparr>)))))))"

record EventSubscription =
  es_subscription_id :: string
  es_event_name :: string
  es_instance_id :: string
  es_activity_id :: string
  es_created_at :: datetime
  es_metadata :: pydict

definition event_sub_to_dict :: "EventSubscription \<Rightarrow> pydict" where
  "event_sub_to_dict s =
     [(''subscription_id'', PStr (es_subscription_id s)),
      (''event_name'', PStr (es_event_name s)),
      (''instance_id'', PStr (es_instance_id s)),
      (''activity_id'', PStr (es_activity_id s)),
      (''created_at'', PStr (isoformat (es_created_at s))),
      (''metadata'', PDict (es_metadata s))]"

definition event_sub_from_dict :: "datetime \<Rightarrow> pydict \<Rightarrow> EventSubscription result" where
  "event_sub_from_dict now p =
     bindr (index_str p ''subscription_id'') (\<lambda>sid.
     bindr (index_str p ''event_name'') (\<lambda>name.
     bindr (index_str p ''instance_id'') (\<lambda>iid.
     bindr (index_str p ''activity_id'') (\<lambda>aid.
     bindr (parse_datetime now (pget p ''created_at'')) (\<lambda>ca.
     bindr (py_dict (por (pget p ''metadata'') (PDict []))) (\<lambda>md.
       Inr \<lparr>es_subscription_id = sid, es_event_name = name, es_instance_id = iid,
            es_activity_id = aid, es_created_at = ca, es_metadata = md\<rparr>))))))"

subsection \<open>The engine\<close>

datatype spawned = NotifyMatch MessageSubscription Message | HistoryDelete string

record CorrelationEngine =
  ce_event_bus :: EventBus
  ce_history_repository :: "repo option"
  ce_message_subscriptions :: "(string, MessageSubscription) dict"
  ce_message_name_index :: "(string, string) index"
  ce_instance_message_subs :: "(string, string) index"
  ce_event_subscriptions :: "(string, EventSubscription) dict"
  ce_event_name_index :: "(string, string) index"
  ce_instance_event_subs :: "(string, string) index"
  ce_buffered_messages :: "Message list"
  ce_max_buffer_size :: int
  ce_spawned :: "spawned list"

definition correlation_init :: "EventBus \<Rightarrow> repo option \<Rightarrow> CorrelationEngine" where
  "correlation_init bus hist =
     \<lparr>ce_event_bus = bus, ce_history_repository = hist, ce_message_subscriptions = [], ce_message_name_index = [],
      ce_instance_message_subs = [], ce_event_subscriptions = [], ce_event_name_index = [], ce_instance_event_subs = [],
      ce_buffered_messages = [], ce_max_buffer_size = 10000, ce_spawned = []\<rparr>"

definition ce_append_history ::
  "clock \<Rightarrow> string \<Rightarrow> string \<Rightarrow> string \<Rightarrow> pydict \<Rightarrow> CorrelationEngine \<Rightarrow> CorrelationEngine outcome" where
  "ce_append_history clk uuid iid action payload en =
     (case ce_history_repository en of
        None \<Rightarrow> (None, en)
      | Some r \<Rightarrow>
          (case append_persisted (clk 1) (clk 2) uuid iid
                  [(''action'', PStr action), (''payload'', PDict payload), (''created_at'', PStr (isoformat (clk 0)))] r of
             Inl e \<Rightarrow> (Some e, en)
           | Inr (p, r') \<Rightarrow> (None, en\<lparr>ce_history_repository := Some r'\<rparr>)))"

definition new_event :: "datetime \<Rightarrow> string \<Rightarrow> EventType \<Rightarrow> pydict \<Rightarrow> Event" where
  "new_event now uuid ty data =
     \<lparr>ev_type = ty, ev_data = data, ev_event_id = uuid, ev_timestamp = now, ev_priority = NORMAL, ev_source = None,
      ev_correlation_id = None, ev_metadata = []\<rparr>"

definition match_data :: "MessageSubscription \<Rightarrow> Message \<Rightarrow> pydict" where
  "match_data s m =
     [(''subscription_id'', PStr (ms_subscription_id s)),
      (''instance_id'', PStr (ms_instance_id s)),
      (''activity_id'', PStr (ms_activity_id s)),
      (''message_id'', PStr (msg_message_id m)),
      (''message_name'', PStr (msg_message_name m)),
      (''payload'', PDict (msg_payload m))]"

definition signal_data :: "EventSubscription \<Rightarrow> string \<Rightarrow> pydict \<Rightarrow> pydict" where
  "signal_data s name payload =
     [(''subscription_id'', PStr (es_subscription_id s)),
      (''instance_id'', PStr (es_instance_id s)),
      (''activity_id'', PStr (es_activity_id s)),
      (''event_name'', PStr name),
      (''payload'', PDict payload)]"

text \<open>\<open>await self.event_bus.publish(Event(type=..., data=...))\<close>\<close>

definition ce_publish ::
  "clock \<Rightarrow> (nat \<Rightarrow> string) \<Rightarrow> EventType \<Rightarrow> pydict \<Rightarrow> CorrelationEngine \<Rightarrow> CorrelationEngine outcome" where
  "ce_publish clk ids ty data en =
     (case publish (clk 1) (ids 1) (new_event (clk 0) (ids 0) ty data) (ce_event_bus en) of
        (err, bus) \<Rightarrow> (err, en\<lparr>ce_event_bus := bus\<rparr>))"

definition notify_message_match ::
  "clock \<Rightarrow> (nat \<Rightarrow> string) \<Rightarrow> MessageSubscription \<Rightarrow> Message \<Rightarrow> CorrelationEngine \<Rightarrow> CorrelationEngine outcome" where
  "notify_message_match clk ids s m = ce_publish clk ids MESSAGE_CORRELATED (match_data s m)"

definition notify_event_match ::
  "clock \<Rightarrow> (nat \<Rightarrow> string) \<Rightarrow> EventSubscription \<Rightarrow> string \<Rightarrow> pydict \<Rightarrow> CorrelationEngine \<Rightarrow> CorrelationEngine outcome" where
  "notify_event_match clk ids s name payload = ce_publish clk ids SIGNAL_CAUGHT (signal_data s name payload)"

definition wants :: "MessageSubscription \<Rightarrow> Message \<Rightarrow> bool" where
  "wants s m \<longleftrightarrow> msg_message_name m = ms_message_name s \<and> keys_match (ms_correlation_keys s) (msg_correlation_keys m)"

text \<open>
  \<open>_check_buffered_messages\<close>.  \<open>list.remove\<close> takes out the first equal message; equal messages have
  the same id, a UUID.
\<close>

definition check_buffered_messages :: "MessageSubscription \<Rightarrow> CorrelationEngine \<Rightarrow> CorrelationEngine" where
  "check_buffered_messages s en =
     fold (\<lambda>m en. en\<lparr>ce_spawned := ce_spawned en @ [NotifyMatch s m, HistoryDelete (msg_message_id m)],
                     ce_buffered_messages := remove1 m (ce_buffered_messages en)\<rparr>)
       (filter (wants s) (ce_buffered_messages en)) en"

definition file_message_sub :: "string \<Rightarrow> MessageSubscription \<Rightarrow> CorrelationEngine \<Rightarrow> CorrelationEngine" where
  "file_message_sub sid s en =
     en\<lparr>ce_message_subscriptions := dset sid s (ce_message_subscriptions en),
        ce_message_name_index := idx_add (ms_message_name s) sid (ce_message_name_index en),
        ce_instance_message_subs := idx_add (ms_instance_id s) sid (ce_instance_message_subs en)\<rparr>"

definition subscribe_message ::
  "datetime \<Rightarrow> string \<Rightarrow> string \<Rightarrow> CorrelationKeySet \<Rightarrow> string \<Rightarrow> string \<Rightarrow> string option \<Rightarrow> CorrelationEngine
    \<Rightarrow> string \<times> CorrelationEngine" where
  "subscribe_message now uuid name ks iid aid sid_opt en =
     (let sid = (case sid_opt of None \<Rightarrow> uuid | Some x \<Rightarrow> x);
          s = \<lparr>ms_subscription_id = sid, ms_message_name = name, ms_correlation_keys = ks, ms_instance_id = iid,
               ms_activity_id = aid, ms_created_at = now, ms_metadata = []\<rparr>
      in (sid, check_buffered_messages s (file_message_sub sid s en)))"

definition unsubscribe_message :: "string \<Rightarrow> CorrelationEngine \<Rightarrow> bool \<times> CorrelationEngine" where
  "unsubscribe_message sid en =
     (case dget (ce_message_subscriptions en) sid of
        None \<Rightarrow> (False, en)
      | Some s \<Rightarrow>
          (True, en\<lparr>ce_message_subscriptions := ddel sid (ce_message_subscriptions en),
                    ce_message_name_index := idx_discard_default (ms_message_name s) sid (ce_message_name_index en),
                    ce_instance_message_subs := idx_discard_default (ms_instance_id s) sid (ce_instance_message_subs en)\<rparr>))"

definition file_event_sub :: "string \<Rightarrow> EventSubscription \<Rightarrow> CorrelationEngine \<Rightarrow> CorrelationEngine" where
  "file_event_sub sid s en =
     en\<lparr>ce_event_subscriptions := dset sid s (ce_event_subscriptions en),
        ce_event_name_index := idx_add (es_event_name s) sid (ce_event_name_index en),
        ce_instance_event_subs := idx_add (es_instance_id s) sid (ce_instance_event_subs en)\<rparr>"

definition subscribe_event ::
  "datetime \<Rightarrow> string \<Rightarrow> string \<Rightarrow> string \<Rightarrow> string \<Rightarrow> string option \<Rightarrow> CorrelationEngine \<Rightarrow> string \<times> CorrelationEngine" where
  "subscribe_event now uuid name iid aid sid_opt en =
     (let sid = (case sid_opt of None \<Rightarrow> uuid | Some x \<Rightarrow> x);
          s = \<lparr>es_subscription_id = sid, es_event_name = name, es_instance_id = iid, es_activity_id = aid,
               es_created_at = now, es_metadata = []\<rparr>
      in (sid, file_event_sub sid s en))"

definition unsubscribe_event :: "string \<Rightarrow> CorrelationEngine \<Rightarrow> bool \<times> CorrelationEngine" where
  "unsubscribe_event sid en =
     (case dget (ce_event_subscriptions en) sid of
        None \<Rightarrow> (False, en)
      | Some s \<Rightarrow>
          (True, en\<lparr>ce_event_subscriptions := ddel sid (ce_event_subscriptions en),
                    ce_event_name_index := idx_discard_default (es_event_name s) sid (ce_event_name_index en),
                    ce_instance_event_subs := idx_discard_default (es_instance_id s) sid (ce_instance_event_subs en)\<rparr>))"

text \<open>The variants that also write the history.\<close>

definition subscribe_message_persisted ::
  "clock \<Rightarrow> (nat \<Rightarrow> string) \<Rightarrow> string \<Rightarrow> CorrelationKeySet \<Rightarrow> string \<Rightarrow> string \<Rightarrow> string option \<Rightarrow> CorrelationEngine
    \<Rightarrow> string result \<times> CorrelationEngine" where
  "subscribe_message_persisted clk ids name ks iid aid sid_opt en =
     (case subscribe_message (clk 0) (ids 0) name ks iid aid sid_opt en of
        (sid, en1) \<Rightarrow>
          (case dget (ce_message_subscriptions en1) sid of
             None \<Rightarrow> (Inl (KeyError sid), en1)
           | Some s \<Rightarrow>
               (case ce_append_history (\<lambda>i. clk (i + 1)) (ids 1) iid ''correlation.message_subscription.created''
                       (message_sub_to_dict s) en1 of
                  (Some e, en2) \<Rightarrow> (Inl e, en2)
                | (None, en2) \<Rightarrow> (Inr sid, en2))))"

definition unsubscribe_message_persisted ::
  "clock \<Rightarrow> string \<Rightarrow> string \<Rightarrow> CorrelationEngine \<Rightarrow> bool result \<times> CorrelationEngine" where
  "unsubscribe_message_persisted clk uuid sid en =
     (case dget (ce_message_subscriptions en) sid of
        None \<Rightarrow> (Inr (fst (unsubscribe_message sid en)), snd (unsubscribe_message sid en))
      | Some s \<Rightarrow>
          (case ce_append_history clk uuid (ms_instance_id s) ''correlation.message_subscription.deleted''
                  [(''subscription_id'', PStr sid)] (snd (unsubscribe_message sid en)) of
             (Some e, en1) \<Rightarrow> (Inl e, en1)
           | (None, en1) \<Rightarrow> (Inr True, en1)))"

definition subscribe_event_persisted ::
  "clock \<Rightarrow> (nat \<Rightarrow> string) \<Rightarrow> string \<Rightarrow> string \<Rightarrow> string \<Rightarrow> string option \<Rightarrow> CorrelationEngine
    \<Rightarrow> string result \<times> CorrelationEngine" where
  "subscribe_event_persisted clk ids name iid aid sid_opt en =
     (case subscribe_event (clk 0) (ids 0) name iid aid sid_opt en of
        (sid, en1) \<Rightarrow>
          (case dget (ce_event_subscriptions en1) sid of
             None \<Rightarrow> (Inl (KeyError sid), en1)
           | Some s \<Rightarrow>
               (case ce_append_history (\<lambda>i. clk (i + 1)) (ids 1) iid ''correlation.event_subscription.created''
                       (event_sub_to_dict s) en1 of
                  (Some e, en2) \<Rightarrow> (Inl e, en2)
                | (None, en2) \<Rightarrow> (Inr sid, en2))))"

definition unsubscribe_event_persisted ::
  "clock \<Rightarrow> string \<Rightarrow> string \<Rightarrow> CorrelationEngine \<Rightarrow> bool result \<times> CorrelationEngine" where
  "unsubscribe_event_persisted clk uuid sid en =
     (case dget (ce_event_subscriptions en) sid of
        None \<Rightarrow> (Inr (fst (unsubscribe_event sid en)), snd (unsubscribe_event sid en))
      | Some s \<Rightarrow>
          (case ce_append_history clk uuid (es_instance_id s) ''correlation.event_subscription.deleted''
                  [(''subscription_id'', PStr sid)] (snd (unsubscribe_event sid en)) of
             (Some e, en1) \<Rightarrow> (Inl e, en1)
           | (None, en1) \<Rightarrow> (Inr True, en1)))"

subsection \<open>Correlating and throwing\<close>

definition find_message_matches :: "Message \<Rightarrow> CorrelationEngine \<Rightarrow> string list" where
  "find_message_matches m en =
     filter (\<lambda>sid. case dget (ce_message_subscriptions en) sid of
               None \<Rightarrow> False
             | Some s \<Rightarrow> keys_match (ms_correlation_keys s) (msg_correlation_keys m))
       (idx_get (ce_message_name_index en) (msg_message_name m))"

definition buffer_message :: "Message \<Rightarrow> CorrelationEngine \<Rightarrow> CorrelationEngine" where
  "buffer_message m en =
     en\<lparr>ce_buffered_messages := push_bounded (ce_max_buffer_size en) m (ce_buffered_messages en)\<rparr>"

fun notify_all ::
  "clock \<Rightarrow> (nat \<Rightarrow> string) \<Rightarrow> Message \<Rightarrow> string list \<Rightarrow> CorrelationEngine \<Rightarrow> CorrelationEngine outcome" where
  "notify_all clk ids m [] en = (None, en)"
| "notify_all clk ids m (sid # sids) en =
     (case dget (ce_message_subscriptions en) sid of
        None \<Rightarrow> notify_all clk ids m sids en
      | Some s \<Rightarrow>
          (case notify_message_match clk ids s m en of
             (Some e, en1) \<Rightarrow> (Some e, en1)
           | (None, en1) \<Rightarrow> notify_all (\<lambda>i. clk (i + 2)) (\<lambda>i. ids (i + 2)) m sids en1))"

definition new_message ::
  "datetime \<Rightarrow> string \<Rightarrow> string \<Rightarrow> CorrelationKeySet \<Rightarrow> pydict option \<Rightarrow> int option \<Rightarrow> Message" where
  "new_message now uuid name ks payload ttl =
     \<lparr>msg_message_id = uuid, msg_message_name = name, msg_correlation_keys = ks,
      msg_payload = (case payload of None \<Rightarrow> [] | Some p \<Rightarrow> p), msg_timestamp = now, msg_ttl_seconds = ttl,
      msg_metadata = []\<rparr>"

definition correlate_message ::
  "clock \<Rightarrow> (nat \<Rightarrow> string) \<Rightarrow> string \<Rightarrow> CorrelationKeySet \<Rightarrow> pydict option \<Rightarrow> int option \<Rightarrow> CorrelationEngine
    \<Rightarrow> (string \<times> string) list result \<times> CorrelationEngine" where
  "correlate_message clk ids name ks payload ttl en =
     (let m = new_message (clk 0) (ids 0) name ks payload ttl;
          matches = find_message_matches m en
      in if matches \<noteq> []
         then (case notify_all (\<lambda>i. clk (i + 1)) (\<lambda>i. ids (i + 1)) m matches en of
                 (Some e, en1) \<Rightarrow> (Inl e, en1)
               | (None, en1) \<Rightarrow>
                   (Inr (map (\<lambda>s. (ms_instance_id s, ms_activity_id s)) (select (ce_message_subscriptions en1) matches)), en1))
         else (case ce_append_history (\<lambda>i. clk (i + 1)) (ids 1) ''correlation'' ''correlation.buffered_message.created''
                      (message_to_dict m) (buffer_message m en) of
                 (Some e, en1) \<Rightarrow> (Inl e, en1)
               | (None, en1) \<Rightarrow> (Inr [], en1)))"

fun throw_all ::
  "clock \<Rightarrow> (nat \<Rightarrow> string) \<Rightarrow> string \<Rightarrow> pydict \<Rightarrow> string list \<Rightarrow> CorrelationEngine
    \<Rightarrow> (string \<times> string) list result \<times> CorrelationEngine" where
  "throw_all clk ids name payload [] en = (Inr [], en)"
| "throw_all clk ids name payload (sid # sids) en =
     (case dget (ce_event_subscriptions en) sid of
        None \<Rightarrow> throw_all clk ids name payload sids en
      | Some s \<Rightarrow>
          (case notify_event_match clk ids s name payload en of
             (Some e, en1) \<Rightarrow> (Inl e, en1)
           | (None, en1) \<Rightarrow>
               apfst (\<lambda>res. bindr res (\<lambda>rs. Inr ((es_instance_id s, es_activity_id s) # rs)))
                 (throw_all (\<lambda>i. clk (i + 2)) (\<lambda>i. ids (i + 2)) name payload sids en1)))"

definition throw_event ::
  "clock \<Rightarrow> (nat \<Rightarrow> string) \<Rightarrow> string \<Rightarrow> pydict option \<Rightarrow> CorrelationEngine
    \<Rightarrow> (string \<times> string) list result \<times> CorrelationEngine" where
  "throw_event clk ids name payload en =
     throw_all clk ids name (case payload of None \<Rightarrow> [] | Some p \<Rightarrow> p) (idx_get (ce_event_name_index en) name) en"

text \<open>The event loop runs the coroutine that was put aside first.\<close>

definition run_spawned :: "clock \<Rightarrow> (nat \<Rightarrow> string) \<Rightarrow> CorrelationEngine \<Rightarrow> CorrelationEngine outcome" where
  "run_spawned clk ids en =
     (case ce_spawned en of
        [] \<Rightarrow> (None, en)
      | NotifyMatch s m # rest \<Rightarrow> notify_message_match clk ids s m (en\<lparr>ce_spawned := rest\<rparr>)
      | HistoryDelete mid # rest \<Rightarrow>
          ce_append_history clk (ids 0) ''correlation'' ''correlation.buffered_message.deleted''
            [(''message_id'', PStr mid)] (en\<lparr>ce_spawned := rest\<rparr>))"

subsection \<open>Clean-up, statistics and reload\<close>

definition cleanup_instance_subscriptions :: "string \<Rightarrow> CorrelationEngine \<Rightarrow> nat \<times> CorrelationEngine" where
  "cleanup_instance_subscriptions iid en =
     (let msgs = idx_get (ce_instance_message_subs en) iid;
          en1 = fold (\<lambda>sid en. snd (unsubscribe_message sid en)) msgs en;
          evs = idx_get (ce_instance_event_subs en1) iid
      in (length msgs + length evs, fold (\<lambda>sid en. snd (unsubscribe_event sid en)) evs en1))"

fun unsubscribe_messages_persisted ::
  "clock \<Rightarrow> (nat \<Rightarrow> string) \<Rightarrow> string list \<Rightarrow> CorrelationEngine \<Rightarrow> CorrelationEngine outcome" where
  "unsubscribe_messages_persisted clk ids [] en = (None, en)"
| "unsubscribe_messages_persisted clk ids (sid # sids) en =
     (case unsubscribe_message_persisted clk (ids 0) sid en of
        (Inl e, en1) \<Rightarrow> (Some e, en1)
      | (Inr b, en1) \<Rightarrow> unsubscribe_messages_persisted (\<lambda>i. clk (i + 3)) (\<lambda>i. ids (i + 1)) sids en1)"

fun unsubscribe_events_persisted ::
  "clock \<Rightarrow> (nat \<Rightarrow> string) \<Rightarrow> string list \<Rightarrow> CorrelationEngine \<Rightarrow> CorrelationEngine outcome" where
  "unsubscribe_events_persisted clk ids [] en = (None, en)"
| "unsubscribe_events_persisted clk ids (sid # sids) en =
     (case unsubscribe_event_persisted clk (ids 0) sid en of
        (Inl e, en1) \<Rightarrow> (Some e, en1)
      | (Inr b, en1) \<Rightarrow> unsubscribe_events_persisted (\<lambda>i. clk (i + 3)) (\<lambda>i. ids (i + 1)) sids en1)"

definition cleanup_instance_subscriptions_persisted ::
  "clock \<Rightarrow> (nat \<Rightarrow> string) \<Rightarrow> string \<Rightarrow> CorrelationEngine \<Rightarrow> nat result \<times> CorrelationEngine" where
  "cleanup_instance_subscriptions_persisted clk ids iid en =
     (let msgs = idx_get (ce_instance_message_subs en) iid
      in case unsubscribe_messages_persisted clk ids msgs en of
           (Some e, en1) \<Rightarrow> (Inl e, en1)
         | (None, en1) \<Rightarrow>
             (let evs = idx_get (ce_instance_event_subs en1) iid; n = length msgs
              in case unsubscribe_events_persisted (\<lambda>i. clk (i + 3 * n)) (\<lambda>i. ids (i + n)) evs en1 of
                   (Some e, en2) \<Rightarrow> (Inl e, en2)
                 | (None, en2) \<Rightarrow> (Inr (n + length evs), en2)))"

definition is_expired :: "datetime \<Rightarrow> Message \<Rightarrow> bool" where
  "is_expired now m =
     (case msg_ttl_seconds m of
        None \<Rightarrow> False
      | Some ttl \<Rightarrow> ttl \<noteq> 0 \<and> seconds_exceed (now - msg_timestamp m) ttl)"

definition cleanup_expired_messages :: "datetime \<Rightarrow> CorrelationEngine \<Rightarrow> nat \<times> CorrelationEngine" where
  "cleanup_expired_messages now en =
     (let expired = filter (is_expired now) (ce_buffered_messages en)
      in (length expired, en\<lparr>ce_buffered_messages := fold remove1 expired (ce_buffered_messages en)\<rparr>))"

record correlation_statistics =
  cst_message_subscriptions :: nat
  cst_event_subscriptions :: nat
  cst_buffered_messages :: nat
  cst_message_names :: nat
  cst_event_names :: nat
  cst_instances :: nat

definition correlation_get_statistics :: "CorrelationEngine \<Rightarrow> correlation_statistics" where
  "correlation_get_statistics en =
     \<lparr>cst_message_subscriptions = length (ce_message_subscriptions en),
      cst_event_subscriptions = length (ce_event_subscriptions en),
      cst_buffered_messages = length (ce_buffered_messages en),
      cst_message_names = length (ce_message_name_index en),
      cst_event_names = length (ce_event_name_index en),
      cst_instances = length (remdups (dkeys (ce_instance_message_subs en) @ dkeys (ce_instance_event_subs en)))\<rparr>"

definition replay_row :: "datetime \<Rightarrow> string \<Rightarrow> pydict \<Rightarrow> CorrelationEngine \<Rightarrow> CorrelationEngine outcome" where
  "replay_row now uuid row en =
     (case py_str (pget_or row ''action'' (PStr [])) of
        Inl e \<Rightarrow> (Some e, en)
      | Inr action \<Rightarrow>
          (case pget row ''payload'' of
             PDict p \<Rightarrow>
               if action = ''correlation.message_subscription.created''
               then (case message_sub_from_dict now p of
                       Inl e \<Rightarrow> (Some e, en)
                     | Inr s \<Rightarrow> (None, snd (subscribe_message now uuid (ms_message_name s) (ms_correlation_keys s)
                                  (ms_instance_id s) (ms_activity_id s) (Some (ms_subscription_id s)) en)))
               else if action = ''correlation.message_subscription.deleted''
               then (case py_str (pget_or p ''subscription_id'' (PStr [])) of
                       Inl e \<Rightarrow> (Some e, en) | Inr sid \<Rightarrow> (None, snd (unsubscribe_message sid en)))
               else if action = ''correlation.event_subscription.created''
               then (case event_sub_from_dict now p of
                       Inl e \<Rightarrow> (Some e, en)
                     | Inr s \<Rightarrow> (None, snd (subscribe_event now uuid (es_event_name s) (es_instance_id s)
                                  (es_activity_id s) (Some (es_subscription_id s)) en)))
               else if action = ''correlation.event_subscription.deleted''
               then (case py_str (pget_or p ''subscription_id'' (PStr [])) of
                       Inl e \<Rightarrow> (Some e, en) | Inr sid \<Rightarrow> (None, snd (unsubscribe_event sid en)))
               else if action = ''correlation.buffered_message.created''
               then (case message_from_dict now p of
                       Inl e \<Rightarrow> (Some e, en) | Inr m \<Rightarrow> (None, buffer_message m en))
               else if action = ''correlation.buffered_message.deleted''
               then (case py_str (pget_or p ''message_id'' (PStr [])) of
                       Inl e \<Rightarrow> (Some e, en)
                     | Inr mid \<Rightarrow> (None, en\<lparr>ce_buffered_messages :=
                                       filter (\<lambda>m. msg_message_id m \<noteq> mid) (ce_buffered_messages en)\<rparr>))
               else (None, en)
           | _ \<Rightarrow> (None, en)))"

fun replay_rows :: "datetime \<Rightarrow> string \<Rightarrow> pydict list \<Rightarrow> CorrelationEngine \<Rightarrow> CorrelationEngine outcome" where
  "replay_rows now uuid [] en = (None, en)"
| "replay_rows now uuid (row # rows) en =
     (case replay_row now uuid row en of
        (Some e, en1) \<Rightarrow> (Some e, en1)
      | (None, en1) \<Rightarrow> replay_rows now uuid rows en1)"

definition created_text :: "pydict \<Rightarrow> (string \<times> pydict) result" where
  "created_text row = bindr (py_str (pget_or row ''created_at'' (PStr []))) (\<lambda>k. Inr (k, row))"

definition cleared :: "CorrelationEngine \<Rightarrow> CorrelationEngine" where
  "cleared en =
     en\<lparr>ce_message_subscriptions := [], ce_message_name_index := [], ce_instance_message_subs := [],
        ce_event_subscriptions := [], ce_event_name_index := [], ce_instance_event_subs := [],
        ce_buffered_messages := []\<rparr>"

definition reload_from_history :: "datetime \<Rightarrow> string \<Rightarrow> CorrelationEngine \<Rightarrow> CorrelationEngine outcome" where
  "reload_from_history now uuid en =
     (case ce_history_repository en of
        None \<Rightarrow> (None, en)
      | Some r \<Rightarrow>
          (case mapr created_text (repo_list None r) of
             Inl e \<Rightarrow> (Some e, cleared en)
           | Inr rows \<Rightarrow> replay_rows now uuid (map snd (sort_key fst rows)) (cleared en)))"

subsection \<open>The subscription tables\<close>

interpretation msg_by_name:
  identified_store ce_message_subscriptions ce_message_name_index "\<lambda>s. [ms_message_name s]" file_message_sub
    "\<lambda>i en. snd (unsubscribe_message i en)" ms_subscription_id
  by unfold_locales
     (auto simp: fun_eq_iff file_message_sub_def unsubscribe_message_def dict_simps split: option.splits)

interpretation msg_by_instance:
  identified_store ce_message_subscriptions ce_instance_message_subs "\<lambda>s. [ms_instance_id s]" file_message_sub
    "\<lambda>i en. snd (unsubscribe_message i en)" ms_subscription_id
  by unfold_locales
     (auto simp: fun_eq_iff file_message_sub_def unsubscribe_message_def dict_simps split: option.splits)

interpretation ev_by_name:
  identified_store ce_event_subscriptions ce_event_name_index "\<lambda>s. [es_event_name s]" file_event_sub
    "\<lambda>i en. snd (unsubscribe_event i en)" es_subscription_id
  by unfold_locales
     (auto simp: fun_eq_iff file_event_sub_def unsubscribe_event_def dict_simps split: option.splits)

interpretation ev_by_instance:
  identified_store ce_event_subscriptions ce_instance_event_subs "\<lambda>s. [es_instance_id s]" file_event_sub
    "\<lambda>i en. snd (unsubscribe_event i en)" es_subscription_id
  by unfold_locales
     (auto simp: fun_eq_iff file_event_sub_def unsubscribe_event_def dict_simps split: option.splits)

text \<open>The two subscription tables with their indexes, which most operations leave alone.\<close>

definition message_tables ::
  "CorrelationEngine \<Rightarrow> (string, MessageSubscription) dict \<times> (string, string) index \<times> (string, string) index" where
  "message_tables en = (ce_message_subscriptions en, ce_message_name_index en, ce_instance_message_subs en)"

definition event_tables ::
  "CorrelationEngine \<Rightarrow> (string, EventSubscription) dict \<times> (string, string) index \<times> (string, string) index" where
  "event_tables en = (ce_event_subscriptions en, ce_event_name_index en, ce_instance_event_subs en)"

lemmas tables_defs = message_tables_def event_tables_def

lemma tables_update [simp, frame_simps]:
  "message_tables (en\<lparr>ce_event_bus := b\<rparr>) = message_tables en"
  "message_tables (en\<lparr>ce_history_repository := h\<rparr>) = message_tables en"
  "message_tables (en\<lparr>ce_buffered_messages := ms\<rparr>) = message_tables en"
  "message_tables (en\<lparr>ce_spawned := sp\<rparr>) = message_tables en"
  "event_tables (en\<lparr>ce_event_bus := b\<rparr>) = event_tables en"
  "event_tables (en\<lparr>ce_history_repository := h\<rparr>) = event_tables en"
  "event_tables (en\<lparr>ce_buffered_messages := ms\<rparr>) = event_tables en"
  "event_tables (en\<lparr>ce_spawned := sp\<rparr>) = event_tables en"
  by (simp_all add: tables_defs)

definition msg_inv :: "CorrelationEngine \<Rightarrow> bool" where
  "msg_inv en \<longleftrightarrow>
     store_ok ms_subscription_id (\<lambda>s. [ms_message_name s]) (ce_message_subscriptions en) (ce_message_name_index en) \<and>
     store_ok ms_subscription_id (\<lambda>s. [ms_instance_id s]) (ce_message_subscriptions en) (ce_instance_message_subs en)"

definition ev_inv :: "CorrelationEngine \<Rightarrow> bool" where
  "ev_inv en \<longleftrightarrow>
     store_ok es_subscription_id (\<lambda>s. [es_event_name s]) (ce_event_subscriptions en) (ce_event_name_index en) \<and>
     store_ok es_subscription_id (\<lambda>s. [es_instance_id s]) (ce_event_subscriptions en) (ce_instance_event_subs en)"

definition ce_inv :: "CorrelationEngine \<Rightarrow> bool" where
  "ce_inv en \<longleftrightarrow> msg_inv en \<and> ev_inv en \<and> 0 \<le> ce_max_buffer_size en \<and>
     int (length (ce_buffered_messages en)) \<le> ce_max_buffer_size en"

lemma msg_inv_cong: "message_tables en' = message_tables en \<Longrightarrow> msg_inv en' = msg_inv en"
  by (simp add: msg_inv_def message_tables_def)

lemma ev_inv_cong: "event_tables en' = event_tables en \<Longrightarrow> ev_inv en' = ev_inv en"
  by (simp add: ev_inv_def event_tables_def)

lemma ce_inv_cong:
  assumes "message_tables en' = message_tables en" "event_tables en' = event_tables en"
    "ce_max_buffer_size en' = ce_max_buffer_size en"
    "int (length (ce_buffered_messages en)) \<le> ce_max_buffer_size en
       \<Longrightarrow> int (length (ce_buffered_messages en')) \<le> ce_max_buffer_size en"
  shows "ce_inv en \<Longrightarrow> ce_inv en'"
  using assms by (simp add: ce_inv_def msg_inv_cong [OF assms(1)] ev_inv_cong [OF assms(2)])

lemma fold_remove1_filter:
  "fold remove1 (filter P xs) xs = filter (\<lambda>x. \<not> P x) xs"
proof -
  have "fold remove1 (filter P xs) (ys @ xs) = ys @ filter (\<lambda>x. \<not> P x) xs"
    if "\<forall>y \<in> set ys. \<not> P y" for ys
    using that
  proof (induction xs arbitrary: ys)
    case (Cons x xs)
    show ?case
    proof (cases "P x")
      case True
      then have "x \<notin> set ys" using Cons.prems by auto
      then show ?thesis using True Cons.IH [OF Cons.prems] by (simp add: remove1_append)
    next
      case False
      then show ?thesis using Cons.IH [of "ys @ [x]"] Cons.prems by simp
    qed
  qed simp
  from this [of "[]"] show ?thesis by simp
qed

text \<open>What a new subscription puts aside for the event loop, and what stays in the buffer.\<close>

definition pending_of :: "MessageSubscription \<Rightarrow> Message list \<Rightarrow> spawned list" where
  "pending_of s ms = concat (map (\<lambda>m. [NotifyMatch s m, HistoryDelete (msg_message_id m)]) ms)"

lemma check_buffered_closed:
  "check_buffered_messages s en =
     en\<lparr>ce_spawned := ce_spawned en @ pending_of s (filter (wants s) (ce_buffered_messages en)),
        ce_buffered_messages := filter (\<lambda>m. \<not> wants s m) (ce_buffered_messages en)\<rparr>"
proof -
  have "fold (\<lambda>m en. en\<lparr>ce_spawned := ce_spawned en @ [NotifyMatch s m, HistoryDelete (msg_message_id m)],
                     ce_buffered_messages := remove1 m (ce_buffered_messages en)\<rparr>) ms en =
      en\<lparr>ce_spawned := ce_spawned en @ pending_of s ms,
         ce_buffered_messages := fold remove1 ms (ce_buffered_messages en)\<rparr>" for ms
    by (induction ms arbitrary: en) (simp_all add: pending_of_def)
  then show ?thesis by (simp add: check_buffered_messages_def fold_remove1_filter)
qed

lemma check_buffered_frame [simp, frame_simps]:
  "message_tables (check_buffered_messages s en) = message_tables en"
  "event_tables (check_buffered_messages s en) = event_tables en"
  "ce_max_buffer_size (check_buffered_messages s en) = ce_max_buffer_size en"
  "ce_event_bus (check_buffered_messages s en) = ce_event_bus en"
  "ce_history_repository (check_buffered_messages s en) = ce_history_repository en"
  by (simp_all add: check_buffered_closed tables_defs)

lemma ce_publish_frame [simp, frame_simps]:
  "message_tables (snd (ce_publish clk ids ty d en)) = message_tables en"
  "event_tables (snd (ce_publish clk ids ty d en)) = event_tables en"
  "ce_buffered_messages (snd (ce_publish clk ids ty d en)) = ce_buffered_messages en"
  "ce_max_buffer_size (snd (ce_publish clk ids ty d en)) = ce_max_buffer_size en"
  "ce_spawned (snd (ce_publish clk ids ty d en)) = ce_spawned en"
  "ce_history_repository (snd (ce_publish clk ids ty d en)) = ce_history_repository en"
  by (simp_all add: ce_publish_def tables_defs split: prod.splits)

lemma ce_append_history_frame [simp, frame_simps]:
  "message_tables (snd (ce_append_history clk u iid a p en)) = message_tables en"
  "event_tables (snd (ce_append_history clk u iid a p en)) = event_tables en"
  "ce_buffered_messages (snd (ce_append_history clk u iid a p en)) = ce_buffered_messages en"
  "ce_max_buffer_size (snd (ce_append_history clk u iid a p en)) = ce_max_buffer_size en"
  "ce_spawned (snd (ce_append_history clk u iid a p en)) = ce_spawned en"
  "ce_event_bus (snd (ce_append_history clk u iid a p en)) = ce_event_bus en"
  by (simp_all add: ce_append_history_def tables_defs split: prod.splits option.splits sum.splits)

lemma file_sub_frame [simp, frame_simps]:
  "event_tables (file_message_sub sid s en) = event_tables en"
  "ce_buffered_messages (file_message_sub sid s en) = ce_buffered_messages en"
  "ce_max_buffer_size (file_message_sub sid s en) = ce_max_buffer_size en"
  "ce_spawned (file_message_sub sid s en) = ce_spawned en"
  "ce_event_bus (file_message_sub sid s en) = ce_event_bus en"
  "ce_history_repository (file_message_sub sid s en) = ce_history_repository en"
  "message_tables (file_event_sub sid t en) = message_tables en"
  "ce_buffered_messages (file_event_sub sid t en) = ce_buffered_messages en"
  "ce_max_buffer_size (file_event_sub sid t en) = ce_max_buffer_size en"
  by (simp_all add: file_message_sub_def file_event_sub_def tables_defs)

lemma unsubscribe_frame [simp, frame_simps]:
  "event_tables (snd (unsubscribe_message sid en)) = event_tables en"
  "ce_buffered_messages (snd (unsubscribe_message sid en)) = ce_buffered_messages en"
  "ce_max_buffer_size (snd (unsubscribe_message sid en)) = ce_max_buffer_size en"
  "message_tables (snd (unsubscribe_event sid en)) = message_tables en"
  "ce_buffered_messages (snd (unsubscribe_event sid en)) = ce_buffered_messages en"
  "ce_max_buffer_size (snd (unsubscribe_event sid en)) = ce_max_buffer_size en"
  by (simp_all add: unsubscribe_message_def unsubscribe_event_def tables_defs split: option.splits)

lemma msg_inv_file:
  "msg_inv en \<Longrightarrow> dget (ce_message_subscriptions en) sid = None \<Longrightarrow> ms_subscription_id s = sid \<Longrightarrow>
     msg_inv (file_message_sub sid s en)"
  by (simp add: msg_inv_def msg_by_name.put_ok msg_by_instance.put_ok)

lemma msg_inv_unsubscribe: "msg_inv en \<Longrightarrow> msg_inv (snd (unsubscribe_message sid en))"
  by (simp add: msg_inv_def msg_by_name.drop_ok msg_by_instance.drop_ok)

lemma ev_inv_file:
  "ev_inv en \<Longrightarrow> dget (ce_event_subscriptions en) sid = None \<Longrightarrow> es_subscription_id s = sid \<Longrightarrow>
     ev_inv (file_event_sub sid s en)"
  by (simp add: ev_inv_def ev_by_name.put_ok ev_by_instance.put_ok)

lemma ev_inv_unsubscribe: "ev_inv en \<Longrightarrow> ev_inv (snd (unsubscribe_event sid en))"
  by (simp add: ev_inv_def ev_by_name.drop_ok ev_by_instance.drop_ok)

subsection \<open>Reachable engines\<close>

abbreviation sub_id :: "string option \<Rightarrow> string \<Rightarrow> string" where
  "sub_id sid uuid \<equiv> (case sid of None \<Rightarrow> uuid | Some x \<Rightarrow> x)"

text \<open>
  The engine's own operations in any order, with fresh subscription ids, and any activity of the bus
  and the history repository in between.
\<close>

inductive ce_reach :: "CorrelationEngine \<Rightarrow> bool" where
  init: "ce_reach (correlation_init bus hist)"
| bus: "ce_reach en \<Longrightarrow> ce_reach (en\<lparr>ce_event_bus := bus\<rparr>)"
| hist: "ce_reach en \<Longrightarrow> ce_reach (en\<lparr>ce_history_repository := hist\<rparr>)"
| sub_msg: "ce_reach en \<Longrightarrow> dget (ce_message_subscriptions en) (sub_id sid uuid) = None \<Longrightarrow>
    ce_reach (snd (subscribe_message now uuid name ks iid aid sid en))"
| unsub_msg: "ce_reach en \<Longrightarrow> ce_reach (snd (unsubscribe_message s en))"
| sub_ev: "ce_reach en \<Longrightarrow> dget (ce_event_subscriptions en) (sub_id sid uuid) = None \<Longrightarrow>
    ce_reach (snd (subscribe_event now uuid name iid aid sid en))"
| unsub_ev: "ce_reach en \<Longrightarrow> ce_reach (snd (unsubscribe_event s en))"
| correlate: "ce_reach en \<Longrightarrow> ce_reach (snd (correlate_message clk ids name ks payload ttl en))"
| throw: "ce_reach en \<Longrightarrow> ce_reach (snd (throw_event clk ids name payload en))"
| turn: "ce_reach en \<Longrightarrow> ce_reach (snd (run_spawned clk ids en))"
| cleanup: "ce_reach en \<Longrightarrow> ce_reach (snd (cleanup_instance_subscriptions iid en))"
| expire: "ce_reach en \<Longrightarrow> ce_reach (snd (cleanup_expired_messages now en))"

lemma notify_all_keeps:
  assumes "\<And>clk ids ty d en. Q (snd (ce_publish clk ids ty d en)) = Q en"
  shows "Q (snd (notify_all clk ids m sids en)) = Q en"
proof (induction clk ids m sids en rule: notify_all.induct)
  case (2 clk ids m sid sids en)
  show ?case
  proof (cases "dget (ce_message_subscriptions en) sid")
    case None
    then show ?thesis using 2(1) by simp
  next
    case (Some s)
    obtain err en1 where r: "notify_message_match clk ids s m en = (err, en1)" by fastforce
    have "Q en1 = Q en" using assms r unfolding notify_message_match_def by (metis snd_conv)
    with Some r 2(2) [OF Some r [symmetric]] show ?thesis by (auto split: option.splits)
  qed
qed simp

lemma throw_all_keeps:
  assumes "\<And>clk ids ty d en. Q (snd (ce_publish clk ids ty d en)) = Q en"
  shows "Q (snd (throw_all clk ids name payload sids en)) = Q en"
proof (induction clk ids name payload sids en rule: throw_all.induct)
  case (2 clk ids name payload sid sids en)
  show ?case
  proof (cases "dget (ce_event_subscriptions en) sid")
    case None
    then show ?thesis using 2(1) by simp
  next
    case (Some s)
    obtain err en1 where r: "notify_event_match clk ids s name payload en = (err, en1)" by fastforce
    have "Q en1 = Q en" using assms r unfolding notify_event_match_def by (metis snd_conv)
    with Some r 2(2) [OF Some r [symmetric]] show ?thesis by (auto split: option.splits)
  qed
qed simp

lemma correlate_keeps:
  assumes pub: "\<And>clk ids ty d en. Q (snd (ce_publish clk ids ty d en)) = Q en"
    and hist: "\<And>clk u iid a p en. Q (snd (ce_append_history clk u iid a p en)) = Q en"
    and buf: "\<And>m. Q (buffer_message m en) = Q en"
  shows "Q (snd (correlate_message clk ids name ks payload ttl en)) = Q en"
proof -
  define m where "m = new_message (clk 0) (ids 0) name ks payload ttl"
  obtain e1 en1 where n: "notify_all (\<lambda>i. clk (i + 1)) (\<lambda>i. ids (i + 1)) m (find_message_matches m en) en = (e1, en1)"
    by fastforce
  obtain e2 en2 where h: "ce_append_history (\<lambda>i. clk (i + 1)) (ids 1) ''correlation''
      ''correlation.buffered_message.created'' (message_to_dict m) (buffer_message m en) = (e2, en2)" by fastforce
  have "Q en1 = Q en" using notify_all_keeps [of Q, OF pub] n by (metis snd_conv)
  moreover have "Q en2 = Q en" using hist h buf by (metis snd_conv)
  ultimately show ?thesis
    unfolding correlate_message_def Let_def m_def [symmetric] n h by (simp split: option.split)
qed

lemma throw_event_keeps:
  assumes "\<And>clk ids ty d en. Q (snd (ce_publish clk ids ty d en)) = Q en"
  shows "Q (snd (throw_event clk ids name payload en)) = Q en"
  unfolding throw_event_def by (rule throw_all_keeps [OF assms])

lemma run_spawned_keeps:
  assumes "\<And>clk ids ty d en. Q (snd (ce_publish clk ids ty d en)) = Q en"
    and "\<And>clk u iid a p en. Q (snd (ce_append_history clk u iid a p en)) = Q en"
    and "\<And>rest. Q (en\<lparr>ce_spawned := rest\<rparr>) = Q en"
  shows "Q (snd (run_spawned clk ids en)) = Q en"
  using assms by (simp add: run_spawned_def notify_message_match_def split: list.split spawned.split)

lemma buffer_message_frame [simp, frame_simps]:
  "message_tables (buffer_message m en) = message_tables en"
  "event_tables (buffer_message m en) = event_tables en"
  "ce_max_buffer_size (buffer_message m en) = ce_max_buffer_size en"
  by (simp_all add: buffer_message_def tables_defs)

lemma correlate_tables [simp, frame_simps]:
  "message_tables (snd (correlate_message clk ids name ks payload ttl en)) = message_tables en"
  "event_tables (snd (correlate_message clk ids name ks payload ttl en)) = event_tables en"
  "ce_max_buffer_size (snd (correlate_message clk ids name ks payload ttl en)) = ce_max_buffer_size en"
  by (rule correlate_keeps; simp)+

text \<open>The bound is kept although the buffer itself changes: it is a predicate of the buffer that both cases keep.\<close>

lemma correlate_bound:
  assumes "int (length (ce_buffered_messages en)) \<le> ce_max_buffer_size en"
  shows "int (length (ce_buffered_messages (snd (correlate_message clk ids name ks payload ttl en)))) \<le> ce_max_buffer_size en"
proof -
  let ?Q = "\<lambda>en. int (length (ce_buffered_messages en)) \<le> ce_max_buffer_size en"
  have "?Q (snd (correlate_message clk ids name ks payload ttl en)) = ?Q en"
    by (rule correlate_keeps) (use assms in \<open>simp_all add: buffer_message_def push_bounded_length\<close>)
  with assms show ?thesis by simp
qed

lemma ce_inv_throw: "ce_inv en \<Longrightarrow> ce_inv (snd (throw_event clk ids name payload en))"
  by (rule ce_inv_cong [of _ en]) (simp_all add: throw_event_keeps)

lemma ce_inv_turn: "ce_inv en \<Longrightarrow> ce_inv (snd (run_spawned clk ids en))"
  by (rule ce_inv_cong [of _ en]) (simp_all add: run_spawned_keeps)

lemma ce_inv_sub_msg:
  assumes "ce_inv en" and "dget (ce_message_subscriptions en) (sub_id sid uuid) = None"
  shows "ce_inv (snd (subscribe_message now uuid name ks iid aid sid en))"
proof -
  define s where "s = \<lparr>ms_subscription_id = sub_id sid uuid, ms_message_name = name, ms_correlation_keys = ks,
    ms_instance_id = iid, ms_activity_id = aid, ms_created_at = now, ms_metadata = []\<rparr>"
  have "ce_inv (file_message_sub (sub_id sid uuid) s en)"
    using assms msg_inv_file [of en "sub_id sid uuid" s] ev_inv_cong [OF file_sub_frame(1)]
    by (simp add: ce_inv_def s_def)
  then have "ce_inv (check_buffered_messages s (file_message_sub (sub_id sid uuid) s en))"
    by (rule ce_inv_cong [rotated -1]) (auto simp: check_buffered_closed tables_defs intro: order_trans [rotated])
  then show ?thesis by (simp add: subscribe_message_def Let_def s_def)
qed

lemma ce_inv_unsubs:
  "ce_inv en \<Longrightarrow> ce_inv (snd (unsubscribe_message sid en))"
  "ce_inv en \<Longrightarrow> ce_inv (snd (unsubscribe_event sid en))"
  by (simp_all add: ce_inv_def msg_inv_unsubscribe ev_inv_unsubscribe ev_inv_cong [OF unsubscribe_frame(1)]
      msg_inv_cong [OF unsubscribe_frame(4)])

lemma ce_inv_sub_ev:
  assumes "ce_inv en" and "dget (ce_event_subscriptions en) (sub_id sid uuid) = None"
  shows "ce_inv (snd (subscribe_event now uuid name iid aid sid en))"
  using assms ev_inv_file [of en "sub_id sid uuid"] msg_inv_cong [OF file_sub_frame(7)]
  by (simp add: ce_inv_def subscribe_event_def Let_def)

lemma ce_inv_cleanup: "ce_inv en \<Longrightarrow> ce_inv (snd (cleanup_instance_subscriptions iid en))"
proof -
  have "ce_inv en \<Longrightarrow> ce_inv (fold (\<lambda>sid en. snd (unsubscribe_message sid en)) sids en)"
    "ce_inv en \<Longrightarrow> ce_inv (fold (\<lambda>sid en. snd (unsubscribe_event sid en)) sids en)" for sids en
    by (induction sids arbitrary: en) (simp_all add: ce_inv_unsubs)
  then show "ce_inv en \<Longrightarrow> ?thesis" by (simp add: cleanup_instance_subscriptions_def Let_def)
qed

lemma cleanup_expired_closed:
  "cleanup_expired_messages now en =
     (length (filter (is_expired now) (ce_buffered_messages en)),
      en\<lparr>ce_buffered_messages := filter (\<lambda>m. \<not> is_expired now m) (ce_buffered_messages en)\<rparr>)"
  by (simp add: cleanup_expired_messages_def Let_def fold_remove1_filter)

lemma ce_reach_inv: "ce_reach en \<Longrightarrow> ce_inv en"
proof (induction rule: ce_reach.induct)
  case (init bus hist)
  then show ?case by (simp add: correlation_init_def ce_inv_def msg_inv_def ev_inv_def)
next
  case (expire en now)
  then show ?case
    by - (rule ce_inv_cong [of _ en], auto simp: cleanup_expired_closed intro: order_trans [rotated])
next
  case (correlate en clk ids name ks payload ttl)
  then show ?case by - (rule ce_inv_cong [of _ en], simp_all add: correlate_bound)
next
  case (bus en bus)
  then show ?case by - (rule ce_inv_cong [of _ en], simp_all)
next
  case (hist en hist)
  then show ?case by - (rule ce_inv_cong [of _ en], simp_all)
qed (simp_all add: ce_inv_sub_msg ce_inv_sub_ev ce_inv_unsubs ce_inv_throw ce_inv_turn ce_inv_cleanup)

subsection \<open>What is published\<close>

text \<open>The events waiting on the bus, by type and data; their ids and times are fresh each time.\<close>

definition queued :: "CorrelationEngine \<Rightarrow> (EventType \<times> pydict) list" where
  "queued en = map (\<lambda>e. (ev_type e, ev_data e)) (eb_event_queue (ce_event_bus en))"

abbreviation volatile_bus :: "CorrelationEngine \<Rightarrow> bool" where
  "volatile_bus en \<equiv> eb_event_repository (ce_event_bus en) = None"

lemma queued_update [simp]:
  "queued (en\<lparr>ce_spawned := sp\<rparr>) = queued en" "queued (en\<lparr>ce_buffered_messages := ms\<rparr>) = queued en"
  by (simp_all add: queued_def)

lemma ce_publish_volatile:
  assumes "volatile_bus en"
  obtains en1 where "ce_publish clk ids ty d en = (None, en1)" "volatile_bus en1" "queued en1 = queued en @ [(ty, d)]"
    "message_tables en1 = message_tables en" "event_tables en1 = event_tables en"
    "ce_history_repository en1 = ce_history_repository en" "ce_spawned en1 = ce_spawned en"
    "ce_buffered_messages en1 = ce_buffered_messages en"
proof (rule that [of "snd (ce_publish clk ids ty d en)"])
  show "ce_publish clk ids ty d en = (None, snd (ce_publish clk ids ty d en))"
    "queued (snd (ce_publish clk ids ty d en)) = queued en @ [(ty, d)]"
    "volatile_bus (snd (ce_publish clk ids ty d en))"
    using assms
    by (simp_all add: ce_publish_def queued_def new_event_def publish_def persist_event_def append_history_def)
qed simp_all

lemma notify_all_volatile:
  assumes "volatile_bus en"
  shows "notify_all clk ids m sids en = (None, snd (notify_all clk ids m sids en)) \<and>
    queued (snd (notify_all clk ids m sids en)) =
      queued en @ map (\<lambda>s. (MESSAGE_CORRELATED, match_data s m)) (select (ce_message_subscriptions en) sids)"
  using assms
proof (induction clk ids m sids en rule: notify_all.induct)
  case (2 clk ids m sid sids en)
  show ?case
  proof (cases "dget (ce_message_subscriptions en) sid")
    case None
    then show ?thesis using 2(1) [OF None 2(3)] by simp
  next
    case (Some s)
    obtain en1 where r: "notify_message_match clk ids s m en = (None, en1)" "volatile_bus en1"
      "queued en1 = queued en @ [(MESSAGE_CORRELATED, match_data s m)]" "message_tables en1 = message_tables en"
      using ce_publish_volatile [OF 2(3)] unfolding notify_message_match_def by metis
    have "notify_all clk ids m (sid # sids) en = notify_all (\<lambda>i. clk (i + 2)) (\<lambda>i. ids (i + 2)) m sids en1"
      using Some r(1) by simp
    with 2(2) [OF Some r(1) [symmetric] refl r(2)] Some r(3,4) show ?thesis by (simp add: message_tables_def)
  qed
qed simp

lemma find_message_matches_spec:
  assumes "ce_inv en"
  shows "map ms_subscription_id (select (ce_message_subscriptions en) (find_message_matches m en)) = find_message_matches m en"
    "distinct (find_message_matches m en)"
    "set (select (ce_message_subscriptions en) (find_message_matches m en)) =
       {s. dget (ce_message_subscriptions en) (ms_subscription_id s) = Some s \<and> wants s m}"
proof -
  let ?subs = "ce_message_subscriptions en"
  let ?P = "\<lambda>sid. case dget ?subs sid of None \<Rightarrow> False | Some s \<Rightarrow> keys_match (ms_correlation_keys s) (msg_correlation_keys m)"
  have ok: "store_ok ms_subscription_id (\<lambda>s. [ms_message_name s]) ?subs (ce_message_name_index en)"
    using assms by (simp add: ce_inv_def msg_inv_def)
  note id = store_okD(2) [OF ok] and ix = store_okD(3) [OF ok]
  have "\<forall>i \<in> set (find_message_matches m en). has_key ?subs i"
    by (auto simp: find_message_matches_def has_key_def split: option.splits)
  then show "map ms_subscription_id (select ?subs (find_message_matches m en)) = find_message_matches m en"
    using map_id_select [of ?subs ms_subscription_id] id by simp
  show "distinct (find_message_matches m en)"
    using index_consistentD(1) [OF ix] by (simp add: find_message_matches_def)
  show "set (select ?subs (find_message_matches m en)) =
       {s. dget ?subs (ms_subscription_id s) = Some s \<and> wants s m}"
  proof (intro equalityI subsetI)
    fix s assume "s \<in> set (select ?subs (find_message_matches m en))"
    then obtain i where i: "dget ?subs i = Some s" "i \<in> set (find_message_matches m en)" by (auto simp: in_select)
    with id have "ms_subscription_id s = i" by blast
    with i show "s \<in> {s. dget ?subs (ms_subscription_id s) = Some s \<and> wants s m}"
      using index_consistentD(2) [OF ix] by (auto simp: find_message_matches_def wants_def)
  next
    fix s assume "s \<in> {s. dget ?subs (ms_subscription_id s) = Some s \<and> wants s m}"
    then show "s \<in> set (select ?subs (find_message_matches m en))"
      using index_consistentD(2) [OF ix, of "ms_subscription_id s" "msg_message_name m"]
      by (auto simp: in_select find_message_matches_def wants_def intro: bexI [of _ "ms_subscription_id s"])
  qed
qed

lemma throw_all_volatile:
  assumes "volatile_bus en"
  shows "fst (throw_all clk ids name payload sids en) =
      Inr (map (\<lambda>s. (es_instance_id s, es_activity_id s)) (select (ce_event_subscriptions en) sids)) \<and>
    queued (snd (throw_all clk ids name payload sids en)) =
      queued en @ map (\<lambda>s. (SIGNAL_CAUGHT, signal_data s name payload)) (select (ce_event_subscriptions en) sids)"
  using assms
proof (induction clk ids name payload sids en rule: throw_all.induct)
  case (2 clk ids name payload sid sids en)
  show ?case
  proof (cases "dget (ce_event_subscriptions en) sid")
    case None
    then show ?thesis using 2(1) [OF None 2(3)] by simp
  next
    case (Some s)
    obtain en1 where r: "notify_event_match clk ids s name payload en = (None, en1)" "volatile_bus en1"
      "queued en1 = queued en @ [(SIGNAL_CAUGHT, signal_data s name payload)]" "event_tables en1 = event_tables en"
      using ce_publish_volatile [OF 2(3)] unfolding notify_event_match_def by metis
    from 2(2) [OF Some r(1) [symmetric] refl r(2)] Some r(1,3,4) show ?thesis
      by (simp add: event_tables_def)
  qed
qed simp

text \<open>What running the coroutines that were put aside publishes.\<close>

fun published_by :: "spawned \<Rightarrow> (EventType \<times> pydict) list" where
  "published_by (NotifyMatch s m) = [(MESSAGE_CORRELATED, match_data s m)]"
| "published_by (HistoryDelete mid) = []"

definition run_turns :: "(clock \<times> (nat \<Rightarrow> string)) list \<Rightarrow> CorrelationEngine \<Rightarrow> CorrelationEngine" where
  "run_turns turns en = fold (\<lambda>(clk, ids) en. snd (run_spawned clk ids en)) turns en"

lemma run_spawned_volatile:
  assumes "volatile_bus en" "ce_history_repository en = None" "ce_spawned en = x # xs"
  shows "let en' = snd (run_spawned clk ids en)
    in volatile_bus en' \<and> ce_history_repository en' = None \<and> ce_spawned en' = xs \<and> queued en' = queued en @ published_by x \<and>
       ce_buffered_messages en' = ce_buffered_messages en"
proof (cases x)
  case (NotifyMatch s m)
  have "volatile_bus (en\<lparr>ce_spawned := xs\<rparr>)" using assms(1) by simp
  then obtain en1 where "ce_publish clk ids MESSAGE_CORRELATED (match_data s m) (en\<lparr>ce_spawned := xs\<rparr>) = (None, en1)"
    "volatile_bus en1" "queued en1 = queued en @ [(MESSAGE_CORRELATED, match_data s m)]" "ce_spawned en1 = xs"
    "ce_history_repository en1 = None" "ce_buffered_messages en1 = ce_buffered_messages en"
    using assms(2) by - (rule ce_publish_volatile [of "en\<lparr>ce_spawned := xs\<rparr>" clk ids MESSAGE_CORRELATED "match_data s m"], simp_all)
  then show ?thesis using NotifyMatch assms(3) by (simp add: run_spawned_def notify_message_match_def Let_def)
next
  case (HistoryDelete mid)
  then show ?thesis using assms by (simp add: run_spawned_def ce_append_history_def Let_def)
qed

lemma run_turns_volatile:
  assumes "volatile_bus en" "ce_history_repository en = None" "length turns = length (ce_spawned en)"
  shows "let en' = run_turns turns en
    in ce_spawned en' = [] \<and> queued en' = queued en @ concat (map published_by (ce_spawned en)) \<and>
       ce_buffered_messages en' = ce_buffered_messages en"
  using assms
proof (induction turns arbitrary: en)
  case (Cons t turns)
  obtain x xs where sp: "ce_spawned en = x # xs" using Cons.prems(3) by (cases "ce_spawned en") auto
  let ?en1 = "snd (run_spawned (fst t) (snd t) en)"
  note r = run_spawned_volatile [OF Cons.prems(1,2) sp, of "fst t" "snd t", unfolded Let_def]
  have "run_turns (t # turns) en = run_turns turns ?en1" by (simp add: run_turns_def case_prod_unfold)
  with Cons.IH [of ?en1] r sp Cons.prems(3) show ?case by (simp add: Let_def)
qed (simp add: run_turns_def)

subsection \<open>Properties\<close>

lemma correlate_matched:
  assumes "ce_inv en" "volatile_bus en" and m: "m = new_message (clk 0) (ids 0) name ks payload ttl"
    and ne: "find_message_matches m en \<noteq> []"
  shows "let ss = select (ce_message_subscriptions en) (find_message_matches m en);
      (res, en') = correlate_message clk ids name ks payload ttl en
    in res = Inr (map (\<lambda>s. (ms_instance_id s, ms_activity_id s)) ss) \<and>
       queued en' = queued en @ map (\<lambda>s. (MESSAGE_CORRELATED, match_data s m)) ss \<and>
       ce_buffered_messages en' = ce_buffered_messages en"
proof -
  let ?ids = "find_message_matches m en"
  obtain en1 where n: "notify_all (\<lambda>i. clk (i + 1)) (\<lambda>i. ids (i + 1)) m ?ids en = (None, en1)"
    and q: "queued en1 = queued en @ map (\<lambda>s. (MESSAGE_CORRELATED, match_data s m)) (select (ce_message_subscriptions en) ?ids)"
    using notify_all_volatile [OF assms(2)] by blast
  have "ce_message_subscriptions (snd (notify_all (\<lambda>i. clk (i + 1)) (\<lambda>i. ids (i + 1)) m ?ids en)) = ce_message_subscriptions en"
    "ce_buffered_messages (snd (notify_all (\<lambda>i. clk (i + 1)) (\<lambda>i. ids (i + 1)) m ?ids en)) = ce_buffered_messages en"
    by (rule notify_all_keeps, simp add: ce_publish_def split: prod.split)+
  then show ?thesis
    unfolding correlate_message_def m [symmetric] Let_def n using q ne by simp
qed

lemma correlate_unmatched:
  assumes "ce_history_repository en = None" "m = new_message (clk 0) (ids 0) name ks payload ttl"
    "find_message_matches m en = []"
  shows "correlate_message clk ids name ks payload ttl en = (Inr [], buffer_message m en)"
  using assms by (simp add: correlate_message_def Let_def ce_append_history_def buffer_message_def)


definition order_key :: CorrelationKeySet where
  "order_key = add_key ''order'' ''42'' []"

definition demo_engine :: CorrelationEngine where
  "demo_engine = correlation_init (event_bus_init 10 None) None"

definition demo_subscribed :: CorrelationEngine where
  "demo_subscribed = snd (subscribe_message 0 ''u'' ''paid'' order_key ''i1'' ''a1'' (Some ''s1'') demo_engine)"

lemma demo_subscribed_fields:
  "ce_message_subscriptions demo_subscribed =
     [(''s1'', \<lparr>ms_subscription_id = ''s1'', ms_message_name = ''paid'', ms_correlation_keys = order_key,
        ms_instance_id = ''i1'', ms_activity_id = ''a1'', ms_created_at = 0, ms_metadata = []\<rparr>)]"
  "volatile_bus demo_subscribed" "queued demo_subscribed = []" "ce_reach demo_subscribed"
proof -
  show "ce_message_subscriptions demo_subscribed =
     [(''s1'', \<lparr>ms_subscription_id = ''s1'', ms_message_name = ''paid'', ms_correlation_keys = order_key,
        ms_instance_id = ''i1'', ms_activity_id = ''a1'', ms_created_at = 0, ms_metadata = []\<rparr>)]"
    "volatile_bus demo_subscribed" "queued demo_subscribed = []"
    by (simp_all add: demo_subscribed_def demo_engine_def subscribe_message_def check_buffered_closed file_message_sub_def
        correlation_init_def event_bus_init_def queued_def Let_def)
  show "ce_reach demo_subscribed"
    unfolding demo_subscribed_def demo_engine_def
    by (rule ce_reach.sub_msg [OF ce_reach.init]) (simp add: correlation_init_def)
qed




text \<open>
  Throwing an event reports exactly the subscriptions to its name, each once, and publishes one
  \<open>SIGNAL_CAUGHT\<close> event for each of them in the same order; the subscriptions stay.
\<close>

theorem throw_exact:
  assumes "ce_reach en" and "volatile_bus en"
  shows "\<exists>ss. distinct (map es_subscription_id ss) \<and>
    set ss = {s. dget (ce_event_subscriptions en) (es_subscription_id s) = Some s \<and> es_event_name s = name} \<and>
    (let (res, en') = throw_event clk ids name payload en
     in res = Inr (map (\<lambda>s. (es_instance_id s, es_activity_id s)) ss) \<and>
        queued en' = queued en @ map (\<lambda>s. (SIGNAL_CAUGHT, signal_data s name (case payload of None \<Rightarrow> [] | Some p \<Rightarrow> p))) ss \<and>
        event_tables en' = event_tables en)"
proof -
  let ?ss = "select (ce_event_subscriptions en) (idx_get (ce_event_name_index en) name)"
  have ok: "store_ok es_subscription_id (\<lambda>s. [es_event_name s]) (ce_event_subscriptions en) (ce_event_name_index en)"
    using ce_reach_inv [OF assms(1)] by (simp add: ce_inv_def ev_inv_def)
  have "distinct (map es_subscription_id ?ss)"
    unfolding store_ok_select(1) [OF ok] by (rule index_consistentD(1) [OF store_okD(3) [OF ok]])
  moreover have "set ?ss = {s. dget (ce_event_subscriptions en) (es_subscription_id s) = Some s \<and> es_event_name s = name}"
    using store_ok_select(2) [OF ok, of name] by auto
  moreover obtain res en' where t: "throw_event clk ids name payload en = (res, en')" by fastforce
  moreover have "event_tables en' = event_tables en"
    using throw_event_keeps [of event_tables clk ids name payload en] t by simp
  ultimately show ?thesis
    using throw_all_volatile [OF assms(2), of clk ids name "case payload of None \<Rightarrow> [] | Some p \<Rightarrow> p"
        "idx_get (ce_event_name_index en) name"] t
    by (intro exI [of _ ?ss]) (simp add: throw_event_def)
qed

theorem throw_exact_witness:
  "\<exists>ss :: EventSubscription list. distinct (map es_subscription_id ss) \<and>
     fst (throw_event (\<lambda>i. 5) (\<lambda>i. ''e'') ''go'' None
       (snd (subscribe_event 0 ''u'' ''go'' ''i'' ''a'' None demo_engine))) = Inr (map (\<lambda>s. (es_instance_id s, es_activity_id s)) ss)"
proof -
  have r: "ce_reach (snd (subscribe_event 0 ''u'' ''go'' ''i'' ''a'' None demo_engine))"
    unfolding demo_engine_def by (rule ce_reach.sub_ev [OF ce_reach.init]) (simp add: correlation_init_def)
  have v: "volatile_bus (snd (subscribe_event 0 ''u'' ''go'' ''i'' ''a'' None demo_engine))"
    by (simp add: demo_engine_def subscribe_event_def file_event_sub_def correlation_init_def event_bus_init_def Let_def)
  show ?thesis
    using throw_exact [OF r v, of "''go''" "\<lambda>i. 5" "\<lambda>i. ''e''" None] by (auto simp: case_prod_unfold Let_def)
qed

lemma cleanup_parts:
  assumes "cleanup_instance_subscriptions iid en = (n, en')"
  obtains en1 where "en1 = fold (\<lambda>sid en. snd (unsubscribe_message sid en)) (idx_get (ce_instance_message_subs en) iid) en"
    "en' = fold (\<lambda>sid en. snd (unsubscribe_event sid en)) (idx_get (ce_instance_event_subs en) iid) en1"
    "n = length (idx_get (ce_instance_message_subs en) iid) + length (idx_get (ce_instance_event_subs en) iid)"
    "ce_event_subscriptions en1 = ce_event_subscriptions en"
    "ce_message_subscriptions en' = ce_message_subscriptions en1"
proof (rule that)
  let ?ms = "idx_get (ce_instance_message_subs en) iid" and ?es = "idx_get (ce_instance_event_subs en) iid"
  let ?en1 = "fold (\<lambda>sid en. snd (unsubscribe_message sid en)) ?ms en"
  have "event_tables (fold (\<lambda>sid en. snd (unsubscribe_message sid en)) sids x) = event_tables x" for sids x
    by (induction sids arbitrary: x) simp_all
  then show e1: "ce_event_subscriptions ?en1 = ce_event_subscriptions en"
    and "n = length ?ms + length ?es" and en': "en' = fold (\<lambda>sid en. snd (unsubscribe_event sid en)) ?es ?en1"
    using assms by (auto simp: event_tables_def cleanup_instance_subscriptions_def Let_def)
  have "message_tables (fold (\<lambda>sid en. snd (unsubscribe_event sid en)) sids x) = message_tables x" for sids x
    by (induction sids arbitrary: x) simp_all
  then show "ce_message_subscriptions en' = ce_message_subscriptions ?en1" by (simp add: en' message_tables_def)
qed (rule refl)

text \<open>
  Cleaning up an instance removes exactly the instance's message and event subscriptions, leaves
  those of other instances as they are, and reports how many it removed.
\<close>

theorem cleanup_instance_exact:
  assumes "ce_reach en" and "cleanup_instance_subscriptions iid en = (n, en')"
  shows "dget (ce_message_subscriptions en') k =
      (case dget (ce_message_subscriptions en) k of
         None \<Rightarrow> None | Some s \<Rightarrow> if ms_instance_id s = iid then None else Some s) \<and>
    dget (ce_event_subscriptions en') k =
      (case dget (ce_event_subscriptions en) k of
         None \<Rightarrow> None | Some s \<Rightarrow> if es_instance_id s = iid then None else Some s) \<and>
    n + length (ce_message_subscriptions en') + length (ce_event_subscriptions en') =
      length (ce_message_subscriptions en) + length (ce_event_subscriptions en)"
proof -
  let ?ms = "idx_get (ce_instance_message_subs en) iid" and ?es = "idx_get (ce_instance_event_subs en) iid"
  have ok: "store_ok ms_subscription_id (\<lambda>s. [ms_instance_id s]) (ce_message_subscriptions en) (ce_instance_message_subs en)"
    "store_ok es_subscription_id (\<lambda>s. [es_instance_id s]) (ce_event_subscriptions en) (ce_instance_event_subs en)"
    using ce_reach_inv [OF assms(1)] by (simp_all add: ce_inv_def msg_inv_def ev_inv_def)
  note ix = store_okD(3) [OF ok(1)] store_okD(3) [OF ok(2)]
  obtain en1 where en1: "en1 = fold (\<lambda>sid en. snd (unsubscribe_message sid en)) ?ms en"
    and en': "en' = fold (\<lambda>sid en. snd (unsubscribe_event sid en)) ?es en1" "n = length ?ms + length ?es"
    and e1: "ce_event_subscriptions en1 = ce_event_subscriptions en"
    and m': "ce_message_subscriptions en' = ce_message_subscriptions en1"
    by (rule cleanup_parts [OF assms(2)])
  have "dget (ce_message_subscriptions en') k =
      (case dget (ce_message_subscriptions en) k of
         None \<Rightarrow> None | Some s \<Rightarrow> if ms_instance_id s = iid then None else Some s)"
    unfolding m' en1 msg_by_instance.drop_all
    using index_consistentD(2) [OF ix(1), of k iid] by (simp split: option.splits)
  moreover have "dget (ce_event_subscriptions en') k =
      (case dget (ce_event_subscriptions en) k of
         None \<Rightarrow> None | Some s \<Rightarrow> if es_instance_id s = iid then None else Some s)"
    unfolding en'(1) ev_by_instance.drop_all e1
    using index_consistentD(2) [OF ix(2), of k iid] by (simp split: option.splits)
  moreover have "length (ce_message_subscriptions en1) + length ?ms = length (ce_message_subscriptions en)"
    unfolding en1 using index_consistentD [OF ix(1)] store_okD(1) [OF ok(1)]
    by (intro msg_by_instance.drop_all_length) auto
  moreover have "length (ce_event_subscriptions en') + length ?es = length (ce_event_subscriptions en)"
    unfolding en'(1) e1 [symmetric] using index_consistentD [OF ix(2)] store_okD(1) [OF ok(2)] e1
    by (intro ev_by_instance.drop_all_length) auto
  ultimately show ?thesis by (simp add: en'(2) m')
qed

theorem cleanup_instance_exact_witness:
  "dget (ce_message_subscriptions (snd (cleanup_instance_subscriptions ''i1'' demo_subscribed))) ''s1'' = None"
  using cleanup_instance_exact [OF demo_subscribed_fields(4) prod.collapse [symmetric], of "''i1''" "''s1''"]
  by (simp add: demo_subscribed_fields)

subsection \<open>Reloading from the history\<close>

text \<open>
  The subscriptions without their creation times: a reloaded subscription is created anew and gets
  the time of the reload.
\<close>

definition timeless_msg :: "string \<Rightarrow> MessageSubscription \<Rightarrow> MessageSubscription" where
  "timeless_msg k s = s\<lparr>ms_created_at := 0\<rparr>"

definition timeless_ev :: "string \<Rightarrow> EventSubscription \<Rightarrow> EventSubscription" where
  "timeless_ev k s = s\<lparr>es_created_at := 0\<rparr>"

definition same_msgs :: "CorrelationEngine \<Rightarrow> CorrelationEngine \<Rightarrow> bool" where
  "same_msgs en en' \<longleftrightarrow>
     map_ran timeless_msg (ce_message_subscriptions en) = map_ran timeless_msg (ce_message_subscriptions en') \<and>
     ce_message_name_index en = ce_message_name_index en' \<and> ce_instance_message_subs en = ce_instance_message_subs en'"

definition same_evs :: "CorrelationEngine \<Rightarrow> CorrelationEngine \<Rightarrow> bool" where
  "same_evs en en' \<longleftrightarrow>
     map_ran timeless_ev (ce_event_subscriptions en) = map_ran timeless_ev (ce_event_subscriptions en') \<and>
     ce_event_name_index en = ce_event_name_index en' \<and> ce_instance_event_subs en = ce_instance_event_subs en'"

lemma map_ran_dset: "map_ran f (dset k v d) = dset k (f k v) (map_ran f d)"
  by (induction d) auto

lemma map_ran_ddel: "map_ran f (ddel k d) = ddel k (map_ran f d)"
  by (induction d) (auto simp: AList.delete_eq)

lemma same_msgs_cong:
  "message_tables x = message_tables en \<Longrightarrow> message_tables y = message_tables en' \<Longrightarrow> same_msgs x y = same_msgs en en'"
  by (simp add: same_msgs_def message_tables_def)

lemma same_evs_cong:
  "event_tables x = event_tables en \<Longrightarrow> event_tables y = event_tables en' \<Longrightarrow> same_evs x y = same_evs en en'"
  by (simp add: same_evs_def event_tables_def)

lemma same_msgs_file:
  assumes "same_msgs en en'" "timeless_msg sid s = timeless_msg sid s'"
  shows "same_msgs (file_message_sub sid s en) (file_message_sub sid s' en')"
proof -
  have "ms_message_name s = ms_message_name s'" "ms_instance_id s = ms_instance_id s'"
    using assms(2) by (cases s; cases s'; simp add: timeless_msg_def)+
  then show ?thesis using assms by (simp add: same_msgs_def file_message_sub_def map_ran_dset)
qed

lemma same_evs_file:
  assumes "same_evs en en'" "timeless_ev sid s = timeless_ev sid s'"
  shows "same_evs (file_event_sub sid s en) (file_event_sub sid s' en')"
proof -
  have "es_event_name s = es_event_name s'" "es_instance_id s = es_instance_id s'"
    using assms(2) by (cases s; cases s'; simp add: timeless_ev_def)+
  then show ?thesis using assms by (simp add: same_evs_def file_event_sub_def map_ran_dset)
qed

lemma same_msgs_unsubscribe:
  assumes "same_msgs en en'"
  shows "same_msgs (snd (unsubscribe_message sid en)) (snd (unsubscribe_message sid en'))"
proof -
  have "map_option (timeless_msg sid) (dget (ce_message_subscriptions en) sid) =
      map_option (timeless_msg sid) (dget (ce_message_subscriptions en') sid)"
    using assms unfolding same_msgs_def by (metis map_ran_conv)
  then show ?thesis
    using assms
    by (auto simp: same_msgs_def unsubscribe_message_def map_ran_ddel timeless_msg_def split: option.splits)
       (metis MessageSubscription.select_convs MessageSubscription.surjective MessageSubscription.update_convs(6))+
qed

lemma same_evs_unsubscribe:
  assumes "same_evs en en'"
  shows "same_evs (snd (unsubscribe_event sid en)) (snd (unsubscribe_event sid en'))"
proof -
  have "map_option (timeless_ev sid) (dget (ce_event_subscriptions en) sid) =
      map_option (timeless_ev sid) (dget (ce_event_subscriptions en') sid)"
    using assms unfolding same_evs_def by (metis map_ran_conv)
  then show ?thesis
    using assms
    by (auto simp: same_evs_def unsubscribe_event_def map_ran_ddel timeless_ev_def split: option.splits)
       (metis EventSubscription.select_convs EventSubscription.surjective EventSubscription.update_convs(5))+
qed

text \<open>A history entry reads back as what was written: its action, its payload and its time.\<close>

definition entry_of :: "string \<Rightarrow> pydict \<Rightarrow> string \<Rightarrow> pydict \<Rightarrow> bool" where
  "entry_of action payload stamp row \<longleftrightarrow>
     pget_or row ''action'' (PStr []) = PStr action \<and> pget row ''payload'' = PDict payload \<and>
     pget_or row ''created_at'' (PStr []) = PStr stamp"

lemma entry_written:
  assumes "ce_history_repository en = Some r" and "dget r (iid @ '':'' @ isoformat (clk 0)) = None"
  obtains row where "entry_of action payload (isoformat (clk 0)) row"
    "ce_append_history clk uuid iid action payload en =
       (None, en\<lparr>ce_history_repository := Some (r @ [(iid @ '':'' @ isoformat (clk 0), row)])\<rparr>)"
proof -
  let ?p = "[(''action'', PStr action), (''payload'', PDict payload), (''created_at'', PStr (isoformat (clk 0))),
    (''instance_id'', PStr iid)]"
  obtain ext where ext: "normalize_runtime_payload (clk 2) uuid ''audit'' ?p = ?p @ ext" using normalize_ext by blast
  have "append_persisted (clk 1) (clk 2) uuid iid
      [(''action'', PStr action), (''payload'', PDict payload), (''created_at'', PStr (isoformat (clk 0)))] r =
      Inr (?p @ ext, r @ [(iid @ '':'' @ isoformat (clk 0), ?p @ ext)])"
    using ext dset_new [OF assms(2)]
    by (simp add: append_persisted_def setdefault_def has_key_def save_persisted_def repo_save_def pget_def dget_or_def)
  then show thesis
    using assms(1) by (intro that [of "?p @ ext"]) (simp_all add: entry_of_def ce_append_history_def pget_def dget_or_def)
qed

lemma keys_read_back:
  assumes "distinct (map ck_name ks)"
  shows "bindr (py_dict (por (keys_value ks) (PDict []))) (mapr (\<lambda>(n, v).
       bindr (py_str v) (\<lambda>s. Inr \<lparr>ck_name = n, ck_value = s\<rparr>))) = Inr ks"
proof -
  have upd: "dupdate d (map (\<lambda>k. (ck_name k, ck_value k)) xs) = d @ map (\<lambda>k. (ck_name k, ck_value k)) xs"
    if "distinct (map ck_name xs)" "fst ` set d \<inter> ck_name ` set xs = {}" for xs :: CorrelationKeySet and d
    using that
  proof (induction xs arbitrary: d)
    case (Cons x xs)
    then have "dset (ck_name x) (ck_value x) d = d @ [(ck_name x, ck_value x)]"
      by (intro dset_new) (auto simp: map_of_eq_None_iff)
    with Cons show ?case by (simp add: dupdate_def)
  qed (simp add: dupdate_def)
  have "keys_to_dict ks = map (\<lambda>k. (ck_name k, ck_value k)) ks"
    using upd [OF assms, of "[]"] by (simp add: keys_to_dict_def)
  moreover have "mapr (\<lambda>(n, v). bindr (py_str v) (\<lambda>s. Inr \<lparr>ck_name = n, ck_value = s\<rparr>))
      (map (\<lambda>k. (ck_name k, PStr (ck_value k))) xs) = Inr xs" for xs :: CorrelationKeySet
    by (induction xs) simp_all
  ultimately show ?thesis by (simp add: keys_value_def comp_def)
qed

lemma message_sub_read_back:
  "distinct (map ck_name (ms_correlation_keys s)) \<Longrightarrow> valid_datetime (ms_created_at s) \<Longrightarrow>
     message_sub_from_dict now (message_sub_to_dict s) = Inr s"
  using keys_read_back [of "ms_correlation_keys s"]
  by (simp add: message_sub_from_dict_def message_sub_to_dict_def read_keys_def index_str_def payload_simps)

lemma event_sub_read_back:
  "valid_datetime (es_created_at s) \<Longrightarrow> event_sub_from_dict now (event_sub_to_dict s) = Inr s"
  by (simp add: event_sub_from_dict_def event_sub_to_dict_def index_str_def payload_simps)

text \<open>
  A run of the persisting operations from an empty engine and an empty history.  The texts of the
  entries' times ascend strictly, and an entry does not overwrite another one.
\<close>

definition fresh_stamp :: "string \<Rightarrow> string \<Rightarrow> repo \<Rightarrow> bool" where
  "fresh_stamp iid stamp r \<longleftrightarrow> dget r (iid @ '':'' @ stamp) = None \<and>
     (\<forall>row \<in> set (dvals r). \<exists>c. created_key row = Some c \<and> c < stamp)"

inductive ph_run :: "CorrelationEngine \<Rightarrow> bool" where
  init: "ph_run (correlation_init bus (Some []))"
| sub_msg: "ph_run en \<Longrightarrow> ce_history_repository en = Some r \<Longrightarrow> fresh_stamp iid (isoformat (clk 1)) r \<Longrightarrow>
    valid_datetime (clk 0) \<Longrightarrow> distinct (map ck_name ks) \<Longrightarrow>
    ph_run (snd (subscribe_message_persisted clk ids name ks iid aid sid en))"
| unsub_msg: "ph_run en \<Longrightarrow> ce_history_repository en = Some r \<Longrightarrow>
    \<forall>s. dget (ce_message_subscriptions en) sid = Some s \<longrightarrow> fresh_stamp (ms_instance_id s) (isoformat (clk 0)) r \<Longrightarrow>
    ph_run (snd (unsubscribe_message_persisted clk uuid sid en))"
| sub_ev: "ph_run en \<Longrightarrow> ce_history_repository en = Some r \<Longrightarrow> fresh_stamp iid (isoformat (clk 1)) r \<Longrightarrow>
    valid_datetime (clk 0) \<Longrightarrow>
    ph_run (snd (subscribe_event_persisted clk ids name iid aid sid en))"
| unsub_ev: "ph_run en \<Longrightarrow> ce_history_repository en = Some r \<Longrightarrow>
    \<forall>s. dget (ce_event_subscriptions en) sid = Some s \<longrightarrow> fresh_stamp (es_instance_id s) (isoformat (clk 0)) r \<Longrightarrow>
    ph_run (snd (unsubscribe_event_persisted clk uuid sid en))"

text \<open>What such a run keeps: the history in order replays to the engine's subscriptions.\<close>

definition replays :: "repo \<Rightarrow> CorrelationEngine \<Rightarrow> bool" where
  "replays r en \<longleftrightarrow>
     (\<forall>row \<in> set (dvals r). created_key row \<noteq> None) \<and> sorted (map (\<lambda>row. the (created_key row)) (dvals r)) \<and>
     (\<forall>now uuid en0. \<exists>en1. replay_rows now uuid (dvals r) (cleared en0) = (None, en1) \<and>
        same_msgs en1 en \<and> same_evs en1 en \<and> ce_buffered_messages en1 = [])"

lemma replay_rows_snoc:
  "replay_rows now uuid (rows @ [row]) en =
     (case replay_rows now uuid rows en of (Some e, en1) \<Rightarrow> (Some e, en1) | (None, en1) \<Rightarrow> replay_row now uuid row en1)"
  by (induction now uuid rows en rule: replay_rows.induct) (auto split: option.splits prod.splits)

lemma replays_snoc:
  assumes "replays r en" "fresh_stamp iid stamp r" "entry_of action payload stamp row"
    and step: "\<And>now uuid en1. same_msgs en1 en \<Longrightarrow> same_evs en1 en \<Longrightarrow> ce_buffered_messages en1 = [] \<Longrightarrow>
      \<exists>en2. replay_row now uuid row en1 = (None, en2) \<and> same_msgs en2 en' \<and> same_evs en2 en' \<and> ce_buffered_messages en2 = []"
  shows "replays (r @ [(k, row)]) en'"
  unfolding replays_def
proof (intro conjI allI)
  have key: "created_key row = Some stamp" using assms(3) by (simp add: entry_of_def created_key_def)
  show "\<forall>x \<in> set (dvals (r @ [(k, row)])). created_key x \<noteq> None"
    using assms(1) key by (auto simp: replays_def)
  have "\<forall>x \<in> set (dvals r). the (created_key x) < stamp" using assms(2) by (auto simp: fresh_stamp_def)
  then show "sorted (map (\<lambda>row. the (created_key row)) (dvals (r @ [(k, row)])))"
    using assms(1) key by (fastforce simp: replays_def sorted_append)
  fix now uuid en0
  obtain en1 where "replay_rows now uuid (dvals r) (cleared en0) = (None, en1)"
    "same_msgs en1 en" "same_evs en1 en" "ce_buffered_messages en1 = []"
    using assms(1) unfolding replays_def by blast
  with step [of en1 now uuid] show "\<exists>en1. replay_rows now uuid (dvals (r @ [(k, row)])) (cleared en0) = (None, en1) \<and>
        same_msgs en1 en' \<and> same_evs en1 en' \<and> ce_buffered_messages en1 = []"
    by (simp add: replay_rows_snoc)
qed

lemma subscribe_empty_buffer:
  "ce_buffered_messages en = [] \<Longrightarrow>
   snd (subscribe_message now uuid name ks iid aid sid en) =
     file_message_sub (sub_id sid uuid) \<lparr>ms_subscription_id = sub_id sid uuid, ms_message_name = name, ms_correlation_keys = ks,
       ms_instance_id = iid, ms_activity_id = aid, ms_created_at = now, ms_metadata = []\<rparr> en"
  by (simp add: subscribe_message_def Let_def check_buffered_closed pending_of_def)

lemma replay_subscribe:
  assumes s: "s = \<lparr>ms_subscription_id = sid, ms_message_name = name, ms_correlation_keys = ks,
       ms_instance_id = iid, ms_activity_id = aid, ms_created_at = t, ms_metadata = []\<rparr>"
    and "distinct (map ck_name ks)" "valid_datetime t" "ce_buffered_messages en1 = []" "same_msgs en1 en" "same_evs en1 en"
    and row: "entry_of ''correlation.message_subscription.created'' (message_sub_to_dict s) stamp row"
  shows "\<exists>en2. replay_row now uuid row en1 = (None, en2) \<and> same_msgs en2 (file_message_sub sid s en) \<and>
    same_evs en2 (file_message_sub sid s en) \<and> ce_buffered_messages en2 = []"
proof -
  let ?en2 = "file_message_sub sid (s\<lparr>ms_created_at := now\<rparr>) en1"
  have "message_sub_from_dict now (message_sub_to_dict s) = Inr s"
    using assms(2,3) by (intro message_sub_read_back) (simp_all add: s)
  then have "replay_row now uuid row en1 = (None, ?en2)"
    using row subscribe_empty_buffer [OF assms(4), of now uuid name ks iid aid "Some sid"]
    by (simp add: replay_row_def entry_of_def s)
  moreover have "same_msgs ?en2 (file_message_sub sid s en)"
    by (rule same_msgs_file [OF assms(5)]) (simp add: timeless_msg_def)
  moreover have "same_evs ?en2 (file_message_sub sid s en)" using assms(6) by (simp only: same_evs_cong [OF file_sub_frame(1) file_sub_frame(1)])
  ultimately show ?thesis using assms(4) by simp
qed

lemma replay_subscribe_event:
  assumes s: "s = \<lparr>es_subscription_id = sid, es_event_name = name, es_instance_id = iid, es_activity_id = aid,
       es_created_at = t, es_metadata = []\<rparr>"
    and "valid_datetime t" "ce_buffered_messages en1 = []" "same_msgs en1 en" "same_evs en1 en"
    and row: "entry_of ''correlation.event_subscription.created'' (event_sub_to_dict s) stamp row"
  shows "\<exists>en2. replay_row now uuid row en1 = (None, en2) \<and> same_msgs en2 (file_event_sub sid s en) \<and>
    same_evs en2 (file_event_sub sid s en) \<and> ce_buffered_messages en2 = []"
proof -
  let ?en2 = "file_event_sub sid (s\<lparr>es_created_at := now\<rparr>) en1"
  have "event_sub_from_dict now (event_sub_to_dict s) = Inr s"
    using assms(2) by (intro event_sub_read_back) (simp add: s)
  then have "replay_row now uuid row en1 = (None, ?en2)"
    using row by (simp add: replay_row_def entry_of_def s subscribe_event_def Let_def)
  moreover have "same_evs ?en2 (file_event_sub sid s en)"
    by (rule same_evs_file [OF assms(5)]) (simp add: timeless_ev_def)
  moreover have "same_msgs ?en2 (file_event_sub sid s en)"
    using assms(4) by (simp only: same_msgs_cong [OF file_sub_frame(7) file_sub_frame(7)])
  ultimately show ?thesis using assms(3) by simp
qed

lemma replay_unsubscribe:
  assumes "ce_buffered_messages en1 = []" "same_msgs en1 en" "same_evs en1 en"
    and row: "entry_of ''correlation.message_subscription.deleted'' [(''subscription_id'', PStr sid)] stamp row"
  shows "\<exists>en2. replay_row now uuid row en1 = (None, en2) \<and> same_msgs en2 (snd (unsubscribe_message sid en)) \<and>
    same_evs en2 (snd (unsubscribe_message sid en)) \<and> ce_buffered_messages en2 = []"
proof -
  have "replay_row now uuid row en1 = (None, snd (unsubscribe_message sid en1))"
    using row by (simp add: replay_row_def entry_of_def payload_simps)
  moreover have "same_evs (snd (unsubscribe_message sid en1)) (snd (unsubscribe_message sid en))"
    using assms(3) by (simp only: same_evs_cong [OF unsubscribe_frame(1) unsubscribe_frame(1)])
  ultimately show ?thesis using assms(1) same_msgs_unsubscribe [OF assms(2)] by simp
qed

lemma replay_unsubscribe_event:
  assumes "ce_buffered_messages en1 = []" "same_msgs en1 en" "same_evs en1 en"
    and row: "entry_of ''correlation.event_subscription.deleted'' [(''subscription_id'', PStr sid)] stamp row"
  shows "\<exists>en2. replay_row now uuid row en1 = (None, en2) \<and> same_msgs en2 (snd (unsubscribe_event sid en)) \<and>
    same_evs en2 (snd (unsubscribe_event sid en)) \<and> ce_buffered_messages en2 = []"
proof -
  have "replay_row now uuid row en1 = (None, snd (unsubscribe_event sid en1))"
    using row by (simp add: replay_row_def entry_of_def payload_simps)
  moreover have "same_msgs (snd (unsubscribe_event sid en1)) (snd (unsubscribe_event sid en))"
    using assms(2) by (simp only: same_msgs_cong [OF unsubscribe_frame(4) unsubscribe_frame(4)])
  ultimately show ?thesis using assms(1) same_evs_unsubscribe [OF assms(3)] by simp
qed

text \<open>Writing an entry after an operation extends a history that replays to the operation's result.\<close>

lemma replays_write:
  assumes "replays r en" "ce_history_repository en' = Some r" "fresh_stamp iid (isoformat (clk 0)) r"
    and "\<And>row now uuid en1. entry_of action payload (isoformat (clk 0)) row \<Longrightarrow> same_msgs en1 en \<Longrightarrow> same_evs en1 en \<Longrightarrow>
      ce_buffered_messages en1 = [] \<Longrightarrow>
      \<exists>en2. replay_row now uuid row en1 = (None, en2) \<and> same_msgs en2 en' \<and> same_evs en2 en' \<and> ce_buffered_messages en2 = []"
  obtains r' en'' where "ce_append_history clk uuid iid action payload en' = (None, en'')"
    "ce_history_repository en'' = Some r'" "replays r' en''" "ce_buffered_messages en'' = ce_buffered_messages en'"
proof -
  obtain row where row: "entry_of action payload (isoformat (clk 0)) row"
    and w: "ce_append_history clk uuid iid action payload en' =
       (None, en'\<lparr>ce_history_repository := Some (r @ [(iid @ '':'' @ isoformat (clk 0), row)])\<rparr>)"
    using entry_written [of en' r iid clk action payload] assms(2,3) by (auto simp: fresh_stamp_def)
  let ?r = "r @ [(iid @ '':'' @ isoformat (clk 0), row)]"
  have "replays ?r en'"
    by (rule replays_snoc [OF assms(1,3) row]) (rule assms(4) [OF row])
  then have "replays ?r (en'\<lparr>ce_history_repository := Some ?r\<rparr>)"
    by (simp add: replays_def same_msgs_def same_evs_def)
  with w show thesis
    by (intro that [of "en'\<lparr>ce_history_repository := Some ?r\<rparr>" ?r]) simp_all
qed

lemma ph_run_sub_msg:
  assumes "replays r en" "ce_history_repository en = Some r" "ce_buffered_messages en = []"
    "fresh_stamp iid (isoformat (clk 1)) r" "valid_datetime (clk 0)" "distinct (map ck_name ks)"
  shows "let en' = snd (subscribe_message_persisted clk ids name ks iid aid sid en)
    in \<exists>r'. ce_history_repository en' = Some r' \<and> replays r' en' \<and> ce_buffered_messages en' = []"
proof -
  define k where "k = sub_id sid (ids 0)"
  define s where "s = \<lparr>ms_subscription_id = k, ms_message_name = name, ms_correlation_keys = ks,
       ms_instance_id = iid, ms_activity_id = aid, ms_created_at = clk 0, ms_metadata = []\<rparr>"
  let ?en' = "file_message_sub k s en"
  have sub: "subscribe_message (clk 0) (ids 0) name ks iid aid sid en = (k, ?en')"
    using subscribe_empty_buffer [OF assms(3), of "clk 0" "ids 0" name ks iid aid sid]
    by (simp add: subscribe_message_def Let_def k_def s_def)
  obtain r' en'' where w: "ce_append_history (\<lambda>i. clk (i + 1)) (ids 1) iid ''correlation.message_subscription.created''
      (message_sub_to_dict s) ?en' = (None, en'')" "ce_history_repository en'' = Some r'" "replays r' en''"
    "ce_buffered_messages en'' = ce_buffered_messages ?en'"
    by (rule replays_write [of r en ?en' iid "\<lambda>i. clk (i + 1)"])
       (use assms replay_subscribe [OF s_def assms(6,5)] in \<open>simp_all\<close>)
  have "dget (ce_message_subscriptions ?en') k = Some s" by (simp add: msg_by_name.objs_put)
  then have "snd (subscribe_message_persisted clk ids name ks iid aid sid en) = en''"
    unfolding subscribe_message_persisted_def sub using w(1) by simp
  then show ?thesis using w assms(3) by (simp add: Let_def)
qed

lemma ph_run_sub_ev:
  assumes "replays r en" "ce_history_repository en = Some r" "ce_buffered_messages en = []"
    "fresh_stamp iid (isoformat (clk 1)) r" "valid_datetime (clk 0)"
  shows "let en' = snd (subscribe_event_persisted clk ids name iid aid sid en)
    in \<exists>r'. ce_history_repository en' = Some r' \<and> replays r' en' \<and> ce_buffered_messages en' = []"
proof -
  define k where "k = sub_id sid (ids 0)"
  define s where "s = \<lparr>es_subscription_id = k, es_event_name = name, es_instance_id = iid, es_activity_id = aid,
       es_created_at = clk 0, es_metadata = []\<rparr>"
  let ?en' = "file_event_sub k s en"
  have sub: "subscribe_event (clk 0) (ids 0) name iid aid sid en = (k, ?en')"
    by (simp add: subscribe_event_def Let_def k_def s_def)
  obtain r' en'' where w: "ce_append_history (\<lambda>i. clk (i + 1)) (ids 1) iid ''correlation.event_subscription.created''
      (event_sub_to_dict s) ?en' = (None, en'')" "ce_history_repository en'' = Some r'" "replays r' en''"
    "ce_buffered_messages en'' = ce_buffered_messages ?en'"
    by (rule replays_write [of r en ?en' iid "\<lambda>i. clk (i + 1)"])
       (use assms replay_subscribe_event [OF s_def assms(5)] in \<open>simp_all add: file_event_sub_def\<close>)
  have "dget (ce_event_subscriptions ?en') k = Some s" by (simp add: ev_by_name.objs_put)
  then have "snd (subscribe_event_persisted clk ids name iid aid sid en) = en''"
    unfolding subscribe_event_persisted_def sub using w(1) by simp
  then show ?thesis using w assms(3) by (simp add: Let_def)
qed

lemma ph_run_unsub_msg:
  assumes "replays r en" "ce_history_repository en = Some r" "ce_buffered_messages en = []"
    "\<forall>s. dget (ce_message_subscriptions en) sid = Some s \<longrightarrow> fresh_stamp (ms_instance_id s) (isoformat (clk 0)) r"
  shows "let en' = snd (unsubscribe_message_persisted clk uuid sid en)
    in \<exists>r'. ce_history_repository en' = Some r' \<and> replays r' en' \<and> ce_buffered_messages en' = []"
proof (cases "dget (ce_message_subscriptions en) sid")
  case None
  then show ?thesis using assms by (simp add: unsubscribe_message_persisted_def unsubscribe_message_def)
next
  case (Some s)
  let ?en' = "snd (unsubscribe_message sid en)"
  have h: "ce_history_repository ?en' = Some r" using assms(2) by (simp add: unsubscribe_message_def split: option.split)
  obtain r' en'' where w: "ce_append_history clk uuid (ms_instance_id s) ''correlation.message_subscription.deleted''
      [(''subscription_id'', PStr sid)] ?en' = (None, en'')" "ce_history_repository en'' = Some r'" "replays r' en''"
    "ce_buffered_messages en'' = ce_buffered_messages ?en'"
    by (rule replays_write [OF assms(1) h, of "ms_instance_id s" clk])
       (use assms(4) Some replay_unsubscribe in \<open>simp_all\<close>)
  then show ?thesis using Some assms(3) by (simp add: unsubscribe_message_persisted_def Let_def)
qed

lemma ph_run_unsub_ev:
  assumes "replays r en" "ce_history_repository en = Some r" "ce_buffered_messages en = []"
    "\<forall>s. dget (ce_event_subscriptions en) sid = Some s \<longrightarrow> fresh_stamp (es_instance_id s) (isoformat (clk 0)) r"
  shows "let en' = snd (unsubscribe_event_persisted clk uuid sid en)
    in \<exists>r'. ce_history_repository en' = Some r' \<and> replays r' en' \<and> ce_buffered_messages en' = []"
proof (cases "dget (ce_event_subscriptions en) sid")
  case None
  then show ?thesis using assms by (simp add: unsubscribe_event_persisted_def unsubscribe_event_def)
next
  case (Some s)
  let ?en' = "snd (unsubscribe_event sid en)"
  have h: "ce_history_repository ?en' = Some r" using assms(2) by (simp add: unsubscribe_event_def split: option.split)
  obtain r' en'' where w: "ce_append_history clk uuid (es_instance_id s) ''correlation.event_subscription.deleted''
      [(''subscription_id'', PStr sid)] ?en' = (None, en'')" "ce_history_repository en'' = Some r'" "replays r' en''"
    "ce_buffered_messages en'' = ce_buffered_messages ?en'"
    by (rule replays_write [OF assms(1) h, of "es_instance_id s" clk])
       (use assms(4) Some replay_unsubscribe_event in \<open>simp_all\<close>)
  then show ?thesis using Some assms(3) by (simp add: unsubscribe_event_persisted_def Let_def)
qed

lemma ph_run_replays:
  "ph_run en \<Longrightarrow> \<exists>r. ce_history_repository en = Some r \<and> replays r en \<and> ce_buffered_messages en = []"
proof (induction rule: ph_run.induct)
  case (init bus)
  then show ?case by (simp add: correlation_init_def replays_def cleared_def same_msgs_def same_evs_def)
next
  case (sub_msg en r iid clk ks ids name aid sid)
  then show ?case using ph_run_sub_msg [of r en iid clk ks ids name aid sid] by (auto simp: Let_def)
next
  case (unsub_msg en r sid clk uuid)
  then show ?case using ph_run_unsub_msg [of r en sid clk uuid] by (auto simp: Let_def)
next
  case (sub_ev en r iid clk ids name aid sid)
  then show ?case using ph_run_sub_ev [of r en iid clk ids name aid sid] by (auto simp: Let_def)
next
  case (unsub_ev en r sid clk uuid)
  then show ?case using ph_run_unsub_ev [of r en sid clk uuid] by (auto simp: Let_def)
qed



end
