(* ===== verification/ExternalTasks.thy ===== *)
theory ExternalTasks
  imports PyVal
begin

section \<open>External tasks\<close>

text \<open>
  \<open>runtime/external_task.py\<close>: tasks that workers fetch, lock, and complete or fail.  The manager's
  state is the table of tasks, the ids per instance and one queue of ids per topic.  Each method of the
  manager runs without waiting and is one step; workers interleave as sequences of such steps.  A
  worker's handler is a parameter.
\<close>

subsection \<open>Data\<close>

datatype ExternalTaskState = PENDING | LOCKED | COMPLETED | FAILED | TIMED_OUT | CANCELLED

fun external_state_value :: "ExternalTaskState \<Rightarrow> string" where
  "external_state_value PENDING = ''pending''"
| "external_state_value LOCKED = ''locked''"
| "external_state_value COMPLETED = ''completed''"
| "external_state_value FAILED = ''failed''"
| "external_state_value TIMED_OUT = ''timed_out''"
| "external_state_value CANCELLED = ''cancelled''"

record ExternalTask =
  xt_task_id :: string
  xt_topic_name :: string
  xt_instance_id :: string
  xt_activity_id :: string
  xt_worker_id :: "string option"
  xt_lock_expiration :: "string option"
  xt_priority :: int
  xt_retries :: int
  xt_error_message :: string
  xt_error_details :: string
  xt_state :: ExternalTaskState
  xt_create_time :: string
  xt_last_failure_time :: "string option"
  xt_variables :: pydict
  xt_lock_duration_ms :: int

record FetchAndLockRequest =
  fr_worker_id :: string
  fr_max_tasks :: int
  fr_topics :: "string list"
  fr_lock_duration_ms :: int
  fr_priority_enabled :: bool

record ExternalTaskQuery =
  xq_topic_name :: "string option"
  xq_worker_id :: "string option"
  xq_instance_id :: "string option"
  xq_state :: "ExternalTaskState option"
  xq_priority_min :: "int option"
  xq_limit :: int
  xq_offset :: int

record ExternalTaskManager =
  xm_tasks :: "(string, ExternalTask) dict"
  xm_instance_tasks :: "(string, string list) dict"
  xm_topic_queues :: "(string, string list) dict"

definition external_init :: ExternalTaskManager where
  "external_init = \<lparr>xm_tasks = [], xm_instance_tasks = [], xm_topic_queues = []\<rparr>"

subsection \<open>Operations\<close>

definition new_external_task ::
  "datetime \<Rightarrow> string \<Rightarrow> string \<Rightarrow> string \<Rightarrow> string \<Rightarrow> pydict option \<Rightarrow> int \<Rightarrow> int \<Rightarrow> ExternalTask" where
  "new_external_task now uuid topic iid aid vars prio retries =
     \<lparr>xt_task_id = uuid, xt_topic_name = topic, xt_instance_id = iid, xt_activity_id = aid, xt_worker_id = None,
      xt_lock_expiration = None, xt_priority = prio, xt_retries = retries, xt_error_message = [], xt_error_details = [],
      xt_state = PENDING, xt_create_time = isoformat now, xt_last_failure_time = None,
      xt_variables = (case vars of None \<Rightarrow> [] | Some v \<Rightarrow> v), xt_lock_duration_ms = 60000\<rparr>"

definition create_external_task ::
  "datetime \<Rightarrow> string \<Rightarrow> string \<Rightarrow> string \<Rightarrow> string \<Rightarrow> pydict option \<Rightarrow> int \<Rightarrow> int \<Rightarrow> ExternalTaskManager
    \<Rightarrow> ExternalTask \<times> ExternalTaskManager" where
  "create_external_task now uuid topic iid aid vars prio retries m =
     (let t = new_external_task now uuid topic iid aid vars prio retries
      in (t, m\<lparr>xm_tasks := dset uuid t (xm_tasks m),
               xm_instance_tasks := append_to iid uuid (xm_instance_tasks m),
               xm_topic_queues := append_to topic uuid (xm_topic_queues m)\<rparr>))"

text \<open>
  The three tests before a task is locked.  A locked task with a lock that has run out passes the first
  test and fails the second one.
\<close>

definition lock_holds :: "datetime \<Rightarrow> ExternalTask \<Rightarrow> bool" where
  "lock_holds now t \<longleftrightarrow> xt_state t = LOCKED \<and>
     (case xt_lock_expiration t of
        None \<Rightarrow> True
      | Some text \<Rightarrow> text = [] \<or> (case fromisoformat text of Inl _ \<Rightarrow> False | Inr expires \<Rightarrow> expires > now))"

definition can_fetch :: "datetime \<Rightarrow> ExternalTask \<Rightarrow> bool" where
  "can_fetch now t \<longleftrightarrow> \<not> lock_holds now t \<and> (xt_state t = PENDING \<or> xt_state t = FAILED)"

definition lock_task :: "string \<Rightarrow> datetime \<Rightarrow> ExternalTask \<Rightarrow> ExternalTask" where
  "lock_task wid now t = t\<lparr>xt_state := LOCKED, xt_worker_id := Some wid, xt_lock_expiration := Some (isoformat now)\<rparr>"

fun fetch_queue ::
  "FetchAndLockRequest \<Rightarrow> clock \<Rightarrow> string list \<Rightarrow> string list \<times> (string, ExternalTask) dict
    \<Rightarrow> string list \<times> (string, ExternalTask) dict" where
  "fetch_queue req clk [] st = st"
| "fetch_queue req clk (tid # tids) (locked, tasks) =
     (if int (length locked) \<ge> fr_max_tasks req then (locked, tasks)
      else case dget tasks tid of
             None \<Rightarrow> fetch_queue req clk tids (locked, tasks)
           | Some t \<Rightarrow>
               if can_fetch (clk 0) t
               then fetch_queue req clk tids
                      (locked @ [tid], dset tid (lock_task (fr_worker_id req) (clk (Suc (length locked))) t) tasks)
               else fetch_queue req clk tids (locked, tasks))"

definition request_topics :: "FetchAndLockRequest \<Rightarrow> ExternalTaskManager \<Rightarrow> string list" where
  "request_topics req m = (if fr_topics req \<noteq> [] then fr_topics req else dkeys (xm_topic_queues m))"

definition fetch_and_lock ::
  "FetchAndLockRequest \<Rightarrow> clock \<Rightarrow> ExternalTaskManager \<Rightarrow> ExternalTask list \<times> ExternalTaskManager" where
  "fetch_and_lock req clk m =
     (case fold (\<lambda>topic. fetch_queue req clk (dget_or (xm_topic_queues m) topic [])) (request_topics req m) ([], xm_tasks m) of
        (locked, tasks) \<Rightarrow> (select tasks locked, m\<lparr>xm_tasks := tasks\<rparr>))"

definition wrong_worker :: "string \<Rightarrow> string option \<Rightarrow> string \<Rightarrow> py_error" where
  "wrong_worker tid holder suffix =
     ValueError (''Task '' @ take 8 tid @ '' is locked by '' @ (case holder of None \<Rightarrow> ''None'' | Some w \<Rightarrow> w) @ suffix)"

definition complete_external ::
  "string \<Rightarrow> string \<Rightarrow> pydict option \<Rightarrow> ExternalTaskManager \<Rightarrow> ExternalTask option result \<times> ExternalTaskManager" where
  "complete_external tid wid vars m =
     (case dget (xm_tasks m) tid of
        None \<Rightarrow> (Inr None, m)
      | Some t \<Rightarrow>
          if xt_worker_id t \<noteq> Some wid then (Inl (wrong_worker tid (xt_worker_id t) ('', not '' @ wid)), m)
          else (let t' = t\<lparr>xt_state := COMPLETED, xt_worker_id := None, xt_lock_expiration := None,
                           xt_variables := (case vars of None \<Rightarrow> xt_variables t | Some vs \<Rightarrow> dupdate (xt_variables t) vs)\<rparr>
                in (Inr (Some t'), m\<lparr>xm_tasks := dset tid t' (xm_tasks m)\<rparr>)))"

definition fail_external ::
  "datetime \<Rightarrow> string \<Rightarrow> string \<Rightarrow> string \<Rightarrow> string \<Rightarrow> int option \<Rightarrow> ExternalTaskManager
    \<Rightarrow> ExternalTask option result \<times> ExternalTaskManager" where
  "fail_external now tid wid msg details retries m =
     (case dget (xm_tasks m) tid of
        None \<Rightarrow> (Inr None, m)
      | Some t \<Rightarrow>
          if xt_worker_id t \<noteq> Some wid then (Inl (wrong_worker tid (xt_worker_id t) []), m)
          else (let t1 = t\<lparr>xt_worker_id := None, xt_lock_expiration := None, xt_error_message := msg, xt_error_details := details,
                           xt_last_failure_time := Some (isoformat now)\<rparr>;
                    remaining = (case retries of None \<Rightarrow> xt_retries t | Some r \<Rightarrow> r);
                    t' = (if remaining > 1 then t1\<lparr>xt_state := PENDING, xt_retries := remaining - 1\<rparr>
                          else t1\<lparr>xt_state := FAILED\<rparr>)
                in (Inr (Some t'), m\<lparr>xm_tasks := dset tid t' (xm_tasks m)\<rparr>)))"

definition cancel_external :: "string \<Rightarrow> ExternalTaskManager \<Rightarrow> ExternalTask option \<times> ExternalTaskManager" where
  "cancel_external tid m =
     (case dget (xm_tasks m) tid of
        None \<Rightarrow> (None, m)
      | Some t \<Rightarrow> (let t' = t\<lparr>xt_state := CANCELLED, xt_worker_id := None, xt_lock_expiration := None\<rparr>
                  in (Some t', m\<lparr>xm_tasks := dset tid t' (xm_tasks m)\<rparr>)))"

definition query_tasks :: "ExternalTaskQuery \<Rightarrow> ExternalTaskManager \<Rightarrow> ExternalTask list" where
  "query_tasks q m =
     py_slice (xq_offset q) (xq_offset q + xq_limit q)
       (sort_key (\<lambda>t. - xt_priority t)
          (filter (\<lambda>t. given (xq_topic_name q) (\<lambda>s. xt_topic_name t = s) \<and>
                       given (xq_worker_id q) (\<lambda>s. xt_worker_id t = Some s) \<and>
                       given (xq_instance_id q) (\<lambda>s. xt_instance_id t = s) \<and>
                       (case xq_state q of None \<Rightarrow> True | Some s \<Rightarrow> xt_state t = s) \<and>
                       (case xq_priority_min q of None \<Rightarrow> True | Some p \<Rightarrow> xt_priority t \<ge> p))
            (dvals (xm_tasks m))))"

definition get_external_instance_tasks :: "string \<Rightarrow> ExternalTaskManager \<Rightarrow> ExternalTask list" where
  "get_external_instance_tasks iid m = select (xm_tasks m) (dget_or (xm_instance_tasks m) iid [])"

definition external_get_statistics :: "ExternalTaskManager \<Rightarrow> (string, nat) dict" where
  "external_get_statistics m =
     dset ''total'' (length (xm_tasks m)) (tally (map (external_state_value \<circ> xt_state) (dvals (xm_tasks m))))"

subsection \<open>Workers\<close>

text \<open>
  \<open>_poll_loop\<close> fetches with \<open>priority_enabled\<close> and hands each task to \<open>_process_task\<close>, which calls the
  handler (\<open>Inr\<close> the result, or \<open>Inl\<close> the text of its exception) and reports the outcome.  Completing is
  inside the \<open>try\<close> block: when it raises, the worker reports a failure, which raises again.
\<close>

record ExternalTaskWorker =
  xw_worker_id :: string
  xw_topics :: "string list"
  xw_max_tasks :: int
  xw_lock_duration_ms :: int

definition poll_request :: "ExternalTaskWorker \<Rightarrow> FetchAndLockRequest" where
  "poll_request w =
     \<lparr>fr_worker_id = xw_worker_id w, fr_max_tasks = xw_max_tasks w, fr_topics = xw_topics w,
      fr_lock_duration_ms = xw_lock_duration_ms w, fr_priority_enabled = True\<rparr>"

definition poll :: "ExternalTaskWorker \<Rightarrow> clock \<Rightarrow> ExternalTaskManager \<Rightarrow> ExternalTask list \<times> ExternalTaskManager" where
  "poll w = fetch_and_lock (poll_request w)"

text \<open>\<open>str(e)\<close> of the only exception that \<open>complete\<close> raises.\<close>

fun error_text :: "py_error \<Rightarrow> string" where
  "error_text (ValueError s) = s"
| "error_text _ = []"

definition report_failure ::
  "datetime \<Rightarrow> string \<Rightarrow> string \<Rightarrow> string \<Rightarrow> ExternalTaskManager \<Rightarrow> ExternalTaskManager outcome" where
  "report_failure now tid wid msg m =
     (case fail_external now tid wid msg [] (map_option xt_retries (dget (xm_tasks m) tid)) m of
        (Inl e, m1) \<Rightarrow> (Some e, m1)
      | (Inr t, m1) \<Rightarrow> (None, m1))"

definition process_task ::
  "datetime \<Rightarrow> ExternalTaskWorker \<Rightarrow> string \<Rightarrow> string + pydict option \<Rightarrow> ExternalTaskManager \<Rightarrow> ExternalTaskManager outcome" where
  "process_task now w tid result m =
     (case result of
        Inl msg \<Rightarrow> report_failure now tid (xw_worker_id w) msg m
      | Inr vars \<Rightarrow>
          (case complete_external tid (xw_worker_id w) (Some (case vars of None \<Rightarrow> [] | Some vs \<Rightarrow> vs)) m of
             (Inl e, m1) \<Rightarrow> report_failure now tid (xw_worker_id w) (error_text e) m1
           | (Inr t, m1) \<Rightarrow> (None, m1)))"

subsection \<open>What a fetch does\<close>

definition fetchable :: "datetime \<Rightarrow> (string, ExternalTask) dict \<Rightarrow> string \<Rightarrow> bool" where
  "fetchable now tasks tid = (case dget tasks tid of None \<Rightarrow> False | Some t \<Rightarrow> can_fetch now t)"

lemma fetch_queue_full:
  "int (length locked) \<ge> fr_max_tasks req \<Longrightarrow> fetch_queue req clk tids (locked, tasks) = (locked, tasks)"
  by (cases tids) simp_all

lemma fetch_queue_append:
  "fetch_queue req clk (xs @ ys) st = fetch_queue req clk ys (fetch_queue req clk xs st)"
  by (induction req clk xs st rule: fetch_queue.induct) (auto simp: fetch_queue_full split: option.splits)

lemma fetch_queues: "fold (\<lambda>t. fetch_queue req clk (f t)) ts st = fetch_queue req clk (concat (map f ts)) st"
  by (induction ts arbitrary: st) (simp_all add: fetch_queue_append)

definition fetched ::
  "FetchAndLockRequest \<Rightarrow> datetime \<Rightarrow> string list \<Rightarrow> (string, ExternalTask) dict \<Rightarrow> string list \<Rightarrow> string list" where
  "fetched req now locked tasks tids = take (nat (fr_max_tasks req) - length locked) (filter (fetchable now tasks) tids)"

lemma fetch_queue_spec:
  assumes "distinct tids"
  shows "fst (fetch_queue req clk tids (locked, tasks)) = locked @ fetched req (clk 0) locked tasks tids \<and>
    (\<forall>tid. (tid \<notin> set (fetched req (clk 0) locked tasks tids) \<longrightarrow> dget (snd (fetch_queue req clk tids (locked, tasks))) tid = dget tasks tid) \<and>
      (tid \<in> set (fetched req (clk 0) locked tasks tids) \<longrightarrow>
        (\<exists>t now. dget tasks tid = Some t \<and>
           dget (snd (fetch_queue req clk tids (locked, tasks))) tid = Some (lock_task (fr_worker_id req) now t))))"
  using assms
proof (induction tids arbitrary: locked tasks)
  case (Cons tid tids)
  let ?room = "nat (fr_max_tasks req) - length locked"
  show ?case
  proof (cases "int (length locked) \<ge> fr_max_tasks req")
    case True
    then have "fetched req (clk 0) locked tasks (tid # tids) = []" by (simp add: fetched_def)
    with True show ?thesis by simp
  next
    case room: False
    show ?thesis
    proof (cases "fetchable (clk 0) tasks tid")
      case False
      then have "fetch_queue req clk (tid # tids) (locked, tasks) = fetch_queue req clk tids (locked, tasks)"
        using room by (auto simp: fetchable_def split: option.splits)
      moreover have "fetched req (clk 0) locked tasks (tid # tids) = fetched req (clk 0) locked tasks tids" using False by (simp add: fetched_def)
      ultimately show ?thesis using Cons.IH [of locked tasks] Cons.prems by simp
    next
      case True
      then obtain t where t: "dget tasks tid = Some t" "can_fetch (clk 0) t" by (auto simp: fetchable_def split: option.splits)
      let ?tasks = "dset tid (lock_task (fr_worker_id req) (clk (Suc (length locked))) t) tasks"
      have step: "fetch_queue req clk (tid # tids) (locked, tasks) = fetch_queue req clk tids (locked @ [tid], ?tasks)"
        using room t by simp
      have "filter (fetchable (clk 0) ?tasks) tids = filter (fetchable (clk 0) tasks) tids"
        using Cons.prems by (intro filter_cong) (auto simp: fetchable_def)
      moreover have "?room = Suc (nat (fr_max_tasks req) - length (locked @ [tid]))" using room by simp
      ultimately have g: "fetched req (clk 0) locked tasks (tid # tids) = tid # fetched req (clk 0) (locked @ [tid]) ?tasks tids"
        using True by (simp add: fetched_def)
      have notin: "tid \<notin> set (fetched req (clk 0) (locked @ [tid]) ?tasks tids)"
        using Cons.prems by (auto simp: fetched_def dest: in_set_takeD)
      have ih: "fst (fetch_queue req clk tids (locked @ [tid], ?tasks)) = (locked @ [tid]) @ fetched req (clk 0) (locked @ [tid]) ?tasks tids"
        "x \<notin> set (fetched req (clk 0) (locked @ [tid]) ?tasks tids) \<Longrightarrow>
          dget (snd (fetch_queue req clk tids (locked @ [tid], ?tasks))) x = dget ?tasks x"
        "x \<in> set (fetched req (clk 0) (locked @ [tid]) ?tasks tids) \<Longrightarrow> \<exists>t now. dget ?tasks x = Some t \<and>
          dget (snd (fetch_queue req clk tids (locked @ [tid], ?tasks))) x = Some (lock_task (fr_worker_id req) now t)" for x
        using Cons.IH [of "locked @ [tid]" ?tasks] Cons.prems by auto
      show ?thesis
        unfolding step g
      proof (intro conjI allI impI)
        fix x
        show "dget (snd (fetch_queue req clk tids (locked @ [tid], ?tasks))) x = dget tasks x"
          if "x \<notin> set (tid # fetched req (clk 0) (locked @ [tid]) ?tasks tids)"
          using ih(2) [of x] that by simp
        show "\<exists>t now. dget tasks x = Some t \<and>
            dget (snd (fetch_queue req clk tids (locked @ [tid], ?tasks))) x = Some (lock_task (fr_worker_id req) now t)"
          if "x \<in> set (tid # fetched req (clk 0) (locked @ [tid]) ?tasks tids)"
          using ih(2) [of x] ih(3) [of x] that t(1) notin by (cases "x = tid") (auto split: if_splits)
      qed (simp add: ih(1))
    qed
  qed
qed (simp add: fetched_def)

subsection \<open>Reachable managers\<close>

datatype xt_op =
    XCreate datetime string string string string "pydict option" int int
  | XFetch FetchAndLockRequest clock
  | XComplete string string "pydict option"
  | XFail datetime string string string string "int option"
  | XCancel string

fun xt_step :: "xt_op \<Rightarrow> ExternalTaskManager \<Rightarrow> ExternalTaskManager" where
  "xt_step (XCreate now uuid topic iid aid vars prio retries) m = snd (create_external_task now uuid topic iid aid vars prio retries m)"
| "xt_step (XFetch req clk) m = snd (fetch_and_lock req clk m)"
| "xt_step (XComplete tid wid vars) m = snd (complete_external tid wid vars m)"
| "xt_step (XFail now tid wid msg details retries) m = snd (fail_external now tid wid msg details retries m)"
| "xt_step (XCancel tid) m = snd (cancel_external tid m)"

fun fresh_op :: "ExternalTaskManager \<Rightarrow> xt_op \<Rightarrow> bool" where
  "fresh_op m (XCreate now uuid topic iid aid vars prio retries) = (dget (xm_tasks m) uuid = None)"
| "fresh_op m _ = True"

inductive xm_reach :: "ExternalTaskManager \<Rightarrow> bool" where
  init: "xm_reach external_init"
| step: "xm_reach m \<Longrightarrow> fresh_op m op \<Longrightarrow> xm_reach (xt_step op m)"

definition xm_inv :: "ExternalTaskManager \<Rightarrow> bool" where
  "xm_inv m \<longleftrightarrow> dict_ok (xm_topic_queues m) \<and>
     (\<forall>tid t. dget (xm_tasks m) tid = Some t \<longrightarrow> xt_task_id t = tid \<and> (xt_state t = LOCKED \<longleftrightarrow> xt_worker_id t \<noteq> None)) \<and>
     index_consistent (\<lambda>t. [xt_topic_name t]) (xm_tasks m) (xm_topic_queues m) \<and>
     index_consistent (\<lambda>t. [xt_instance_id t]) (xm_tasks m) (xm_instance_tasks m)"

text \<open>Changing the status of tasks keeps the invariant: ids, topics and instances stay.\<close>

definition status_change :: "ExternalTask \<Rightarrow> ExternalTask \<Rightarrow> bool" where
  "status_change t t' \<longleftrightarrow> xt_task_id t' = xt_task_id t \<and> xt_topic_name t' = xt_topic_name t \<and>
     xt_instance_id t' = xt_instance_id t \<and> (xt_state t' = LOCKED \<longleftrightarrow> xt_worker_id t' \<noteq> None)"

lemma xm_inv_change:
  assumes "xm_inv m" and "\<And>tid. dget tasks tid = dget (xm_tasks m) tid \<or>
    (\<exists>t t'. dget (xm_tasks m) tid = Some t \<and> dget tasks tid = Some t' \<and> status_change t t')"
  shows "xm_inv (m\<lparr>xm_tasks := tasks\<rparr>)"
proof -
  have "map_option (\<lambda>t. [xt_topic_name t]) (dget tasks tid) = map_option (\<lambda>t. [xt_topic_name t]) (dget (xm_tasks m) tid)"
    "map_option (\<lambda>t. [xt_instance_id t]) (dget tasks tid) = map_option (\<lambda>t. [xt_instance_id t]) (dget (xm_tasks m) tid)" for tid
    using assms(2) [of tid] by (auto simp: status_change_def)
  moreover have "xt_task_id t = tid \<and> (xt_state t = LOCKED \<longleftrightarrow> xt_worker_id t \<noteq> None)" if "dget tasks tid = Some t" for tid t
    using assms(1) assms(2) [of tid] that unfolding xm_inv_def status_change_def by auto
  ultimately show ?thesis
    using assms(1) by (simp add: xm_inv_def index_consistent_cong [where objs' = tasks and objs = "xm_tasks m"])
qed

lemma fetch_queue_changes:
  "dget (snd (fetch_queue req clk tids (locked, tasks))) tid = dget tasks tid \<or>
     (\<exists>t now. dget tasks tid = Some t \<and> xt_state t \<noteq> LOCKED \<and>
        dget (snd (fetch_queue req clk tids (locked, tasks))) tid = Some (lock_task (fr_worker_id req) now t))"
proof (induction tids arbitrary: locked tasks)
  case (Cons x xs)
  show ?case
  proof (cases "int (length locked) \<ge> fr_max_tasks req \<or> \<not> fetchable (clk 0) tasks x")
    case True
    then show ?thesis using Cons.IH [of locked tasks] by (auto simp: fetchable_def split: option.splits)
  next
    case False
    then obtain t where t: "dget tasks x = Some t" "can_fetch (clk 0) t" by (auto simp: fetchable_def split: option.splits)
    let ?tasks = "dset x (lock_task (fr_worker_id req) (clk (Suc (length locked))) t) tasks"
    have "fetch_queue req clk (x # xs) (locked, tasks) = fetch_queue req clk xs (locked @ [x], ?tasks)" using False t by simp
    then show ?thesis
      using Cons.IH [of "locked @ [x]" ?tasks] t by (auto simp: lock_task_def can_fetch_def split: if_splits)
  qed
qed simp

lemma fetch_and_lock_tasks:
  "snd (fetch_and_lock req clk m) =
     m\<lparr>xm_tasks := snd (fetch_queue req clk (concat (map (\<lambda>topic. dget_or (xm_topic_queues m) topic []) (request_topics req m)))
        ([], xm_tasks m))\<rparr>"
  by (simp add: fetch_and_lock_def fetch_queues split: prod.split)

lemma xm_inv_create:
  assumes "xm_inv m" "dget (xm_tasks m) uuid = None"
  shows "xm_inv (snd (create_external_task now uuid topic iid aid vars prio retries m))"
proof -
  define t where "t = new_external_task now uuid topic iid aid vars prio retries"
  have t: "xt_task_id t = uuid" "xt_topic_name t = topic" "xt_instance_id t = iid" "xt_state t = PENDING" "xt_worker_id t = None"
    by (simp_all add: t_def new_external_task_def)
  have "index_consistent (\<lambda>t. [xt_topic_name t]) (dset uuid t (xm_tasks m)) (append_to topic uuid (xm_topic_queues m))"
    "index_consistent (\<lambda>t. [xt_instance_id t]) (dset uuid t (xm_tasks m)) (append_to iid uuid (xm_instance_tasks m))"
    using assms append_to_consistent [of xt_topic_name "xm_tasks m" "xm_topic_queues m" uuid t]
      append_to_consistent [of xt_instance_id "xm_tasks m" "xm_instance_tasks m" uuid t] t
    by (simp_all add: xm_inv_def)
  moreover have "dict_ok (append_to topic uuid (xm_topic_queues m))"
    using assms(1) by (simp add: xm_inv_def append_to_def)
  ultimately show ?thesis
    using assms(1) t by (auto simp: create_external_task_def Let_def t_def [symmetric] xm_inv_def)
qed

lemma xm_inv_step:
  assumes "xm_inv m" "fresh_op m op"
  shows "xm_inv (xt_step op m)"
proof (cases op)
  case (XCreate now uuid topic iid aid vars prio retries)
  then show ?thesis using assms xm_inv_create by simp
next
  case (XFetch req clk)
  show ?thesis
    unfolding XFetch xt_step.simps fetch_and_lock_tasks
  proof (rule xm_inv_change [OF assms(1)])
    fix tid
    show "dget (snd (fetch_queue req clk (concat (map (\<lambda>topic. dget_or (xm_topic_queues m) topic []) (request_topics req m)))
        ([], xm_tasks m))) tid = dget (xm_tasks m) tid \<or> (\<exists>t t'. dget (xm_tasks m) tid = Some t \<and>
        dget (snd (fetch_queue req clk (concat (map (\<lambda>topic. dget_or (xm_topic_queues m) topic []) (request_topics req m)))
          ([], xm_tasks m))) tid = Some t' \<and> status_change t t')"
      using fetch_queue_changes [of req clk _ "[]" "xm_tasks m" tid] by (fastforce simp: status_change_def lock_task_def)
  qed
next
  case (XComplete tid wid vars)
  then show ?thesis
    using assms(1)
    by (auto simp: complete_external_def Let_def status_change_def intro!: xm_inv_change [OF assms(1)] split: option.splits)
next
  case (XFail now tid wid msg details retries)
  then show ?thesis
    using assms(1)
    by (auto simp: fail_external_def Let_def status_change_def intro!: xm_inv_change [OF assms(1)] split: option.splits)
next
  case (XCancel tid)
  then show ?thesis
    using assms(1)
    by (auto simp: cancel_external_def Let_def status_change_def intro!: xm_inv_change [OF assms(1)] split: option.splits)
qed

lemma xm_reach_inv: "xm_reach m \<Longrightarrow> xm_inv m"
proof (induction rule: xm_reach.induct)
  case init
  then show ?case by (simp add: external_init_def xm_inv_def)
next
  case (step m op)
  then show ?case using xm_inv_step by blast
qed

lemma queues_distinct:
  assumes "xm_inv m" "distinct topics"
  shows "distinct (concat (map (\<lambda>topic. dget_or (xm_topic_queues m) topic []) topics))"
  using assms(2)
proof (induction topics)
  case (Cons topic topics)
  have ix: "index_consistent (\<lambda>t. [xt_topic_name t]) (xm_tasks m) (xm_topic_queues m)" using assms(1) by (simp add: xm_inv_def)
  note mem = index_consistentD(2) [OF ix, unfolded idx_get_def]
  have "distinct (dget_or (xm_topic_queues m) topic [])" using index_consistentD(1) [OF ix] by (simp add: idx_get_def)
  moreover have "set (dget_or (xm_topic_queues m) topic []) \<inter> set (concat (map (\<lambda>topic. dget_or (xm_topic_queues m) topic []) topics)) = {}"
    using Cons.prems by (auto simp: mem)
  ultimately show ?case using Cons by simp
qed simp

subsection \<open>Properties\<close>

text \<open>
  C29: \<open>fetch_and_lock\<close> hands out the first \<open>max_tasks\<close> of the tasks that are pending or failed in the
  requested topics, topic by topic and in the order of their creation: it returns exactly these, each
  once, locked by the worker, and changes no other task.  (The order does not depend on the priorities,
  whether or not \<open>priority_enabled\<close> is set.)
\<close>

theorem fetch_exact:
  assumes "xm_reach m" and "distinct (request_topics req m)"
    and "ids = take (nat (fr_max_tasks req)) (filter (fetchable (clk 0) (xm_tasks m))
      (concat (map (\<lambda>topic. dget_or (xm_topic_queues m) topic []) (request_topics req m))))"
  shows "case fetch_and_lock req clk m of (ts, m') \<Rightarrow>
    map xt_task_id ts = ids \<and> distinct ids \<and>
    (\<forall>t \<in> set ts. dget (xm_tasks m') (xt_task_id t) = Some t \<and> xt_state t = LOCKED \<and> xt_worker_id t = Some (fr_worker_id req)) \<and>
    (\<forall>tid. tid \<notin> set ids \<longrightarrow> dget (xm_tasks m') tid = dget (xm_tasks m) tid)"
proof -
  let ?q = "concat (map (\<lambda>topic. dget_or (xm_topic_queues m) topic []) (request_topics req m))"
  note inv = xm_reach_inv [OF assms(1)]
  note dist = queues_distinct [OF inv assms(2)]
  have ids: "ids = fetched req (clk 0) [] (xm_tasks m) ?q" by (simp add: assms(3) fetched_def)
  obtain locked tasks where f: "fetch_queue req clk ?q ([], xm_tasks m) = (locked, tasks)" by fastforce
  note spec = fetch_queue_spec [OF dist, of req clk "[]" "xm_tasks m", unfolded f ids [symmetric] fst_conv snd_conv append_Nil]
  have id: "xt_task_id t = tid" if t: "dget tasks tid = Some t" for tid t
  proof -
    have "(tid \<notin> set ids \<and> dget (xm_tasks m) tid = Some t) \<or>
        (\<exists>t0 now. dget (xm_tasks m) tid = Some t0 \<and> t = lock_task (fr_worker_id req) now t0)"
      using spec t by (metis option.inject)
    then obtain t0 where "dget (xm_tasks m) tid = Some t0" "xt_task_id t = xt_task_id t0"
      by (auto simp: lock_task_def)
    then show ?thesis using inv unfolding xm_inv_def by auto
  qed
  have key: "has_key tasks tid" if "tid \<in> set ids" for tid using spec that by (auto simp: has_key_def)
  have "map xt_task_id (select tasks ids) = ids"
    using map_id_select [of tasks xt_task_id ids] id key by simp
  moreover have "dget tasks (xt_task_id t) = Some t \<and> xt_state t = LOCKED \<and> xt_worker_id t = Some (fr_worker_id req)"
    if t: "t \<in> set (select tasks ids)" for t
  proof -
    obtain i where i: "i \<in> set ids" "dget tasks i = Some t" using t by (auto simp: in_select)
    with spec obtain t0 now where "t = lock_task (fr_worker_id req) now t0" by (metis option.inject)
    with i id show ?thesis by (simp add: lock_task_def)
  qed
  moreover have "distinct ids" using dist by (simp add: assms(3))
  ultimately show ?thesis
    using spec f by (simp add: fetch_and_lock_def fetch_queues)
qed

definition demo_request :: FetchAndLockRequest where
  "demo_request = \<lparr>fr_worker_id = ''w'', fr_max_tasks = 1, fr_topics = [''mail''], fr_lock_duration_ms = 60000,
     fr_priority_enabled = True\<rparr>"

definition demo_tasks :: ExternalTaskManager where
  "demo_tasks = xt_step (XCreate 0 ''t2'' ''mail'' ''i'' ''a'' None 9 3) (xt_step (XCreate 0 ''t1'' ''mail'' ''i'' ''a'' None 0 1) external_init)"

lemma demo_tasks_fields:
  "xm_topic_queues demo_tasks = [(''mail'', [''t1'', ''t2''])]"
  "xm_tasks demo_tasks = [(''t1'', new_external_task 0 ''t1'' ''mail'' ''i'' ''a'' None 0 1), (''t2'', new_external_task 0 ''t2'' ''mail'' ''i'' ''a'' None 9 3)]"
  by (simp_all add: demo_tasks_def create_external_task_def external_init_def append_to_def dget_or_def Let_def)

lemma demo_tasks_reach: "xm_reach demo_tasks"
  unfolding demo_tasks_def
  by (intro xm_reach.intros) (simp_all add: external_init_def create_external_task_def Let_def)

theorem fetch_exact_witness:
  "map xt_task_id (fst (fetch_and_lock demo_request (\<lambda>i. 5) demo_tasks)) = [''t1'']"
proof -
  have "[''t1''] = take (nat (fr_max_tasks demo_request)) (filter (fetchable 5 (xm_tasks demo_tasks))
      (concat (map (\<lambda>topic. dget_or (xm_topic_queues demo_tasks) topic []) (request_topics demo_request demo_tasks))))"
    by (simp add: demo_request_def demo_tasks_fields request_topics_def dget_or_def fetchable_def can_fetch_def lock_holds_def
        new_external_task_def)
  moreover have "distinct (request_topics demo_request demo_tasks)" by (simp add: request_topics_def demo_request_def)
  ultimately show ?thesis
    using fetch_exact [OF demo_tasks_reach, of demo_request "[''t1'']" "\<lambda>i. 5"] by (simp add: case_prod_unfold)
qed

fun releases :: "string \<Rightarrow> string \<Rightarrow> xt_op \<Rightarrow> bool" where
  "releases wid tid (XCreate now uuid topic iid aid vars prio retries) = (uuid = tid)"
| "releases wid tid (XFetch req clk) = False"
| "releases wid tid (XComplete tid' wid' vars) = (tid' = tid \<and> wid' = wid)"
| "releases wid tid (XFail now tid' wid' msg details retries) = (tid' = tid \<and> wid' = wid)"
| "releases wid tid (XCancel tid') = (tid' = tid)"

lemma unreleased_step:
  assumes "dget (xm_tasks m) tid = Some t" "xt_state t = LOCKED" "xt_worker_id t = Some wid" "\<not> releases wid tid op"
  shows "dget (xm_tasks (xt_step op m)) tid = Some t"
proof (cases op)
  case (XFetch req clk)
  then show ?thesis
    using fetch_queue_changes [of req clk "concat (map (\<lambda>topic. dget_or (xm_topic_queues m) topic []) (request_topics req m))"
        "[]" "xm_tasks m" tid] assms(1,2) by (simp add: fetch_and_lock_tasks)
qed (use assms in \<open>auto simp: create_external_task_def complete_external_def fail_external_def cancel_external_def Let_def
      split: option.splits\<close>)

text \<open>
  C32: A lock is exclusive: as long as its holder neither completes nor fails the task and nobody cancels
  it, a locked task stays exactly as it is, whatever other workers fetch, complete or fail and however
  much time passes.  (The text of the lock's expiration has no effect, so the task of a worker that dies
  stays locked.)
\<close>

theorem lock_exclusive:
  assumes "dget (xm_tasks m) tid = Some t" and "xt_state t = LOCKED" and "xt_worker_id t = Some wid"
    and "\<forall>op \<in> set ops. \<not> releases wid tid op"
  shows "dget (xm_tasks (fold xt_step ops m)) tid = Some t"
  using assms by (induction ops arbitrary: m) (simp_all add: unreleased_step)

theorem lock_exclusive_witness:
  "\<exists>t. dget (xm_tasks (fold xt_step [XFetch \<lparr>fr_worker_id = ''other'', fr_max_tasks = 10, fr_topics = [], fr_lock_duration_ms = 1,
       fr_priority_enabled = True\<rparr> (\<lambda>i. 10 ^ 15), XComplete ''t1'' ''other'' None]
     (xt_step (XFetch demo_request (\<lambda>i. 5)) demo_tasks))) ''t1'' = Some t \<and> xt_worker_id t = Some ''w''"
proof -
  let ?t = "lock_task ''w'' 5 (new_external_task 0 ''t1'' ''mail'' ''i'' ''a'' None 0 1)"
  have "dget (xm_tasks (xt_step (XFetch demo_request (\<lambda>i. 5)) demo_tasks)) ''t1'' = Some ?t"
    by (simp add: fetch_and_lock_tasks demo_request_def demo_tasks_fields request_topics_def dget_or_def can_fetch_def lock_holds_def
        new_external_task_def)
  from lock_exclusive [OF this, of "''w''" "[XFetch \<lparr>fr_worker_id = ''other'', fr_max_tasks = 10, fr_topics = [], fr_lock_duration_ms = 1,
       fr_priority_enabled = True\<rparr> (\<lambda>i. 10 ^ 15), XComplete ''t1'' ''other'' None]"]
  show ?thesis by (simp add: lock_task_def del: fold_simps)
qed

text \<open>
  Only the holder of the lock can report an outcome: for anybody else, and once the task has been
  completed, failed or cancelled, \<open>complete\<close> and \<open>fail\<close> raise and change nothing.
\<close>

theorem outcome_only_by_holder:
  assumes "dget (xm_tasks m) tid = Some t" and "xt_worker_id t \<noteq> Some wid"
  shows "\<exists>e e'. complete_external tid wid vars m = (Inl e, m) \<and> fail_external now tid wid msg details retries m = (Inl e', m) \<and>
    process_task now \<lparr>xw_worker_id = wid, xw_topics = topics, xw_max_tasks = n, xw_lock_duration_ms = d\<rparr> tid result m = (Some e', m)"
  using assms by (simp add: complete_external_def fail_external_def process_task_def report_failure_def split: sum.split)

theorem outcome_only_by_holder_witness:
  "\<exists>e. complete_external ''t1'' ''w'' None demo_tasks = (Inl e, demo_tasks)"
proof -
  have "dget (xm_tasks demo_tasks) ''t1'' = Some (new_external_task 0 ''t1'' ''mail'' ''i'' ''a'' None 0 1)"
    by (simp add: demo_tasks_fields)
  from outcome_only_by_holder [OF this, of "''w''" None 0 "[]" "[]" None "[]" 0 0 "Inl []"]
  show ?thesis by (auto simp: new_external_task_def)
qed

text \<open>
  Failing a task uses up one retry, and no failure is final: with more than one retry left the task
  is pending with one retry less, otherwise it is marked failed, and in both cases the next fetch of its
  topic may hand it out again.
\<close>

theorem failure_is_never_final:
  assumes "dget (xm_tasks m) tid = Some t" and "xt_worker_id t = Some wid"
  shows "case fail_external now tid wid msg details None m of (res, m') \<Rightarrow>
    \<exists>t'. res = Inr (Some t') \<and> dget (xm_tasks m') tid = Some t' \<and> xt_worker_id t' = None \<and>
      (if xt_retries t > 1 then xt_state t' = PENDING \<and> xt_retries t' = xt_retries t - 1
       else xt_state t' = FAILED \<and> xt_retries t' = xt_retries t) \<and>
      fetchable later (xm_tasks m') tid"
  using assms by (simp add: fail_external_def Let_def fetchable_def can_fetch_def lock_holds_def)

theorem failure_is_never_final_witness:
  "fetchable 99 (xm_tasks (snd (fail_external 7 ''t1'' ''w'' ''boom'' [] None (xt_step (XFetch demo_request (\<lambda>i. 5)) demo_tasks)))) ''t1''"
proof -
  have "dget (xm_tasks (xt_step (XFetch demo_request (\<lambda>i. 5)) demo_tasks)) ''t1'' =
      Some (lock_task ''w'' 5 (new_external_task 0 ''t1'' ''mail'' ''i'' ''a'' None 0 1))"
    by (simp add: fetch_and_lock_tasks demo_request_def demo_tasks_fields request_topics_def dget_or_def can_fetch_def lock_holds_def
        new_external_task_def)
  from failure_is_never_final [where wid = "''w''" and now = 7 and msg = "''boom''" and details = "[]" and later = 99, OF this] show ?thesis
    by (auto simp: lock_task_def)
qed

end
