(* ===== verification/Decisions.thy ===== *)
theory Decisions
  imports Repository
begin

section \<open>Decisions: requirements graph and hit policies\<close>

text \<open>
  \<open>dmn/decision_requirements_graph.py\<close> and \<open>dmn/hit_policy_handler.py\<close>.  The graph orders the
  decisions so that every decision comes after those it requires (Kahn's algorithm on a table of
  in-degrees), and the service executor evaluates them in that order, handing each the results of its
  requirements.  The evaluation of one decision, \<open>decision_executor.evaluate\<close>, is a parameter.
\<close>

subsection \<open>The graph\<close>

text \<open>
  What the builder reads of a decision: the ids behind the optional attributes \<open>required_decisions\<close>,
  \<open>required_inputs\<close> and \<open>input_data\<close>; an attribute that is absent or empty is the empty list.
\<close>

record Decision =
  d_id :: string
  d_name :: "string option"
  d_required_decisions :: "string list"
  d_required_inputs :: "string list"
  d_input_data :: "string list"

record DecisionNode =
  dn_decision_id :: string
  dn_name :: "string option"
  dn_required_decisions :: "string list"
  dn_required_inputs :: "string list"
  dn_encapsulated_decisions :: "string list"
  dn_output_decisions :: "string list"
  dn_input_data_refs :: "string list"
  dn_bkm_refs :: "string list"
  dn_dependencies :: "string list"
  dn_in_degree :: int

type_synonym nodes = "(string, DecisionNode) dict"

record DecisionRequirementsGraph =
  g_nodes :: nodes
  g_execution_order :: "string list"

definition drg_init :: DecisionRequirementsGraph where
  "drg_init = \<lparr>g_nodes = [], g_execution_order = []\<rparr>"

definition decision_node :: "Decision \<Rightarrow> DecisionNode" where
  "decision_node d =
     \<lparr>dn_decision_id = d_id d, dn_name = d_name d, dn_required_decisions = d_required_decisions d,
      dn_required_inputs = d_required_inputs d, dn_encapsulated_decisions = [], dn_output_decisions = [],
      dn_input_data_refs = d_input_data d, dn_bkm_refs = [],
      dn_dependencies = d_required_decisions d, dn_in_degree = int (length (d_required_decisions d))\<rparr>"

text \<open>
  The body of the \<open>while\<close> loop: every node that depends on the current one loses one from its
  in-degree and joins the queue when nothing is left.
\<close>

definition relax_node ::
  "string \<Rightarrow> string \<times> DecisionNode \<Rightarrow> (string, int) dict \<times> string list \<Rightarrow> (string, int) dict \<times> string list" where
  "relax_node cur = (\<lambda>(nid, node) (degs, queue).
     if cur \<in> set (dn_dependencies node)
     then (let deg = dget_or degs nid 0 - 1
           in (dset nid deg degs, if deg = 0 then queue @ [nid] else queue))
     else (degs, queue))"

definition relax :: "nodes \<Rightarrow> string \<Rightarrow> (string, int) dict \<Rightarrow> string list \<Rightarrow> (string, int) dict \<times> string list" where
  "relax nodes cur degs queue = fold (relax_node cur) nodes (degs, queue)"

text \<open>A node joins the queue when its in-degree drops from one to zero, so positive nodes and queue together shrink.\<close>

definition positive :: "nodes \<Rightarrow> (string, int) dict \<Rightarrow> string set" where
  "positive nodes degs = {nid \<in> set (dkeys nodes). 0 < dget_or degs nid 0}"

lemma relax_node_positive:
  assumes "nid \<in> set (dkeys nodes)"
  shows "card (positive nodes (fst (relax_node cur (nid, node) (degs, queue)))) + length (snd (relax_node cur (nid, node) (degs, queue)))
    \<le> card (positive nodes degs) + length queue"
proof (cases "cur \<in> set (dn_dependencies node)")
  case True
  let ?degs = "dset nid (dget_or degs nid 0 - 1) degs"
  have fin: "finite (positive nodes degs)" by (simp add: positive_def)
  have sub: "positive nodes ?degs \<subseteq> positive nodes degs"
    by (auto simp: positive_def dget_or_def split: if_splits option.splits)
  show ?thesis
  proof (cases "dget_or degs nid 0 = 1")
    case one: True
    then have "nid \<in> positive nodes degs" using assms by (simp add: positive_def)
    moreover have "nid \<notin> positive nodes ?degs" using one by (simp add: positive_def dget_or_def)
    ultimately have "positive nodes ?degs \<subset> positive nodes degs" using sub by blast
    then have "card (positive nodes ?degs) < card (positive nodes degs)" by (rule psubset_card_mono [OF fin])
    with True one show ?thesis by (simp add: relax_node_def Let_def)
  next
    case False
    with True card_mono [OF fin sub] show ?thesis by (simp add: relax_node_def Let_def)
  qed
qed (simp add: relax_node_def)

lemma relax_positive:
  "card (positive nodes (fst (relax nodes cur degs queue))) + length (snd (relax nodes cur degs queue))
    \<le> card (positive nodes degs) + length queue"
proof -
  have "card (positive nodes (fst (fold (relax_node cur) ns (degs, queue)))) + length (snd (fold (relax_node cur) ns (degs, queue)))
      \<le> card (positive nodes degs) + length queue" if "set (dkeys ns) \<subseteq> set (dkeys nodes)" for ns
    using that
  proof (induction ns arbitrary: degs queue)
    case (Cons n ns)
    obtain degs1 queue1 where r: "relax_node cur n (degs, queue) = (degs1, queue1)" by fastforce
    have "card (positive nodes degs1) + length queue1 \<le> card (positive nodes degs) + length queue"
      using relax_node_positive [of "fst n" nodes cur "snd n" degs queue] Cons.prems r by simp
    with Cons.IH [of degs1 queue1] Cons.prems r show ?case by simp
  qed simp
  then show ?thesis unfolding relax_def by blast
qed

function topo_loop :: "nodes \<Rightarrow> (string, int) dict \<Rightarrow> string list \<Rightarrow> string list \<Rightarrow> string list" where
  "topo_loop nodes degs [] order = order"
| "topo_loop nodes degs (cur # queue) order =
     topo_loop nodes (fst (relax nodes cur degs queue)) (snd (relax nodes cur degs queue)) (order @ [cur])"
  by pat_completeness auto
termination
  by (relation "measure (\<lambda>(nodes, degs, queue, order). card (positive nodes degs) + length queue)")
     (simp_all add: less_Suc_eq_le relax_positive)

definition compute_topological_order :: "DecisionRequirementsGraph \<Rightarrow> DecisionRequirementsGraph" where
  "compute_topological_order g =
     (let degs = map (\<lambda>(nid, node). (nid, dn_in_degree node)) (g_nodes g);
          queue = map fst (filter (\<lambda>(nid, deg). deg = 0) degs)
      in g\<lparr>g_execution_order := topo_loop (g_nodes g) degs queue []\<rparr>)"

definition build_from_decisions :: "Decision list \<Rightarrow> DecisionRequirementsGraph \<Rightarrow> DecisionRequirementsGraph" where
  "build_from_decisions ds g =
     compute_topological_order
       (g\<lparr>g_nodes := fold (\<lambda>d ns. dset (d_id d) (decision_node d) ns) ds (g_nodes g)\<rparr>)"

definition get_node :: "string \<Rightarrow> DecisionRequirementsGraph \<Rightarrow> DecisionNode option" where
  "get_node did g = dget (g_nodes g) did"

definition get_dependencies :: "string \<Rightarrow> DecisionRequirementsGraph \<Rightarrow> string list" where
  "get_dependencies did g = (case dget (g_nodes g) did of None \<Rightarrow> [] | Some n \<Rightarrow> dn_dependencies n)"

definition get_ready_decisions :: "string list \<Rightarrow> DecisionRequirementsGraph \<Rightarrow> string list" where
  "get_ready_decisions completed g =
     map fst (filter (\<lambda>(nid, node). nid \<notin> set completed \<and> list_all (\<lambda>d. d \<in> set completed) (dn_dependencies node)) (g_nodes g))"

definition is_fully_executed :: "string list \<Rightarrow> DecisionRequirementsGraph \<Rightarrow> bool" where
  "is_fully_executed completed g = list_all (\<lambda>nid. nid \<in> set completed) (dkeys (g_nodes g))"

subsection \<open>Decision services\<close>

text \<open>What the executor reads of a service: ids and names of the encapsulated and the output decisions.\<close>

record DecisionService =
  ds_encapsulated_decisions :: "(string \<times> string option) list"
  ds_output_decisions :: "string list"

definition service_node :: "string \<Rightarrow> string option \<Rightarrow> DecisionNode" where
  "service_node did name =
     \<lparr>dn_decision_id = did, dn_name = name, dn_required_decisions = [], dn_required_inputs = [],
      dn_encapsulated_decisions = [], dn_output_decisions = [], dn_input_data_refs = [], dn_bkm_refs = [],
      dn_dependencies = [], dn_in_degree = 0\<rparr>"

definition build_from_decision_service :: "DecisionService \<Rightarrow> DecisionRequirementsGraph \<Rightarrow> DecisionRequirementsGraph" where
  "build_from_decision_service ds g =
     (let ns = fold (\<lambda>(did, name) ns. dset did (service_node did name) ns) (ds_encapsulated_decisions ds) (g_nodes g);
          ns' = fold (\<lambda>od ns. case dget ns od of
                        None \<Rightarrow> ns
                      | Some n \<Rightarrow> dset od (n\<lparr>dn_in_degree := int (length (dn_dependencies n))\<rparr>) ns)
                  (ds_output_decisions ds) ns
      in g\<lparr>g_nodes := ns'\<rparr>)"

type_synonym evaluate = "string \<Rightarrow> string option \<Rightarrow> pydict \<Rightarrow> string + pyval"

text \<open>\<open>{"error": str(e)}\<close>; the evaluator's exception is given by its text.\<close>

definition evaluated :: "string + pyval \<Rightarrow> pyval" where
  "evaluated r = (case r of Inl msg \<Rightarrow> PDict [(''error'', PStr msg)] | Inr v \<Rightarrow> v)"

definition merged_context :: "pydict \<Rightarrow> pydict \<Rightarrow> DecisionNode \<Rightarrow> pydict" where
  "merged_context ctx results node =
     dupdate ctx (fold (\<lambda>dep acc. case dget results dep of None \<Rightarrow> acc | Some v \<Rightarrow> dset dep v acc) (dn_dependencies node) [])"

fun execute_order ::
  "evaluate \<Rightarrow> DecisionRequirementsGraph \<Rightarrow> pydict \<Rightarrow> string list \<Rightarrow> pydict \<times> string list \<Rightarrow> pydict \<times> string list" where
  "execute_order ev g ctx [] acc = acc"
| "execute_order ev g ctx (did # dids) (results, completed) =
     (case get_node did g of
        None \<Rightarrow> execute_order ev g ctx dids (results, completed)
      | Some node \<Rightarrow>
          (let r = ev did (dn_name node) (merged_context ctx results node)
           in execute_order ev g ctx dids
                (dset did (evaluated r) results, case r of Inl _ \<Rightarrow> completed | Inr _ \<Rightarrow> sadd did completed)))"

record service_result =
  sr_results :: pydict
  sr_completed :: "string list"
  sr_output_decisions :: "pyval list"

definition execute_decision_service ::
  "evaluate \<Rightarrow> DecisionService \<Rightarrow> pydict \<Rightarrow> DecisionRequirementsGraph \<Rightarrow> service_result \<times> DecisionRequirementsGraph" where
  "execute_decision_service ev ds ctx g =
     (let g1 = build_from_decision_service ds g;
          (results, completed) = execute_order ev g1 ctx (g_execution_order g1) ([], [])
      in (\<lparr>sr_results = results, sr_completed = completed,
           sr_output_decisions = map (pget results) (ds_output_decisions ds)\<rparr>, g1))"

subsection \<open>The order is topological\<close>

abbreviation deps_of :: "DecisionNode \<Rightarrow> string set" where
  "deps_of node \<equiv> set (dn_dependencies node)"

text \<open>One turn of the loop in closed form.\<close>

lemma relax_fold:
  assumes "dict_ok ns"
  shows "(\<forall>n. dget_or (fst (fold (relax_node cur) ns (degs, queue))) n 0 =
        dget_or degs n 0 - (if \<exists>nd. dget ns n = Some nd \<and> cur \<in> deps_of nd then 1 else 0)) \<and>
    snd (fold (relax_node cur) ns (degs, queue)) =
        queue @ map fst (filter (\<lambda>(n, nd). cur \<in> deps_of nd \<and> dget_or degs n 0 = 1) ns)"
  using assms
proof (induction ns arbitrary: degs queue)
  case (Cons p ns)
  obtain n nd where p: "p = (n, nd)" by fastforce
  have notin: "n \<notin> set (dkeys ns)" and ok: "dict_ok ns" using Cons.prems p by auto
  then have none: "dget ns n = None" by (simp add: map_of_eq_None_iff)
  obtain degs1 queue1 where r: "relax_node cur p (degs, queue) = (degs1, queue1)" by fastforce
  have d1: "dget_or degs1 m 0 = dget_or degs m 0 - (if m = n \<and> cur \<in> deps_of nd then 1 else 0)" for m
    using r by (auto simp: p relax_node_def Let_def dget_or_def split: if_splits)
  have q1: "queue1 = queue @ (if cur \<in> deps_of nd \<and> dget_or degs n 0 = 1 then [n] else [])"
    using r by (auto simp: p relax_node_def Let_def split: if_splits)
  have "filter (\<lambda>(n, nd). cur \<in> deps_of nd \<and> dget_or degs1 n 0 = 1) ns =
      filter (\<lambda>(n, nd). cur \<in> deps_of nd \<and> dget_or degs n 0 = 1) ns"
    using notin by (intro filter_cong) (auto simp: d1 image_iff)
  with Cons.IH [OF ok, of degs1 queue1] show ?case
    using none by (auto simp: p [symmetric] r d1 q1) (simp_all add: p)
qed simp

lemma relax_closed:
  assumes "dict_ok nodes" "dget nodes n = Some nd"
  shows "dget_or (fst (relax nodes cur degs queue)) n 0 = dget_or degs n 0 - (if cur \<in> deps_of nd then 1 else 0)"
    "snd (relax nodes cur degs queue) =
       queue @ map fst (filter (\<lambda>(n, nd). cur \<in> deps_of nd \<and> dget_or degs n 0 = 1) nodes)"
  using relax_fold [OF assms(1), of cur degs queue] assms(2) by (auto simp: relax_def)

definition topo_inv :: "nodes \<Rightarrow> (string, int) dict \<Rightarrow> string list \<Rightarrow> string list \<Rightarrow> bool" where
  "topo_inv nodes degs queue order \<longleftrightarrow>
     distinct (order @ queue) \<and> set (order @ queue) \<subseteq> set (dkeys nodes) \<and>
     (\<forall>n nd. dget nodes n = Some nd \<longrightarrow>
        dget_or degs n 0 = int (length (dn_dependencies nd)) - int (card (deps_of nd \<inter> set order)) \<and>
        (n \<in> set (order @ queue) \<longleftrightarrow> dget_or degs n 0 = 0)) \<and>
     (\<forall>i < length order. \<forall>nd. dget nodes (order ! i) = Some nd \<longrightarrow> deps_of nd \<subseteq> set (take i order))"

lemma open_dependencies:
  "int (length xs) - int (card (set xs \<inter> A)) = 0 \<longleftrightarrow> distinct xs \<and> set xs \<subseteq> A"
proof
  assume "int (length xs) - int (card (set xs \<inter> A)) = 0"
  then have eq: "length xs = card (set xs \<inter> A)" by simp
  have "card (set xs \<inter> A) \<le> card (set xs)" "card (set xs) \<le> length xs"
    by (simp_all add: card_mono card_length)
  with eq have c: "card (set xs) = length xs" "card (set xs \<inter> A) = card (set xs)" by simp_all
  have "set xs \<inter> A = set xs" using c(2) by (intro card_subset_eq) simp_all
  with c(1) show "distinct xs \<and> set xs \<subseteq> A" using card_distinct by blast
qed (simp add: distinct_card Int_absorb2)

lemma topo_inv_deps:
  assumes "topo_inv nodes degs queue order" "dget nodes n = Some nd"
  shows "n \<in> set (order @ queue) \<longleftrightarrow> distinct (dn_dependencies nd) \<and> deps_of nd \<subseteq> set order"
  using assms open_dependencies [of "dn_dependencies nd" "set order"] by (auto simp: topo_inv_def)

lemma topo_inv_step:
  assumes ok: "dict_ok nodes" and inv: "topo_inv nodes degs (cur # queue) order"
  shows "topo_inv nodes (fst (relax nodes cur degs queue)) (snd (relax nodes cur degs queue)) (order @ [cur])"
proof -
  let ?new = "map fst (filter (\<lambda>(n, nd). cur \<in> deps_of nd \<and> dget_or degs n 0 = 1) nodes)"
  let ?degs = "fst (relax nodes cur degs queue)"
  have cur: "cur \<notin> set order" "cur \<in> set (dkeys nodes)" and dist: "distinct (order @ cur # queue)"
    and sub: "set (order @ cur # queue) \<subseteq> set (dkeys nodes)"
    and topo: "\<forall>i < length order. \<forall>nd. dget nodes (order ! i) = Some nd \<longrightarrow> deps_of nd \<subseteq> set (take i order)"
    using inv unfolding topo_inv_def by auto
  obtain cnd where cnd: "dget nodes cur = Some cnd" using cur(2) by (metis has_key_def has_key_iff option.exhaust)
  have queue': "snd (relax nodes cur degs queue) = queue @ ?new" by (rule relax_closed(2) [OF ok cnd])
  have mem: "n \<in> set ?new \<longleftrightarrow> (\<exists>nd. dget nodes n = Some nd \<and> cur \<in> deps_of nd \<and> dget_or degs n 0 = 1)" for n
    unfolding map_of_eq_Some_iff [OF ok] by force
  have in_new: "n \<in> set ?new \<longleftrightarrow> cur \<in> deps_of nd \<and> dget_or degs n 0 = 1" if "dget nodes n = Some nd" for n nd
    unfolding mem using that by simp
  have old: "dget_or degs n 0 = int (length (dn_dependencies nd)) - int (card (deps_of nd \<inter> set order))"
    "n \<in> set (order @ cur # queue) \<longleftrightarrow> dget_or degs n 0 = 0" if "dget nodes n = Some nd" for n nd
    using inv that unfolding topo_inv_def by blast+
  have done_cur: "cur \<notin> deps_of nd" if "dget nodes n = Some nd" "n \<in> set (order @ cur # queue)" for n nd
    using topo_inv_deps [OF inv that(1)] that(2) cur(1) by blast
  have degs': "dget_or ?degs n 0 = int (length (dn_dependencies nd)) - int (card (deps_of nd \<inter> set (order @ [cur])))"
    if "dget nodes n = Some nd" for n nd
    using relax_closed(1) [OF ok that] old(1) [OF that] cur(1) by (simp add: Int_insert_right)
  have "n \<in> set ((order @ [cur]) @ queue @ ?new) \<longleftrightarrow> dget_or ?degs n 0 = 0" if n: "dget nodes n = Some nd" for n nd
    using relax_closed(1) [OF ok n, of cur degs queue] old(2) [OF n] in_new [OF n] done_cur [OF n] by (auto split: if_splits)
  moreover have "distinct ((order @ [cur]) @ queue @ ?new)"
  proof -
    have "n \<notin> set (order @ cur # queue)" if "n \<in> set ?new" for n
    proof -
      obtain nd where "dget nodes n = Some nd" "dget_or degs n 0 = 1" using \<open>n \<in> set ?new\<close> unfolding mem by blast
      with old(2) show ?thesis by simp
    qed
    moreover have "distinct ?new" using ok by (rule distinct_map_filter)
    ultimately show ?thesis using dist by auto
  qed
  moreover have "set ((order @ [cur]) @ queue @ ?new) \<subseteq> set (dkeys nodes)" using sub by auto
  moreover have "\<forall>i < length (order @ [cur]). \<forall>nd. dget nodes ((order @ [cur]) ! i) = Some nd \<longrightarrow>
      deps_of nd \<subseteq> set (take i (order @ [cur]))"
    using topo topo_inv_deps [OF inv cnd] cnd by (auto simp: less_Suc_eq nth_append)
  ultimately show ?thesis unfolding topo_inv_def queue' using degs' by blast
qed

lemma topo_loop_inv:
  "dict_ok nodes \<Longrightarrow> topo_inv nodes degs queue order \<Longrightarrow> \<exists>degs'. topo_inv nodes degs' [] (topo_loop nodes degs queue order)"
proof (induction nodes degs queue order rule: topo_loop.induct)
  case (2 nodes degs cur queue order)
  from 2(1) [OF 2(2) topo_inv_step [OF 2(2,3)]] show ?case by simp
qed auto

text \<open>
  A decision can be executed when it lists no requirement twice and all its requirements are
  registered and can be executed.
\<close>

inductive executable :: "nodes \<Rightarrow> string \<Rightarrow> bool" for nodes where
  "dget nodes n = Some nd \<Longrightarrow> distinct (dn_dependencies nd) \<Longrightarrow> (\<And>d. d \<in> deps_of nd \<Longrightarrow> executable nodes d) \<Longrightarrow>
     executable nodes n"

lemma topo_inv_executable:
  assumes "topo_inv nodes degs [] order"
  shows "n \<in> set order \<longleftrightarrow> executable nodes n"
proof
  assume "n \<in> set order"
  then obtain i where "i < length order" "order ! i = n" by (auto simp: in_set_conv_nth)
  then show "executable nodes n"
  proof (induction i arbitrary: n rule: less_induct)
    case (less i)
    have "n \<in> set order" using less.prems by (auto simp: in_set_conv_nth)
    then obtain nd where nd: "dget nodes n = Some nd"
      using assms unfolding topo_inv_def by (metis append_Nil2 has_key_def has_key_iff option.exhaust subset_iff)
    have sub: "deps_of nd \<subseteq> set (take i order)" using assms nd less.prems unfolding topo_inv_def by auto
    show ?case
    proof (rule executable.intros [OF nd])
      show "distinct (dn_dependencies nd)" using topo_inv_deps [OF assms nd] \<open>n \<in> set order\<close> by simp
      fix d assume "d \<in> deps_of nd"
      then have "d \<in> set (take i order)" using sub by blast
      then obtain j where "j < length (take i order)" "take i order ! j = d" unfolding in_set_conv_nth by blast
      then show "executable nodes d" using less.IH [of j d] by simp
    qed
  qed
next
  assume "executable nodes n"
  then show "n \<in> set order"
  proof (induction rule: executable.induct)
    case (1 n nd)
    have "deps_of nd \<subseteq> set order" using 1(4) by blast
    with 1(2) have "n \<in> set (order @ [])" using topo_inv_deps [OF assms 1(1)] by blast
    then show ?case by simp
  qed
qed

definition nodes_ok :: "nodes \<Rightarrow> bool" where
  "nodes_ok nodes \<longleftrightarrow> dict_ok nodes \<and> (\<forall>n nd. dget nodes n = Some nd \<longrightarrow> dn_in_degree nd = int (length (dn_dependencies nd)))"

lemma topo_inv_start:
  assumes "nodes_ok nodes"
  defines "degs \<equiv> map (\<lambda>(nid, node). (nid, dn_in_degree node)) nodes"
  shows "topo_inv nodes degs (map fst (filter (\<lambda>(nid, deg). deg = 0) degs)) []"
proof -
  let ?queue = "map fst (filter (\<lambda>(nid, deg). deg = 0) degs)"
  have keys: "dkeys degs = dkeys nodes" by (simp add: degs_def case_prod_unfold comp_def)
  then have ok: "dict_ok degs" using assms(1) by (simp add: nodes_ok_def)
  have deg: "dget degs n = map_option dn_in_degree (dget nodes n)" for n
    unfolding degs_def by (induction nodes) auto
  have q: "n \<in> set ?queue \<longleftrightarrow> dget degs n = Some 0" for n
    unfolding map_of_eq_Some_iff [OF ok] by force
  have "dget_or degs n 0 = int (length (dn_dependencies nd)) - int (card (deps_of nd \<inter> set [])) \<and>
      (n \<in> set ([] @ ?queue) \<longleftrightarrow> dget_or degs n 0 = 0)" if n: "dget nodes n = Some nd" for n nd
  proof -
    have "dn_in_degree nd = int (length (dn_dependencies nd))" using assms(1) n unfolding nodes_ok_def by blast
    then show ?thesis unfolding append_Nil q by (simp add: deg n dget_or_def)
  qed
  moreover have "distinct ?queue" using ok by (rule distinct_map_filter)
  moreover have "set ?queue \<subseteq> set (dkeys nodes)" unfolding keys [symmetric] by auto
  ultimately show ?thesis unfolding topo_inv_def by simp
qed

lemma build_nodes_ok:
  assumes "nodes_ok nodes"
  shows "nodes_ok (fold (\<lambda>d ns. dset (d_id d) (decision_node d) ns) ds nodes)"
  using assms
proof (induction ds arbitrary: nodes)
  case (Cons d ds)
  have "nodes_ok (dset (d_id d) (decision_node d) nodes)"
    using Cons.prems unfolding nodes_ok_def by (auto simp: decision_node_def simp del: map_of_eq_Some_iff)
  with Cons.IH show ?case by simp
qed simp

lemma build_topo_inv:
  assumes "nodes_ok (g_nodes g)"
  shows "\<exists>degs. topo_inv (g_nodes (build_from_decisions ds g)) degs [] (g_execution_order (build_from_decisions ds g))"
    "dict_ok (g_nodes (build_from_decisions ds g))"
  using topo_loop_inv [OF _ topo_inv_start [OF build_nodes_ok [OF assms]]] build_nodes_ok [OF assms]
  by (simp_all add: build_from_decisions_def compute_topological_order_def Let_def nodes_ok_def)

subsection \<open>Properties of the order\<close>

text \<open>
  C27: The execution order of a graph built from decisions is a topological order: no decision occurs
  twice, every decision comes after all its requirements, and the decisions that occur are exactly those
  that can be executed at all: registered, without a requirement listed twice, and with requirements that
  can be executed.  In particular the loop ends for every graph, cyclic ones included.
\<close>

theorem execution_order_topological:
  fixes ds :: "Decision list"
  defines "g \<equiv> build_from_decisions ds drg_init"
  shows "distinct (g_execution_order g) \<and>
    (\<forall>n. n \<in> set (g_execution_order g) \<longleftrightarrow> executable (g_nodes g) n) \<and>
    (\<forall>i < length (g_execution_order g). set (get_dependencies (g_execution_order g ! i) g) \<subseteq> set (take i (g_execution_order g)))"
proof -
  have ok: "nodes_ok (g_nodes drg_init)" by (simp add: nodes_ok_def drg_init_def)
  obtain degs where inv: "topo_inv (g_nodes g) degs [] (g_execution_order g)"
    using build_topo_inv(1) [OF ok] unfolding g_def by blast
  then have "distinct (g_execution_order g)" by (simp add: topo_inv_def)
  moreover have "set (get_dependencies (g_execution_order g ! i) g) \<subseteq> set (take i (g_execution_order g))"
    if "i < length (g_execution_order g)" for i
    using inv that unfolding topo_inv_def get_dependencies_def by (cases "dget (g_nodes g) (g_execution_order g ! i)") auto
  ultimately show ?thesis using topo_inv_executable [OF inv] by blast
qed

definition demo_decisions :: "Decision list" where
  "demo_decisions =
     [\<lparr>d_id = ''price'', d_name = None, d_required_decisions = [''risk''], d_required_inputs = [], d_input_data = []\<rparr>,
      \<lparr>d_id = ''risk'', d_name = None, d_required_decisions = [], d_required_inputs = [''age''], d_input_data = []\<rparr>]"

lemma demo_graph:
  "g_execution_order (build_from_decisions demo_decisions drg_init) = [''risk'', ''price'']"
  "g_nodes (build_from_decisions demo_decisions drg_init) = map (\<lambda>d. (d_id d, decision_node d)) demo_decisions"
  by (simp_all add: build_from_decisions_def compute_topological_order_def Let_def drg_init_def demo_decisions_def
      decision_node_def relax_def relax_node_def dget_or_def)

lemma demo_dependencies:
  "get_dependencies n (build_from_decisions demo_decisions drg_init) = (if n = ''price'' then [''risk''] else [])"
  unfolding get_dependencies_def demo_graph(2) by (simp add: demo_decisions_def decision_node_def)

theorem execution_order_topological_witness:
  "executable (g_nodes (build_from_decisions demo_decisions drg_init)) ''price''"
  using execution_order_topological [of demo_decisions, THEN conjunct2, THEN conjunct1, rule_format, of "''price''"]
  by (simp add: demo_graph(1))

text \<open>
  When the requirements form no cycle, are all registered and are listed once each, every decision
  is in the execution order: the graph is fully executed when the order is.
\<close>

theorem acyclic_graph_fully_ordered:
  fixes ds :: "Decision list"
  defines "g \<equiv> build_from_decisions ds drg_init"
  assumes "acyclic {(d, n). d \<in> set (get_dependencies n g)}"
    and "\<forall>n. set (get_dependencies n g) \<subseteq> set (dkeys (g_nodes g))" and "\<forall>n. distinct (get_dependencies n g)"
  shows "is_fully_executed (g_execution_order g) g"
proof -
  let ?R = "{(d, n). d \<in> set (get_dependencies n g)}"
  have ok: "nodes_ok (g_nodes drg_init)" by (simp add: nodes_ok_def drg_init_def)
  obtain degs where inv: "topo_inv (g_nodes g) degs [] (g_execution_order g)"
    using build_topo_inv(1) [OF ok] unfolding g_def by blast
  have reg: "n \<in> set (dkeys (g_nodes g))" if "d \<in> set (get_dependencies n g)" for d n
    using that by (cases "dget (g_nodes g) n") (auto simp: get_dependencies_def dest: dget_dkeys)
  have "?R \<subseteq> set (dkeys (g_nodes g)) \<times> set (dkeys (g_nodes g))" using assms(3) reg by blast
  then have "finite ?R" by (rule finite_subset) simp
  then have "wf ?R" using assms(2) by (rule finite_acyclic_wf)
  then have "n \<in> set (dkeys (g_nodes g)) \<Longrightarrow> executable (g_nodes g) n" for n
  proof (induction n rule: wf_induct_rule)
    case (less n)
    obtain nd where nd: "dget (g_nodes g) n = Some nd" using less.prems by (metis has_key_def has_key_iff option.exhaust)
    then have eq: "get_dependencies n g = dn_dependencies nd" by (simp add: get_dependencies_def)
    show ?case
    proof (rule executable.intros [OF nd])
      show "distinct (dn_dependencies nd)" using assms(4) eq by metis
      fix d assume "d \<in> deps_of nd"
      then have "(d, n) \<in> ?R" using eq by simp
      moreover have "d \<in> set (dkeys (g_nodes g))" using \<open>(d, n) \<in> ?R\<close> assms(3) by blast
      ultimately show "executable (g_nodes g) d" by (rule less.IH)
    qed
  qed
  then show ?thesis using topo_inv_executable [OF inv] by (simp add: is_fully_executed_def list_all_iff)
qed

theorem acyclic_graph_fully_ordered_witness:
  "is_fully_executed [''risk'', ''price''] (build_from_decisions demo_decisions drg_init)"
proof -
  let ?R = "{(d, n). d \<in> set (get_dependencies n (build_from_decisions demo_decisions drg_init))}"
  have "?R = {(''risk'', ''price'')}" by (auto simp: demo_dependencies split: if_splits)
  then have "acyclic ?R" by (simp add: acyclic_insert) (simp add: acyclic_def)
  moreover have "\<forall>n. set (get_dependencies n (build_from_decisions demo_decisions drg_init))
      \<subseteq> set (dkeys (g_nodes (build_from_decisions demo_decisions drg_init)))"
    unfolding demo_dependencies demo_graph(2) by (auto simp: demo_decisions_def)
  moreover have "\<forall>n. distinct (get_dependencies n (build_from_decisions demo_decisions drg_init))"
    by (simp add: demo_dependencies)
  ultimately show ?thesis using acyclic_graph_fully_ordered [of demo_decisions] by (simp add: demo_graph(1))
qed

subsection \<open>Executing a service\<close>

lemma merged_context_cong:
  assumes "\<And>d. d \<in> deps_of node \<Longrightarrow> dget results d = dget results' d"
  shows "merged_context ctx results node = merged_context ctx results' node"
proof -
  have "fold (\<lambda>dep acc. case dget results dep of None \<Rightarrow> acc | Some v \<Rightarrow> dset dep v acc) (dn_dependencies node) [] =
      fold (\<lambda>dep acc. case dget results' dep of None \<Rightarrow> acc | Some v \<Rightarrow> dset dep v acc) (dn_dependencies node) []"
    using assms by (intro fold_cong) auto
  then show ?thesis by (simp add: merged_context_def)
qed

text \<open>Each result is the decision's value in the context of the \<^emph>\<open>final\<close> results of its requirements.\<close>

definition solved :: "evaluate \<Rightarrow> DecisionRequirementsGraph \<Rightarrow> pydict \<Rightarrow> pydict \<Rightarrow> string \<Rightarrow> bool" where
  "solved ev g ctx results did \<longleftrightarrow>
     (case get_node did g of
        None \<Rightarrow> False
      | Some node \<Rightarrow> dget results did = Some (evaluated (ev did (dn_name node) (merged_context ctx results node))))"

lemma execute_order_solves:
  assumes "dkeys results = past" "distinct (past @ dids)"
    and "\<forall>i < length dids. get_node (dids ! i) g \<noteq> None \<and>
      set (get_dependencies (dids ! i) g) \<subseteq> set (past @ take i dids)"
  shows "let (r, c) = execute_order ev g ctx dids (results, completed)
    in dkeys r = past @ dids \<and> (\<forall>d \<in> set past. dget r d = dget results d) \<and> (\<forall>d \<in> set dids. solved ev g ctx r d)"
  using assms
proof (induction dids arbitrary: past results completed)
  case (Cons did dids)
  obtain node where node: "get_node did g = Some node" using Cons.prems(3) by fastforce
  have deps: "deps_of node \<subseteq> set past"
    using Cons.prems(3) [rule_format, of 0] node by (simp add: get_dependencies_def get_node_def)
  let ?r = "ev did (dn_name node) (merged_context ctx results node)"
  define results1 where "results1 = dset did (evaluated ?r) results"
  define completed1 where "completed1 = (case ?r of Inl _ \<Rightarrow> completed | Inr _ \<Rightarrow> sadd did completed)"
  obtain r c where rc: "execute_order ev g ctx dids (results1, completed1) = (r, c)" by fastforce
  have "dget results did = None" using Cons.prems(1,2) by (auto simp: map_of_eq_None_iff simp flip: set_map)
  then have keys: "dkeys results1 = past @ [did]" using Cons.prems(1) by (simp add: results1_def dset_new)
  have later: "\<forall>i < length dids. get_node (dids ! i) g \<noteq> None \<and>
      set (get_dependencies (dids ! i) g) \<subseteq> set ((past @ [did]) @ take i dids)"
    using Cons.prems(3) by (metis Suc_less_eq append.assoc append_Cons append_Nil length_Cons nth_Cons_Suc take_Suc_Cons)
  have ih: "dkeys r = (past @ [did]) @ dids" "\<forall>d \<in> set (past @ [did]). dget r d = dget results1 d"
    "\<forall>d \<in> set dids. solved ev g ctx r d"
    using Cons.IH [OF keys _ later, of completed1] Cons.prems(2) rc by simp_all
  have same: "dget r d = dget results d" if "d \<in> set past" for d
    using ih(2) that Cons.prems(2) by (auto simp: results1_def)
  then have "merged_context ctx r node = merged_context ctx results node"
    using deps by (intro merged_context_cong) blast
  then have "solved ev g ctx r did" using node ih(2) by (simp add: solved_def results1_def)
  then show ?case
    using ih same node rc by (simp add: Let_def results1_def completed1_def)
qed simp

lemma service_keeps_nodes:
  assumes "dget (g_nodes g) n = Some nd"
  shows "\<exists>nd'. dget (g_nodes (build_from_decision_service ds g)) n = Some nd' \<and> deps_of nd' \<subseteq> deps_of nd"
proof -
  let ?enc = "\<lambda>(did, name) ns. dset did (service_node did name) ns"
  let ?out = "\<lambda>od ns. case dget ns od of None \<Rightarrow> ns | Some n \<Rightarrow> dset od (n\<lparr>dn_in_degree := int (length (dn_dependencies n))\<rparr>) ns"
  let ?P = "\<lambda>ns. \<exists>nd'. dget ns n = Some nd' \<and> deps_of nd' \<subseteq> deps_of nd"
  have enc: "?P (fold ?enc es ns)" if "?P ns" for es ns
    using that by (rule fold_invariant [where Q = "\<lambda>_. True" and P = ?P, OF TrueI]) (auto simp: service_node_def)
  have "?P (?out od ns)" if "?P ns" for od ns
    using that by (cases "dget ns od") (auto simp: dget_dset)
  then have out: "?P (fold ?out os ns)" if "?P ns" for os ns
    using that by (intro fold_invariant [where Q = "\<lambda>_. True" and P = ?P, OF TrueI]) auto
  show ?thesis
    using out [OF enc] assms by (simp add: build_from_decision_service_def Let_def)
qed



subsection \<open>Hit policies\<close>

text \<open>
  A match is the dict of a rule that fired, with its \<open>output_values\<close> and an optional integer
  \<open>priority\<close>.  The numeric policies convert the outputs with \<open>float\<close> and add or compare them as doubles;
  their values are not computed here.
\<close>

datatype HitPolicy = UNIQUE | FIRST | PRIORITY | ANY | COLLECT | OUTPUT_ORDER | RULE_ORDER | C_COLLECT | C_SUM | C_MIN | C_MAX
  | C_COUNT

type_synonym rule_match = pydict

definition output_values :: "rule_match \<Rightarrow> pyval result" where
  "output_values m = pindex m ''output_values''"

definition match_priority :: "rule_match \<Rightarrow> int option" where
  "match_priority m = (case pget_or m ''priority'' (PInt 0) of PInt i \<Rightarrow> Some i | _ \<Rightarrow> None)"

text \<open>\<open>sorted(matches, key=lambda m: m.get("priority", 0))\<close>, stable in both directions.\<close>

definition sorted_matches :: "bool \<Rightarrow> rule_match list \<Rightarrow> rule_match list result" where
  "sorted_matches reverse ms =
     (if list_all (\<lambda>m. match_priority m \<noteq> None) ms
      then Inr (sort_key (\<lambda>m. if reverse then - the (match_priority m) else the (match_priority m)) ms)
      else Inl (Unmodelled ''sorted''))"

definition first_output :: "rule_match list \<Rightarrow> pyval result" where
  "first_output ms = (case ms of [] \<Rightarrow> Inr PNone | m # _ \<Rightarrow> output_values m)"

definition all_outputs :: "rule_match list \<Rightarrow> pyval result" where
  "all_outputs ms = bindr (mapr output_values ms) (\<lambda>vs. Inr (PList vs))"

fun any_loop :: "pyval \<Rightarrow> rule_match list \<Rightarrow> pyval result" where
  "any_loop v [] = Inr v"
| "any_loop v (m # ms) = bindr (output_values m) (\<lambda>w. if w \<noteq> v then Inr v else any_loop v ms)"

definition handle_unique :: "rule_match list \<Rightarrow> pyval result" where
  "handle_unique ms = first_output ms"

definition handle_first :: "rule_match list \<Rightarrow> pyval result" where
  "handle_first ms = bindr (sorted_matches True ms) first_output"

definition handle_priority :: "rule_match list \<Rightarrow> pyval result" where
  "handle_priority ms = bindr (sorted_matches True ms) first_output"

definition handle_any :: "rule_match list \<Rightarrow> pyval result" where
  "handle_any ms = (case ms of [] \<Rightarrow> Inr PNone | m # rest \<Rightarrow> bindr (output_values m) (\<lambda>v. any_loop v rest))"

definition handle_collect :: "rule_match list \<Rightarrow> pyval result" where
  "handle_collect ms = all_outputs ms"

definition handle_output_order :: "rule_match list \<Rightarrow> pyval result" where
  "handle_output_order ms = bindr (sorted_matches False ms) all_outputs"

definition handle_rule_order :: "rule_match list \<Rightarrow> pyval result" where
  "handle_rule_order ms = all_outputs ms"

fun hit_policy_handler :: "HitPolicy \<Rightarrow> rule_match list \<Rightarrow> pyval result" where
  "hit_policy_handler UNIQUE ms = handle_unique ms"
| "hit_policy_handler FIRST ms = handle_first ms"
| "hit_policy_handler PRIORITY ms = handle_priority ms"
| "hit_policy_handler ANY ms = handle_any ms"
| "hit_policy_handler COLLECT ms = handle_collect ms"
| "hit_policy_handler OUTPUT_ORDER ms = handle_output_order ms"
| "hit_policy_handler RULE_ORDER ms = handle_rule_order ms"
| "hit_policy_handler C_COLLECT ms = handle_collect ms"
| "hit_policy_handler C_COUNT ms = Inr (PInt (int (length ms)))"
| "hit_policy_handler _ ms = Inl (Unmodelled ''float'')"

definition apply_hit_policy :: "HitPolicy \<Rightarrow> rule_match list \<Rightarrow> pyval result" where
  "apply_hit_policy p ms = (if ms = [] then Inr PNone else hit_policy_handler p ms)"

definition hit_policy_names :: "(string, HitPolicy) dict" where
  "hit_policy_names =
     [(''unique'', UNIQUE), (''first'', FIRST), (''priority'', PRIORITY), (''any'', ANY), (''collect'', COLLECT),
      (''outputorder'', OUTPUT_ORDER), (''ruleorder'', RULE_ORDER), (''c+'', C_COLLECT), (''c#'', C_SUM), (''c<'', C_MIN),
      (''c>'', C_MAX), (''cc'', C_COUNT)]"

definition parse_hit_policy :: "string \<Rightarrow> HitPolicy" where
  "parse_hit_policy s = dget_or hit_policy_names (filter (\<lambda>c. c \<notin> set '' _-'') (map lower_char s)) UNIQUE"

lemma any_loop_first: "\<forall>m \<in> set ms. is_ok (output_values m) \<Longrightarrow> any_loop v ms = Inr v"
  by (induction ms) (auto simp: bindr_def is_ok_def split: sum.splits)

text \<open>The head of a stable sort is the first of the least elements.\<close>

lemma hd_sort_key:
  fixes f :: "'a \<Rightarrow> int"
  assumes "xs \<noteq> []"
  obtains i where "i < length xs" "hd (sort_key f xs) = xs ! i" "\<forall>x \<in> set xs. f (xs ! i) \<le> f x" "\<forall>j < i. f (xs ! i) < f (xs ! j)"
proof -
  define m where "m = hd (sort_key f xs)"
  have ne: "sort_key f xs \<noteq> []" using assms by (metis length_0_conv length_sort)
  then obtain ys where ys: "sort_key f xs = m # ys" unfolding m_def by (cases "sort_key f xs") auto
  then have "sorted (map f (m # ys))" by (metis sorted_sort_key)
  moreover have "set xs = set (m # ys)" using ys by (metis set_sort)
  ultimately have least: "\<forall>x \<in> set xs. f m \<le> f x" by auto
  have "filter (\<lambda>x. f x = f m) xs = filter (\<lambda>x. f x = f m) (sort_key f xs)" by (simp add: sort_key_stable)
  then have "filter (\<lambda>x. f x = f m) xs = m # filter (\<lambda>x. f x = f m) ys" unfolding ys by simp
  then obtain us vs where u: "xs = us @ m # vs" "\<forall>u \<in> set us. f u \<noteq> f m" by (auto simp: filter_eq_Cons_iff)
  show thesis
  proof (rule that [of "length us"])
    have at: "xs ! length us = m" by (simp add: u(1))
    show "length us < length xs" by (simp add: u(1))
    show "hd (sort_key f xs) = xs ! length us" "\<forall>x \<in> set xs. f (xs ! length us) \<le> f x" using at least by (simp_all add: m_def)
    show "\<forall>j < length us. f (xs ! length us) < f (xs ! j)"
    proof (intro allI impI)
      fix j assume j: "j < length us"
      then have "xs ! j \<in> set us" "xs ! j \<in> set xs" by (simp_all add: u(1) nth_append)
      with u(2) least at show "f (xs ! length us) < f (xs ! j)" by force
    qed
  qed
qed

text \<open>
  The single-result hit policies return the output of one match.  UNIQUE and ANY return that of
  the first match in rule order, without checking that it is the only one or that the others agree; FIRST
  and PRIORITY both return that of the earliest match among those of the highest priority, so FIRST is
  not the first match.  COLLECT and RULE_ORDER return all outputs in rule order.
\<close>

theorem hit_policy_outputs:
  assumes "ms \<noteq> []" and "\<forall>m \<in> set ms. output_values m = Inr (out m) \<and> match_priority m = Some (prio m)"
  shows "apply_hit_policy UNIQUE ms = Inr (out (ms ! 0)) \<and> apply_hit_policy ANY ms = Inr (out (ms ! 0)) \<and>
    (\<exists>i < length ms. apply_hit_policy FIRST ms = Inr (out (ms ! i)) \<and> apply_hit_policy PRIORITY ms = Inr (out (ms ! i)) \<and>
       (\<forall>m \<in> set ms. prio m \<le> prio (ms ! i)) \<and> (\<forall>j < i. prio (ms ! j) < prio (ms ! i))) \<and>
    apply_hit_policy COLLECT ms = Inr (PList (map out ms)) \<and> apply_hit_policy RULE_ORDER ms = Inr (PList (map out ms)) \<and>
    apply_hit_policy C_COUNT ms = Inr (PInt (int (length ms)))"
proof -
  obtain m ms' where ms: "ms = m # ms'" using assms(1) by (cases ms) auto
  let ?f = "\<lambda>m. - the (match_priority m)"
  obtain i where i: "i < length ms" "hd (sort_key ?f ms) = ms ! i" "\<forall>x \<in> set ms. ?f (ms ! i) \<le> ?f x"
    "\<forall>j < i. ?f (ms ! i) < ?f (ms ! j)" by (rule hd_sort_key [OF assms(1), of ?f])
  have prio: "?f (ms ! j) = - prio (ms ! j)" if "j < length ms" for j using assms(2) that by simp
  have prio': "?f x = - prio x" if "x \<in> set ms" for x using assms(2) that by simp
  have "sort_key ?f ms \<noteq> []" using assms(1) by (metis length_0_conv length_sort)
  then have "first_output (sort_key ?f ms) = output_values (ms ! i)"
    unfolding i(2) [symmetric] first_output_def by (cases "sort_key ?f ms") simp_all
  moreover have "sorted_matches True ms = Inr (sort_key ?f ms)"
    using assms(2) by (auto simp: sorted_matches_def list_all_iff)
  ultimately have first: "handle_first ms = Inr (out (ms ! i))" "handle_priority ms = Inr (out (ms ! i))"
    using assms(2) i(1) by (simp_all add: handle_first_def handle_priority_def)
  have best: "(\<forall>m \<in> set ms. prio m \<le> prio (ms ! i)) \<and> (\<forall>j < i. prio (ms ! j) < prio (ms ! i))"
  proof (intro conjI ballI allI impI)
    show "prio x \<le> prio (ms ! i)" if "x \<in> set ms" for x using i(3) that prio [OF i(1)] prio' [OF that] by force
    show "prio (ms ! j) < prio (ms ! i)" if "j < i" for j using i(4) that prio [OF i(1)] prio [of j] i(1) by force
  qed
  have out: "mapr output_values ms = Inr (map out ms)" using assms(2) by (intro mapr_all_Inr) blast
  have any: "any_loop (out m) ms' = Inr (out m)" using assms(2) ms by (intro any_loop_first) auto
  have "output_values m = Inr (out m)" using assms(2) ms by simp
  then have "apply_hit_policy UNIQUE ms = Inr (out (ms ! 0))" "apply_hit_policy ANY ms = Inr (out (ms ! 0))"
    using any by (simp_all add: apply_hit_policy_def ms handle_unique_def handle_any_def first_output_def)
  moreover have "apply_hit_policy FIRST ms = Inr (out (ms ! i))" "apply_hit_policy PRIORITY ms = Inr (out (ms ! i))"
    using first assms(1) by (simp_all add: apply_hit_policy_def)
  moreover have "apply_hit_policy COLLECT ms = Inr (PList (map out ms))" "apply_hit_policy RULE_ORDER ms = Inr (PList (map out ms))"
    "apply_hit_policy C_COUNT ms = Inr (PInt (int (length ms)))"
    using out assms(1) by (simp_all add: apply_hit_policy_def handle_collect_def handle_rule_order_def all_outputs_def)
  ultimately show ?thesis using best i(1) by blast
qed

theorem hit_policy_outputs_witness:
  "\<exists>i < (2 :: nat). apply_hit_policy FIRST
     [[(''output_values'', PInt 1), (''priority'', PInt 0)], [(''output_values'', PInt 2), (''priority'', PInt 9)]] =
       Inr (PInt (if i = 0 then 1 else 2))"
proof -
  let ?ms = "[[(''output_values'', PInt 1), (''priority'', PInt 0)], [(''output_values'', PInt 2), (''priority'', PInt 9)]]"
  let ?out = "\<lambda>m. pget m ''output_values''" and ?prio = "\<lambda>m. the (match_priority m)"
  have "\<forall>m \<in> set ?ms. output_values m = Inr (?out m) \<and> match_priority m = Some (?prio m)"
    by (simp add: output_values_def match_priority_def payload_simps)
  from hit_policy_outputs [of ?ms ?out ?prio, OF _ this] obtain i where
    "i < length ?ms" "apply_hit_policy FIRST ?ms = Inr (?out (?ms ! i))" by auto
  then show ?thesis by (intro exI [of _ i]) (auto simp: less_Suc_eq payload_simps)
qed

end
