(* ===== verification/EventProcessing.thy ===== *)
theory EventProcessing
  imports PyVal "HOL-Library.Sublist"
begin

section \<open>Complex event processing: windows and patterns\<close>

text \<open>
  \<open>cep/window_manager.py\<close> and \<open>cep/pattern_matcher.py\<close>.  An event is a dict; a window keeps the events
  pushed into it, cut to \<open>max_count\<close>; the matcher keeps a buffer of events per instance and tests patterns
  on it.  Event types are compared as the values they are, which in practice are strings.
\<close>

subsection \<open>Windows\<close>

type_synonym event = pydict

record WindowDefinition =
  wd_window_id :: string
  wd_window_type :: string
  wd_size :: string
  wd_slide :: "string option"
  wd_session_gap :: "string option"
  wd_max_count :: "int option"

record WindowState =
  ws_window_id :: string
  ws_events :: "event list"
  ws_state :: string
  ws_version :: nat

record WindowManager =
  wm_windows :: "(string, WindowState) dict"
  wm_definitions :: "(string, WindowDefinition) dict"

definition window_manager_init :: WindowManager where
  "window_manager_init = \<lparr>wm_windows = [], wm_definitions = []\<rparr>"

definition new_window :: "string \<Rightarrow> WindowState" where
  "new_window wid = \<lparr>ws_window_id = wid, ws_events = [], ws_state = ''open'', ws_version = 1\<rparr>"

text \<open>The configuration dict, whose entries are optional.\<close>

record window_config =
  wc_id :: "string option"
  wc_type :: "string option"
  wc_size :: "string option"
  wc_window_size :: "string option"
  wc_slide :: "string option"
  wc_session_gap :: "string option"
  wc_max_count :: "int option"

definition configure_window :: "string \<Rightarrow> window_config \<Rightarrow> WindowManager \<Rightarrow> WindowDefinition \<times> WindowManager" where
  "configure_window iid cfg m =
     (let wid = (case wc_id cfg of None \<Rightarrow> ''window_'' @ iid | Some s \<Rightarrow> s);
          d = \<lparr>wd_window_id = wid,
               wd_window_type = (case wc_type cfg of None \<Rightarrow> ''tumbling'' | Some s \<Rightarrow> s),
               wd_size = (case wc_size cfg of Some s \<Rightarrow> s
                          | None \<Rightarrow> (case wc_window_size cfg of None \<Rightarrow> ''1 minute'' | Some s \<Rightarrow> s)),
               wd_slide = wc_slide cfg, wd_session_gap = wc_session_gap cfg, wd_max_count = wc_max_count cfg\<rparr>
      in (d, m\<lparr>wm_definitions := dset wid d (wm_definitions m), wm_windows := dset wid (new_window wid) (wm_windows m)\<rparr>))"

definition ensure_window :: "string \<Rightarrow> string \<Rightarrow> string \<Rightarrow> WindowManager \<Rightarrow> WindowManager" where
  "ensure_window wid ty sz m =
     (if has_key (wm_windows m) wid then m
      else m\<lparr>wm_windows := dset wid (new_window wid) (wm_windows m),
             wm_definitions := dset wid \<lparr>wd_window_id = wid, wd_window_type = ty, wd_size = sz, wd_slide = None,
                                         wd_session_gap = None, wd_max_count = None\<rparr> (wm_definitions m)\<rparr>)"

definition trim :: "int option \<Rightarrow> event list \<Rightarrow> event list" where
  "trim mc evs = (case mc of None \<Rightarrow> evs | Some n \<Rightarrow> if int (length evs) > n then slice_last n evs else evs)"

definition push :: "string \<Rightarrow> event \<Rightarrow> string \<Rightarrow> string \<Rightarrow> WindowManager \<Rightarrow> event list \<times> WindowManager" where
  "push wid e ty sz m =
     (let m1 = ensure_window wid ty sz m
      in case dget (wm_windows m1) wid of
           None \<Rightarrow> ([], m1)
         | Some st \<Rightarrow>
             (let mc = (case dget (wm_definitions m1) wid of None \<Rightarrow> None | Some d \<Rightarrow> wd_max_count d);
                  evs = trim mc (ws_events st @ [e])
              in (evs, m1\<lparr>wm_windows := dset wid (st\<lparr>ws_events := evs, ws_version := ws_version st + 1\<rparr>) (wm_windows m1)\<rparr>)))"

definition get_events :: "string \<Rightarrow> WindowManager \<Rightarrow> event list" where
  "get_events wid m = (case dget (wm_windows m) wid of None \<Rightarrow> [] | Some st \<Rightarrow> ws_events st)"

definition clear_window :: "string \<Rightarrow> WindowManager \<Rightarrow> nat \<times> WindowManager" where
  "clear_window wid m =
     (case dget (wm_windows m) wid of
        None \<Rightarrow> (0, m)
      | Some st \<Rightarrow> (length (ws_events st),
                   m\<lparr>wm_windows := dset wid (st\<lparr>ws_events := [], ws_state := ''closed''\<rparr>) (wm_windows m)\<rparr>))"

definition close_window :: "string \<Rightarrow> WindowManager \<Rightarrow> event list \<times> WindowManager" where
  "close_window wid m =
     (case dget (wm_windows m) wid of
        None \<Rightarrow> ([], m)
      | Some st \<Rightarrow> (ws_events st,
                   m\<lparr>wm_windows := dset wid (st\<lparr>ws_events := [], ws_state := ''closed''\<rparr>) (wm_windows m)\<rparr>))"

definition get_window :: "string \<Rightarrow> WindowManager \<Rightarrow> WindowState option" where
  "get_window wid m = dget (wm_windows m) wid"

definition window_count :: "WindowManager \<Rightarrow> nat" where
  "window_count m = length (wm_windows m)"

definition get_all_windows :: "WindowManager \<Rightarrow> string list" where
  "get_all_windows m = dkeys (wm_windows m)"

subsection \<open>Patterns\<close>

record PatternDefinition =
  pd_pattern_id :: pyval
  pd_operator :: pyval
  pd_events :: "pyval list"
  pd_time_window :: pyval
  pd_min_occurrences :: int
  pd_max_occurrences :: "int option"
  pd_correlation_keys :: pyval

record PatternMatcher =
  pm_event_buffer :: "(string, event list) dict"
  pm_patterns :: "(pyval, PatternDefinition) dict"

definition pattern_matcher_init :: PatternMatcher where
  "pattern_matcher_init = \<lparr>pm_event_buffer = [], pm_patterns = []\<rparr>"

definition register_pattern :: "PatternDefinition \<Rightarrow> PatternMatcher \<Rightarrow> PatternMatcher" where
  "register_pattern p m = m\<lparr>pm_patterns := dset (pd_pattern_id p) p (pm_patterns m)\<rparr>"

definition feed_event :: "string \<Rightarrow> event \<Rightarrow> PatternMatcher \<Rightarrow> PatternMatcher" where
  "feed_event iid e m = m\<lparr>pm_event_buffer := append_to iid e (pm_event_buffer m)\<rparr>"

definition get_buffer :: "string \<Rightarrow> PatternMatcher \<Rightarrow> event list" where
  "get_buffer iid m = dget_or (pm_event_buffer m) iid []"

definition clear_buffer :: "string \<Rightarrow> PatternMatcher \<Rightarrow> nat \<times> PatternMatcher" where
  "clear_buffer iid m = (length (get_buffer iid m), m\<lparr>pm_event_buffer := dset iid [] (pm_event_buffer m)\<rparr>)"

text \<open>\<open>data.get(k, data.get(k', v))\<close>\<close>

definition get2 :: "pydict \<Rightarrow> string \<Rightarrow> string \<Rightarrow> pyval \<Rightarrow> pyval" where
  "get2 d k k' v = pget_or d k (pget_or d k' v)"

text \<open>Bounds that are not integers and event lists that are no sequences are outside the model.\<close>

definition normalize_pattern :: "pydict \<Rightarrow> PatternDefinition result" where
  "normalize_pattern data =
     bindr (case get2 data ''events'' ''conditions'' (PList []) of
              PList xs \<Rightarrow> Inr xs | PTuple xs \<Rightarrow> Inr xs | _ \<Rightarrow> Inl (Unmodelled ''events'')) (\<lambda>evs.
     bindr (case pget_or data ''minOccurrences'' (PInt 1) of PInt i \<Rightarrow> Inr i | _ \<Rightarrow> Inl (Unmodelled ''minOccurrences'')) (\<lambda>lo.
     bindr (case pget data ''maxOccurrences'' of
              PNone \<Rightarrow> Inr None | PInt i \<Rightarrow> Inr (Some i) | _ \<Rightarrow> Inl (Unmodelled ''maxOccurrences'')) (\<lambda>hi.
       Inr \<lparr>pd_pattern_id = get2 data ''id'' ''name'' (PStr []),
            pd_operator = get2 data ''operator'' ''type'' (PStr ''followed_by''),
            pd_events = evs,
            pd_time_window = por (pget data ''timeWindow'') (pget data ''within''),
            pd_min_occurrences = lo, pd_max_occurrences = hi,
            pd_correlation_keys = pget_or data ''correlationKeys'' (PDict [])\<rparr>)))"

definition event_type :: "event \<Rightarrow> pyval" where
  "event_type e = pget_or e ''type'' (PStr [])"

definition required_types :: "PatternDefinition \<Rightarrow> pyval list" where
  "required_types p =
     List.map_filter (\<lambda>v. case v of PDict e \<Rightarrow> Some (get2 e ''type'' ''event'' (PStr [])) | _ \<Rightarrow> None) (pd_events p)"

definition target_type :: "pyval \<Rightarrow> pyval result" where
  "target_type v =
     (case v of PDict e \<Rightarrow> Inr (get2 e ''type'' ''event'' (PStr [])) | _ \<Rightarrow> bindr (py_str v) (\<lambda>s. Inr (PStr s)))"

definition unmatched :: pydict where
  "unmatched = [(''matched'', PBool False)]"

definition match_result :: "bool \<Rightarrow> PatternDefinition \<Rightarrow> pydict \<Rightarrow> pydict" where
  "match_result b p rest = [(''matched'', PBool b), (''pattern_id'', pd_pattern_id p)] @ rest"

text \<open>The inner loop of \<open>_match_followed_by\<close>: the first event after position \<open>last_idx\<close> with the type.\<close>

fun find_after :: "pyval \<Rightarrow> int \<Rightarrow> nat \<Rightarrow> event list \<Rightarrow> (nat \<times> event) option" where
  "find_after ty last_idx i [] = None"
| "find_after ty last_idx i (e # es) =
     (if int i > last_idx \<and> event_type e = ty then Some (i, e) else find_after ty last_idx (Suc i) es)"

fun follow :: "event list \<Rightarrow> pyval list \<Rightarrow> int \<Rightarrow> pyval list \<Rightarrow> pyval list option" where
  "follow buffer [] last_idx ids = Some ids"
| "follow buffer (ty # tys) last_idx ids =
     (case find_after ty last_idx 0 buffer of
        None \<Rightarrow> None
      | Some (i, e) \<Rightarrow> follow buffer tys (int i) (ids @ [pget_or e ''id'' (PStr (dec i))]))"

definition match_followed_by :: "PatternDefinition \<Rightarrow> event list \<Rightarrow> pydict" where
  "match_followed_by p buffer =
     (if required_types p = [] then unmatched
      else case follow buffer (required_types p) (- 1) [] of
             None \<Rightarrow> unmatched
           | Some ids \<Rightarrow> match_result True p [(''events_matched'', PList ids)])"

fun match_or_loop :: "PatternDefinition \<Rightarrow> event list \<Rightarrow> pydict" where
  "match_or_loop p [] = unmatched"
| "match_or_loop p (e # es) =
     (if event_type e \<in> set (required_types p)
      then match_result True p [(''events_matched'', PList [pget_or e ''id'' (PStr [])])]
      else match_or_loop p es)"

definition match_and :: "PatternDefinition \<Rightarrow> event list \<Rightarrow> pydict" where
  "match_and p buffer =
     (let hits = filter (\<lambda>e. event_type e \<in> set (required_types p)) buffer;
          found_types = fold (\<lambda>e. sadd (event_type e)) hits []
      in match_result (set found_types = set (required_types p)) p
           [(''events_matched'', PList (map (\<lambda>e. pget_or e ''id'' (PStr [])) hits))])"

definition match_repeated :: "PatternDefinition \<Rightarrow> event list \<Rightarrow> pydict result" where
  "match_repeated p buffer =
     (case pd_events p of
        [] \<Rightarrow> Inr unmatched
      | v # _ \<Rightarrow> bindr (target_type v) (\<lambda>ty.
          (let n = int (length (filter (\<lambda>e. event_type e = ty) buffer));
               ok = (n \<ge> pd_min_occurrences p \<and> (case pd_max_occurrences p of None \<Rightarrow> True | Some hi \<Rightarrow> n \<le> hi))
           in Inr (match_result ok p [(''occurrences'', PInt n)]))))"

definition match_absence :: "PatternDefinition \<Rightarrow> event list \<Rightarrow> pydict result" where
  "match_absence p buffer =
     (case pd_events p of
        [] \<Rightarrow> Inr [(''matched'', PBool True)]
      | v # _ \<Rightarrow> bindr (target_type v) (\<lambda>ty. Inr (match_result (\<not> list_ex (\<lambda>e. event_type e = ty) buffer) p [])))"

text \<open>
  The matchers compare types and collect them in sets, which the annotations declare as sets of strings; a type
  of another kind (some of them compare equal across kinds, others have no hash) is outside the model.
\<close>

definition is_text :: "pyval \<Rightarrow> bool" where
  "is_text v = (case v of PStr s \<Rightarrow> True | _ \<Rightarrow> False)"

definition string_types :: "PatternDefinition \<Rightarrow> event list \<Rightarrow> bool" where
  "string_types p buffer \<longleftrightarrow> list_all is_text (required_types p) \<and> list_all (\<lambda>e. is_text (event_type e)) buffer"

definition evaluate_pattern :: "PatternDefinition \<Rightarrow> event list \<Rightarrow> pydict result" where
  "evaluate_pattern p buffer =
     (if \<not> string_types p buffer then Inl (Unmodelled ''type'')
      else if pd_operator p = PStr ''followed_by'' then Inr (match_followed_by p buffer)
      else if pd_operator p = PStr ''or'' then Inr (match_or_loop p buffer)
      else if pd_operator p = PStr ''and'' then Inr (match_and p buffer)
      else if pd_operator p = PStr ''repeated'' then match_repeated p buffer
      else if pd_operator p = PStr ''absence'' then match_absence p buffer
      else if pd_operator p = PStr ''existence'' then Inr (match_or_loop p buffer)
      else Inr (match_followed_by p buffer))"

definition evaluate_data :: "pydict \<Rightarrow> string \<Rightarrow> PatternMatcher \<Rightarrow> pydict result" where
  "evaluate_data data iid m = bindr (normalize_pattern data) (\<lambda>p. evaluate_pattern p (get_buffer iid m))"

subsection \<open>Windows keep the last events\<close>

definition push_all :: "string \<Rightarrow> event list \<Rightarrow> WindowManager \<Rightarrow> WindowManager" where
  "push_all wid es m = fold (\<lambda>e m. snd (push wid e ''time'' ''1 minute'' m)) es m"

lemma push_known:
  assumes "dget (wm_windows m) wid = Some st" "dget (wm_definitions m) wid = Some d"
  shows "push wid e ty sz m =
    (let evs = trim (wd_max_count d) (ws_events st @ [e])
     in (evs, m\<lparr>wm_windows := dset wid (st\<lparr>ws_events := evs, ws_version := ws_version st + 1\<rparr>) (wm_windows m)\<rparr>))"
  using assms by (simp add: push_def ensure_window_def has_key_def Let_def)

text \<open>The window of size \<open>n\<close> over a sequence, cut after every event, is the sequence's last \<open>n\<close> events.\<close>

lemma trim_last:
  assumes "0 < n"
  shows "trim (Some n) (drop (length es - nat n) es @ [e]) = drop (Suc (length es) - nat n) (es @ [e])"
proof (cases "nat n \<le> length es")
  case True
  then have "trim (Some n) (drop (length es - nat n) es @ [e]) = drop 1 (drop (length es - nat n) es @ [e])"
    using assms by (simp add: trim_def slice_last_def)
  also have "\<dots> = drop (Suc (length es) - nat n) (es @ [e])"
    using True assms by (simp add: Suc_diff_le drop_Suc tl_drop)
  finally show ?thesis .
next
  case False
  then have "int (length es) + 1 \<le> n" using assms by linarith
  with False show ?thesis by (simp add: trim_def)
qed

lemma push_all_events:
  assumes "dget (wm_windows m) wid = Some st" "ws_events st = []" "dget (wm_definitions m) wid = Some d"
  shows "\<exists>st'. dget (wm_windows (push_all wid es m)) wid = Some st' \<and> dget (wm_definitions (push_all wid es m)) wid = Some d \<and>
    ws_version st' = ws_version st + length es \<and>
    (\<forall>n. wd_max_count d = Some n \<longrightarrow> 0 < n \<longrightarrow> ws_events st' = drop (length es - nat n) es) \<and>
    (wd_max_count d = None \<or> wd_max_count d = Some 0 \<longrightarrow> ws_events st' = es)"
proof (induction es rule: rev_induct)
  case Nil
  then show ?case using assms by (simp add: push_all_def)
next
  case (snoc e es)
  obtain st' where st': "dget (wm_windows (push_all wid es m)) wid = Some st'" "dget (wm_definitions (push_all wid es m)) wid = Some d"
    "ws_version st' = ws_version st + length es"
    "\<And>n. wd_max_count d = Some n \<Longrightarrow> 0 < n \<Longrightarrow> ws_events st' = drop (length es - nat n) es"
    "wd_max_count d = None \<or> wd_max_count d = Some 0 \<Longrightarrow> ws_events st' = es"
    using snoc by blast
  have step: "push_all wid (es @ [e]) m = snd (push wid e ''time'' ''1 minute'' (push_all wid es m))" by (simp add: push_all_def)
  let ?evs = "trim (wd_max_count d) (ws_events st' @ [e])"
  have "?evs = drop (length (es @ [e]) - nat n) (es @ [e])" if "wd_max_count d = Some n" "0 < n" for n
    using trim_last [OF that(2), of es e] st'(4) [OF that] that by simp
  moreover have "?evs = es @ [e]" if "wd_max_count d = None \<or> wd_max_count d = Some 0"
    using st'(5) [OF that] that by (auto simp: trim_def slice_last_def)
  ultimately show ?case
    unfolding step push_known [OF st'(1,2)] using st'(2,3) by (cases "wd_max_count d") (auto simp: Let_def)
qed

subsection \<open>What a pattern means\<close>

lemma find_after_ge: "find_after ty last_idx i es = Some (j, e) \<Longrightarrow> i \<le> j"
  by (induction es arbitrary: i) (auto split: if_splits dest: Suc_leD)

lemma find_after_subseq:
  "subseq (ty # tys) (map event_type (drop (nat (last_idx + 1 - int i)) es)) \<longleftrightarrow>
     (\<exists>j e. find_after ty last_idx i es = Some (j, e) \<and> i \<le> j \<and> subseq tys (map event_type (drop (Suc j - i) es)))"
proof (induction es arbitrary: i)
  case (Cons e es)
  show ?case
  proof (cases "int i > last_idx")
    case True
    then have z: "nat (last_idx + 1 - int i) = 0" "nat (last_idx + 1 - int (Suc i)) = 0" by simp_all
    show ?thesis
    proof (cases "event_type e = ty")
      case False
      then show ?thesis
        using Cons.IH [of "Suc i"] True z by (auto simp: Suc_diff_le dest: find_after_ge)
    qed (use True z in simp)
  next
    case False
    then have "nat (last_idx + 1 - int i) = Suc (nat (last_idx + 1 - int (Suc i)))" by simp
    then show ?thesis using Cons.IH [of "Suc i"] False by (auto simp: Suc_diff_le dest: find_after_ge)
  qed
qed simp

lemma follow_subseq:
  "follow buffer tys last_idx ids \<noteq> None \<longleftrightarrow> subseq tys (map event_type (drop (nat (last_idx + 1)) buffer))"
proof (induction tys arbitrary: last_idx ids)
  case (Cons ty tys)
  show ?case
  proof (cases "find_after ty last_idx 0 buffer")
    case None
    then show ?thesis using find_after_subseq [of ty tys last_idx 0 buffer] by simp
  next
    case (Some p)
    obtain j e where p: "p = (j, e)" by fastforce
    have "nat (int j + 1) = Suc j" by simp
    then show ?thesis
      using find_after_subseq [of ty tys last_idx 0 buffer] Some p Cons.IH [of "int j"] by (simp del: not_None_eq)
  qed
qed simp

definition matched :: "pydict \<Rightarrow> bool" where
  "matched r = (pget r ''matched'' = PBool True)"

lemma matched_simps [simp]:
  "\<not> matched unmatched" "matched (match_result b p rest) = b"
  by (simp_all add: matched_def unmatched_def match_result_def payload_simps)

lemma match_followed_by_iff:
  "matched (match_followed_by p buffer) \<longleftrightarrow> required_types p \<noteq> [] \<and> subseq (required_types p) (map event_type buffer)"
  using follow_subseq [of buffer "required_types p" "- 1" "[]"] by (auto simp: match_followed_by_def split: option.split)

lemma match_or_iff:
  "matched (match_or_loop p buffer) \<longleftrightarrow> (\<exists>ty \<in> set (required_types p). ty \<in> event_type ` set buffer)"
  by (induction buffer) auto

lemma match_and_iff:
  "matched (match_and p buffer) \<longleftrightarrow> set (required_types p) \<subseteq> event_type ` set buffer"
proof -
  have "set (fold (\<lambda>e. sadd (event_type e)) es acc) = set acc \<union> event_type ` set es" for es acc
    by (induction es arbitrary: acc) auto
  then show ?thesis by (auto simp: match_and_def Let_def)
qed

subsection \<open>Properties\<close>

text \<open>
  C30: What a pattern means on the buffer of an instance.  A sequence (\<open>followed_by\<close>) matches exactly when
  its types are a subsequence of the types of the buffered events, although the matcher only ever takes
  the earliest candidate; \<open>or\<close> and \<open>existence\<close> when one of the types occurs; \<open>and\<close> when all of them do;
  \<open>repeated\<close> when the number of occurrences is within the bounds; \<open>absence\<close> when the type does not occur.
\<close>

theorem pattern_meaning:
  assumes "get_buffer iid m = buffer" and "normalize_pattern data = Inr p"
    and "pd_operator p = PStr op" and "required_types p = ty # tys" and "pd_events p = PDict d # rest"
    and "string_types p buffer"
  shows "\<exists>r. evaluate_data data iid m = Inr r \<and>
    (op = ''followed_by'' \<longrightarrow> (matched r \<longleftrightarrow> subseq (ty # tys) (map event_type buffer))) \<and>
    (op = ''or'' \<or> op = ''existence'' \<longrightarrow> (matched r \<longleftrightarrow> (\<exists>x \<in> set (ty # tys). x \<in> event_type ` set buffer))) \<and>
    (op = ''and'' \<longrightarrow> (matched r \<longleftrightarrow> set (ty # tys) \<subseteq> event_type ` set buffer)) \<and>
    (op = ''repeated'' \<longrightarrow> (matched r \<longleftrightarrow> pd_min_occurrences p \<le> int (count_list (map event_type buffer) ty) \<and>
       (\<forall>hi. pd_max_occurrences p = Some hi \<longrightarrow> int (count_list (map event_type buffer) ty) \<le> hi))) \<and>
    (op = ''absence'' \<longrightarrow> (matched r \<longleftrightarrow> ty \<notin> event_type ` set buffer))"
proof -
  have ty: "target_type (PDict d) = Inr ty"
    using assms(4,5) by (simp add: required_types_def target_type_def List.map_filter_simps)
  have count: "length (filter (\<lambda>e. event_type e = ty) buffer) = count_list (map event_type buffer) ty"
    by (induction buffer) auto
  obtain r1 where r1: "match_repeated p buffer = Inr r1" "matched r1 \<longleftrightarrow> pd_min_occurrences p \<le> int (count_list (map event_type buffer) ty) \<and>
       (\<forall>hi. pd_max_occurrences p = Some hi \<longrightarrow> int (count_list (map event_type buffer) ty) \<le> hi)"
    using assms(5) ty by (auto simp: match_repeated_def Let_def count split: option.splits)
  obtain r2 where r2: "match_absence p buffer = Inr r2" "matched r2 \<longleftrightarrow> ty \<notin> event_type ` set buffer"
    using assms(5) ty by (auto simp: match_absence_def list_ex_iff)
  have r3: "matched (match_followed_by p buffer) \<longleftrightarrow> subseq (ty # tys) (map event_type buffer)"
    "matched (match_or_loop p buffer) \<longleftrightarrow> (\<exists>x \<in> set (ty # tys). x \<in> event_type ` set buffer)"
    "matched (match_and p buffer) \<longleftrightarrow> set (ty # tys) \<subseteq> event_type ` set buffer"
    by (simp_all only: match_followed_by_iff match_or_iff match_and_iff assms(4)) simp
  have ev: "evaluate_data data iid m = evaluate_pattern p buffer" using assms(1,2) by (simp add: evaluate_data_def)
  consider "op = ''followed_by''" | "op = ''or'' \<or> op = ''existence''" | "op = ''and''" | "op = ''repeated''" | "op = ''absence''"
    | "op \<notin> {''followed_by'', ''or'', ''existence'', ''and'', ''repeated'', ''absence''}" by auto
  then show ?thesis
    by cases (auto simp: ev evaluate_pattern_def assms(3,6) r1 r2 r3 simp del: list.set)
qed

definition demo_pattern :: pydict where
  "demo_pattern = [(''operator'', PStr ''followed_by''),
     (''events'', PList [PDict [(''type'', PStr ''a'')], PDict [(''event'', PStr ''b'')]])]"

theorem pattern_meaning_witness:
  "\<exists>r. evaluate_data demo_pattern ''i'' (feed_event ''i'' [(''type'', PStr ''b'')] (feed_event ''i'' [(''type'', PStr ''x'')]
     (feed_event ''i'' [(''type'', PStr ''a'')] pattern_matcher_init))) = Inr r \<and> matched r"
proof -
  let ?m = "feed_event ''i'' [(''type'', PStr ''b'')] (feed_event ''i'' [(''type'', PStr ''x'')]
     (feed_event ''i'' [(''type'', PStr ''a'')] pattern_matcher_init))"
  let ?buf = "[[(''type'', PStr ''a'')], [(''type'', PStr ''x'')], [(''type'', PStr ''b'')]]"
  let ?evs = "[PDict [(''type'', PStr ''a'')], PDict [(''event'', PStr ''b'')]]"
  let ?p = "\<lparr>pd_pattern_id = PStr [], pd_operator = PStr ''followed_by'', pd_events = ?evs, pd_time_window = PNone,
    pd_min_occurrences = 1, pd_max_occurrences = None, pd_correlation_keys = PDict []\<rparr>"
  have b: "get_buffer ''i'' ?m = ?buf"
    by (simp add: get_buffer_def feed_event_def pattern_matcher_init_def) (simp add: dget_or_def)
  have p: "normalize_pattern demo_pattern = Inr ?p"
    by (simp add: normalize_pattern_def demo_pattern_def get2_def payload_simps por_def)
  have t: "required_types ?p = [PStr ''a'', PStr ''b'']"
    by (simp add: required_types_def List.map_filter_simps get2_def payload_simps)
  have s: "string_types ?p ?buf" by (simp add: string_types_def is_text_def t event_type_def payload_simps)
  from pattern_meaning [OF b p, of "''followed_by''" "PStr ''a''" "[PStr ''b'']"] t s show ?thesis
    by (simp add: event_type_def payload_simps)
qed

text \<open>
  C34: A configured count window holds the last \<open>max_count\<close> events pushed into it, in order, and counts
  every push in its version.  A \<open>max_count\<close> of zero does not bound the window: the slice \<open>events[-0:]\<close> is
  the whole list.
\<close>

theorem window_holds_last_events:
  assumes "configure_window iid cfg m = (d, m')"
  shows "(\<forall>n. wc_max_count cfg = Some n \<longrightarrow> 0 < n \<longrightarrow>
      get_events (wd_window_id d) (push_all (wd_window_id d) es m') = drop (length es - nat n) es) \<and>
    (wc_max_count cfg = None \<or> wc_max_count cfg = Some 0 \<longrightarrow> get_events (wd_window_id d) (push_all (wd_window_id d) es m') = es) \<and>
    map_option ws_version (get_window (wd_window_id d) (push_all (wd_window_id d) es m')) = Some (Suc (length es))"
proof -
  have "dget (wm_windows m') (wd_window_id d) = Some (new_window (wd_window_id d))" "dget (wm_definitions m') (wd_window_id d) = Some d"
    "wd_max_count d = wc_max_count cfg"
    using assms by (auto simp: configure_window_def Let_def)
  with push_all_events [of m' "wd_window_id d" "new_window (wd_window_id d)" d es] show ?thesis
    by (auto simp: get_events_def get_window_def new_window_def)
qed

theorem window_holds_last_events_witness:
  "get_events ''w'' (push_all ''w'' [[], [], []] (snd (configure_window ''i''
     \<lparr>wc_id = Some ''w'', wc_type = None, wc_size = None, wc_window_size = None, wc_slide = None, wc_session_gap = None,
      wc_max_count = Some 2\<rparr> window_manager_init))) = [[], []]"
  using window_holds_last_events [OF prod.collapse [symmetric], where iid = "''i''" and cfg = "\<lparr>wc_id = Some ''w'', wc_type = None, wc_size = None,
      wc_window_size = None, wc_slide = None, wc_session_gap = None, wc_max_count = Some 2\<rparr>" and m = window_manager_init and es = "[[], [], []]"]
  by (simp add: configure_window_def Let_def)

end
