(* ===== verification/RuntimeManagers.thy ===== *)
theory RuntimeManagers
  imports Contexts
begin

section \<open>State, variables, incidents and snapshots\<close>

text \<open>
  The small managers that the engine owns: \<open>runtime/state_manager.py\<close>, \<open>runtime/variable_manager.py\<close>,
  \<open>runtime/incident_manager.py\<close>, \<open>runtime/state_snapshot.py\<close> and \<open>runtime/tenant.py\<close>.  Their locks make
  each method one step.  The state manager is modelled in its default configuration, without storage
  adapters; \<open>persist_snapshot\<close> still serialises the snapshot with the document library, and \<open>ser\<close> stands for
  the exception that this may raise.
\<close>

subsection \<open>StateManager\<close>

record InstanceStateSnapshot =
  ss_instance_id :: string
  ss_state :: string
  ss_created_at :: datetime
  ss_updated_at :: datetime
  ss_data :: pydict

record StateManager =
  sm_states :: "(string, InstanceStateSnapshot) dict"
  sm_history :: "(string, InstanceStateSnapshot list) dict"

definition state_manager_init :: StateManager where
  "state_manager_init = \<lparr>sm_states = [], sm_history = []\<rparr>"

definition sm_get :: "string \<Rightarrow> StateManager \<Rightarrow> InstanceStateSnapshot option" where
  "sm_get iid m = dget (sm_states m) iid"

definition sm_set :: "datetime \<Rightarrow> string \<Rightarrow> string \<Rightarrow> pydict option \<Rightarrow> StateManager \<Rightarrow> InstanceStateSnapshot \<times> StateManager" where
  "sm_set now iid st data m =
     (let created = (case dget (sm_states m) iid of None \<Rightarrow> now | Some old \<Rightarrow> ss_created_at old);
          snap = \<lparr>ss_instance_id = iid, ss_state = st, ss_created_at = created, ss_updated_at = now,
                  ss_data = (case data of None \<Rightarrow> [] | Some d \<Rightarrow> d)\<rparr>
      in (snap, m\<lparr>sm_states := dset iid snap (sm_states m), sm_history := append_to iid snap (sm_history m)\<rparr>))"

definition sm_set_persisted ::
  "(InstanceStateSnapshot \<Rightarrow> py_error option) \<Rightarrow> datetime \<Rightarrow> string \<Rightarrow> string \<Rightarrow> pydict option \<Rightarrow> StateManager \<Rightarrow> StateManager outcome" where
  "sm_set_persisted ser now iid st data m = (case sm_set now iid st data m of (snap, m1) \<Rightarrow> (ser snap, m1))"

definition sm_delete :: "string \<Rightarrow> StateManager \<Rightarrow> StateManager" where
  "sm_delete iid m = m\<lparr>sm_states := ddel iid (sm_states m)\<rparr>"

definition sm_history_of :: "string \<Rightarrow> StateManager \<Rightarrow> InstanceStateSnapshot list" where
  "sm_history_of iid m = dget_or (sm_history m) iid []"

definition sm_clear :: "StateManager \<Rightarrow> StateManager" where
  "sm_clear m = m\<lparr>sm_states := [], sm_history := []\<rparr>"

definition sm_load_persisted :: "string \<Rightarrow> StateManager \<Rightarrow> InstanceStateSnapshot option" where
  "sm_load_persisted iid m = sm_get iid m"

subsection \<open>VariableManager\<close>

text \<open>
  One flat dict of variables.  \<open>VariableConflictError\<close> is a frozen dataclass without fields: its generated
  constructor takes no argument, so raising it with a message raises a \<open>TypeError\<close>.
\<close>

record VariableManager =
  vm_vars :: pydict
  vm_repository :: "repo option"

definition variable_manager_init :: "repo option \<Rightarrow> VariableManager" where
  "variable_manager_init rep = \<lparr>vm_vars = [], vm_repository = rep\<rparr>"

definition vm_get :: "string \<Rightarrow> pyval \<Rightarrow> VariableManager \<Rightarrow> pyval" where
  "vm_get name v m = pget_or (vm_vars m) name v"

definition vm_set :: "string \<Rightarrow> pyval \<Rightarrow> bool \<Rightarrow> VariableManager \<Rightarrow> VariableManager outcome" where
  "vm_set name v overwrite m =
     (if \<not> overwrite \<and> has_key (vm_vars m) name
      then (Some (TypeError ''VariableConflictError.__init__() takes 1 positional argument but 2 were given''), m)
      else (None, m\<lparr>vm_vars := dset name v (vm_vars m)\<rparr>))"

text \<open>\<open>type(value).__name__\<close>; the name of another object's class is not known.\<close>

fun type_name :: "pyval \<Rightarrow> string result" where
  "type_name PNone = Inr ''NoneType''"
| "type_name (PBool b) = Inr ''bool''"
| "type_name (PInt i) = Inr ''int''"
| "type_name (PFloat f) = Inr ''float''"
| "type_name (PStr s) = Inr ''str''"
| "type_name (PBytes s) = Inr ''bytes''"
| "type_name (PList xs) = Inr ''list''"
| "type_name (PTuple xs) = Inr ''tuple''"
| "type_name (PDict d) = Inr ''dict''"
| "type_name (PTime t) = Inr ''datetime''"
| "type_name (PObj i) = Inl (Unmodelled ''type'')"

definition variable_payload :: "string \<Rightarrow> string \<Rightarrow> string \<Rightarrow> pyval \<Rightarrow> string \<Rightarrow> pydict option \<Rightarrow> pydict" where
  "variable_payload iid scope name v ty metadata =
     (let meta = (case metadata of None \<Rightarrow> [] | Some d \<Rightarrow> d); updated = pget meta ''updated_at'';
          base = [(''instance_id'', PStr iid), (''scope_id'', PStr scope), (''name'', PStr name), (''value'', v),
                  (''value_type'', PStr ty)]
      in if updated = PNone then base @ [(''payload'', PDict meta)]
         else base @ [(''updated_at'', updated), (''payload'', PDict meta)])"

definition variable_key :: "string \<Rightarrow> string \<Rightarrow> string \<Rightarrow> string" where
  "variable_key iid scope name = iid @ '':'' @ scope @ '':'' @ name"

definition vm_set_persisted ::
  "datetime \<Rightarrow> string \<Rightarrow> string \<Rightarrow> string \<Rightarrow> string \<Rightarrow> pyval \<Rightarrow> string option \<Rightarrow> bool \<Rightarrow> pydict option \<Rightarrow> VariableManager
    \<Rightarrow> VariableManager outcome" where
  "vm_set_persisted now uuid iid scope name v ty overwrite metadata m =
     (case vm_set name v overwrite m of
        (Some e, m1) \<Rightarrow> (Some e, m1)
      | (None, m1) \<Rightarrow>
          (case vm_repository m1 of
             None \<Rightarrow> (None, m1)
           | Some r \<Rightarrow>
               (case (case ty of None \<Rightarrow> type_name v | Some t \<Rightarrow> if t = [] then type_name v else Inr t) of
                  Inl e \<Rightarrow> (Some e, m1)
                | Inr t \<Rightarrow>
                    (case variable_save_persisted now uuid (variable_key iid scope name) (variable_payload iid scope name v t metadata) r of
                       (err, r') \<Rightarrow> (err, m1\<lparr>vm_repository := Some r'\<rparr>)))))"

definition vm_pop :: "string \<Rightarrow> VariableManager \<Rightarrow> pyval result \<times> VariableManager" where
  "vm_pop name m =
     (case dget (vm_vars m) name of
        None \<Rightarrow> (Inl (KeyError name), m)
      | Some v \<Rightarrow> (Inr v, m\<lparr>vm_vars := ddel name (vm_vars m)\<rparr>))"

definition vm_pop_persisted :: "string \<Rightarrow> string \<Rightarrow> string \<Rightarrow> VariableManager \<Rightarrow> pyval result \<times> VariableManager" where
  "vm_pop_persisted iid scope name m =
     (case vm_pop name m of
        (Inl e, m1) \<Rightarrow> (Inl e, m1)
      | (Inr v, m1) \<Rightarrow>
          (Inr v, m1\<lparr>vm_repository := map_option (\<lambda>r. snd (delete_persisted (variable_key iid scope name) r)) (vm_repository m1)\<rparr>))"

definition vm_restore :: "pydict \<Rightarrow> VariableManager \<Rightarrow> VariableManager" where
  "vm_restore values m = m\<lparr>vm_vars := values\<rparr>"

definition vm_clear :: "VariableManager \<Rightarrow> VariableManager" where
  "vm_clear m = m\<lparr>vm_vars := []\<rparr>"

text \<open>\<open>{str(row["name"]): row.get("value") for row in rows if "name" in row}\<close>\<close>

fun restored_values :: "pydict list \<Rightarrow> pydict \<Rightarrow> pydict result" where
  "restored_values [] acc = Inr acc"
| "restored_values (row # rows) acc =
     (case dget row ''name'' of
        None \<Rightarrow> restored_values rows acc
      | Some n \<Rightarrow> bindr (py_str n) (\<lambda>s. restored_values rows (dset s (pget row ''value'') acc)))"

definition vm_restore_persisted :: "string \<Rightarrow> string option \<Rightarrow> VariableManager \<Rightarrow> pydict result \<times> VariableManager" where
  "vm_restore_persisted iid scope m =
     (case vm_repository m of
        None \<Rightarrow> (Inr (vm_vars m), m)
      | Some r \<Rightarrow>
          (case restored_values (case scope of None \<Rightarrow> get_by_instance iid r | Some s \<Rightarrow> get_by_scope iid s r) [] of
             Inl e \<Rightarrow> (Inl e, m)
           | Inr values \<Rightarrow> (Inr values, vm_restore values m)))"

subsection \<open>IncidentManager\<close>

datatype IncidentState = OPEN | RETRYING | RESOLVED | DEAD_LETTER | CANCELLED

fun incident_state_value :: "IncidentState \<Rightarrow> string" where
  "incident_state_value OPEN = ''open''"
| "incident_state_value RETRYING = ''retrying''"
| "incident_state_value RESOLVED = ''resolved''"
| "incident_state_value DEAD_LETTER = ''dead_letter''"
| "incident_state_value CANCELLED = ''cancelled''"

record Incident =
  in_incident_id :: string
  in_incident_type :: string
  in_instance_id :: string
  in_activity_id :: "string option"
  in_error_message :: string
  in_error_stack :: string
  in_state :: IncidentState
  in_retry_count :: int
  in_max_retries :: int
  in_created_at :: string
  in_last_occurrence :: string
  in_resolved_at :: "string option"
  in_resolution :: "string option"
  in_job_id :: "string option"
  in_metadata :: pydict

record IncidentQuery =
  iq_instance_id :: "string option"
  iq_incident_type :: "string option"
  iq_state :: "IncidentState option"
  iq_created_after :: "string option"
  iq_created_before :: "string option"
  iq_limit :: int
  iq_offset :: int

text \<open>The policy's delays are computed with random jitter in floats and not used by the manager.\<close>

record IncidentManager =
  nm_max_retries :: int
  nm_incidents :: "(string, Incident) dict"
  nm_instance_incidents :: "(string, string list) dict"
  nm_dead_letter_queue :: "string list"

definition incident_manager_init :: "int \<Rightarrow> IncidentManager" where
  "incident_manager_init retries =
     \<lparr>nm_max_retries = retries, nm_incidents = [], nm_instance_incidents = [], nm_dead_letter_queue = []\<rparr>"

definition inc_create ::
  "datetime \<Rightarrow> string \<Rightarrow> string \<Rightarrow> string \<Rightarrow> string \<Rightarrow> string option \<Rightarrow> string \<Rightarrow> int option \<Rightarrow> string option \<Rightarrow> pydict option
    \<Rightarrow> IncidentManager \<Rightarrow> Incident \<times> IncidentManager" where
  "inc_create now uuid ty iid msg aid stack retries job metadata m =
     (let i = \<lparr>in_incident_id = uuid, in_incident_type = ty, in_instance_id = iid, in_activity_id = aid,
               in_error_message = msg, in_error_stack = stack, in_state = OPEN, in_retry_count = 0,
               in_max_retries = (case retries of None \<Rightarrow> nm_max_retries m | Some n \<Rightarrow> n),
               in_created_at = isoformat now, in_last_occurrence = isoformat now, in_resolved_at = None,
               in_resolution = None, in_job_id = job, in_metadata = (case metadata of None \<Rightarrow> [] | Some d \<Rightarrow> d)\<rparr>
      in (i, m\<lparr>nm_incidents := dset uuid i (nm_incidents m),
               nm_instance_incidents := append_to iid uuid (nm_instance_incidents m)\<rparr>))"

definition inc_update :: "(Incident \<Rightarrow> Incident) \<Rightarrow> string \<Rightarrow> IncidentManager \<Rightarrow> Incident option \<times> IncidentManager" where
  "inc_update f k m =
     (case dget (nm_incidents m) k of
        None \<Rightarrow> (None, m)
      | Some i \<Rightarrow> (Some (f i), m\<lparr>nm_incidents := dset k (f i) (nm_incidents m)\<rparr>))"

definition inc_resolve :: "datetime \<Rightarrow> string \<Rightarrow> string \<Rightarrow> IncidentManager \<Rightarrow> Incident option \<times> IncidentManager" where
  "inc_resolve now resolution =
     inc_update (\<lambda>i. i\<lparr>in_state := RESOLVED, in_resolved_at := Some (isoformat now), in_resolution := Some resolution\<rparr>)"

definition inc_cancel :: "datetime \<Rightarrow> string \<Rightarrow> IncidentManager \<Rightarrow> Incident option \<times> IncidentManager" where
  "inc_cancel now = inc_update (\<lambda>i. i\<lparr>in_state := CANCELLED, in_resolved_at := Some (isoformat now)\<rparr>)"

definition move_to_dead_letter :: "string \<Rightarrow> IncidentManager \<Rightarrow> Incident option \<times> IncidentManager" where
  "move_to_dead_letter k m =
     (case inc_update (\<lambda>i. i\<lparr>in_state := DEAD_LETTER\<rparr>) k m of
        (None, m1) \<Rightarrow> (None, m1)
      | (Some i, m1) \<Rightarrow> (Some i, m1\<lparr>nm_dead_letter_queue := nm_dead_letter_queue m1 @ [k]\<rparr>))"

definition get_incident :: "string \<Rightarrow> IncidentManager \<Rightarrow> Incident option" where
  "get_incident k m = dget (nm_incidents m) k"

text \<open>The filters of a query; a stable sort in descending order keeps the order of equal keys.\<close>

definition incident_selected :: "IncidentQuery \<Rightarrow> Incident \<Rightarrow> bool" where
  "incident_selected q i \<longleftrightarrow>
     given (iq_instance_id q) (\<lambda>s. in_instance_id i = s) \<and>
     given (iq_incident_type q) (\<lambda>s. in_incident_type i = s) \<and>
     (case iq_state q of None \<Rightarrow> True | Some s \<Rightarrow> in_state i = s) \<and>
     given (iq_created_after q) (\<lambda>s. \<not> in_created_at i < s) \<and>
     given (iq_created_before q) (\<lambda>s. \<not> in_created_at i > s)"

definition query_incidents :: "IncidentQuery \<Rightarrow> IncidentManager \<Rightarrow> Incident list" where
  "query_incidents q m =
     py_slice (iq_offset q) (iq_offset q + iq_limit q)
       (rev (sort_key in_created_at (rev (filter (incident_selected q) (dvals (nm_incidents m))))))"

definition get_open_incidents :: "string option \<Rightarrow> IncidentManager \<Rightarrow> Incident list" where
  "get_open_incidents iid =
     query_incidents \<lparr>iq_instance_id = iid, iq_incident_type = None, iq_state = Some OPEN, iq_created_after = None,
       iq_created_before = None, iq_limit = 10000, iq_offset = 0\<rparr>"

definition get_dead_letter_incidents :: "IncidentManager \<Rightarrow> Incident list" where
  "get_dead_letter_incidents m = select (nm_incidents m) (nm_dead_letter_queue m)"

definition clear_instance_incidents :: "string \<Rightarrow> IncidentManager \<Rightarrow> nat \<times> IncidentManager" where
  "clear_instance_incidents iid m =
     (let ids = dget_or (nm_instance_incidents m) iid [];
          (n, incs) = fold (\<lambda>k (n, incs). if has_key incs k then (Suc n, ddel k incs) else (n, incs)) ids (0, nm_incidents m)
      in (n, m\<lparr>nm_incidents := incs, nm_instance_incidents := ddel iid (nm_instance_incidents m)\<rparr>))"

definition inc_get_statistics :: "IncidentManager \<Rightarrow> (string, nat) dict" where
  "inc_get_statistics m =
     dset ''total'' (length (nm_incidents m))
       (dset ''dead_letter'' (length (nm_dead_letter_queue m))
          (tally (map (incident_state_value \<circ> in_state) (dvals (nm_incidents m)))))"

subsection \<open>StateSnapshotManager\<close>

text \<open>
  \<open>digest\<close> is \<open>compute_hash\<close>: the SHA-256 of the JSON text of variables, tokens and activity.
\<close>

record StateSnapshot =
  sn_snapshot_id :: string
  sn_instance_id :: string
  sn_engine_id :: string
  sn_state_hash :: string
  sn_process_state :: pydict
  sn_variables :: pydict
  sn_tokens :: "pydict list"
  sn_current_activity_id :: "string option"
  sn_created_at :: string
  sn_version :: int
  sn_checkpoint_type :: string

record StateSnapshotManager =
  sp_max_snapshots_per_instance :: int
  sp_snapshots :: "(string, StateSnapshot list) dict"
  sp_latest :: "(string, StateSnapshot) dict"

definition snapshot_manager_init :: "int \<Rightarrow> StateSnapshotManager" where
  "snapshot_manager_init n = \<lparr>sp_max_snapshots_per_instance = n, sp_snapshots = [], sp_latest = []\<rparr>"

definition create_state_snapshot ::
  "(pydict \<Rightarrow> pydict list \<Rightarrow> string option \<Rightarrow> string) \<Rightarrow> datetime \<Rightarrow> string \<Rightarrow> string \<Rightarrow> pydict \<Rightarrow> pydict \<Rightarrow> pydict list
    \<Rightarrow> string option \<Rightarrow> string \<Rightarrow> string \<Rightarrow> StateSnapshotManager \<Rightarrow> StateSnapshot \<times> StateSnapshotManager" where
  "create_state_snapshot digest now uuid iid pstate vars toks aid eid ty m =
     (let s = \<lparr>sn_snapshot_id = uuid, sn_instance_id = iid, sn_engine_id = eid, sn_state_hash = digest vars toks aid,
               sn_process_state = pstate, sn_variables = vars, sn_tokens = toks, sn_current_activity_id = aid,
               sn_created_at = isoformat now, sn_version = 1, sn_checkpoint_type = ty\<rparr>;
          n = sp_max_snapshots_per_instance m;
          all = dget_or (sp_snapshots m) iid [] @ [s];
          kept = (if int (length all) > n then slice_last n all else all)
      in (s, m\<lparr>sp_snapshots := dset iid kept (sp_snapshots m), sp_latest := dset iid s (sp_latest m)\<rparr>))"

definition get_latest_snapshot :: "string \<Rightarrow> StateSnapshotManager \<Rightarrow> StateSnapshot option" where
  "get_latest_snapshot iid m = dget (sp_latest m) iid"

definition get_snapshots :: "string \<Rightarrow> StateSnapshotManager \<Rightarrow> StateSnapshot list" where
  "get_snapshots iid m = dget_or (sp_snapshots m) iid []"

definition restore_from_snapshot :: "StateSnapshot \<Rightarrow> pydict" where
  "restore_from_snapshot s =
     [(''instance_id'', PStr (sn_instance_id s)), (''process_state'', PDict (sn_process_state s)),
      (''variables'', PDict (sn_variables s)), (''tokens'', PList (map PDict (sn_tokens s))),
      (''current_activity_id'', (case sn_current_activity_id s of None \<Rightarrow> PNone | Some a \<Rightarrow> PStr a)),
      (''version'', PInt (sn_version s))]"

definition restore_latest :: "string \<Rightarrow> StateSnapshotManager \<Rightarrow> pydict option" where
  "restore_latest iid m = map_option restore_from_snapshot (dget (sp_latest m) iid)"

definition clear_instance_snapshots :: "string \<Rightarrow> StateSnapshotManager \<Rightarrow> nat \<times> StateSnapshotManager" where
  "clear_instance_snapshots iid m =
     (length (dget_or (sp_snapshots m) iid []),
      m\<lparr>sp_snapshots := ddel iid (sp_snapshots m), sp_latest := ddel iid (sp_latest m)\<rparr>)"

definition compare_snapshots :: "StateSnapshot \<Rightarrow> StateSnapshot \<Rightarrow> (string, bool) dict" where
  "compare_snapshots a b =
     [(''same_variables'', sn_variables a = sn_variables b), (''same_tokens'', sn_tokens a = sn_tokens b),
      (''same_activity'', sn_current_activity_id a = sn_current_activity_id b),
      (''same_hash'', sn_state_hash a = sn_state_hash b)]"

definition snapshot_get_statistics :: "StateSnapshotManager \<Rightarrow> (string, nat) dict" where
  "snapshot_get_statistics m =
     [(''total_snapshots'', sum_list (map length (dvals (sp_snapshots m)))),
      (''instances_with_snapshots'', length (sp_snapshots m)), (''latest_snapshots'', length (sp_latest m))]"

subsection \<open>TenantManager\<close>

record TenantInfo =
  tn_tenant_id :: string
  tn_name :: "string option"
  tn_description :: "string option"
  tn_is_active :: bool
  tn_max_instances :: int
  tn_max_deployments :: int
  tn_metadata :: pydict

type_synonym TenantManager = "(string, TenantInfo) dict"

definition register_tenant :: "TenantInfo \<Rightarrow> TenantManager \<Rightarrow> TenantManager" where
  "register_tenant t m = dset (tn_tenant_id t) t m"

definition get_tenant :: "string \<Rightarrow> TenantManager \<Rightarrow> TenantInfo option" where
  "get_tenant tid m = dget m tid"

definition list_tenants :: "bool \<Rightarrow> TenantManager \<Rightarrow> TenantInfo list" where
  "list_tenants active_only m = (if active_only then filter tn_is_active (dvals m) else dvals m)"

definition deactivate_tenant :: "string \<Rightarrow> TenantManager \<Rightarrow> bool \<times> TenantManager" where
  "deactivate_tenant tid m =
     (case dget m tid of None \<Rightarrow> (False, m) | Some t \<Rightarrow> (True, dset tid (t\<lparr>tn_is_active := False\<rparr>) m))"

definition is_tenant_active :: "string \<Rightarrow> TenantManager \<Rightarrow> bool" where
  "is_tenant_active tid m = (case dget m tid of None \<Rightarrow> False | Some t \<Rightarrow> tn_is_active t)"

definition check_tenant_quota :: "string \<Rightarrow> int \<Rightarrow> TenantManager \<Rightarrow> bool" where
  "check_tenant_quota tid n m = (case dget m tid of None \<Rightarrow> True | Some t \<Rightarrow> n < tn_max_instances t)"

text \<open>
  \<open>TenantContext\<close>: the current tenant is a context variable.  \<open>tenant_scope\<close> sets it for the body of a
  \<open>with\<close> block, which may raise, and restores it in either case.
\<close>

definition tenant_scope :: "string \<Rightarrow> (string option \<Rightarrow> py_error option \<times> string option) \<Rightarrow> string option \<Rightarrow> py_error option \<times> string option" where
  "tenant_scope tid body prev = (fst (body (Some tid)), prev)"

definition require_tenant :: "string option \<Rightarrow> string result" where
  "require_tenant cur = (case cur of None \<Rightarrow> Inl (ValueError ''No tenant context set'') | Some t \<Rightarrow> Inr t)"

definition tenant_filter :: "string option \<Rightarrow> pydict \<Rightarrow> pydict" where
  "tenant_filter cur data = (case cur of None \<Rightarrow> data | Some t \<Rightarrow> dset ''tenant_id'' (PStr t) data)"

definition tenant_scope_predicate :: "string option \<Rightarrow> pydict" where
  "tenant_scope_predicate cur = (case cur of None \<Rightarrow> [] | Some t \<Rightarrow> [(''tenant_id'', PStr t)])"

text \<open>The loop of \<open>start_instance\<close> that stores the variables an instance starts with.\<close>

fun persist_variables :: "clock \<Rightarrow> (nat \<Rightarrow> string) \<Rightarrow> string \<Rightarrow> pydict \<Rightarrow> VariableManager \<Rightarrow> VariableManager outcome" where
  "persist_variables clk ids iid [] m = (None, m)"
| "persist_variables clk ids iid ((n, v) # vs) m =
     (case vm_set_persisted (clk 0) (ids 0) iid iid n v None True None m of
        (Some e, m1) \<Rightarrow> (Some e, m1)
      | (None, m1) \<Rightarrow> persist_variables (clk \<circ> Suc) (ids \<circ> Suc) iid vs m1)"

subsection \<open>States and their history\<close>

definition sm_sets :: "string \<Rightarrow> (datetime \<times> string \<times> pydict option) list \<Rightarrow> StateManager \<Rightarrow> StateManager" where
  "sm_sets iid xs m = fold (\<lambda>(now, st, data) m. snd (sm_set now iid st data m)) xs m"

lemma sm_sets_history:
  "sm_get iid m = None \<Longrightarrow> xs \<noteq> [] \<Longrightarrow>
    sm_history_of iid (sm_sets iid xs m) = sm_history_of iid m @
      map (\<lambda>(now, st, data). \<lparr>ss_instance_id = iid, ss_state = st, ss_created_at = fst (hd xs), ss_updated_at = now,
                               ss_data = (case data of None \<Rightarrow> [] | Some d \<Rightarrow> d)\<rparr>) xs \<and>
    sm_get iid (sm_sets iid xs m) = Some (last (sm_history_of iid (sm_sets iid xs m)))"
proof (induction xs rule: rev_induct)
  case (snoc x xs)
  obtain now st data where x: "x = (now, st, data)" by (cases x)
  show ?case
  proof (cases "xs = []")
    case True
    then show ?thesis
      using snoc.prems x by (simp add: sm_sets_def sm_set_def Let_def sm_get_def sm_history_of_def)
  next
    case False
    let ?m = "sm_sets iid xs m"
    note ih = snoc.IH [OF snoc.prems(1) False]
    obtain old where old: "dget (sm_states ?m) iid = Some old" "ss_created_at old = fst (hd xs)"
      using ih False by (auto simp: sm_get_def last_map split: prod.split)
    have "sm_sets iid (xs @ [x]) m = snd (sm_set now iid st data ?m)" by (simp add: sm_sets_def x)
    then show ?thesis
      using ih old False x by (simp add: sm_set_def Let_def sm_get_def sm_history_of_def)
  qed
qed simp

subsection \<open>Persisted variables\<close>

definition variable_row :: "datetime \<Rightarrow> string \<Rightarrow> string \<Rightarrow> string \<Rightarrow> pyval \<Rightarrow> pydict" where
  "variable_row now uuid iid n v =
     normalize_runtime_payload now uuid ''variable'' (variable_payload iid iid n v (projr (type_name v)) None)"

lemma variable_row_fields:
  "dget (variable_row now uuid iid n v) ''name'' = Some (PStr n)"
  "pget (variable_row now uuid iid n v) ''value'' = v"
  "pget (variable_row now uuid iid n v) ''instance_id'' = PStr iid"
  by (simp_all add: variable_row_def variable_payload_def normalize_runtime_payload_def Let_def setdefault_def has_key_def
      payload_simps pget_def dget_or_def)

lemma vm_set_persisted_row:
  assumes "vm_repository m = Some r" "is_ok (type_name v)"
  shows "vm_set_persisted now uuid iid iid n v None True None m =
    (None, m\<lparr>vm_vars := dset n v (vm_vars m), vm_repository := Some (dset (variable_key iid iid n) (variable_row now uuid iid n v) r)\<rparr>)"
proof -
  obtain ty where ty: "type_name v = Inr ty" using assms(2) by (cases "type_name v") auto
  have "validation_fails (variable_payload iid iid n v ty None) = Inr False"
    by (simp add: validation_fails_def extract_schema_binding_def variable_payload_def as_dict_def payload_simps)
  then show ?thesis
    using assms(1) ty
    by (simp add: vm_set_persisted_def vm_set_def variable_save_persisted_def save_persisted_def repo_save_def variable_row_def)
qed

fun variable_rows :: "clock \<Rightarrow> (nat \<Rightarrow> string) \<Rightarrow> string \<Rightarrow> pydict \<Rightarrow> repo" where
  "variable_rows clk ids iid [] = []"
| "variable_rows clk ids iid ((n, v) # vs) =
     (variable_key iid iid n, variable_row (clk 0) (ids 0) iid n v) # variable_rows (clk \<circ> Suc) (ids \<circ> Suc) iid vs"

lemma persist_variables_rows:
  assumes "vm_repository m = Some r" "dict_ok vs" "\<forall>(n, v) \<in> set vs. is_ok (type_name v)"
    and "\<forall>n \<in> set (dkeys vs). dget r (variable_key iid iid n) = None"
  shows "\<exists>m1. persist_variables clk ids iid vs m = (None, m1) \<and> vm_repository m1 = Some (r @ variable_rows clk ids iid vs) \<and>
    vm_vars m1 = dupdate (vm_vars m) vs"
  using assms
proof (induction vs arbitrary: clk ids m r)
  case Nil
  then show ?case by (simp add: dupdate_def)
next
  case (Cons p vs)
  obtain n v where p: "p = (n, v)" by fastforce
  let ?row = "(variable_key iid iid n, variable_row (clk 0) (ids 0) iid n v)"
  have ok: "is_ok (type_name v)" and new: "dget r (variable_key iid iid n) = None" using Cons.prems p by auto
  let ?m = "m\<lparr>vm_vars := dset n v (vm_vars m), vm_repository := Some (r @ [?row])\<rparr>"
  have m: "vm_set_persisted (clk 0) (ids 0) iid iid n v None True None m = (None, ?m)"
    using vm_set_persisted_row [OF Cons.prems(1) ok] dset_new [OF new] by simp
  have "\<exists>m1. persist_variables (clk \<circ> Suc) (ids \<circ> Suc) iid vs ?m = (None, m1) \<and>
      vm_repository m1 = Some ((r @ [?row]) @ variable_rows (clk \<circ> Suc) (ids \<circ> Suc) iid vs) \<and> vm_vars m1 = dupdate (vm_vars ?m) vs"
  proof (rule Cons.IH)
    show "\<forall>n' \<in> set (dkeys vs). dget (r @ [?row]) (variable_key iid iid n') = None"
      using Cons.prems(2,4) p by (auto simp: variable_key_def map_add_def split: option.splits)
  qed (use Cons.prems p in auto)
  then show ?case using p m by (simp add: dupdate_def)
qed

lemma restored_rows:
  "dict_ok vs \<Longrightarrow> set (dkeys vs) \<inter> set (dkeys acc) = {} \<Longrightarrow>
    restored_values (dvals (variable_rows clk ids iid vs)) acc = Inr (acc @ vs)"
proof (induction vs arbitrary: clk ids acc)
  case (Cons p vs)
  obtain n v where p: "p = (n, v)" by fastforce
  have "dset n v acc = acc @ [(n, v)]" using Cons.prems p by (intro dset_new) (auto simp: map_of_eq_None_iff)
  then show ?case using Cons p by (simp add: variable_row_fields)
qed simp

lemma restore_variable_rows:
  assumes "vm_repository m = Some (r @ variable_rows clk ids iid vs)" "get_by_instance iid r = []" "dict_ok vs"
  shows "vm_restore_persisted iid None m = (Inr vs, vm_restore vs m)"
proof -
  have "filter (\<lambda>row. pget row ''instance_id'' = PStr iid) (dvals (variable_rows clk ids iid vs)) = dvals (variable_rows clk ids iid vs)"
    by (induction vs arbitrary: clk ids) (auto simp: variable_row_fields)
  then have "get_by_instance iid (r @ variable_rows clk ids iid vs) = dvals (variable_rows clk ids iid vs)"
    using assms(2) by (simp add: get_by_instance_def repo_list_def)
  then show ?thesis
    using assms(1) restored_rows [OF assms(3), of "[]" clk ids iid] by (simp add: vm_restore_persisted_def)
qed

text \<open>
  The variables an instance starts with are stored one record each and restored exactly: a manager that
  reads them back from the repository holds the same names and values in the same order, and nothing else.
\<close>

theorem variables_persist_restore:
  assumes "vm_repository m = Some r" and "dict_ok vs" and "\<forall>(n, v) \<in> set vs. is_ok (type_name v)"
    and "get_by_instance iid r = []" and "\<forall>n \<in> set (dkeys vs). dget r (variable_key iid iid n) = None"
  shows "\<exists>m1. persist_variables clk ids iid vs m = (None, m1) \<and>
    (\<forall>m2. vm_repository m2 = vm_repository m1 \<longrightarrow> vm_restore_persisted iid None m2 = (Inr vs, vm_restore vs m2))"
  using persist_variables_rows [OF assms(1-3,5), of clk ids] restore_variable_rows [OF _ assms(4,2), where clk = clk and ids = ids]
  by auto

theorem variables_persist_restore_witness:
  "\<exists>m1. persist_variables (\<lambda>i. int i) (\<lambda>i. dec i) ''i'' [(''x'', PInt 1), (''y'', PStr ''a'')] (variable_manager_init (Some [])) = (None, m1) \<and>
    fst (vm_restore_persisted ''i'' None (variable_manager_init (vm_repository m1))) = Inr [(''x'', PInt 1), (''y'', PStr ''a'')]"
  using variables_persist_restore [of "variable_manager_init (Some [])" "[]" "[(''x'', PInt 1), (''y'', PStr ''a'')]" "''i''"
      "\<lambda>i. int i" "\<lambda>i. dec i"]
  by (force simp: variable_manager_init_def get_by_instance_def repo_list_def)

subsection \<open>Incidents\<close>

inductive nm_reach :: "IncidentManager \<Rightarrow> bool" where
  init: "nm_reach (incident_manager_init n)"
| create: "nm_reach m \<Longrightarrow> get_incident uuid m = None \<Longrightarrow>
    nm_reach (snd (inc_create now uuid ty iid msg aid stack retries job metadata m))"
| resolve: "nm_reach m \<Longrightarrow> nm_reach (snd (inc_resolve now resolution k m))"
| cancel: "nm_reach m \<Longrightarrow> nm_reach (snd (inc_cancel now k m))"
| dead: "nm_reach m \<Longrightarrow> nm_reach (snd (move_to_dead_letter k m))"
| clear: "nm_reach m \<Longrightarrow> nm_reach (snd (clear_instance_incidents iid m))"

abbreviation nm_ok :: "IncidentManager \<Rightarrow> bool" where
  "nm_ok m \<equiv> store_ok in_incident_id (\<lambda>i. [in_instance_id i]) (nm_incidents m) (nm_instance_incidents m)"

lemma nm_ok_update:
  assumes "nm_ok m" "dget (nm_incidents m) k = Some i" "in_incident_id i' = in_incident_id i" "in_instance_id i' = in_instance_id i"
  shows "store_ok in_incident_id (\<lambda>i. [in_instance_id i]) (dset k i' (nm_incidents m)) (nm_instance_incidents m)"
  using store_okD [OF assms(1)] assms(2-4)
  by (auto simp: store_ok_def intro!: index_consistent_update)

lemma clear_fold:
  assumes "distinct ids" "\<forall>k \<in> set ids. has_key incs k"
  shows "fold (\<lambda>k (n, incs). if has_key incs k then (Suc n, ddel k incs) else (n, incs)) ids (n, incs) =
    (n + length ids, fold ddel ids incs)"
  using assms
proof (induction ids arbitrary: n incs)
  case (Cons k ids)
  have "\<forall>k' \<in> set ids. has_key (ddel k incs) k'" using Cons.prems by (auto simp: has_key_def)
  then show ?case using Cons by simp
qed simp

lemma dget_fold_ddel: "dget (fold ddel ids d) k = (if k \<in> set ids then None else dget d k)"
  by (induction ids arbitrary: d) auto

lemma dict_ok_fold_ddel: "dict_ok d \<Longrightarrow> dict_ok (fold ddel ids d)"
  by (induction ids arbitrary: d) auto

lemma clear_instance_eq:
  assumes "nm_ok m"
  shows "clear_instance_incidents iid m =
    (length (idx_get (nm_instance_incidents m) iid),
     m\<lparr>nm_incidents := fold ddel (idx_get (nm_instance_incidents m) iid) (nm_incidents m),
       nm_instance_incidents := ddel iid (nm_instance_incidents m)\<rparr>)"
proof -
  note ix = store_okD(3) [OF assms]
  have "\<forall>k \<in> set (idx_get (nm_instance_incidents m) iid). has_key (nm_incidents m) k"
    using index_consistentD(2) [OF ix] by (auto simp: has_key_def)
  then show ?thesis
    using clear_fold [OF index_consistentD(1) [OF ix], of iid "nm_incidents m" 0]
    by (simp add: clear_instance_incidents_def Let_def idx_get_def)
qed

lemma nm_ok_clear:
  assumes "nm_ok m"
  shows "nm_ok (snd (clear_instance_incidents iid m))"
proof -
  note ok = store_okD [OF assms]
  note mem = index_consistentD(2) [OF ok(3)]
  let ?ids = "idx_get (nm_instance_incidents m) iid"
  have ix: "idx_get (ddel iid (nm_instance_incidents m)) k = (if k = iid then [] else idx_get (nm_instance_incidents m) k)" for k
    by (simp add: idx_get_def dget_or_def)
  have "index_consistent (\<lambda>i. [in_instance_id i]) (fold ddel ?ids (nm_incidents m)) (ddel iid (nm_instance_incidents m))"
    using index_consistentD(1) [OF ok(3)] by (auto simp: index_consistent_def ix dget_fold_ddel mem split: if_splits)
  then show ?thesis
    using ok(1,2) by (auto simp: clear_instance_eq [OF assms] store_ok_def dget_fold_ddel dict_ok_fold_ddel split: if_splits)
qed

lemma nm_reach_ok: "nm_reach m \<Longrightarrow> nm_ok m"
proof (induction rule: nm_reach.induct)
  case (init n)
  then show ?case by (simp add: incident_manager_init_def)
next
  case (create m uuid now ty iid msg aid stack retries job metadata)
  define i where "i = fst (inc_create now uuid ty iid msg aid stack retries job metadata m)"
  have i: "in_instance_id i = iid" "in_incident_id i = uuid" by (simp_all add: i_def inc_create_def Let_def)
  have "dget (nm_incidents m) uuid = None" using create.hyps(2) by (simp add: get_incident_def)
  then show ?case
    using store_okD [OF create.IH] append_to_consistent [of in_instance_id "nm_incidents m" "nm_instance_incidents m" uuid i] i
    by (auto simp: store_ok_def inc_create_def Let_def i_def)
next
  case (clear m iid)
  then show ?case using nm_ok_clear by blast
qed (auto simp: inc_resolve_def inc_cancel_def move_to_dead_letter_def inc_update_def split: option.splits intro!: nm_ok_update)

text \<open>
  Clearing the incidents of an instance removes exactly those that were created for it, in whatever state
  they are, and returns their number; every other incident stays as it is.  The dead-letter queue keeps the
  ids, so the statistics go on counting dead letters that no longer exist.
\<close>

theorem incidents_cleared_exactly:
  assumes "nm_reach m" and "clear_instance_incidents iid m = (n, m')"
  shows "(\<forall>k. get_incident k m' =
      (case get_incident k m of None \<Rightarrow> None | Some i \<Rightarrow> if in_instance_id i = iid then None else Some i)) \<and>
    n = card {k. \<exists>i. get_incident k m = Some i \<and> in_instance_id i = iid} \<and>
    dget (inc_get_statistics m') ''dead_letter'' = Some (length (nm_dead_letter_queue m))"
proof -
  note ix = store_okD(3) [OF nm_reach_ok [OF assms(1)]]
  let ?ids = "idx_get (nm_instance_incidents m) iid"
  have mem: "k \<in> set ?ids \<longleftrightarrow> (\<exists>i. get_incident k m = Some i \<and> in_instance_id i = iid)" for k
    using index_consistentD(2) [OF ix, of k iid] by (auto simp: get_incident_def)
  have m': "n = length ?ids" "nm_incidents m' = fold ddel ?ids (nm_incidents m)" "nm_dead_letter_queue m' = nm_dead_letter_queue m"
    using assms(2) clear_instance_eq [OF nm_reach_ok [OF assms(1)], of iid] by auto
  have "set ?ids = {k. \<exists>i. get_incident k m = Some i \<and> in_instance_id i = iid}" using mem by blast
  then have "n = card {k. \<exists>i. get_incident k m = Some i \<and> in_instance_id i = iid}"
    using distinct_card [OF index_consistentD(1) [OF ix, of iid]] m'(1) by simp
  moreover have "get_incident k m' = (case get_incident k m of None \<Rightarrow> None | Some i \<Rightarrow> if in_instance_id i = iid then None else Some i)" for k
    using mem [of k] by (auto simp: get_incident_def m'(2) dget_fold_ddel split: option.split)
  ultimately show ?thesis by (simp add: inc_get_statistics_def m'(3))
qed

definition demo_incidents :: IncidentManager where
  "demo_incidents = snd (move_to_dead_letter ''k1'' (snd (inc_create 0 ''k2'' ''timeout'' ''j'' [] None [] None None None
     (snd (inc_create 0 ''k1'' ''timeout'' ''i'' [] None [] None None None (incident_manager_init 3))))))"

theorem incidents_cleared_exactly_witness:
  "nm_reach demo_incidents \<and> get_incident ''k1'' (snd (clear_instance_incidents ''i'' demo_incidents)) = None \<and>
    dget (inc_get_statistics (snd (clear_instance_incidents ''i'' demo_incidents))) ''dead_letter'' = Some 1"
proof -
  have r: "nm_reach demo_incidents"
    unfolding demo_incidents_def
    by (intro nm_reach.intros) (simp_all add: get_incident_def inc_create_def Let_def incident_manager_init_def)
  obtain n m' where c: "clear_instance_incidents ''i'' demo_incidents = (n, m')" by fastforce
  have "\<exists>i. get_incident ''k1'' demo_incidents = Some i \<and> in_instance_id i = ''i''" "nm_dead_letter_queue demo_incidents = [''k1'']"
    by (simp_all add: demo_incidents_def get_incident_def move_to_dead_letter_def inc_update_def inc_create_def Let_def incident_manager_init_def)
  with incidents_cleared_exactly [OF r c] r c show ?thesis by auto
qed

end
