(* ===== verification/Deployments.thy ===== *)
theory Deployments
  imports Repository
begin

section \<open>Deployments and process definitions\<close>

text \<open>
  \<open>core/_definition_models.py\<close>, the \<open>DefinitionService\<close> and \<open>_delete_deployment_state\<close> of
  \<open>core/engine_services.py\<close>, \<open>deploy\<close>, \<open>delete_deployment\<close> and \<open>get_definition\<close> of \<open>core/engine.py\<close>, and
  \<open>persistence/definition_repository.py\<close>.  The registry holds the three dicts that the engine shares with
  its services and the repository; \<open>reg_definitions\<close> has the definition that \<open>start_process_instance\<close> uses,
  \<open>reg_definition_versions\<close> all of them by key.
\<close>

subsection \<open>Data\<close>

record ProcessDefinition =
  pd_id :: string
  pd_key :: string
  pd_name :: string
  pd_version :: int
  pd_deployment_id :: string
  pd_resource_name :: string
  pd_diagram_resource_name :: "string option"
  pd_has_start_form_key :: bool
  pd_has_graphical_notation :: bool
  pd_is_suspended :: bool
  pd_tenant_id :: "string option"
  pd_version_tag :: "string option"
  pd_history_time_to_live :: "int option"
  pd_is_startable_in_tasklist :: bool
  pd_definition_type :: string
  pd_definition_xml :: string
  pd_deployed_at :: datetime
  pd_metadata :: pydict

record Deployment =
  dp_id :: string
  dp_name :: string
  dp_deployment_time :: datetime
  dp_source :: string
  dp_tenant_id :: "string option"
  dp_definitions :: "ProcessDefinition list"

record registry =
  reg_deployments :: "(string, Deployment) dict"
  reg_definitions :: "(string, ProcessDefinition) dict"
  reg_definition_versions :: "(string, ProcessDefinition list) dict"
  reg_repository :: repo

definition registry_init :: "repo \<Rightarrow> registry" where
  "registry_init r = \<lparr>reg_deployments = [], reg_definitions = [], reg_definition_versions = [], reg_repository = r\<rparr>"

subsection \<open>Records\<close>

definition definition_to_dict :: "ProcessDefinition \<Rightarrow> pydict" where
  "definition_to_dict d =
     [(''id'', PStr (pd_id d)), (''key'', PStr (pd_key d)), (''name'', PStr (pd_name d)), (''version'', PInt (pd_version d)),
      (''deployment_id'', PStr (pd_deployment_id d)), (''resource_name'', PStr (pd_resource_name d)),
      (''diagram_resource_name'', opt_str (pd_diagram_resource_name d)),
      (''has_start_form_key'', PBool (pd_has_start_form_key d)), (''has_graphical_notation'', PBool (pd_has_graphical_notation d)),
      (''is_suspended'', PBool (pd_is_suspended d)), (''tenant_id'', opt_str (pd_tenant_id d)),
      (''version_tag'', opt_str (pd_version_tag d)), (''history_time_to_live'', opt_int (pd_history_time_to_live d)),
      (''is_startable_in_tasklist'', PBool (pd_is_startable_in_tasklist d)),
      (''definition_type'', PStr (pd_definition_type d)), (''definition_xml'', PStr (pd_definition_xml d)),
      (''deployed_at'', PStr (isoformat (pd_deployed_at d))), (''metadata'', PDict (pd_metadata d))]"

text \<open>Entries that the code passes on unchanged into fields annotated \<open>str | None\<close> and \<open>int | None\<close>.\<close>

fun kept_str :: "pyval \<Rightarrow> string option result" where
  "kept_str PNone = Inr None"
| "kept_str (PStr s) = Inr (Some s)"
| "kept_str v = Inl (Unmodelled ''str | None'')"

fun kept_int :: "pyval \<Rightarrow> int option result" where
  "kept_int PNone = Inr None"
| "kept_int (PInt i) = Inr (Some i)"
| "kept_int v = Inl (Unmodelled ''int | None'')"

lemma kept_simps [simp, payload_simps]: "kept_str (opt_str x) = Inr x" "kept_int (opt_int n) = Inr n"
  by (cases x; simp add: opt_str_def) (cases n; simp add: opt_int_def)

definition definition_from_dict :: "datetime \<Rightarrow> pydict \<Rightarrow> ProcessDefinition result" where
  "definition_from_dict now p =
     bindr (bindr (pindex p ''id'') py_str) (\<lambda>did.
     bindr (bindr (pindex p ''key'') py_str) (\<lambda>key.
     bindr (py_str (pget_or p ''name'' (PStr ''Unnamed Process''))) (\<lambda>name.
     bindr (py_int (pget_or p ''version'' (PInt 1))) (\<lambda>version.
     bindr (py_str (pget_or p ''deployment_id'' (PStr []))) (\<lambda>dep.
     bindr (py_str (pget_or p ''resource_name'' (PStr []))) (\<lambda>res.
     bindr (kept_str (pget p ''diagram_resource_name'')) (\<lambda>diagram.
     bindr (kept_str (pget p ''tenant_id'')) (\<lambda>tenant.
     bindr (kept_str (pget p ''version_tag'')) (\<lambda>tag.
     bindr (kept_int (pget p ''history_time_to_live'')) (\<lambda>ttl.
     bindr (py_str (pget_or p ''definition_type'' (PStr ''bpmn''))) (\<lambda>ty.
     bindr (py_str (pget_or p ''definition_xml'' (PStr []))) (\<lambda>xml.
     bindr (parse_datetime now (pget p ''deployed_at'')) (\<lambda>dat.
     bindr (py_dict (por (pget p ''metadata'') (PDict []))) (\<lambda>meta.
     Inr \<lparr>pd_id = did, pd_key = key, pd_name = name, pd_version = version, pd_deployment_id = dep, pd_resource_name = res,
          pd_diagram_resource_name = diagram, pd_has_start_form_key = truthy (pget_or p ''has_start_form_key'' (PBool False)),
          pd_has_graphical_notation = truthy (pget_or p ''has_graphical_notation'' (PBool True)),
          pd_is_suspended = truthy (pget_or p ''is_suspended'' (PBool False)), pd_tenant_id = tenant, pd_version_tag = tag,
          pd_history_time_to_live = ttl,
          pd_is_startable_in_tasklist = truthy (pget_or p ''is_startable_in_tasklist'' (PBool True)),
          pd_definition_type = ty, pd_definition_xml = xml, pd_deployed_at = dat, pd_metadata = meta\<rparr>))))))))))))))"

subsection \<open>Parsing a resource\<close>

definition detect_type :: "string \<Rightarrow> string \<Rightarrow> string" where
  "detect_type resource_name content =
     (let lower_name = map lower_char resource_name; preview = map lower_char (take 200 content)
      in if contains ''.bam.json'' lower_name \<or> contains ''.bam.yaml'' lower_name \<or> contains ''.bam.yml'' lower_name then ''bam''
         else if contains ''.bpmn'' lower_name \<or> contains ''bpmn'' preview then ''bpmn''
         else if contains ''.cmmn'' lower_name \<or> contains ''cmmn'' preview then ''cmmn''
         else if contains ''.dmn'' lower_name \<or> contains ''dmn'' preview then ''dmn''
         else if contains ''statemachine'' lower_name then ''state_machine''
         else if contains ''cep'' lower_name then ''cep''
         else if contains ''agent'' lower_name then ''multi_agent''
         else ''bpmn'')"

text \<open>
  \<open>re.search(r'name="([^"]+)"', content)\<close>: the first place where the prefix is followed by one or more other
  characters and a quote.
\<close>

definition attribute_at :: "string \<Rightarrow> string \<Rightarrow> string option" where
  "attribute_at pre s =
     (let body = takeWhile (\<lambda>c. c \<noteq> CHR 0x22) (drop (length pre) s)
      in if take (length pre) s = pre \<and> body \<noteq> [] \<and> length pre + length body < length s then Some body else None)"

fun search_attribute :: "string \<Rightarrow> string \<Rightarrow> string option" where
  "search_attribute pre [] = None"
| "search_attribute pre (c # s) =
     (case attribute_at pre (c # s) of Some body \<Rightarrow> Some body | None \<Rightarrow> search_attribute pre s)"

definition extract_key :: "string \<Rightarrow> string \<Rightarrow> string \<Rightarrow> string" where
  "extract_key uuid content ty =
     (case (if ty = ''bpmn'' then search_attribute (''id='' @ [CHR 0x22]) content else None) of
        Some key \<Rightarrow> key
      | None \<Rightarrow> ''process_'' @ take 8 uuid)"

definition extract_name :: "string \<Rightarrow> string" where
  "extract_name content =
     (case search_attribute (''name='' @ [CHR 0x22]) content of Some n \<Rightarrow> n | None \<Rightarrow> ''Unnamed Process'')"

definition calculate_next_version :: "string \<Rightarrow> registry \<Rightarrow> int" where
  "calculate_next_version key g = int (length (dget_or (reg_definition_versions g) key [])) + 1"

text \<open>\<open>uuid\<close> is drawn for the key when the content does not give one, \<open>uuid'\<close> for the id.\<close>

definition parse_definition ::
  "datetime \<Rightarrow> string \<Rightarrow> string \<Rightarrow> string \<Rightarrow> string \<Rightarrow> string \<Rightarrow> string option \<Rightarrow> registry \<Rightarrow> ProcessDefinition" where
  "parse_definition now uuid uuid' res content dep tenant g =
     (let ty = detect_type res content; key = extract_key uuid content ty
      in \<lparr>pd_id = uuid', pd_key = key, pd_name = extract_name content, pd_version = calculate_next_version key g,
          pd_deployment_id = dep, pd_resource_name = res, pd_diagram_resource_name = None, pd_has_start_form_key = False,
          pd_has_graphical_notation = True, pd_is_suspended = False, pd_tenant_id = tenant, pd_version_tag = None,
          pd_history_time_to_live = None, pd_is_startable_in_tasklist = True, pd_definition_type = ty,
          pd_definition_xml = content, pd_deployed_at = now, pd_metadata = []\<rparr>)"

subsection \<open>Deploying and deleting\<close>

definition file_definition :: "ProcessDefinition \<Rightarrow> registry \<Rightarrow> registry" where
  "file_definition d g =
     g\<lparr>reg_definitions := dset (pd_key d) d (reg_definitions g),
       reg_definition_versions := append_to (pd_key d) d (reg_definition_versions g)\<rparr>"

definition deploy_resource ::
  "datetime \<Rightarrow> string \<Rightarrow> string \<Rightarrow> string \<Rightarrow> string \<Rightarrow> string \<Rightarrow> string option \<Rightarrow> registry \<Rightarrow> ProcessDefinition \<times> registry" where
  "deploy_resource now uuid uuid' res content dep tenant g =
     (let d = parse_definition now uuid uuid' res content dep tenant g; g1 = file_definition d g
      in (d, g1\<lparr>reg_repository := snd (repo_save (pd_id d) (definition_to_dict d) (reg_repository g1))\<rparr>))"

fun deploy_resources ::
  "clock \<Rightarrow> (nat \<Rightarrow> string) \<Rightarrow> (string \<times> string) list \<Rightarrow> string \<Rightarrow> string option \<Rightarrow> registry \<Rightarrow> ProcessDefinition list \<times> registry" where
  "deploy_resources clk ids [] dep tenant g = ([], g)"
| "deploy_resources clk ids ((res, content) # rs) dep tenant g =
     (case deploy_resource (clk 0) (ids 0) (ids 1) res content dep tenant g of
        (d, g1) \<Rightarrow>
          (case deploy_resources (clk \<circ> Suc) (\<lambda>i. ids (i + 2)) rs dep tenant g1 of (ds, g2) \<Rightarrow> (d # ds, g2)))"

text \<open>What \<open>deploy\<close> does before it publishes \<open>DEPLOYMENT_CREATED\<close>.\<close>

definition register_deployment ::
  "clock \<Rightarrow> (nat \<Rightarrow> string) \<Rightarrow> string \<Rightarrow> (string, string) dict \<Rightarrow> string \<Rightarrow> string option \<Rightarrow> registry \<Rightarrow> Deployment \<times> registry" where
  "register_deployment clk ids name resources source tenant g =
     (case deploy_resources (clk \<circ> Suc) (ids \<circ> Suc) resources (ids 0) tenant g of
        (ds, g1) \<Rightarrow>
          (let dep = \<lparr>dp_id = ids 0, dp_name = name, dp_deployment_time = clk 0, dp_source = source, dp_tenant_id = tenant,
                      dp_definitions = ds\<rparr>
           in (dep, g1\<lparr>reg_deployments := dset (ids 0) dep (reg_deployments g1)\<rparr>)))"

definition drop_definition :: "ProcessDefinition \<Rightarrow> registry \<Rightarrow> registry" where
  "drop_definition d g =
     g\<lparr>reg_definitions := ddel (pd_key d) (reg_definitions g),
       reg_definition_versions :=
         (case dget (reg_definition_versions g) (pd_key d) of
            None \<Rightarrow> reg_definition_versions g
          | Some ds \<Rightarrow> dset (pd_key d) (filter (\<lambda>x. pd_id x \<noteq> pd_id d) ds) (reg_definition_versions g))\<rparr>"

text \<open>
  \<open>_delete_deployment_state\<close>.  Deleting the instances of the deployment's definitions comes first; their ids
  are in \<open>instances_of\<close>, and the caller deletes them.
\<close>

definition instances_of :: "(string \<times> string) list \<Rightarrow> Deployment \<Rightarrow> string list" where
  "instances_of insts dep = concat (map (\<lambda>d. map fst (filter (\<lambda>(iid, did). did = pd_id d) insts)) (dp_definitions dep))"

definition unregister_deployment :: "string \<Rightarrow> registry \<Rightarrow> registry outcome" where
  "unregister_deployment dep g =
     (case dget (reg_deployments g) dep of
        None \<Rightarrow> (Some (ValueError (''Deployment not found: '' @ dep)), g)
      | Some d \<Rightarrow>
          (let g1 = fold drop_definition (dp_definitions d) g in (None, g1\<lparr>reg_deployments := ddel dep (reg_deployments g1)\<rparr>)))"

subsection \<open>Look-up and reload\<close>

definition get_definition :: "string \<Rightarrow> int option \<Rightarrow> registry \<Rightarrow> ProcessDefinition option" where
  "get_definition key version g =
     (case version of
        None \<Rightarrow> dget (reg_definitions g) key
      | Some v \<Rightarrow> List.find (\<lambda>d. pd_version d = v) (dget_or (reg_definition_versions g) key []))"

fun load_definition_rows :: "clock \<Rightarrow> pydict list \<Rightarrow> registry \<Rightarrow> registry outcome" where
  "load_definition_rows clk [] g = (None, g)"
| "load_definition_rows clk (row # rows) g =
     (case definition_from_dict (clk 0) row of
        Inl e \<Rightarrow> (Some e, g)
      | Inr d \<Rightarrow> load_definition_rows (clk \<circ> Suc) rows (file_definition d g))"

definition load_persisted_definitions :: "clock \<Rightarrow> registry \<Rightarrow> registry outcome" where
  "load_persisted_definitions clk g =
     load_definition_rows clk (repo_list None (reg_repository g)) (g\<lparr>reg_definitions := [], reg_definition_versions := []\<rparr>)"

definition get_by_key :: "string \<Rightarrow> repo \<Rightarrow> pydict list" where
  "get_by_key key = repo_list (Some (\<lambda>row. pget row ''key'' = PStr key))"

definition get_latest :: "string \<Rightarrow> repo \<Rightarrow> pydict option result" where
  "get_latest key r =
     bindr (mapr (\<lambda>row. bindr (py_int (pget_or row ''version'' (PInt 0))) (\<lambda>v. Inr (v, row))) (get_by_key key r))
       (\<lambda>rows. Inr (case sort_key (\<lambda>p. - fst p) rows of [] \<Rightarrow> None | p # _ \<Rightarrow> Some (snd p)))"

subsection \<open>What filing a definition changes\<close>

lemma definition_roundtrip:
  "valid_datetime (pd_deployed_at d) \<Longrightarrow> definition_from_dict now (definition_to_dict d) = Inr d"
  by (simp add: definition_from_dict_def definition_to_dict_def payload_simps del: fromisoformat_isoformat parse_datetime.simps)

definition versions :: "string \<Rightarrow> registry \<Rightarrow> ProcessDefinition list" where
  "versions key g = dget_or (reg_definition_versions g) key []"

lemma file_definition_fields [simp]:
  "reg_deployments (file_definition d g) = reg_deployments g" "reg_repository (file_definition d g) = reg_repository g"
  "reg_definitions (file_definition d g) = dset (pd_key d) d (reg_definitions g)"
  "versions key (file_definition d g) = (if key = pd_key d then versions key g @ [d] else versions key g)"
  by (simp_all add: file_definition_def versions_def)

lemma file_definition_same_tables:
  assumes "reg_definitions g = reg_definitions g'" "reg_definition_versions g = reg_definition_versions g'"
  shows "reg_definitions (file_definition d g) = reg_definitions (file_definition d g')"
    and "reg_definition_versions (file_definition d g) = reg_definition_versions (file_definition d g')"
  using assms by (simp_all add: file_definition_def)

text \<open>A registry as the sequence of definitions filed in it, all of them stored in its repository.\<close>

definition filed :: "ProcessDefinition list \<Rightarrow> registry \<Rightarrow> bool" where
  "filed ds g \<longleftrightarrow>
     reg_repository g = map (\<lambda>d. (pd_id d, definition_to_dict d)) ds \<and> (\<forall>d \<in> set ds. valid_datetime (pd_deployed_at d)) \<and>
     reg_definitions g = reg_definitions (fold file_definition ds (registry_init [])) \<and>
     reg_definition_versions g = reg_definition_versions (fold file_definition ds (registry_init []))"

definition numbered :: "registry \<Rightarrow> bool" where
  "numbered g \<longleftrightarrow> (\<forall>key. map pd_version (versions key g) = map (\<lambda>i. int i + 1) [0..<length (versions key g)] \<and>
     dget (reg_definitions g) key = (if versions key g = [] then None else Some (last (versions key g))))"

lemma deploy_resource_filed:
  assumes "filed ds g" "numbered g" "dget (reg_repository g) uuid' = None" "valid_datetime now"
    and "deploy_resource now uuid uuid' res content dep tenant g = (d, g')"
  shows "filed (ds @ [d]) g'" "numbered g'" "pd_id d = uuid'"
    "reg_repository g' = reg_repository g @ [(uuid', definition_to_dict d)]"
proof -
  have d: "d = parse_definition now uuid uuid' res content dep tenant g"
    and g': "g' = (file_definition d g)\<lparr>reg_repository := snd (repo_save (pd_id d) (definition_to_dict d) (reg_repository g))\<rparr>"
    using assms(5) by (auto simp: deploy_resource_def Let_def)
  have fields: "pd_id d = uuid'" "pd_deployed_at d = now" "pd_version d = int (length (versions (pd_key d) g)) + 1"
    by (simp_all add: d parse_definition_def Let_def calculate_next_version_def versions_def)
  show "pd_id d = uuid'" by (rule fields)
  show repo: "reg_repository g' = reg_repository g @ [(uuid', definition_to_dict d)]"
    using assms(3) by (simp add: g' fields(1) repo_save_def dset_new)
  have tables: "reg_definitions g = reg_definitions (fold file_definition ds (registry_init []))"
    "reg_definition_versions g = reg_definition_versions (fold file_definition ds (registry_init []))"
    using assms(1) by (simp_all add: filed_def)
  show "filed (ds @ [d]) g'"
    using assms(1,4) fields repo file_definition_same_tables [OF tables, of d] by (auto simp: filed_def g')
  have v: "versions key g' = (if key = pd_key d then versions key g @ [d] else versions key g)" for key
    using file_definition_fields(4) [of key d g] by (simp add: g' versions_def)
  have defs: "reg_definitions g' = dset (pd_key d) d (reg_definitions g)" by (simp add: g')
  show "numbered g'"
    using assms(2) fields(3) by (auto simp: numbered_def v defs)
qed

fun drawn :: "(nat \<Rightarrow> string) \<Rightarrow> 'a list \<Rightarrow> string list" where
  "drawn ids [] = []"
| "drawn ids (r # rs) = ids 1 # drawn (\<lambda>i. ids (i + 2)) rs"

lemma deploy_resources_filed:
  assumes "filed ds g" "numbered g" "distinct (drawn ids rs)" "\<forall>u \<in> set (drawn ids rs). dget (reg_repository g) u = None"
    and "\<forall>i. valid_datetime (clk i)" and "deploy_resources clk ids rs dep tenant g = (ds', g')"
  shows "filed (ds @ ds') g' \<and> numbered g'"
  using assms
proof (induction clk ids rs dep tenant g arbitrary: ds ds' g' rule: deploy_resources.induct)
  case (1 clk ids dep tenant g)
  then show ?case by simp
next
  case (2 clk ids res content rs dep tenant g)
  obtain d g1 where one: "deploy_resource (clk 0) (ids 0) (ids 1) res content dep tenant g = (d, g1)" by fastforce
  obtain ds2 g2 where rest: "deploy_resources (clk \<circ> Suc) (\<lambda>i. ids (i + 2)) rs dep tenant g1 = (ds2, g2)" by fastforce
  have ds': "ds' = d # ds2" "g' = g2" using "2.prems"(6) one rest by auto
  have new: "dget (reg_repository g) (ids 1) = None" and valid: "valid_datetime (clk 0)" using "2.prems"(4,5) by auto
  note step = deploy_resource_filed [OF "2.prems"(1,2) new valid one]
  have "\<forall>u \<in> set (drawn (\<lambda>i. ids (i + 2)) rs). dget (reg_repository g1) u = None"
    using "2.prems"(3,4) by (auto simp: step(4) map_add_def split: option.splits)
  then have "filed ((ds @ [d]) @ ds2) g2 \<and> numbered g2"
    using "2.IH" [OF one [symmetric] step(1,2) _ _ _ rest] "2.prems"(3,5) by simp
  then show ?case by (simp add: ds')
qed

subsection \<open>Registries that only grow\<close>

text \<open>Registries reached by deployments alone; ids are fresh, as UUIDs are.\<close>

inductive reg_reach :: "registry \<Rightarrow> bool" where
  init: "reg_reach (registry_init [])"
| deploy: "reg_reach g \<Longrightarrow> distinct (drawn (ids \<circ> Suc) resources) \<Longrightarrow>
    \<forall>u \<in> set (drawn (ids \<circ> Suc) resources). dget (reg_repository g) u = None \<Longrightarrow> \<forall>i. valid_datetime (clk i) \<Longrightarrow>
    reg_reach (snd (register_deployment clk ids name resources source tenant g))"

lemma filed_cong:
  assumes "reg_repository g' = reg_repository g" "reg_definitions g' = reg_definitions g"
    "reg_definition_versions g' = reg_definition_versions g"
  shows "filed ds g' = filed ds g" "numbered g' = numbered g"
  using assms by (simp_all add: filed_def numbered_def versions_def)

lemma reg_reach_filed: "reg_reach g \<Longrightarrow> \<exists>ds. filed ds g \<and> numbered g"
proof (induction rule: reg_reach.induct)
  case init
  have "filed [] (registry_init []) \<and> numbered (registry_init [])"
    by (simp add: filed_def numbered_def versions_def registry_init_def dget_or_def)
  then show ?case by blast
next
  case (deploy g ids resources clk name source tenant)
  obtain ds where ds: "filed ds g" "numbered g" using deploy.IH by blast
  obtain ds' g' where r: "deploy_resources (clk \<circ> Suc) (ids \<circ> Suc) resources (ids 0) tenant g = (ds', g')" by fastforce
  have "filed (ds @ ds') g' \<and> numbered g'"
    using deploy_resources_filed [OF ds deploy.hyps(2,3) _ r] deploy.hyps(4) by simp
  then show ?case
    unfolding register_deployment_def r prod.case Let_def snd_conv
    using filed_cong [of "g'\<lparr>reg_deployments := _\<rparr>" g'] by fastforce
qed

lemma load_rows_filed:
  assumes "\<forall>d \<in> set ds. valid_datetime (pd_deployed_at d)"
  shows "load_definition_rows clk (map definition_to_dict ds) g = (None, fold file_definition ds g)"
  using assms by (induction ds arbitrary: clk g) (simp_all add: definition_roundtrip)

lemma fold_file_frame:
  "reg_deployments (fold file_definition ds g) = reg_deployments g" "reg_repository (fold file_definition ds g) = reg_repository g"
  "reg_definitions g = reg_definitions g' \<Longrightarrow> reg_definition_versions g = reg_definition_versions g' \<Longrightarrow>
    reg_definitions (fold file_definition ds g) = reg_definitions (fold file_definition ds g') \<and>
    reg_definition_versions (fold file_definition ds g) = reg_definition_versions (fold file_definition ds g')"
proof -
  show "reg_deployments (fold file_definition ds g) = reg_deployments g" by (induction ds arbitrary: g) simp_all
  show "reg_repository (fold file_definition ds g) = reg_repository g" by (induction ds arbitrary: g) simp_all
  show "reg_definitions g = reg_definitions g' \<Longrightarrow> reg_definition_versions g = reg_definition_versions g' \<Longrightarrow>
    reg_definitions (fold file_definition ds g) = reg_definitions (fold file_definition ds g') \<and>
    reg_definition_versions (fold file_definition ds g) = reg_definition_versions (fold file_definition ds g')"
  proof (induction ds arbitrary: g g')
    case (Cons d ds)
    then show ?case using file_definition_same_tables [of g g' d] by simp
  qed simp
qed

subsection \<open>Properties\<close>


definition demo_ids :: "nat \<Rightarrow> string" where
  "demo_ids i = (if i = 0 then ''dep'' else ''d'')"

definition demo_registry :: registry where
  "demo_registry = snd (register_deployment (\<lambda>_. 0) demo_ids ''first'' [(''order.bpmn'', ''<process id='' @ [CHR 0x22] @ ''order'' @ [CHR 0x22] @ ''>'')]
     ''api'' None (registry_init []))"

lemma valid_epoch: "valid_datetime 0"
  by (simp add: valid_datetime_def max_datetime_def days_before_year_def us_per_day_def)

lemma demo_registry_reach: "reg_reach demo_registry"
  unfolding demo_registry_def
  by (rule reg_reach.deploy [OF reg_reach.init]) (simp_all add: demo_ids_def registry_init_def valid_epoch)

lemma demo_registry_versions: "map pd_id (versions ''order'' demo_registry) = [''d'']"
  by (simp add: demo_registry_def register_deployment_def deploy_resource_def Let_def versions_def parse_definition_def
      file_definition_def extract_key_def detect_type_def lower_char_def attribute_at_def registry_init_def append_to_def dget_or_def
      demo_ids_def)


text \<open>
  C26: As long as nothing is deleted, the versions of a key are numbered from one in the order of deployment:
  looking a version up finds the definition with that number, and looking the key up finds the newest one.
\<close>

theorem version_lookup:
  assumes "reg_reach g"
  shows "(\<forall>i < length (versions key g). pd_version (versions key g ! i) = int i + 1 \<and>
      get_definition key (Some (int i + 1)) g = Some (versions key g ! i)) \<and>
    (\<forall>v. v < 1 \<or> v > int (length (versions key g)) \<longrightarrow> get_definition key (Some v) g = None) \<and>
    get_definition key None g = (if versions key g = [] then None else Some (last (versions key g)))"
proof -
  let ?ds = "versions key g"
  have num: "map pd_version ?ds = map (\<lambda>i. int i + 1) [0..<length ?ds]"
    and cur: "dget (reg_definitions g) key = (if ?ds = [] then None else Some (last ?ds))"
    using reg_reach_filed [OF assms] by (auto simp: numbered_def)
  have v: "pd_version (?ds ! i) = int i + 1" if "i < length ?ds" for i
    using arg_cong [OF num, of "\<lambda>xs. xs ! i"] that by simp
  have "get_definition key (Some (int i + 1)) g = Some (?ds ! i)" if "i < length ?ds" for i
    using that v by (auto simp: get_definition_def versions_def [symmetric] find_Some_iff)
  moreover have "get_definition key (Some w) g = None" if "w < 1 \<or> w > int (length ?ds)" for w
    using that v by (auto simp: get_definition_def versions_def [symmetric] find_None_iff in_set_conv_nth)
  ultimately show ?thesis using v cur by (simp add: get_definition_def)
qed

theorem version_lookup_witness:
  "map_option pd_id (get_definition ''order'' (Some 1) demo_registry) = Some ''d'' \<and>
    get_definition ''order'' (Some 2) demo_registry = None"
proof -
  have l: "length (versions ''order'' demo_registry) = 1" "pd_id (versions ''order'' demo_registry ! 0) = ''d''"
    using demo_registry_versions by (auto simp: map_eq_Cons_conv)
  show ?thesis using version_lookup [OF demo_registry_reach, of "''order''"] l by auto
qed

lemma drop_definitions:
  "dget (reg_definitions (fold drop_definition ds g)) key = (if key \<in> pd_key ` set ds then None else dget (reg_definitions g) key)"
  "x \<in> set (versions key g) \<Longrightarrow> pd_id x \<notin> pd_id ` set ds \<Longrightarrow> x \<in> set (versions key (fold drop_definition ds g))"
  "reg_repository (fold drop_definition ds g) = reg_repository g"
proof -
  show "dget (reg_definitions (fold drop_definition ds g)) key = (if key \<in> pd_key ` set ds then None else dget (reg_definitions g) key)"
    by (induction ds arbitrary: g) (auto simp: drop_definition_def)
  show "reg_repository (fold drop_definition ds g) = reg_repository g"
    by (induction ds arbitrary: g) (simp_all add: drop_definition_def)
  show "x \<in> set (versions key g) \<Longrightarrow> pd_id x \<notin> pd_id ` set ds \<Longrightarrow> x \<in> set (versions key (fold drop_definition ds g))"
  proof (induction ds arbitrary: g)
    case (Cons d ds)
    then have "x \<in> set (versions key (drop_definition d g))"
      by (auto simp: versions_def drop_definition_def dget_or_def split: option.splits)
    then show ?case using Cons by simp
  qed simp
qed

text \<open>
  Deleting a deployment takes the keys of its definitions out of use altogether, also where another
  deployment has a version of the key that stays registered: that version is found by its number, but no
  instance of the key can be started any more.  The repository is not told, so a reload brings the deleted
  definitions back.
\<close>

theorem deleting_hides_other_versions:
  assumes "dget (reg_deployments g) dep = Some dp" and "d \<in> set (dp_definitions dp)"
    and "other \<in> set (versions (pd_key d) g)" and "pd_id other \<notin> pd_id ` set (dp_definitions dp)"
  shows "\<exists>g'. unregister_deployment dep g = (None, g') \<and> get_definition (pd_key d) None g' = None \<and>
    other \<in> set (versions (pd_key d) g') \<and> reg_repository g' = reg_repository g"
proof -
  let ?g = "fold drop_definition (dp_definitions dp) g"
  have "unregister_deployment dep g = (None, ?g\<lparr>reg_deployments := ddel dep (reg_deployments ?g)\<rparr>)"
    by (simp add: unregister_deployment_def assms(1) Let_def)
  then show ?thesis
    using assms(2) drop_definitions(1) [of "dp_definitions dp" g "pd_key d"] drop_definitions(2) [OF assms(3,4)]
      drop_definitions(3) [of "dp_definitions dp" g]
    by (auto simp: get_definition_def versions_def)
qed

definition demo_ids2 :: "nat \<Rightarrow> string" where
  "demo_ids2 i = (if i = 0 then ''dep2'' else ''d2'')"

definition demo_registry2 :: registry where
  "demo_registry2 = snd (register_deployment (\<lambda>_. 0) demo_ids2 ''second'' [(''order.bpmn'', ''<process id='' @ [CHR 0x22] @ ''order'' @ [CHR 0x22] @ ''>'')]
     ''api'' None demo_registry)"

theorem deleting_hides_other_versions_witness:
  "\<exists>g' other. unregister_deployment ''dep'' demo_registry2 = (None, g') \<and> get_definition ''order'' None g' = None \<and>
     other \<in> set (versions ''order'' g') \<and> pd_id other = ''d2''"
proof -
  obtain dp where dp: "dget (reg_deployments demo_registry2) ''dep'' = Some dp"
    "map (\<lambda>d. (pd_id d, pd_key d)) (dp_definitions dp) = [(''d'', ''order'')]"
    by (simp add: demo_registry2_def demo_registry_def register_deployment_def deploy_resource_def Let_def parse_definition_def
        file_definition_def extract_key_def detect_type_def lower_char_def attribute_at_def registry_init_def demo_ids_def demo_ids2_def)
  have ids: "map pd_id (versions ''order'' demo_registry2) = [''d'', ''d2'']"
    by (simp add: demo_registry2_def demo_registry_def register_deployment_def deploy_resource_def Let_def versions_def parse_definition_def
        file_definition_def extract_key_def detect_type_def lower_char_def attribute_at_def registry_init_def append_to_def dget_or_def
        demo_ids_def demo_ids2_def)
  have "''d2'' \<in> set (map pd_id (versions ''order'' demo_registry2))" unfolding ids by simp
  then obtain other where o: "other \<in> set (versions ''order'' demo_registry2)" "pd_id other = ''d2''" by auto
  obtain d where d: "dp_definitions dp = [d]" "pd_key d = ''order''" "pd_id d = ''d''" using dp(2) by (auto simp: map_eq_Cons_conv)
  have "d \<in> set (dp_definitions dp)" "other \<in> set (versions (pd_key d) demo_registry2)" "pd_id other \<notin> pd_id ` set (dp_definitions dp)"
    using o d by simp_all
  from deleting_hides_other_versions [OF dp(1) this] o(2) d(2) show ?thesis by auto
qed

end
