(* ===== verification/Engine.thy ===== *)
theory Engine
  imports TokenManagers Instances Scheduling Correlation RuntimeManagers Deployments
begin

section \<open>The orchestration engine\<close>

text \<open>
  \<open>core/engine.py\<close> (lifecycle, deployment, instances), \<open>core/engine_states.py\<close>, and the lifecycle, instance
  and recovery services of \<open>core/engine_services.py\<close>: the facade that composes the other components.  The
  event bus is the one inside the correlation engine; the history repository is shared by correlation engine and
  scheduler, and \<open>on_correlation\<close> keeps the two references equal.  \<open>clks\<close> gives each phase of an operation its own clock
  readings.  The BPMN, CMMN and other handlers that execute an instance are a parameter: a function of the
  instance's id, the definition and the engine, by definition type.  The serialiser behind the state manager
  is the parameter \<open>ser\<close>, as in theory \<open>RuntimeManagers\<close>.
\<close>

subsection \<open>Lifecycle states\<close>

datatype engine_state_obj = StoppedState | StartingState | RunningState | PausedState | StoppingState | ErrorState

datatype engine_op = StartOp | StopOp | PauseOp | ResumeOp

fun engine_state_name :: "engine_state_obj \<Rightarrow> string" where
  "engine_state_name StoppedState = ''stopped''"
| "engine_state_name StartingState = ''starting''"
| "engine_state_name RunningState = ''running''"
| "engine_state_name PausedState = ''paused''"
| "engine_state_name StoppingState = ''stopping''"
| "engine_state_name ErrorState = ''error''"

fun stopped_state :: "engine_op \<Rightarrow> engine_state_obj result" where
  "stopped_state StartOp = Inr StartingState"
| "stopped_state StopOp = Inr StoppedState"
| "stopped_state PauseOp = Inl (RuntimeError ''Cannot pause a stopped engine'')"
| "stopped_state ResumeOp = Inl (RuntimeError ''Cannot resume a stopped engine'')"

fun starting_state :: "engine_op \<Rightarrow> engine_state_obj result" where
  "starting_state StartOp = Inr StartingState"
| "starting_state StopOp = Inr StoppedState"
| "starting_state PauseOp = Inl (RuntimeError ''Cannot pause an engine that is starting'')"
| "starting_state ResumeOp = Inl (RuntimeError ''Cannot resume an engine that is starting'')"

fun running_state :: "engine_op \<Rightarrow> engine_state_obj result" where
  "running_state StartOp = Inr RunningState"
| "running_state StopOp = Inr StoppingState"
| "running_state PauseOp = Inr PausedState"
| "running_state ResumeOp = Inr RunningState"

fun paused_state :: "engine_op \<Rightarrow> engine_state_obj result" where
  "paused_state StartOp = Inr RunningState"
| "paused_state StopOp = Inr StoppingState"
| "paused_state PauseOp = Inr PausedState"
| "paused_state ResumeOp = Inr RunningState"

fun stopping_state :: "engine_op \<Rightarrow> engine_state_obj result" where
  "stopping_state StartOp = Inr StoppingState"
| "stopping_state StopOp = Inr StoppingState"
| "stopping_state PauseOp = Inl (RuntimeError ''Cannot pause an engine that is stopping'')"
| "stopping_state ResumeOp = Inl (RuntimeError ''Cannot resume an engine that is stopping'')"

fun error_state :: "engine_op \<Rightarrow> engine_state_obj result" where
  "error_state StartOp = Inr StartingState"
| "error_state StopOp = Inr StoppingState"
| "error_state PauseOp = Inr ErrorState"
| "error_state ResumeOp = Inr ErrorState"

fun engine_state_method :: "engine_state_obj \<Rightarrow> engine_op \<Rightarrow> engine_state_obj result" where
  "engine_state_method StoppedState op = stopped_state op"
| "engine_state_method StartingState op = starting_state op"
| "engine_state_method RunningState op = running_state op"
| "engine_state_method PausedState op = paused_state op"
| "engine_state_method StoppingState op = stopping_state op"
| "engine_state_method ErrorState op = error_state op"

subsection \<open>The engine's state\<close>

text \<open>
  \<open>instances\<close> of the engine and of its instance manager refer to the same objects until a recovery files
  newly loaded objects in the manager: \<open>Managed\<close> is the manager's object of that id, \<open>Detached\<close> an object that
  the engine alone still has.
\<close>

datatype instance_ref = Managed | Detached ProcessInstance

record OrchestrationEngine =
  en_lifecycle_state :: engine_state_obj
  en_correlation :: CorrelationEngine
  en_scheduler :: Scheduler
  en_instance_manager :: InstanceManager
  en_instance_repository :: repo
  en_token_manager :: TokenManager
  en_token_repository :: repo
  en_variable_manager :: VariableManager
  en_state_manager :: StateManager
  en_registry :: registry
  en_instances :: "(string, instance_ref) dict"
  en_active_instances :: "string list"
  en_suspended_instances :: "string list"
  en_bam_running :: "bool option"
  en_shutdown :: bool
  en_enable_metrics :: bool

abbreviation en_bus :: "OrchestrationEngine \<Rightarrow> EventBus" where
  "en_bus e \<equiv> ce_event_bus (en_correlation e)"

definition set_bus :: "EventBus \<Rightarrow> OrchestrationEngine \<Rightarrow> OrchestrationEngine" where
  "set_bus b e = e\<lparr>en_correlation := (en_correlation e)\<lparr>ce_event_bus := b\<rparr>\<rparr>"

record repositories =
  rp_event :: repo
  rp_instance :: repo
  rp_history :: repo
  rp_variable :: repo
  rp_token :: repo
  rp_definition :: repo

definition engine_init :: "bool \<Rightarrow> bool \<Rightarrow> repositories \<Rightarrow> OrchestrationEngine" where
  "engine_init enable_bam enable_metrics rp =
     \<lparr>en_lifecycle_state = StoppedState,
      en_correlation = correlation_init (event_bus_init 10000 (Some (rp_event rp))) (Some (rp_history rp)),
      en_scheduler = scheduler_init 100 (Some (rp_history rp)),
      en_instance_manager = instance_manager_init, en_instance_repository = rp_instance rp,
      en_token_manager = token_manager_init, en_token_repository = rp_token rp,
      en_variable_manager = variable_manager_init (Some (rp_variable rp)), en_state_manager = state_manager_init,
      en_registry = registry_init (rp_definition rp), en_instances = [], en_active_instances = [],
      en_suspended_instances = [], en_bam_running = (if enable_bam then Some False else None), en_shutdown = False,
      en_enable_metrics = enable_metrics\<rparr>"

definition on_correlation ::
  "(CorrelationEngine \<Rightarrow> 'a \<times> CorrelationEngine) \<Rightarrow> OrchestrationEngine \<Rightarrow> 'a \<times> OrchestrationEngine" where
  "on_correlation f e =
     (case f (en_correlation e) of
        (x, c) \<Rightarrow> (x, e\<lparr>en_correlation := c,
                       en_scheduler := (en_scheduler e)\<lparr>sch_history_repository := ce_history_repository c\<rparr>\<rparr>))"

definition engine_publish ::
  "clock \<Rightarrow> (nat \<Rightarrow> string) \<Rightarrow> EventType \<Rightarrow> pydict \<Rightarrow> OrchestrationEngine \<Rightarrow> OrchestrationEngine outcome" where
  "engine_publish clk ids ty data = on_correlation (ce_publish clk ids ty data)"

subsection \<open>Recovery\<close>

fun parsed_instances :: "clock \<Rightarrow> pydict list \<Rightarrow> ProcessInstance list" where
  "parsed_instances clk [] = []"
| "parsed_instances clk (p # ps) = (case instance_from_record clk p of Inl _ \<Rightarrow> [] | Inr i \<Rightarrow> i # parsed_instances clk ps)"

definition detach :: "string list \<Rightarrow> OrchestrationEngine \<Rightarrow> OrchestrationEngine" where
  "detach loaded e =
     e\<lparr>en_instances := map (\<lambda>(iid, ref). (iid,
         case ref of
           Detached i \<Rightarrow> Detached i
         | Managed \<Rightarrow> if iid \<in> set loaded
                      then (case get_instance iid (en_instance_manager e) of None \<Rightarrow> Managed | Some i \<Rightarrow> Detached i)
                      else Managed)) (en_instances e)\<rparr>"

definition recover_instance :: "(nat \<Rightarrow> clock) \<Rightarrow> ProcessInstance \<Rightarrow> OrchestrationEngine \<Rightarrow> OrchestrationEngine outcome" where
  "recover_instance clks i e =
     (case load_instance_tokens (Some (\<lambda>r iid. get_by_instance iid r)) (clks 0) (Some (en_token_repository e)) (pi_id i)
             (en_token_manager e) of
        (Inl err, tm) \<Rightarrow> (Some err, e\<lparr>en_token_manager := tm\<rparr>)
      | (Inr _, tm) \<Rightarrow>
          (case vm_restore_persisted (pi_id i) None (en_variable_manager e) of
             (Inl err, vm) \<Rightarrow> (Some err, e\<lparr>en_token_manager := tm, en_variable_manager := vm\<rparr>)
           | (Inr _, vm) \<Rightarrow>
               (case reload_tasks_from_history (clks 1) (pi_id i) (en_scheduler e) of
                  (Inl err, s) \<Rightarrow> (Some err, e\<lparr>en_token_manager := tm, en_variable_manager := vm, en_scheduler := s\<rparr>)
                | (Inr _, s) \<Rightarrow> (None, e\<lparr>en_token_manager := tm, en_variable_manager := vm, en_scheduler := s\<rparr>))))"

fun recover_each :: "(nat \<Rightarrow> clock) \<Rightarrow> ProcessInstance list \<Rightarrow> OrchestrationEngine \<Rightarrow> OrchestrationEngine outcome" where
  "recover_each clks [] e = (None, e)"
| "recover_each clks (i # is) e =
     (case recover_instance clks i e of
        (Some err, e1) \<Rightarrow> (Some err, e1)
      | (None, e1) \<Rightarrow> recover_each (\<lambda>k. clks (k + 2)) is e1)"

definition count_state :: "InstanceState \<Rightarrow> ProcessInstance list \<Rightarrow> nat" where
  "count_state st is = length (remdups (map pi_id (filter (\<lambda>i. pi_state i = st) is)))"

definition recover ::
  "(nat \<Rightarrow> clock) \<Rightarrow> string \<Rightarrow> OrchestrationEngine \<Rightarrow> (nat \<times> nat \<times> nat) result \<times> OrchestrationEngine" where
  "recover clks uuid e =
     (let e0 = detach (map pi_id (parsed_instances (clks 0) (repo_list None (en_instance_repository e)))) e
      in case load_all_instances (repo_list None) (clks 0) (Some (en_instance_repository e)) (en_instance_manager e) of
           (Inl err, im) \<Rightarrow> (Inl err, e0\<lparr>en_instance_manager := im\<rparr>)
         | (Inr is, im) \<Rightarrow>
             (case on_correlation (reload_from_history (clks 1 0) uuid) (e0\<lparr>en_instance_manager := im\<rparr>) of
                (Some err, e1) \<Rightarrow> (Inl err, e1)
              | (None, e1) \<Rightarrow>
                  (case recover_each (\<lambda>k. clks (k + 3)) is e1 of
                     (Some err, e2) \<Rightarrow> (Inl err, e2)
                   | (None, e2) \<Rightarrow>
                       (case reload_history (clks 2 0) uuid (eb_max_history_size (en_bus e2)) (en_bus e2) of
                          (Inl err, b) \<Rightarrow> (Inl err, set_bus b e2)
                        | (Inr _, b) \<Rightarrow>
                            (Inr (length is, count_state Instances.ACTIVE is, count_state Instances.SUSPENDED is), set_bus b e2)))))"

subsection \<open>Starting, stopping and pausing\<close>

definition lifecycle_start :: "(nat \<Rightarrow> clock) \<Rightarrow> string \<Rightarrow> OrchestrationEngine \<Rightarrow> OrchestrationEngine outcome" where
  "lifecycle_start clks uuid e =
     (case recover clks uuid e of
        (Inl err, e1) \<Rightarrow> (Some err, e1)
      | (Inr _, e1) \<Rightarrow>
          (None, (set_bus (bus_start (en_bus e1)) e1)
             \<lparr>en_scheduler := sch_start (en_scheduler e1), en_bam_running := map_option (\<lambda>_. True) (en_bam_running e1)\<rparr>))"

definition engine_start ::
  "(nat \<Rightarrow> clock) \<Rightarrow> string \<Rightarrow> clock \<Rightarrow> (nat \<Rightarrow> string) \<Rightarrow> OrchestrationEngine \<Rightarrow> OrchestrationEngine outcome" where
  "engine_start clks uuid clk ids e =
     (case engine_state_method (en_lifecycle_state e) StartOp of
        Inl err \<Rightarrow> (Some err, e)
      | Inr st \<Rightarrow>
          (let e0 = e\<lparr>en_lifecycle_state := st\<rparr>
           in if st \<noteq> StartingState then (None, e0)
              else case lifecycle_start clks uuid e0 of
                     (Some err, e1) \<Rightarrow> (Some err, e1\<lparr>en_lifecycle_state := ErrorState\<rparr>)
                   | (None, e1) \<Rightarrow>
                       (case engine_publish clk ids ENGINE_STARTED [] (e1\<lparr>en_lifecycle_state := RunningState\<rparr>) of
                          (Some err, e2) \<Rightarrow> (Some err, e2\<lparr>en_lifecycle_state := ErrorState\<rparr>)
                        | (None, e2) \<Rightarrow> (None, e2))))"

text \<open>Nothing in the repository adds to \<open>_executor_tasks\<close>, so there is nothing to wait for.\<close>

definition engine_stop :: "clock \<Rightarrow> (nat \<Rightarrow> string) \<Rightarrow> OrchestrationEngine \<Rightarrow> OrchestrationEngine outcome" where
  "engine_stop clk ids e =
     (case engine_state_method (en_lifecycle_state e) StopOp of
        Inl err \<Rightarrow> (Some err, e)
      | Inr st \<Rightarrow>
          (let e0 = e\<lparr>en_lifecycle_state := st\<rparr>
           in if st \<noteq> StoppingState then (None, e0)
              else case engine_publish clk ids ENGINE_STOPPED []
                          (e0\<lparr>en_shutdown := True, en_scheduler := sch_stop (en_scheduler e0),
                              en_bam_running := map_option (\<lambda>_. False) (en_bam_running e0)\<rparr>) of
                     (Some err, e1) \<Rightarrow> (Some err, e1)
                   | (None, e1) \<Rightarrow> (None, (set_bus (bus_stop (en_bus e1)) e1)\<lparr>en_lifecycle_state := StoppedState\<rparr>)))"

definition engine_pause :: "clock \<Rightarrow> (nat \<Rightarrow> string) \<Rightarrow> OrchestrationEngine \<Rightarrow> OrchestrationEngine outcome" where
  "engine_pause clk ids e =
     (case engine_state_method (en_lifecycle_state e) PauseOp of
        Inl err \<Rightarrow> (Some err, e)
      | Inr st \<Rightarrow>
          (let e0 = e\<lparr>en_lifecycle_state := st\<rparr>
           in if st = PausedState
              then engine_publish clk ids ENGINE_PAUSED [] (e0\<lparr>en_scheduler := sch_pause (en_scheduler e0)\<rparr>)
              else (None, e0)))"

definition engine_resume :: "clock \<Rightarrow> (nat \<Rightarrow> string) \<Rightarrow> OrchestrationEngine \<Rightarrow> OrchestrationEngine outcome" where
  "engine_resume clk ids e =
     (case engine_state_method (en_lifecycle_state e) ResumeOp of
        Inl err \<Rightarrow> (Some err, e)
      | Inr st \<Rightarrow>
          (let e0 = e\<lparr>en_lifecycle_state := st\<rparr>
           in if st = RunningState \<and> en_lifecycle_state e = PausedState
              then engine_publish clk ids ENGINE_RESUMED [] (e0\<lparr>en_scheduler := sch_resume (en_scheduler e0)\<rparr>)
              else (None, e0)))"

text \<open>One turn of \<open>_job_executor_loop\<close> and of \<open>_monitoring_loop\<close>, which catch and log every exception.\<close>

definition job_executor_turn :: "datetime \<Rightarrow> OrchestrationEngine \<Rightarrow> OrchestrationEngine" where
  "job_executor_turn now e =
     (if en_lifecycle_state e = RunningState
      then e\<lparr>en_scheduler := snd (process_due_jobs now (en_scheduler e))\<rparr> else e)"

definition monitoring_turn :: "clock \<Rightarrow> (nat \<Rightarrow> string) \<Rightarrow> OrchestrationEngine \<Rightarrow> OrchestrationEngine" where
  "monitoring_turn clk ids e =
     (if en_lifecycle_state e = RunningState \<and> en_enable_metrics e
      then snd (engine_publish clk ids METRICS_COLLECTED
             [(''active_instances'', PInt (int (length (en_active_instances e)))),
              (''suspended_instances'', PInt (int (length (en_suspended_instances e)))),
              (''total_definitions'', PInt (int (length (reg_definitions (en_registry e))))),
              (''total_deployments'', PInt (int (length (reg_deployments (en_registry e)))))] e)
      else e)"

subsection \<open>Deployments\<close>

definition deploy ::
  "clock \<Rightarrow> (nat \<Rightarrow> string) \<Rightarrow> clock \<Rightarrow> (nat \<Rightarrow> string) \<Rightarrow> string \<Rightarrow> (string, string) dict \<Rightarrow> string \<Rightarrow> string option
    \<Rightarrow> OrchestrationEngine \<Rightarrow> Deployment result \<times> OrchestrationEngine" where
  "deploy clk ids clk' ids' name resources source tenant e =
     (case register_deployment clk ids name resources source tenant (en_registry e) of
        (dep, g) \<Rightarrow>
          (case engine_publish clk' ids' DEPLOYMENT_CREATED [(''deployment_id'', PStr (dp_id dep)), (''name'', PStr name)]
                  (e\<lparr>en_registry := g\<rparr>) of
             (Some err, e1) \<Rightarrow> (Inl err, e1)
           | (None, e1) \<Rightarrow> (Inr dep, e1)))"

subsection \<open>Instances\<close>

definition engine_instance :: "string \<Rightarrow> OrchestrationEngine \<Rightarrow> ProcessInstance option" where
  "engine_instance iid e =
     (case dget (en_instances e) iid of
        None \<Rightarrow> None
      | Some Managed \<Rightarrow> get_instance iid (en_instance_manager e)
      | Some (Detached i) \<Rightarrow> Some i)"

text \<open>Assigning to the attributes of the object that the engine has under \<open>iid\<close>.\<close>

definition put_engine_instance :: "string \<Rightarrow> ProcessInstance \<Rightarrow> OrchestrationEngine \<Rightarrow> OrchestrationEngine" where
  "put_engine_instance iid i e =
     (case dget (en_instances e) iid of
        None \<Rightarrow> e
      | Some Managed \<Rightarrow> e\<lparr>en_instance_manager := (en_instance_manager e)\<lparr>im_instances := dset iid i (im_instances (en_instance_manager e))\<rparr>\<rparr>
      | Some (Detached _) \<Rightarrow> e\<lparr>en_instances := dset iid (Detached i) (en_instances e)\<rparr>)"

definition persist_managed :: "datetime \<Rightarrow> string \<Rightarrow> string \<Rightarrow> OrchestrationEngine \<Rightarrow> OrchestrationEngine" where
  "persist_managed now uuid iid e =
     (case persist_instance (save_persisted now uuid ''instance'') iid (en_instance_manager e) (Some (en_instance_repository e)) of
        (_, None) \<Rightarrow> e
      | (_, Some r) \<Rightarrow> e\<lparr>en_instance_repository := r\<rparr>)"

definition set_engine_state ::
  "(InstanceStateSnapshot \<Rightarrow> py_error option) \<Rightarrow> datetime \<Rightarrow> string \<Rightarrow> string \<Rightarrow> pydict \<Rightarrow> OrchestrationEngine \<Rightarrow> OrchestrationEngine outcome" where
  "set_engine_state ser now iid st data e =
     (case sm_set_persisted ser now iid st (Some data) (en_state_manager e) of (err, m) \<Rightarrow> (err, e\<lparr>en_state_manager := m\<rparr>))"

type_synonym start_handlers = "string \<Rightarrow> (string \<Rightarrow> ProcessDefinition \<Rightarrow> OrchestrationEngine \<Rightarrow> OrchestrationEngine outcome) option"

definition started_data :: "ProcessInstance \<Rightarrow> pydict" where
  "started_data i =
     [(''definition_id'', PStr (pi_definition_id i)), (''definition_key'', PStr (pi_definition_key i)),
      (''business_key'', opt_str (pi_business_key i)), (''variables'', PDict (pi_variables i))]"

text \<open>\<open>InstanceService.start_instance\<close> on the instance that the engine has created.\<close>

definition start_instance ::
  "(InstanceStateSnapshot \<Rightarrow> py_error option) \<Rightarrow> start_handlers \<Rightarrow> (nat \<Rightarrow> clock) \<Rightarrow> (nat \<Rightarrow> nat \<Rightarrow> string) \<Rightarrow> ProcessDefinition
    \<Rightarrow> string option \<Rightarrow> pydict \<Rightarrow> ProcessInstance \<Rightarrow> OrchestrationEngine \<Rightarrow> OrchestrationEngine outcome" where
  "start_instance ser hs clks uuids d bkey vars i e =
     (let e1 = persist_managed (clks 0 0) (uuids 0 0) (pi_id i) (e\<lparr>en_instance_manager := add_instance i (en_instance_manager e)\<rparr>)
      in case set_engine_state ser (clks 0 1) (pi_id i) (instance_state_value (pi_state i)) (started_data i) e1 of
           (Some err, e2) \<Rightarrow> (Some err, e2)
         | (None, e2) \<Rightarrow>
             (case persist_variables (clks 1) (uuids 1) (pi_id i) vars (en_variable_manager e2) of
                (Some err, vm) \<Rightarrow> (Some err, e2\<lparr>en_variable_manager := vm\<rparr>)
              | (None, vm) \<Rightarrow>
                  (case engine_publish (clks 2) (uuids 2) PROCESS_INSTANCE_STARTED
                          [(''instance_id'', PStr (pi_id i)), (''definition_key'', PStr (pd_key d)), (''business_key'', opt_str bkey)]
                          (e2\<lparr>en_variable_manager := vm\<rparr>) of
                     (Some err, e3) \<Rightarrow> (Some err, e3)
                   | (None, e3) \<Rightarrow>
                       (case hs (pd_definition_type d) of None \<Rightarrow> (None, e3) | Some h \<Rightarrow> h (pi_id i) d e3))))"

definition start_process_instance ::
  "(InstanceStateSnapshot \<Rightarrow> py_error option) \<Rightarrow> start_handlers \<Rightarrow> datetime \<Rightarrow> string \<Rightarrow> (nat \<Rightarrow> clock) \<Rightarrow> (nat \<Rightarrow> nat \<Rightarrow> string)
    \<Rightarrow> string \<Rightarrow> string option \<Rightarrow> pydict \<Rightarrow> string option \<Rightarrow> OrchestrationEngine \<Rightarrow> string result \<times> OrchestrationEngine" where
  "start_process_instance ser hs now uuid clks uuids key bkey vars tenant e =
     (case dget (reg_definitions (en_registry e)) key of
        None \<Rightarrow> (Inl (ValueError (''Process definition not found: '' @ key)), e)
      | Some d \<Rightarrow>
          if pd_is_suspended d then (Inl (RuntimeError (''Process definition is suspended: '' @ key)), e)
          else (let i = new_instance (\<lambda>_. now) uuid (pd_id d) (pd_key d) (pd_version d) bkey tenant Instances.ACTIVE ROOT None None None
                          (Some now) (Some vars)
                in case start_instance ser hs clks uuids d bkey vars i
                          (e\<lparr>en_instances := dset uuid Managed (en_instances e), en_active_instances := sadd uuid (en_active_instances e)\<rparr>) of
                     (Some err, e1) \<Rightarrow> (Inl err, e1)
                   | (None, e1) \<Rightarrow> (Inr uuid, e1)))"

definition delete_instance ::
  "(InstanceStateSnapshot \<Rightarrow> py_error option) \<Rightarrow> (nat \<Rightarrow> clock) \<Rightarrow> (nat \<Rightarrow> nat \<Rightarrow> string) \<Rightarrow> string \<Rightarrow> string \<Rightarrow> OrchestrationEngine
    \<Rightarrow> OrchestrationEngine outcome" where
  "delete_instance ser clks uuids iid reason e =
     (case on_correlation (cleanup_instance_subscriptions_persisted (clks 0) (uuids 0) iid) e of
        (Inl err, e1) \<Rightarrow> (Some err, e1)
      | (Inr _, e1) \<Rightarrow>
          (case set_engine_state ser (clks 1 1) iid (instance_state_value Instances.TERMINATED)
                  [(''delete_reason'', PStr reason), (''variables'', PDict [])] (persist_managed (clks 1 0) (uuids 1 0) iid e1) of
             (Some err, e2) \<Rightarrow> (Some err, e2)
           | (None, e2) \<Rightarrow>
               engine_publish (clks 2) (uuids 2) PROCESS_INSTANCE_TERMINATED
                 [(''instance_id'', PStr iid), (''reason'', PStr reason)] e2))"

fun delete_instances ::
  "(InstanceStateSnapshot \<Rightarrow> py_error option) \<Rightarrow> (nat \<Rightarrow> clock) \<Rightarrow> (nat \<Rightarrow> nat \<Rightarrow> string) \<Rightarrow> string list \<Rightarrow> OrchestrationEngine
    \<Rightarrow> OrchestrationEngine outcome" where
  "delete_instances ser clks uuids [] e = (None, e)"
| "delete_instances ser clks uuids (iid # iids) e =
     (case delete_instance ser clks uuids iid ''Deployment deleted'' e of
        (Some err, e1) \<Rightarrow> (Some err, e1)
      | (None, e1) \<Rightarrow> delete_instances ser (\<lambda>k. clks (k + 3)) (\<lambda>k. uuids (k + 3)) iids e1)"

definition delete_deployment ::
  "(InstanceStateSnapshot \<Rightarrow> py_error option) \<Rightarrow> (nat \<Rightarrow> clock) \<Rightarrow> (nat \<Rightarrow> nat \<Rightarrow> string) \<Rightarrow> string \<Rightarrow> bool \<Rightarrow> OrchestrationEngine
    \<Rightarrow> OrchestrationEngine outcome" where
  "delete_deployment ser clks uuids dep cascade e =
     (let ids = (case dget (reg_deployments (en_registry e)) dep of
                   None \<Rightarrow> []
                 | Some d \<Rightarrow> if cascade
                             then instances_of (map (\<lambda>iid. (iid, case engine_instance iid e of None \<Rightarrow> [] | Some i \<Rightarrow> pi_definition_id i))
                                                  (dkeys (en_instances e))) d
                             else [])
      in case delete_instances ser clks uuids ids e of
           (Some err, e1) \<Rightarrow> (Some err, e1)
         | (None, e1) \<Rightarrow> (case unregister_deployment dep (en_registry e1) of (err, g) \<Rightarrow> (err, e1\<lparr>en_registry := g\<rparr>)))"

text \<open>
  \<open>_TRANSITIONS\<close>: the method and the event for a requested state; the other states are assigned to the
  attribute directly, which leaves a cached state object in place.
\<close>

definition text_or :: "string option \<Rightarrow> string \<Rightarrow> string" where
  "text_or reason d = (case nonempty_opt reason of [] \<Rightarrow> d | s # _ \<Rightarrow> s)"

fun requested_transition :: "string option \<Rightarrow> InstanceState \<Rightarrow> (instance_op \<times> EventType) option" where
  "requested_transition reason Instances.SUSPENDED = Some (Instances.Suspend, PROCESS_INSTANCE_SUSPENDED)"
| "requested_transition reason Instances.ACTIVE = Some (Instances.Resume, PROCESS_INSTANCE_RESUMED)"
| "requested_transition reason Instances.COMPLETED = Some (Instances.Complete, PROCESS_INSTANCE_COMPLETED)"
| "requested_transition reason Instances.TERMINATED = Some (Instances.Terminate (text_or reason ''Terminate''), PROCESS_INSTANCE_TERMINATED)"
| "requested_transition reason Instances.FAILED = Some (Instances.Fail (text_or reason ''Fail''), ERROR_THROWN)"
| "requested_transition reason _ = None"

definition transition_instance ::
  "clock \<Rightarrow> string option \<Rightarrow> InstanceState \<Rightarrow> ProcessInstance \<Rightarrow> EventType result \<times> ProcessInstance" where
  "transition_instance clk reason st i =
     (case requested_transition reason st of
        None \<Rightarrow> (Inr CUSTOM, i\<lparr>pi_state := st\<rparr>)
      | Some (op, ty) \<Rightarrow>
          if op = Instances.Resume \<and> pi_state i \<noteq> Instances.SUSPENDED then (Inr ty, i)
          else (case instance_apply clk op i of (Some err, i') \<Rightarrow> (Inl err, i') | (None, i') \<Rightarrow> (Inr ty, i')))"

definition updated_data :: "ProcessInstance \<Rightarrow> pydict" where
  "updated_data i =
     [(''definition_id'', PStr (pi_definition_id i)), (''definition_key'', PStr (pi_definition_key i)),
      (''business_key'', opt_str (pi_business_key i)), (''delete_reason'', opt_str (pi_delete_reason i)),
      (''variables'', PDict (pi_variables i))]"

definition service_update_state ::
  "(InstanceStateSnapshot \<Rightarrow> py_error option) \<Rightarrow> (nat \<Rightarrow> clock) \<Rightarrow> (nat \<Rightarrow> nat \<Rightarrow> string) \<Rightarrow> string \<Rightarrow> InstanceState \<Rightarrow> string option
    \<Rightarrow> ProcessInstance \<Rightarrow> OrchestrationEngine \<Rightarrow> OrchestrationEngine outcome" where
  "service_update_state ser clks uuids iid st reason i e =
     (case transition_instance (clks 0) reason st i of
        (Inl err, i1) \<Rightarrow> (Some err, put_engine_instance iid i1 e)
      | (Inr ty, i1) \<Rightarrow>
          (case set_engine_state ser (clks 1 1) (pi_id i1) (instance_state_value st) (updated_data i1)
                  (persist_managed (clks 1 0) (uuids 1 0) (pi_id i1) (put_engine_instance iid i1 e)) of
             (Some err, e1) \<Rightarrow> (Some err, e1)
           | (None, e1) \<Rightarrow>
               engine_publish (clks 2) (uuids 2) ty
                 [(''instance_id'', PStr (pi_id i1)), (''state'', PStr (instance_state_value st)), (''reason'', opt_str reason)] e1))"

definition track_state :: "string \<Rightarrow> InstanceState \<Rightarrow> OrchestrationEngine \<Rightarrow> OrchestrationEngine" where
  "track_state iid st e =
     (if st = Instances.SUSPENDED
      then e\<lparr>en_active_instances := sdiscard iid (en_active_instances e), en_suspended_instances := sadd iid (en_suspended_instances e)\<rparr>
      else if st = Instances.ACTIVE
      then e\<lparr>en_active_instances := sadd iid (en_active_instances e), en_suspended_instances := sdiscard iid (en_suspended_instances e)\<rparr>
      else e\<lparr>en_active_instances := sdiscard iid (en_active_instances e), en_suspended_instances := sdiscard iid (en_suspended_instances e)\<rparr>)"

definition update_instance_state ::
  "(InstanceStateSnapshot \<Rightarrow> py_error option) \<Rightarrow> (nat \<Rightarrow> clock) \<Rightarrow> (nat \<Rightarrow> nat \<Rightarrow> string) \<Rightarrow> string \<Rightarrow> InstanceState \<Rightarrow> string option
    \<Rightarrow> OrchestrationEngine \<Rightarrow> OrchestrationEngine outcome" where
  "update_instance_state ser clks uuids iid st reason e =
     (case engine_instance iid e of
        None \<Rightarrow> (Some (ValueError (''Instance not found: '' @ iid)), e)
      | Some i \<Rightarrow>
          (case service_update_state ser clks uuids iid st reason i e of
             (Some err, e1) \<Rightarrow> (Some err, e1)
           | (None, e1) \<Rightarrow> (None, track_state iid st e1)))"

subsection \<open>Publishing from the engine\<close>

lemma event_append_ok: "\<exists>p r'. event_append_persisted now now' uuid (event_to_record ev) r = Inr (p, r')"
  by (simp add: event_append_persisted_def event_to_record_def Let_def setdefault_def has_key_def payload_simps save_persisted_def
      repo_save_def)

lemma publish_ok:
  "\<exists>b'. publish now uuid ev b = (None, b') \<and> eb_event_queue b' = eb_event_queue b @ [ev] \<and> eb_is_running b' = eb_is_running b \<and>
     eb_max_history_size b' = eb_max_history_size b"
proof -
  let ?b = "append_history ev (b\<lparr>eb_published_count := eb_published_count b + 1\<rparr>)"
  have "\<exists>b1. persist_event now uuid ev ?b = (None, b1) \<and> eb_event_queue b1 = eb_event_queue b \<and> eb_is_running b1 = eb_is_running b \<and>
      eb_max_history_size b1 = eb_max_history_size b"
  proof (cases "eb_event_repository ?b")
    case None
    then show ?thesis by (simp add: persist_event_def append_history_def)
  next
    case (Some r)
    obtain p r' where "event_append_persisted now now uuid (event_to_record ev) r = Inr (p, r')"
      using event_append_ok [of now now uuid ev r] by blast
    with Some show ?thesis by (simp add: persist_event_def append_history_def)
  qed
  then show ?thesis by (auto simp: publish_def)
qed

text \<open>The engine's events are always stored and queued; nothing else changes once the history is shared.\<close>

definition shared :: "OrchestrationEngine \<Rightarrow> bool" where
  "shared e \<longleftrightarrow> sch_history_repository (en_scheduler e) = ce_history_repository (en_correlation e)"

lemma engine_publish_ok:
  assumes "shared e"
  obtains b where "engine_publish clk ids ty data e = (None, set_bus b e)"
    "eb_event_queue b = eb_event_queue (en_bus e) @ [new_event (clk 0) (ids 0) ty data]" "eb_is_running b = eb_is_running (en_bus e)"
proof -
  obtain b where b: "publish (clk 1) (ids 1) (new_event (clk 0) (ids 0) ty data) (en_bus e) = (None, b)"
    "eb_event_queue b = eb_event_queue (en_bus e) @ [new_event (clk 0) (ids 0) ty data]" "eb_is_running b = eb_is_running (en_bus e)"
    using publish_ok [of "clk 1" "ids 1" "new_event (clk 0) (ids 0) ty data" "en_bus e"] by blast
  have "(en_scheduler e)\<lparr>sch_history_repository := ce_history_repository (en_correlation e)\<rparr> = en_scheduler e"
    using assms by (simp add: shared_def)
  then have "engine_publish clk ids ty data e = (None, set_bus b e)"
    using b(1) by (simp add: engine_publish_def on_correlation_def ce_publish_def set_bus_def)
  with that b show ?thesis by blast
qed

lemma set_bus_fields [simp]:
  "en_lifecycle_state (set_bus b e) = en_lifecycle_state e" "en_scheduler (set_bus b e) = en_scheduler e"
  "en_instance_manager (set_bus b e) = en_instance_manager e" "en_instance_repository (set_bus b e) = en_instance_repository e"
  "en_token_manager (set_bus b e) = en_token_manager e" "en_variable_manager (set_bus b e) = en_variable_manager e"
  "en_state_manager (set_bus b e) = en_state_manager e" "en_registry (set_bus b e) = en_registry e"
  "en_instances (set_bus b e) = en_instances e" "en_active_instances (set_bus b e) = en_active_instances e"
  "en_suspended_instances (set_bus b e) = en_suspended_instances e" "en_bam_running (set_bus b e) = en_bam_running e"
  "en_bus (set_bus b e) = b" "ce_history_repository (en_correlation (set_bus b e)) = ce_history_repository (en_correlation e)"
  "shared (set_bus b e) = shared e"
  by (simp_all add: set_bus_def shared_def)

subsection \<open>Running components and the engine's state\<close>

text \<open>The flags that starting, stopping and pausing change.\<close>

definition flags :: "OrchestrationEngine \<Rightarrow> engine_state_obj \<times> bool \<times> bool \<times> bool \<times> bool option" where
  "flags e = (en_lifecycle_state e, eb_is_running (en_bus e), sch_is_running (en_scheduler e), sch_is_paused (en_scheduler e), en_bam_running e)"

lemma publish_flags: "flags (snd (engine_publish clk ids ty data e)) = flags e" "shared (snd (engine_publish clk ids ty data e))"
proof -
  let ?ev = "new_event (clk 0) (ids 0) ty data"
  obtain b where "publish (clk 1) (ids 1) ?ev (en_bus e) = (None, b)" "eb_is_running b = eb_is_running (en_bus e)"
    using publish_ok [of "clk 1" "ids 1" ?ev "en_bus e"] by blast
  then show "flags (snd (engine_publish clk ids ty data e)) = flags e" "shared (snd (engine_publish clk ids ty data e))"
    by (simp_all add: engine_publish_def on_correlation_def ce_publish_def flags_def shared_def)
qed

lemma reload_loop_flags:
  "sch_is_running (snd (reload_loop clk seen rows s)) = sch_is_running s"
  "sch_is_paused (snd (reload_loop clk seen rows s)) = sch_is_paused s"
  "sch_history_repository (snd (reload_loop clk seen rows s)) = sch_history_repository s"
  by (induction rows arbitrary: clk seen s)
     (simp_all add: restore_task_def heappush_def Let_def case_prod_beta split: sum.splits option.splits)

lemma reload_tasks_flags:
  "sch_is_running (snd (reload_tasks_from_history clk iid s)) = sch_is_running s"
  "sch_is_paused (snd (reload_tasks_from_history clk iid s)) = sch_is_paused s"
  "sch_history_repository (snd (reload_tasks_from_history clk iid s)) = sch_history_repository s"
  by (simp_all add: reload_tasks_from_history_def reload_loop_flags split: option.splits sum.splits)

lemma snd_case_result:
  assumes "\<And>s. g (f s) = g c"
  shows "g (snd (case x of Inl err \<Rightarrow> (Some err, c) | Inr s \<Rightarrow> (None, f s))) = g c"
  using assms by (cases x) simp_all

lemma replay_row_frame:
  "ce_event_bus (snd (replay_row now uuid row en)) = ce_event_bus en"
proof -
  have frame: "ce_event_bus (snd (subscribe_message now uuid n ks iid aid sid c)) = ce_event_bus c"
    "ce_event_bus (snd (subscribe_event now uuid n iid aid sid c)) = ce_event_bus c"
    "ce_event_bus (snd (unsubscribe_message k c)) = ce_event_bus c"
    "ce_event_bus (snd (unsubscribe_event k c)) = ce_event_bus c"
    "ce_event_bus (buffer_message m c) = ce_event_bus c" "ce_event_bus (c\<lparr>ce_buffered_messages := ms\<rparr>) = ce_event_bus c"
    for n ks iid aid sid k c m ms
    by (simp_all add: subscribe_message_def subscribe_event_def file_event_sub_def unsubscribe_message_def unsubscribe_event_def
        buffer_message_def Let_def split: option.splits)
  show ?thesis
    unfolding replay_row_def
    by (cases "py_str (pget_or row ''action'' (PStr []))"; cases "pget row ''payload''")
       (simp_all only: sum.case pyval.case snd_conv if_split frame snd_case_result [where g = ce_event_bus] simp_thms
          split: if_split)
qed

lemma replay_rows_frame: "ce_event_bus (snd (replay_rows now uuid rows en)) = ce_event_bus en"
proof (induction rows arbitrary: en)
  case (Cons row rows)
  obtain err en1 where r: "replay_row now uuid row en = (err, en1)" by fastforce
  have "ce_event_bus en1 = ce_event_bus en" using replay_row_frame [of now uuid row en] r by simp
  then show ?case using Cons.IH [of en1] r by (cases err) simp_all
qed simp

lemma reload_from_history_frame: "ce_event_bus (snd (reload_from_history now uuid en)) = ce_event_bus en"
  by (simp add: reload_from_history_def replay_rows_frame cleared_def split: option.splits sum.splits)

lemma unsubscribe_persisted_frame:
  "ce_event_bus (snd (unsubscribe_message_persisted clk u k en)) = ce_event_bus en"
  "ce_event_bus (snd (unsubscribe_event_persisted clk u k en)) = ce_event_bus en"
proof -
  have un: "ce_event_bus (snd (unsubscribe_message k c)) = ce_event_bus c" "ce_event_bus (snd (unsubscribe_event k c)) = ce_event_bus c" for c
    by (simp_all add: unsubscribe_message_def unsubscribe_event_def split: option.splits)
  have app: "ce_append_history clk u i a p c = (x, c') \<Longrightarrow> ce_event_bus c' = ce_event_bus c" for i a p c x c'
    using ce_append_history_frame(6) [of clk u i a p c] by simp
  show "ce_event_bus (snd (unsubscribe_message_persisted clk u k en)) = ce_event_bus en"
    by (auto simp: unsubscribe_message_persisted_def un dest!: app split: option.splits prod.splits)
  show "ce_event_bus (snd (unsubscribe_event_persisted clk u k en)) = ce_event_bus en"
    by (auto simp: unsubscribe_event_persisted_def un dest!: app split: option.splits prod.splits)
qed

lemma cleanup_frame: "ce_event_bus (snd (cleanup_instance_subscriptions_persisted clk ids iid en)) = ce_event_bus en"
proof -
  have msgs: "ce_event_bus (snd (unsubscribe_messages_persisted clk ids ks c)) = ce_event_bus c" for clk ids ks c
  proof (induction ks arbitrary: clk ids c)
    case (Cons k ks)
    obtain r c1 where r: "unsubscribe_message_persisted clk (ids 0) k c = (r, c1)" by fastforce
    have "ce_event_bus c1 = ce_event_bus c" using unsubscribe_persisted_frame(1) [of clk "ids 0" k c] r by simp
    then show ?case using Cons.IH r by (cases r) simp_all
  qed simp
  have evs: "ce_event_bus (snd (unsubscribe_events_persisted clk ids ks c)) = ce_event_bus c" for clk ids ks c
  proof (induction ks arbitrary: clk ids c)
    case (Cons k ks)
    obtain r c1 where r: "unsubscribe_event_persisted clk (ids 0) k c = (r, c1)" by fastforce
    have "ce_event_bus c1 = ce_event_bus c" using unsubscribe_persisted_frame(2) [of clk "ids 0" k c] r by simp
    then show ?case using Cons.IH r by (cases r) simp_all
  qed simp
  obtain err c1 where c1: "unsubscribe_messages_persisted clk ids (idx_get (ce_instance_message_subs en) iid) en = (err, c1)" by fastforce
  have "ce_event_bus c1 = ce_event_bus en" using msgs [of clk ids "idx_get (ce_instance_message_subs en) iid" en] c1 by simp
  then show ?thesis
    unfolding cleanup_instance_subscriptions_persisted_def Let_def c1
    by (cases err) (simp_all add: evs case_prod_beta split: option.split)
qed

text \<open>Operations of the correlation engine that leave the bus alone leave the flags alone.\<close>

lemma on_correlation_flags:
  assumes "ce_event_bus (snd (f (en_correlation e))) = en_bus e"
  shows "flags (snd (on_correlation f e)) = flags e" "shared (snd (on_correlation f e))"
  using assms by (simp_all add: on_correlation_def flags_def shared_def case_prod_beta)

lemma recover_instance_flags: "flags (snd (recover_instance clks i e)) = flags e" "shared e \<Longrightarrow> shared (snd (recover_instance clks i e))"
proof -
  obtain r tm where t: "load_instance_tokens (Some (\<lambda>r iid. get_by_instance iid r)) (clks 0) (Some (en_token_repository e)) (pi_id i)
    (en_token_manager e) = (r, tm)" by fastforce
  obtain r2 vm where v: "vm_restore_persisted (pi_id i) None (en_variable_manager e) = (r2, vm)" by fastforce
  obtain r3 s where s: "reload_tasks_from_history (clks 1) (pi_id i) (en_scheduler e) = (r3, s)" by fastforce
  have "sch_is_running s = sch_is_running (en_scheduler e)" "sch_is_paused s = sch_is_paused (en_scheduler e)"
    "sch_history_repository s = sch_history_repository (en_scheduler e)"
    using reload_tasks_flags [of "clks 1" "pi_id i" "en_scheduler e"] s by simp_all
  then show "flags (snd (recover_instance clks i e)) = flags e" "shared e \<Longrightarrow> shared (snd (recover_instance clks i e))"
    unfolding recover_instance_def t v s by (cases r; cases r2; cases r3; simp add: flags_def shared_def)+
qed

lemma recover_each_flags:
  "flags (snd (recover_each clks is e)) = flags e \<and> (shared e \<longrightarrow> shared (snd (recover_each clks is e)))"
proof (induction "is" arbitrary: clks e)
  case (Cons i "is")
  obtain err e1 where r: "recover_instance clks i e = (err, e1)" by fastforce
  have "flags e1 = flags e" "shared e \<longrightarrow> shared e1" using recover_instance_flags [where clks = clks and i = i and e = e] r by simp_all
  then show ?case using Cons.IH [of "\<lambda>k. clks (k + 2)" e1] r by (cases err) simp_all
qed simp

lemma reload_history_running: "eb_is_running (snd (reload_history now uuid n b)) = eb_is_running b"
  by (simp add: reload_history_def split: option.splits sum.splits)

lemma flags_manager [simp]:
  "flags (e\<lparr>en_instance_manager := im\<rparr>) = flags e" "shared (e\<lparr>en_instance_manager := im\<rparr>) = shared e"
  "flags (detach ids e) = flags e" "shared (detach ids e) = shared e"
  by (simp_all add: flags_def shared_def detach_def)

lemma recover_flags: "flags (snd (recover clks uuid e)) = flags e \<and> (shared e \<longrightarrow> shared (snd (recover clks uuid e)))"
proof -
  let ?e0 = "detach (map pi_id (parsed_instances (clks 0) (repo_list None (en_instance_repository e)))) e"
  obtain r im where l: "load_all_instances (repo_list None) (clks 0) (Some (en_instance_repository e)) (en_instance_manager e) = (r, im)"
    by fastforce
  obtain err e1 where c: "on_correlation (reload_from_history (clks 1 0) uuid) (?e0\<lparr>en_instance_manager := im\<rparr>) = (err, e1)" by fastforce
  have e1: "flags e1 = flags e" "shared e1"
    using on_correlation_flags [of "reload_from_history (clks 1 0) uuid" "?e0\<lparr>en_instance_manager := im\<rparr>"] c
    by (simp_all add: reload_from_history_frame)
  show ?thesis
  proof (cases "r")
    case (Inl x)
    then show ?thesis unfolding recover_def Let_def l by simp
  next
    case (Inr is')
    obtain err2 e2 where r2: "recover_each (\<lambda>k. clks (k + 3)) is' e1 = (err2, e2)" by fastforce
    have e2: "flags e2 = flags e" "shared e2" using recover_each_flags [of "\<lambda>k. clks (k + 3)" is' e1] r2 e1 by simp_all
    obtain r3 b where h: "reload_history (clks 2 0) uuid (eb_max_history_size (en_bus e2)) (en_bus e2) = (r3, b)" by fastforce
    have "eb_is_running b = eb_is_running (en_bus e2)"
      using reload_history_running [of "clks 2 0" uuid "eb_max_history_size (en_bus e2)" "en_bus e2"] h by simp
    then have "flags (set_bus b e2) = flags e" "shared (set_bus b e2)" using e2 by (simp_all add: flags_def)
    then show ?thesis
      unfolding recover_def Let_def l Inr prod.case sum.case c r2
      using e1 e2 h r2 by (cases err; cases err2; cases r3) simp_all
  qed
qed

text \<open>
  Between operations the engine is stopped, running, paused or in error; the bus, the scheduler and the monitor
  run exactly in the states running and paused, and the scheduler is paused when the engine is.
\<close>

definition flags_ok :: "engine_state_obj \<times> bool \<times> bool \<times> bool \<times> bool option \<Rightarrow> bool" where
  "flags_ok = (\<lambda>(st, bus, sched, paused, bam).
     if st = RunningState \<or> st = PausedState then bus \<and> sched \<and> bam \<noteq> Some False \<and> (st = PausedState \<longrightarrow> paused)
     else (st = StoppedState \<or> st = ErrorState) \<and> \<not> bus \<and> \<not> sched \<and> bam \<noteq> Some True)"

definition engine_ok :: "OrchestrationEngine \<Rightarrow> bool" where
  "engine_ok e \<longleftrightarrow> shared e \<and> flags_ok (flags e)"

lemma engine_ok_cong: "flags e' = flags e \<Longrightarrow> (shared e \<Longrightarrow> shared e') \<Longrightarrow> engine_ok e \<Longrightarrow> engine_ok e'"
  by (simp add: engine_ok_def)

lemma engine_ok_init: "engine_ok (engine_init bam metrics rp)"
  by (simp add: engine_ok_def engine_init_def shared_def flags_def flags_ok_def correlation_init_def event_bus_init_def scheduler_init_def)

lemma lifecycle_start_flags:
  assumes "lifecycle_start clks uuid e = (err, e1)" "shared e"
  shows "shared e1 \<and> en_lifecycle_state e1 = en_lifecycle_state e \<and>
    (err \<noteq> None \<longrightarrow> flags e1 = flags e) \<and>
    (err = None \<longrightarrow> eb_is_running (en_bus e1) \<and> sch_is_running (en_scheduler e1) \<and>
       (\<not> sch_is_running (en_scheduler e) \<longrightarrow> \<not> sch_is_paused (en_scheduler e1)) \<and> en_bam_running e1 \<noteq> Some False)"
proof -
  obtain r e0 where r: "recover clks uuid e = (r, e0)" by fastforce
  have "flags e0 = flags e" "shared e0" using recover_flags [of clks uuid e] r assms(2) by simp_all
  then show ?thesis
    using assms(1) r by (cases r) (auto simp: lifecycle_start_def flags_def shared_def set_bus_def bus_start_def sch_start_def)
qed

lemma engine_ok_start:
  assumes "engine_ok e"
  shows "engine_ok (snd (engine_start clks uuid clk ids e))"
proof -
  have sh: "shared e" and fl: "flags_ok (flags e)" using assms by (simp_all add: engine_ok_def)
  consider "en_lifecycle_state e \<in> {RunningState, PausedState}" | "en_lifecycle_state e \<in> {StoppedState, ErrorState}"
    using fl by (auto simp: flags_ok_def flags_def split: if_splits)
  then show ?thesis
  proof cases
    case 1
    then show ?thesis using sh fl by (auto simp: engine_start_def Let_def engine_ok_def flags_def flags_ok_def shared_def)
  next
    case 2
    let ?e = "e\<lparr>en_lifecycle_state := StartingState\<rparr>"
    obtain err e1 where s: "lifecycle_start clks uuid ?e = (err, e1)" by fastforce
    have sh': "shared ?e" using sh by (simp add: shared_def)
    note f = lifecycle_start_flags [OF s sh']
    have ns: "\<not> sch_is_running (en_scheduler ?e)" "\<not> eb_is_running (en_bus ?e)" using 2 fl by (auto simp: flags_ok_def flags_def)
    have m: "engine_state_method (en_lifecycle_state e) StartOp = Inr StartingState" using 2 by auto
    show ?thesis
    proof (cases err)
      case (Some x)
      then show ?thesis
        using f 2 fl s m by (auto simp: engine_start_def Let_def engine_ok_def flags_def flags_ok_def shared_def)
    next
      case None
      have "shared (e1\<lparr>en_lifecycle_state := RunningState\<rparr>)" using f by (simp add: shared_def)
      then obtain b where p: "engine_publish clk ids ENGINE_STARTED [] (e1\<lparr>en_lifecycle_state := RunningState\<rparr>) =
          (None, set_bus b (e1\<lparr>en_lifecycle_state := RunningState\<rparr>))" "eb_is_running b = eb_is_running (en_bus e1)"
        by (rule engine_publish_ok) simp
      show ?thesis
        using f None s m p by (simp add: engine_start_def Let_def engine_ok_def flags_def flags_ok_def shared_def)
    qed
  qed
qed

lemma engine_ok_stop:
  assumes "engine_ok e"
  shows "engine_ok (snd (engine_stop clk ids e))"
proof (cases "en_lifecycle_state e = StoppedState")
  case True
  then have "snd (engine_stop clk ids e) = e" by (simp add: engine_stop_def Let_def)
  with assms show ?thesis by simp
next
  case False
  have sh: "shared e" and fl: "flags_ok (flags e)" using assms by (simp_all add: engine_ok_def)
  have m: "engine_state_method (en_lifecycle_state e) StopOp = Inr StoppingState"
    using False fl by (cases "en_lifecycle_state e") (auto simp: flags_ok_def flags_def)
  let ?e = "e\<lparr>en_lifecycle_state := StoppingState, en_shutdown := True, en_scheduler := sch_stop (en_scheduler e),
    en_bam_running := map_option (\<lambda>_. False) (en_bam_running e)\<rparr>"
  have "shared ?e" using sh by (simp add: shared_def sch_stop_def)
  then obtain b where p: "engine_publish clk ids ENGINE_STOPPED [] ?e = (None, set_bus b ?e)" by (rule engine_publish_ok)
  have "snd (engine_stop clk ids e) = (set_bus (bus_stop b) (set_bus b ?e))\<lparr>en_lifecycle_state := StoppedState\<rparr>"
    using m p by (simp add: engine_stop_def Let_def)
  then show ?thesis
    using sh by (auto simp: engine_ok_def flags_def flags_ok_def shared_def set_bus_def bus_stop_def sch_stop_def)
qed

lemma engine_ok_pause: "engine_ok e \<Longrightarrow> engine_ok (snd (engine_pause clk ids e))"
proof -
  assume ok: "engine_ok e"
  show ?thesis
  proof (cases "en_lifecycle_state e \<in> {RunningState, PausedState}")
    case False
    then show ?thesis using ok by (cases "en_lifecycle_state e") (simp_all add: engine_pause_def Let_def engine_ok_def flags_def shared_def)
  next
    case True
    let ?e = "e\<lparr>en_lifecycle_state := PausedState, en_scheduler := sch_pause (en_scheduler e)\<rparr>"
    have "snd (engine_pause clk ids e) = snd (engine_publish clk ids ENGINE_PAUSED [] ?e)"
      using True by (auto simp: engine_pause_def Let_def)
    then show ?thesis
      using ok True publish_flags [of clk ids ENGINE_PAUSED "[]" ?e]
      by (auto simp: engine_ok_def flags_def flags_ok_def sch_pause_def)
  qed
qed

lemma engine_ok_resume: "engine_ok e \<Longrightarrow> engine_ok (snd (engine_resume clk ids e))"
proof -
  assume ok: "engine_ok e"
  show ?thesis
  proof (cases "en_lifecycle_state e = PausedState")
    case False
    then show ?thesis using ok by (cases "en_lifecycle_state e") (simp_all add: engine_resume_def Let_def engine_ok_def flags_def shared_def)
  next
    case True
    let ?e = "e\<lparr>en_lifecycle_state := RunningState, en_scheduler := sch_resume (en_scheduler e)\<rparr>"
    have "snd (engine_resume clk ids e) = snd (engine_publish clk ids ENGINE_RESUMED [] ?e)"
      using True by (simp add: engine_resume_def Let_def)
    then show ?thesis
      using ok True publish_flags [of clk ids ENGINE_RESUMED "[]" ?e]
      by (auto simp: engine_ok_def flags_def flags_ok_def sch_resume_def)
  qed
qed

subsection \<open>The other operations keep the flags\<close>

definition keeps :: "(OrchestrationEngine \<Rightarrow> OrchestrationEngine) \<Rightarrow> bool" where
  "keeps f \<longleftrightarrow> (\<forall>e. flags (f e) = flags e \<and> (shared e \<longrightarrow> shared (f e)))"

lemma keepsD: "keeps f \<Longrightarrow> flags (f e) = flags e" "keeps f \<Longrightarrow> shared e \<Longrightarrow> shared (f e)"
  by (simp_all add: keeps_def)

lemma keeps_ok: "keeps f \<Longrightarrow> engine_ok e \<Longrightarrow> engine_ok (f e)"
  by (simp add: keeps_def engine_ok_def)

lemma keeps_comp: "keeps f \<Longrightarrow> keeps g \<Longrightarrow> keeps (\<lambda>e. g (f e))"
  by (simp add: keeps_def)

lemma keeps_publish: "keeps (\<lambda>e. snd (engine_publish clk ids ty data e))"
  by (simp add: keeps_def publish_flags)

lemma keeps_set_state: "keeps (\<lambda>e. snd (set_engine_state ser now iid st data e))"
  by (simp add: keeps_def set_engine_state_def flags_def shared_def case_prod_beta)

lemma keeps_persist: "keeps (persist_managed now uuid iid)"
  by (simp add: keeps_def persist_managed_def flags_def shared_def split: prod.split option.split)

lemma keeps_put: "keeps (put_engine_instance iid i)"
  by (simp add: keeps_def put_engine_instance_def flags_def shared_def split: option.split instance_ref.split)

lemma keeps_track: "keeps (track_state iid st)"
  by (simp add: keeps_def track_state_def flags_def shared_def)

lemma keeps_cleanup: "keeps (\<lambda>e. snd (on_correlation (cleanup_instance_subscriptions_persisted clk ids iid) e))"
  by (simp add: keeps_def on_correlation_flags cleanup_frame)

lemma keeps_registry: "keeps (\<lambda>e. e\<lparr>en_registry := g\<rparr>)"
  by (simp add: keeps_def flags_def shared_def)

text \<open>A step that may raise, followed by another one that runs only when it did not.\<close>

lemma keeps_outcome:
  assumes "f e = (err, e1)" "keeps (\<lambda>e. snd (f e))"
  shows "flags e1 = flags e" "shared e \<Longrightarrow> shared e1"
  using keepsD [OF assms(2), of e] assms(1) by simp_all

lemma delete_instance_keeps: "keeps (\<lambda>e. snd (delete_instance ser clks uuids iid reason e))"
  unfolding keeps_def
proof (intro allI conjI impI)
  fix e
  obtain r e1 where c: "on_correlation (cleanup_instance_subscriptions_persisted (clks 0) (uuids 0) iid) e = (r, e1)" by fastforce
  let ?e = "persist_managed (clks 1 0) (uuids 1 0) iid e1"
  obtain err e2 where s: "set_engine_state ser (clks 1 1) iid (instance_state_value Instances.TERMINATED)
      [(''delete_reason'', PStr reason), (''variables'', PDict [])] ?e = (err, e2)" by fastforce
  note k = keeps_outcome [OF c keeps_cleanup] keepsD [OF keeps_persist, where e = e1]
    keeps_outcome [OF s keeps_set_state] keepsD [OF keeps_publish]
  show "flags (snd (delete_instance ser clks uuids iid reason e)) = flags e"
    unfolding delete_instance_def c prod.case using k by (cases r; cases err; simp add: s del: One_nat_def instance_state_value.simps)
  assume "shared e"
  then show "shared (snd (delete_instance ser clks uuids iid reason e))"
    unfolding delete_instance_def c prod.case using k by (cases r; cases err; simp add: s del: One_nat_def instance_state_value.simps)
qed

lemma delete_deployment_keeps: "keeps (\<lambda>e. snd (delete_deployment ser clks uuids dep cascade e))"
proof -
  have each: "flags (snd (delete_instances ser clks uuids iids e)) = flags e \<and>
      (shared e \<longrightarrow> shared (snd (delete_instances ser clks uuids iids e)))" for clks uuids iids e
  proof (induction iids arbitrary: clks uuids e)
    case (Cons iid iids)
    obtain err e1 where d: "delete_instance ser clks uuids iid ''Deployment deleted'' e = (err, e1)" by fastforce
    note k = keeps_outcome [OF d delete_instance_keeps]
    show ?case using k d Cons.IH [of "\<lambda>k. clks (k + 3)" "\<lambda>k. uuids (k + 3)" e1] by (cases err) simp_all
  qed simp
  show ?thesis
    unfolding keeps_def
  proof (intro allI)
    fix e
    define ids where "ids = (case dget (reg_deployments (en_registry e)) dep of
                   None \<Rightarrow> []
                 | Some d \<Rightarrow> if cascade
                             then instances_of (map (\<lambda>iid. (iid, case engine_instance iid e of None \<Rightarrow> [] | Some i \<Rightarrow> pi_definition_id i))
                                                  (dkeys (en_instances e))) d
                             else [])"
    obtain err e1 where d: "delete_instances ser clks uuids ids e = (err, e1)" by fastforce
    have "flags e1 = flags e" "shared e \<longrightarrow> shared e1" using each [of clks uuids ids e] d by simp_all
    then show "flags (snd (delete_deployment ser clks uuids dep cascade e)) = flags e \<and>
        (shared e \<longrightarrow> shared (snd (delete_deployment ser clks uuids dep cascade e)))"
      unfolding delete_deployment_def Let_def ids_def [symmetric] d prod.case
      by (cases err) (simp_all add: flags_def shared_def case_prod_beta)
  qed
qed

lemma update_state_keeps: "keeps (\<lambda>e. snd (update_instance_state ser clks uuids iid st reason e))"
  unfolding keeps_def
proof (intro allI)
  fix e
  have service: "flags (snd (service_update_state ser clks uuids iid st reason i e)) = flags e \<and>
      (shared e \<longrightarrow> shared (snd (service_update_state ser clks uuids iid st reason i e)))" for i
  proof -
    obtain r i1 where t: "transition_instance (clks 0) reason st i = (r, i1)" by fastforce
    let ?e = "persist_managed (clks 1 0) (uuids 1 0) (pi_id i1) (put_engine_instance iid i1 e)"
    obtain err e2 where s: "set_engine_state ser (clks 1 1) (pi_id i1) (instance_state_value st) (updated_data i1) ?e = (err, e2)"
      by fastforce
    note k = keepsD [OF keeps_put, where e = e] keepsD [OF keeps_persist, where e = "put_engine_instance iid i1 e"]
      keeps_outcome [OF s keeps_set_state] keepsD [OF keeps_publish]
    show ?thesis unfolding service_update_state_def t prod.case using k by (cases r; cases err; simp add: s del: One_nat_def instance_state_value.simps)
  qed
  show "flags (snd (update_instance_state ser clks uuids iid st reason e)) = flags e \<and>
      (shared e \<longrightarrow> shared (snd (update_instance_state ser clks uuids iid st reason e)))"
  proof (cases "engine_instance iid e")
    case (Some i)
    obtain err e1 where s: "service_update_state ser clks uuids iid st reason i e = (err, e1)" by fastforce
    have "flags e1 = flags e" "shared e \<longrightarrow> shared e1" using service [of i] s by simp_all
    then show ?thesis
      using keepsD [OF keeps_track, where e = e1] Some s by (cases err) (simp_all add: update_instance_state_def)
  qed (simp add: update_instance_state_def)
qed

lemma deploy_keeps: "keeps (\<lambda>e. snd (deploy clk ids clk' ids' name resources source tenant e))"
  unfolding keeps_def
proof (intro allI)
  fix e :: OrchestrationEngine
  obtain d g where r: "register_deployment clk ids name resources source tenant (en_registry e) = (d, g)" by fastforce
  let ?data = "[(''deployment_id'', PStr (dp_id d)), (''name'', PStr name)]"
  obtain err e1 where p: "engine_publish clk' ids' DEPLOYMENT_CREATED ?data (e\<lparr>en_registry := g\<rparr>) = (err, e1)" by fastforce
  show "flags (snd (deploy clk ids clk' ids' name resources source tenant e)) = flags e \<and>
      (shared e \<longrightarrow> shared (snd (deploy clk ids clk' ids' name resources source tenant e)))"
    using keeps_outcome [OF p keeps_publish] keepsD [OF keeps_registry, where e = e] r p by (cases err) (simp_all add: deploy_def)
qed

text \<open>Handlers of definition types neither start, stop nor pause the engine or its components.\<close>

definition tame :: "start_handlers \<Rightarrow> bool" where
  "tame hs \<longleftrightarrow> (\<forall>ty h iid d. hs ty = Some h \<longrightarrow> keeps (\<lambda>e. snd (h iid d e)))"

lemma start_process_instance_keeps:
  assumes "tame hs"
  shows "keeps (\<lambda>e. snd (start_process_instance ser hs now uuid clks uuids key bkey vars tenant e))"
  unfolding keeps_def
proof (intro allI)
  fix e
  have step: "flags (snd (start_instance ser hs clks uuids d bkey vars i e')) = flags e' \<and>
      (shared e' \<longrightarrow> shared (snd (start_instance ser hs clks uuids d bkey vars i e')))" for d i e'
  proof -
    let ?e1 = "persist_managed (clks 0 0) (uuids 0 0) (pi_id i) (e'\<lparr>en_instance_manager := add_instance i (en_instance_manager e')\<rparr>)"
    have k1: "flags ?e1 = flags e'" "shared e' \<longrightarrow> shared ?e1"
      using keepsD [OF keeps_persist, where e = "e'\<lparr>en_instance_manager := add_instance i (en_instance_manager e')\<rparr>"]
      by simp_all
    obtain err e2 where s: "set_engine_state ser (clks 0 1) (pi_id i) (instance_state_value (pi_state i)) (started_data i) ?e1 = (err, e2)"
      by fastforce
    note k2 = keeps_outcome [OF s keeps_set_state]
    obtain err2 vm where v: "persist_variables (clks 1) (uuids 1) (pi_id i) vars (en_variable_manager e2) = (err2, vm)" by fastforce
    let ?data = "[(''instance_id'', PStr (pi_id i)), (''definition_key'', PStr (pd_key d)), (''business_key'', opt_str bkey)]"
    have k3: "flags (e2\<lparr>en_variable_manager := vm\<rparr>) = flags e2" "shared (e2\<lparr>en_variable_manager := vm\<rparr>) = shared e2"
      by (simp_all add: flags_def shared_def)
    obtain err3 e3 where p: "engine_publish (clks 2) (uuids 2) PROCESS_INSTANCE_STARTED ?data (e2\<lparr>en_variable_manager := vm\<rparr>) = (err3, e3)"
      by fastforce
    note k4 = keeps_outcome [OF p keeps_publish]
    have k5: "hs (pd_definition_type d) = Some h \<Longrightarrow> flags (snd (h (pi_id i) d e3)) = flags e3 \<and> (shared e3 \<longrightarrow> shared (snd (h (pi_id i) d e3)))" for h
      using assms keepsD [of "\<lambda>e. snd (h (pi_id i) d e)" e3] by (auto simp: tame_def)
    show ?thesis
      unfolding start_instance_def Let_def s prod.case
      using k1 k2 k3 k4 k5 v p by (cases err; cases err2; cases err3; cases "hs (pd_definition_type d)") simp_all
  qed
  show "flags (snd (start_process_instance ser hs now uuid clks uuids key bkey vars tenant e)) = flags e \<and>
      (shared e \<longrightarrow> shared (snd (start_process_instance ser hs now uuid clks uuids key bkey vars tenant e)))"
  proof (cases "dget (reg_definitions (en_registry e)) key")
    case (Some d)
    let ?e = "e\<lparr>en_instances := dset uuid Managed (en_instances e), en_active_instances := sadd uuid (en_active_instances e)\<rparr>"
    let ?i = "new_instance (\<lambda>_. now) uuid (pd_id d) (pd_key d) (pd_version d) bkey tenant Instances.ACTIVE ROOT None None None (Some now) (Some vars)"
    obtain err e1 where s: "start_instance ser hs clks uuids d bkey vars ?i ?e = (err, e1)" by fastforce
    have "flags ?e = flags e" "shared ?e = shared e" by (simp_all add: flags_def shared_def)
    then show ?thesis
      using step [of d ?i ?e] Some s by (cases err) (simp_all add: start_process_instance_def Let_def)
  qed (simp add: start_process_instance_def)
qed

subsection \<open>Reachable engines\<close>

inductive en_reach :: "OrchestrationEngine \<Rightarrow> bool" where
  init: "en_reach (engine_init bam metrics rp)"
| start: "en_reach e \<Longrightarrow> en_reach (snd (engine_start clks uuid clk ids e))"
| stop: "en_reach e \<Longrightarrow> en_reach (snd (engine_stop clk ids e))"
| pause: "en_reach e \<Longrightarrow> en_reach (snd (engine_pause clk ids e))"
| resume: "en_reach e \<Longrightarrow> en_reach (snd (engine_resume clk ids e))"
| job: "en_reach e \<Longrightarrow> en_reach (job_executor_turn now e)"
| monitor: "en_reach e \<Longrightarrow> en_reach (monitoring_turn clk ids e)"
| deploy: "en_reach e \<Longrightarrow> en_reach (snd (deploy clk ids clk' ids' name resources source tenant e))"
| undeploy: "en_reach e \<Longrightarrow> en_reach (snd (delete_deployment ser clks uuids dep cascade e))"
| begin_instance: "en_reach e \<Longrightarrow> tame hs \<Longrightarrow>
    en_reach (snd (start_process_instance ser hs now uuid clks uuids key bkey vars tenant e))"
| delete: "en_reach e \<Longrightarrow> en_reach (snd (delete_instance ser clks uuids iid reason e))"
| update: "en_reach e \<Longrightarrow> en_reach (snd (update_instance_state ser clks uuids iid st reason e))"

lemma en_reach_ok: "en_reach e \<Longrightarrow> engine_ok e"
proof (induction rule: en_reach.induct)
  case (job e now)
  then show ?case
    by (auto simp: job_executor_turn_def engine_ok_def flags_def shared_def process_due_jobs_def split: prod.split)
next
  case (monitor e clk ids)
  then show ?case using keeps_ok [OF keeps_publish] by (simp add: monitoring_turn_def)
qed (simp_all add: engine_ok_init engine_ok_start engine_ok_stop engine_ok_pause engine_ok_resume keeps_ok [OF deploy_keeps]
    keeps_ok [OF delete_deployment_keeps] keeps_ok [OF start_process_instance_keeps] keeps_ok [OF delete_instance_keeps]
    keeps_ok [OF update_state_keeps])

lemma engine_start_running:
  assumes "shared e" "en_lifecycle_state e \<in> {StoppedState, ErrorState}"
    and "recover clks uuid (e\<lparr>en_lifecycle_state := StartingState\<rparr>) = (Inr n, e0)"
  obtains e1 where "engine_start clks uuid clk ids e = (None, e1)" "en_lifecycle_state e1 = RunningState"
    "en_instances e1 = en_instances e0" "en_instance_manager e1 = en_instance_manager e0"
    "en_variable_manager e1 = en_variable_manager e0" "en_active_instances e1 = en_active_instances e0"
proof -
  have m: "engine_state_method (en_lifecycle_state e) StartOp = Inr StartingState" using assms(2) by auto
  define e1 where "e1 = snd (lifecycle_start clks uuid (e\<lparr>en_lifecycle_state := StartingState\<rparr>))"
  have l: "lifecycle_start clks uuid (e\<lparr>en_lifecycle_state := StartingState\<rparr>) = (None, e1)"
    using assms(3) by (simp add: lifecycle_start_def e1_def)
  have f: "en_instances e1 = en_instances e0" "en_instance_manager e1 = en_instance_manager e0"
    "en_variable_manager e1 = en_variable_manager e0" "en_active_instances e1 = en_active_instances e0"
    using assms(3) by (simp_all add: lifecycle_start_def e1_def set_bus_def)
  have "shared (e1\<lparr>en_lifecycle_state := RunningState\<rparr>)"
    using lifecycle_start_flags [OF l] assms(1) by (simp add: shared_def)
  then obtain b where p: "engine_publish clk ids ENGINE_STARTED [] (e1\<lparr>en_lifecycle_state := RunningState\<rparr>) =
      (None, set_bus b (e1\<lparr>en_lifecycle_state := RunningState\<rparr>))" by (rule engine_publish_ok)
  show ?thesis
    by (rule that [of "set_bus b (e1\<lparr>en_lifecycle_state := RunningState\<rparr>)"])
       (simp_all add: engine_start_def Let_def m l p f)
qed

definition no_records :: repositories where
  "no_records = \<lparr>rp_event = [], rp_instance = [], rp_history = [], rp_variable = [], rp_token = [], rp_definition = []\<rparr>"

definition demo_running :: OrchestrationEngine where
  "demo_running = snd (engine_start (\<lambda>_ _. 0) ''u'' (\<lambda>_. 0) (\<lambda>_. ''u'') (engine_init True True no_records))"

definition demo_paused :: OrchestrationEngine where
  "demo_paused = snd (engine_pause (\<lambda>_. 0) (\<lambda>_. ''u'') demo_running)"

lemma demo_running_state: "en_reach demo_running" "en_lifecycle_state demo_running = RunningState"
proof -
  show "en_reach demo_running" unfolding demo_running_def by (intro en_reach.intros)
  have ok: "shared (engine_init True True no_records)" using engine_ok_init by (simp add: engine_ok_def)
  have "\<exists>n e0. recover (\<lambda>_ _. 0) ''u'' ((engine_init True True no_records)\<lparr>en_lifecycle_state := StartingState\<rparr>) = (Inr n, e0)"
    by (simp add: recover_def Let_def engine_init_def no_records_def repo_list_def detach_def load_all_instances_def on_correlation_def
        correlation_init_def reload_from_history_def reload_history_def event_bus_init_def cleared_def slice_last_def)
  then obtain n e0 where r: "recover (\<lambda>_ _. 0) ''u'' ((engine_init True True no_records)\<lparr>en_lifecycle_state := StartingState\<rparr>) = (Inr n, e0)"
    by blast
  show "en_lifecycle_state demo_running = RunningState"
    unfolding demo_running_def
    by (rule engine_start_running [OF ok _ r, where clk = "\<lambda>_. 0" and ids = "\<lambda>_. ''u''"]) (simp_all add: engine_init_def)
qed

lemma demo_paused_state: "en_reach demo_paused" "en_lifecycle_state demo_paused = PausedState"
proof -
  show "en_reach demo_paused" unfolding demo_paused_def by (intro en_reach.pause demo_running_state)
  have "demo_paused = snd (engine_publish (\<lambda>_. 0) (\<lambda>_. ''u'') ENGINE_PAUSED []
      (demo_running\<lparr>en_lifecycle_state := PausedState, en_scheduler := sch_pause (en_scheduler demo_running)\<rparr>))"
    by (simp add: demo_paused_def engine_pause_def demo_running_state(2) Let_def)
  then show "en_lifecycle_state demo_paused = PausedState"
    using publish_flags(1) [of "\<lambda>_. 0" "\<lambda>_. ''u''" ENGINE_PAUSED "[]"
      "demo_running\<lparr>en_lifecycle_state := PausedState, en_scheduler := sch_pause (en_scheduler demo_running)\<rparr>"]
    by (simp add: flags_def)
qed

subsection \<open>Properties of the lifecycle\<close>

text \<open>
  C6: Whatever is done with an engine, between operations it is stopped, running, paused or in error, never
  half-way; the event bus and the scheduler run exactly while it is running or paused, a paused engine has a paused
  scheduler, and a job executor starts no task unless the engine is running.
\<close>

theorem engine_components_follow_state:
  assumes "en_reach e"
  shows "en_lifecycle_state e \<in> {StoppedState, RunningState, PausedState, ErrorState} \<and>
    (eb_is_running (en_bus e) \<longleftrightarrow> en_lifecycle_state e \<in> {RunningState, PausedState}) \<and>
    (sch_is_running (en_scheduler e) \<longleftrightarrow> en_lifecycle_state e \<in> {RunningState, PausedState}) \<and>
    (en_lifecycle_state e = PausedState \<longrightarrow> sch_is_paused (en_scheduler e)) \<and>
    (en_lifecycle_state e \<noteq> RunningState \<longrightarrow> job_executor_turn now e = e)"
  using en_reach_ok [OF assms]
  by (auto simp: engine_ok_def flags_def flags_ok_def job_executor_turn_def split: if_splits)

theorem engine_components_follow_state_witness:
  "eb_is_running (en_bus demo_paused) \<and> sch_is_paused (en_scheduler demo_paused)"
  using engine_components_follow_state [OF demo_paused_state(1), of 0] demo_paused_state(2) by simp

text \<open>
  Defect.  Starting a paused engine makes it running without resuming its scheduler, and resuming has no
  effect any more: the engine reports that it runs while its scheduler stays paused.
\<close>

theorem start_while_paused:
  assumes "en_reach e" and "en_lifecycle_state e = PausedState"
  shows "\<exists>e1. engine_start clks uuid clk ids e = (None, e1) \<and> en_lifecycle_state e1 = RunningState \<and>
    sch_is_paused (en_scheduler e1) \<and> engine_resume clk' ids' e1 = (None, e1)"
proof -
  have "sch_is_paused (en_scheduler e)"
    using en_reach_ok [OF assms(1)] assms(2) by (simp add: engine_ok_def flags_def flags_ok_def)
  then show ?thesis using assms(2) by (simp add: engine_start_def engine_resume_def Let_def)
qed

theorem start_while_paused_witness:
  "\<exists>e1. engine_start (\<lambda>_ _. 0) ''u'' (\<lambda>_. 0) (\<lambda>_. ''u'') demo_paused = (None, e1) \<and> en_lifecycle_state e1 = RunningState \<and>
    sch_is_paused (en_scheduler e1)"
  using start_while_paused [OF demo_paused_state, of "\<lambda>_ _. 0" "''u''" "\<lambda>_. 0" "\<lambda>_. ''u''" "\<lambda>_. 0" "\<lambda>_. ''u''"] by blast

subsection \<open>Steps of the instance service\<close>

lemma persist_managed_eq:
  assumes "get_instance iid (en_instance_manager e) = Some i"
  shows "persist_managed now uuid iid e =
    e\<lparr>en_instance_repository := snd (save_persisted now uuid ''instance'' iid (instance_to_record i) (en_instance_repository e))\<rparr>"
  using assms by (simp add: persist_managed_def persist_instance_def case_prod_beta)

lemma set_engine_state_eq:
  "set_engine_state (\<lambda>_. None) now iid st data e =
    (None, e\<lparr>en_state_manager := snd (sm_set now iid st (Some data) (en_state_manager e))\<rparr>)"
  by (simp add: set_engine_state_def sm_set_persisted_def case_prod_beta)

lemma sm_get_set: "sm_get k (snd (sm_set now iid st data m)) = (if k = iid then Some (fst (sm_set now iid st data m)) else sm_get k m)"
  "ss_state (fst (sm_set now iid st data m)) = st"
  by (simp_all add: sm_set_def sm_get_def Let_def)

lemma stored_instance_loads:
  assumes "instance_times_ok i" "pi_root_instance_id i \<noteq> []" "pi_incident_count i = int (length (pi_incidents i))"
  shows "map_option (instance_from_record clk) (get_persisted k (snd (save_persisted now uuid ty k (instance_to_record i) r))) =
    Some (Inr (i\<lparr>pi_state_obj := None\<rparr>))"
  using instance_record_roundtrip_ext [OF assms, of clk] by (rule persistent_repo.read_back)

subsection \<open>Starting an instance\<close>

lemma started_instance:
  assumes "en_reach e" and "dget (reg_definitions (en_registry e)) key = Some d" and "\<not> pd_is_suspended d"
    and "hs (pd_definition_type d) = None" and "dict_ok vars" and "\<forall>(n, v) \<in> set vars. is_ok (type_name v)"
    and "vm_repository (en_variable_manager e) = Some r" and "get_by_instance uuid r = []"
    and "\<forall>n \<in> set (dkeys vars). dget r (variable_key uuid uuid n) = None" and "valid_datetime now" and "uuid \<noteq> []"
  shows "\<exists>e1 i. start_process_instance (\<lambda>_. None) hs now uuid clks uuids key bkey vars tenant e = (Inr uuid, e1) \<and>
    engine_instance uuid e1 = Some i \<and> dget (en_instances e1) uuid = Some Managed \<and> pi_id i = uuid \<and> instance_wf i \<and>
    (\<exists>b. en_correlation e1 = (en_correlation e)\<lparr>ce_event_bus := b\<rparr>) \<and>
    get_instance uuid (en_instance_manager e1) = Some i \<and>
    pi_state i = Instances.ACTIVE \<and> pi_definition_id i = pd_id d \<and> pi_variables i = vars \<and>
    map_option (instance_from_record clk) (get_persisted uuid (en_instance_repository e1)) = Some (Inr i) \<and>
    fst (vm_restore_persisted uuid None (en_variable_manager e1)) = Inr vars \<and>
    uuid \<in> set (en_active_instances e1) \<and> map_option ss_state (sm_get uuid (en_state_manager e1)) = Some ''active'' \<and>
    map ev_type (eb_event_queue (en_bus e1)) = map ev_type (eb_event_queue (en_bus e)) @ [PROCESS_INSTANCE_STARTED] \<and>
    vm_repository (en_variable_manager e1) \<noteq> None \<and> shared e1 \<and> en_token_manager e1 = en_token_manager e \<and>
    pi_execution_path i = [] \<and> pi_completed_activities i = []"
proof -
  define i where "i = new_instance (\<lambda>_. now) uuid (pd_id d) (pd_key d) (pd_version d) bkey tenant Instances.ACTIVE ROOT None None None
    (Some now) (Some vars)"
  have i: "pi_id i = uuid" "pi_state i = Instances.ACTIVE" "pi_definition_id i = pd_id d" "pi_variables i = vars" "i\<lparr>pi_state_obj := None\<rparr> = i"
    "instance_times_ok i" "pi_root_instance_id i \<noteq> []" "pi_incident_count i = int (length (pi_incidents i))"
    using assms(10,11) by (simp_all add: i_def new_instance_def instance_times_ok_def nonempty_opt_def)
  let ?e0 = "e\<lparr>en_instances := dset uuid Managed (en_instances e), en_active_instances := sadd uuid (en_active_instances e),
    en_instance_manager := add_instance i (en_instance_manager e)\<rparr>"
  have g: "get_instance uuid (add_instance i (en_instance_manager e)) = Some i"
    using i(1) by (simp add: get_instance_def add_instance_def file_instance_def)
  define e2 where "e2 = ?e0\<lparr>en_instance_repository := snd (save_persisted (clks 0 0) (uuids 0 0) ''instance'' uuid (instance_to_record i) (en_instance_repository e)),
    en_state_manager := snd (sm_set (clks 0 1) uuid ''active'' (Some (started_data i)) (en_state_manager e))\<rparr>"
  have steps: "set_engine_state (\<lambda>_. None) (clks 0 1) (pi_id i) (instance_state_value (pi_state i)) (started_data i)
      (persist_managed (clks 0 0) (uuids 0 0) (pi_id i) ?e0) = (None, e2)"
    using g by (simp add: i persist_managed_eq set_engine_state_eq e2_def)
  have vm2: "vm_repository (en_variable_manager e2) = Some r" using assms(7) by (simp add: e2_def)
  obtain vm where vm: "persist_variables (clks 1) (uuids 1) uuid vars (en_variable_manager e2) = (None, vm)"
    "vm_repository vm = Some (r @ variable_rows (clks 1) (uuids 1) uuid vars)"
    using persist_variables_rows [OF vm2 assms(5,6,9)] by blast
  have sh: "shared (e2\<lparr>en_variable_manager := vm\<rparr>)"
    using en_reach_ok [OF assms(1)] by (simp add: engine_ok_def shared_def e2_def)
  let ?data = "[(''instance_id'', PStr uuid), (''definition_key'', PStr (pd_key d)), (''business_key'', opt_str bkey)]"
  obtain b where p: "engine_publish (clks 2) (uuids 2) PROCESS_INSTANCE_STARTED ?data (e2\<lparr>en_variable_manager := vm\<rparr>) =
      (None, set_bus b (e2\<lparr>en_variable_manager := vm\<rparr>))"
    and q: "eb_event_queue b = eb_event_queue (en_bus (e2\<lparr>en_variable_manager := vm\<rparr>)) @
      [new_event (clks 2 0) (uuids 2 0) PROCESS_INSTANCE_STARTED ?data]"
    by (rule engine_publish_ok [OF sh])
  have queue: "map ev_type (eb_event_queue b) = map ev_type (eb_event_queue (en_bus e)) @ [PROCESS_INSTANCE_STARTED]"
    using q by (simp add: e2_def new_event_def)
  let ?e1 = "set_bus b (e2\<lparr>en_variable_manager := vm\<rparr>)"
  have "start_instance (\<lambda>_. None) hs clks uuids d bkey vars i
      (e\<lparr>en_instances := dset uuid Managed (en_instances e), en_active_instances := sadd uuid (en_active_instances e)\<rparr>) = (None, ?e1)"
    using assms(4) steps vm(1) p i(1) by (simp add: start_instance_def Let_def del: instance_state_value.simps One_nat_def)
  then have "start_process_instance (\<lambda>_. None) hs now uuid clks uuids key bkey vars tenant e = (Inr uuid, ?e1)"
    using assms(2,3) by (simp add: start_process_instance_def i_def [symmetric])
  moreover have "\<exists>b. en_correlation ?e1 = (en_correlation e)\<lparr>ce_event_bus := b\<rparr>" by (auto simp: set_bus_def e2_def)
  moreover have "dget (en_instances ?e1) uuid = Some Managed" "instance_wf i"
    by (simp_all add: e2_def i_def new_instance_def instance_wf_def)
  moreover have "engine_instance uuid ?e1 = Some i" "get_instance uuid (en_instance_manager ?e1) = Some i"
    using g by (simp_all add: engine_instance_def e2_def)
  moreover have "map_option (instance_from_record clk) (get_persisted uuid (en_instance_repository ?e1)) = Some (Inr i)"
    using stored_instance_loads [OF i(6-8)] i(5) by (simp add: e2_def)
  moreover have "fst (vm_restore_persisted uuid None (en_variable_manager ?e1)) = Inr vars"
    using restore_variable_rows [OF vm(2) assms(8,5)] by simp
  moreover have "uuid \<in> set (en_active_instances ?e1)" "map_option ss_state (sm_get uuid (en_state_manager ?e1)) = Some ''active''"
    by (simp_all add: e2_def sm_get_set)
  moreover have "vm_repository (en_variable_manager ?e1) \<noteq> None" "en_token_manager ?e1 = en_token_manager e" using vm(2) by (simp_all add: e2_def)
  moreover have "shared ?e1" using sh by (simp add: shared_def)
  moreover have "pi_execution_path i = []" "pi_completed_activities i = []" by (simp_all add: i_def new_instance_def)
  ultimately show ?thesis using i queue by (intro exI [where x = ?e1] exI [where x = i]) simp
qed

lemma deploy_registry:
  assumes "shared e"
  shows "en_registry (snd (deploy clk ids clk' ids' name res source tenant e)) =
      snd (register_deployment clk ids name res source tenant (en_registry e))"
    "en_variable_manager (snd (deploy clk ids clk' ids' name res source tenant e)) = en_variable_manager e"
    "\<exists>b. en_correlation (snd (deploy clk ids clk' ids' name res source tenant e)) = (en_correlation e)\<lparr>ce_event_bus := b\<rparr>"
    "en_token_manager (snd (deploy clk ids clk' ids' name res source tenant e)) = en_token_manager e"
proof -
  obtain dep g where g: "register_deployment clk ids name res source tenant (en_registry e) = (dep, g)" by fastforce
  have "shared (e\<lparr>en_registry := g\<rparr>)" using assms by (simp add: shared_def)
  then obtain b where "engine_publish clk' ids' DEPLOYMENT_CREATED [(''deployment_id'', PStr (dp_id dep)), (''name'', PStr name)]
      (e\<lparr>en_registry := g\<rparr>) = (None, set_bus b (e\<lparr>en_registry := g\<rparr>))" by (rule engine_publish_ok)
  with g show "en_registry (snd (deploy clk ids clk' ids' name res source tenant e)) =
      snd (register_deployment clk ids name res source tenant (en_registry e))"
    "en_variable_manager (snd (deploy clk ids clk' ids' name res source tenant e)) = en_variable_manager e"
    "\<exists>b. en_correlation (snd (deploy clk ids clk' ids' name res source tenant e)) = (en_correlation e)\<lparr>ce_event_bus := b\<rparr>"
    "en_token_manager (snd (deploy clk ids clk' ids' name res source tenant e)) = en_token_manager e"
    by (auto simp: deploy_def set_bus_def)
qed

definition demo_deployed :: OrchestrationEngine where
  "demo_deployed = snd (deploy (\<lambda>_. 0) demo_ids (\<lambda>_. 0) (\<lambda>_. ''u'') ''first''
     [(''order.bpmn'', ''<process id='' @ [CHR 0x22] @ ''order'' @ [CHR 0x22] @ ''>'')] ''api'' None (engine_init True True no_records))"

lemma demo_deployed_state:
  "en_reach demo_deployed" "en_registry demo_deployed = demo_registry"
  "vm_repository (en_variable_manager demo_deployed) = Some []"
  "ce_instance_message_subs (en_correlation demo_deployed) = []" "ce_instance_event_subs (en_correlation demo_deployed) = []"
  "en_token_manager demo_deployed = token_manager_init"
proof -
  show "en_reach demo_deployed" unfolding demo_deployed_def by (intro en_reach.intros)
  have s: "shared (engine_init True True no_records)" using engine_ok_init by (simp add: engine_ok_def)
  obtain b where "en_correlation demo_deployed = (en_correlation (engine_init True True no_records))\<lparr>ce_event_bus := b\<rparr>"
    using deploy_registry(3) [OF s] unfolding demo_deployed_def by blast
  then show "ce_instance_message_subs (en_correlation demo_deployed) = []" "ce_instance_event_subs (en_correlation demo_deployed) = []"
    by (simp_all add: engine_init_def correlation_init_def)
  show "en_registry demo_deployed = demo_registry" "vm_repository (en_variable_manager demo_deployed) = Some []"
    "en_token_manager demo_deployed = token_manager_init"
    unfolding demo_deployed_def deploy_registry(1,2,4) [OF s]
    by (simp_all add: demo_registry_def engine_init_def no_records_def variable_manager_init_def)
qed

lemma demo_registry_current:
  obtains d where "dget (reg_definitions demo_registry) ''order'' = Some d" "\<not> pd_is_suspended d" "pd_id d = ''d''"
  by (simp add: demo_registry_def register_deployment_def deploy_resource_def Let_def versions_def parse_definition_def
      file_definition_def extract_key_def detect_type_def lower_char_def attribute_at_def registry_init_def append_to_def dget_or_def
      demo_ids_def)

definition demo_started :: OrchestrationEngine where
  "demo_started = snd (start_process_instance (\<lambda>_. None) (\<lambda>_. None) 0 ''i'' (\<lambda>_ _. 0) (\<lambda>_ _. ''u'') ''order'' None
     [(''x'', PInt 1)] None demo_deployed)"



subsection \<open>Changing the state of an instance\<close>

lemma requested_transition_target:
  "requested_transition reason st = Some (op, ty) \<Longrightarrow> instance_spec s op = Some s' \<Longrightarrow> s' = st"
  by (cases st) (auto elim: instance_spec.elims)

lemma persist_managed_fields [simp]:
  "en_instances (persist_managed now uuid iid e) = en_instances e" "en_instance_manager (persist_managed now uuid iid e) = en_instance_manager e"
  "en_active_instances (persist_managed now uuid iid e) = en_active_instances e"
  "en_correlation (persist_managed now uuid iid e) = en_correlation e" "en_scheduler (persist_managed now uuid iid e) = en_scheduler e"
  by (simp_all add: persist_managed_def split: prod.split option.split)

lemma track_state_fields [simp]:
  "en_instances (track_state iid st e) = en_instances e" "en_instance_manager (track_state iid st e) = en_instance_manager e"
  "en_instance_repository (track_state iid st e) = en_instance_repository e"
  "en_state_manager (track_state iid st e) = en_state_manager e" "en_correlation (track_state iid st e) = en_correlation e"
  by (simp_all add: track_state_def)

lemma engine_instance_cong:
  "en_instances e' = en_instances e \<Longrightarrow> en_instance_manager e' = en_instance_manager e \<Longrightarrow> engine_instance iid e' = engine_instance iid e"
  unfolding engine_instance_def by (simp only:)

lemma update_applied:
  assumes "shared e" "dget (en_instances e) iid = Some Managed" "get_instance iid (en_instance_manager e) = Some i" "pi_id i1 = iid"
    and "transition_instance (clks 0) reason st i = (Inr ty, i1)"
  obtains e1 where "update_instance_state (\<lambda>_. None) clks uuids iid st reason e = (None, e1)" "engine_instance iid e1 = Some i1"
    "en_instances e1 = en_instances e" "en_instance_repository e1 =
       snd (save_persisted (clks 1 0) (uuids 1 0) ''instance'' iid (instance_to_record i1) (en_instance_repository e))"
    "map_option ss_state (sm_get iid (en_state_manager e1)) = Some (instance_state_value st)"
    "iid \<in> set (en_active_instances e1) \<longleftrightarrow> st = Instances.ACTIVE" "iid \<in> set (en_suspended_instances e1) \<longleftrightarrow> st = Instances.SUSPENDED"
    "map ev_type (eb_event_queue (en_bus e1)) = map ev_type (eb_event_queue (en_bus e)) @ [ty]"
proof -
  let ?e0 = "e\<lparr>en_instance_manager := (en_instance_manager e)\<lparr>im_instances := dset iid i1 (im_instances (en_instance_manager e))\<rparr>\<rparr>"
  have put: "put_engine_instance iid i1 e = ?e0" using assms(2) by (simp add: put_engine_instance_def)
  have g: "get_instance iid (en_instance_manager ?e0) = Some i1" by (simp add: get_instance_def)
  define e2 where "e2 = ?e0\<lparr>en_instance_repository :=
      snd (save_persisted (clks 1 0) (uuids 1 0) ''instance'' iid (instance_to_record i1) (en_instance_repository e)),
    en_state_manager := snd (sm_set (clks 1 1) iid (instance_state_value st) (Some (updated_data i1)) (en_state_manager e))\<rparr>"
  have s: "set_engine_state (\<lambda>_. None) (clks 1 1) (pi_id i1) (instance_state_value st) (updated_data i1)
      (persist_managed (clks 1 0) (uuids 1 0) (pi_id i1) ?e0) = (None, e2)"
    using g by (simp add: assms(4) persist_managed_eq set_engine_state_eq e2_def)
  let ?data = "[(''instance_id'', PStr iid), (''state'', PStr (instance_state_value st)), (''reason'', opt_str reason)]"
  have "shared e2" using assms(1) by (simp add: e2_def shared_def)
  then obtain b where p: "engine_publish (clks 2) (uuids 2) ty ?data e2 = (None, set_bus b e2)"
    and q: "eb_event_queue b = eb_event_queue (en_bus e2) @ [new_event (clks 2 0) (uuids 2 0) ty ?data]"
    by (rule engine_publish_ok)
  let ?e1 = "track_state iid st (set_bus b e2)"
  have "engine_instance iid e = Some i" using assms(2,3) by (simp add: engine_instance_def)
  then have u: "update_instance_state (\<lambda>_. None) clks uuids iid st reason e = (None, ?e1)"
    using assms(4,5) s p
    by (simp add: update_instance_state_def service_update_state_def put del: instance_state_value.simps One_nat_def)
  have f: "engine_instance iid ?e1 = engine_instance iid e2" by (rule engine_instance_cong) simp_all
  show ?thesis
  proof (rule that [OF u])
    show "engine_instance iid ?e1 = Some i1" using assms(2) g f by (simp add: engine_instance_def e2_def)
    show "map_option ss_state (sm_get iid (en_state_manager ?e1)) = Some (instance_state_value st)" by (simp add: e2_def sm_get_set)
    show "map ev_type (eb_event_queue (en_bus ?e1)) = map ev_type (eb_event_queue (en_bus e)) @ [ty]"
      using q by (simp add: e2_def new_event_def)
  qed (simp_all add: e2_def, simp_all add: track_state_def)
qed


lemma demo_started_state:
  "en_reach demo_started" "dget (en_instances demo_started) ''i'' = Some Managed" "''i'' \<in> set (en_active_instances demo_started)"
  "\<exists>i. get_instance ''i'' (en_instance_manager demo_started) = Some i \<and> pi_id i = ''i'' \<and> instance_wf i \<and> pi_state i = Instances.ACTIVE"
  "ce_instance_message_subs (en_correlation demo_started) = []" "ce_instance_event_subs (en_correlation demo_started) = []"
proof -
  show "en_reach demo_started" unfolding demo_started_def
    by (rule en_reach.begin_instance [OF demo_deployed_state(1)]) (simp add: tame_def)
  obtain d where d: "dget (reg_definitions (en_registry demo_deployed)) ''order'' = Some d" "\<not> pd_is_suspended d" "pd_id d = ''d''"
    using demo_registry_current demo_deployed_state(2) by metis
  have v: "dict_ok [(''x'', PInt 1)]" "\<forall>(n, v) \<in> set [(''x'', PInt 1)]. is_ok (type_name v)" by simp_all
  note st = started_instance [OF demo_deployed_state(1) d(1,2) _ v demo_deployed_state(3) _ _ valid_epoch, of "\<lambda>_. None" "''i''"
      "\<lambda>_ _. 0" "\<lambda>_ _. ''u''" None None "\<lambda>_. 0"]
  show "dget (en_instances demo_started) ''i'' = Some Managed" "''i'' \<in> set (en_active_instances demo_started)"
    "\<exists>i. get_instance ''i'' (en_instance_manager demo_started) = Some i \<and> pi_id i = ''i'' \<and> instance_wf i \<and> pi_state i = Instances.ACTIVE"
    "ce_instance_message_subs (en_correlation demo_started) = []" "ce_instance_event_subs (en_correlation demo_started) = []"
    using st demo_deployed_state(4,5) by (auto simp: demo_started_def get_by_instance_def repo_list_def)
qed


definition demo_completed :: OrchestrationEngine where
  "demo_completed = snd (update_instance_state (\<lambda>_. None) (\<lambda>_ _. 0) (\<lambda>_ _. ''u'') ''i'' Instances.COMPLETED None demo_started)"

lemma demo_completed_state:
  "en_reach demo_completed" "dget (en_instances demo_completed) ''i'' = Some Managed"
  "\<exists>i. get_instance ''i'' (en_instance_manager demo_completed) = Some i \<and> pi_id i = ''i'' \<and> pi_state i = Instances.COMPLETED"
proof -
  show "en_reach demo_completed" unfolding demo_completed_def by (rule en_reach.update [OF demo_started_state(1)])
  obtain i where i: "get_instance ''i'' (en_instance_manager demo_started) = Some i" "pi_id i = ''i''" "instance_wf i" "pi_state i = Instances.ACTIVE"
    using demo_started_state(4) by blast
  obtain err i1 where a: "instance_apply (\<lambda>_. 0) Instances.Complete i = (err, i1)" by fastforce
  have i1: "err = None" "pi_state i1 = Instances.COMPLETED" "pi_id i1 = ''i''"
    using instance_apply_status [OF i(3), where x = Instances.Complete and clk = "\<lambda>_. 0"] i(2,4) a
      instance_apply_fields [where i = i and clk = "\<lambda>_. 0" and x = Instances.Complete] by simp_all
  have t: "transition_instance ((\<lambda>_ _. 0) 0) None Instances.COMPLETED i = (Inr PROCESS_INSTANCE_COMPLETED, i1)"
    using a i1(1) by (simp add: transition_instance_def)
  have sh: "shared demo_started" using en_reach_ok [OF demo_started_state(1)] by (simp add: engine_ok_def)
  obtain e1 where "update_instance_state (\<lambda>_. None) (\<lambda>_ _. 0) (\<lambda>_ _. ''u'') ''i'' Instances.COMPLETED None demo_started = (None, e1)"
    "engine_instance ''i'' e1 = Some i1" "en_instances e1 = en_instances demo_started"
    by (rule update_applied [where clks = "\<lambda>_ _. 0" and uuids = "\<lambda>_ _. ''u''", OF sh demo_started_state(2) i(1) i1(3) t]) blast
  then show "dget (en_instances demo_completed) ''i'' = Some Managed"
    "\<exists>i. get_instance ''i'' (en_instance_manager demo_completed) = Some i \<and> pi_id i = ''i'' \<and> pi_state i = Instances.COMPLETED"
    using i1 demo_started_state(2) by (simp_all add: demo_completed_def engine_instance_def)
qed

text \<open>
  Defect.  Asking for the active state does nothing to an instance that is not suspended, yet the engine takes
  the change as made: a completed instance is left completed while the state manager says active, the instance is
  among the active ones and an event says that it was resumed.
\<close>

theorem finished_instance_reported_active:
  assumes "en_reach e" and "dget (en_instances e) iid = Some Managed" and "get_instance iid (en_instance_manager e) = Some i"
    and "pi_id i = iid" and "pi_state i \<noteq> Instances.SUSPENDED"
  shows "\<exists>e1. update_instance_state (\<lambda>_. None) clks uuids iid Instances.ACTIVE reason e = (None, e1) \<and>
    engine_instance iid e1 = Some i \<and> map_option ss_state (sm_get iid (en_state_manager e1)) = Some ''active'' \<and>
    iid \<in> set (en_active_instances e1) \<and>
    map ev_type (eb_event_queue (en_bus e1)) = map ev_type (eb_event_queue (en_bus e)) @ [PROCESS_INSTANCE_RESUMED]"
proof -
  have t: "transition_instance (clks 0) reason Instances.ACTIVE i = (Inr PROCESS_INSTANCE_RESUMED, i)"
    using assms(5) by (simp add: transition_instance_def)
  have "shared e" using en_reach_ok [OF assms(1)] by (simp add: engine_ok_def)
  from update_applied [where clks = clks and uuids = uuids, OF this assms(2,3,4) t] show ?thesis by fastforce
qed

theorem finished_instance_reported_active_witness:
  "\<exists>e1 i. update_instance_state (\<lambda>_. None) (\<lambda>_ _. 0) (\<lambda>_ _. ''u'') ''i'' Instances.ACTIVE None demo_completed = (None, e1) \<and>
    engine_instance ''i'' e1 = Some i \<and> pi_state i = Instances.COMPLETED \<and> ''i'' \<in> set (en_active_instances e1)"
proof -
  obtain i where i: "get_instance ''i'' (en_instance_manager demo_completed) = Some i" "pi_id i = ''i''" "pi_state i = Instances.COMPLETED"
    using demo_completed_state(3) by blast
  show ?thesis
    using finished_instance_reported_active [OF demo_completed_state(1,2) i(1,2), of "\<lambda>_ _. 0" "\<lambda>_ _. ''u''" None] i(3) by auto
qed

lemma cleanup_nothing:
  assumes "idx_get (ce_instance_message_subs (en_correlation e)) iid = []" "idx_get (ce_instance_event_subs (en_correlation e)) iid = []" "shared e"
  shows "on_correlation (cleanup_instance_subscriptions_persisted clk ids iid) e = (Inr 0, e)"
  using assms by (simp add: on_correlation_def cleanup_instance_subscriptions_persisted_def Let_def shared_def)

text \<open>
  Defect.  Deleting an instance does not end it: the state manager says terminated and the event is
  published, but the instance object keeps its state and stays among the engine's instances and its active ones.
\<close>

theorem delete_leaves_instance_active:
  assumes "en_reach e" and "idx_get (ce_instance_message_subs (en_correlation e)) iid = []"
    and "idx_get (ce_instance_event_subs (en_correlation e)) iid = []"
  shows "\<exists>e1. delete_instance (\<lambda>_. None) clks uuids iid reason e = (None, e1) \<and> engine_instance iid e1 = engine_instance iid e \<and>
    en_active_instances e1 = en_active_instances e \<and> map_option ss_state (sm_get iid (en_state_manager e1)) = Some ''terminated'' \<and>
    map ev_type (eb_event_queue (en_bus e1)) = map ev_type (eb_event_queue (en_bus e)) @ [PROCESS_INSTANCE_TERMINATED]"
proof -
  have sh: "shared e" using en_reach_ok [OF assms(1)] by (simp add: engine_ok_def)
  let ?ea = "persist_managed (clks 1 0) (uuids 1 0) iid e"
  define e2 where "e2 = ?ea\<lparr>en_state_manager :=
    snd (sm_set (clks 1 1) iid ''terminated'' (Some [(''delete_reason'', PStr reason), (''variables'', PDict [])]) (en_state_manager ?ea))\<rparr>"
  let ?data = "[(''instance_id'', PStr iid), (''reason'', PStr reason)]"
  have "shared e2" using sh by (simp add: e2_def shared_def)
  then obtain b where p: "engine_publish (clks 2) (uuids 2) PROCESS_INSTANCE_TERMINATED ?data e2 = (None, set_bus b e2)"
    and q: "eb_event_queue b = eb_event_queue (en_bus e2) @ [new_event (clks 2 0) (uuids 2 0) PROCESS_INSTANCE_TERMINATED ?data]"
    by (rule engine_publish_ok)
  have "delete_instance (\<lambda>_. None) clks uuids iid reason e = (None, set_bus b e2)"
    using cleanup_nothing [OF assms(2,3) sh] p by (simp add: delete_instance_def set_engine_state_eq e2_def [symmetric] del: One_nat_def)
  moreover have "engine_instance iid (set_bus b e2) = engine_instance iid e" by (rule engine_instance_cong) (simp_all add: e2_def)
  ultimately show ?thesis using q by (simp add: e2_def sm_get_set new_event_def)
qed

theorem delete_leaves_instance_active_witness:
  "\<exists>e1 i. delete_instance (\<lambda>_. None) (\<lambda>_ _. 0) (\<lambda>_ _. ''u'') ''i'' ''obsolete'' demo_started = (None, e1) \<and>
    engine_instance ''i'' e1 = Some i \<and> pi_state i = Instances.ACTIVE \<and> ''i'' \<in> set (en_active_instances e1)"
proof -
  have "\<exists>i. engine_instance ''i'' demo_started = Some i \<and> pi_state i = Instances.ACTIVE"
    using demo_started_state(2,4) by (auto simp: engine_instance_def)
  then show ?thesis
    using delete_leaves_instance_active [OF demo_started_state(1), of "''i''" "\<lambda>_ _. 0" "\<lambda>_ _. ''u''" "''obsolete''"]
      demo_started_state(3,5,6) by (auto simp: idx_get_def dget_or_def)
qed

subsection \<open>Restarting with stored instances\<close>

text \<open>The instance repository after the instances have been persisted, in this order.\<close>

fun stored_instances :: "clock \<Rightarrow> (nat \<Rightarrow> string) \<Rightarrow> ProcessInstance list \<Rightarrow> repo \<Rightarrow> repo" where
  "stored_instances clk ids [] r = r"
| "stored_instances clk ids (i # is) r =
     stored_instances (clk \<circ> Suc) (ids \<circ> Suc) is (snd (save_persisted (clk 0) (ids 0) ''instance'' (pi_id i) (instance_to_record i) r))"

definition storable :: "ProcessInstance \<Rightarrow> bool" where
  "storable i \<longleftrightarrow> instance_times_ok i \<and> pi_root_instance_id i \<noteq> [] \<and> pi_incident_count i = int (length (pi_incidents i))"

abbreviation reloaded :: "ProcessInstance \<Rightarrow> ProcessInstance" where
  "reloaded i \<equiv> i\<lparr>pi_state_obj := None\<rparr>"

lemma stored_instances_parse:
  assumes "distinct (map pi_id is)" "\<forall>i \<in> set is. storable i \<and> dget r (pi_id i) = None"
  shows "\<exists>ps. dvals (stored_instances clk ids is r) = dvals r @ ps \<and>
    list_all2 (\<lambda>p i. \<forall>c. instance_from_record c p = Inr (reloaded i)) ps is"
  using assms
proof (induction "is" arbitrary: clk ids r)
  case (Cons i "is")
  let ?p = "normalize_runtime_payload (clk 0) (ids 0) ''instance'' (instance_to_record i)"
  have new: "snd (save_persisted (clk 0) (ids 0) ''instance'' (pi_id i) (instance_to_record i) r) = r @ [(pi_id i, ?p)]"
    using Cons.prems(2) by (simp add: save_persisted_def repo_save_def dset_new)
  have "\<forall>j \<in> set is. storable j \<and> dget (r @ [(pi_id i, ?p)]) (pi_id j) = None"
    using Cons.prems dset_new [of r "pi_id i" ?p, symmetric] by (auto simp: image_iff)
  from Cons.IH [OF _ this, of "clk \<circ> Suc" "ids \<circ> Suc"] Cons.prems(1)
  obtain ps where ps: "dvals (stored_instances (clk \<circ> Suc) (ids \<circ> Suc) is (r @ [(pi_id i, ?p)])) = dvals r @ [?p] @ ps"
    "list_all2 (\<lambda>p i. \<forall>c. instance_from_record c p = Inr (reloaded i)) ps is" by (auto simp: comp_def)
  have "instance_from_record c ?p = Inr (reloaded i)" for c
    using normalize_ext [of "clk 0" "ids 0" "''instance''" "instance_to_record i"] instance_record_roundtrip_ext [of i c] Cons.prems(2)
    by (auto simp: storable_def)
  then show ?case using ps new by (intro exI [where x = "?p # ps"]) simp
qed simp

lemma load_parsed:
  assumes "list_all2 (\<lambda>p i. \<forall>c. instance_from_record c p = Inr (reloaded i)) ps is"
  shows "load_instance_rows clk ps m = (Inr (map reloaded is), fold (\<lambda>i. add_instance (reloaded i)) is m)"
  using assms by (induction ps "is" arbitrary: m rule: list_all2_induct) simp_all

lemma fold_add_get:
  assumes "distinct (map pi_id is)" "i \<in> set is"
  shows "get_instance (pi_id i) (fold (\<lambda>i. add_instance (reloaded i)) is m) = Some (reloaded i)"
proof -
  have other: "get_instance k (fold (\<lambda>i. add_instance (reloaded i)) is m) = get_instance k m" if "k \<notin> pi_id ` set is" for k m "is"
    using that by (induction "is" arbitrary: m) (simp_all add: add_instance_def file_instance_def get_instance_def)
  show ?thesis using assms
    by (induction "is" arbitrary: m) (auto simp: other, simp add: add_instance_def file_instance_def get_instance_def)
qed

lemma recover_each_quiet:
  assumes "en_token_repository e = []" "sch_history_repository (en_scheduler e) = Some []" "vm_repository (en_variable_manager e) = Some r"
    and "\<forall>i \<in> set is. restored_values (get_by_instance (pi_id i) r) [] = Inr (vals (pi_id i))"
  shows "recover_each clks is e = (None, e\<lparr>en_variable_manager := fold (\<lambda>i. vm_restore (vals (pi_id i))) is (en_variable_manager e)\<rparr>)"
  using assms
proof (induction "is" arbitrary: e clks)
  case (Cons i "is")
  have "recover_instance clks i e = (None, e\<lparr>en_variable_manager := vm_restore (vals (pi_id i)) (en_variable_manager e)\<rparr>)"
    using Cons.prems
    by (simp add: recover_instance_def load_instance_tokens_def get_by_instance_def repo_list_def vm_restore_persisted_def
        reload_tasks_from_history_def history_query_def sort_created_def)
  then show ?case using Cons.IH [of "e\<lparr>en_variable_manager := vm_restore (vals (pi_id i)) (en_variable_manager e)\<rparr>"] Cons.prems
    by (simp add: vm_restore_def)
qed simp

lemma fold_restore: "vm_vars (fold (\<lambda>i. vm_restore (vals (pi_id i))) is m) = (if is = [] then vm_vars m else vals (pi_id (last is)))"
  by (induction "is" arbitrary: m) (simp_all add: vm_restore_def)

lemma recover_stored:
  assumes "distinct (map pi_id is)" "\<forall>i \<in> set is. storable i" "\<forall>i \<in> set is. restored_values (get_by_instance (pi_id i) r) [] = Inr (vals (pi_id i))"
    and "rp = no_records\<lparr>rp_instance := stored_instances clk0 ids0 is [], rp_variable := r\<rparr>"
    and "e = (engine_init bam metrics rp)\<lparr>en_lifecycle_state := StartingState\<rparr>"
  obtains n e0 where "recover clks uuid e = (Inr n, e0)" "en_instances e0 = []" "en_active_instances e0 = []"
    "en_instance_manager e0 = fold (\<lambda>i. add_instance (reloaded i)) is instance_manager_init"
    "en_variable_manager e0 = fold (\<lambda>i. vm_restore (vals (pi_id i))) is (en_variable_manager e)"
proof -
  obtain ps where ps: "dvals (stored_instances clk0 ids0 is []) = ps"
    "list_all2 (\<lambda>p i. \<forall>c. instance_from_record c p = Inr (reloaded i)) ps is"
    using stored_instances_parse [OF assms(1), of "[]" clk0 ids0] assms(2) by auto
  let ?im = "fold (\<lambda>i. add_instance (reloaded i)) is instance_manager_init"
  obtain x e1 where e1: "on_correlation (reload_from_history (clks 1 0) uuid) (e\<lparr>en_instance_manager := ?im\<rparr>) = (x, e1)" by fastforce
  have l: "load_all_instances (repo_list None) (clks 0) (Some (en_instance_repository e)) (en_instance_manager e) = (Inr (map reloaded is), ?im)"
    using ps load_parsed [OF ps(2)] by (simp add: assms(4,5) engine_init_def load_all_instances_def repo_list_def no_records_def)
  have d: "detach loaded e = e" for loaded by (simp add: detach_def assms(5) engine_init_def)
  have c: "x = None" "en_instances e1 = []" "en_active_instances e1 = []" "en_instance_manager e1 = ?im"
    "en_variable_manager e1 = en_variable_manager e" "en_token_repository e1 = []" "sch_history_repository (en_scheduler e1) = Some []"
    "vm_repository (en_variable_manager e) = Some r" "eb_event_repository (en_bus e1) = Some []"
    using e1
    by (auto simp: on_correlation_def reload_from_history_def assms(4,5) engine_init_def no_records_def correlation_init_def repo_list_def
        cleared_def event_bus_init_def variable_manager_init_def)
  let ?e2 = "e1\<lparr>en_variable_manager := fold (\<lambda>i. vm_restore (vals (pi_id i))) is (en_variable_manager e)\<rparr>"
  have r: "recover_each (\<lambda>k. clks (k + 3)) (map reloaded is) e1 = (None, ?e2)"
    using recover_each_quiet [OF c(6,7), of r "map reloaded is" vals "\<lambda>k. clks (k + 3)"] c(5,8) assms(3) by (simp add: fold_map comp_def)
  have h: "reload_history (clks 2 0) uuid (eb_max_history_size (en_bus ?e2)) (en_bus ?e2) = (Inr [], (en_bus ?e2)\<lparr>eb_event_history := []\<rparr>)"
    using c(9) by (simp add: reload_history_def repo_list_def slice_last_def)
  have "recover clks uuid e = (Inr (length is, count_state Instances.ACTIVE (map reloaded is), count_state Instances.SUSPENDED (map reloaded is)),
      set_bus ((en_bus ?e2)\<lparr>eb_event_history := []\<rparr>) ?e2)"
    unfolding recover_def Let_def d l prod.case sum.case e1 c(1) option.case r h by simp
  then show ?thesis by (rule that) (simp_all add: c)
qed


definition demo_stored :: "ProcessInstance list" where
  "demo_stored = [demo_instance Instances.ACTIVE, (demo_instance Instances.SUSPENDED)\<lparr>pi_id := ''j''\<rparr>]"

definition demo_rows :: repo where
  "demo_rows = [(''i:i:x'', [(''instance_id'', PStr ''i''), (''name'', PStr ''x''), (''value'', PInt 1)]),
     (''j:j:y'', [(''instance_id'', PStr ''j''), (''name'', PStr ''y''), (''value'', PInt 2)])]"


end
