(* ===== verification/Gateways.thy ===== *)
theory Gateways
  imports Repository
begin

section \<open>Gateways\<close>

text \<open>
  \<open>bpmn/gateway_handler.py\<close>: which branches a token takes at a gateway, for gateways given as dictionaries
  (\<open>GatewayHandler.choose\<close> and the five strategies).  Conditions are evaluated by Python's own \<open>eval\<close>, which is the
  parameter \<open>ev\<close>: the expression and the variables give a value or an exception.  The entries of a gateway are
  dynamically typed, as in the code; the strategies for typed gateway objects (\<open>choose_osdm\<close>) are not modelled.
\<close>

subsection \<open>Data\<close>

datatype GatewayType = EXCLUSIVE | INCLUSIVE | PARALLEL | COMPLEX | EVENT_BASED

fun gateway_type_value :: "GatewayType \<Rightarrow> string" where
  "gateway_type_value EXCLUSIVE = ''Exclusive''"
| "gateway_type_value INCLUSIVE = ''Inclusive''"
| "gateway_type_value PARALLEL = ''Parallel''"
| "gateway_type_value COMPLEX = ''Complex''"
| "gateway_type_value EVENT_BASED = ''EventBased''"

record GatewayDecision =
  gd_gateway_id :: string
  gd_next_targets :: "string list"
  gd_gateway_type :: GatewayType
  gd_default_used :: bool
  gd_event_triggered :: pyval
  gd_activation_condition_met :: bool

record GatewayBranch =
  gb_target :: string
  gb_condition :: pyval
  gb_priority :: pyval
  gb_is_default :: pyval

definition decision :: "string \<Rightarrow> string list \<Rightarrow> GatewayType \<Rightarrow> bool \<Rightarrow> GatewayDecision" where
  "decision gid targets ty default_used =
     \<lparr>gd_gateway_id = gid, gd_next_targets = targets, gd_gateway_type = ty, gd_default_used = default_used,
      gd_event_triggered = PNone, gd_activation_condition_met = True\<rparr>"

subsection \<open>Conditions\<close>

type_synonym evaluator = "string \<Rightarrow> pydict \<Rightarrow> pyval result"

text \<open>
  \<open>_evaluate_condition\<close>, the same in three strategies.  A condition that is not a string reaches \<open>eval\<close>, which
  raises, unless it has no hash: the test for membership in a set raises outside the \<open>try\<close>.
\<close>

definition evaluate_condition :: "evaluator \<Rightarrow> pydict \<Rightarrow> pyval \<Rightarrow> bool result" where
  "evaluate_condition ev ctx c =
     (case c of
        PStr s \<Rightarrow>
          if s \<in> {''true'', ''True'', ''1''} then Inr True
          else if s \<in> {''false'', ''False'', ''0''} then Inr False
          else (case ev s ctx of Inl _ \<Rightarrow> Inr False | Inr v \<Rightarrow> Inr (truthy v))
      | PList _ \<Rightarrow> Inl (TypeError ''unhashable type'')
      | PDict _ \<Rightarrow> Inl (TypeError ''unhashable type'')
      | PTuple _ \<Rightarrow> Inl (Unmodelled ''hash'')
      | PBytes _ \<Rightarrow> Inl (Unmodelled ''eval'')
      | PObj _ \<Rightarrow> Inl (Unmodelled ''hash'')
      | _ \<Rightarrow> Inr False)"

text \<open>\<open>sorted(branches, key=lambda b: b.priority)\<close>; priorities that are not all integers are not compared.\<close>

definition by_priority :: "GatewayBranch list \<Rightarrow> GatewayBranch list result" where
  "by_priority bs = bindr (mapr (\<lambda>b. bindr (py_int (gb_priority b)) (\<lambda>p. Inr (p, b))) bs) (\<lambda>ps. Inr (map snd (sort_key fst ps)))"

definition guarded :: "GatewayBranch \<Rightarrow> bool" where
  "guarded b \<longleftrightarrow> truthy (gb_condition b) \<and> \<not> truthy (gb_is_default b)"

subsection \<open>The strategies\<close>

fun first_match :: "evaluator \<Rightarrow> pydict \<Rightarrow> GatewayBranch list \<Rightarrow> GatewayBranch option result" where
  "first_match ev ctx [] = Inr None"
| "first_match ev ctx (b # bs) =
     (if guarded b
      then bindr (evaluate_condition ev ctx (gb_condition b)) (\<lambda>ok. if ok then Inr (Some b) else first_match ev ctx bs)
      else first_match ev ctx bs)"

definition exclusive_choose ::
  "evaluator \<Rightarrow> string \<Rightarrow> GatewayBranch list \<Rightarrow> pyval \<Rightarrow> pydict \<Rightarrow> GatewayDecision result" where
  "exclusive_choose ev gid branches dflt ctx =
     bindr (by_priority branches) (\<lambda>ordered. bindr (first_match ev ctx ordered) (\<lambda>m.
     (case m of
        Some b \<Rightarrow> Inr (decision gid [gb_target b] EXCLUSIVE False)
      | None \<Rightarrow>
          (case List.find (\<lambda>b. truthy (gb_is_default b)) branches of
             Some b \<Rightarrow> Inr (decision gid [gb_target b] EXCLUSIVE True)
           | None \<Rightarrow>
               if truthy dflt then bindr (py_str dflt) (\<lambda>t. Inr (decision gid [t] EXCLUSIVE True))
               else (case branches of
                       [] \<Rightarrow> Inr (decision gid [] EXCLUSIVE False)
                     | b # _ \<Rightarrow> Inr (decision gid [gb_target b] EXCLUSIVE True))))))"

fun all_matches :: "evaluator \<Rightarrow> pydict \<Rightarrow> GatewayBranch list \<Rightarrow> string list result" where
  "all_matches ev ctx [] = Inr []"
| "all_matches ev ctx (b # bs) =
     (if guarded b
      then bindr (evaluate_condition ev ctx (gb_condition b)) (\<lambda>ok.
           bindr (all_matches ev ctx bs) (\<lambda>ts. Inr (if ok then gb_target b # ts else ts)))
      else all_matches ev ctx bs)"

definition inclusive_choose ::
  "evaluator \<Rightarrow> string \<Rightarrow> GatewayBranch list \<Rightarrow> pyval \<Rightarrow> pydict \<Rightarrow> GatewayDecision result" where
  "inclusive_choose ev gid branches dflt ctx =
     bindr (by_priority branches) (\<lambda>ordered. bindr (all_matches ev ctx ordered) (\<lambda>selected.
     if selected \<noteq> [] then Inr (decision gid selected INCLUSIVE False)
     else (case List.find (\<lambda>b. truthy (gb_is_default b)) branches of
             Some b \<Rightarrow> Inr (decision gid [gb_target b] INCLUSIVE True)
           | None \<Rightarrow>
               if truthy dflt then bindr (py_str dflt) (\<lambda>t. Inr (decision gid [t] INCLUSIVE True))
               else Inr (decision gid [] INCLUSIVE False))))"

definition parallel_choose :: "string \<Rightarrow> GatewayBranch list \<Rightarrow> GatewayDecision" where
  "parallel_choose gid branches = decision gid (map gb_target branches) PARALLEL False"

text \<open>
  Equality of values as the code compares event names: equal strings.  Numbers of different types that Python
  takes as equal are not told apart from unequal ones; \<open>in\<close> tests lists and dicts for an element and strings for a
  substring.
\<close>

definition py_in :: "pyval \<Rightarrow> pyval \<Rightarrow> bool result" where
  "py_in x c =
     (case c of
        PList xs \<Rightarrow> Inr (x \<in> set xs)
      | PTuple xs \<Rightarrow> Inr (x \<in> set xs)
      | PDict d \<Rightarrow> Inr (\<exists>k \<in> set (dkeys d). x = PStr k)
      | PStr s \<Rightarrow> (case x of PStr p \<Rightarrow> Inr (contains p s) | _ \<Rightarrow> Inl (TypeError ''in''))
      | PObj _ \<Rightarrow> Inl (Unmodelled ''in'')
      | PBytes _ \<Rightarrow> Inl (Unmodelled ''in'')
      | _ \<Rightarrow> Inl (TypeError ''in''))"

text \<open>A flow must have a method \<open>get\<close>.\<close>

definition flow_dict :: "pyval \<Rightarrow> pydict result" where
  "flow_dict v = (case v of PDict d \<Rightarrow> Inr d | PObj _ \<Rightarrow> Inl (Unmodelled ''get'') | _ \<Rightarrow> Inl (AttributeError ''get''))"

definition flow_target :: "pydict \<Rightarrow> string result" where
  "flow_target f = py_str (por (por (pget f ''target'') (pget f ''targetRef'')) (pget_or f ''target_id'' (PStr [])))"

definition flow_event :: "pydict \<Rightarrow> pyval" where
  "flow_event f = por (por (pget f ''event_type'') (pget f ''eventType'')) (PStr [])"

fun triggered_flow :: "string \<Rightarrow> pyval \<Rightarrow> pyval list \<Rightarrow> GatewayDecision result" where
  "triggered_flow gid ev [] = Inr (decision gid [] EVENT_BASED False)"
| "triggered_flow gid ev (v # vs) =
     bindr (flow_dict v) (\<lambda>f. bindr (flow_target f) (\<lambda>t.
       if flow_event f = ev then Inr ((decision gid [t] EVENT_BASED False)\<lparr>gd_event_triggered := ev\<rparr>)
       else triggered_flow gid ev vs))"

text \<open>The targets whose event has occurred, and whether every flow with an event has its event.\<close>

fun triggered_flows :: "pyval \<Rightarrow> pyval list \<Rightarrow> (string list \<times> bool) result" where
  "triggered_flows evs [] = Inr ([], True)"
| "triggered_flows evs (v # vs) =
     bindr (flow_dict v) (\<lambda>f. bindr (flow_target f) (\<lambda>t.
       if truthy (flow_event f)
       then bindr (py_in (flow_event f) evs) (\<lambda>found. bindr (triggered_flows evs vs) (\<lambda>(ts, ok).
              Inr (if found then (t # ts, ok) else (ts, False))))
       else triggered_flows evs vs))"

definition event_based_choose :: "string \<Rightarrow> pydict option \<Rightarrow> pydict \<Rightarrow> GatewayDecision result" where
  "event_based_choose gid gw ctx =
     (case gw of
        None \<Rightarrow> Inr (decision gid [] EVENT_BASED False)
      | Some g \<Rightarrow>
          (let outgoing = por (pget_or g ''branches'' (pget_or g ''outgoing'' (pget_or g ''flows'' (PList [])))) (PList []);
               is_parallel = por (pget_or g ''parallelMultiple'' (PBool False)) (pget_or g ''isParallelMultiple'' (PBool False));
               triggered = por (pget g ''triggered_event'') (pget ctx (gid @ ''.triggered_event''))
           in if truthy triggered then bindr (py_list outgoing) (triggered_flow gid triggered)
              else if truthy is_parallel
              then bindr (py_list outgoing) (\<lambda>vs.
                     bindr (triggered_flows (por (por (pget g ''triggered_events'') (pget ctx (gid @ ''.triggered_events''))) (PList [])) vs)
                       (\<lambda>(ts, ok). Inr (decision gid (if ts \<noteq> [] \<and> ok then ts else []) EVENT_BASED False)))
              else Inr (decision gid [] EVENT_BASED False)))"

fun complex_select :: "evaluator \<Rightarrow> pydict \<Rightarrow> GatewayBranch list \<Rightarrow> string list result" where
  "complex_select ev ctx [] = Inr []"
| "complex_select ev ctx (b # bs) =
     (if truthy (gb_condition b)
      then bindr (evaluate_condition ev ctx (gb_condition b)) (\<lambda>ok.
           bindr (complex_select ev ctx bs) (\<lambda>ts. Inr (if ok then gb_target b # ts else ts)))
      else bindr (complex_select ev ctx bs) (\<lambda>ts. Inr (if truthy (gb_is_default b) then ts else gb_target b # ts)))"

definition complex_choose ::
  "evaluator \<Rightarrow> string \<Rightarrow> GatewayBranch list \<Rightarrow> pyval \<Rightarrow> pydict option \<Rightarrow> pydict \<Rightarrow> GatewayDecision result" where
  "complex_choose ev gid branches dflt gw ctx =
     (case gw of
        None \<Rightarrow> Inr (decision gid (map gb_target branches) COMPLEX False)
      | Some g \<Rightarrow>
          (let activation = por (pget g ''activationCondition'') (pget g ''activation_condition'')
           in bindr (if truthy activation then evaluate_condition ev ctx activation else Inr True) (\<lambda>active.
                if \<not> active
                then (if truthy dflt
                      then bindr (py_str dflt) (\<lambda>t. Inr ((decision gid [t] COMPLEX True)\<lparr>gd_activation_condition_met := False\<rparr>))
                      else Inr ((decision gid [] COMPLEX False)\<lparr>gd_activation_condition_met := False\<rparr>))
                else bindr (complex_select ev ctx branches) (\<lambda>selected.
                       Inr (decision gid (if selected \<noteq> [] then selected
                                          else map gb_target (filter (\<lambda>b. truthy (gb_is_default b)) branches)) COMPLEX False)))))"

subsection \<open>The handler\<close>

definition ends_with :: "string \<Rightarrow> string \<Rightarrow> bool" where
  "ends_with s suffix \<longleftrightarrow> length suffix \<le> length s \<and> drop (length s - length suffix) s = suffix"

definition gateway_names :: "(string, GatewayType) dict" where
  "gateway_names =
     [(''exclusive'', EXCLUSIVE), (''xor'', EXCLUSIVE), (''inclusive'', INCLUSIVE), (''or'', INCLUSIVE), (''parallel'', PARALLEL),
      (''and'', PARALLEL), (''eventbased'', EVENT_BASED), (''event_based'', EVENT_BASED), (''complex'', COMPLEX)]"

definition to_gateway_type :: "pyval \<Rightarrow> GatewayType result" where
  "to_gateway_type v =
     bindr (py_str v) (\<lambda>s.
       case List.find (\<lambda>ty. PStr (gateway_type_value ty) = v) [EXCLUSIVE, INCLUSIVE, PARALLEL, COMPLEX, EVENT_BASED] of
         Some ty \<Rightarrow> Inr ty
       | None \<Rightarrow>
           (let clean = filter (\<lambda>c. c \<notin> set '' _-'') (map lower_char s);
                stem = (if ends_with clean ''gateway'' then take (length clean - 7) clean else clean)
            in Inr (dget_or gateway_names stem EXCLUSIVE)))"

fun parse_branches :: "nat \<Rightarrow> pyval list \<Rightarrow> GatewayBranch list result" where
  "parse_branches i [] = Inr []"
| "parse_branches i (v # vs) =
     bindr (flow_dict v) (\<lambda>f.
       let target = por (por (pget f ''target'') (pget f ''targetRef'')) (pget f ''target_id'')
       in if target = PNone then parse_branches (Suc i) vs
          else bindr (py_str target) (\<lambda>t. bindr (parse_branches (Suc i) vs) (\<lambda>bs.
                 Inr (\<lparr>gb_target = t,
                       gb_condition = por (por (pget f ''condition'') (pget f ''conditionExpression'')) (pget f ''expr''),
                       gb_priority = pget_or f ''priority'' (PInt (int i)), gb_is_default = pget_or f ''isDefault'' (PBool False)\<rparr> # bs))))"

definition gateway_choose :: "evaluator \<Rightarrow> pydict \<Rightarrow> pydict \<Rightarrow> GatewayDecision result" where
  "gateway_choose ev g ctx =
     bindr (py_str (pget_or g ''id'' (PStr []))) (\<lambda>gid.
     bindr (to_gateway_type (por (pget g ''gateway_type'') (pget_or g ''type'' (PStr ''Exclusive'')))) (\<lambda>ty.
     bindr (py_list (por (pget_or g ''branches'' (pget_or g ''flows'' (pget_or g ''outgoing'' (PList [])))) (PList []))) (\<lambda>vs.
     bindr (parse_branches 0 vs) (\<lambda>branches.
       case ty of
         EXCLUSIVE \<Rightarrow> exclusive_choose ev gid branches (pget g ''default'') ctx
       | INCLUSIVE \<Rightarrow> inclusive_choose ev gid branches (pget g ''default'') ctx
       | PARALLEL \<Rightarrow> Inr (parallel_choose gid branches)
       | EVENT_BASED \<Rightarrow> event_based_choose gid (Some g) ctx
       | COMPLEX \<Rightarrow> complex_choose ev gid branches (pget g ''default'') (Some g) ctx))))"

subsection \<open>Branches with integer priorities and textual conditions\<close>

definition prio :: "GatewayBranch \<Rightarrow> int" where
  "prio b = (case gb_priority b of PInt p \<Rightarrow> p | _ \<Rightarrow> 0)"

definition well_typed :: "GatewayBranch \<Rightarrow> bool" where
  "well_typed b \<longleftrightarrow> (\<exists>p. gb_priority b = PInt p) \<and> gb_target b \<noteq> [] \<and>
     (gb_condition b = PNone \<or> (\<exists>s. s \<noteq> [] \<and> gb_condition b = PStr s))"

text \<open>The condition of the branch holds.\<close>

definition holds :: "evaluator \<Rightarrow> pydict \<Rightarrow> GatewayBranch \<Rightarrow> bool" where
  "holds ev ctx b \<longleftrightarrow> guarded b \<and> evaluate_condition ev ctx (gb_condition b) = Inr True"

lemma evaluate_text:
  "evaluate_condition ev ctx (PStr s) = Inr (if s \<in> {''true'', ''True'', ''1''} then True
     else if s \<in> {''false'', ''False'', ''0''} then False else case ev s ctx of Inl _ \<Rightarrow> False | Inr v \<Rightarrow> truthy v)"
  by (cases "ev s ctx") (simp_all add: evaluate_condition_def)

lemma evaluate_well_typed:
  assumes "well_typed b" "guarded b"
  shows "evaluate_condition ev ctx (gb_condition b) = Inr (holds ev ctx b)"
proof -
  obtain s where s: "gb_condition b = PStr s" using assms by (auto simp: well_typed_def guarded_def)
  obtain ok where "evaluate_condition ev ctx (PStr s) = Inr ok" using evaluate_text by metis
  then show ?thesis using s assms(2) by (auto simp: holds_def)
qed

lemma sort_paired: "sort_key fst (map (\<lambda>b. (f b, b)) bs) = map (\<lambda>b. (f b, b)) (sort_key f bs)"
proof -
  have ins: "insort_key fst (f b, b) (map (\<lambda>b. (f b, b)) xs) = map (\<lambda>b. (f b, b)) (insort_key f b xs)" for b xs
    by (induction xs) simp_all
  show ?thesis by (induction bs) (simp_all add: ins)
qed

lemma by_priority_well_typed:
  assumes "\<forall>b \<in> set bs. well_typed b"
  shows "by_priority bs = Inr (sort_key prio bs)"
proof -
  have "mapr (\<lambda>b. bindr (py_int (gb_priority b)) (\<lambda>p. Inr (p, b))) bs = Inr (map (\<lambda>b. (prio b, b)) bs)"
    using assms by (induction bs) (auto simp: well_typed_def prio_def)
  then show ?thesis by (simp add: by_priority_def sort_paired comp_def)
qed

lemma first_match_well_typed:
  "\<forall>b \<in> set bs. well_typed b \<Longrightarrow> first_match ev ctx bs = Inr (List.find (holds ev ctx) bs)"
  by (induction bs) (auto simp: evaluate_well_typed, auto simp: holds_def)

lemma all_matches_well_typed:
  "\<forall>b \<in> set bs. well_typed b \<Longrightarrow> all_matches ev ctx bs = Inr (map gb_target (filter (holds ev ctx) bs))"
  by (induction bs) (auto simp: evaluate_well_typed, auto simp: holds_def)

text \<open>Where a token goes that no condition sends anywhere.\<close>

definition fallback :: "GatewayBranch list \<Rightarrow> string option \<Rightarrow> string option" where
  "fallback bs dflt =
     (case List.find (\<lambda>b. truthy (gb_is_default b)) bs of
        Some b \<Rightarrow> Some (gb_target b)
      | None \<Rightarrow> (case nonempty_opt dflt of [] \<Rightarrow> None | t # _ \<Rightarrow> Some t))"

lemma find_filter: "List.find P xs = (case filter P xs of [] \<Rightarrow> None | x # _ \<Rightarrow> Some x)"
  by (induction xs) simp_all

text \<open>A gateway as the dictionary that the handler reads.\<close>

definition branch_dict :: "GatewayBranch \<Rightarrow> pyval" where
  "branch_dict b = PDict [(''target'', PStr (gb_target b)), (''condition'', gb_condition b), (''priority'', gb_priority b),
     (''isDefault'', gb_is_default b)]"

definition gateway_dict :: "string \<Rightarrow> GatewayType \<Rightarrow> GatewayBranch list \<Rightarrow> string option \<Rightarrow> pydict" where
  "gateway_dict gid ty bs dflt =
     [(''id'', PStr gid), (''type'', PStr (gateway_type_value ty)), (''branches'', PList (map branch_dict bs)), (''default'', opt_str dflt)]"

lemma parse_branch_dicts: "\<forall>b \<in> set bs. well_typed b \<Longrightarrow> parse_branches i (map branch_dict bs) = Inr bs"
  by (induction bs arbitrary: i) (auto simp: branch_dict_def flow_dict_def payload_simps por_def well_typed_def)

lemma choose_gateway_dict:
  assumes "\<forall>b \<in> set bs. well_typed b"
  shows "gateway_choose ev (gateway_dict gid INCLUSIVE bs dflt) ctx = inclusive_choose ev gid bs (opt_str dflt) ctx"
    "gateway_choose ev (gateway_dict gid EXCLUSIVE bs dflt) ctx = exclusive_choose ev gid bs (opt_str dflt) ctx"
proof -
  have p: "py_list (por (PList (map branch_dict bs)) (PList [])) = Inr (map branch_dict bs)" by (cases bs) (simp_all add: por_def)
  show "gateway_choose ev (gateway_dict gid INCLUSIVE bs dflt) ctx = inclusive_choose ev gid bs (opt_str dflt) ctx"
    "gateway_choose ev (gateway_dict gid EXCLUSIVE bs dflt) ctx = exclusive_choose ev gid bs (opt_str dflt) ctx"
    using p parse_branch_dicts [OF assms, of 0]
    by (simp_all add: gateway_choose_def gateway_dict_def payload_simps to_gateway_type_def por_def [of PNone])
qed

text \<open>
  C9: What exclusive and inclusive gateways do, for integer priorities and textual conditions.  Let the candidates be
  the branches that are not default and whose condition holds, by priority and in the given order where priorities are
  equal.  The inclusive gateway takes all candidates and the exclusive one the first; without a candidate both fall
  back to the branch marked as default and then to the gateway's default.  If there is none of these, the exclusive
  gateway takes its first branch although that branch's condition is false, and the inclusive gateway takes no branch
  at all.
\<close>

theorem gateway_routing:
  assumes "\<forall>b \<in> set bs. well_typed b"
  shows "let candidates = map gb_target (filter (holds ev ctx) (sort_key prio bs)) in
    gateway_choose ev (gateway_dict gid INCLUSIVE bs dflt) ctx = Inr (decision gid
      (if candidates \<noteq> [] then candidates else case fallback bs dflt of Some t \<Rightarrow> [t] | None \<Rightarrow> []) INCLUSIVE
      (candidates = [] \<and> fallback bs dflt \<noteq> None)) \<and>
    gateway_choose ev (gateway_dict gid EXCLUSIVE bs dflt) ctx = Inr (decision gid
      (if candidates \<noteq> [] then [hd candidates] else case fallback bs dflt of Some t \<Rightarrow> [t] | None \<Rightarrow> map gb_target (take 1 bs)) EXCLUSIVE
      (candidates = [] \<and> (fallback bs dflt \<noteq> None \<or> bs \<noteq> [])))"
proof -
  have wt: "\<forall>b \<in> set (sort_key prio bs). well_typed b" using assms by simp
  obtain m where m: "filter (holds ev ctx) (sort_key prio bs) = m" by blast
  have d: "nonempty_opt dflt = (if truthy (opt_str dflt) then [the dflt] else [])"
    "truthy (opt_str dflt) \<Longrightarrow> py_str (opt_str dflt) = Inr (the dflt)"
    by (cases dflt; simp add: nonempty_opt_def opt_str_def)+
  have "inclusive_choose ev gid bs (opt_str dflt) ctx = Inr (decision gid
      (if m \<noteq> [] then map gb_target m else case fallback bs dflt of Some t \<Rightarrow> [t] | None \<Rightarrow> []) INCLUSIVE
      (m = [] \<and> fallback bs dflt \<noteq> None))"
    using d(2) by (auto simp: inclusive_choose_def by_priority_well_typed [OF assms] all_matches_well_typed [OF wt] m fallback_def d(1)
        split: option.split)
  moreover have "exclusive_choose ev gid bs (opt_str dflt) ctx = Inr (decision gid
      (if m \<noteq> [] then [gb_target (hd m)] else case fallback bs dflt of Some t \<Rightarrow> [t] | None \<Rightarrow> map gb_target (take 1 bs)) EXCLUSIVE
      (m = [] \<and> (fallback bs dflt \<noteq> None \<or> bs \<noteq> [])))"
    using d(2) by (auto simp: exclusive_choose_def by_priority_well_typed [OF assms] first_match_well_typed [OF wt] find_filter [of "holds ev ctx"] m
        fallback_def d(1) split: option.split list.split)
  ultimately show ?thesis by (simp add: m hd_map choose_gateway_dict [OF assms])
qed

definition demo_branches :: "GatewayBranch list" where
  "demo_branches =
     [\<lparr>gb_target = ''a'', gb_condition = PStr ''x > 100'', gb_priority = PInt 2, gb_is_default = PBool False\<rparr>,
      \<lparr>gb_target = ''b'', gb_condition = PStr ''true'', gb_priority = PInt 1, gb_is_default = PBool False\<rparr>]"

theorem gateway_routing_witness:
  "gateway_choose (\<lambda>_ _. Inr (PBool True)) (gateway_dict ''g'' EXCLUSIVE demo_branches None) [] = Inr (decision ''g'' [''b''] EXCLUSIVE False) \<and>
    gateway_choose (\<lambda>_ _. Inr (PBool True)) (gateway_dict ''g'' INCLUSIVE demo_branches None) [] = Inr (decision ''g'' [''b'', ''a''] INCLUSIVE False)"
proof -
  let ?ev = "\<lambda>_ _. Inr (PBool True)"
  have c: "map gb_target (filter (holds ?ev []) (sort_key prio demo_branches)) = [''b'', ''a'']"
    by (simp add: demo_branches_def holds_def guarded_def evaluate_condition_def prio_def)
  have w: "\<forall>b \<in> set demo_branches. well_typed b" by (simp add: demo_branches_def well_typed_def)
  show ?thesis using gateway_routing [OF w, of ?ev "[]" "''g''" None] by (simp add: c)
qed

end
