(* ===== verification/BpmnModel.thy ===== *)
theory BpmnModel
  imports Gateways
begin

section \<open>Process models\<close>

text \<open>
  What the BPMN executor works on: flow nodes and sequence flows (\<open>bpmn/models/bpmn_models.py\<close>), the two forms of a
  process model and how a definition is brought into them (\<open>bpmn/process_model.py\<close>, \<open>bpmn/model_normalizer.py\<close>), the
  traversal of sequence flows (\<open>bpmn/sequence_flow.py\<close>) and the classification of gateways
  (\<open>bpmn/gateway_classifier.py\<close>).  A node has its concrete class, its id and name, and its other attributes by name,
  as \<open>getattr\<close> reads them; a reference between elements is the id of the element it refers to.
\<close>

subsection \<open>Elements\<close>

datatype node_class =
    ServiceTask | UserTask | ManualTask | ScriptTask | BusinessRuleTask | SendTask | ReceiveTask | Task
  | CallActivity | AdHocSubProcess | TransactionSubProcess | SubProcess | Activity
  | StartEvent | EndEvent | BoundaryEvent | IntermediateCatchEvent | IntermediateThrowEvent | CatchEvent | ThrowEvent | FlowEvent
  | ExclusiveGateway | InclusiveGateway | ParallelGateway | EventBasedGateway | ComplexGateway | Gateway | FlowNode

definition task_classes :: "node_class list" where
  "task_classes = [ServiceTask, UserTask, ManualTask, ScriptTask, BusinessRuleTask, SendTask, ReceiveTask, Task]"

definition activity_classes :: "node_class list" where
  "activity_classes = task_classes @ [CallActivity, AdHocSubProcess, TransactionSubProcess, SubProcess, Activity]"

definition event_classes :: "node_class list" where
  "event_classes =
     [StartEvent, EndEvent, BoundaryEvent, IntermediateCatchEvent, IntermediateThrowEvent, CatchEvent, ThrowEvent, FlowEvent]"

definition gateway_classes :: "node_class list" where
  "gateway_classes = [ExclusiveGateway, InclusiveGateway, ParallelGateway, EventBasedGateway, ComplexGateway, Gateway]"

record flow_node =
  fn_id :: string
  fn_name :: "string option"
  fn_class :: node_class
  fn_attrs :: pydict

text \<open>An expression object: its body and the text that \<open>str\<close> gives for the object.\<close>

record FormalExpression =
  fe_body :: "string option"
  fe_text :: string

record SequenceFlow =
  sf_id :: string
  sf_source_ref :: "string option"
  sf_target_ref :: "string option"
  sf_condition_expression :: "FormalExpression option"
  sf_source_ref_id :: "string option"
  sf_target_ref_id :: "string option"

datatype flow_element = NodeElement flow_node | FlowElement SequenceFlow | OtherElement string

record HandlerSequenceFlow =
  hf_flow_id :: string
  hf_source_ref :: string
  hf_target_ref :: string
  hf_condition_expression :: "string option"
  hf_is_default :: bool

text \<open>\<open>getattr(condition, "body", None) or str(condition)\<close>\<close>

definition expression_text :: "FormalExpression \<Rightarrow> string" where
  "expression_text x = (case nonempty_opt (fe_body x) of [] \<Rightarrow> fe_text x | b # _ \<Rightarrow> b)"

subsection \<open>Sequence flows\<close>

definition flow_condition :: "evaluator \<Rightarrow> pydict \<Rightarrow> string \<Rightarrow> bool" where
  "flow_condition ev ctx s =
     (if s \<in> {''true'', ''True'', ''1''} then True
      else if s \<in> {''false'', ''False'', ''0''} then False
      else case ev s ctx of Inl _ \<Rightarrow> False | Inr v \<Rightarrow> truthy v)"

record FlowTraversalResult =
  ft_selected_targets :: "string list"
  ft_default_used :: bool
  ft_skip_guarded :: bool
  ft_conditions_evaluated :: "(string, bool) dict"

text \<open>The loop that both kinds of flow share, over the targets and conditions of the outgoing flows.\<close>

fun select_targets ::
  "evaluator \<Rightarrow> string \<Rightarrow> pydict \<Rightarrow> bool \<Rightarrow> bool \<Rightarrow> (string \<times> string option) list \<Rightarrow> string list \<Rightarrow> (string, bool) dict \<Rightarrow> FlowTraversalResult" where
  "select_targets ev src ctx evaluate_conditions skip_guarded [] sel conds =
     \<lparr>ft_selected_targets = sel, ft_default_used = False, ft_skip_guarded = skip_guarded, ft_conditions_evaluated = conds\<rparr>"
| "select_targets ev src ctx evaluate_conditions skip_guarded ((t, c) # fs) sel conds =
     (case nonempty_opt c of
        [] \<Rightarrow> select_targets ev src ctx evaluate_conditions skip_guarded fs (sel @ [t]) conds
      | s # _ \<Rightarrow>
          if evaluate_conditions
          then (let ok = flow_condition ev ctx s
                in select_targets ev src ctx evaluate_conditions skip_guarded fs (if ok then sel @ [t] else sel)
                     (dset (src @ ''->'' @ t) ok conds))
          else if skip_guarded
          then select_targets ev src ctx evaluate_conditions skip_guarded fs sel (dset (src @ ''->'' @ t) False conds)
          else select_targets ev src ctx evaluate_conditions skip_guarded fs (sel @ [t]) conds)"

definition next_nodes_handler ::
  "evaluator \<Rightarrow> HandlerSequenceFlow list \<Rightarrow> string \<Rightarrow> pydict \<Rightarrow> bool \<Rightarrow> bool \<Rightarrow> FlowTraversalResult" where
  "next_nodes_handler ev flows src ctx evaluate_conditions skip_guarded =
     select_targets ev src ctx evaluate_conditions skip_guarded
       (map (\<lambda>f. (hf_target_ref f, hf_condition_expression f)) (filter (\<lambda>f. hf_source_ref f = src) flows)) [] []"

text \<open>\<open>_extract_condition_text\<close>\<close>

definition extract_condition_text :: "FormalExpression option \<Rightarrow> string option" where
  "extract_condition_text c = (case c of None \<Rightarrow> None | Some x \<Rightarrow> (case nonempty_opt (fe_body x) of [] \<Rightarrow> None | b # _ \<Rightarrow> Some b))"

definition next_nodes_osdm ::
  "evaluator \<Rightarrow> SequenceFlow list \<Rightarrow> string \<Rightarrow> pydict \<Rightarrow> bool \<Rightarrow> bool \<Rightarrow> FlowTraversalResult" where
  "next_nodes_osdm ev flows src ctx evaluate_conditions skip_guarded =
     select_targets ev src ctx evaluate_conditions skip_guarded
       (List.map_filter (\<lambda>f. map_option (\<lambda>t. (t, extract_condition_text (sf_condition_expression f))) (sf_target_ref f))
          (filter (\<lambda>f. sf_source_ref f = Some src) flows)) [] []"

definition find_default_flow :: "HandlerSequenceFlow list \<Rightarrow> string \<Rightarrow> string option" where
  "find_default_flow flows src =
     map_option hf_target_ref (List.find (\<lambda>f. hf_source_ref f = src \<and> hf_is_default f \<and> hf_target_ref f \<noteq> []) flows)"

definition has_conditional_flows :: "HandlerSequenceFlow list \<Rightarrow> string \<Rightarrow> bool" where
  "has_conditional_flows flows src \<longleftrightarrow> (\<exists>f \<in> set flows. hf_source_ref f = src \<and> nonempty_opt (hf_condition_expression f) \<noteq> [])"

subsection \<open>Typed process models\<close>

record TypedProcessModel =
  tp_definition_id :: string
  tp_start_node_id :: "string option"
  tp_node_index :: "(string, flow_node) dict"
  tp_flow_index :: "(string, SequenceFlow list) dict"

definition get_flow_node :: "string \<Rightarrow> TypedProcessModel \<Rightarrow> flow_node option" where
  "get_flow_node nid m = dget (tp_node_index m) nid"

definition get_outgoing_flows :: "string \<Rightarrow> TypedProcessModel \<Rightarrow> SequenceFlow list" where
  "get_outgoing_flows nid m = dget_or (tp_flow_index m) nid []"

definition get_outgoing_targets :: "string \<Rightarrow> TypedProcessModel \<Rightarrow> string list" where
  "get_outgoing_targets nid m = List.map_filter sf_target_ref (get_outgoing_flows nid m)"

fun classify_node :: "node_class \<Rightarrow> string" where
  "classify_node ExclusiveGateway = ''exclusiveGateway''"
| "classify_node InclusiveGateway = ''inclusiveGateway''"
| "classify_node ParallelGateway = ''parallelGateway''"
| "classify_node EventBasedGateway = ''eventBasedGateway''"
| "classify_node ComplexGateway = ''complexGateway''"
| "classify_node StartEvent = ''startEvent''"
| "classify_node EndEvent = ''endEvent''"
| "classify_node BoundaryEvent = ''boundaryEvent''"
| "classify_node IntermediateCatchEvent = ''intermediateCatch''"
| "classify_node IntermediateThrowEvent = ''intermediateThrow''"
| "classify_node ServiceTask = ''serviceTask''"
| "classify_node UserTask = ''userTask''"
| "classify_node ManualTask = ''manualTask''"
| "classify_node ScriptTask = ''scriptTask''"
| "classify_node BusinessRuleTask = ''businessRuleTask''"
| "classify_node SendTask = ''sendTask''"
| "classify_node ReceiveTask = ''receiveTask''"
| "classify_node CallActivity = ''callActivity''"
| "classify_node AdHocSubProcess = ''adHocSubProcess''"
| "classify_node TransactionSubProcess = ''subProcess''"
| "classify_node SubProcess = ''subProcess''"
| "classify_node Task = ''task''"
| "classify_node Activity = ''activity''"
| "classify_node CatchEvent = ''event''"
| "classify_node ThrowEvent = ''event''"
| "classify_node FlowEvent = ''event''"
| "classify_node Gateway = ''gateway''"
| "classify_node FlowNode = ''flowNode''"

subsection \<open>Normalisation\<close>

record ProcessModel =
  pm_definition_id :: string
  pm_start_node :: "string option"
  pm_activities :: "flow_node list"
  pm_flows :: "HandlerSequenceFlow list"

text \<open>
  The payload that describes a definition to the executor, with its activities as typed objects and its flows as
  dictionaries, which is how \<open>BPMNEngine\<close> builds it.
\<close>

record definition_payload =
  pl_id :: "string option"
  pl_activities :: "flow_node list"
  pl_flows :: "pydict list"
  pl_start_event_id :: "string option"
  pl_flow_elements :: "(string, flow_element) dict"

definition dict_to_handler_flow :: "pydict \<Rightarrow> HandlerSequenceFlow result" where
  "dict_to_handler_flow d =
     bindr (py_str (pget_or d ''id'' (PStr []))) (\<lambda>fid.
     bindr (py_str (por (por (por (pget d ''source'') (pget d ''sourceRef'')) (pget d ''source_id'')) (PStr []))) (\<lambda>src.
     bindr (py_str (por (por (por (pget d ''target'') (pget d ''targetRef'')) (pget d ''target_id'')) (PStr []))) (\<lambda>tgt.
     bindr (py_str (por (por (pget d ''condition'') (pget d ''conditionExpression'')) (PStr []))) (\<lambda>cond.
       Inr \<lparr>hf_flow_id = fid, hf_source_ref = src, hf_target_ref = tgt,
            hf_condition_expression = (if cond = [] then None else Some cond),
            hf_is_default = truthy (pget_or d ''isDefault'' (pget_or d ''is_default'' (PBool False)))\<rparr>))))"

text \<open>\<open>_activity_type_str\<close>: the type of an activity as it is, other types in lower case.\<close>

definition activity_type_str :: "flow_node \<Rightarrow> string result" where
  "activity_type_str n =
     (if pget (fn_attrs n) ''activity_type'' \<noteq> PNone then py_str (pget (fn_attrs n) ''activity_type'')
      else case dget (fn_attrs n) ''type'' of None \<Rightarrow> Inr [] | Some v \<Rightarrow> bindr (py_str v) (\<lambda>s. Inr (map lower_char s)))"

fun start_activity_id :: "flow_node list \<Rightarrow> string option result" where
  "start_activity_id [] = Inr None"
| "start_activity_id (n # ns) =
     bindr (activity_type_str n) (\<lambda>s.
       if map lower_char s \<in> {''startevent'', ''start''} then Inr (Some (fn_id n)) else start_activity_id ns)"

fun start_element :: "(string, flow_element) dict \<Rightarrow> string option" where
  "start_element [] = None"
| "start_element ((eid, el) # els) =
     (case el of NodeElement n \<Rightarrow> if fn_class n = StartEvent then Some eid else start_element els | _ \<Rightarrow> start_element els)"

definition normalize :: "definition_payload \<Rightarrow> ProcessModel result" where
  "normalize p =
     bindr (mapr dict_to_handler_flow (pl_flows p)) (\<lambda>flows.
     bindr (case nonempty_opt (pl_start_event_id p) of s # _ \<Rightarrow> Inr (Some s) | [] \<Rightarrow> start_activity_id (pl_activities p)) (\<lambda>start.
       Inr \<lparr>pm_definition_id = (case pl_id p of None \<Rightarrow> ''process'' | Some i \<Rightarrow> i),
            pm_start_node =
              (case nonempty_opt start of
                 s # _ \<Rightarrow> Some s
               | [] \<Rightarrow> (case start_element (pl_flow_elements p) of
                          Some s \<Rightarrow> Some s
                        | None \<Rightarrow> (case start of Some s \<Rightarrow> Some s | None \<Rightarrow> pl_start_event_id p))),
            pm_activities = pl_activities p, pm_flows = flows\<rparr>))"

fun index_elements :: "(string, flow_element) dict \<Rightarrow> TypedProcessModel \<Rightarrow> TypedProcessModel" where
  "index_elements [] m = m"
| "index_elements ((eid, el) # els) m =
     index_elements els
       (case el of
          NodeElement n \<Rightarrow> m\<lparr>tp_node_index := dset eid n (tp_node_index m)\<rparr>
        | FlowElement f \<Rightarrow>
            (let src = (case sf_source_ref_id f of None \<Rightarrow> [] | Some s \<Rightarrow> s)
             in m\<lparr>tp_flow_index := dset src (dget_or (tp_flow_index m) src [] @ [f]) (tp_flow_index m)\<rparr>)
        | OtherElement _ \<Rightarrow> m)"

definition normalize_osdm :: "definition_payload \<Rightarrow> string \<Rightarrow> TypedProcessModel" where
  "normalize_osdm p did =
     (index_elements (pl_flow_elements p)
        \<lparr>tp_definition_id = did, tp_start_node_id = None, tp_node_index = [], tp_flow_index = []\<rparr>)
        \<lparr>tp_start_node_id := pl_start_event_id p\<rparr>"

definition find_activity :: "ProcessModel \<Rightarrow> string \<Rightarrow> flow_node option" where
  "find_activity m aid = List.find (\<lambda>n. fn_id n = aid) (pm_activities m)"

subsection \<open>Gateway classification\<close>

fun gateway_kind :: "node_class \<Rightarrow> string" where
  "gateway_kind ExclusiveGateway = ''exclusive''"
| "gateway_kind InclusiveGateway = ''inclusive''"
| "gateway_kind ParallelGateway = ''parallel''"
| "gateway_kind EventBasedGateway = ''event''"
| "gateway_kind ComplexGateway = ''complex''"
| "gateway_kind _ = ''none''"

definition is_gateway_typed :: "string \<Rightarrow> TypedProcessModel \<Rightarrow> bool" where
  "is_gateway_typed nid m = (case get_flow_node nid m of None \<Rightarrow> False | Some n \<Rightarrow> fn_class n \<in> set gateway_classes)"

definition classify_gateway_typed :: "string \<Rightarrow> TypedProcessModel \<Rightarrow> string" where
  "classify_gateway_typed nid m = (case get_flow_node nid m of None \<Rightarrow> ''none'' | Some n \<Rightarrow> gateway_kind (fn_class n))"

definition is_converging_gateway_typed :: "string \<Rightarrow> TypedProcessModel \<Rightarrow> bool" where
  "is_converging_gateway_typed nid m \<longleftrightarrow> classify_gateway_typed nid m \<in> {''inclusive'', ''complex''}"

text \<open>
  \<open>find_fork_for_converging\<close>: the first source of an incoming flow that is an inclusive or parallel gateway.  Its
  second loop looks at the same sources again, none of which is such a gateway.
\<close>

definition find_fork_for_converging :: "string \<Rightarrow> TypedProcessModel \<Rightarrow> string option" where
  "find_fork_for_converging nid m =
     (case get_flow_node nid m of
        None \<Rightarrow> None
      | Some _ \<Rightarrow>
          (case List.find (\<lambda>f. case get_flow_node (case sf_source_ref_id f of None \<Rightarrow> [] | Some s \<Rightarrow> s) m of
                                 None \<Rightarrow> False
                               | Some n \<Rightarrow> gateway_kind (fn_class n) \<in> {''inclusive'', ''parallel''})
                  (filter (\<lambda>f. sf_target_ref_id f = Some nid) (concat (dvals (tp_flow_index m)))) of
             None \<Rightarrow> None
           | Some f \<Rightarrow> sf_source_ref_id f))"

definition get_flow_source :: "string \<Rightarrow> ProcessModel \<Rightarrow> TypedProcessModel \<Rightarrow> string option" where
  "get_flow_source fid model m =
     (case List.find (\<lambda>f. sf_id f = fid) (concat (dvals (tp_flow_index m))) of
        Some f \<Rightarrow> sf_source_ref_id f
      | None \<Rightarrow> map_option hf_source_ref (List.find (\<lambda>f. hf_flow_id f = fid) (pm_flows model)))"

definition ref_or_empty :: "string option \<Rightarrow> string" where
  "ref_or_empty x = (case x of None \<Rightarrow> [] | Some s \<Rightarrow> s)"

text \<open>\<open>evaluate_gateway_split_typed\<close>: the targets of the flows whose condition holds and the first unconditional one.\<close>

definition split_matches :: "evaluator \<Rightarrow> pydict \<Rightarrow> SequenceFlow list \<Rightarrow> string list" where
  "split_matches ev vars flows =
     map (ref_or_empty \<circ> sf_target_ref_id)
       (filter (\<lambda>f. case sf_condition_expression f of
                      None \<Rightarrow> False
                    | Some x \<Rightarrow> (case ev (expression_text x) vars of Inl _ \<Rightarrow> False | Inr v \<Rightarrow> truthy v)) flows)"

definition evaluate_gateway_split_typed :: "evaluator \<Rightarrow> string \<Rightarrow> TypedProcessModel \<Rightarrow> pydict \<Rightarrow> string list" where
  "evaluate_gateway_split_typed ev nid m vars =
     (let outgoing = get_outgoing_flows nid m; matched = split_matches ev vars outgoing;
          unconditional = map (ref_or_empty \<circ> sf_target_ref_id) (filter (\<lambda>f. sf_condition_expression f = None) outgoing)
      in if matched \<noteq> [] then matched
         else case unconditional of
                u # _ \<Rightarrow> if u \<noteq> [] then [u] else map (ref_or_empty \<circ> sf_target_ref_id) (take 1 outgoing)
              | [] \<Rightarrow> map (ref_or_empty \<circ> sf_target_ref_id) (take 1 outgoing))"

definition find_flow_to_target_typed :: "string \<Rightarrow> string \<Rightarrow> TypedProcessModel \<Rightarrow> SequenceFlow option" where
  "find_flow_to_target_typed src tgt m =
     List.find (\<lambda>f. sf_target_ref_id f = Some tgt \<or> ref_or_empty (sf_target_ref f) = tgt) (get_outgoing_flows src m)"

definition extract_flow_condition :: "SequenceFlow option \<Rightarrow> string option" where
  "extract_flow_condition f = (case f of None \<Rightarrow> None | Some g \<Rightarrow> map_option expression_text (sf_condition_expression g))"

end
