(* ===== verification/BpmnActivities.thy ===== *)
theory BpmnActivities
  imports BpmnModel Instances
begin

section \<open>Executing activities\<close>

text \<open>
  \<open>bpmn/activity_handler.py\<close>: what executing a node does to its process instance.  The handlers read attributes of the
  node and set variables of the instance; nothing outside the instance changes.  An object in an attribute is the
  dictionary of its attributes, with the name of its class under \<open>__class__\<close>, or opaque (\<open>PObj\<close>); what \<open>str\<close> gives
  for an opaque object is the parameter \<open>repr\<close>.  Global tasks are no flow nodes and do not occur in a process.
\<close>

subsection \<open>Results\<close>

record ActivityExecutionResult =
  ar_success :: bool
  ar_output :: "pydict option"
  ar_error :: "py_error option"
  ar_waiting :: bool
  ar_wait_kind :: "string option"
  ar_wait_name :: "string option"
  ar_correlation_keys :: "pydict option"
  ar_io_mappings_applied :: bool

definition activity_done :: "pydict \<Rightarrow> ActivityExecutionResult" where
  "activity_done out =
     \<lparr>ar_success = True, ar_output = Some out, ar_error = None, ar_waiting = False, ar_wait_kind = None, ar_wait_name = None,
      ar_correlation_keys = None, ar_io_mappings_applied = True\<rparr>"

definition activity_failed :: "py_error \<Rightarrow> ActivityExecutionResult" where
  "activity_failed err =
     \<lparr>ar_success = False, ar_output = None, ar_error = Some err, ar_waiting = False, ar_wait_kind = None, ar_wait_name = None,
      ar_correlation_keys = None, ar_io_mappings_applied = False\<rparr>"

type_synonym activity_run = "ActivityExecutionResult result \<times> ProcessInstance"

subsection \<open>Attributes\<close>

abbreviation attr :: "flow_node \<Rightarrow> string \<Rightarrow> pyval" where
  "attr n k \<equiv> pget (fn_attrs n) k"

abbreviation attr_or :: "flow_node \<Rightarrow> string \<Rightarrow> pyval \<Rightarrow> pyval" where
  "attr_or n k v \<equiv> pget_or (fn_attrs n) k v"

definition obj_str :: "(nat \<Rightarrow> string) \<Rightarrow> pyval \<Rightarrow> string result" where
  "obj_str repr v = (case v of PObj k \<Rightarrow> Inr (repr k) | _ \<Rightarrow> py_str v)"

text \<open>\<open>str(v) if v else None\<close>\<close>

definition str_if :: "(nat \<Rightarrow> string) \<Rightarrow> pyval \<Rightarrow> pyval result" where
  "str_if repr v = (if truthy v then bindr (obj_str repr v) (Inr \<circ> PStr) else Inr PNone)"

definition set_each :: "string \<Rightarrow> (string \<times> pyval) list \<Rightarrow> ProcessInstance \<Rightarrow> ProcessInstance" where
  "set_each aid vs i = fold (\<lambda>(k, v). pi_set_variable (aid @ ''.'' @ k) v) vs i"

text \<open>The ids of the elements of a sub-process.\<close>

definition child_elements :: "flow_node \<Rightarrow> string list" where
  "child_elements n = dkeys (as_dict (attr n ''flow_elements''))"

subsection \<open>Input and output mappings\<close>

fun default_inputs :: "pyval list \<Rightarrow> ProcessInstance \<Rightarrow> ProcessInstance" where
  "default_inputs [] i = i"
| "default_inputs (di # dis) i =
     default_inputs dis
       (case pget (as_dict di) ''name'' of
          PStr name \<Rightarrow>
            if name \<noteq> [] \<and> \<not> pi_has_variable name i \<and> pget (as_dict di) ''default_value'' \<noteq> PNone
            then pi_set_variable name (pget (as_dict di) ''default_value'') i else i
        | _ \<Rightarrow> i)"

fun apply_associations :: "(nat \<Rightarrow> string) \<Rightarrow> pyval list \<Rightarrow> ProcessInstance \<Rightarrow> ProcessInstance outcome" where
  "apply_associations repr [] i = (None, i)"
| "apply_associations repr (da # das) i =
     (let source = pget (as_dict da) ''source_ref''; target = pget (as_dict da) ''target_ref''
      in if truthy source \<and> truthy target
         then (case obj_str repr source of
                 Inl err \<Rightarrow> (Some err, i)
               | Inr s \<Rightarrow>
                   (let v = pi_get_variable s PNone i
                    in if v = PNone then apply_associations repr das i
                       else (case obj_str repr target of
                               Inl err \<Rightarrow> (Some err, i)
                             | Inr t \<Rightarrow> apply_associations repr das (pi_set_variable t v i))))
         else apply_associations repr das i)"

text \<open>
  The specification object has no attribute \<open>data_associations\<close> unless one was added to it: reading it raises.
\<close>

definition apply_io_mappings :: "(nat \<Rightarrow> string) \<Rightarrow> flow_node \<Rightarrow> ProcessInstance \<Rightarrow> ProcessInstance outcome" where
  "apply_io_mappings repr n i =
     (let spec = as_dict (attr n ''io_specification'')
      in if pget spec ''__class__'' \<noteq> PStr ''InputOutputSpecification'' then (None, i)
         else (case py_list (por (pget spec ''data_inputs'') (PList [])) of
                 Inl err \<Rightarrow> (Some err, i)
               | Inr dis \<Rightarrow>
                   (let i1 = default_inputs dis i
                    in case dget spec ''data_associations'' of
                         None \<Rightarrow> (Some (AttributeError ''data_associations''), i1)
                       | Some das \<Rightarrow>
                           (case py_list (por das (PList [])) of
                              Inl err \<Rightarrow> (Some err, i1)
                            | Inr xs \<Rightarrow> apply_associations repr xs i1))))"

subsection \<open>Handlers\<close>

text \<open>Handlers that set \<open><id>.output\<close>, and some also \<open><id>.result\<close>, to what they return.\<close>

definition finish_with :: "string list \<Rightarrow> flow_node \<Rightarrow> pydict result \<Rightarrow> ProcessInstance \<Rightarrow> activity_run" where
  "finish_with ks n out i =
     (case out of
        Inl err \<Rightarrow> (Inl err, i)
      | Inr d \<Rightarrow> (Inr (activity_done d), set_each (fn_id n) (map (\<lambda>k. (k, PDict d)) ks) i))"

definition named_output :: "string \<Rightarrow> flow_node \<Rightarrow> pydict" where
  "named_output ty n = [(''type'', PStr ty), (''name'', opt_str (fn_name n))]"

definition service_output :: "(nat \<Rightarrow> string) \<Rightarrow> flow_node \<Rightarrow> pydict result" where
  "service_output repr n =
     bindr (obj_str repr (por (attr n ''implementation'') (PStr []))) (\<lambda>impl.
     bindr (str_if repr (attr n ''operation_ref'')) (\<lambda>ref.
       Inr [(''implementation'', PStr impl), (''operation_ref'', ref)]))"

definition script_output :: "(nat \<Rightarrow> string) \<Rightarrow> flow_node \<Rightarrow> pydict result" where
  "script_output repr n =
     bindr (obj_str repr (por (attr n ''script'') (PStr []))) (\<lambda>s.
     bindr (obj_str repr (por (attr n ''script_format'') (PStr []))) (\<lambda>f.
       Inr [(''script'', PStr s), (''scriptFormat'', PStr f), (''executed'', PBool True)]))"

definition business_rule_output :: "(nat \<Rightarrow> string) \<Rightarrow> flow_node \<Rightarrow> pydict result" where
  "business_rule_output repr n =
     bindr (obj_str repr (por (attr n ''called_decision'') (PStr []))) (\<lambda>d.
       Inr [(''decisionRef'', PStr d), (''decisionResult'', PDict [])])"

definition call_output :: "(nat \<Rightarrow> string) \<Rightarrow> flow_node \<Rightarrow> pydict result" where
  "call_output repr n =
     bindr (py_list (por (attr n ''io_binding'') (PList []))) (\<lambda>bs.
     bindr (str_if repr (attr n ''called_element'')) (\<lambda>el.
     bindr (obj_str repr (attr_or n ''call_activity_type'' (PStr ''Process''))) (\<lambda>ty.
       Inr [(''calledElement'', el), (''callActivityType'', PStr ty), (''inputOutputBindings'', PInt (int (length bs)))])))"

text \<open>\<open>repeat_count and repeat_count > 0\<close>\<close>

definition repeats :: "pyval \<Rightarrow> bool result" where
  "repeats v = (if \<not> truthy v then Inr False else bindr (py_int v) (\<lambda>k. Inr (0 < k)))"

definition execute_user_task :: "flow_node \<Rightarrow> ProcessInstance \<Rightarrow> activity_run" where
  "execute_user_task n i =
     (case bindr (py_list (por (attr n ''candidate_groups'') (PList []))) (\<lambda>gs.
           bindr (py_list (por (attr n ''candidate_users'') (PList []))) (\<lambda>us. Inr (gs, us))) of
        Inl err \<Rightarrow> (Inl err, i)
      | Inr (groups, users) \<Rightarrow>
          (let given = (\<lambda>k a. if truthy (attr n a) then [(k, attr n a)] else []);
               timed = (\<lambda>k flag a. if truthy (attr n a) then [(k, attr n a), (flag, PBool True)] else []);
               i1 = set_each (fn_id n)
                 ([(''assignee'', attr n ''assignee''), (''candidateGroups'', PList groups), (''candidateUsers'', PList users)] @
                  given ''formKey'' ''form_key'' @ given ''dueDate'' ''due_date'' @ given ''followUpDate'' ''follow_up_date'' @
                  (if attr n ''priority'' \<noteq> PNone then [(''priority'', attr n ''priority'')] else []) @
                  given ''escalationCode'' ''escalation_code'' @
                  timed ''deadlineDuration'' ''deadlineActive'' ''deadline_duration'' @
                  timed ''escalationDuration'' ''escalationActive'' ''escalation_duration'') i
           in case repeats (attr_or n ''repeat_count'' (PInt 0)) of
                Inl err \<Rightarrow> (Inl err, i1)
              | Inr again \<Rightarrow>
                  finish_with [''output''] n
                    (Inr [(''assignee'', attr n ''assignee''), (''candidateGroups'', PList groups), (''candidateUsers'', PList users),
                          (''formKey'', attr n ''form_key''), (''dueDate'', attr n ''due_date''),
                          (''escalationCode'', attr n ''escalation_code''),
                          (''deadlineActive'', PBool (truthy (attr n ''deadline_duration''))),
                          (''escalationActive'', PBool (truthy (attr n ''escalation_duration'')))])
                    (set_each (fn_id n)
                       ((if again then [(''repeatCount'', attr_or n ''repeat_count'' (PInt 0))] else []) @ given ''endDate'' ''end_date'') i1)))"

definition execute_message_task :: "(nat \<Rightarrow> string) \<Rightarrow> string \<Rightarrow> flow_node \<Rightarrow> ProcessInstance \<Rightarrow> activity_run" where
  "execute_message_task repr kind n i =
     (let name = por (attr n ''message_name'') (attr n ''message_ref'')
      in case py_dict (por (attr n ''correlation_keys'') (PDict [])) of
           Inl err \<Rightarrow> (Inl err, i)
         | Inr keys \<Rightarrow>
             if truthy name
             then (case obj_str repr name of
                     Inl err \<Rightarrow> (Inl err, i)
                   | Inr s \<Rightarrow>
                       (Inr \<lparr>ar_success = True, ar_output = Some [(''type'', PStr kind), (''message'', PStr s)], ar_error = None,
                             ar_waiting = True, ar_wait_kind = Some ''message'', ar_wait_name = Some s, ar_correlation_keys = Some keys,
                             ar_io_mappings_applied = True\<rparr>, i))
             else finish_with [''output''] n (Inr [(''type'', PStr kind), (''message'', PNone)]) i)"

text \<open>\<open>_evaluate_cardinality\<close>; an expression object counts as one.\<close>

definition evaluate_cardinality :: "pyval \<Rightarrow> int result" where
  "evaluate_cardinality v =
     (case v of
        PInt k \<Rightarrow> Inr (max 1 k)
      | PBool b \<Rightarrow> Inr 1
      | PStr s \<Rightarrow> bindr (py_int (PStr s)) (\<lambda>k. Inr (max 1 k))
      | _ \<Rightarrow> Inr 1)"

text \<open>\<open>_handle_loop_osdm\<close>: the result, if the loop is of a known kind.\<close>

definition handle_loop ::
  "(nat \<Rightarrow> string) \<Rightarrow> flow_node \<Rightarrow> pydict \<Rightarrow> string list \<Rightarrow> ProcessInstance \<Rightarrow> ActivityExecutionResult option result \<times> ProcessInstance" where
  "handle_loop repr n lc children i =
     (let looped = (\<lambda>out. Inr (Some ((activity_done out)\<lparr>ar_io_mappings_applied := False\<rparr>)));
          card = pget lc ''loop_cardinality''; cond = pget lc ''completion_condition''
      in if pget lc ''__class__'' = PStr ''MultiInstanceLoopCharacteristics''
         then (let i1 = set_each (fn_id n)
                 (if truthy (pget lc ''is_sequential'') then [(''loop.sequential'', PBool True), (''loop.index'', PInt 0)]
                  else [(''loop.parallel'', PBool True)]) i
               in case (if truthy card then evaluate_cardinality card else Inr 1) of
                    Inl err \<Rightarrow> (Inl err, i1)
                  | Inr sz \<Rightarrow>
                      (let i2 = set_each (fn_id n) [(''loop.size'', PInt sz)] i1
                       in case (if truthy cond then bindr (obj_str repr cond) (\<lambda>s. Inr [(''loop.completionCondition'', PStr s)]) else Inr []) of
                            Inl err \<Rightarrow> (Inl err, i2)
                          | Inr vs \<Rightarrow>
                              (looped [(''loop'', PStr ''multiInstance''), (''children'', str_list children)],
                               set_each (fn_id n) (vs @ [(''loop.children'', str_list children)]) i2)))
         else if pget lc ''__class__'' = PStr ''StandardLoopCharacteristics''
         then (let i1 = set_each (fn_id n) [(''loop.standard'', PBool True)] i; c = pget lc ''loop_condition''
               in case (if truthy c then bindr (obj_str repr c) (\<lambda>s. Inr [(''loop.condition'', PStr s)]) else Inr []) of
                    Inl err \<Rightarrow> (Inl err, i1)
                  | Inr vs \<Rightarrow>
                      (looped [(''loop'', PStr ''standard'')],
                       set_each (fn_id n)
                         (vs @ (if truthy (pget lc ''loop_maximum'') then [(''loop.maximum'', pget lc ''loop_maximum'')] else []) @
                          [(''loop.testBefore'', pget_or lc ''test_before'' (PBool False))]) i1))
         else (Inr None, i))"

definition sub_process_output :: "string \<Rightarrow> flow_node \<Rightarrow> pydict" where
  "sub_process_output ty n = [(''type'', PStr ty), (''children'', PInt (int (length (child_elements n))))]"

definition execute_sub_process :: "(nat \<Rightarrow> string) \<Rightarrow> flow_node \<Rightarrow> ProcessInstance \<Rightarrow> activity_run" where
  "execute_sub_process repr n i =
     (case (if truthy (attr n ''loop_characteristics'')
            then handle_loop repr n (as_dict (attr n ''loop_characteristics'')) (child_elements n) i else (Inr None, i)) of
        (Inl err, i1) \<Rightarrow> (Inl err, i1)
      | (Inr (Some res), i1) \<Rightarrow> (Inr res, i1)
      | (Inr None, i1) \<Rightarrow>
          (case obj_str repr (attr_or n ''sub_process_type'' (PStr ''Embedded'')) of
             Inl err \<Rightarrow> (Inl err, i1)
           | Inr ty \<Rightarrow>
               finish_with [''output''] n (Inr (sub_process_output ''subProcess'' n))
                 (set_each (fn_id n)
                    [(''subProcessType'', PStr ty), (''triggeredByEvent'', attr_or n ''triggered_by_event'' (PBool False)),
                     (''compensation'', attr_or n ''is_for_compensation'' (PBool False)), (''children'', str_list (child_elements n))] i1)))"

definition execute_adhoc_sub_process :: "(nat \<Rightarrow> string) \<Rightarrow> flow_node \<Rightarrow> ProcessInstance \<Rightarrow> activity_run" where
  "execute_adhoc_sub_process repr n i =
     (case (if truthy (attr n ''ordering'') then obj_str repr (attr n ''ordering'') else Inr ''Parallel'') of
        Inl err \<Rightarrow> (Inl err, i)
      | Inr ord \<Rightarrow>
          (Inr (activity_done [(''type'', PStr ''adHocSubProcess'')]),
           set_each (fn_id n)
             [(''ordering'', PStr ord), (''completionCondition'', attr n ''completion_condition''),
              (''cancelRemainingInstances'', attr_or n ''cancel_remaining_instances'' (PBool True)),
              (''children'', str_list (child_elements n)), (''output'', PDict (sub_process_output ''adHocSubProcess'' n))] i))"

definition execute_transaction_sub_process :: "(nat \<Rightarrow> string) \<Rightarrow> flow_node \<Rightarrow> ProcessInstance \<Rightarrow> activity_run" where
  "execute_transaction_sub_process repr n i =
     (case obj_str repr (attr_or n ''method'' (PStr ''##compensate'')) of
        Inl err \<Rightarrow> (Inl err, i)
      | Inr m \<Rightarrow>
          (Inr (activity_done [(''type'', PStr ''transactionSubProcess'')]),
           set_each (fn_id n)
             [(''transactionMethod'', PStr m), (''children'', str_list (child_elements n)),
              (''output'', PDict (sub_process_output ''transactionSubProcess'' n))] i))"

definition generic_type :: "(nat \<Rightarrow> string) \<Rightarrow> flow_node \<Rightarrow> string result" where
  "generic_type repr n =
     (if fn_class n \<in> set activity_classes
      then (if truthy (attr n ''activity_type'') then obj_str repr (attr n ''activity_type'') else Inr ''activity'')
      else Inr ''unknown'')"

fun run_handler :: "(nat \<Rightarrow> string) \<Rightarrow> node_class \<Rightarrow> flow_node \<Rightarrow> ProcessInstance \<Rightarrow> activity_run" where
  "run_handler repr ServiceTask n i = finish_with [''result'', ''output''] n (service_output repr n) i"
| "run_handler repr UserTask n i = execute_user_task n i"
| "run_handler repr ManualTask n i = finish_with [''output''] n (Inr (named_output ''manual'' n)) i"
| "run_handler repr ScriptTask n i = finish_with [''result'', ''output''] n (script_output repr n) i"
| "run_handler repr BusinessRuleTask n i = finish_with [''result'', ''output''] n (business_rule_output repr n) i"
| "run_handler repr SendTask n i = execute_message_task repr ''send'' n i"
| "run_handler repr ReceiveTask n i = execute_message_task repr ''receive'' n i"
| "run_handler repr CallActivity n i = finish_with [''output''] n (call_output repr n) i"
| "run_handler repr AdHocSubProcess n i = execute_adhoc_sub_process repr n i"
| "run_handler repr TransactionSubProcess n i = execute_transaction_sub_process repr n i"
| "run_handler repr SubProcess n i = execute_sub_process repr n i"
| "run_handler repr Task n i = finish_with [''output''] n (Inr (named_output ''none'' n)) i"
| "run_handler repr _ n i =
     (case generic_type repr n of
        Inl err \<Rightarrow> (Inl err, i)
      | Inr ty \<Rightarrow> finish_with [''output''] n (Inr (named_output ty n)) i)"

definition execute_osdm ::
  "(nat \<Rightarrow> string) \<Rightarrow> flow_node \<Rightarrow> ProcessInstance \<Rightarrow> ActivityExecutionResult \<times> ProcessInstance" where
  "execute_osdm repr n i =
     (let i0 = i\<lparr>pi_current_activity_id := Some (fn_id n)\<rparr>
      in case apply_io_mappings repr n i0 of
           (Some err, i1) \<Rightarrow> (activity_failed err, i1)
         | (None, i1) \<Rightarrow>
             (case run_handler repr (fn_class n) n i1 of
                (Inl err, i2) \<Rightarrow> (activity_failed err, i2)
              | (Inr res, i2) \<Rightarrow> (res, i2)))"

subsection \<open>What a handler leaves alone\<close>

text \<open>Everything but the variables and the current activity.\<close>

definition bare :: "ProcessInstance \<Rightarrow> ProcessInstance" where
  "bare i = i\<lparr>pi_variables := [], pi_current_activity_id := None\<rparr>"

lemma bare_set [simp]: "bare (pi_set_variable k v i) = bare i"
  by (simp add: bare_def pi_set_variable_def)

lemma bare_set_each [simp]: "bare (set_each aid vs i) = bare i"
proof -
  have "bare (fold (\<lambda>(k, v). pi_set_variable (aid @ ''.'' @ k) v) vs i) = bare i"
    by (induction vs arbitrary: i) (simp_all add: case_prod_beta)
  then show ?thesis by (simp add: set_each_def)
qed

lemma bare_finish [simp]: "bare (snd (finish_with ks n out i)) = bare i"
  by (simp add: finish_with_def split: sum.split)

lemma bare_default_inputs [simp]: "bare (default_inputs dis i) = bare i"
  by (induction dis i rule: default_inputs.induct) (simp_all split: pyval.split)

lemma bare_associations [simp]: "bare (snd (apply_associations repr das i)) = bare i"
  by (induction repr das i rule: apply_associations.induct) (simp_all add: Let_def split: sum.split)

lemma bare_io_mappings [simp]: "bare (snd (apply_io_mappings repr n i)) = bare i"
  by (simp add: apply_io_mappings_def Let_def split: sum.split option.split)

lemma bare_case_sum:
  assumes "\<And>err. bare (snd (f err)) = b" and "\<And>y. bare (snd (g y)) = b"
  shows "bare (snd (case x of Inl err \<Rightarrow> f err | Inr y \<Rightarrow> g y)) = b"
  using assms by (cases x) simp_all

lemma bare_case_pair:
  assumes "\<And>y z. bare (snd (g y z)) = b"
  shows "bare (snd (case x of (y, z) \<Rightarrow> g y z)) = b"
  using assms by (cases x) simp

lemma bare_if:
  assumes "bare (snd x) = b" and "bare (snd y) = b"
  shows "bare (snd (if c then x else y)) = b"
  using assms by simp

lemmas bare_intros = bare_case_sum bare_case_pair bare_if

lemma bare_handle_loop: "bare (snd (handle_loop repr n lc children i)) = bare i"
  unfolding handle_loop_def Let_def by (intro bare_intros) (simp_all only: snd_conv bare_set_each)

lemma bare_sub_process: "bare (snd (execute_sub_process repr n i)) = bare i"
proof -
  let ?h = "if truthy (attr n ''loop_characteristics'')
            then handle_loop repr n (as_dict (attr n ''loop_characteristics'')) (child_elements n) i else (Inr None, i)"
  obtain r i1 where h: "?h = (r, i1)" by fastforce
  have "bare i1 = bare i" using h bare_handle_loop [of repr n "as_dict (attr n ''loop_characteristics'')" "child_elements n" i]
    by (auto split: if_splits)
  then show ?thesis unfolding execute_sub_process_def h by (simp split: sum.split option.split)
qed

lemma bare_user_task: "bare (snd (execute_user_task n i)) = bare i"
  unfolding execute_user_task_def Let_def by (intro bare_intros) (simp_all only: snd_conv bare_set_each bare_finish)

lemma bare_message_task: "bare (snd (execute_message_task repr kind n i)) = bare i"
  unfolding execute_message_task_def Let_def by (intro bare_intros) (simp_all only: snd_conv bare_finish)

lemma bare_other_sub_processes:
  "bare (snd (execute_adhoc_sub_process repr n i)) = bare i" "bare (snd (execute_transaction_sub_process repr n i)) = bare i"
  unfolding execute_adhoc_sub_process_def execute_transaction_sub_process_def
  by (intro bare_intros; simp only: snd_conv bare_set_each)+

lemma bare_handler: "bare (snd (run_handler repr c n i)) = bare i"
proof -
  have "bare (snd (case generic_type repr n of Inl err \<Rightarrow> (Inl err, i) | Inr ty \<Rightarrow> finish_with [''output''] n (Inr (named_output ty n)) i)) = bare i"
    by (intro bare_intros) (simp_all only: snd_conv bare_finish)
  then show ?thesis
    by (cases c) (simp_all only: run_handler.simps bare_user_task bare_message_task bare_other_sub_processes bare_sub_process bare_finish)
qed

lemma bare_execute: "bare (snd (execute_osdm repr n i)) = bare i"
proof -
  obtain err i1 where io: "apply_io_mappings repr n (i\<lparr>pi_current_activity_id := Some (fn_id n)\<rparr>) = (err, i1)" by fastforce
  obtain r i2 where h: "run_handler repr (fn_class n) n i1 = (r, i2)" by fastforce
  have "bare i1 = bare i" using bare_io_mappings [of repr n "i\<lparr>pi_current_activity_id := Some (fn_id n)\<rparr>"] io
    by (simp add: bare_def)
  moreover have "bare i2 = bare i1" using bare_handler [of repr "fn_class n" n i1] h by simp
  ultimately show ?thesis using io h by (cases err; cases r) (simp_all add: execute_osdm_def)
qed

end
