(* ===== verification/BpmnExecution.thy ===== *)
theory BpmnExecution
  imports BpmnActivities Engine
begin

section \<open>Executing a process\<close>

text \<open>
  \<open>bpmn/process_executor.py\<close> and \<open>bpmn/engine.py\<close>: the loop that drives a process instance through its model, on top of
  the engine, its managers, the correlation engine and the bus.  \<open>instance\<close> is the object that the engine has under
  the instance's id; \<open>active_tokens\<close> is the list of the ids of tokens in the token manager, in the order of the dict.
  Nothing pushes to \<open>sub_process_stack\<close>, so that it stays empty and the branches that need an entry of it are never
  taken; the event sub-processes and transactions that are registered at the start are not read by the loop.  A step of
  the loop takes its clock readings and fresh ids from \<open>clks k\<close> and \<open>uuids k\<close> for its \<open>k\<close>-th operation.
\<close>

subsection \<open>Steps on the engine\<close>

text \<open>One thing after another, unless it raises.\<close>

definition andthen :: "'s outcome \<Rightarrow> ('s \<Rightarrow> 's outcome) \<Rightarrow> 's outcome" where
  "andthen x f = (case x of (Some err, s) \<Rightarrow> (Some err, s) | (None, s) \<Rightarrow> f s)"

lemma andthen_simps [simp]: "andthen (Some err, s) f = (Some err, s)" "andthen (None, s) f = f s"
  by (simp_all add: andthen_def)

definition on_instance :: "string \<Rightarrow> (ProcessInstance \<Rightarrow> ProcessInstance) \<Rightarrow> OrchestrationEngine \<Rightarrow> OrchestrationEngine" where
  "on_instance iid f e = (case engine_instance iid e of None \<Rightarrow> e | Some i \<Rightarrow> put_engine_instance iid (f i) e)"

definition instance_vars :: "string \<Rightarrow> OrchestrationEngine \<Rightarrow> pydict" where
  "instance_vars iid e = (case engine_instance iid e of None \<Rightarrow> [] | Some i \<Rightarrow> pi_variables i)"

definition on_token :: "string \<Rightarrow> (Token \<Rightarrow> Token) \<Rightarrow> OrchestrationEngine \<Rightarrow> OrchestrationEngine" where
  "on_token tid f e = e\<lparr>en_token_manager := update_token tid f (en_token_manager e)\<rparr>"

definition call_token :: "clock \<Rightarrow> token_op \<Rightarrow> string \<Rightarrow> OrchestrationEngine \<Rightarrow> OrchestrationEngine outcome" where
  "call_token clk x tid e = (case token_call clk x tid (en_token_manager e) of (err, m) \<Rightarrow> (err, e\<lparr>en_token_manager := m\<rparr>))"

definition active_among :: "string list \<Rightarrow> OrchestrationEngine \<Rightarrow> string list" where
  "active_among tids e =
     filter (\<lambda>tid. case get_token tid (en_token_manager e) of None \<Rightarrow> False | Some t \<Rightarrow> tok_state t = Tokens.ACTIVE) tids"

definition tokens_at :: "string \<Rightarrow> string list \<Rightarrow> OrchestrationEngine \<Rightarrow> string list" where
  "tokens_at nid tids e =
     filter (\<lambda>tid. case get_token tid (en_token_manager e) of
                     None \<Rightarrow> False
                   | Some t \<Rightarrow> current_element_id t = Some nid \<and> tok_state t = Tokens.ACTIVE) tids"

fun persist_tokens :: "clock \<Rightarrow> (nat \<Rightarrow> string) \<Rightarrow> string list \<Rightarrow> OrchestrationEngine \<Rightarrow> OrchestrationEngine" where
  "persist_tokens clk ids [] e = e"
| "persist_tokens clk ids (tid # tids) e =
     persist_tokens (clk \<circ> Suc) (ids \<circ> Suc) tids
       (case persist_token (save_persisted (clk 0) (ids 0) ''token'') tid (en_token_manager e) (Some (en_token_repository e)) of
          (_, Some r) \<Rightarrow> e\<lparr>en_token_repository := r\<rparr>
        | (_, None) \<Rightarrow> e)"

text \<open>\<open>t.move_to(...)\<close> and \<open>t.create_snapshot(...)\<close> for some of the tokens\<close>

fun move_tokens :: "clock \<Rightarrow> string \<Rightarrow> string \<Rightarrow> string list \<Rightarrow> OrchestrationEngine \<Rightarrow> OrchestrationEngine" where
  "move_tokens clk eid ty [] e = e"
| "move_tokens clk eid ty (tid # tids) e = move_tokens (clk \<circ> Suc) eid ty tids (on_token tid (move_to clk eid ty) e)"

fun snapshot_tokens :: "clock \<Rightarrow> pydict \<Rightarrow> string list \<Rightarrow> OrchestrationEngine \<Rightarrow> OrchestrationEngine" where
  "snapshot_tokens clk vars [] e = e"
| "snapshot_tokens clk vars (tid # tids) e =
     snapshot_tokens (clk \<circ> Suc) vars tids (on_token tid (\<lambda>t. snd (create_snapshot clk (Some vars) t)) e)"

fun enter_tokens :: "clock \<Rightarrow> string \<Rightarrow> string \<Rightarrow> pydict \<Rightarrow> string list \<Rightarrow> OrchestrationEngine \<Rightarrow> OrchestrationEngine" where
  "enter_tokens clk eid ty vars [] e = e"
| "enter_tokens clk eid ty vars (tid # tids) e =
     enter_tokens (\<lambda>k. clk (k + 2)) eid ty vars tids
       (on_token tid (\<lambda>t. snd (create_snapshot (clk \<circ> Suc) (Some vars) (move_to clk eid ty t))) e)"

fun complete_tokens :: "clock \<Rightarrow> string list \<Rightarrow> OrchestrationEngine \<Rightarrow> OrchestrationEngine outcome" where
  "complete_tokens clk [] e = (None, e)"
| "complete_tokens clk (tid # tids) e = andthen (call_token clk Tokens.Complete tid e) (complete_tokens (\<lambda>k. clk (k + 2)) tids)"

fun wait_tokens :: "clock \<Rightarrow> string \<Rightarrow> pydict \<Rightarrow> string list \<Rightarrow> OrchestrationEngine \<Rightarrow> OrchestrationEngine outcome" where
  "wait_tokens clk reason vars [] e = (None, e)"
| "wait_tokens clk reason vars (tid # tids) e =
     andthen (call_token clk (Tokens.Wait reason) tid e)
       (\<lambda>e1. wait_tokens (\<lambda>k. clk (k + 3)) reason vars tids
              (on_token tid (\<lambda>t. snd (create_snapshot (\<lambda>k. clk (k + 2)) (Some vars) t)) e1))"

text \<open>\<open>_persist_new_variables\<close>\<close>

fun persist_new_variables ::
  "clock \<Rightarrow> (nat \<Rightarrow> string) \<Rightarrow> string \<Rightarrow> pydict \<Rightarrow> pydict \<Rightarrow> OrchestrationEngine \<Rightarrow> OrchestrationEngine outcome" where
  "persist_new_variables clk ids iid before [] e = (None, e)"
| "persist_new_variables clk ids iid before ((n, v) # vs) e =
     (if dget before n = Some v then persist_new_variables clk ids iid before vs e
      else (case vm_set_persisted (clk 0) (ids 0) iid iid n v None True None (en_variable_manager e) of
              (err, vm) \<Rightarrow> andthen (err, e\<lparr>en_variable_manager := vm\<rparr>) (persist_new_variables (clk \<circ> Suc) (ids \<circ> Suc) iid before vs)))"

text \<open>
  \<open>_register_wait\<close>: the values of the keys are names of variables or texts; \<open>add_key\<close> takes them as strings.
\<close>

fun resolve_keys :: "(nat \<Rightarrow> string) \<Rightarrow> pydict \<Rightarrow> pydict \<Rightarrow> CorrelationKeySet \<Rightarrow> CorrelationKeySet result" where
  "resolve_keys repr vars [] ks = Inr ks"
| "resolve_keys repr vars ((n, v) # kvs) ks =
     bindr (obj_str repr (case v of PStr s \<Rightarrow> pget_or vars s v | _ \<Rightarrow> v)) (\<lambda>s. resolve_keys repr vars kvs (add_key n s ks))"

definition register_wait ::
  "(nat \<Rightarrow> string) \<Rightarrow> clock \<Rightarrow> (nat \<Rightarrow> string) \<Rightarrow> string \<Rightarrow> string \<Rightarrow> ActivityExecutionResult \<Rightarrow> OrchestrationEngine
    \<Rightarrow> OrchestrationEngine outcome" where
  "register_wait repr clk ids iid aid res e =
     (case nonempty_opt (ar_wait_name res) of
        [] \<Rightarrow> (None, e)
      | name # _ \<Rightarrow>
          if ar_wait_kind res = Some ''message''
          then (case resolve_keys repr (instance_vars iid e) (case ar_correlation_keys res of None \<Rightarrow> [] | Some d \<Rightarrow> d) [] of
                  Inl err \<Rightarrow> (Some err, e)
                | Inr keys \<Rightarrow>
                    (case on_correlation (subscribe_message_persisted clk ids name keys iid aid None) e of
                       (Inl err, e1) \<Rightarrow> (Some err, e1)
                     | (Inr _, e1) \<Rightarrow> (None, e1)))
          else if ar_wait_kind res = Some ''event''
          then (case on_correlation (subscribe_event_persisted clk ids name iid aid None) e of
                  (Inl err, e1) \<Rightarrow> (Some err, e1)
                | (Inr _, e1) \<Rightarrow> (None, e1))
          else (None, e))"

subsection \<open>Following sequence flows\<close>

definition compute_next :: "evaluator \<Rightarrow> string \<Rightarrow> ProcessModel \<Rightarrow> TypedProcessModel \<Rightarrow> string list" where
  "compute_next ev cur model tm =
     (let results = concat (map (\<lambda>f. nonempty_opt (sf_target_ref f)) (get_outgoing_flows cur tm))
      in if results \<noteq> [] then results else ft_selected_targets (next_nodes_handler ev (pm_flows model) cur [] True False))"

definition incoming_count :: "string \<Rightarrow> ProcessModel \<Rightarrow> TypedProcessModel \<Rightarrow> nat" where
  "incoming_count nid model tm =
     (let typed = filter (\<lambda>f. sf_target_ref f = Some nid) (concat (dvals (tp_flow_index tm)))
      in if typed \<noteq> [] then length typed else length (filter (\<lambda>f. hf_target_ref f = nid) (pm_flows model)))"

fun fork_tokens ::
  "clock \<Rightarrow> (nat \<Rightarrow> string) \<Rightarrow> string \<Rightarrow> (string \<times> string) list \<Rightarrow> OrchestrationEngine \<Rightarrow> string list \<times> OrchestrationEngine" where
  "fork_tokens clk ids iid [] e = ([], e)"
| "fork_tokens clk ids iid ((target, source) # ps) e =
     (case create_token clk (ids 0) iid (Some source) Tokens.PROCESS (Some target) None (en_token_manager e) of
        (t, m) \<Rightarrow>
          (case fork_tokens (\<lambda>k. clk (k + 3)) (ids \<circ> Suc) iid ps
                  (on_token (token_id t) (move_to (\<lambda>k. clk (k + 2)) target ''flow'') (e\<lparr>en_token_manager := m\<rparr>)) of
             (tids, e1) \<Rightarrow> (token_id t # tids, e1)))"

type_synonym branches = "(string, string list) dict"

text \<open>The tokens move on: the next node, the active tokens, the branches that inclusive gateways activated, the engine.\<close>

definition route ::
  "evaluator \<Rightarrow> (nat \<Rightarrow> clock) \<Rightarrow> (nat \<Rightarrow> nat \<Rightarrow> string) \<Rightarrow> string \<Rightarrow> TypedProcessModel \<Rightarrow> string \<Rightarrow> string list \<Rightarrow> string list \<Rightarrow> string list
    \<Rightarrow> branches \<Rightarrow> OrchestrationEngine \<Rightarrow> string option \<times> string list \<times> branches \<times> OrchestrationEngine" where
  "route ev clks uuids iid tm cur nexts here tids br e =
     (let kind = classify_gateway_typed cur tm;
          move = (\<lambda>targets. case targets of
                     [] \<Rightarrow> persist_tokens (clks 1) (uuids 1) tids e
                   | t # _ \<Rightarrow> persist_tokens (clks 1) (uuids 1) tids (move_tokens (clks 0) t ''flow'' here e));
          first = (\<lambda>targets. case targets of [] \<Rightarrow> None | t # _ \<Rightarrow> Some t);
          selected = (if length nexts > 1 then evaluate_gateway_split_typed ev cur tm (instance_vars iid e) else nexts)
      in if kind = ''parallel''
         then (case fork_tokens (clks 0) (uuids 0) iid [(t, s). t \<leftarrow> nexts, s \<leftarrow> here] e of
                 (new, e1) \<Rightarrow> (first nexts, tids @ new, br, persist_tokens (clks 1) (uuids 1) (tids @ new) e1))
         else if kind = ''inclusive''
         then (first selected, tids, (if cur \<noteq> [] \<and> selected \<noteq> [] then dset cur (remdups selected) br else br), move selected)
         else if kind = ''exclusive'' then (first selected, tids, br, move selected)
         else (first nexts, tids, br, move nexts))"

text \<open>Whether a converging gateway has to wait for more tokens; then the loop ends without a current node.\<close>

definition must_wait ::
  "ProcessModel \<Rightarrow> TypedProcessModel \<Rightarrow> string \<Rightarrow> string list \<Rightarrow> branches \<Rightarrow> OrchestrationEngine \<Rightarrow> bool" where
  "must_wait model tm cur tids br e \<longleftrightarrow>
     is_converging_gateway_typed cur tm \<and>
     (let arrived = length (tokens_at cur tids e);
          by_fork = (case nonempty_opt (find_fork_for_converging cur tm) of [] \<Rightarrow> None | g # _ \<Rightarrow> dget br g)
      in if classify_gateway_typed cur tm = ''inclusive''
         then arrived < (case by_fork of Some ts \<Rightarrow> length ts | None \<Rightarrow> incoming_count cur model tm)
         else arrived < incoming_count cur model tm)"

subsection \<open>One turn of the loop\<close>

record ProcessExecutionOutcome =
  po_completed :: bool
  po_waiting :: bool
  po_current_node :: "string option"

datatype step_result =
    Returned ProcessExecutionOutcome
  | Raised py_error
  | Broke "string option"
  | Continued "string option" "string list" "string list" branches

text \<open>\<open>str(exc)\<close> of an exception; a key error shows its key in quotes\<close>

fun exception_text :: "py_error \<Rightarrow> string" where
  "exception_text (ValueError s) = s"
| "exception_text (RuntimeError s) = s"
| "exception_text (KeyError s) = [CHR 0x27] @ s @ [CHR 0x27]"
| "exception_text (TypeError s) = s"
| "exception_text (AttributeError s) = s"
| "exception_text OverflowError = []"
| "exception_text (CallbackError s) = s"
| "exception_text (Unmodelled s) = s"

definition node_name :: "flow_node \<Rightarrow> string" where
  "node_name n = (case nonempty_opt (fn_name n) of [] \<Rightarrow> fn_id n | s # _ \<Rightarrow> s)"

definition activity_event :: "string \<Rightarrow> flow_node \<Rightarrow> pydict" where
  "activity_event iid n =
     [(''instance_id'', PStr iid), (''activity_id'', PStr (fn_id n)), (''activity_type'', PStr (classify_node (fn_class n)))]"

text \<open>The tokens enter the node, everything is stored and \<open>ACTIVITY_STARTED\<close> is published.\<close>

definition begin_activity ::
  "(nat \<Rightarrow> clock) \<Rightarrow> (nat \<Rightarrow> nat \<Rightarrow> string) \<Rightarrow> string \<Rightarrow> flow_node \<Rightarrow> pydict \<Rightarrow> string list \<Rightarrow> string list \<Rightarrow> OrchestrationEngine
    \<Rightarrow> OrchestrationEngine outcome" where
  "begin_activity clks uuids iid n before here tids e =
     engine_publish (clks 4) (uuids 4) ACTIVITY_STARTED (activity_event iid n)
       (persist_managed (clks 3 0) (uuids 3 0) iid
         (persist_tokens (clks 2) (uuids 2) tids
           (enter_tokens (clks 1) (fn_id n) (classify_node (fn_class n)) before here e)))"

definition run_activity ::
  "(nat \<Rightarrow> string) \<Rightarrow> string \<Rightarrow> flow_node \<Rightarrow> OrchestrationEngine \<Rightarrow> ActivityExecutionResult \<times> OrchestrationEngine" where
  "run_activity repr iid n e =
     (case engine_instance iid e of
        None \<Rightarrow> (activity_done [], e)
      | Some i \<Rightarrow> (case execute_osdm repr n i of (res, i1) \<Rightarrow> (res, put_engine_instance iid i1 e)))"

definition wait_for ::
  "(InstanceStateSnapshot \<Rightarrow> py_error option) \<Rightarrow> (nat \<Rightarrow> string) \<Rightarrow> (nat \<Rightarrow> clock) \<Rightarrow> (nat \<Rightarrow> nat \<Rightarrow> string) \<Rightarrow> string \<Rightarrow> flow_node
    \<Rightarrow> ActivityExecutionResult \<Rightarrow> string list \<Rightarrow> string list \<Rightarrow> OrchestrationEngine \<Rightarrow> OrchestrationEngine outcome" where
  "wait_for ser repr clks uuids iid n res here tids e =
     (let text = (\<lambda>x. case x of None \<Rightarrow> ''None'' | Some s \<Rightarrow> s)
      in andthen (wait_tokens (clks 0) (text (ar_wait_kind res) @ '':'' @ text (ar_wait_name res)) (instance_vars iid e) here e) (\<lambda>e1.
         andthen (register_wait repr (clks 2) (uuids 2) iid (fn_id n) res (persist_tokens (clks 1) (uuids 1) tids e1)) (\<lambda>e2.
         andthen (set_engine_state ser (clks 3 0) iid ''waiting''
                    [(''activity_id'', PStr (fn_id n)), (''wait_kind'', opt_str (ar_wait_kind res)), (''wait_name'', opt_str (ar_wait_name res))] e2)
           (\<lambda>e3. (None, persist_managed (clks 4 0) (uuids 4 0) iid e3)))))"

definition end_activity ::
  "(nat \<Rightarrow> clock) \<Rightarrow> (nat \<Rightarrow> nat \<Rightarrow> string) \<Rightarrow> string \<Rightarrow> flow_node \<Rightarrow> string list \<Rightarrow> string list \<Rightarrow> OrchestrationEngine
    \<Rightarrow> OrchestrationEngine outcome" where
  "end_activity clks uuids iid n here tids e =
     (let e1 = on_instance iid (complete_activity (clks 0) (fn_id n)) e
      in engine_publish (clks 4) (uuids 4) ACTIVITY_COMPLETED (activity_event iid n)
           (persist_managed (clks 3 0) (uuids 3 0) iid
             (persist_tokens (clks 2) (uuids 2) tids (snapshot_tokens (clks 1) (instance_vars iid e1) here e1))))"

text \<open>After the last node of a path: the tokens there are completed, and the first other active token goes on.\<close>

definition end_path ::
  "(nat \<Rightarrow> clock) \<Rightarrow> (nat \<Rightarrow> nat \<Rightarrow> string) \<Rightarrow> string list \<Rightarrow> string list \<Rightarrow> string list \<Rightarrow> branches \<Rightarrow> OrchestrationEngine
    \<Rightarrow> step_result \<times> OrchestrationEngine" where
  "end_path clks uuids visited here tids br e =
     (case complete_tokens (clks 0) here e of
        (Some err, e1) \<Rightarrow> (Raised err, e1)
      | (None, e1) \<Rightarrow>
          (let e2 = persist_tokens (clks 1) (uuids 1) tids e1
           in case active_among tids e2 of
                [] \<Rightarrow> (Returned \<lparr>po_completed = True, po_waiting = False, po_current_node = None\<rparr>, e2)
              | tid # _ \<Rightarrow>
                  (Continued (case get_token tid (en_token_manager e2) of None \<Rightarrow> None | Some t \<Rightarrow> current_element_id t) visited tids br, e2)))"

definition move_on ::
  "evaluator \<Rightarrow> (nat \<Rightarrow> clock) \<Rightarrow> (nat \<Rightarrow> nat \<Rightarrow> string) \<Rightarrow> string \<Rightarrow> ProcessModel \<Rightarrow> TypedProcessModel \<Rightarrow> string \<Rightarrow> string list
    \<Rightarrow> string list \<Rightarrow> string list \<Rightarrow> branches \<Rightarrow> OrchestrationEngine \<Rightarrow> step_result \<times> OrchestrationEngine" where
  "move_on ev clks uuids iid model tm cur visited here tids br e =
     (case compute_next ev cur model tm of
        [] \<Rightarrow> end_path clks uuids visited here tids br e
      | nexts \<Rightarrow>
          (case route ev clks uuids iid tm cur nexts here tids br e of
             (nxt, tids1, br1, e1) \<Rightarrow>
               (case nonempty_opt nxt of
                  [] \<Rightarrow> (Continued nxt visited tids1 br1, e1)
                | c # _ \<Rightarrow> if must_wait model tm c tids1 br1 e1 then (Broke None, e1) else (Continued nxt visited tids1 br1, e1))))"

definition bpmn_step ::
  "(InstanceStateSnapshot \<Rightarrow> py_error option) \<Rightarrow> evaluator \<Rightarrow> (nat \<Rightarrow> string) \<Rightarrow> (nat \<Rightarrow> clock) \<Rightarrow> (nat \<Rightarrow> nat \<Rightarrow> string) \<Rightarrow> string
    \<Rightarrow> ProcessModel \<Rightarrow> TypedProcessModel \<Rightarrow> string \<Rightarrow> string list \<Rightarrow> string list \<Rightarrow> branches \<Rightarrow> OrchestrationEngine
    \<Rightarrow> step_result \<times> OrchestrationEngine" where
  "bpmn_step ser ev repr clks uuids iid model tm cur visited tids br e =
     (if cur \<in> set visited \<and> \<not> is_gateway_typed cur tm then (Broke (Some cur), e)
      else case (case get_flow_node cur tm of Some n \<Rightarrow> Some n | None \<Rightarrow> find_activity model cur) of
             None \<Rightarrow> (Broke (Some cur), e)
           | Some n \<Rightarrow>
               (let before = instance_vars iid e;
                    e1 = on_instance iid (\<lambda>i. snd (start_activity (clks 0) (uuids 0 0) (fn_id n) (node_name n) (classify_node (fn_class n)) i)) e;
                    here = tokens_at cur tids e1
                in if here = [] then (Broke (Some cur), e1)
                   else case begin_activity clks uuids iid n before here tids e1 of
                          (Some err, e2) \<Rightarrow> (Raised err, e2)
                        | (None, e2) \<Rightarrow>
                            (case run_activity repr iid n e2 of
                               (res, e3) \<Rightarrow>
                                 if \<not> ar_success res
                                 then (Raised (RuntimeError (''Activity failed: '' @ (case ar_error res of None \<Rightarrow> ''None'' | Some x \<Rightarrow> exception_text x))),
                                       persist_managed (clks 5 0) (uuids 5 0) iid (on_instance iid (fail_activity (fn_id n)) e3))
                                 else case persist_new_variables (clks 6) (uuids 6) iid before (instance_vars iid e3) e3 of
                                        (Some err, e4) \<Rightarrow> (Raised err, e4)
                                      | (None, e4) \<Rightarrow>
                                          if ar_waiting res
                                          then (case wait_for ser repr (\<lambda>k. clks (k + 7)) (\<lambda>k. uuids (k + 7)) iid n res here tids e4 of
                                                  (Some err, e5) \<Rightarrow> (Raised err, e5)
                                                | (None, e5) \<Rightarrow>
                                                    (Returned \<lparr>po_completed = False, po_waiting = True, po_current_node = Some (fn_id n)\<rparr>, e5))
                                          else (case end_activity (\<lambda>k. clks (k + 7)) (\<lambda>k. uuids (k + 7)) iid n here tids e4 of
                                                  (Some err, e5) \<Rightarrow> (Raised err, e5)
                                                | (None, e5) \<Rightarrow>
                                                    move_on ev (\<lambda>k. clks (k + 12)) (\<lambda>k. uuids (k + 12)) iid model tm cur (cur # visited) here tids br e5))))"

subsection \<open>The loop\<close>

text \<open>After the loop, with \<open>n\<close> of the 200 turns left.\<close>

definition after_loop :: "nat \<Rightarrow> string option \<Rightarrow> step_result" where
  "after_loop n cur =
     (if nonempty_opt cur \<noteq> [] \<and> n = 0 then Raised (RuntimeError ''BPMN process execution exceeded step limit'')
      else Returned \<lparr>po_completed = False, po_waiting = False, po_current_node = cur\<rparr>)"

fun bpmn_loop ::
  "(InstanceStateSnapshot \<Rightarrow> py_error option) \<Rightarrow> evaluator \<Rightarrow> (nat \<Rightarrow> string) \<Rightarrow> (nat \<Rightarrow> nat \<Rightarrow> clock) \<Rightarrow> (nat \<Rightarrow> nat \<Rightarrow> nat \<Rightarrow> string)
    \<Rightarrow> string \<Rightarrow> ProcessModel \<Rightarrow> TypedProcessModel \<Rightarrow> nat \<Rightarrow> string option \<Rightarrow> string list \<Rightarrow> string list \<Rightarrow> branches \<Rightarrow> OrchestrationEngine
    \<Rightarrow> step_result \<times> OrchestrationEngine" where
  "bpmn_loop ser ev repr clks uuids iid model tm 0 cur visited tids br e = (after_loop 0 cur, e)"
| "bpmn_loop ser ev repr clks uuids iid model tm (Suc n) cur visited tids br e =
     (case nonempty_opt cur of
        [] \<Rightarrow> (after_loop (Suc n) cur, e)
      | c # _ \<Rightarrow>
          (case bpmn_step ser ev repr (clks 0) (uuids 0) iid model tm c visited tids br e of
             (Returned out, e1) \<Rightarrow> (Returned out, e1)
           | (Raised err, e1) \<Rightarrow> (Raised err, e1)
           | (Broke cur1, e1) \<Rightarrow> (after_loop n cur1, e1)
           | (Continued cur1 visited1 tids1 br1, e1) \<Rightarrow>
               bpmn_loop ser ev repr (clks \<circ> Suc) (uuids \<circ> Suc) iid model tm n cur1 visited1 tids1 br1 e1))"

definition ensure_runtime_token ::
  "clock \<Rightarrow> string \<Rightarrow> string \<Rightarrow> string \<Rightarrow> OrchestrationEngine \<Rightarrow> string \<times> OrchestrationEngine" where
  "ensure_runtime_token clk uuid iid start e =
     (case List.find (\<lambda>t. tok_state t \<in> {Tokens.ACTIVE, Tokens.WAITING}) (get_instance_tokens iid (en_token_manager e)) of
        Some t \<Rightarrow> (token_id t, e)
      | None \<Rightarrow>
          (case create_token clk uuid iid None Tokens.PROCESS (Some start) None (en_token_manager e) of
             (t, m) \<Rightarrow> (token_id t, e\<lparr>en_token_manager := m\<rparr>)))"

subsection \<open>The BPMN engine\<close>

record bpmn_process =
  bp_id :: string
  bp_name :: "string option"
  bp_is_executable :: bool
  bp_flow_elements :: "(string, flow_element) dict"

type_synonym BPMNDocument = "bpmn_process list"

record BPMNEngine =
  be_engine :: OrchestrationEngine
  be_contexts :: ContextManager
  be_parsed_documents :: "(string, BPMNDocument) dict"

definition raised_or :: "step_result \<Rightarrow> ProcessExecutionOutcome result" where
  "raised_or r =
     (case r of
        Returned out \<Rightarrow> Inr out
      | Raised err \<Rightarrow> Inl err
      | Broke cur \<Rightarrow> Inr \<lparr>po_completed = False, po_waiting = False, po_current_node = cur\<rparr>
      | Continued cur _ _ _ \<Rightarrow> Inr \<lparr>po_completed = False, po_waiting = False, po_current_node = cur\<rparr>)"

definition execute ::
  "(InstanceStateSnapshot \<Rightarrow> py_error option) \<Rightarrow> evaluator \<Rightarrow> (nat \<Rightarrow> string) \<Rightarrow> (nat \<Rightarrow> nat \<Rightarrow> clock) \<Rightarrow> (nat \<Rightarrow> nat \<Rightarrow> nat \<Rightarrow> string)
    \<Rightarrow> string \<Rightarrow> definition_payload \<Rightarrow> BPMNEngine \<Rightarrow> ProcessExecutionOutcome result \<times> BPMNEngine" where
  "execute ser ev repr clks uuids iid payload b =
     (case normalize payload of
        Inl err \<Rightarrow> (Inl err, b)
      | Inr model \<Rightarrow>
          (let tm = normalize_osdm payload (pm_definition_id model);
               b1 = (case get_context iid (be_contexts b) of
                       Some _ \<Rightarrow> b
                     | None \<Rightarrow> b\<lparr>be_contexts := snd (create_context (clks 0 0) (uuids 0 0 0) Contexts.PROCESS (Some iid) None (be_contexts b))\<rparr>)
           in case pm_start_node model of
                None \<Rightarrow> (Inr \<lparr>po_completed = True, po_waiting = False, po_current_node = None\<rparr>, b1)
              | Some start \<Rightarrow>
                  (case ensure_runtime_token (clks 0 1) (uuids 0 1 0) iid start (be_engine b1) of
                     (tid, e) \<Rightarrow>
                       (case bpmn_loop ser ev repr (clks \<circ> Suc) (uuids \<circ> Suc) iid model tm 200 (Some start) [] [tid] [] e of
                          (r, e1) \<Rightarrow> (raised_or r, b1\<lparr>be_engine := e1\<rparr>)))))"

definition convert_flow :: "SequenceFlow \<Rightarrow> pydict" where
  "convert_flow f =
     (let ref = (\<lambda>i r. case nonempty_opt i of s # _ \<Rightarrow> PStr s | [] \<Rightarrow> opt_str r);
          src = ref (sf_source_ref_id f) (sf_source_ref f); tgt = ref (sf_target_ref_id f) (sf_target_ref f)
      in [(''id'', PStr (sf_id f)), (''source'', src), (''target'', tgt), (''sourceRef'', src), (''targetRef'', tgt)] @
         (case sf_condition_expression f of
            None \<Rightarrow> []
          | Some x \<Rightarrow> [(''condition'', PStr (expression_text x)), (''conditionExpression'', PStr (expression_text x))]))"

definition convert_elements :: "(string, flow_element) dict \<Rightarrow> flow_node list \<times> pydict list" where
  "convert_elements els =
     (List.map_filter (\<lambda>el. case el of
          NodeElement n \<Rightarrow> if fn_class n \<in> set (activity_classes @ event_classes @ gateway_classes) then Some n else None
        | _ \<Rightarrow> None) (dvals els),
      List.map_filter (\<lambda>el. case el of FlowElement f \<Rightarrow> Some (convert_flow f) | _ \<Rightarrow> None) (dvals els))"

text \<open>
  The parser is a parameter; a document of another type is \<open>None\<close>.  \<open>BPMNExecutionError\<close> is a frozen dataclass without
  fields, so that raising it with a message raises a \<open>TypeError\<close>.
\<close>

definition execution_error :: py_error where
  "execution_error = TypeError ''BPMNExecutionError.__init__() takes 1 positional argument but 2 were given''"

type_synonym bpmn_parser = "string \<Rightarrow> string \<Rightarrow> string \<Rightarrow> BPMNDocument option result"

definition get_bpmn_document :: "bpmn_parser \<Rightarrow> ProcessDefinition \<Rightarrow> BPMNEngine \<Rightarrow> BPMNDocument result \<times> BPMNEngine" where
  "get_bpmn_document parse d b =
     (case dget (be_parsed_documents b) (pd_id d) of
        Some doc \<Rightarrow> (Inr doc, b)
      | None \<Rightarrow>
          (case parse (pd_definition_xml d) (pd_id d) (if pd_resource_name d = [] then ''unknown'' else pd_resource_name d) of
             Inl err \<Rightarrow> (Inl err, b)
           | Inr None \<Rightarrow> (Inl execution_error, b)
           | Inr (Some doc) \<Rightarrow> (Inr doc, b\<lparr>be_parsed_documents := dset (pd_id d) doc (be_parsed_documents b)\<rparr>)))"

definition get_process_from_document :: "BPMNDocument \<Rightarrow> ProcessDefinition \<Rightarrow> bpmn_process result" where
  "get_process_from_document doc d =
     (case List.find (\<lambda>p. bp_id p = pd_key d \<or> bp_id p = pd_id d \<or> bp_name p = Some (pd_name d)) doc of
        Some p \<Rightarrow> Inr p
      | None \<Rightarrow> (case List.find bp_is_executable doc of Some p \<Rightarrow> Inr p | None \<Rightarrow> Inl execution_error))"

text \<open>
  The start node is the first event whose \<open>event_type\<close> is \<open>Start\<close>, or else the first element with such a \<open>type\<close>.
\<close>

definition start_like :: "flow_element \<Rightarrow> bool" where
  "start_like el =
     (case el of
        NodeElement n \<Rightarrow>
          (case dget (fn_attrs n) ''type'' of
             Some (PStr s) \<Rightarrow> map lower_char s \<in> {''start'', ''startevent''}
           | _ \<Rightarrow> False)
      | _ \<Rightarrow> False)"

definition find_start_node :: "(string, flow_element) dict \<Rightarrow> string option" where
  "find_start_node els =
     (case List.find (\<lambda>n. fn_class n \<in> set event_classes \<and> pget (fn_attrs n) ''event_type'' = PStr ''Start'')
             (List.map_filter (\<lambda>el. case el of NodeElement n \<Rightarrow> Some n | _ \<Rightarrow> None) (dvals els)) of
        Some n \<Rightarrow> if fn_id n \<noteq> [] then Some (fn_id n) else map_option fst (List.find (\<lambda>(k, el). start_like el) els)
      | None \<Rightarrow> map_option fst (List.find (\<lambda>(k, el). start_like el) els))"

definition execution_payload :: "bpmn_process \<Rightarrow> definition_payload" where
  "execution_payload p =
     (case convert_elements (bp_flow_elements p) of
        (activities, flows) \<Rightarrow>
          \<lparr>pl_id = Some (bp_id p), pl_activities = activities, pl_flows = flows, pl_start_event_id = find_start_node (bp_flow_elements p),
           pl_flow_elements = []\<rparr>)"

definition report_state ::
  "(InstanceStateSnapshot \<Rightarrow> py_error option) \<Rightarrow> datetime \<Rightarrow> string \<Rightarrow> string \<Rightarrow> ProcessDefinition \<Rightarrow> pydict \<Rightarrow> BPMNEngine \<Rightarrow> BPMNEngine outcome" where
  "report_state ser now iid st d extra b =
     (case set_engine_state ser now iid st ([(''definition_key'', PStr (pd_key d)), (''definition_id'', PStr (pd_id d))] @ extra) (be_engine b) of
        (err, e) \<Rightarrow> (err, b\<lparr>be_engine := e\<rparr>))"

definition change_state ::
  "(InstanceStateSnapshot \<Rightarrow> py_error option) \<Rightarrow> (nat \<Rightarrow> clock) \<Rightarrow> (nat \<Rightarrow> nat \<Rightarrow> string) \<Rightarrow> string \<Rightarrow> InstanceState \<Rightarrow> string option \<Rightarrow> BPMNEngine
    \<Rightarrow> BPMNEngine outcome" where
  "change_state ser clks uuids iid st reason b =
     (case update_instance_state ser clks uuids iid st reason (be_engine b) of (err, e) \<Rightarrow> (err, b\<lparr>be_engine := e\<rparr>))"

text \<open>What becomes of the instance: a failure is recorded and raised again, a completed process completes its instance.\<close>

definition conclude ::
  "(InstanceStateSnapshot \<Rightarrow> py_error option) \<Rightarrow> (nat \<Rightarrow> clock) \<Rightarrow> (nat \<Rightarrow> nat \<Rightarrow> string) \<Rightarrow> datetime \<Rightarrow> string \<Rightarrow> ProcessDefinition
    \<Rightarrow> ProcessExecutionOutcome result \<times> BPMNEngine \<Rightarrow> BPMNEngine outcome" where
  "conclude ser clks uuids now iid d run =
     (case run of
        (Inl err, b4) \<Rightarrow>
          andthen (change_state ser clks uuids iid Instances.FAILED (Some (exception_text err)) b4) (\<lambda>b5.
          andthen (report_state ser now iid ''failed'' d [(''error'', PStr (exception_text err))] b5) (\<lambda>b6. (Some err, b6)))
      | (Inr out, b4) \<Rightarrow>
          if po_completed out
          then andthen (change_state ser clks uuids iid Instances.COMPLETED None b4) (report_state ser now iid ''completed'' d [])
          else report_state ser now iid
                 (if po_waiting out then ''waiting''
                  else case engine_instance iid (be_engine b4) of None \<Rightarrow> [] | Some i \<Rightarrow> instance_state_value (pi_state i))
                 d [(''current_node'', opt_str (po_current_node out))] b4)"

definition execute_instance ::
  "bpmn_parser \<Rightarrow> (InstanceStateSnapshot \<Rightarrow> py_error option) \<Rightarrow> evaluator \<Rightarrow> (nat \<Rightarrow> string) \<Rightarrow> (nat \<Rightarrow> nat \<Rightarrow> clock)
    \<Rightarrow> (nat \<Rightarrow> nat \<Rightarrow> nat \<Rightarrow> string) \<Rightarrow> string \<Rightarrow> ProcessDefinition \<Rightarrow> BPMNEngine \<Rightarrow> BPMNEngine outcome" where
  "execute_instance parse ser ev repr clks uuids iid d b =
     (case get_bpmn_document parse d b of
        (Inl err, b1) \<Rightarrow> (Some err, b1)
      | (Inr doc, b1) \<Rightarrow>
          (case get_process_from_document doc d of
             Inl err \<Rightarrow> (Some err, b1)
           | Inr p \<Rightarrow>
               (let b2 = b1\<lparr>be_contexts := snd (create_context (clks 0 0) (uuids 0 0 0) Contexts.PROCESS (Some iid) None (be_contexts b1))\<rparr>
                in andthen (report_state ser (clks 0 1 0) iid ''running'' d [] b2) (\<lambda>b3.
                   conclude ser (clks 1) (uuids 1) (clks 0 2 0) iid d
                     (execute ser ev repr (\<lambda>k. clks (k + 2)) (\<lambda>k. uuids (k + 2)) iid (execution_payload p) b3)))))"

text \<open>The BPMN engine as the engine's handler for the definition type \<open>bpmn\<close>.\<close>

definition bpmn_handler ::
  "bpmn_parser \<Rightarrow> (InstanceStateSnapshot \<Rightarrow> py_error option) \<Rightarrow> evaluator \<Rightarrow> (nat \<Rightarrow> string) \<Rightarrow> (nat \<Rightarrow> nat \<Rightarrow> clock)
    \<Rightarrow> (nat \<Rightarrow> nat \<Rightarrow> nat \<Rightarrow> string) \<Rightarrow> BPMNEngine \<Rightarrow> start_handlers" where
  "bpmn_handler parse ser ev repr clks uuids b ty =
     (if ty = ''bpmn''
      then Some (\<lambda>iid d e. case execute_instance parse ser ev repr clks uuids iid d (b\<lparr>be_engine := e\<rparr>) of (err, b1) \<Rightarrow> (err, be_engine b1))
      else None)"

subsection \<open>What the steps do to the instance and its token\<close>

definition obs :: "string \<Rightarrow> string \<Rightarrow> OrchestrationEngine \<Rightarrow> instance_ref option \<times> ProcessInstance option \<times> Token option \<times> bool \<times> bool" where
  "obs iid tid e =
     (dget (en_instances e) iid, get_instance iid (en_instance_manager e), get_token tid (en_token_manager e),
      vm_repository (en_variable_manager e) \<noteq> None, shared e)"

lemma obs_set_bus [simp]: "obs iid tid (set_bus b e) = obs iid tid e"
  by (simp add: obs_def)

lemma obs_persist_managed [simp]: "obs iid tid (persist_managed now uuid k e) = obs iid tid e"
  by (simp add: obs_def shared_def persist_managed_def split: prod.split option.split)

lemma obs_persist_tokens [simp]: "obs iid tid (persist_tokens clk ids tids e) = obs iid tid e"
proof (induction tids arbitrary: clk ids e)
  case (Cons x tids)
  have "obs iid tid (case persist_token (save_persisted (clk 0) (ids 0) ''token'') x (en_token_manager e) (Some (en_token_repository e)) of
      (_, Some r) \<Rightarrow> e\<lparr>en_token_repository := r\<rparr> | (_, None) \<Rightarrow> e) = obs iid tid e"
    by (simp add: obs_def shared_def split: prod.split option.split)
  then show ?case using Cons.IH by simp
qed simp

lemma obs_token:
  assumes "obs iid tid e = (Some Managed, Some i, Some t, True, True)"
  shows "obs iid tid (on_token tid f e) = (Some Managed, Some i, Some (f t), True, True)"
  using assms by (auto simp: obs_def on_token_def get_token_def update_token_def shared_def)

lemma obs_instance:
  assumes "obs iid tid e = (Some Managed, Some i, Some t, True, True)"
  shows "obs iid tid (on_instance iid f e) = (Some Managed, Some (f i), Some t, True, True)"
    "obs iid tid (put_engine_instance iid i' e) = (Some Managed, Some i', Some t, True, True)"
    "engine_instance iid e = Some i" "instance_vars iid e = pi_variables i"
  using assms by (auto simp: obs_def on_instance_def engine_instance_def put_engine_instance_def instance_vars_def get_instance_def shared_def)

lemma obs_publish:
  assumes "obs iid tid e = (Some Managed, Some i, Some t, True, True)"
  obtains e1 where "engine_publish clk ids ty data e = (None, e1)" "obs iid tid e1 = (Some Managed, Some i, Some t, True, True)"
proof -
  have "shared e" using assms by (simp add: obs_def)
  then obtain b where "engine_publish clk ids ty data e = (None, set_bus b e)" by (rule engine_publish_ok)
  with that assms show ?thesis by simp
qed

lemma tokens_at_one:
  "get_token tid (en_token_manager e) = Some t \<Longrightarrow>
     tokens_at c [tid] e = (if current_element_id t = Some c \<and> tok_state t = Tokens.ACTIVE then [tid] else [])"
  "get_token tid (en_token_manager e) = Some t \<Longrightarrow> active_among [tid] e = (if tok_state t = Tokens.ACTIVE then [tid] else [])"
  by (simp_all add: tokens_at_def active_among_def)

lemma obs_vars:
  assumes "obs iid tid e = (Some Managed, Some i, Some t, True, True)"
    and "\<forall>(n, v) \<in> set vs. dget before n = Some v \<or> is_ok (type_name v)"
  shows "\<exists>e1. persist_new_variables clk ids iid before vs e = (None, e1) \<and> obs iid tid e1 = (Some Managed, Some i, Some t, True, True)"
  using assms
proof (induction vs arbitrary: clk ids e)
  case (Cons p vs)
  obtain n v where p: "p = (n, v)" by (cases p)
  have rest: "\<forall>(n, v) \<in> set vs. dget before n = Some v \<or> is_ok (type_name v)" using Cons.prems(2) by auto
  show ?case
  proof (cases "dget before n = Some v")
    case True
    then show ?thesis using Cons.IH [OF Cons.prems(1) rest] p by simp
  next
    case False
    then have ok: "is_ok (type_name v)" using Cons.prems(2) p by auto
    obtain r where r: "vm_repository (en_variable_manager e) = Some r" using Cons.prems(1) by (auto simp: obs_def)
    obtain vm where vm: "vm_set_persisted (clk 0) (ids 0) iid iid n v None True None (en_variable_manager e) = (None, vm)" "vm_repository vm \<noteq> None"
      using vm_set_persisted_row [OF r ok] by simp
    have "obs iid tid (e\<lparr>en_variable_manager := vm\<rparr>) = (Some Managed, Some i, Some t, True, True)"
      using Cons.prems(1) vm(2) by (simp add: obs_def shared_def)
    from Cons.IH [OF this rest, of "clk \<circ> Suc" "ids \<circ> Suc"] show ?thesis using p False vm(1) by (simp add: comp_def)
  qed
qed simp

subsection \<open>Nodes that a token passes\<close>

text \<open>
  A node passes when its handler succeeds without waiting and sets variables of its own whose types are known.  Plain
  tasks, events and gateways of every kind do, unless they have an input-output specification.
\<close>

definition passes :: "(nat \<Rightarrow> string) \<Rightarrow> flow_node \<Rightarrow> bool" where
  "passes repr n \<longleftrightarrow> (\<exists>res vs. ar_success res \<and> \<not> ar_waiting res \<and> (\<forall>(k, v) \<in> set vs. is_ok (type_name v)) \<and>
     (\<forall>i. execute_osdm repr n i = (res, set_each (fn_id n) vs (i\<lparr>pi_current_activity_id := Some (fn_id n)\<rparr>))))"

lemma plain_node_passes:
  assumes "attr n ''io_specification'' = PNone" "fn_class n \<in> set ([Task, ManualTask] @ event_classes @ gateway_classes)"
  shows "passes repr n"
proof -
  have io: "apply_io_mappings repr n i = (None, i)" for i using assms(1) by (simp add: apply_io_mappings_def as_dict_def payload_simps)
  have "\<exists>d. \<forall>i. run_handler repr (fn_class n) n i = (Inr (activity_done d), set_each (fn_id n) [(''output'', PDict d)] i)"
    using assms(2)
    by (auto simp: event_classes_def gateway_classes_def finish_with_def generic_type_def activity_classes_def task_classes_def)
  then obtain d where "\<forall>i. run_handler repr (fn_class n) n i = (Inr (activity_done d), set_each (fn_id n) [(''output'', PDict d)] i)" by blast
  then show ?thesis
    unfolding passes_def
    by (intro exI [where x = "activity_done d"] exI [where x = "[(''output'', PDict d)]"]) (simp add: execute_osdm_def io activity_done_def)
qed

lemma set_dset_subset: "set (dset k v d) \<subseteq> insert (k, v) (set d)"
  by (induction d) auto

lemma set_each_vars:
  assumes "\<forall>(k, v) \<in> set vs. is_ok (type_name v)"
  shows "\<forall>(n, v) \<in> set (pi_variables (set_each aid vs i)). (n, v) \<in> set (pi_variables i) \<or> is_ok (type_name v)"
proof -
  have "\<forall>(n, v) \<in> set (pi_variables (fold (\<lambda>(k, v). pi_set_variable (aid @ ''.'' @ k) v) vs i)). (n, v) \<in> set (pi_variables i) \<or> is_ok (type_name v)"
    using assms
  proof (induction vs arbitrary: i)
    case (Cons p vs)
    obtain k v where p: "p = (k, v)" by (cases p)
    have "set (pi_variables (pi_set_variable (aid @ ''.'' @ k) v i)) \<subseteq> insert (aid @ ''.'' @ k, v) (set (pi_variables i))"
      by (simp add: pi_set_variable_def set_dset_subset)
    then show ?case using Cons.IH [of "pi_set_variable (aid @ ''.'' @ k) v i"] Cons.prems p by fastforce
  qed auto
  then show ?thesis by (simp add: set_each_def)
qed

lemma set_each_dict_ok: "dict_ok (pi_variables i) \<Longrightarrow> dict_ok (pi_variables (set_each aid vs i))"
proof -
  have "dict_ok (pi_variables i) \<Longrightarrow> dict_ok (pi_variables (fold (\<lambda>(k, v). pi_set_variable (aid @ ''.'' @ k) v) vs i))"
    by (induction vs arbitrary: i) (simp_all add: case_prod_beta pi_set_variable_def)
  then show "dict_ok (pi_variables i) \<Longrightarrow> dict_ok (pi_variables (set_each aid vs i))" by (simp add: set_each_def)
qed

text \<open>The instance has gone through one more node.\<close>

definition advanced :: "string list \<Rightarrow> ProcessInstance \<Rightarrow> ProcessInstance \<Rightarrow> bool" where
  "advanced cs i i1 \<longleftrightarrow>
     pi_execution_path i1 = pi_execution_path i @ cs \<and>
     map act_activity_id (pi_completed_activities i1) = map act_activity_id (pi_completed_activities i) @ cs \<and>
     pi_id i1 = pi_id i \<and> pi_state i1 = pi_state i \<and> pi_state_obj i1 = pi_state_obj i \<and>
     (dict_ok (pi_variables i) \<longrightarrow> dict_ok (pi_variables i1))"

lemma advanced_trans: "advanced cs i i1 \<Longrightarrow> advanced ds i1 i2 \<Longrightarrow> advanced (cs @ ds) i i2"
  by (auto simp: advanced_def)

text \<open>Starting a node, running its handler and completing it, on the instance alone.\<close>

lemma node_advances:
  assumes "i2 = set_each aid vs ((snd (start_activity clk u aid nm ty i))\<lparr>pi_current_activity_id := Some aid\<rparr>)"
  shows "advanced [aid] i (complete_activity clk' aid i2)"
proof -
  let ?i1 = "(snd (start_activity clk u aid nm ty i))\<lparr>pi_current_activity_id := Some aid\<rparr>"
  have b: "bare i2 = bare ?i1" using assms by simp
  have f: "pi_execution_path i2 = pi_execution_path i @ [aid]" "pi_completed_activities i2 = pi_completed_activities i"
    "pi_id i2 = pi_id i" "pi_state i2 = pi_state i" "pi_state_obj i2 = pi_state_obj i" "pi_active_activities i2 = pi_active_activities ?i1"
    using arg_cong [OF b, of pi_execution_path] arg_cong [OF b, of pi_completed_activities] arg_cong [OF b, of pi_id] arg_cong [OF b, of pi_state]
      arg_cong [OF b, of pi_state_obj] arg_cong [OF b, of pi_active_activities]
    by (simp_all add: bare_def start_activity_def Let_def)
  have "dict_ok (pi_variables i) \<longrightarrow> dict_ok (pi_variables i2)"
    using set_each_dict_ok [of ?i1] assms by (simp add: start_activity_def Let_def)
  then show ?thesis using f
    by (simp add: advanced_def complete_activity_def start_activity_def Let_def)
qed

subsection \<open>A turn at a node that passes\<close>

declare persist_tokens.simps [simp del]

definition here_at :: "string \<Rightarrow> Token \<Rightarrow> bool" where
  "here_at c t \<longleftrightarrow> current_element_id t = Some c \<and> tok_state t = Tokens.ACTIVE \<and> token_wf t"

definition untyped :: "TypedProcessModel \<Rightarrow> bool" where
  "untyped tm \<longleftrightarrow> tp_node_index tm = [] \<and> tp_flow_index tm = []"

lemma untyped_simps:
  assumes "untyped tm"
  shows "get_flow_node c tm = None" "is_gateway_typed c tm = False" "classify_gateway_typed c tm = ''none''"
    "is_converging_gateway_typed c tm = False" "get_outgoing_flows c tm = []"
  using assms
  by (simp_all add: untyped_def get_flow_node_def is_gateway_typed_def classify_gateway_typed_def is_converging_gateway_typed_def
      get_outgoing_flows_def dget_or_def)

definition targets :: "evaluator \<Rightarrow> ProcessModel \<Rightarrow> string \<Rightarrow> string list" where
  "targets ev model c = ft_selected_targets (next_nodes_handler ev (pm_flows model) c [] True False)"

lemma compute_next_untyped: "untyped tm \<Longrightarrow> compute_next ev c model tm = targets ev model c"
  by (simp add: compute_next_def untyped_simps targets_def)

lemma here_at_steps:
  assumes "here_at c t"
  shows "here_at c' (move_to clk c' ty t)" "here_at c (snd (create_snapshot clk vars t))"
  using assms by (auto simp: here_at_def move_to_def create_snapshot_def Let_def token_wf_def)

abbreviation good :: "string \<Rightarrow> string \<Rightarrow> ProcessInstance \<Rightarrow> Token \<Rightarrow> OrchestrationEngine \<Rightarrow> bool" where
  "good iid tid i t e \<equiv> obs iid tid e = (Some Managed, Some i, Some t, True, True)"

lemma begin_activity_ok:
  assumes "good iid tid i t e" "here_at c t"
  shows "\<exists>e1 t1. begin_activity clks uuids iid n before [tid] [tid] e = (None, e1) \<and> good iid tid i t1 e1 \<and> here_at (fn_id n) t1"
proof -
  let ?f = "\<lambda>t. snd (create_snapshot (clks 1 \<circ> Suc) (Some before) (move_to (clks 1) (fn_id n) (classify_node (fn_class n)) t))"
  let ?e0 = "persist_managed (clks 3 0) (uuids 3 0) iid (persist_tokens (clks 2) (uuids 2) [tid] (on_token tid ?f e))"
  have g: "good iid tid i (?f t) ?e0" using obs_token [OF assms(1), where f = ?f] by simp
  obtain e1 where "engine_publish (clks 4) (uuids 4) ACTIVITY_STARTED (activity_event iid n) ?e0 = (None, e1)" "good iid tid i (?f t) e1"
    by (rule obs_publish [OF g])
  moreover have "here_at (fn_id n) (?f t)" by (intro here_at_steps(2) here_at_steps(1) [OF assms(2)])
  ultimately show ?thesis by (auto simp: begin_activity_def)
qed

lemma end_activity_ok:
  assumes "good iid tid i t e" "here_at c t"
  shows "\<exists>e1 t1. end_activity clks uuids iid n [tid] [tid] e = (None, e1) \<and>
    good iid tid (complete_activity (clks 0) (fn_id n) i) t1 e1 \<and> here_at c t1"
proof -
  let ?i1 = "complete_activity (clks 0) (fn_id n) i"
  let ?ea = "on_instance iid (complete_activity (clks 0) (fn_id n)) e"
  let ?f = "\<lambda>t. snd (create_snapshot (clks 1) (Some (instance_vars iid ?ea)) t)"
  let ?e0 = "persist_managed (clks 3 0) (uuids 3 0) iid (persist_tokens (clks 2) (uuids 2) [tid] (on_token tid ?f ?ea))"
  have g: "good iid tid ?i1 (?f t) ?e0" using obs_token [OF obs_instance(1) [OF assms(1), where f = "complete_activity (clks 0) (fn_id n)"], where f = ?f] by simp
  obtain e1 where "engine_publish (clks 4) (uuids 4) ACTIVITY_COMPLETED (activity_event iid n) ?e0 = (None, e1)" "good iid tid ?i1 (?f t) e1"
    by (rule obs_publish [OF g])
  moreover have "here_at c (?f t)" by (rule here_at_steps(2) [OF assms(2)])
  ultimately show ?thesis by (auto simp: end_activity_def Let_def)
qed

lemma move_on_next:
  assumes "good iid tid i t e" "here_at c t" "untyped tm" "targets ev model c = d # ds" "d \<noteq> []"
  shows "\<exists>e1 t1. move_on ev clks uuids iid model tm c visited [tid] [tid] br e = (Continued (Some d) visited [tid] br, e1) \<and>
    good iid tid i t1 e1 \<and> here_at d t1"
proof -
  let ?e1 = "persist_tokens (clks 1) (uuids 1) [tid] (on_token tid (move_to (clks 0) d ''flow'') e)"
  have "route ev clks uuids iid tm c (d # ds) [tid] [tid] br e = (Some d, [tid], br, ?e1)"
    using assms(3) by (simp add: route_def untyped_simps Let_def)
  then have "move_on ev clks uuids iid model tm c visited [tid] [tid] br e = (Continued (Some d) visited [tid] br, ?e1)"
    using assms(3-5) by (simp add: move_on_def compute_next_untyped must_wait_def untyped_simps nonempty_opt_def)
  moreover have "good iid tid i (move_to (clks 0) d ''flow'' t) ?e1" using obs_token [OF assms(1), where f = "move_to (clks 0) d ''flow''"] by simp
  ultimately show ?thesis using here_at_steps(1) [OF assms(2)] by blast
qed

lemma move_on_end:
  assumes "good iid tid i t e" "here_at c t" "untyped tm" "targets ev model c = []"
  shows "\<exists>e1 t1. move_on ev clks uuids iid model tm c visited [tid] [tid] br e =
      (Returned \<lparr>po_completed = True, po_waiting = False, po_current_node = None\<rparr>, e1) \<and>
    good iid tid i t1 e1 \<and> tok_state t1 = Tokens.COMPLETED"
proof -
  obtain err t1 where a: "token_apply (clks 0) Tokens.Complete t = (err, t1)" by fastforce
  have t1: "err = None" "tok_state t1 = Tokens.COMPLETED"
    using token_apply_status [where t = t and x = Tokens.Complete and clk = "clks 0"] assms(2) a by (simp_all add: here_at_def)
  have tok: "dget (tm_tokens (en_token_manager e)) tid = Some t" using assms(1) by (simp add: obs_def get_token_def)
  let ?ea = "e\<lparr>en_token_manager := (en_token_manager e)\<lparr>tm_tokens := dset tid t1 (tm_tokens (en_token_manager e))\<rparr>\<rparr>"
  let ?e1 = "persist_tokens (clks 1) (uuids 1) [tid] ?ea"
  have c: "complete_tokens (clks 0) [tid] e = (None, ?ea)" using tok a t1(1) by (simp add: call_token_def token_call_def)
  have "good iid tid i t1 ?ea" using assms(1) by (simp add: obs_def shared_def get_token_def)
  then have g: "good iid tid i t1 ?e1" by simp
  then have "active_among [tid] ?e1 = []" using t1(2) by (simp add: tokens_at_one(2) obs_def)
  then have "move_on ev clks uuids iid model tm c visited [tid] [tid] br e =
      (Returned \<lparr>po_completed = True, po_waiting = False, po_current_node = None\<rparr>, ?e1)"
    using assms(3,4) c by (simp add: move_on_def compute_next_untyped end_path_def Let_def del: complete_tokens.simps)
  with g t1(2) show ?thesis by blast
qed


text \<open>A turn at a node that passes: the instance advances by the node, then the token moves on.\<close>

lemma step_through:
  assumes "good iid tid i t e" "here_at c t" "untyped tm" "c \<notin> set visited" "find_activity model c = Some n" "passes repr n"
    and "dict_ok (pi_variables i)"
  shows "\<exists>e1 i1 t1. bpmn_step ser ev repr clks uuids iid model tm c visited [tid] br e =
      move_on ev (\<lambda>k. clks (k + 12)) (\<lambda>k. uuids (k + 12)) iid model tm c (c # visited) [tid] [tid] br e1 \<and>
    good iid tid i1 t1 e1 \<and> here_at c t1 \<and> advanced [c] i i1"
proof -
  have id: "fn_id n = c" using assms(5) by (auto simp: find_activity_def find_Some_iff)
  obtain res vs where p: "ar_success res" "\<not> ar_waiting res" "\<forall>(k, v) \<in> set vs. is_ok (type_name v)"
    "\<And>i. execute_osdm repr n i = (res, set_each c vs (i\<lparr>pi_current_activity_id := Some c\<rparr>))"
    using assms(6) unfolding passes_def id by blast
  let ?start = "\<lambda>i. snd (start_activity (clks 0) (uuids 0 0) c (node_name n) (classify_node (fn_class n)) i)"
  let ?ea = "on_instance iid ?start e"
  have ga: "good iid tid (?start i) t ?ea" by (rule obs_instance(1) [OF assms(1)])
  have here: "tokens_at c [tid] ?ea = [tid]" using ga assms(2) tokens_at_one(1) [of tid ?ea t c] by (simp add: obs_def here_at_def)
  have before: "instance_vars iid e = pi_variables i" by (rule obs_instance(4) [OF assms(1)])
  obtain eb tb where b: "begin_activity clks uuids iid n (pi_variables i) [tid] [tid] ?ea = (None, eb)" "good iid tid (?start i) tb eb" "here_at c tb"
    using begin_activity_ok [OF ga assms(2), of clks uuids n "pi_variables i"] id by auto
  let ?i2 = "set_each c vs ((?start i)\<lparr>pi_current_activity_id := Some c\<rparr>)"
  let ?ec = "put_engine_instance iid ?i2 eb"
  have c: "run_activity repr iid n eb = (res, ?ec)" using obs_instance(3) [OF b(2)] p(4) by (simp add: run_activity_def)
  have gc: "good iid tid ?i2 tb ?ec" by (rule obs_instance(2) [OF b(2)])
  have "pi_variables ((?start i)\<lparr>pi_current_activity_id := Some c\<rparr>) = pi_variables i" by (simp add: start_activity_def Let_def)
  then have "\<forall>(n, v) \<in> set (pi_variables ?i2). dget (pi_variables i) n = Some v \<or> is_ok (type_name v)"
    using set_each_vars [OF p(3), of c "(?start i)\<lparr>pi_current_activity_id := Some c\<rparr>"] assms(7) by (auto simp: map_of_eq_Some_iff)
  then obtain ed where d: "persist_new_variables (clks 6) (uuids 6) iid (pi_variables i) (pi_variables ?i2) ?ec = (None, ed)" "good iid tid ?i2 tb ed"
    using obs_vars [OF gc] by blast
  obtain ee te where f: "end_activity (\<lambda>k. clks (k + 7)) (\<lambda>k. uuids (k + 7)) iid n [tid] [tid] ed = (None, ee)"
    "good iid tid (complete_activity (clks 7) c ?i2) te ee" "here_at c te"
    using end_activity_ok [OF d(2) b(3), of "\<lambda>k. clks (k + 7)" "\<lambda>k. uuids (k + 7)" n] id by auto
  have v: "instance_vars iid ?ec = pi_variables ?i2" by (rule obs_instance(4) [OF gc])
  have "bpmn_step ser ev repr clks uuids iid model tm c visited [tid] br e =
      move_on ev (\<lambda>k. clks (k + 12)) (\<lambda>k. uuids (k + 12)) iid model tm c (c # visited) [tid] [tid] br ee"
    using assms(3-5) here before b(1) c d(1) f(1) p(1,2) v by (simp add: bpmn_step_def untyped_simps id Let_def)
  moreover have "advanced [c] i (complete_activity (clks 7) c ?i2)" by (rule node_advances [OF refl])
  ultimately show ?thesis using f(2,3) by blast
qed


subsection \<open>The way of a token\<close>

definition station :: "(nat \<Rightarrow> string) \<Rightarrow> ProcessModel \<Rightarrow> string \<Rightarrow> bool" where
  "station repr model c \<longleftrightarrow> c \<noteq> [] \<and> (\<exists>n. find_activity model c = Some n \<and> passes repr n)"

text \<open>Each node of a path follows the one before by the first flow that is selected there.\<close>

fun leads :: "evaluator \<Rightarrow> ProcessModel \<Rightarrow> string list \<Rightarrow> bool" where
  "leads ev model (c # d # cs) \<longleftrightarrow> take 1 (targets ev model c) = [d] \<and> leads ev model (d # cs)"
| "leads ev model _ \<longleftrightarrow> True"

lemma loop_prefix:
  assumes "leads ev model (cs @ [d])" "\<forall>c \<in> set cs. station repr model c" "distinct cs" "set cs \<inter> set visited = {}" "d \<noteq> []" "untyped tm"
    and "length cs \<le> n" "good iid tid i t e" "here_at (hd (cs @ [d])) t" "dict_ok (pi_variables i)"
  shows "\<exists>e1 i1 t1. bpmn_loop ser ev repr clks uuids iid model tm n (Some (hd (cs @ [d]))) visited [tid] br e =
      bpmn_loop ser ev repr (\<lambda>k. clks (k + length cs)) (\<lambda>k. uuids (k + length cs)) iid model tm (n - length cs) (Some d) (rev cs @ visited) [tid] br e1 \<and>
    good iid tid i1 t1 e1 \<and> here_at d t1 \<and> advanced cs i i1"
  using assms
proof (induction cs arbitrary: visited n i t e clks uuids)
  case Nil
  then show ?case by (auto simp: advanced_def)
next
  case (Cons c cs)
  let ?d = "hd (cs @ [d])"
  obtain m where n: "n = Suc m" using Cons.prems(7) by (cases n) auto
  obtain nd where nd: "c \<noteq> []" "find_activity model c = Some nd" "passes repr nd" using Cons.prems(2) by (auto simp: station_def)
  have at: "here_at c t" "c \<notin> set visited" using Cons.prems(4,9) by auto
  have "?d \<noteq> []" using Cons.prems(2,5) by (cases cs) (auto simp: station_def)
  moreover obtain ds where tg: "targets ev model c = ?d # ds" using Cons.prems(1) by (cases cs; cases "targets ev model c") auto
  ultimately obtain e1 i1 t1 where s: "bpmn_step ser ev repr (clks 0) (uuids 0) iid model tm c visited [tid] br e = (Continued (Some ?d) (c # visited) [tid] br, e1)"
    "good iid tid i1 t1 e1" "here_at ?d t1" "advanced [c] i i1"
    using step_through [OF Cons.prems(8) at(1) Cons.prems(6) at(2) nd(2,3) Cons.prems(10), of ser ev "clks 0" "uuids 0" br]
      move_on_next [OF _ _ Cons.prems(6), of iid tid _ _ _ c ev model ?d ds "\<lambda>k. clks 0 (k + 12)" "\<lambda>k. uuids 0 (k + 12)" "c # visited" br]
    by metis
  have l: "leads ev model (cs @ [d])" using Cons.prems(1) by (cases cs) auto
  have r: "\<forall>c \<in> set cs. station repr model c" "distinct cs" "set cs \<inter> set (c # visited) = {}" "length cs \<le> m" "dict_ok (pi_variables i1)"
    using Cons.prems(2,3,4,7,10) s(4) by (auto simp: n advanced_def)
  have "bpmn_loop ser ev repr clks uuids iid model tm n (Some (hd ((c # cs) @ [d]))) visited [tid] br e =
      bpmn_loop ser ev repr (clks \<circ> Suc) (uuids \<circ> Suc) iid model tm m (Some ?d) (c # visited) [tid] br e1"
    using s(1) nd(1) by (simp add: n nonempty_opt_def)
  with Cons.IH [OF l r(1-3) Cons.prems(5,6) r(4) s(2,3) r(5), of "clks \<circ> Suc" "uuids \<circ> Suc"] s(4) show ?case
    by (fastforce simp: n comp_def dest: advanced_trans)
qed

lemma loop_ends:
  assumes "targets ev model d = []" "station repr model d" "d \<notin> set visited" "untyped tm" "good iid tid i t e" "here_at d t" "dict_ok (pi_variables i)"
  shows "\<exists>e1 i1 t1. bpmn_loop ser ev repr clks uuids iid model tm (Suc n) (Some d) visited [tid] br e =
      (Returned \<lparr>po_completed = True, po_waiting = False, po_current_node = None\<rparr>, e1) \<and>
    good iid tid i1 t1 e1 \<and> tok_state t1 = Tokens.COMPLETED \<and> advanced [d] i i1"
proof -
  obtain nd where nd: "d \<noteq> []" "find_activity model d = Some nd" "passes repr nd" using assms(2) by (auto simp: station_def)
  obtain e1 i1 t1 where "bpmn_step ser ev repr (clks 0) (uuids 0) iid model tm d visited [tid] br e =
      (Returned \<lparr>po_completed = True, po_waiting = False, po_current_node = None\<rparr>, e1)"
    "good iid tid i1 t1 e1" "tok_state t1 = Tokens.COMPLETED" "advanced [d] i i1"
    using step_through [OF assms(5,6,4,3) nd(2,3) assms(7), of ser ev "clks 0" "uuids 0" br]
      move_on_end [OF _ _ assms(4,1), of iid tid _ _ _ "\<lambda>k. clks 0 (k + 12)" "\<lambda>k. uuids 0 (k + 12)" "d # visited" br]
    by metis
  then show ?thesis using nd(1) by (simp add: nonempty_opt_def)
qed


text \<open>A node that the token has been at already ends the loop, unless the typed model says that it is a gateway.\<close>

lemma loop_revisits:
  assumes "d \<in> set visited" "d \<noteq> []" "untyped tm" "n \<noteq> 0"
  shows "bpmn_loop ser ev repr clks uuids iid model tm (Suc n) (Some d) visited [tid] br e =
    (Returned \<lparr>po_completed = False, po_waiting = False, po_current_node = Some d\<rparr>, e)"
  using assms by (simp add: nonempty_opt_def bpmn_step_def untyped_simps after_loop_def)

text \<open>A node whose handler fails, whatever the instance: the activity is marked as failed and the loop raises.\<close>

definition fails :: "(nat \<Rightarrow> string) \<Rightarrow> flow_node \<Rightarrow> py_error \<Rightarrow> bool" where
  "fails repr n err \<longleftrightarrow> (\<forall>i. \<not> ar_success (fst (execute_osdm repr n i)) \<and> ar_error (fst (execute_osdm repr n i)) = Some err)"

definition stopped :: "string \<Rightarrow> ProcessInstance \<Rightarrow> ProcessInstance \<Rightarrow> bool" where
  "stopped c i i1 \<longleftrightarrow>
     pi_execution_path i1 = pi_execution_path i @ [c] \<and> pi_completed_activities i1 = pi_completed_activities i \<and>
     map_option act_state (dget (pi_active_activities i1) c) = Some ''failed'' \<and>
     pi_id i1 = pi_id i \<and> pi_state i1 = pi_state i \<and> pi_state_obj i1 = pi_state_obj i"

lemma failed_stops:
  "stopped c i (fail_activity c (snd (execute_osdm repr n (snd (start_activity clk u c nm ty i)))))"
proof -
  let ?i1 = "snd (start_activity clk u c nm ty i)"
  let ?i2 = "snd (execute_osdm repr n ?i1)"
  have b: "bare ?i2 = bare ?i1" by (rule bare_execute)
  have f: "pi_execution_path ?i2 = pi_execution_path i @ [c]" "pi_completed_activities ?i2 = pi_completed_activities i"
    "pi_id ?i2 = pi_id i" "pi_state ?i2 = pi_state i" "pi_state_obj ?i2 = pi_state_obj i" "pi_active_activities ?i2 = pi_active_activities ?i1"
    using arg_cong [OF b, of pi_execution_path] arg_cong [OF b, of pi_completed_activities] arg_cong [OF b, of pi_id] arg_cong [OF b, of pi_state]
      arg_cong [OF b, of pi_state_obj] arg_cong [OF b, of pi_active_activities]
    by (simp_all add: bare_def start_activity_def Let_def)
  have "dget (pi_active_activities ?i1) c \<noteq> None" by (simp add: start_activity_def Let_def)
  then show ?thesis using f by (auto simp: stopped_def fail_activity_def)
qed

lemma loop_fails:
  assumes "find_activity model d = Some nd" "fails repr nd err" "d \<noteq> []" "d \<notin> set visited" "untyped tm" "good iid tid i t e" "here_at d t"
  shows "\<exists>e1 i1 t1. bpmn_loop ser ev repr clks uuids iid model tm (Suc n) (Some d) visited [tid] br e =
      (Raised (RuntimeError (''Activity failed: '' @ exception_text err)), e1) \<and> good iid tid i1 t1 e1 \<and> stopped d i i1"
proof -
  have id: "fn_id nd = d" using assms(1) by (auto simp: find_activity_def find_Some_iff)
  let ?start = "\<lambda>i. snd (start_activity (clks 0 0) (uuids 0 0 0) d (node_name nd) (classify_node (fn_class nd)) i)"
  let ?ea = "on_instance iid ?start e"
  have ga: "good iid tid (?start i) t ?ea" by (rule obs_instance(1) [OF assms(6)])
  have here: "tokens_at d [tid] ?ea = [tid]" using ga assms(7) tokens_at_one(1) [of tid ?ea t d] by (simp add: obs_def here_at_def)
  have before: "instance_vars iid e = pi_variables i" by (rule obs_instance(4) [OF assms(6)])
  obtain eb tb where b: "begin_activity (clks 0) (uuids 0) iid nd (pi_variables i) [tid] [tid] ?ea = (None, eb)" "good iid tid (?start i) tb eb"
    using begin_activity_ok [OF ga assms(7), of "clks 0" "uuids 0" nd "pi_variables i"] by auto
  let ?r = "execute_osdm repr nd (?start i)"
  let ?ec = "put_engine_instance iid (snd ?r) eb"
  have c: "run_activity repr iid nd eb = (fst ?r, ?ec)" using obs_instance(3) [OF b(2)] by (simp add: run_activity_def case_prod_beta)
  let ?ed = "persist_managed (clks 0 5 0) (uuids 0 5 0) iid (on_instance iid (fail_activity d) ?ec)"
  have "good iid tid (fail_activity d (snd ?r)) tb ?ed" using obs_instance(1) [OF obs_instance(2) [OF b(2)]] by simp
  moreover have "bpmn_loop ser ev repr clks uuids iid model tm (Suc n) (Some d) visited [tid] br e =
      (Raised (RuntimeError (''Activity failed: '' @ exception_text err)), ?ed)"
    using assms(1-5) here before b(1) c unfolding fails_def by (simp add: nonempty_opt_def bpmn_step_def untyped_simps id Let_def)
  ultimately show ?thesis using failed_stops by blast
qed

text \<open>The objects that the parser makes have no data associations, so that an input-output specification fails its activity.\<close>

lemma io_specification_fails:
  assumes "attr n ''io_specification'' = PDict spec" "dget spec ''__class__'' = Some (PStr ''InputOutputSpecification'')"
    and "dget spec ''data_inputs'' = Some (PList dis)" "dget spec ''data_associations'' = None"
  shows "fails repr n (AttributeError ''data_associations'')"
proof -
  have spec: "pget spec ''__class__'' = PStr ''InputOutputSpecification''" "pget spec ''data_inputs'' = PList dis" "as_dict (PDict spec) = spec"
    using assms(2,3) by (simp_all add: pget_def dget_or_def as_dict_def)
  have io: "\<exists>i1. apply_io_mappings repr n i = (Some (AttributeError ''data_associations''), i1)" for i
    using assms(1,4) spec by (cases dis) (simp_all add: apply_io_mappings_def por_def)
  have "\<And>i. fst (execute_osdm repr n i) = activity_failed (AttributeError ''data_associations'')"
  proof -
    fix i
    obtain i1 where "apply_io_mappings repr n (i\<lparr>pi_current_activity_id := Some (fn_id n)\<rparr>) = (Some (AttributeError ''data_associations''), i1)"
      using io by blast
    then show "fst (execute_osdm repr n i) = activity_failed (AttributeError ''data_associations'')" by (simp add: execute_osdm_def)
  qed
  then show ?thesis by (simp add: fails_def activity_failed_def)
qed

end
