(* ===== verification/BpmnRuns.thy ===== *)
theory BpmnRuns
  imports BpmnExecution
begin

section \<open>Runs of a BPMN process\<close>

text \<open>
  From starting an instance to the end of its process: the engine creates and stores the instance and hands it to the
  BPMN engine, whose loop takes the token through the process; the BPMN engine then completes or fails the instance, or
  leaves it active.  The lemmas follow the token along a path of nodes; the theorems state what the caller of
  \<open>start_process_instance\<close> gets for a path that ends, that comes back to one of its nodes, and that reaches a node
  whose handler fails.
\<close>

subsection \<open>From the instance to the end of its process\<close>

definition ready :: "string \<Rightarrow> ProcessInstance \<Rightarrow> OrchestrationEngine \<Rightarrow> bool" where
  "ready iid i e \<longleftrightarrow>
     dget (en_instances e) iid = Some Managed \<and> get_instance iid (en_instance_manager e) = Some i \<and>
     vm_repository (en_variable_manager e) \<noteq> None \<and> shared e \<and> get_instance_tokens iid (en_token_manager e) = []"

lemma token_made:
  assumes "ready iid i e"
  shows "\<exists>e1 t. ensure_runtime_token clk u iid start e = (u, e1) \<and> good iid u i t e1 \<and> here_at start t"
  using assms
  by (auto simp: ensure_runtime_token_def ready_def create_token_def file_token_def new_token_def nonempty_opt_def obs_def shared_def get_token_def
      here_at_def token_wf_def Let_def)

lemma untyped_payload: "pl_flow_elements p = [] \<Longrightarrow> untyped (normalize_osdm p did)"
  by (simp add: normalize_osdm_def untyped_def)

text \<open>A definition's document is there and its process has a start node.\<close>

definition loads :: "bpmn_parser \<Rightarrow> BPMNEngine \<Rightarrow> ProcessDefinition \<Rightarrow> ProcessModel \<Rightarrow> string \<Rightarrow> bool" where
  "loads parse b d model start \<longleftrightarrow>
     (\<exists>doc p. fst (get_bpmn_document parse d b) = Inr doc \<and> get_process_from_document doc d = Inr p \<and>
        normalize (execution_payload p) = Inr model \<and> pm_start_node model = Some start)"

lemma document_engine:
  "be_engine (snd (get_bpmn_document parse d b)) = be_engine b"
  "fst (get_bpmn_document parse d (b\<lparr>be_engine := e\<rparr>)) = fst (get_bpmn_document parse d b)"
  by (simp_all add: get_bpmn_document_def split: option.split sum.split)

lemma execute_runs:
  assumes "ready iid i (be_engine b)" "normalize payload = Inr model" "pl_flow_elements payload = []" "pm_start_node model = Some start"
  shows "\<exists>tm tid e t. untyped tm \<and> good iid tid i t e \<and> here_at start t \<and>
    (\<forall>r e1. bpmn_loop ser ev repr (clks \<circ> Suc) (uuids \<circ> Suc) iid model tm 200 (Some start) [] [tid] [] e = (r, e1) \<longrightarrow>
       (\<exists>b1. execute ser ev repr clks uuids iid payload b = (raised_or r, b1) \<and> be_engine b1 = e1))"
proof -
  let ?b1 = "case get_context iid (be_contexts b) of
      Some _ \<Rightarrow> b
    | None \<Rightarrow> b\<lparr>be_contexts := snd (create_context (clks 0 0) (uuids 0 0 0) Contexts.PROCESS (Some iid) None (be_contexts b))\<rparr>"
  let ?tid = "uuids 0 1 0"
  have b1: "be_engine ?b1 = be_engine b" by (simp split: option.split)
  obtain e t where t: "ensure_runtime_token (clks 0 1) ?tid iid start (be_engine b) = (?tid, e)" "good iid ?tid i t e" "here_at start t"
    using token_made [OF assms(1)] by blast
  have "execute ser ev repr clks uuids iid payload b = (raised_or r, ?b1\<lparr>be_engine := e1\<rparr>)"
    if "bpmn_loop ser ev repr (clks \<circ> Suc) (uuids \<circ> Suc) iid model (normalize_osdm payload (pm_definition_id model)) 200 (Some start) [] [?tid] [] e =
      (r, e1)" for r e1
    using assms(2,4) t(1) b1 that by (simp add: execute_def Let_def del: bpmn_loop.simps One_nat_def)
  then show ?thesis using untyped_payload [OF assms(3), of "pm_definition_id model"] t(2,3)
    by (intro exI [where x = "normalize_osdm payload (pm_definition_id model)"] exI [where x = ?tid] exI [where x = e] exI [where x = t])
      (fastforce simp del: bpmn_loop.simps One_nat_def)
qed

lemma instance_runs:
  assumes "ready iid i (be_engine b)" "loads parse b d model start"
  shows "\<exists>tm tid e t. untyped tm \<and> good iid tid i t e \<and> here_at start t \<and>
    (\<forall>r e1. bpmn_loop (\<lambda>_. None) ev repr (\<lambda>k. clks (k + 3)) (\<lambda>k. uuids (k + 3)) iid model tm 200 (Some start) [] [tid] [] e = (r, e1) \<longrightarrow>
       (\<exists>b1. execute_instance parse (\<lambda>_. None) ev repr clks uuids iid d b =
               conclude (\<lambda>_. None) (clks 1) (uuids 1) (clks 0 2 0) iid d (raised_or r, b1) \<and> be_engine b1 = e1))"
proof -
  obtain doc p where p: "fst (get_bpmn_document parse d b) = Inr doc" "get_process_from_document doc d = Inr p"
    "normalize (execution_payload p) = Inr model" "pm_start_node model = Some start" using assms(2) unfolding loads_def by blast
  obtain b1 where b1: "get_bpmn_document parse d b = (Inr doc, b1)" "be_engine b1 = be_engine b"
    using p(1) document_engine(1) [of parse d b] by (metis prod.collapse snd_conv)
  let ?b2 = "b1\<lparr>be_contexts := snd (create_context (clks 0 0) (uuids 0 0 0) Contexts.PROCESS (Some iid) None (be_contexts b1))\<rparr>"
  obtain b3 where b3: "report_state (\<lambda>_. None) (clks 0 1 0) iid ''running'' d [] ?b2 = (None, b3)" "ready iid i (be_engine b3)"
    using assms(1) b1(2) by (simp add: report_state_def set_engine_state_eq ready_def shared_def)
  have "pl_flow_elements (execution_payload p) = []" by (simp add: execution_payload_def split: prod.split)
  from execute_runs [OF b3(2) p(3) this p(4), of "\<lambda>_. None" ev repr "\<lambda>k. clks (k + 2)" "\<lambda>k. uuids (k + 2)"]
  have "\<exists>tm tid e t. untyped tm \<and> good iid tid i t e \<and> here_at start t \<and>
    (\<forall>r e1. bpmn_loop (\<lambda>_. None) ev repr (\<lambda>k. clks (k + 3)) (\<lambda>k. uuids (k + 3)) iid model tm 200 (Some start) [] [tid] [] e = (r, e1) \<longrightarrow>
       (\<exists>b4. execute (\<lambda>_. None) ev repr (\<lambda>k. clks (k + 2)) (\<lambda>k. uuids (k + 2)) iid (execution_payload p) b3 = (raised_or r, b4) \<and> be_engine b4 = e1))"
    by (simp add: comp_def numeral_3_eq_3 del: bpmn_loop.simps)
  then show ?thesis using b1(1) b3(1) p(2) by (fastforce simp: execute_instance_def Let_def simp del: bpmn_loop.simps One_nat_def)
qed

definition shown :: "string \<Rightarrow> string \<Rightarrow> ProcessInstance \<Rightarrow> OrchestrationEngine \<Rightarrow> bool" where
  "shown iid st i e \<longleftrightarrow> engine_instance iid e = Some i \<and> map_option ss_state (sm_get iid (en_state_manager e)) = Some st"

text \<open>A state change that the instance allows, as the BPMN engine makes it.\<close>

lemma change_state_applied:
  assumes "good iid tid i t (be_engine b)" "instance_wf i" "pi_id i = iid" "requested_transition reason st = Some (op, ty)"
    and "instance_spec (pi_state i) op = Some st" "op \<noteq> Instances.Resume"
  shows "\<exists>b1 i1. change_state (\<lambda>_. None) clks uuids iid st reason b = (None, b1) \<and> engine_instance iid (be_engine b1) = Some i1 \<and>
    pi_state i1 = st \<and> tracking i1 = tracking i"
proof -
  obtain err i1 where a: "instance_apply (clks 0) op i = (err, i1)" by fastforce
  have i1: "err = None" "pi_state i1 = st" "tracking i1 = tracking i"
    using instance_apply_status [OF assms(2), where x = op and clk = "clks 0"] instance_apply_frame [where i = i and clk = "clks 0" and x = op]
      a assms(5) by simp_all
  have id: "pi_id i1 = iid" using i1(3) assms(3) by (simp add: tracking_def)
  have g: "shared (be_engine b)" "dget (en_instances (be_engine b)) iid = Some Managed" "get_instance iid (en_instance_manager (be_engine b)) = Some i"
    using assms(1) by (simp_all add: obs_def)
  have "transition_instance (clks 0) reason st i = (Inr ty, i1)" using a i1(1) assms(4,6) by (simp add: transition_instance_def)
  then obtain e1 where "update_instance_state (\<lambda>_. None) clks uuids iid st reason (be_engine b) = (None, e1)" "engine_instance iid e1 = Some i1"
    by (rule update_applied [where clks = clks and uuids = uuids, OF g id]) blast
  then show ?thesis using i1(2,3) by (simp add: change_state_def)
qed

lemma report_shown:
  assumes "engine_instance iid (be_engine b) = Some i"
  shows "\<exists>b1. report_state (\<lambda>_. None) now iid st d extra b = (None, b1) \<and> shown iid st i (be_engine b1)"
  using assms by (simp add: report_state_def set_engine_state_eq shown_def sm_get_set engine_instance_def split: option.splits instance_ref.splits)

lemma conclude_completed:
  assumes "good iid tid i t (be_engine b)" "instance_wf i" "pi_id i = iid" "pi_state i = Instances.ACTIVE" "po_completed out"
  shows "\<exists>b1 i1. conclude (\<lambda>_. None) clks uuids now iid d (Inr out, b) = (None, b1) \<and> shown iid ''completed'' i1 (be_engine b1) \<and>
    pi_state i1 = Instances.COMPLETED \<and> tracking i1 = tracking i"
proof -
  obtain b2 i1 where c: "change_state (\<lambda>_. None) clks uuids iid Instances.COMPLETED None b = (None, b2)" "engine_instance iid (be_engine b2) = Some i1"
    "pi_state i1 = Instances.COMPLETED" "tracking i1 = tracking i"
    using change_state_applied [OF assms(1-3), of None Instances.COMPLETED Instances.Complete PROCESS_INSTANCE_COMPLETED clks uuids] assms(4) by auto
  show ?thesis using report_shown [OF c(2), of now "''completed''" d "[]"] c(1,3,4) assms(5) by (auto simp: conclude_def)
qed

lemma conclude_failed:
  assumes "good iid tid i t (be_engine b)" "instance_wf i" "pi_id i = iid" "pi_state i = Instances.ACTIVE"
  shows "\<exists>b1 i1. conclude (\<lambda>_. None) clks uuids now iid d (Inl err, b) = (Some err, b1) \<and> shown iid ''failed'' i1 (be_engine b1) \<and>
    pi_state i1 = Instances.FAILED \<and> tracking i1 = tracking i"
proof -
  obtain b2 i1 where c: "change_state (\<lambda>_. None) clks uuids iid Instances.FAILED (Some (exception_text err)) b = (None, b2)"
    "engine_instance iid (be_engine b2) = Some i1" "pi_state i1 = Instances.FAILED" "tracking i1 = tracking i"
    using change_state_applied [OF assms(1-3), of "Some (exception_text err)" Instances.FAILED _ ERROR_THROWN clks uuids] assms(4) by auto
  obtain b1 where "report_state (\<lambda>_. None) now iid ''failed'' d [(''error'', PStr (exception_text err))] b2 = (None, b1)"
    "shown iid ''failed'' i1 (be_engine b1)" using report_shown [OF c(2)] by blast
  with c show ?thesis by (auto simp: conclude_def)
qed

lemma conclude_stalled:
  assumes "good iid tid i t (be_engine b)" "pi_state i = Instances.ACTIVE" "\<not> po_completed out" "\<not> po_waiting out"
  shows "\<exists>b1. conclude (\<lambda>_. None) clks uuids now iid d (Inr out, b) = (None, b1) \<and> shown iid ''active'' i (be_engine b1)"
proof -
  have i: "engine_instance iid (be_engine b) = Some i" by (rule obs_instance(3) [OF assms(1)])
  from report_shown [OF i, of now "''active''" d "[(''current_node'', opt_str (po_current_node out))]"] show ?thesis
    using i assms(2-4) by (simp add: conclude_def)
qed

subsection \<open>Starting a BPMN instance\<close>

definition startable :: "OrchestrationEngine \<Rightarrow> string \<Rightarrow> ProcessDefinition \<Rightarrow> string \<Rightarrow> datetime \<Rightarrow> pydict \<Rightarrow> bool" where
  "startable e key d uuid now vars \<longleftrightarrow>
     en_reach e \<and> dget (reg_definitions (en_registry e)) key = Some d \<and> \<not> pd_is_suspended d \<and> pd_definition_type d = ''bpmn'' \<and>
     dict_ok vars \<and> (\<forall>(n, v) \<in> set vars. is_ok (type_name v)) \<and> valid_datetime now \<and> uuid \<noteq> [] \<and>
     get_instance_tokens uuid (en_token_manager e) = [] \<and>
     (\<exists>r. vm_repository (en_variable_manager e) = Some r \<and> get_by_instance uuid r = [] \<and>
        (\<forall>n \<in> set (dkeys vars). dget r (variable_key uuid uuid n) = None))"

lemma started_with_handler:
  assumes "dget (reg_definitions (en_registry e)) key = Some d" "hs (pd_definition_type d) = Some h"
    and "start_process_instance ser (\<lambda>_. None) now uuid clks uuids key bkey vars tenant e = (Inr u, e1)"
  shows "start_process_instance ser hs now uuid clks uuids key bkey vars tenant e =
    (case h uuid d e1 of (Some err, e2) \<Rightarrow> (Inl err, e2) | (None, e2) \<Rightarrow> (Inr uuid, e2))"
  using assms
  by (auto simp: start_process_instance_def start_instance_def Let_def new_instance_def split: prod.splits option.splits if_splits)

lemma started_run:
  assumes "startable e key d uuid now vars" "loads parse b d model start"
  shows "\<exists>tm tid e0 t i. untyped tm \<and> good uuid tid i t e0 \<and> here_at start t \<and>
    instance_wf i \<and> pi_id i = uuid \<and> pi_state i = Instances.ACTIVE \<and> dict_ok (pi_variables i) \<and>
    pi_execution_path i = [] \<and> pi_completed_activities i = [] \<and>
    (\<forall>r e1. bpmn_loop (\<lambda>_. None) ev repr (\<lambda>k. bclks (k + 3)) (\<lambda>k. buuids (k + 3)) uuid model tm 200 (Some start) [] [tid] [] e0 = (r, e1) \<longrightarrow>
       (\<exists>b1. start_process_instance (\<lambda>_. None) (bpmn_handler parse (\<lambda>_. None) ev repr bclks buuids b) now uuid clks uuids key bkey vars tenant e =
          (case conclude (\<lambda>_. None) (bclks 1) (buuids 1) (bclks 0 2 0) uuid d (raised_or r, b1) of
             (Some err, b2) \<Rightarrow> (Inl err, be_engine b2) | (None, b2) \<Rightarrow> (Inr uuid, be_engine b2)) \<and> be_engine b1 = e1))"
proof -
  obtain r where s: "en_reach e" "dget (reg_definitions (en_registry e)) key = Some d" "\<not> pd_is_suspended d" "dict_ok vars"
    "\<forall>(n, v) \<in> set vars. is_ok (type_name v)" "vm_repository (en_variable_manager e) = Some r" "get_by_instance uuid r = []"
    "\<forall>n \<in> set (dkeys vars). dget r (variable_key uuid uuid n) = None" "valid_datetime now" "uuid \<noteq> []"
    "pd_definition_type d = ''bpmn''" "get_instance_tokens uuid (en_token_manager e) = []"
    using assms(1) unfolding startable_def by blast
  obtain e1 i where st: "start_process_instance (\<lambda>_. None) (\<lambda>_. None) now uuid clks uuids key bkey vars tenant e = (Inr uuid, e1)"
    "dget (en_instances e1) uuid = Some Managed" "pi_id i = uuid" "instance_wf i" "get_instance uuid (en_instance_manager e1) = Some i"
    "pi_state i = Instances.ACTIVE" "pi_variables i = vars" "vm_repository (en_variable_manager e1) \<noteq> None" "shared e1"
    "en_token_manager e1 = en_token_manager e" "pi_execution_path i = []" "pi_completed_activities i = []"
    using started_instance [OF s(1-3) _ s(4-10), of "\<lambda>_. None" clks uuids bkey tenant] by blast
  have rdy: "ready uuid i (be_engine (b\<lparr>be_engine := e1\<rparr>))" using st s(12) by (simp add: ready_def)
  have ld: "loads parse (b\<lparr>be_engine := e1\<rparr>) d model start" using assms(2) by (simp add: loads_def document_engine(2))
  let ?hs = "bpmn_handler parse (\<lambda>_. None) ev repr bclks buuids b"
  let ?run = "\<lambda>iid d e. case execute_instance parse (\<lambda>_. None) ev repr bclks buuids iid d (b\<lparr>be_engine := e\<rparr>) of (err, b1) \<Rightarrow> (err, be_engine b1)"
  have h: "?hs (pd_definition_type d) = Some ?run" using s(11) by (simp add: bpmn_handler_def)
  have run: "start_process_instance (\<lambda>_. None) ?hs now uuid clks uuids key bkey vars tenant e =
      (case execute_instance parse (\<lambda>_. None) ev repr bclks buuids uuid d (b\<lparr>be_engine := e1\<rparr>) of
         (Some err, b2) \<Rightarrow> (Inl err, be_engine b2) | (None, b2) \<Rightarrow> (Inr uuid, be_engine b2))"
    unfolding started_with_handler [where hs = ?hs and h = ?run, OF s(2) h st(1)] by (simp split: prod.split option.split)
  obtain tm tid e0 t where l: "untyped tm" "good uuid tid i t e0" "here_at start t"
    "\<forall>r e2. bpmn_loop (\<lambda>_. None) ev repr (\<lambda>k. bclks (k + 3)) (\<lambda>k. buuids (k + 3)) uuid model tm 200 (Some start) [] [tid] [] e0 = (r, e2) \<longrightarrow>
       (\<exists>b1. execute_instance parse (\<lambda>_. None) ev repr bclks buuids uuid d (b\<lparr>be_engine := e1\<rparr>) =
               conclude (\<lambda>_. None) (bclks 1) (buuids 1) (bclks 0 2 0) uuid d (raised_or r, b1) \<and> be_engine b1 = e2)"
    using instance_runs [OF rdy ld, of ev repr bclks buuids] by blast
  show ?thesis unfolding run
  proof (intro exI conjI)
    show "untyped tm" "good uuid tid i t e0" "here_at start t" by (fact l)+
    show "instance_wf i" "pi_id i = uuid" "pi_state i = Instances.ACTIVE" "pi_execution_path i = []" "pi_completed_activities i = []" by (fact st)+
    show "dict_ok (pi_variables i)" using s(4) st(7) by simp
  qed (use l(4) in fastforce)
qed

text \<open>What the loop gives for a token that has just been made for a new instance.\<close>

definition loop_gives ::
  "evaluator \<Rightarrow> (nat \<Rightarrow> string) \<Rightarrow> (nat \<Rightarrow> nat \<Rightarrow> clock) \<Rightarrow> (nat \<Rightarrow> nat \<Rightarrow> nat \<Rightarrow> string) \<Rightarrow> string \<Rightarrow> ProcessModel \<Rightarrow> string
    \<Rightarrow> ProcessExecutionOutcome result \<Rightarrow> (ProcessInstance \<Rightarrow> bool) \<Rightarrow> bool" where
  "loop_gives ev repr clks uuids iid model start res P \<longleftrightarrow>
     (\<forall>tm tid e t i. untyped tm \<and> good iid tid i t e \<and> here_at start t \<and> dict_ok (pi_variables i) \<and>
        pi_execution_path i = [] \<and> pi_completed_activities i = [] \<longrightarrow>
        (\<exists>r e1 i1 t1. bpmn_loop (\<lambda>_. None) ev repr clks uuids iid model tm 200 (Some start) [] [tid] [] e = (r, e1) \<and>
           raised_or r = res \<and> good iid tid i1 t1 e1 \<and> pi_id i1 = pi_id i \<and> pi_state i1 = pi_state i \<and> pi_state_obj i1 = pi_state_obj i \<and> P i1))"

lemma started_outcome:
  assumes "startable e key d uuid now vars" "loads parse b d model start"
    and loop: "loop_gives ev repr (\<lambda>k. bclks (k + 3)) (\<lambda>k. buuids (k + 3)) uuid model start res P"
  obtains b1 i1 t1 tid where "start_process_instance (\<lambda>_. None) (bpmn_handler parse (\<lambda>_. None) ev repr bclks buuids b) now uuid clks uuids key bkey vars tenant e =
      (case conclude (\<lambda>_. None) (bclks 1) (buuids 1) (bclks 0 2 0) uuid d (res, b1) of
         (Some err, b2) \<Rightarrow> (Inl err, be_engine b2) | (None, b2) \<Rightarrow> (Inr uuid, be_engine b2))"
    "good uuid tid i1 t1 (be_engine b1)" "instance_wf i1" "pi_id i1 = uuid" "pi_state i1 = Instances.ACTIVE" "P i1"
proof -
  obtain tm tid e0 t i where r: "untyped tm" "good uuid tid i t e0" "here_at start t" "instance_wf i" "pi_id i = uuid"
    "pi_state i = Instances.ACTIVE" "dict_ok (pi_variables i)" "pi_execution_path i = []" "pi_completed_activities i = []"
    and conc: "\<And>r e1. bpmn_loop (\<lambda>_. None) ev repr (\<lambda>k. bclks (k + 3)) (\<lambda>k. buuids (k + 3)) uuid model tm 200 (Some start) [] [tid] [] e0 = (r, e1) \<Longrightarrow>
       \<exists>b1. start_process_instance (\<lambda>_. None) (bpmn_handler parse (\<lambda>_. None) ev repr bclks buuids b) now uuid clks uuids key bkey vars tenant e =
          (case conclude (\<lambda>_. None) (bclks 1) (buuids 1) (bclks 0 2 0) uuid d (raised_or r, b1) of
             (Some err, b2) \<Rightarrow> (Inl err, be_engine b2) | (None, b2) \<Rightarrow> (Inr uuid, be_engine b2)) \<and> be_engine b1 = e1"
    using started_run [OF assms(1,2), of ev repr bclks buuids clks uuids bkey tenant] by blast
  obtain x e1 i1 t1 where l: "bpmn_loop (\<lambda>_. None) ev repr (\<lambda>k. bclks (k + 3)) (\<lambda>k. buuids (k + 3)) uuid model tm 200 (Some start) [] [tid] [] e0 = (x, e1)"
    "raised_or x = res" "good uuid tid i1 t1 e1" "pi_id i1 = pi_id i" "pi_state i1 = pi_state i" "pi_state_obj i1 = pi_state_obj i" "P i1"
    using loop r(1-3,7-9) unfolding loop_gives_def by blast
  have wf: "instance_wf i1" using r(4) l(5,6) by (simp add: instance_wf_def)
  obtain b1 where b1: "start_process_instance (\<lambda>_. None) (bpmn_handler parse (\<lambda>_. None) ev repr bclks buuids b) now uuid clks uuids key bkey vars tenant e =
      (case conclude (\<lambda>_. None) (bclks 1) (buuids 1) (bclks 0 2 0) uuid d (res, b1) of
         (Some err, b2) \<Rightarrow> (Inl err, be_engine b2) | (None, b2) \<Rightarrow> (Inr uuid, be_engine b2))" "be_engine b1 = e1"
    using conc [OF l(1)] unfolding l(2) by blast
  show ?thesis by (rule that [OF b1(1) _ wf _ _ l(7)]) (use b1(2) l(3-5) r(5,6) in simp_all)
qed

text \<open>A path of nodes that pass, up to its last node.\<close>

lemma path_gives:
  assumes "leads ev model (cs @ [c])" "\<forall>x \<in> set cs. station repr model x" "distinct cs" "c \<noteq> []" "length cs < 200"
    and last: "\<And>tm tid e t i. untyped tm \<Longrightarrow> good iid tid i t e \<Longrightarrow> here_at c t \<Longrightarrow> dict_ok (pi_variables i) \<Longrightarrow> pi_execution_path i = cs \<Longrightarrow>
      map act_activity_id (pi_completed_activities i) = cs \<Longrightarrow>
      \<exists>r e1 i1 t1. bpmn_loop (\<lambda>_. None) ev repr (\<lambda>k. clks (k + length cs)) (\<lambda>k. uuids (k + length cs)) iid model tm (Suc (199 - length cs)) (Some c)
          (rev cs @ []) [tid] [] e = (r, e1) \<and>
        raised_or r = res \<and> good iid tid i1 t1 e1 \<and> pi_id i1 = pi_id i \<and> pi_state i1 = pi_state i \<and> pi_state_obj i1 = pi_state_obj i \<and> P i1"
  shows "loop_gives ev repr clks uuids iid model (hd (cs @ [c])) res P"
  unfolding loop_gives_def
proof (intro allI impI, elim conjE)
  fix tm tid e t i
  assume a: "untyped tm" "good iid tid i t e" "here_at (hd (cs @ [c])) t" "dict_ok (pi_variables i)" "pi_execution_path i = []" "pi_completed_activities i = []"
  have n: "length cs \<le> 200" "200 - length cs = Suc (199 - length cs)" using assms(5) by simp_all
  obtain e1 i1 t1 where p: "bpmn_loop (\<lambda>_. None) ev repr clks uuids iid model tm 200 (Some (hd (cs @ [c]))) [] [tid] [] e =
      bpmn_loop (\<lambda>_. None) ev repr (\<lambda>k. clks (k + length cs)) (\<lambda>k. uuids (k + length cs)) iid model tm (200 - length cs) (Some c) (rev cs @ []) [tid] [] e1"
    "good iid tid i1 t1 e1" "here_at c t1" "advanced cs i i1"
    using loop_prefix [OF assms(1-3) _ assms(4) a(1) n(1) a(2-4), of "[]" "\<lambda>_. None" clks uuids "[]"] by (auto simp del: bpmn_loop.simps)
  have i1: "dict_ok (pi_variables i1)" "pi_execution_path i1 = cs" "map act_activity_id (pi_completed_activities i1) = cs"
    "pi_id i1 = pi_id i" "pi_state i1 = pi_state i" "pi_state_obj i1 = pi_state_obj i"
    using p(4) a(4-6) by (simp_all add: advanced_def)
  from last [OF a(1) p(2,3) i1(1-3)] show "\<exists>r e1 i1 t1. bpmn_loop (\<lambda>_. None) ev repr clks uuids iid model tm 200 (Some (hd (cs @ [c]))) [] [tid] [] e = (r, e1) \<and>
      raised_or r = res \<and> good iid tid i1 t1 e1 \<and> pi_id i1 = pi_id i \<and> pi_state i1 = pi_state i \<and> pi_state_obj i1 = pi_state_obj i \<and> P i1"
    unfolding p(1) n(2) i1(4-6) .
qed



definition demo_node :: "string \<Rightarrow> node_class \<Rightarrow> pydict \<Rightarrow> flow_node" where
  "demo_node i c attrs = \<lparr>fn_id = i, fn_name = None, fn_class = c, fn_attrs = attrs\<rparr>"

definition demo_elements :: "flow_node list \<Rightarrow> (string \<times> string) list \<Rightarrow> (string, flow_element) dict" where
  "demo_elements ns fs =
     map (\<lambda>n. (fn_id n, NodeElement n)) ns @
     map (\<lambda>(a, b). (a @ ''-'' @ b, FlowElement \<lparr>sf_id = a @ ''-'' @ b, sf_source_ref = Some a, sf_target_ref = Some b, sf_condition_expression = None,
       sf_source_ref_id = Some a, sf_target_ref_id = Some b\<rparr>)) fs"

definition demo_parser :: "flow_node list \<Rightarrow> (string \<times> string) list \<Rightarrow> bpmn_parser" where
  "demo_parser ns fs = (\<lambda>_ _ _. Inr (Some [\<lparr>bp_id = ''order'', bp_name = None, bp_is_executable = True, bp_flow_elements = demo_elements ns fs\<rparr>]))"

definition demo_bpmn :: BPMNEngine where
  "demo_bpmn = \<lparr>be_engine = demo_deployed, be_contexts = context_manager_init None, be_parsed_documents = []\<rparr>"

definition demo_flow_node :: "string \<Rightarrow> flow_node" where
  "demo_flow_node i = (if i = ''s'' then demo_node i StartEvent [(''event_type'', PStr ''Start'')] else demo_node i Task [])"

definition demo_model :: "flow_node list \<Rightarrow> (string \<times> string) list \<Rightarrow> ProcessModel" where
  "demo_model ns fs = \<lparr>pm_definition_id = ''order'', pm_start_node = Some ''s'', pm_activities = ns,
     pm_flows = map (\<lambda>(a, b). \<lparr>hf_flow_id = a @ ''-'' @ b, hf_source_ref = a, hf_target_ref = b, hf_condition_expression = None, hf_is_default = False\<rparr>) fs\<rparr>"

lemma demo_startable:
  obtains d where "startable demo_deployed ''order'' d ''i'' 0 []"
proof -
  obtain d where "dget (reg_definitions demo_registry) ''order'' = Some d" "\<not> pd_is_suspended d" "pd_definition_type d = ''bpmn''"
    by (simp add: demo_registry_def register_deployment_def deploy_resource_def Let_def versions_def parse_definition_def
      file_definition_def extract_key_def detect_type_def lower_char_def attribute_at_def registry_init_def append_to_def dget_or_def
      demo_ids_def)
  then have "startable demo_deployed ''order'' d ''i'' 0 []"
    using demo_deployed_state valid_epoch
    by (simp add: startable_def get_by_instance_def repo_list_def get_instance_tokens_def token_manager_init_def idx_get_def select_def dget_or_def)
  then show ?thesis by (rule that)
qed

text \<open>A start event, a task and whatever node comes last, with a flow from each to the next.\<close>

definition demo_nodes :: "pydict \<Rightarrow> flow_node list" where
  "demo_nodes attrs = [demo_node ''s'' StartEvent [(''event_type'', PStr ''Start'')], demo_node ''a'' Task [], demo_node ''e'' Task attrs]"

lemma demo_loads:
  assumes "fs \<in> {[(''s'', ''a''), (''a'', ''e'')], [(''s'', ''a''), (''a'', ''s'')]}"
  shows "loads (demo_parser (demo_nodes attrs) fs) demo_bpmn d (demo_model (demo_nodes attrs) fs) ''s''"
proof -
  let ?p = "\<lparr>bp_id = ''order'', bp_name = None, bp_is_executable = True, bp_flow_elements = demo_elements (demo_nodes attrs) fs\<rparr>"
  let ?flow = "\<lambda>(a, b). convert_flow \<lparr>sf_id = a @ ''-'' @ b, sf_source_ref = Some a, sf_target_ref = Some b, sf_condition_expression = None,
    sf_source_ref_id = Some a, sf_target_ref_id = Some b\<rparr>"
  have c: "convert_elements (demo_elements (demo_nodes attrs) fs) = (demo_nodes attrs, map ?flow fs)"
    using assms by (elim insertE emptyE) (simp_all add: convert_elements_def demo_elements_def demo_nodes_def demo_node_def map_filter_simps
        activity_classes_def task_classes_def event_classes_def)
  have s: "find_start_node (demo_elements (demo_nodes attrs) fs) = Some ''s''"
    by (simp add: find_start_node_def demo_elements_def demo_nodes_def demo_node_def map_filter_simps event_classes_def pget_def dget_or_def)
  have f: "dict_to_handler_flow (?flow (a, b)) = Inr \<lparr>hf_flow_id = a @ ''-'' @ b, hf_source_ref = a, hf_target_ref = b, hf_condition_expression = None,
      hf_is_default = False\<rparr>" if "a \<noteq> []" "b \<noteq> []" for a b
  proof -
    let ?d = "[(''id'', PStr (a @ ''-'' @ b)), (''source'', PStr a), (''target'', PStr b), (''sourceRef'', PStr a), (''targetRef'', PStr b)]"
    have "?flow (a, b) = ?d" using that by (simp add: convert_flow_def nonempty_opt_def Let_def)
    moreover have "pget ?d ''source'' = PStr a" "pget ?d ''target'' = PStr b" "pget ?d ''sourceRef'' = PStr a" "pget ?d ''targetRef'' = PStr b"
      "pget ?d ''source_id'' = PNone" "pget ?d ''target_id'' = PNone" "pget ?d ''condition'' = PNone" "pget ?d ''conditionExpression'' = PNone"
      "pget_or ?d ''id'' (PStr []) = PStr (a @ ''-'' @ b)" "pget_or ?d ''isDefault'' (pget_or ?d ''is_default'' (PBool False)) = PBool False"
      by (simp_all add: pget_def dget_or_def)
    ultimately show ?thesis using that by (simp add: dict_to_handler_flow_def por_def)
  qed
  have "mapr dict_to_handler_flow (map ?flow fs) = Inr (pm_flows (demo_model (demo_nodes attrs) fs))"
    using assms f [of "''s''" "''a''"] f [of "''a''" "''e''"] f [of "''a''" "''s''"] by (elim insertE emptyE) (simp_all add: demo_model_def)
  then have "normalize (execution_payload ?p) = Inr (demo_model (demo_nodes attrs) fs)"
    using c s by (simp add: normalize_def execution_payload_def nonempty_opt_def demo_model_def)
  then show ?thesis
    by (auto simp: loads_def demo_parser_def demo_bpmn_def get_bpmn_document_def get_process_from_document_def demo_model_def)
qed

lemma demo_leads:
  assumes "fs \<in> {[(''s'', ''a''), (''a'', ''e'')], [(''s'', ''a''), (''a'', ''s'')]}"
  shows "targets ev (demo_model ns fs) ''s'' = [''a'']" "targets ev (demo_model ns fs) ''a'' = (if fs = [(''s'', ''a''), (''a'', ''e'')] then [''e''] else [''s''])"
    "targets ev (demo_model ns fs) ''e'' = []"
  using assms by (auto simp: targets_def next_nodes_handler_def demo_model_def nonempty_opt_def)

lemma demo_stations:
  "station repr (demo_model (demo_nodes attrs) fs) ''s''" "station repr (demo_model (demo_nodes attrs) fs) ''a''"
  "attrs = [] \<Longrightarrow> station repr (demo_model (demo_nodes attrs) fs) ''e''"
  by (simp_all add: station_def find_activity_def demo_model_def demo_nodes_def demo_node_def plain_node_passes pget_def dget_or_def event_classes_def)





definition demo_io :: pydict where
  "demo_io = [(''io_specification'', PDict [(''__class__'', PStr ''InputOutputSpecification''), (''data_inputs'', PList []), (''data_outputs'', PList [])])]"


end
