(* ===== verification/StateMachines.thy ===== *)
theory StateMachines
  imports BpmnExecution
begin

section \<open>The state machine engine\<close>

text \<open>
  \<open>state_machine/\<close>: the choice of transitions, the handlers of histories, regions and hierarchies, the executor of
  state machines that are given as dicts, and the engine that runs it for an instance.  The evaluator of expressions is
  a parameter.  Ids of states are strings, as the annotations say; a definition with another id is not modelled.
  The records leave out the fields that no operation reads (names, descriptions, payloads, the region of an entry, the
  parents and children of a context).
\<close>

subsection \<open>Transitions\<close>

definition get_outgoing_transitions :: "string \<Rightarrow> pydict list \<Rightarrow> pydict list" where
  "get_outgoing_transitions cur ts = filter (\<lambda>t. pget_or t ''source'' (pget_or t ''sourceRef'' (PStr [])) = PStr cur) ts"

definition matches_trigger :: "pyval \<Rightarrow> pydict \<Rightarrow> bool result" where
  "matches_trigger trigger ctx =
     bindr (py_str trigger) (\<lambda>s.
       (let t = pget ctx (''trigger.'' @ s); e = pget ctx (''event.'' @ s)
        in Inr (if t \<noteq> PNone then truthy t else if e \<noteq> PNone then truthy e else False)))"

text \<open>The guard, then the trigger of a transition.\<close>

definition transition_enabled :: "evaluator \<Rightarrow> pydict \<Rightarrow> pydict \<Rightarrow> bool result" where
  "transition_enabled ev ctx t =
     bindr (if truthy (pget t ''guard'') then evaluate_condition ev ctx (pget t ''guard'') else Inr True) (\<lambda>ok.
       if \<not> ok then Inr False
       else if truthy (pget t ''trigger'') then matches_trigger (pget t ''trigger'') ctx else Inr True)"

fun get_available :: "evaluator \<Rightarrow> pydict \<Rightarrow> pydict list \<Rightarrow> pydict list result" where
  "get_available ev ctx [] = Inr []"
| "get_available ev ctx (t # ts) =
     bindr (transition_enabled ev ctx t) (\<lambda>ok. bindr (get_available ev ctx ts) (\<lambda>us. Inr (if ok then t # us else us)))"

definition get_available_transitions :: "evaluator \<Rightarrow> string \<Rightarrow> pydict list \<Rightarrow> pydict \<Rightarrow> pydict list result" where
  "get_available_transitions ev cur ts ctx = get_available ev ctx (get_outgoing_transitions cur ts)"

text \<open>\<open>max(xs, key=...)\<close>: the first of the greatest; a single element is not compared.\<close>

fun max_loop :: "int \<Rightarrow> 'a \<Rightarrow> (int \<times> 'a) list \<Rightarrow> 'a" where
  "max_loop p x [] = x"
| "max_loop p x ((q, y) # ys) = (if q > p then max_loop q y ys else max_loop p x ys)"

definition max_priority :: "pydict list \<Rightarrow> pydict option result" where
  "max_priority ts =
     (case ts of
        [] \<Rightarrow> Inr None
      | [t] \<Rightarrow> Inr (Some t)
      | _ \<Rightarrow> bindr (mapr (\<lambda>t. bindr (py_int (pget_or t ''priority'' (PInt 0))) (\<lambda>p. Inr (p, t))) ts) (\<lambda>ps.
               Inr (case ps of [] \<Rightarrow> None | (p, t) # qs \<Rightarrow> Some (max_loop p t qs))))"

definition chosen :: "string \<Rightarrow> pydict \<Rightarrow> pydict" where
  "chosen cur t =
     [(''id'', pget t ''id''), (''source'', PStr cur), (''target'', pget_or t ''target'' (PStr [])), (''trigger'', pget t ''trigger''),
      (''actions'', pget_or t ''actions'' (PList [])), (''kind'', pget_or t ''kind'' (PStr ''external''))]"

definition resolve :: "evaluator \<Rightarrow> string \<Rightarrow> pydict list \<Rightarrow> pydict \<Rightarrow> pydict option result" where
  "resolve ev cur ts ctx =
     (let outgoing = get_outgoing_transitions cur ts
      in bindr (get_available ev ctx outgoing) (\<lambda>candidates.
           if candidates = []
           then max_priority (filter (\<lambda>t. \<not> truthy (pget t ''guard'') \<and> \<not> truthy (pget t ''trigger'')) outgoing)
           else bindr (max_priority candidates) (\<lambda>m. Inr (map_option (chosen cur) m))))"

subsection \<open>Guards, histories and regions\<close>

record GuardCondition =
  gc_expression :: string
  gc_guard_id :: "string option"

type_synonym GuardEvaluator = "(string, GuardCondition) dict"

definition guard_register :: "GuardCondition \<Rightarrow> GuardEvaluator \<Rightarrow> GuardEvaluator" where
  "guard_register c g = dset (case nonempty_opt (gc_guard_id c) of s # _ \<Rightarrow> s | [] \<Rightarrow> gc_expression c) c g"

definition guard_evaluate :: "evaluator \<Rightarrow> string \<Rightarrow> pydict \<Rightarrow> bool result" where
  "guard_evaluate ev s ctx = evaluate_condition ev ctx (PStr s)"

definition evaluate_guard :: "evaluator \<Rightarrow> string \<Rightarrow> pydict \<Rightarrow> GuardEvaluator \<Rightarrow> bool result" where
  "evaluate_guard ev gid ctx g = (case dget g gid of None \<Rightarrow> Inr False | Some c \<Rightarrow> guard_evaluate ev (gc_expression c) ctx)"

definition evaluate_all_guards :: "evaluator \<Rightarrow> pydict \<Rightarrow> GuardEvaluator \<Rightarrow> (string, bool) dict result" where
  "evaluate_all_guards ev ctx g = mapr (\<lambda>(k, c). bindr (guard_evaluate ev (gc_expression c) ctx) (\<lambda>ok. Inr (k, ok))) g"

record HistoryEntry =
  he_instance_id :: string
  he_source_state :: string
  he_target_state :: string
  he_trigger :: pyval
  he_timestamp :: string

record StateMachineHistory =
  smh_history :: "(string, HistoryEntry list) dict"
  smh_shallow_history :: "(string, (string, string) dict) dict"
  smh_deep_history :: "(string, (string, string list) dict) dict"

definition history_init :: StateMachineHistory where
  "history_init = \<lparr>smh_history = [], smh_shallow_history = [], smh_deep_history = []\<rparr>"

definition history_push :: "datetime \<Rightarrow> string \<Rightarrow> string \<Rightarrow> string \<Rightarrow> pyval \<Rightarrow> StateMachineHistory \<Rightarrow> StateMachineHistory" where
  "history_push now iid src tgt trigger h =
     h\<lparr>smh_history := dset iid (dget_or (smh_history h) iid [] @
         [\<lparr>he_instance_id = iid, he_source_state = src, he_target_state = tgt, he_trigger = trigger, he_timestamp = isoformat now\<rparr>]) (smh_history h)\<rparr>"

definition get_transition_history :: "string \<Rightarrow> StateMachineHistory \<Rightarrow> pydict list" where
  "get_transition_history iid h =
     map (\<lambda>e. [(''source'', PStr (he_source_state e)), (''target'', PStr (he_target_state e)), (''trigger'', he_trigger e),
               (''timestamp'', PStr (he_timestamp e))]) (dget_or (smh_history h) iid [])"

definition record_shallow_history :: "string \<Rightarrow> string \<Rightarrow> string \<Rightarrow> StateMachineHistory \<Rightarrow> StateMachineHistory" where
  "record_shallow_history iid rid sid h =
     h\<lparr>smh_shallow_history := dset iid (dset rid sid (dget_or (smh_shallow_history h) iid [])) (smh_shallow_history h)\<rparr>"

definition get_shallow_history :: "string \<Rightarrow> string \<Rightarrow> StateMachineHistory \<Rightarrow> string option" where
  "get_shallow_history iid rid h = dget (dget_or (smh_shallow_history h) iid []) rid"

definition record_deep_history :: "string \<Rightarrow> string \<Rightarrow> string list \<Rightarrow> StateMachineHistory \<Rightarrow> StateMachineHistory" where
  "record_deep_history iid rid sts h =
     h\<lparr>smh_deep_history := dset iid (dset rid sts (dget_or (smh_deep_history h) iid [])) (smh_deep_history h)\<rparr>"

definition get_deep_history :: "string \<Rightarrow> string \<Rightarrow> StateMachineHistory \<Rightarrow> string list option" where
  "get_deep_history iid rid h = dget (dget_or (smh_deep_history h) iid []) rid"

definition get_last_transition :: "string \<Rightarrow> StateMachineHistory \<Rightarrow> HistoryEntry option" where
  "get_last_transition iid h = (case dget_or (smh_history h) iid [] of [] \<Rightarrow> None | es \<Rightarrow> Some (last es))"

definition history_clear :: "string \<Rightarrow> StateMachineHistory \<Rightarrow> StateMachineHistory" where
  "history_clear iid h =
     \<lparr>smh_history = ddel iid (smh_history h), smh_shallow_history = ddel iid (smh_shallow_history h),
      smh_deep_history = ddel iid (smh_deep_history h)\<rparr>"

definition get_transition_count :: "string \<Rightarrow> StateMachineHistory \<Rightarrow> nat" where
  "get_transition_count iid h = length (dget_or (smh_history h) iid [])"

record RegionState =
  rs_region_id :: string
  rs_states :: "string list"
  rs_current_state :: "string option"
  rs_is_active :: bool
  rs_is_completed :: bool
  rs_initial_state :: "string option"

type_synonym ParallelStateHandler = "(string, RegionState) dict"

definition register_region :: "RegionState \<Rightarrow> ParallelStateHandler \<Rightarrow> ParallelStateHandler" where
  "register_region r p = dset (rs_region_id r) r p"

definition change_region :: "string \<Rightarrow> (RegionState \<Rightarrow> RegionState) \<Rightarrow> ParallelStateHandler \<Rightarrow> ParallelStateHandler" where
  "change_region rid f p = (case dget p rid of None \<Rightarrow> p | Some r \<Rightarrow> dset rid (f r) p)"

definition activate_region :: "string \<Rightarrow> ParallelStateHandler \<Rightarrow> ParallelStateHandler" where
  "activate_region rid =
     change_region rid (\<lambda>r. (r\<lparr>rs_is_active := True\<rparr>)\<lparr>rs_current_state :=
       (if nonempty_opt (rs_initial_state r) \<noteq> [] then rs_initial_state r else rs_current_state r)\<rparr>)"

definition deactivate_region :: "string \<Rightarrow> ParallelStateHandler \<Rightarrow> ParallelStateHandler" where
  "deactivate_region rid = change_region rid (\<lambda>r. r\<lparr>rs_is_active := False\<rparr>)"

definition complete_region :: "string \<Rightarrow> string option \<Rightarrow> ParallelStateHandler \<Rightarrow> ParallelStateHandler" where
  "complete_region rid final =
     change_region rid (\<lambda>r. r\<lparr>rs_is_active := False, rs_is_completed := True,
       rs_current_state := (if nonempty_opt final \<noteq> [] then final else rs_current_state r)\<rparr>)"

definition are_all_regions_complete :: "ParallelStateHandler \<Rightarrow> bool" where
  "are_all_regions_complete p = list_all (\<lambda>r. rs_is_active r \<longrightarrow> rs_is_completed r) (dvals p)"

definition check_join :: "string list \<Rightarrow> ParallelStateHandler \<Rightarrow> bool" where
  "check_join rids p = list_all (\<lambda>rid. case dget p rid of None \<Rightarrow> True | Some r \<Rightarrow> rs_is_completed r) rids"

definition get_active_regions :: "ParallelStateHandler \<Rightarrow> string list" where
  "get_active_regions p = map fst (filter (\<lambda>(k, r). rs_is_active r) p)"

definition get_completed_regions :: "ParallelStateHandler \<Rightarrow> string list" where
  "get_completed_regions p = map fst (filter (\<lambda>(k, r). rs_is_completed r) p)"

definition is_region_complete :: "string \<Rightarrow> ParallelStateHandler \<Rightarrow> bool" where
  "is_region_complete rid p = (case dget p rid of None \<Rightarrow> False | Some r \<Rightarrow> rs_is_completed r)"

subsection \<open>Actions\<close>

record StateAction =
  sa_action_id :: string
  sa_action_type :: string
  sa_expression :: "string option"
  sa_target_variable :: "string option"

type_synonym ActionExecutor = "(string, StateAction) dict"

definition action_register :: "StateAction \<Rightarrow> ActionExecutor \<Rightarrow> ActionExecutor" where
  "action_register a x = dset (sa_action_id a) a x"

definition execute_action :: "evaluator \<Rightarrow> string \<Rightarrow> StateAction \<Rightarrow> ProcessInstance \<Rightarrow> pydict result \<times> ProcessInstance" where
  "execute_action ev sid a i =
     (let res = [(''action_id'', PStr (sa_action_id a)), (''type'', PStr (sa_action_type a))]
      in case nonempty_opt (sa_expression a) of
           [] \<Rightarrow> (Inr res, i)
         | x # _ \<Rightarrow>
             (case ev x (pi_variables i) of
                Inl err \<Rightarrow> (Inl (RuntimeError (''Action '' @ sa_action_id a @ '' failed: '' @ exception_text err)), i)
              | Inr v \<Rightarrow>
                  (Inr (res @ [(''result'', v)]),
                   pi_set_variable (case nonempty_opt (sa_target_variable a) of
                       s # _ \<Rightarrow> s
                     | [] \<Rightarrow> ''state.'' @ sid @ ''.'' @ sa_action_type a @ ''.'' @ sa_action_id a) v i)))"

fun run_actions :: "evaluator \<Rightarrow> string \<Rightarrow> StateAction list \<Rightarrow> ProcessInstance \<Rightarrow> pydict result \<times> ProcessInstance" where
  "run_actions ev sid [] i = (Inr [], i)"
| "run_actions ev sid (a # as) i =
     (case execute_action ev sid a i of
        (Inl err, i1) \<Rightarrow> (Inl err, i1)
      | (Inr r, i1) \<Rightarrow>
          (case run_actions ev sid as i1 of
             (Inl err, i2) \<Rightarrow> (Inl err, i2)
           | (Inr rs, i2) \<Rightarrow> (Inr ((sa_action_id a, PDict r) # rs), i2)))"

text \<open>\<open>execute_entry\<close>, \<open>execute_exit\<close> and \<open>execute_do\<close>\<close>

definition execute_kind :: "evaluator \<Rightarrow> string \<Rightarrow> string \<Rightarrow> ActionExecutor \<Rightarrow> ProcessInstance \<Rightarrow> pydict result \<times> ProcessInstance" where
  "execute_kind ev kind sid x = run_actions ev sid (filter (\<lambda>a. sa_action_type a = kind) (dvals x))"

fun execute_transition_actions ::
  "evaluator \<Rightarrow> string \<Rightarrow> string list \<Rightarrow> ActionExecutor \<Rightarrow> pydict \<Rightarrow> ProcessInstance \<Rightarrow> pydict result \<times> ProcessInstance" where
  "execute_transition_actions ev tid [] x acc i = (Inr acc, i)"
| "execute_transition_actions ev tid (aid # aids) x acc i =
     (case dget x aid of
        Some a \<Rightarrow>
          (case execute_action ev tid a i of
             (Inl err, i1) \<Rightarrow> (Inl err, i1)
           | (Inr r, i1) \<Rightarrow> execute_transition_actions ev tid aids x (dset aid (PDict r) acc) i1)
      | None \<Rightarrow>
          execute_transition_actions ev tid aids x (dset aid (PDict [(''status'', PStr ''executed'')]) acc)
            (pi_set_variable (''transition.'' @ tid @ ''.action.'' @ aid) (PStr ''executed'') i))"

subsection \<open>Hierarchies\<close>

text \<open>
  The loops that climb from a state to its parents end when a parent is not registered; if the parents form a cycle they
  do not end, and the result is \<open>None\<close>.
\<close>

record StateNode =
  sn_state_id :: string
  sn_parent :: "string option"
  sn_children :: "string list"
  sn_entry_actions :: "string list"
  sn_exit_actions :: "string list"

type_synonym HierarchicalHandler = "(string, StateNode) dict"

definition state_register :: "StateNode \<Rightarrow> HierarchicalHandler \<Rightarrow> HierarchicalHandler" where
  "state_register s h = dset (sn_state_id s) s h"

definition get_parent :: "string \<Rightarrow> HierarchicalHandler \<Rightarrow> StateNode option" where
  "get_parent sid h =
     (case dget h sid of
        None \<Rightarrow> None
      | Some s \<Rightarrow> (case nonempty_opt (sn_parent s) of [] \<Rightarrow> None | p # _ \<Rightarrow> dget h p))"

definition get_children :: "string \<Rightarrow> HierarchicalHandler \<Rightarrow> StateNode list" where
  "get_children sid h = (case dget h sid of None \<Rightarrow> [] | Some s \<Rightarrow> List.map_filter (dget h) (sn_children s))"

partial_function (option) climb :: "HierarchicalHandler \<Rightarrow> StateNode option \<Rightarrow> StateNode list option" where
  "climb h cur =
     (case cur of
        None \<Rightarrow> Some []
      | Some s \<Rightarrow> Option.bind (climb h (get_parent (sn_state_id s) h)) (\<lambda>ss. Some (s # ss)))"

partial_function (option) climb_to :: "HierarchicalHandler \<Rightarrow> string list \<Rightarrow> StateNode option \<Rightarrow> StateNode option option" where
  "climb_to h ids cur =
     (case cur of
        None \<Rightarrow> Some None
      | Some s \<Rightarrow> if sn_state_id s \<in> set ids then Some (Some s) else climb_to h ids (get_parent (sn_state_id s) h))"

definition get_ancestors :: "string \<Rightarrow> HierarchicalHandler \<Rightarrow> StateNode list option" where
  "get_ancestors sid h = climb h (get_parent sid h)"

definition get_common_ancestor :: "string \<Rightarrow> string \<Rightarrow> HierarchicalHandler \<Rightarrow> StateNode option option" where
  "get_common_ancestor a b h = Option.bind (climb h (dget h a)) (\<lambda>as. climb_to h (map sn_state_id as) (dget h b))"

definition is_ancestor_of :: "string \<Rightarrow> string \<Rightarrow> HierarchicalHandler \<Rightarrow> bool option" where
  "is_ancestor_of a sid h = map_option (\<lambda>r. r \<noteq> None) (climb_to h [a] (get_parent sid h))"

definition propagate_entry_up :: "string \<Rightarrow> HierarchicalHandler \<Rightarrow> ProcessInstance \<Rightarrow> ProcessInstance option" where
  "propagate_entry_up sid h i =
     map_option (\<lambda>as. fold (\<lambda>s. fold (\<lambda>a. pi_set_variable (''state.'' @ sn_state_id s @ ''.entry'') (PStr a)) (sn_entry_actions s)) (rev as) i)
       (get_ancestors sid h)"

definition propagate_exit_down :: "string \<Rightarrow> HierarchicalHandler \<Rightarrow> ProcessInstance \<Rightarrow> ProcessInstance" where
  "propagate_exit_down sid h i =
     (case dget h sid of
        None \<Rightarrow> i
      | Some s \<Rightarrow>
          fold (\<lambda>c. if dget h c = None then (\<lambda>i. i) else pi_set_variable (''state.'' @ c @ ''.parent_exit'') (PBool True)) (sn_children s)
            (fold (\<lambda>a. pi_set_variable (''state.'' @ sid @ ''.exit'') (PStr a)) (sn_exit_actions s) i))"

subsection \<open>The executor\<close>

record StateContext =
  sc_state_id :: string
  sc_name :: pyval
  sc_kind :: pyval
  sc_entry_actions :: pyval
  sc_exit_actions :: pyval
  sc_do_actions :: pyval
  sc_is_active :: bool
  sc_is_final :: bool

record RegionContext =
  rc_region_id :: string
  rc_states :: pyval
  rc_initial_state :: pyval
  rc_is_orthogonal :: pyval

record StateMachineModel_Legacy =
  sml_states :: "pydict list"
  sml_transitions :: pyval
  sml_initial_state :: pyval
  sml_context :: "(string, StateContext) dict"
  sml_region_context :: "(string, RegionContext) dict"

text \<open>A list of dicts; anything else has no \<open>get\<close>.\<close>

definition dict_of :: "pyval \<Rightarrow> pydict result" where
  "dict_of v = (case v of PDict d \<Rightarrow> Inr d | PObj _ \<Rightarrow> Inl (Unmodelled ''get'') | _ \<Rightarrow> Inl (AttributeError ''get''))"

definition dict_list :: "pyval \<Rightarrow> pydict list result" where
  "dict_list v = bindr (py_list v) (mapr dict_of)"

definition lower_str :: "pyval \<Rightarrow> string result" where
  "lower_str v = (case v of PStr s \<Rightarrow> Inr (map lower_char s) | PObj _ \<Rightarrow> Inl (Unmodelled ''lower'') | PBytes _ \<Rightarrow> Inl (Unmodelled ''lower'')
     | _ \<Rightarrow> Inl (AttributeError ''lower''))"

text \<open>\<open>ts[0].get('target')\<close> for the transitions of a pseudostate\<close>

definition first_target :: "pyval list \<Rightarrow> pyval result" where
  "first_target ts = (case ts of [] \<Rightarrow> Inl (Unmodelled ''IndexError'') | t # _ \<Rightarrow> bindr (dict_of t) (\<lambda>d. Inr (pget d ''target'')))"

definition state_context :: "pydict \<Rightarrow> StateContext result" where
  "state_context d =
     bindr (as_str (pget_or d ''id'' (PStr []))) (\<lambda>sid. Inr
       \<lparr>sc_state_id = sid, sc_name = pget d ''name'', sc_kind = pget_or d ''kind'' (PStr ''simple''),
        sc_entry_actions = por (por (pget d ''entry'') (pget d ''entryActions'')) (PList []),
        sc_exit_actions = por (por (pget d ''exit'') (pget d ''exitActions'')) (PList []),
        sc_do_actions = por (por (pget d ''doActivity'') (pget d ''do'')) (PList []), sc_is_active = False, sc_is_final = False\<rparr>)"

fun region_contexts :: "pydict list \<Rightarrow> (string, RegionContext) dict \<Rightarrow> (string, RegionContext) dict result" where
  "region_contexts [] acc = Inr acc"
| "region_contexts (d # ds) acc =
     bindr (as_str (pget_or d ''id'' (PStr (''region_'' @ int_str (int (length acc)))))) (\<lambda>rid.
       region_contexts ds (dset rid
         \<lparr>rc_region_id = rid, rc_states = pget_or d ''states'' (PList []), rc_initial_state = pget d ''initialState'',
          rc_is_orthogonal = pget_or d ''orthogonal'' (PBool False)\<rparr> acc))"

fun initial_of_pseudo :: "pydict list \<Rightarrow> pyval option result" where
  "initial_of_pseudo [] = Inr None"
| "initial_of_pseudo (d # ds) =
     bindr (lower_str (pget_or d ''kind'' (PStr []))) (\<lambda>k.
       if k = ''initial''
       then (case pget_or d ''transitions'' (PList [PDict []]) of
               PList (t # ts) \<Rightarrow> bindr (first_target (t # ts)) (\<lambda>v. Inr (Some v))
             | _ \<Rightarrow> Inr None)
       else initial_of_pseudo ds)"

definition sm_normalize :: "pydict \<Rightarrow> StateMachineModel_Legacy result" where
  "sm_normalize d =
     bindr (dict_list (por (por (pget d ''states'') (pget d ''elements'')) (PList []))) (\<lambda>states.
     bindr (mapr state_context states) (\<lambda>ctxs.
     bindr (dict_list (pget_or d ''regions'' (PList []))) (\<lambda>regions.
     bindr (region_contexts regions []) (\<lambda>rctx.
     (let init = por (pget d ''initial_state'') (pget d ''initialState'')
      in bindr (if truthy init then Inr init
                else bindr (dict_list (pget_or d ''pseudostates'' (PList []))) (\<lambda>ps.
                     bindr (initial_of_pseudo ps) (\<lambda>v. Inr (case v of None \<Rightarrow> init | Some w \<Rightarrow> w)))) (\<lambda>init1.
           Inr \<lparr>sml_states = states, sml_transitions = pget_or d ''transitions'' (PList []), sml_initial_state = init1,
                sml_context = fold (\<lambda>c. dset (sc_state_id c) c) ctxs [], sml_region_context = rctx\<rparr>))))))"

text \<open>\<open>_execute_actions\<close>: names are written to variables, other values are skipped.\<close>

fun perform_each :: "string \<Rightarrow> string \<Rightarrow> pyval list \<Rightarrow> ProcessInstance \<Rightarrow> ProcessInstance outcome" where
  "perform_each sid kind [] i = (None, i)"
| "perform_each sid kind (a # as) i =
     (let key = ''state.'' @ sid @ ''.'' @ kind
      in case a of
           PStr s \<Rightarrow> perform_each sid kind as (pi_set_variable key a i)
         | PDict d \<Rightarrow>
             (case py_str (pget_or d ''name'' (pget_or d ''id'' (PStr ''unknown''))) of
                Inl err \<Rightarrow> (Some err, i)
              | Inr nm \<Rightarrow> perform_each sid kind as (pi_set_variable (key @ ''.'' @ nm) a i))
         | _ \<Rightarrow> perform_each sid kind as i)"

definition perform_actions :: "string \<Rightarrow> string \<Rightarrow> pyval \<Rightarrow> ProcessInstance \<Rightarrow> ProcessInstance outcome" where
  "perform_actions sid kind acts i = (case py_list acts of Inl err \<Rightarrow> (Some err, i) | Inr as \<Rightarrow> perform_each sid kind as i)"

record machine_run =
  sr_model :: StateMachineModel_Legacy
  sr_history :: StateMachineHistory
  sr_engine :: OrchestrationEngine

definition with_instance :: "string \<Rightarrow> (ProcessInstance \<Rightarrow> ProcessInstance outcome) \<Rightarrow> OrchestrationEngine \<Rightarrow> OrchestrationEngine outcome" where
  "with_instance iid f e =
     (case engine_instance iid e of None \<Rightarrow> (None, e) | Some i \<Rightarrow> (case f i of (err, i1) \<Rightarrow> (err, put_engine_instance iid i1 e)))"

definition on_run :: "(OrchestrationEngine \<Rightarrow> OrchestrationEngine outcome) \<Rightarrow> machine_run \<Rightarrow> machine_run outcome" where
  "on_run f r = (case f (sr_engine r) of (err, e) \<Rightarrow> (err, r\<lparr>sr_engine := e\<rparr>))"

definition perform :: "string \<Rightarrow> string \<Rightarrow> string \<Rightarrow> pyval \<Rightarrow> machine_run \<Rightarrow> machine_run outcome" where
  "perform iid sid kind acts = on_run (with_instance iid (\<lambda>i. if truthy acts then perform_actions sid kind acts i else (None, i)))"

definition set_variable :: "string \<Rightarrow> string \<Rightarrow> pyval \<Rightarrow> machine_run \<Rightarrow> machine_run" where
  "set_variable iid k v r = r\<lparr>sr_engine := on_instance iid (pi_set_variable k v) (sr_engine r)\<rparr>"

definition put_context :: "string \<Rightarrow> StateContext \<Rightarrow> machine_run \<Rightarrow> machine_run" where
  "put_context sid c r = r\<lparr>sr_model := (sr_model r)\<lparr>sml_context := dset sid c (sml_context (sr_model r))\<rparr>\<rparr>"

definition find_context :: "string \<Rightarrow> StateMachineModel_Legacy \<Rightarrow> StateContext option" where
  "find_context sid m =
     (case dget (sml_context m) sid of
        Some c \<Rightarrow> Some c
      | None \<Rightarrow>
          (case List.find (\<lambda>d. pget d ''id'' = PStr sid) (sml_states m) of
             None \<Rightarrow> None
           | Some d \<Rightarrow> Some \<lparr>sc_state_id = sid, sc_name = pget d ''name'', sc_kind = pget_or d ''kind'' (PStr ''simple''),
               sc_entry_actions = PList [], sc_exit_actions = PList [], sc_do_actions = PList [], sc_is_active = False, sc_is_final = False\<rparr>))"

text \<open>Entering a state: its actions, the variable that says it is active, the event.\<close>

definition sm_enter :: "(nat \<Rightarrow> clock) \<Rightarrow> (nat \<Rightarrow> nat \<Rightarrow> string) \<Rightarrow> string \<Rightarrow> string \<Rightarrow> StateContext \<Rightarrow> machine_run \<Rightarrow> machine_run outcome" where
  "sm_enter clks uuids iid cur c r =
     andthen (perform iid cur ''entry'' (if \<not> sc_is_active c then sc_entry_actions c else PList []) r) (\<lambda>r1.
     andthen (perform iid cur ''do'' (if sc_is_active c then sc_do_actions c else PList []) r1) (\<lambda>r2.
       on_run (engine_publish (clks 0) (uuids 0) ACTIVITY_STARTED
                 [(''instance_id'', PStr iid), (''state_id'', PStr cur), (''engine_type'', PStr ''state_machine'')])
         (set_variable iid (''state.'' @ cur @ ''.active'') (PBool True) (put_context cur (c\<lparr>sc_is_active := True\<rparr>) r2))))"

datatype sm_step = Goes string | Breaks | Ends

text \<open>Without a transition: a final state is left.\<close>

definition sm_rest :: "string \<Rightarrow> string \<Rightarrow> StateContext \<Rightarrow> machine_run \<Rightarrow> sm_step result \<times> machine_run" where
  "sm_rest iid cur c r =
     (if sc_kind c = PStr ''final'' \<or> ends_with cur ''Final''
      then (case perform iid cur ''exit'' (sc_exit_actions c) (put_context cur (c\<lparr>sc_is_active := True, sc_is_final := True\<rparr>) r) of
              (Some err, r1) \<Rightarrow> (Inl err, r1)
            | (None, r1) \<Rightarrow>
                (Inr Breaks, set_variable iid (''state.'' @ cur @ ''.active'') (PBool False)
                   (put_context cur (c\<lparr>sc_is_active := False, sc_is_final := True\<rparr>) r1)))
      else (Inr Breaks, r))"

definition complete_instance :: "clock \<Rightarrow> string \<Rightarrow> machine_run \<Rightarrow> machine_run outcome" where
  "complete_instance clk iid = on_run (with_instance iid (instance_apply clk Instances.Complete))"

text \<open>With a transition: leaving the state, its actions, the history.\<close>

definition sm_move :: "(nat \<Rightarrow> clock) \<Rightarrow> string \<Rightarrow> string \<Rightarrow> string \<Rightarrow> pyval \<Rightarrow> machine_run \<Rightarrow> sm_step result \<times> machine_run" where
  "sm_move clks iid cur target trigger r =
     (case dget (sml_context (sr_model r)) target of
        Some tc \<Rightarrow>
          if sc_kind tc = PStr ''terminate''
          then (case complete_instance (clks 1) iid r of (Some err, r1) \<Rightarrow> (Inl err, r1) | (None, r1) \<Rightarrow> (Inr Ends, r1))
          else (Inr (Goes target), r\<lparr>sr_history := history_push (clks 2 0) iid cur target trigger (sr_history r)\<rparr>)
      | None \<Rightarrow> (Inr (Goes target), r\<lparr>sr_history := history_push (clks 2 0) iid cur target trigger (sr_history r)\<rparr>))"

definition sm_leave ::
  "evaluator \<Rightarrow> (nat \<Rightarrow> clock) \<Rightarrow> string \<Rightarrow> string \<Rightarrow> StateContext \<Rightarrow> pydict \<Rightarrow> machine_run \<Rightarrow> sm_step result \<times> machine_run" where
  "sm_leave ev clks iid cur c t r =
     (let target = pget t ''target''; guard = pget t ''guard''
      in if \<not> truthy target then (Inr Breaks, r)
         else case (if truthy guard then evaluate_condition ev (instance_vars iid (sr_engine r)) guard else Inr True) of
                Inl err \<Rightarrow> (Inl err, r)
              | Inr False \<Rightarrow> (Inr (Goes cur), r)
              | Inr True \<Rightarrow>
                  (case andthen (perform iid cur ''exit'' (sc_exit_actions c) r)
                          (perform iid cur ''transition'' (pget_or t ''actions'' (PList []))) of
                     (Some err, r1) \<Rightarrow> (Inl err, r1)
                   | (None, r1) \<Rightarrow>
                       (let r2 = set_variable iid (''state.'' @ cur @ ''.active'') (PBool False) (put_context cur (c\<lparr>sc_is_active := False\<rparr>) r1)
                        in case as_str target of
                             Inl err \<Rightarrow> (Inl err, r2)
                           | Inr tgt \<Rightarrow> sm_move clks iid cur tgt (pget t ''trigger'') r2)))"

definition sm_turn ::
  "evaluator \<Rightarrow> (nat \<Rightarrow> clock) \<Rightarrow> (nat \<Rightarrow> nat \<Rightarrow> string) \<Rightarrow> string \<Rightarrow> string \<Rightarrow> machine_run \<Rightarrow> sm_step result \<times> machine_run" where
  "sm_turn ev clks uuids iid cur r =
     (let r0 = r\<lparr>sr_engine := on_instance iid (\<lambda>i. i\<lparr>pi_current_activity_id := Some cur\<rparr>) (sr_engine r)\<rparr>
      in case find_context cur (sr_model r0) of
           None \<Rightarrow> (Inr Breaks, r0)
         | Some c \<Rightarrow>
             (case sm_enter clks uuids iid cur c r0 of
                (Some err, r1) \<Rightarrow> (Inl err, r1)
              | (None, r1) \<Rightarrow>
                  (case bindr (dict_list (sml_transitions (sr_model r1))) (\<lambda>ts. resolve ev cur ts (instance_vars iid (sr_engine r1))) of
                     Inl err \<Rightarrow> (Inl err, r1)
                   | Inr None \<Rightarrow> sm_rest iid cur c r1
                   | Inr (Some t) \<Rightarrow> sm_leave ev clks iid cur c t r1)))"

definition step_limit :: "string \<Rightarrow> py_error" where
  "step_limit iid = RuntimeError (''State machine execution exceeded step limit for instance '' @ iid)"

text \<open>After the loop: the activities of the last state, then the instance is completed.\<close>

definition sm_finish :: "clock \<Rightarrow> string \<Rightarrow> string \<Rightarrow> machine_run \<Rightarrow> machine_run outcome" where
  "sm_finish clk iid cur r =
     andthen (case dget (sml_context (sr_model r)) cur of
                None \<Rightarrow> (None, r)
              | Some c \<Rightarrow> if sc_kind c \<noteq> PStr ''final'' then perform iid (sc_state_id c) ''do'' (sc_do_actions c) r else (None, r))
       (complete_instance clk iid)"

fun sm_loop ::
  "evaluator \<Rightarrow> (nat \<Rightarrow> nat \<Rightarrow> clock) \<Rightarrow> (nat \<Rightarrow> nat \<Rightarrow> nat \<Rightarrow> string) \<Rightarrow> string \<Rightarrow> nat \<Rightarrow> string \<Rightarrow> machine_run \<Rightarrow> machine_run outcome" where
  "sm_loop ev clks uuids iid 0 cur r = (Some (step_limit iid), r)"
| "sm_loop ev clks uuids iid (Suc n) cur r =
     (case sm_turn ev (clks 0) (uuids 0) iid cur r of
        (Inl err, r1) \<Rightarrow> (Some err, r1)
      | (Inr (Goes c), r1) \<Rightarrow> sm_loop ev (clks \<circ> Suc) (uuids \<circ> Suc) iid n c r1
      | (Inr Ends, r1) \<Rightarrow> (None, r1)
      | (Inr Breaks, r1) \<Rightarrow> if n = 0 then (Some (step_limit iid), r1) else sm_finish (clks 1 0) iid cur r1)"

text \<open>The first state.  \<open>s.get('transitions', [{}])[0]\<close> of something that is not a list is not modelled.\<close>

definition index_first :: "pyval \<Rightarrow> pyval result" where
  "index_first v = (case v of PList ts \<Rightarrow> first_target ts | PTuple ts \<Rightarrow> first_target ts | _ \<Rightarrow> Inl (Unmodelled ''index''))"

fun initial_of_states :: "pydict list \<Rightarrow> pyval result" where
  "initial_of_states [] = Inr PNone"
| "initial_of_states (d # ds) =
     bindr (lower_str (pget_or d ''kind'' (PStr []))) (\<lambda>k.
       if k = ''initial''
       then (if truthy (pget d ''target'') then Inr (pget d ''target'') else index_first (pget_or d ''transitions'' (PList [PDict []])))
       else initial_of_states ds)"

definition first_state :: "StateMachineModel_Legacy \<Rightarrow> pyval result" where
  "first_state m =
     (if truthy (sml_initial_state m) then Inr (sml_initial_state m)
      else case sml_states m of
             [] \<Rightarrow> Inr PNone
           | d # ds \<Rightarrow> bindr (initial_of_states (d # ds)) (\<lambda>v. Inr (if truthy v then v else pget d ''id'')))"

text \<open>\<open>steps < max_steps\<close>\<close>

definition step_bound :: "pyval \<Rightarrow> nat result" where
  "step_bound v =
     (case v of
        PInt n \<Rightarrow> Inr (nat n)
      | PBool b \<Rightarrow> Inr (if b then 1 else 0)
      | PFloat _ \<Rightarrow> Inl (Unmodelled ''float'')
      | PObj _ \<Rightarrow> Inl (Unmodelled ''<'')
      | _ \<Rightarrow> Inl (TypeError ''<''))"

definition execute_legacy ::
  "evaluator \<Rightarrow> (nat \<Rightarrow> nat \<Rightarrow> clock) \<Rightarrow> (nat \<Rightarrow> nat \<Rightarrow> nat \<Rightarrow> string) \<Rightarrow> string \<Rightarrow> pyval \<Rightarrow> machine_run \<Rightarrow> machine_run outcome" where
  "execute_legacy ev clks uuids iid max_steps r =
     (case first_state (sr_model r) of
        Inl err \<Rightarrow> (Some err, r)
      | Inr v \<Rightarrow>
          if \<not> truthy v then complete_instance (clks 0 0) iid r
          else (case bindr (as_str v) (\<lambda>cur. bindr (step_bound max_steps) (\<lambda>n. Inr (cur, n))) of
                  Inl err \<Rightarrow> (Some err, r)
                | Inr (cur, n) \<Rightarrow> sm_loop ev clks uuids iid n cur r))"

record StateMachineExecutor =
  sx_history :: StateMachineHistory
  sx_models :: "(string, StateMachineModel_Legacy) dict"

definition sm_execute ::
  "evaluator \<Rightarrow> (nat \<Rightarrow> nat \<Rightarrow> clock) \<Rightarrow> (nat \<Rightarrow> nat \<Rightarrow> nat \<Rightarrow> string) \<Rightarrow> string \<Rightarrow> pydict \<Rightarrow> StateMachineExecutor \<Rightarrow> OrchestrationEngine
    \<Rightarrow> py_error option \<times> StateMachineExecutor \<times> OrchestrationEngine" where
  "sm_execute ev clks uuids iid d x e =
     (case sm_normalize d of
        Inl err \<Rightarrow> (Some err, x, e)
      | Inr m \<Rightarrow>
          (case execute_legacy ev clks uuids iid (pget_or d ''_max_steps'' (PInt 200)) \<lparr>sr_model = m, sr_history = sx_history x, sr_engine = e\<rparr> of
             (err, r) \<Rightarrow> (err, \<lparr>sx_history = sr_history r, sx_models = dset iid (sr_model r) (sx_models x)\<rparr>, sr_engine r)))"

definition get_current_state :: "string \<Rightarrow> StateMachineExecutor \<Rightarrow> string option" where
  "get_current_state iid x =
     (case dget (sx_models x) iid of
        None \<Rightarrow> None
      | Some m \<Rightarrow> map_option fst (List.find (\<lambda>(k, c). sc_is_active c) (sml_context m)))"

subsection \<open>The engine\<close>

text \<open>\<open>definition_xml\<close> is used if it is a dict; a deployed definition's is the text of its resource.\<close>

definition sm_payload :: "pyval \<Rightarrow> ProcessDefinition \<Rightarrow> pydict" where
  "sm_payload xml d = dset ''_definition_key'' (PStr (pd_key d)) (dset ''_engine_type'' (PStr ''state_machine'') (as_dict xml))"

record StateMachineEngine =
  sme_executor :: StateMachineExecutor
  sme_contexts :: ContextManager

definition sm_report ::
  "(InstanceStateSnapshot \<Rightarrow> py_error option) \<Rightarrow> datetime \<Rightarrow> string \<Rightarrow> string \<Rightarrow> ProcessDefinition \<Rightarrow> pydict \<Rightarrow> OrchestrationEngine \<Rightarrow> OrchestrationEngine outcome" where
  "sm_report ser now iid st d extra =
     set_engine_state ser now iid st ([(''definition_key'', PStr (pd_key d)), (''definition_id'', PStr (pd_id d))] @ extra)"

definition sm_conclude ::
  "(InstanceStateSnapshot \<Rightarrow> py_error option) \<Rightarrow> (nat \<Rightarrow> clock) \<Rightarrow> (nat \<Rightarrow> nat \<Rightarrow> string) \<Rightarrow> (nat \<Rightarrow> clock) \<Rightarrow> (nat \<Rightarrow> nat \<Rightarrow> string) \<Rightarrow> string \<Rightarrow> ProcessDefinition
    \<Rightarrow> py_error option \<Rightarrow> OrchestrationEngine \<Rightarrow> OrchestrationEngine outcome" where
  "sm_conclude ser clks uuids clks' uuids' iid d raised e =
     (case raised of
        Some err \<Rightarrow>
          andthen (update_instance_state ser clks uuids iid Instances.FAILED (Some (exception_text err)) e) (\<lambda>e1.
          andthen (sm_report ser (clks' 0 0) iid ''failed'' d [(''error'', PStr (exception_text err))] e1) (\<lambda>e2. (Some err, e2)))
      | None \<Rightarrow>
          andthen (update_instance_state ser clks uuids iid Instances.COMPLETED None e) (\<lambda>e1.
          andthen (sm_report ser (clks' 0 0) iid ''completed'' d [] e1)
            (engine_publish (clks' 1) (uuids' 1) PROCESS_INSTANCE_COMPLETED [(''instance_id'', PStr iid), (''engine_type'', PStr ''state_machine'')])))"

definition sm_execute_instance ::
  "(InstanceStateSnapshot \<Rightarrow> py_error option) \<Rightarrow> evaluator \<Rightarrow> (nat \<Rightarrow> nat \<Rightarrow> clock) \<Rightarrow> (nat \<Rightarrow> nat \<Rightarrow> nat \<Rightarrow> string) \<Rightarrow> string \<Rightarrow> pyval \<Rightarrow> ProcessDefinition
    \<Rightarrow> StateMachineEngine \<Rightarrow> OrchestrationEngine \<Rightarrow> py_error option \<times> StateMachineEngine \<times> OrchestrationEngine" where
  "sm_execute_instance ser ev clks uuids iid xml d s e =
     (let s1 = s\<lparr>sme_contexts := snd (create_context (clks 0 0) (uuids 0 0 0) Contexts.PROCESS (Some iid) None (sme_contexts s))\<rparr>
      in case sm_report ser (clks 0 1 0) iid ''running'' d [] e of
           (Some err, e1) \<Rightarrow> (Some err, s1, e1)
         | (None, e1) \<Rightarrow>
             (case sm_execute ev (\<lambda>k. clks (k + 3)) (\<lambda>k. uuids (k + 3)) iid (sm_payload xml d) (sme_executor s1) e1 of
                (raised, x, e2) \<Rightarrow>
                  (case sm_conclude ser (clks 1) (uuids 1) (clks 2) (uuids 2) iid d raised e2 of
                     (err, e3) \<Rightarrow> (err, s1\<lparr>sme_executor := x\<rparr>, e3))))"

subsection \<open>The choice of a transition\<close>

definition tprio :: "pydict \<Rightarrow> int" where
  "tprio t = (case pget_or t ''priority'' (PInt 0) of PInt p \<Rightarrow> p | _ \<Rightarrow> 0)"

definition fires :: "evaluator \<Rightarrow> pydict \<Rightarrow> pydict \<Rightarrow> bool" where
  "fires ev ctx t \<longleftrightarrow> transition_enabled ev ctx t = Inr True"

lemma get_available_fires:
  "\<forall>t \<in> set ts. is_ok (transition_enabled ev ctx t) \<Longrightarrow> get_available ev ctx ts = Inr (filter (fires ev ctx) ts)"
proof (induction ts)
  case (Cons t ts)
  then obtain b where "transition_enabled ev ctx t = Inr b" by (cases "transition_enabled ev ctx t") auto
  then show ?case using Cons by (cases b) (simp_all add: fires_def)
qed simp

lemma available_fires: "get_available ev ctx ts = Inr us \<Longrightarrow> us = filter (fires ev ctx) ts"
proof (induction ts arbitrary: us)
  case (Cons t ts)
  then show ?case
    by (cases "transition_enabled ev ctx t"; cases "get_available ev ctx ts") (auto simp: fires_def)
qed simp

definition greatest :: "pydict list \<Rightarrow> pydict list" where
  "greatest ts = filter (\<lambda>t. \<forall>u \<in> set ts. tprio u \<le> tprio t) ts"

lemma max_loop_greatest:
  "max_loop (tprio t) t (map (\<lambda>u. (tprio u, u)) us) = hd (greatest (t # us))"
proof (induction us arbitrary: t)
  case (Cons u us)
  show ?case
  proof (cases "tprio u > tprio t")
    case True
    then have "greatest (t # u # us) = greatest (u # us)" unfolding greatest_def by (auto intro!: filter_cong)
    then show ?thesis using True Cons.IH [of u] by simp
  next
    case False
    then have "\<forall>v \<in> set (t # us). tprio v \<le> tprio x \<Longrightarrow> x \<in> set (t # us) \<Longrightarrow> tprio u \<le> tprio x" for x by auto
    then have e: "filter (\<lambda>x. \<forall>v \<in> set (t # u # us). tprio v \<le> tprio x) (t # us) = greatest (t # us)"
      unfolding greatest_def by (intro filter_cong) auto
    have "hd (greatest (t # u # us)) = hd (filter (\<lambda>x. \<forall>v \<in> set (t # u # us). tprio v \<le> tprio x) (t # us))"
    proof (cases "\<forall>v \<in> set (t # u # us). tprio v \<le> tprio t")
      case True
      then show ?thesis by (simp add: greatest_def)
    next
      case no: False
      then have "\<not> (\<forall>v \<in> set (t # u # us). tprio v \<le> tprio u)" using False by force
      then show ?thesis using no unfolding greatest_def by (simp only: filter.simps if_False)
    qed
    with e Cons.IH [of t] False show ?thesis by simp
  qed
qed (simp add: greatest_def)

lemma max_priority_greatest:
  assumes "\<forall>t \<in> set ts. \<exists>p. pget_or t ''priority'' (PInt 0) = PInt p" "ts \<noteq> []"
  shows "max_priority ts = Inr (Some (hd (greatest ts)))"
proof -
  have m: "mapr (\<lambda>t. bindr (py_int (pget_or t ''priority'' (PInt 0))) (\<lambda>p. Inr (p, t))) us = Inr (map (\<lambda>t. (tprio t, t)) us)" if "set us \<subseteq> set ts" for us
    using that assms(1) by (induction us) (fastforce simp: tprio_def)+
  obtain t us where ts: "ts = t # us" using assms(2) by (cases ts) auto
  show ?thesis
  proof (cases us)
    case Nil
    then show ?thesis using ts by (simp add: max_priority_def greatest_def)
  next
    case (Cons u vs)
    then have "max_priority ts = Inr (Some (max_loop (tprio t) t (map (\<lambda>u. (tprio u, u)) us)))"
      using m [of ts] by (simp add: max_priority_def ts)
    then show ?thesis by (simp add: max_loop_greatest ts)
  qed
qed

lemma fires_unconditional: "\<not> truthy (pget t ''guard'') \<Longrightarrow> \<not> truthy (pget t ''trigger'') \<Longrightarrow> fires ev ctx t"
  by (simp add: fires_def transition_enabled_def)

text \<open>
  C10: Which transition a state machine takes.  If the guards and triggers of the transitions can be evaluated and their
  priorities are integers, the candidates are the transitions from the current state whose guard holds and whose
  trigger is set in the context; of these the first one of the greatest priority is taken, and none if there is no
  candidate.
\<close>

theorem transition_choice:
  assumes "\<forall>t \<in> set ts. is_ok (transition_enabled ev ctx t)" and "\<forall>t \<in> set ts. \<exists>p. pget_or t ''priority'' (PInt 0) = PInt p"
  shows "let candidates = filter (fires ev ctx) (get_outgoing_transitions cur ts) in
    resolve ev cur ts ctx = Inr (if candidates = [] then None else Some (chosen cur (hd (greatest candidates))))"
proof -
  let ?out = "get_outgoing_transitions cur ts"
  have out: "set ?out \<subseteq> set ts" by (auto simp: get_outgoing_transitions_def)
  have a: "get_available ev ctx ?out = Inr (filter (fires ev ctx) ?out)" using assms(1) out by (intro get_available_fires) blast
  have none: "filter (\<lambda>t. \<not> truthy (pget t ''guard'') \<and> \<not> truthy (pget t ''trigger'')) ?out = []" if "filter (fires ev ctx) ?out = []"
    using that fires_unconditional by (fastforce simp: filter_empty_conv)
  show ?thesis
  proof (cases "filter (fires ev ctx) ?out = []")
    case True
    then show ?thesis using a none by (simp add: resolve_def max_priority_def Let_def)
  next
    case False
    have "max_priority (filter (fires ev ctx) ?out) = Inr (Some (hd (greatest (filter (fires ev ctx) ?out))))"
      using assms(2) out False by (intro max_priority_greatest) auto
    then show ?thesis using a False by (simp add: resolve_def Let_def)
  qed
qed

definition demo_transitions :: "pydict list" where
  "demo_transitions =
     [[(''source'', PStr ''a''), (''target'', PStr ''b'')],
      [(''source'', PStr ''a''), (''target'', PStr ''c''), (''guard'', PStr ''True''), (''priority'', PInt 2)],
      [(''source'', PStr ''a''), (''target'', PStr ''d''), (''trigger'', PStr ''go''), (''priority'', PInt 5)]]"

theorem transition_choice_witness:
  "resolve (\<lambda>_ _. Inr PNone) ''a'' demo_transitions [] = Inr (Some (chosen ''a'' (demo_transitions ! 1)))"
  using transition_choice [of demo_transitions "\<lambda>_ _. Inr PNone" "[]" "''a''"]
  by (simp add: demo_transitions_def transition_enabled_def evaluate_condition_def matches_trigger_def get_outgoing_transitions_def greatest_def fires_def
      tprio_def payload_simps)


subsection \<open>The history of a run\<close>

text \<open>A transition that is declared from a state to another and was enabled for some values of the variables.\<close>

definition takes :: "evaluator \<Rightarrow> pyval \<Rightarrow> string \<Rightarrow> string \<Rightarrow> bool" where
  "takes ev decl src tgt \<longleftrightarrow>
     (\<exists>ts t vars. dict_list decl = Inr ts \<and> t \<in> set (get_outgoing_transitions src ts) \<and> fires ev vars t \<and> pget_or t ''target'' (PStr []) = PStr tgt)"

fun run_of :: "evaluator \<Rightarrow> pyval \<Rightarrow> string \<Rightarrow> HistoryEntry list \<Rightarrow> bool" where
  "run_of ev decl cur [] \<longleftrightarrow> True"
| "run_of ev decl cur (e # es) \<longleftrightarrow>
     he_source_state e = cur \<and> takes ev decl cur (he_target_state e) \<and> run_of ev decl (he_target_state e) es"

definition history_of :: "string \<Rightarrow> machine_run \<Rightarrow> HistoryEntry list" where
  "history_of iid r = dget_or (smh_history (sr_history r)) iid []"

lemma max_loop_mem: "max_loop p x ys \<in> insert x (snd ` set ys)"
  by (induction p x ys rule: max_loop.induct) auto

lemma mapr_snd: "mapr (\<lambda>t. bindr (f t) (\<lambda>p. Inr (p, t))) ts = Inr ps \<Longrightarrow> map snd ps = ts"
proof (induction ts arbitrary: ps)
  case (Cons t ts)
  then show ?case by (cases "f t"; cases "mapr (\<lambda>t. bindr (f t) (\<lambda>p. Inr (p, t))) ts") auto
qed simp

lemma max_priority_mem:
  assumes "max_priority ts = Inr (Some t)"
  shows "t \<in> set ts"
proof (cases "\<exists>u. ts = [u] \<or> ts = []")
  case True
  then show ?thesis using assms by (auto simp: max_priority_def)
next
  case False
  then obtain u v us where ts: "ts = u # v # us" by (metis list.exhaust)
  let ?m = "mapr (\<lambda>t. bindr (py_int (pget_or t ''priority'' (PInt 0))) (\<lambda>p. Inr (p, t))) ts"
  obtain ps where ps: "?m = Inr ps" using assms by (cases ?m) (simp_all add: max_priority_def ts del: mapr.simps)
  then have "map snd ps = ts" by (rule mapr_snd)
  then obtain p qs where q: "ps = (p, u) # qs" "map snd qs = v # us" using ts by (cases ps) auto
  then have "t = max_loop p u qs" using assms ps by (simp add: max_priority_def ts del: mapr.simps)
  then show ?thesis using max_loop_mem [of p u qs] q(2) ts by (metis list.set_map list.simps(15))
qed

lemma resolve_takes:
  assumes "resolve ev cur ts ctx = Inr (Some t)" "as_str (pget t ''target'') = Inr tgt"
  shows "\<exists>u \<in> set (get_outgoing_transitions cur ts). fires ev ctx u \<and> pget_or u ''target'' (PStr []) = PStr tgt"
proof -
  have target: "pget t ''target'' = PStr tgt" using assms(2) by (cases "pget t ''target''") (simp_all add: as_str_def)
  let ?out = "get_outgoing_transitions cur ts"
  obtain us where us: "get_available ev ctx ?out = Inr us" using assms(1) by (cases "get_available ev ctx ?out") (simp_all add: resolve_def Let_def)
  have f: "us = filter (fires ev ctx) ?out" by (rule available_fires [OF us])
  show ?thesis
  proof (cases "us = []")
    case True
    then have "max_priority (filter (\<lambda>t. \<not> truthy (pget t ''guard'') \<and> \<not> truthy (pget t ''trigger'')) ?out) = Inr (Some t)"
      using assms(1) us by (simp add: resolve_def Let_def)
    from max_priority_mem [OF this] have "t \<in> set ?out" "fires ev ctx t" by (auto intro: fires_unconditional)
    then show ?thesis using True f by (auto simp: filter_empty_conv)
  next
    case False
    then obtain u where u: "max_priority us = Inr (Some u)" "t = chosen cur u"
      using assms(1) us by (cases "max_priority us") (auto simp: resolve_def Let_def)
    then show ?thesis using max_priority_mem [OF u(1)] f target by (auto simp: chosen_def payload_simps)
  qed
qed

definition kept :: "string \<Rightarrow> machine_run \<Rightarrow> pyval \<times> HistoryEntry list" where
  "kept iid r = (sml_transitions (sr_model r), history_of iid r)"

lemma run_kept_simps [simp]:
  "kept iid (r\<lparr>sr_engine := e\<rparr>) = kept iid r" "kept iid (put_context k c r) = kept iid r" "kept iid (set_variable j k v r) = kept iid r"
  "kept iid (snd (on_run f r)) = kept iid r" "kept iid (snd (perform j sid kind acts r)) = kept iid r"
  "kept iid (snd (complete_instance clk j r)) = kept iid r"
  by (simp_all add: kept_def history_of_def put_context_def set_variable_def perform_def complete_instance_def on_run_def case_prod_beta)

lemma kept_andthen [simp]: "(\<And>r. kept iid (snd (f r)) = kept iid r) \<Longrightarrow> kept iid (snd (andthen x f)) = kept iid (snd x)"
  by (cases x) (simp add: andthen_def split: option.split)

lemma kept_enter [simp]: "kept iid (snd (sm_enter clks uuids j cur c r)) = kept iid r"
  by (simp add: sm_enter_def)

lemma kept_rest [simp]: "kept iid (snd (sm_rest j cur c r)) = kept iid r"
proof -
  let ?x = "perform j cur ''exit'' (sc_exit_actions c) (put_context cur (c\<lparr>sc_is_active := True, sc_is_final := True\<rparr>) r)"
  obtain err r1 where x: "?x = (err, r1)" by fastforce
  have "kept iid r1 = kept iid r" using arg_cong [OF x, of "\<lambda>y. kept iid (snd y)"] by simp
  then show ?thesis by (simp add: sm_rest_def x split: option.split)
qed

lemma kept_finish [simp]: "kept iid (snd (sm_finish clk j cur r)) = kept iid r"
  by (simp add: sm_finish_def split: option.split)

text \<open>A turn either leaves the history as it is and goes nowhere else, or appends the transition it goes by.\<close>

lemma move_history:
  "kept iid (snd (sm_move clks iid cur tgt trigger r)) = kept iid r \<and> (\<forall>c. fst (sm_move clks iid cur tgt trigger r) \<noteq> Inr (Goes c)) \<or>
   fst (sm_move clks iid cur tgt trigger r) = Inr (Goes tgt) \<and>
     (\<exists>e. kept iid (snd (sm_move clks iid cur tgt trigger r)) = (fst (kept iid r), snd (kept iid r) @ [e]) \<and> he_source_state e = cur \<and> he_target_state e = tgt)"
  using run_kept_simps(6) [of iid "clks 1" iid r]
  by (auto simp: sm_move_def kept_def history_of_def history_push_def dget_or_def split: prod.split option.split)

lemma leave_history:
  assumes "resolve ev cur ts vars = Inr (Some t)" "dict_list (fst (kept iid r)) = Inr ts"
  shows "kept iid (snd (sm_leave ev clks iid cur c t r)) = kept iid r \<and>
      (\<forall>d. fst (sm_leave ev clks iid cur c t r) = Inr (Goes d) \<longrightarrow> d = cur) \<or>
    (\<exists>d e. fst (sm_leave ev clks iid cur c t r) = Inr (Goes d) \<and>
      kept iid (snd (sm_leave ev clks iid cur c t r)) = (fst (kept iid r), snd (kept iid r) @ [e]) \<and>
      he_source_state e = cur \<and> he_target_state e = d \<and> takes ev (fst (kept iid r)) cur d)"
proof -
  let ?x = "andthen (perform iid cur ''exit'' (sc_exit_actions c) r) (perform iid cur ''transition'' (pget_or t ''actions'' (PList [])))"
  obtain err r1 where x: "?x = (err, r1)" by fastforce
  have k: "kept iid r1 = kept iid r" using arg_cong [OF x, of "\<lambda>y. kept iid (snd y)"] by simp
  let ?r2 = "set_variable iid (''state.'' @ cur @ ''.active'') (PBool False) (put_context cur (c\<lparr>sc_is_active := False\<rparr>) r1)"
  have k2: "kept iid ?r2 = kept iid r" using k by simp
  have tk: "takes ev (fst (kept iid r)) cur tgt" if "as_str (pget t ''target'') = Inr tgt" for tgt
    using resolve_takes [OF assms(1) that] assms(2) unfolding takes_def by blast
  show ?thesis
    using move_history [of iid clks cur _ "pget t ''trigger''" ?r2] tk x k k2
    unfolding sm_leave_def Let_def by (simp split: sum.split option.split bool.split) blast
qed

text \<open>What a turn adds to the history, and where it goes.\<close>

definition turned :: "evaluator \<Rightarrow> string \<Rightarrow> string \<Rightarrow> machine_run \<Rightarrow> sm_step result \<Rightarrow> machine_run \<Rightarrow> bool" where
  "turned ev iid cur r res r1 \<longleftrightarrow>
     kept iid r1 = kept iid r \<and> (\<forall>d. res = Inr (Goes d) \<longrightarrow> d = cur) \<or>
     (\<exists>d e. res = Inr (Goes d) \<and> kept iid r1 = (fst (kept iid r), snd (kept iid r) @ [e]) \<and>
        he_source_state e = cur \<and> he_target_state e = d \<and> takes ev (fst (kept iid r)) cur d)"

lemma turn_history:
  assumes "sm_turn ev clks uuids iid cur r = (res, r1)"
  shows "turned ev iid cur r res r1"
proof -
  let ?r0 = "r\<lparr>sr_engine := on_instance iid (\<lambda>i. i\<lparr>pi_current_activity_id := Some cur\<rparr>) (sr_engine r)\<rparr>"
  show ?thesis
  proof (cases "find_context cur (sr_model ?r0)")
    case None
    then have "res = Inr Breaks" "r1 = ?r0" using assms by (simp_all add: sm_turn_def)
    then show ?thesis by (simp add: turned_def)
  next
    case (Some c)
    obtain err r2 where x: "sm_enter clks uuids iid cur c ?r0 = (err, r2)" by fastforce
    have k: "kept iid r2 = kept iid r" using arg_cong [OF x, of "\<lambda>y. kept iid (snd y)"] by simp
    have k1: "sml_transitions (sr_model r2) = fst (kept iid r2)" by (simp add: kept_def)
    have rest: "fst (sm_rest iid cur c r2) \<noteq> Inr (Goes d)" for d by (simp add: sm_rest_def split: prod.split option.split)
    let ?res = "bindr (dict_list (sml_transitions (sr_model r2))) (\<lambda>ts. resolve ev cur ts (instance_vars iid (sr_engine r2)))"
    show ?thesis
    proof (cases "err = None \<and> (\<exists>t. ?res = Inr (Some t))")
      case True
      then obtain ts t where t: "dict_list (fst (kept iid r2)) = Inr ts" "resolve ev cur ts (instance_vars iid (sr_engine r2)) = Inr (Some t)" "err = None"
        using k1 by (cases "dict_list (sml_transitions (sr_model r2))") auto
      then have "sm_leave ev clks iid cur c t r2 = (res, r1)" using assms Some x k1 by (simp add: sm_turn_def)
      then show ?thesis using leave_history [OF t(2,1), of clks c] k by (auto simp: turned_def)
    next
      case False
      then have "(\<exists>e. (res, r1) = (Inl e, r2)) \<or> (res, r1) = sm_rest iid cur c r2"
        using assms Some x by (cases err; cases ?res) (auto simp: sm_turn_def split: option.splits)
      then have "kept iid r1 = kept iid r \<and> (\<forall>d. res \<noteq> Inr (Goes d))"
      proof (elim disjE exE)
        assume "(res, r1) = sm_rest iid cur c r2"
        then have "res = fst (sm_rest iid cur c r2)" "r1 = snd (sm_rest iid cur c r2)" by (metis fst_conv, metis snd_conv)
        then show ?thesis using rest k by simp
      qed (use k in simp)
      then show ?thesis by (simp add: turned_def)
    qed
  qed
qed

lemma loop_history:
  assumes "sm_loop ev clks uuids iid n cur r = (err, r1)"
  shows "\<exists>es. history_of iid r1 = history_of iid r @ es \<and> run_of ev (sml_transitions (sr_model r)) cur es"
  using assms
proof (induction n arbitrary: cur r clks uuids)
  case (Suc n)
  obtain res r2 where x: "sm_turn ev (clks 0) (uuids 0) iid cur r = (res, r2)" by fastforce
  note t = turn_history [OF x, unfolded turned_def]
  show ?case
  proof (cases "\<exists>d. res = Inr (Goes d)")
    case True
    then obtain d where d: "res = Inr (Goes d)" by blast
    have l: "sm_loop ev (clks \<circ> Suc) (uuids \<circ> Suc) iid n d r2 = (err, r1)" using Suc.prems x d by simp
    obtain es where es: "history_of iid r1 = history_of iid r2 @ es" "run_of ev (sml_transitions (sr_model r2)) d es" using Suc.IH [OF l] by blast
    show ?thesis
    proof (cases "kept iid r2 = kept iid r \<and> d = cur")
      case True
      then show ?thesis using es by (auto simp: kept_def)
    next
      case False
      then obtain e where "kept iid r2 = (fst (kept iid r), snd (kept iid r) @ [e])" "he_source_state e = cur" "he_target_state e = d"
        "takes ev (fst (kept iid r)) cur d" using t d by auto
      then show ?thesis using es by (intro exI [where x = "e # es"]) (simp add: kept_def)
    qed
  next
    case False
    then have "kept iid r2 = kept iid r" using t by auto
    moreover have "r1 = r2 \<or> r1 = snd (sm_finish (clks 1 0) iid cur r2)"
      using Suc.prems x False by (auto split: sum.splits sm_step.splits if_splits)
    ultimately have "kept iid r1 = kept iid r" by auto
    then show ?thesis by (intro exI [where x = "[]"]) (simp add: kept_def)
  qed
qed auto



subsection \<open>The instance during a run\<close>

definition life :: "ProcessInstance \<Rightarrow> string \<times> InstanceState \<times> process_state_obj option" where
  "life i = (pi_id i, pi_state i, pi_state_obj i)"

definition stands :: "string \<Rightarrow> string \<Rightarrow> InstanceState \<Rightarrow> OrchestrationEngine \<Rightarrow> bool" where
  "stands st iid s e \<longleftrightarrow>
     dget (en_instances e) iid = Some Managed \<and> shared e \<and> map_option ss_state (sm_get iid (en_state_manager e)) = Some st \<and>
     (\<exists>i. get_instance iid (en_instance_manager e) = Some i \<and> pi_id i = iid \<and> instance_wf i \<and> pi_state i = s)"

lemma life_set_variable [simp]: "life (pi_set_variable k v i) = life i"
  by (simp add: life_def pi_set_variable_def)

lemma life_perform [simp]: "life (snd (perform_actions sid kind acts i)) = life i"
proof -
  have "life (snd (perform_each sid kind as i)) = life i" for as
    by (induction sid kind as i rule: perform_each.induct) (auto simp: Let_def split: pyval.split sum.split)
  then show ?thesis by (simp add: perform_actions_def split: sum.split)
qed

lemma stands_put:
  assumes "stands st iid s e" "engine_instance iid e = Some i" "life i1 = (iid, s1, ob)" "\<forall>x. ob = Some x \<longrightarrow> x = state_for s1"
  shows "stands st iid s1 (put_engine_instance iid i1 e)"
  using assms by (auto simp: stands_def life_def put_engine_instance_def get_instance_def shared_def instance_wf_def)

lemma stands_instance:
  assumes "stands st iid s e"
  obtains i ob where "engine_instance iid e = Some i" "life i = (iid, s, ob)" "\<forall>x. ob = Some x \<longrightarrow> x = state_for s" "instance_wf i"
  using assms by (auto simp: stands_def engine_instance_def life_def instance_wf_def)

lemma stands_with_instance:
  assumes "stands st iid s e" "\<And>i. life (snd (f i)) = life i"
  shows "stands st iid s (snd (with_instance iid f e))"
proof -
  obtain i ob where i: "engine_instance iid e = Some i" "life i = (iid, s, ob)" "\<forall>x. ob = Some x \<longrightarrow> x = state_for s" "instance_wf i"
    by (rule stands_instance [OF assms(1)])
  have "stands st iid s (put_engine_instance iid (snd (f i)) e)" by (rule stands_put [OF assms(1) i(1) _ i(3)]) (simp add: assms(2) i(2))
  then show ?thesis using i(1) by (simp add: with_instance_def case_prod_beta)
qed

lemma stands_on_instance: "stands st iid s e \<Longrightarrow> (\<And>i. life (f i) = life i) \<Longrightarrow> stands st iid s (on_instance iid f e)"
  using stands_with_instance [of st iid s e "\<lambda>i. (None, f i)"] by (simp add: with_instance_def on_instance_def split: option.splits)

lemma stands_publish:
  assumes "stands st iid s e"
  obtains e1 where "engine_publish clk ids ty data e = (None, e1)" "stands st iid s e1"
proof -
  have "shared e" using assms by (simp add: stands_def)
  then obtain b where "engine_publish clk ids ty data e = (None, set_bus b e)" by (rule engine_publish_ok)
  moreover have "stands st iid s (set_bus b e)" using assms by (simp add: stands_def)
  ultimately show ?thesis using that by blast
qed

lemma stands_complete:
  assumes "stands st iid Instances.ACTIVE (sr_engine r)"
  obtains r1 where "complete_instance clk iid r = (None, r1)" "stands st iid Instances.COMPLETED (sr_engine r1)"
proof -
  obtain i ob where i: "engine_instance iid (sr_engine r) = Some i" "life i = (iid, Instances.ACTIVE, ob)" "instance_wf i"
    by (rule stands_instance [OF assms])
  obtain err i1 where a: "instance_apply clk Instances.Complete i = (err, i1)" by fastforce
  have i1: "err = None" "pi_state i1 = Instances.COMPLETED" "pi_id i1 = iid" "instance_wf i1"
    using instance_apply_status [OF i(3), where x = Instances.Complete and clk = clk] instance_apply_wf [OF i(3), where x = Instances.Complete and clk = clk]
      instance_apply_fields [where i = i and clk = clk and x = Instances.Complete] a i(2) by (simp_all add: life_def)
  have "stands st iid Instances.COMPLETED (put_engine_instance iid i1 (sr_engine r))"
    by (rule stands_put [OF assms i(1), where ob = "pi_state_obj i1"]) (use i1 in \<open>auto simp: life_def instance_wf_def\<close>)
  then show ?thesis using that i(1) a i1(1) by (simp add: complete_instance_def on_run_def with_instance_def)
qed

text \<open>The instance stays active as long as the loop runs.\<close>

abbreviation active :: "string \<Rightarrow> string \<Rightarrow> machine_run \<Rightarrow> bool" where
  "active st iid r \<equiv> stands st iid Instances.ACTIVE (sr_engine r)"

lemma active_simps [simp]:
  "active st iid (put_context k c r) = active st iid r" "active st iid (r\<lparr>sr_history := h\<rparr>) = active st iid r"
  by (simp_all add: put_context_def)

lemma active_variable: "active st iid r \<Longrightarrow> active st iid (set_variable iid k v r)"
  by (simp add: set_variable_def stands_on_instance)

lemma active_perform: "active st iid r \<Longrightarrow> active st iid (snd (perform iid sid kind acts r))"
  using stands_with_instance [of st iid Instances.ACTIVE "sr_engine r" "\<lambda>i. if truthy acts then perform_actions sid kind acts i else (None, i)"]
  by (simp add: perform_def on_run_def case_prod_beta)

lemma active_andthen: "active st iid (snd x) \<Longrightarrow> (\<And>r. active st iid r \<Longrightarrow> active st iid (snd (f r))) \<Longrightarrow> active st iid (snd (andthen x f))"
  by (cases x) (auto simp: andthen_def split: option.split)

lemma active_enter: "active st iid r \<Longrightarrow> active st iid (snd (sm_enter clks uuids iid cur c r))"
proof -
  have p: "active st iid (snd (on_run (engine_publish clk ids ty data) r))" if a: "active st iid r" for r clk ids ty data
  proof -
    obtain e1 where "engine_publish clk ids ty data (sr_engine r) = (None, e1)" "stands st iid Instances.ACTIVE e1" by (rule stands_publish [OF a])
    then show ?thesis by (simp add: on_run_def)
  qed
  show "active st iid r \<Longrightarrow> active st iid (snd (sm_enter clks uuids iid cur c r))"
    unfolding sm_enter_def by (intro active_andthen active_perform p active_variable) simp_all
qed

definition turn_ok :: "string \<Rightarrow> string \<Rightarrow> sm_step result \<times> machine_run \<Rightarrow> bool" where
  "turn_ok st iid x \<longleftrightarrow> (if fst x = Inr Ends then stands st iid Instances.COMPLETED (sr_engine (snd x)) else active st iid (snd x))"

lemma turn_ok_rest: "active st iid r \<Longrightarrow> turn_ok st iid (sm_rest iid cur c r)"
proof -
  assume a: "active st iid r"
  let ?x = "perform iid cur ''exit'' (sc_exit_actions c) (put_context cur (c\<lparr>sc_is_active := True, sc_is_final := True\<rparr>) r)"
  obtain err r1 where x: "?x = (err, r1)" by fastforce
  have "active st iid r1" using active_perform [of st iid "put_context cur (c\<lparr>sc_is_active := True, sc_is_final := True\<rparr>) r" cur "''exit''" "sc_exit_actions c"] a x by simp
  then show ?thesis using a by (auto simp: sm_rest_def turn_ok_def x active_variable split: option.split)
qed

lemma turn_ok_move:
  assumes "active st iid r"
  shows "turn_ok st iid (sm_move clks iid cur tgt trigger r)"
proof -
  obtain r1 where "complete_instance (clks 1) iid r = (None, r1)" "stands st iid Instances.COMPLETED (sr_engine r1)"
    by (rule stands_complete [OF assms])
  then show ?thesis using assms by (simp add: sm_move_def turn_ok_def split: option.split)
qed

lemma turn_ok_leave:
  assumes "active st iid r"
  shows "turn_ok st iid (sm_leave ev clks iid cur c t r)"
proof -
  let ?x = "andthen (perform iid cur ''exit'' (sc_exit_actions c) r) (perform iid cur ''transition'' (pget_or t ''actions'' (PList [])))"
  obtain err r1 where x: "?x = (err, r1)" by fastforce
  have "active st iid (snd ?x)" by (intro active_andthen active_perform assms)
  then have a1: "active st iid r1" unfolding x by simp
  let ?r2 = "set_variable iid (''state.'' @ cur @ ''.active'') (PBool False) (put_context cur (c\<lparr>sc_is_active := False\<rparr>) r1)"
  have a2: "active st iid ?r2" using a1 by (simp add: active_variable)
  show ?thesis
    using assms a1 a2 turn_ok_move [OF a2, of clks cur _ "pget t ''trigger''"] x
    unfolding sm_leave_def Let_def by (auto simp: turn_ok_def split: sum.split option.split bool.split)
qed

lemma turn_ok_turn:
  assumes "active st iid r"
  shows "turn_ok st iid (sm_turn ev clks uuids iid cur r)"
proof -
  let ?r0 = "r\<lparr>sr_engine := on_instance iid (\<lambda>i. i\<lparr>pi_current_activity_id := Some cur\<rparr>) (sr_engine r)\<rparr>"
  have a0: "active st iid ?r0" using assms by (simp add: stands_on_instance life_def)
  show ?thesis
  proof (cases "find_context cur (sr_model ?r0)")
    case None
    then show ?thesis using a0 by (simp add: sm_turn_def turn_ok_def)
  next
    case (Some c)
    obtain err r1 where x: "sm_enter clks uuids iid cur c ?r0 = (err, r1)" by fastforce
    have a1: "active st iid r1" using active_enter [OF a0, of clks uuids cur c] x by simp
    show ?thesis
      using Some x a1 turn_ok_rest [OF a1, of cur c] turn_ok_leave [OF a1, of ev clks cur c]
      by (simp add: sm_turn_def turn_ok_def split: option.split sum.split)
  qed
qed

text \<open>When the executor returns it has completed the instance; when it raises the instance is still active.\<close>

definition run_ok :: "string \<Rightarrow> string \<Rightarrow> machine_run outcome \<Rightarrow> bool" where
  "run_ok st iid x \<longleftrightarrow> (if fst x = None then stands st iid Instances.COMPLETED (sr_engine (snd x)) else active st iid (snd x))"

lemma run_ok_complete:
  assumes "active st iid r"
  shows "run_ok st iid (complete_instance clk iid r)"
proof -
  obtain r1 where "complete_instance clk iid r = (None, r1)" "stands st iid Instances.COMPLETED (sr_engine r1)" by (rule stands_complete [OF assms])
  then show ?thesis by (simp add: run_ok_def)
qed

lemma run_ok_finish:
  assumes "active st iid r"
  shows "run_ok st iid (sm_finish clk iid cur r)"
proof -
  let ?x = "case dget (sml_context (sr_model r)) cur of
      None \<Rightarrow> (None, r)
    | Some c \<Rightarrow> if sc_kind c \<noteq> PStr ''final'' then perform iid (sc_state_id c) ''do'' (sc_do_actions c) r else (None, r)"
  obtain err r1 where x: "?x = (err, r1)" by fastforce
  have "active st iid (snd ?x)" using assms active_perform by (simp split: option.split)
  then have "active st iid r1" unfolding x by simp
  then show ?thesis unfolding sm_finish_def x by (cases err) (simp_all add: run_ok_complete, simp add: run_ok_def)
qed

lemma run_ok_loop: "active st iid r \<Longrightarrow> run_ok st iid (sm_loop ev clks uuids iid n cur r)"
proof (induction n arbitrary: r cur clks uuids)
  case (Suc n)
  obtain res r1 where x: "sm_turn ev (clks 0) (uuids 0) iid cur r = (res, r1)" by fastforce
  have t: "turn_ok st iid (res, r1)" using turn_ok_turn [OF Suc.prems, of ev "clks 0" "uuids 0" cur] x by simp
  then show ?case using x Suc.IH run_ok_finish
    by (auto simp: turn_ok_def run_ok_def split: sum.split sm_step.split)
qed (simp add: run_ok_def)


subsection \<open>A run of the engine\<close>

lemma stands_report:
  assumes "stands st iid s e"
  shows "\<exists>e1. sm_report (\<lambda>_. None) now iid st1 d extra e = (None, e1) \<and> stands st1 iid s e1"
  using assms by (simp add: sm_report_def set_engine_state_eq stands_def shared_def sm_get_set)

lemma executor_ok:
  assumes "stands st iid Instances.ACTIVE e"
  obtains raised x e1 where "sm_execute ev clks uuids iid p x0 e = (raised, x, e1)"
    "stands st iid (if raised = None then Instances.COMPLETED else Instances.ACTIVE) e1"
proof -
  have run: "run_ok st iid (execute_legacy ev clks uuids iid n r)" if "active st iid r" for n r
    using that run_ok_complete [OF that] run_ok_loop [OF that]
    by (auto simp: execute_legacy_def run_ok_def split: sum.split)
  have "\<exists>raised x e1. sm_execute ev clks uuids iid p x0 e = (raised, x, e1) \<and>
      stands st iid (if raised = None then Instances.COMPLETED else Instances.ACTIVE) e1"
  proof (cases "sm_normalize p")
    case (Inr m)
    let ?x = "execute_legacy ev clks uuids iid (pget_or p ''_max_steps'' (PInt 200)) \<lparr>sr_model = m, sr_history = sx_history x0, sr_engine = e\<rparr>"
    obtain err r1 where x: "?x = (err, r1)" by fastforce
    have "run_ok st iid ?x" by (rule run) (simp add: assms)
    then have "stands st iid (if err = None then Instances.COMPLETED else Instances.ACTIVE) (sr_engine r1)"
      unfolding x by (cases err) (simp_all add: run_ok_def)
    then show ?thesis using Inr x by (simp add: sm_execute_def)
  qed (use assms in \<open>auto simp: sm_execute_def\<close>)
  then show ?thesis using that by blast
qed

text \<open>The instance is asked to change to a state, and its state machine allows or refuses it.\<close>

lemma update_stands:
  assumes "stands st iid s e" "requested_transition reason goal = Some (op, ty)" "op \<noteq> Instances.Resume"
  shows "\<exists>err e1. update_instance_state (\<lambda>_. None) clks uuids iid goal reason e = (err, e1) \<and>
    (if instance_spec s op = Some goal then err = None \<and> (\<exists>i. engine_instance iid e1 = Some i \<and> pi_state i = goal)
     else instance_spec s op = None \<longrightarrow> (\<exists>msg. err = Some (RuntimeError msg)) \<and> stands st iid s e1)"
proof -
  obtain i ob where i: "engine_instance iid e = Some i" "life i = (iid, s, ob)" "\<forall>x. ob = Some x \<longrightarrow> x = state_for s" "instance_wf i"
    by (rule stands_instance [OF assms(1)])
  have g: "shared e" "dget (en_instances e) iid = Some Managed" "get_instance iid (en_instance_manager e) = Some i"
    using assms(1) i(1) by (auto simp: stands_def engine_instance_def)
  obtain err i1 where a: "instance_apply (clks 0) op i = (err, i1)" by fastforce
  have id: "pi_id i1 = iid" using instance_apply_fields [where i = i and clk = "clks 0" and x = op] a i(2) by (simp add: life_def)
  note sp = instance_apply_status [OF i(4), where x = op and clk = "clks 0"]
  show ?thesis
  proof (cases "instance_spec s op")
    case None
    then obtain msg where m: "err = Some (RuntimeError msg)" "i1 = i\<lparr>pi_state_obj := Some (state_for s)\<rparr>" using sp a i(2) by (auto simp: life_def)
    have "update_instance_state (\<lambda>_. None) clks uuids iid goal reason e = (Some (RuntimeError msg), put_engine_instance iid i1 e)"
      using assms(2,3) a m(1) i(1) by (simp add: update_instance_state_def service_update_state_def transition_instance_def)
    moreover have "stands st iid s (put_engine_instance iid i1 e)"
      by (rule stands_put [OF assms(1) i(1), where ob = "Some (state_for s)"]) (use m(2) i(2) in \<open>auto simp: life_def\<close>)
    ultimately show ?thesis using None by simp
  next
    case (Some s2)
    then have "s2 = goal" by (rule requested_transition_target [OF assms(2)])
    then have t: "transition_instance (clks 0) reason goal i = (Inr ty, i1)" "pi_state i1 = goal"
      using sp a Some i(2) assms(2,3) by (auto simp: transition_instance_def life_def)
    obtain e1 where "update_instance_state (\<lambda>_. None) clks uuids iid goal reason e = (None, e1)" "engine_instance iid e1 = Some i1"
      by (rule update_applied [where clks = clks and uuids = uuids, OF g id t(1)]) blast
    then show ?thesis using Some \<open>s2 = goal\<close> t(2) by auto
  qed
qed


definition demo_machine :: StateMachineEngine where
  "demo_machine = \<lparr>sme_executor = \<lparr>sx_history = history_init, sx_models = []\<rparr>, sme_contexts = context_manager_init None\<rparr>"


subsection \<open>Climbing the hierarchy\<close>

definition up :: "HierarchicalHandler \<Rightarrow> StateNode option \<Rightarrow> StateNode option" where
  "up h c = (case c of None \<Rightarrow> None | Some s \<Rightarrow> get_parent (sn_state_id s) h)"

lemma up_None [simp]: "(up h ^^ n) None = None"
  by (induction n) (simp_all add: up_def)

lemma climb_None: "climb h None = Some []"
  by (simp add: climb.simps)

lemma climb_Some: "climb h (Some s) = map_option ((#) s) (climb h (up h (Some s)))"
  by (subst climb.simps) (simp add: up_def split: option.split bind_splits)

text \<open>A climb ends exactly if the parents come to an end.\<close>

lemma climb_length: "climb h c = Some ss \<Longrightarrow> (up h ^^ length ss) c = None"
proof (induction ss arbitrary: c)
  case Nil
  then show ?case by (cases c) (auto simp: climb_Some)
next
  case (Cons s ss)
  then obtain s1 where "c = Some s1" "climb h (up h c) = Some ss" by (cases c) (auto simp: climb_None climb_Some)
  then show ?case using Cons.IH by (simp add: funpow_swap1)
qed

lemma climb_ends: "(up h ^^ n) c = None \<Longrightarrow> climb h c \<noteq> None"
proof (induction n arbitrary: c)
  case (Suc n)
  then have "climb h (up h c) \<noteq> None" by (simp add: funpow_swap1)
  then show ?case by (cases c) (auto simp: climb_None climb_Some)
qed (simp add: climb_None)

lemma climb_to_find: "climb h c = Some ss \<Longrightarrow> climb_to h ids c = Some (List.find (\<lambda>s. sn_state_id s \<in> set ids) ss)"
proof (induction ss arbitrary: c)
  case Nil
  then show ?case by (cases c) (auto simp: climb_Some climb_to.simps)
next
  case (Cons s ss)
  then obtain s1 where "c = Some s1" "climb h (up h c) = Some ss" by (cases c) (auto simp: climb_None climb_Some)
  moreover from this Cons.prems have "s1 = s" by (simp add: climb_Some)
  ultimately show ?case using Cons.IH [of "up h c"] by (simp add: climb_to.simps [of h ids "Some s"] up_def)
qed

lemma find_first:
  "case List.find P xs of None \<Rightarrow> \<forall>x\<in>set xs. \<not> P x | Some x \<Rightarrow> P x \<and> (\<exists>us vs. xs = us @ x # vs \<and> (\<forall>u\<in>set us. \<not> P u))"
proof (induction xs)
  case (Cons a xs)
  show ?case
  proof (cases "P a")
    case False
    then show ?thesis using Cons.IH by (fastforce split: option.splits intro: exI [of _ "a # us" for us])
  qed (fastforce intro: exI [of _ "[]"])
qed simp


definition demo_state :: "string \<Rightarrow> string option \<Rightarrow> StateNode" where
  "demo_state sid p = \<lparr>sn_state_id = sid, sn_parent = p, sn_children = [], sn_entry_actions = [], sn_exit_actions = []\<rparr>"

definition demo_hierarchy :: HierarchicalHandler where
  "demo_hierarchy = fold state_register [demo_state ''top'' None, demo_state ''a'' (Some ''top''), demo_state ''b'' (Some ''a''), demo_state ''c'' (Some ''a'')] []"


end
