(* ===== verification/Operations.thy ===== *)
theory Operations
  imports BpmnExecution
begin

section \<open>Operations on running instances\<close>

text \<open>
  \<open>runtime/migration.py\<close> (migration of instances and operations on batches of them, on top of the engine),
  \<open>runtime/dynamic_injection.py\<close>, \<open>runtime/listeners.py\<close>, \<open>runtime/async_continuation.py\<close>, \<open>runtime/command.py\<close>,
  \<open>runtime/compensation.py\<close> and \<open>runtime/error_handler.py\<close>.  Callbacks, hooks, commands and the bus of the error handler
  are parameters.  Fields that no operation reads (descriptions, parameters of a batch, names of steps) are left out.
\<close>

subsection \<open>Batches\<close>

text \<open>\<open>xs[i:i + n] for i in range(0, len(xs), n)\<close>: a step of zero raises, a negative one gives no batch.\<close>

fun batches :: "nat \<Rightarrow> 'a list \<Rightarrow> 'a list list" where
  "batches n [] = []"
| "batches n (x # xs) = take n (x # xs) # batches n (drop (n - 1) xs)"

definition batched :: "int \<Rightarrow> 'a list \<Rightarrow> 'a list list result" where
  "batched n xs =
     (if n = 0 then Inl (ValueError ''range() arg 3 must not be zero'') else if n < 0 then Inr [] else Inr (batches (nat n) xs))"

lemma concat_batches: "n > 0 \<Longrightarrow> concat (batches n xs) = xs"
proof (induction n xs rule: batches.induct)
  case (2 n x xs)
  then show ?case by (cases n) simp_all
qed simp

text \<open>An operation on every element of every batch: failures are counted and reported, and the rest goes on.\<close>

record tally_of =
  to_done :: nat
  to_failed :: nat
  to_errors :: "(string \<times> string) list"

fun each_of :: "(nat \<Rightarrow> string \<Rightarrow> 's \<Rightarrow> 's outcome) \<Rightarrow> string list \<Rightarrow> tally_of \<Rightarrow> 's \<Rightarrow> tally_of \<times> 's" where
  "each_of act [] t s = (t, s)"
| "each_of act (iid # iids) t s =
     (case act 0 iid s of
        (None, s1) \<Rightarrow> each_of (act \<circ> Suc) iids (t\<lparr>to_done := to_done t + 1\<rparr>) s1
      | (Some err, s1) \<Rightarrow>
          each_of (act \<circ> Suc) iids (t\<lparr>to_failed := to_failed t + 1, to_errors := to_errors t @ [(iid, exception_text err)]\<rparr>) s1)"

fun each_batch :: "(nat \<Rightarrow> string \<Rightarrow> 's \<Rightarrow> 's outcome) \<Rightarrow> string list list \<Rightarrow> tally_of \<Rightarrow> 's \<Rightarrow> tally_of \<times> 's" where
  "each_batch act [] t s = (t, s)"
| "each_batch act (b # bs) t s = (case each_of act b t s of (t1, s1) \<Rightarrow> each_batch (\<lambda>k. act (k + length b)) bs t1 s1)"

definition no_tally :: tally_of where
  "no_tally = \<lparr>to_done = 0, to_failed = 0, to_errors = []\<rparr>"

subsection \<open>Migration\<close>

record MigrationMapping =
  mm_source_activity_id :: string
  mm_target_activity_id :: string
  mm_update_event_trigger :: bool

record MigrationPlan =
  mp_source_definition_key :: string
  mp_source_definition_version :: int
  mp_target_definition_key :: string
  mp_target_definition_version :: int
  mp_activity_mappings :: "MigrationMapping list"
  mp_validate_only :: bool

record MigrationResult =
  mr_migration_id :: string
  mr_plan :: MigrationPlan
  mr_instances_migrated :: nat
  mr_instances_failed :: nat
  mr_instances_skipped :: nat
  mr_errors :: "pydict list"
  mr_started_at :: string
  mr_completed_at :: "string option"
  mr_status :: string
  mr_total_count :: nat

definition source_id :: "MigrationPlan \<Rightarrow> string" where
  "source_id p = mp_source_definition_key p @ '':'' @ int_str (mp_source_definition_version p)"

definition target_id :: "MigrationPlan \<Rightarrow> string" where
  "target_id p = mp_target_definition_key p @ '':'' @ int_str (mp_target_definition_version p)"

definition migration_mapping :: "pydict \<Rightarrow> MigrationMapping result" where
  "migration_mapping m =
     bindr (bindr (pindex m ''source'') as_str) (\<lambda>s.
     bindr (bindr (pindex m ''target'') as_str) (\<lambda>t.
       Inr \<lparr>mm_source_activity_id = s, mm_target_activity_id = t, mm_update_event_trigger = truthy (pget_or m ''update_event_trigger'' (PBool False))\<rparr>))"

definition create_migration_plan :: "string \<Rightarrow> int \<Rightarrow> string \<Rightarrow> int \<Rightarrow> pydict list option \<Rightarrow> MigrationPlan result" where
  "create_migration_plan skey sver tkey tver mappings =
     bindr (mapr migration_mapping (case mappings of None \<Rightarrow> [] | Some ms \<Rightarrow> ms)) (\<lambda>ms.
       Inr \<lparr>mp_source_definition_key = skey, mp_source_definition_version = sver, mp_target_definition_key = tkey,
            mp_target_definition_version = tver, mp_activity_mappings = ms, mp_validate_only = False\<rparr>)"

text \<open>
  Whether the model of a definition has an activity.  \<open>xml\<close> is the value of \<open>definition_xml\<close>; a deployed definition
  has a text there.
\<close>

definition holds_key :: "pyval \<Rightarrow> string \<Rightarrow> bool result" where
  "holds_key v k =
     (case v of
        PDict d \<Rightarrow> Inr (has_key d k)
      | PList vs \<Rightarrow> Inr (PStr k \<in> set vs)
      | PTuple vs \<Rightarrow> Inr (PStr k \<in> set vs)
      | PStr s \<Rightarrow> Inl (Unmodelled ''in'')
      | PObj _ \<Rightarrow> Inl (Unmodelled ''in'')
      | _ \<Rightarrow> Inl (TypeError ''in''))"

definition declares :: "(ProcessDefinition \<Rightarrow> pyval) \<Rightarrow> ProcessDefinition option \<Rightarrow> string \<Rightarrow> bool result" where
  "declares xml d aid =
     (case d of
        None \<Rightarrow> Inr False
      | Some d \<Rightarrow> (case xml d of PDict x \<Rightarrow> holds_key (pget_or x ''flow_elements'' (PDict [])) aid | _ \<Rightarrow> Inr False))"

fun mapping_errors :: "(ProcessDefinition \<Rightarrow> pyval) \<Rightarrow> ProcessDefinition option \<Rightarrow> ProcessDefinition option \<Rightarrow> MigrationMapping list \<Rightarrow> string list result" where
  "mapping_errors xml src tgt [] = Inr []"
| "mapping_errors xml src tgt (m # ms) =
     bindr (declares xml src (mm_source_activity_id m)) (\<lambda>s.
     bindr (declares xml tgt (mm_target_activity_id m)) (\<lambda>t.
     bindr (mapping_errors xml src tgt ms) (\<lambda>es.
       Inr ((if s then [] else [''Source activity not found: '' @ mm_source_activity_id m]) @
            (if t then [] else [''Target activity not found: '' @ mm_target_activity_id m]) @ es))))"

definition validate_migration :: "(ProcessDefinition \<Rightarrow> pyval) \<Rightarrow> MigrationPlan \<Rightarrow> OrchestrationEngine \<Rightarrow> string list result" where
  "validate_migration xml p e =
     (let src = get_definition (mp_source_definition_key p) (Some (mp_source_definition_version p)) (en_registry e);
          tgt = get_definition (mp_target_definition_key p) (Some (mp_target_definition_version p)) (en_registry e)
      in bindr (mapping_errors xml src tgt (mp_activity_mappings p)) (\<lambda>es.
           Inr ((if src = None then [''Source definition not found: '' @ source_id p] else []) @
                (if tgt = None then [''Target definition not found: '' @ target_id p] else []) @ es)))"

text \<open>The mappings are applied one after the other to the instance's current activity.\<close>

fun apply_mappings :: "clock \<Rightarrow> MigrationMapping list \<Rightarrow> ProcessInstance \<Rightarrow> ProcessInstance" where
  "apply_mappings clk [] i = i"
| "apply_mappings clk (m # ms) i =
     (if pi_current_activity_id i = Some (mm_source_activity_id m)
      then apply_mappings (clk \<circ> Suc) ms
             (pi_set_variable ''_migration_mapping''
                (PDict [(''source'', PStr (mm_source_activity_id m)), (''target'', PStr (mm_target_activity_id m)), (''migrated_at'', PStr (isoformat (clk 0)))])
                (i\<lparr>pi_current_activity_id := Some (mm_target_activity_id m)\<rparr>))
      else apply_mappings clk ms i)"

definition migrate_single_instance :: "clock \<Rightarrow> MigrationPlan \<Rightarrow> string \<Rightarrow> OrchestrationEngine \<Rightarrow> OrchestrationEngine outcome" where
  "migrate_single_instance clk p iid e =
     (case engine_instance iid e of
        None \<Rightarrow> (Some (ValueError (''Instance not found: '' @ iid)), e)
      | Some i \<Rightarrow> (None, put_engine_instance iid (apply_mappings clk (mp_activity_mappings p) i) e))"

definition instances_where :: "(ProcessInstance \<Rightarrow> bool) \<Rightarrow> OrchestrationEngine \<Rightarrow> string list" where
  "instances_where P e = filter (\<lambda>iid. case engine_instance iid e of None \<Rightarrow> False | Some i \<Rightarrow> P i) (dkeys (en_instances e))"

text \<open>\<open>strftime('%Y%m%d%H%M%S')\<close>: the digits of the date and the time to the second\<close>

definition stamp :: "datetime \<Rightarrow> string" where
  "stamp now = filter (\<lambda>c. digit_val c \<noteq> None) (take 19 (isoformat now))"

definition error_entry :: "string \<times> string \<Rightarrow> pydict" where
  "error_entry x = [(''instance_id'', PStr (fst x)), (''error'', PStr (snd x))]"

definition execute_migration ::
  "(ProcessDefinition \<Rightarrow> pyval) \<Rightarrow> clock \<Rightarrow> (nat \<Rightarrow> clock) \<Rightarrow> MigrationPlan \<Rightarrow> string list option \<Rightarrow> int \<Rightarrow> OrchestrationEngine
    \<Rightarrow> MigrationResult result \<times> OrchestrationEngine" where
  "execute_migration xml clk clks p iids sz e =
     (let r0 = \<lparr>mr_migration_id = ''mig_'' @ stamp (clk 0), mr_plan = p, mr_instances_migrated = 0, mr_instances_failed = 0, mr_instances_skipped = 0,
                mr_errors = [], mr_started_at = isoformat (clk 1), mr_completed_at = None, mr_status = ''pending'', mr_total_count = 0\<rparr>
      in case validate_migration xml p e of
           Inl err \<Rightarrow> (Inl err, e)
         | Inr es \<Rightarrow>
             if mp_validate_only p
             then (Inr (if es \<noteq> [] then r0\<lparr>mr_errors := map (\<lambda>x. [(''validation'', PStr x)]) es, mr_status := ''validation_failed''\<rparr>
                        else r0\<lparr>mr_status := ''validated''\<rparr>), e)
             else if es \<noteq> []
             then (Inr (r0\<lparr>mr_errors := map (\<lambda>x. [(''validation'', PStr x)]) es, mr_status := ''failed''\<rparr>), e)
             else
               (let ids = (case iids of
                             Some ids \<Rightarrow> ids
                           | None \<Rightarrow> instances_where (\<lambda>i. pi_definition_key i = mp_source_definition_key p \<and>
                                       pi_state i \<in> {Instances.ACTIVE, Instances.SUSPENDED}) e)
                in case batched sz ids of
                     Inl err \<Rightarrow> (Inl err, e)
                   | Inr bs \<Rightarrow>
                       (case each_batch (\<lambda>k. migrate_single_instance (clks k) p) bs no_tally e of
                          (t, e1) \<Rightarrow>
                            (Inr (r0\<lparr>mr_instances_migrated := to_done t, mr_instances_failed := to_failed t,
                                     mr_errors := map error_entry (to_errors t),
                                     mr_status := (if to_failed t = 0 then ''completed'' else ''completed_with_errors''),
                                     mr_completed_at := Some (isoformat (clk 2)), mr_total_count := length ids\<rparr>), e1))))"

subsection \<open>Operations on batches of instances\<close>

record BatchOperation =
  bo_operation_id :: string
  bo_operation_type :: string
  bo_instance_filter :: pydict
  bo_total_count :: nat
  bo_processed_count :: nat
  bo_failed_count :: nat
  bo_status :: string
  bo_errors :: "pydict list"
  bo_created_at :: string
  bo_started_at :: "string option"
  bo_completed_at :: "string option"

type_synonym BatchOperationManager = "(string, BatchOperation) dict"

definition instance_filter :: "string option \<Rightarrow> pydict" where
  "instance_filter key = (case nonempty_opt key of [] \<Rightarrow> [] | k # _ \<Rightarrow> [(''definition_key'', PStr k)])"

definition matches_filter :: "pydict \<Rightarrow> ProcessInstance \<Rightarrow> bool" where
  "matches_filter f i = list_all (\<lambda>(k, v). k = ''definition_key'' \<longrightarrow> v = PStr (pi_definition_key i)) f"

definition execute_batch ::
  "clock \<Rightarrow> string \<Rightarrow> string \<Rightarrow> pydict \<Rightarrow> string list option \<Rightarrow> int \<Rightarrow> (nat \<Rightarrow> string \<Rightarrow> OrchestrationEngine \<Rightarrow> OrchestrationEngine outcome)
    \<Rightarrow> BatchOperationManager \<Rightarrow> OrchestrationEngine \<Rightarrow> BatchOperation result \<times> BatchOperationManager \<times> OrchestrationEngine" where
  "execute_batch clk uuid ty flt iids sz act b e =
     (let ids = (case iids of Some ids \<Rightarrow> ids | None \<Rightarrow> instances_where (matches_filter flt) e)
      in case batched sz ids of
           Inl err \<Rightarrow> (Inl err, b, e)
         | Inr bs \<Rightarrow>
             (case each_batch act bs no_tally e of
                (t, e1) \<Rightarrow>
                  (let op = \<lparr>bo_operation_id = uuid, bo_operation_type = ty, bo_instance_filter = flt, bo_total_count = length ids,
                             bo_processed_count = to_done t, bo_failed_count = to_failed t,
                             bo_status = (if to_failed t = 0 then ''completed'' else ''completed_with_errors''),
                             bo_errors = map error_entry (to_errors t), bo_created_at = isoformat (clk 0),
                             bo_started_at = Some (isoformat (clk 1)), bo_completed_at = Some (isoformat (clk 2))\<rparr>
                   in (Inr op, dset uuid op b, e1))))"

definition suspend_instances ::
  "(InstanceStateSnapshot \<Rightarrow> py_error option) \<Rightarrow> clock \<Rightarrow> (nat \<Rightarrow> nat \<Rightarrow> clock) \<Rightarrow> string \<Rightarrow> (nat \<Rightarrow> nat \<Rightarrow> nat \<Rightarrow> string) \<Rightarrow> string option
    \<Rightarrow> string list option \<Rightarrow> int \<Rightarrow> BatchOperationManager \<Rightarrow> OrchestrationEngine
    \<Rightarrow> BatchOperation result \<times> BatchOperationManager \<times> OrchestrationEngine" where
  "suspend_instances ser clk clks uuid uuids key iids sz =
     execute_batch clk uuid ''suspend'' (instance_filter key) iids sz
       (\<lambda>k iid. update_instance_state ser (clks k) (uuids k) iid Instances.SUSPENDED (Some ''batch-suspend''))"

definition resume_instances ::
  "(InstanceStateSnapshot \<Rightarrow> py_error option) \<Rightarrow> clock \<Rightarrow> (nat \<Rightarrow> nat \<Rightarrow> clock) \<Rightarrow> string \<Rightarrow> (nat \<Rightarrow> nat \<Rightarrow> nat \<Rightarrow> string) \<Rightarrow> string option
    \<Rightarrow> string list option \<Rightarrow> int \<Rightarrow> BatchOperationManager \<Rightarrow> OrchestrationEngine
    \<Rightarrow> BatchOperation result \<times> BatchOperationManager \<times> OrchestrationEngine" where
  "resume_instances ser clk clks uuid uuids key iids sz =
     execute_batch clk uuid ''resume'' (instance_filter key) iids sz
       (\<lambda>k iid. update_instance_state ser (clks k) (uuids k) iid Instances.ACTIVE (Some ''batch-resume''))"

definition delete_batch ::
  "(InstanceStateSnapshot \<Rightarrow> py_error option) \<Rightarrow> clock \<Rightarrow> (nat \<Rightarrow> nat \<Rightarrow> clock) \<Rightarrow> string \<Rightarrow> (nat \<Rightarrow> nat \<Rightarrow> nat \<Rightarrow> string) \<Rightarrow> string option
    \<Rightarrow> string list option \<Rightarrow> int \<Rightarrow> BatchOperationManager \<Rightarrow> OrchestrationEngine
    \<Rightarrow> BatchOperation result \<times> BatchOperationManager \<times> OrchestrationEngine" where
  "delete_batch ser clk clks uuid uuids key iids sz =
     execute_batch clk uuid ''delete'' (instance_filter key) iids sz
       (\<lambda>k iid. delete_instance ser (clks k) (uuids k) iid ''batch-delete'')"

definition get_operation :: "string \<Rightarrow> BatchOperationManager \<Rightarrow> BatchOperation option" where
  "get_operation oid b = dget b oid"

text \<open>\<open>sorted(..., reverse=True)\<close> keeps the order of equal elements.\<close>

definition list_operations :: "string option \<Rightarrow> BatchOperationManager \<Rightarrow> BatchOperation list" where
  "list_operations ty b = rev (sort_key bo_created_at (rev (filter (\<lambda>o1. given ty (\<lambda>s. bo_operation_type o1 = s)) (dvals b))))"

text \<open>
  \<open>modify_instance\<close>: the token manager has neither \<open>cancel_at\<close> nor \<open>move_to\<close>, so that moving the tokens of an instance
  that has any raises.
\<close>

fun set_both :: "clock \<Rightarrow> (nat \<Rightarrow> string) \<Rightarrow> string \<Rightarrow> pydict \<Rightarrow> OrchestrationEngine \<Rightarrow> OrchestrationEngine outcome" where
  "set_both clk ids iid [] e = (None, e)"
| "set_both clk ids iid ((n, v) # kvs) e =
     (let e1 = on_instance iid (pi_set_variable n v) e
      in case vm_set_persisted (clk 0) (ids 0) iid iid n v None True None (en_variable_manager e1) of
           (Some err, m) \<Rightarrow> (Some err, e1\<lparr>en_variable_manager := m\<rparr>)
         | (None, m) \<Rightarrow> set_both (clk \<circ> Suc) (ids \<circ> Suc) iid kvs (e1\<lparr>en_variable_manager := m\<rparr>))"

definition modify_instance ::
  "clock \<Rightarrow> (nat \<Rightarrow> string) \<Rightarrow> string \<Rightarrow> string option \<Rightarrow> string option \<Rightarrow> pydict \<Rightarrow> string option \<Rightarrow> OrchestrationEngine
    \<Rightarrow> pydict result \<times> OrchestrationEngine" where
  "modify_instance clk ids iid activity transition vars cancel_at e =
     (let result = (\<lambda>st. [(''instance_id'', PStr iid), (''status'', PStr st)]);
          tokens = get_instance_tokens iid (en_token_manager e)
      in if engine_instance iid e = None then (Inr (result ''not_found''), e)
         else if nonempty_opt activity \<noteq> [] \<and> tokens \<noteq> []
         then (Inl (AttributeError (if nonempty_opt cancel_at \<noteq> [] then ''cancel_at'' else ''move_to'')), e)
         else (case set_both clk ids iid vars e of
                 (Some err, e1) \<Rightarrow> (Inl err, e1)
               | (None, e1) \<Rightarrow>
                   if nonempty_opt transition \<noteq> [] \<and> (\<exists>t \<in> set (get_instance_tokens iid (en_token_manager e1)). current_element_id t = activity)
                   then (Inl (AttributeError ''move_to''), e1)
                   else (Inr (result ''completed''), e1)))"

subsection \<open>Batches of state changes\<close>

text \<open>
  What a batch operation means: for every id in turn, an unknown instance or one that does not admit the change is
  reported, the state of every other one is changed.
\<close>

definition istates :: "OrchestrationEngine \<Rightarrow> string \<rightharpoonup> InstanceState" where
  "istates e iid = map_option pi_state (engine_instance iid e)"

definition healthy :: "OrchestrationEngine \<Rightarrow> bool" where
  "healthy e \<longleftrightarrow> shared e \<and> (\<forall>iid i. engine_instance iid e = Some i \<longrightarrow> instance_wf i)"

definition suspend_spec :: "InstanceState \<Rightarrow> InstanceState option" where
  "suspend_spec s = (if s = Instances.ACTIVE then Some Instances.SUSPENDED else None)"

definition resume_spec :: "InstanceState \<Rightarrow> InstanceState option" where
  "resume_spec s = Some (if s = Instances.SUSPENDED then Instances.ACTIVE else s)"

fun batch_spec ::
  "(InstanceState \<Rightarrow> InstanceState option) \<Rightarrow> string list \<Rightarrow> (string \<rightharpoonup> InstanceState) \<Rightarrow> nat \<times> string list \<times> (string \<rightharpoonup> InstanceState)" where
  "batch_spec f [] m = (0, [], m)"
| "batch_spec f (iid # iids) m =
     (case Option.bind (m iid) f of
        None \<Rightarrow> (case batch_spec f iids m of (n, es, m1) \<Rightarrow> (n, iid # es, m1))
      | Some s \<Rightarrow> (case batch_spec f iids (m(iid \<mapsto> s)) of (n, es, m1) \<Rightarrow> (n + 1, es, m1)))"

lemma engine_instance_put:
  "engine_instance iid e = Some i \<Longrightarrow> engine_instance jid (put_engine_instance iid i1 e) = (if jid = iid then Some i1 else engine_instance jid e)"
  by (auto simp: engine_instance_def put_engine_instance_def get_instance_def split: option.splits instance_ref.splits)

lemma shared_put [simp]: "shared (put_engine_instance iid i e) = shared e"
  by (simp add: put_engine_instance_def shared_def split: option.split instance_ref.split)

lemma update_view:
  assumes "shared e" "engine_instance iid e = Some i" "transition_instance (clks 0) reason st i = (res, i1)"
  obtains e1 where "update_instance_state (\<lambda>_. None) clks uuids iid st reason e = (case res of Inl err \<Rightarrow> Some err | Inr _ \<Rightarrow> None, e1)"
    "shared e1" "\<And>jid. engine_instance jid e1 = (if jid = iid then Some i1 else engine_instance jid e)"
proof (cases res)
  case (Inl err)
  show ?thesis
    by (rule that [of "put_engine_instance iid i1 e"])
      (use assms Inl in \<open>simp_all add: update_instance_state_def service_update_state_def engine_instance_put\<close>)
next
  case (Inr ty)
  define e2 where "e2 = (persist_managed (clks 1 0) (uuids 1 0) (pi_id i1) (put_engine_instance iid i1 e))
    \<lparr>en_state_manager := snd (sm_set (clks 1 1) (pi_id i1) (instance_state_value st) (Some (updated_data i1))
       (en_state_manager (persist_managed (clks 1 0) (uuids 1 0) (pi_id i1) (put_engine_instance iid i1 e))))\<rparr>"
  have sh: "shared e2" using assms(1) by (simp add: e2_def shared_def) (simp add: shared_def [symmetric])
  then obtain b where p: "engine_publish (clks 2) (uuids 2) ty
      [(''instance_id'', PStr (pi_id i1)), (''state'', PStr (instance_state_value st)), (''reason'', opt_str reason)] e2 = (None, set_bus b e2)"
    by (rule engine_publish_ok)
  let ?e1 = "track_state iid st (set_bus b e2)"
  have "update_instance_state (\<lambda>_. None) clks uuids iid st reason e = (None, ?e1)"
    using assms(2,3) Inr p
    by (simp add: update_instance_state_def service_update_state_def set_engine_state_eq e2_def [symmetric] del: instance_state_value.simps One_nat_def)
  moreover have "shared ?e1" using sh by (simp add: track_state_def shared_def)
  moreover have "engine_instance jid ?e1 = engine_instance jid (put_engine_instance iid i1 e)" for jid
    by (rule engine_instance_cong) (simp_all add: e2_def)
  ultimately show ?thesis using that Inr engine_instance_put [OF assms(2)] by simp
qed

text \<open>What a request does to the state of an instance.\<close>

lemma transition_spec:
  assumes "instance_wf i" "transition_instance clk reason st i = (res, i1)"
    and "(st, f) \<in> {(Instances.SUSPENDED, suspend_spec), (Instances.ACTIVE, resume_spec)}"
  shows "instance_wf i1" "case f (pi_state i) of None \<Rightarrow> (\<exists>err. res = Inl err) \<and> pi_state i1 = pi_state i | Some s \<Rightarrow> (\<exists>ty. res = Inr ty) \<and> pi_state i1 = s"
  using assms instance_apply_status [OF assms(1), where x = Instances.Suspend and clk = clk] instance_apply_wf [OF assms(1), where x = Instances.Suspend and clk = clk]
    instance_apply_status [OF assms(1), where x = Instances.Resume and clk = clk] instance_apply_wf [OF assms(1), where x = Instances.Resume and clk = clk]
  by (auto simp: transition_instance_def suspend_spec_def resume_spec_def split: prod.splits option.splits if_splits, (cases "pi_state i"; auto)+)

lemma update_step:
  assumes "healthy e" and "(st, f) \<in> {(Instances.SUSPENDED, suspend_spec), (Instances.ACTIVE, resume_spec)}"
  obtains err e1 where "update_instance_state (\<lambda>_. None) clks uuids iid st reason e = (err, e1)" "healthy e1"
    "case Option.bind (istates e iid) f of None \<Rightarrow> err \<noteq> None \<and> istates e1 = istates e | Some s \<Rightarrow> err = None \<and> istates e1 = (istates e)(iid \<mapsto> s)"
proof (cases "engine_instance iid e")
  case None
  then show ?thesis using that assms(1) by (simp add: update_instance_state_def istates_def)
next
  case (Some i)
  obtain res i1 where t: "transition_instance (clks 0) reason st i = (res, i1)" by fastforce
  have wf: "shared e" "instance_wf i" using assms(1) Some by (auto simp: healthy_def)
  obtain e1 where u: "update_instance_state (\<lambda>_. None) clks uuids iid st reason e = (case res of Inl err \<Rightarrow> Some err | Inr _ \<Rightarrow> None, e1)"
    "shared e1" "\<And>jid. engine_instance jid e1 = (if jid = iid then Some i1 else engine_instance jid e)"
    by (rule update_view [where clks = clks and uuids = uuids, OF wf(1) Some t]) blast
  note s = transition_spec [OF wf(2) t assms(2)]
  have h: "healthy e1" using u(2,3) s(1) assms(1) by (auto simp: healthy_def)
  have "istates e1 = (istates e)(iid \<mapsto> pi_state i1)" using u(3) by (auto simp: istates_def)
  moreover have "istates e iid = Some (pi_state i)" using Some by (simp add: istates_def)
  ultimately show ?thesis using that [OF u(1) h] s(2) by (cases "f (pi_state i)") (auto simp: fun_upd_idem)
qed

text \<open>The tally only grows, and what it has grown by and the states follow the specification.\<close>

lemma each_of_spec:
  assumes "healthy e" and "(st, f) \<in> {(Instances.SUSPENDED, suspend_spec), (Instances.ACTIVE, resume_spec)}"
  shows "\<exists>t1 e1 n es. each_of (\<lambda>k iid. update_instance_state (\<lambda>_. None) (clks k) (uuids k) iid st reason) iids t e = (t1, e1) \<and> healthy e1 \<and>
    batch_spec f iids (istates e) = (n, es, istates e1) \<and> to_done t1 = to_done t + n \<and> to_failed t1 = to_failed t + length es \<and>
    map fst (to_errors t1) = map fst (to_errors t) @ es"
  using assms(1)
proof (induction iids arbitrary: clks uuids t e)
  case (Cons iid iids)
  obtain err e1 where u: "update_instance_state (\<lambda>_. None) (clks 0) (uuids 0) iid st reason e = (err, e1)" "healthy e1"
    "case Option.bind (istates e iid) f of None \<Rightarrow> err \<noteq> None \<and> istates e1 = istates e | Some s \<Rightarrow> err = None \<and> istates e1 = (istates e)(iid \<mapsto> s)"
    by (rule update_step [OF Cons.prems assms(2)]) blast
  let ?t = "case err of None \<Rightarrow> t\<lparr>to_done := to_done t + 1\<rparr>
    | Some x \<Rightarrow> t\<lparr>to_failed := to_failed t + 1, to_errors := to_errors t @ [(iid, exception_text x)]\<rparr>"
  obtain t1 e2 n es where ih: "each_of (\<lambda>k iid. update_instance_state (\<lambda>_. None) (clks (Suc k)) (uuids (Suc k)) iid st reason) iids ?t e1 = (t1, e2)"
    "healthy e2" "batch_spec f iids (istates e1) = (n, es, istates e2)" "to_done t1 = to_done ?t + n" "to_failed t1 = to_failed ?t + length es"
    "map fst (to_errors t1) = map fst (to_errors ?t) @ es"
    using Cons.IH [OF u(2), of "clks \<circ> Suc" "uuids \<circ> Suc" ?t] by auto
  have o: "(\<lambda>k iid. update_instance_state (\<lambda>_. None) (clks k) (uuids k) iid st reason) \<circ> Suc =
      (\<lambda>k iid. update_instance_state (\<lambda>_. None) (clks (Suc k)) (uuids (Suc k)) iid st reason)" by (simp add: fun_eq_iff)
  show ?case
  proof (cases "Option.bind (istates e iid) f")
    case None
    then obtain x where "err = Some x" "istates e1 = istates e" using u(3) by auto
    then show ?thesis using u(1) ih None by (simp add: o)
  next
    case (Some s)
    then have "err = None" "istates e1 = (istates e)(iid \<mapsto> s)" using u(3) by auto
    then show ?thesis using u(1) ih Some by (simp add: o)
  qed
qed simp

lemma each_batch_concat: "each_batch act bs t s = each_of act (concat bs) t s"
proof (induction bs arbitrary: act t s)
  case (Cons b bs)
  have "each_of act (b @ iids) t s = (case each_of act b t s of (t1, s1) \<Rightarrow> each_of (\<lambda>k. act (k + length b)) iids t1 s1)" for iids
  proof (induction b arbitrary: act t s)
    case (Cons a b)
    have "(act \<circ> Suc) (k + length b) = act (k + length (a # b))" for k by simp
    then show ?case using Cons.IH [of "act \<circ> Suc"] by (auto simp: o_def split: prod.split option.split)
  qed simp
  then show ?case using Cons.IH by (auto split: prod.split)
qed simp

lemma batch_spec_length: "batch_spec f ids m = (n, es, m1) \<Longrightarrow> n + length es = length ids"
  by (induction f ids m arbitrary: n es m1 rule: batch_spec.induct) (auto split: option.splits prod.splits)


definition demo_one :: OrchestrationEngine where
  "demo_one = demo_started\<lparr>en_instances := [(''i'', Managed)]\<rparr>"


text \<open>
  A deployed definition has the text of its resource as \<open>definition_xml\<close>, in which validation looks for no activity: a
  plan that maps an activity is always refused.
\<close>

lemma mapping_errors_text:
  assumes "\<And>d. xml d = PStr (pd_definition_xml d)" "ms \<noteq> []"
  shows "\<exists>m ms1. mapping_errors xml src tgt ms = Inr (m # ms1)"
  using assms(2)
proof (induction ms rule: list_nonempty_induct)
  case (cons m ms)
  then show ?case using assms(1) by (auto simp: declares_def split: option.split)
qed (use assms(1) in \<open>auto simp: declares_def split: option.split\<close>)

lemma migration_refused:
  assumes "mp_activity_mappings p \<noteq> []"
  obtains r where "execute_migration (\<lambda>d. PStr (pd_definition_xml d)) clk clks p iids sz e = (Inr r, e)"
    "mr_status r \<in> {''failed'', ''validation_failed''}" "mr_instances_migrated r = 0"
proof -
  let ?src = "get_definition (mp_source_definition_key p) (Some (mp_source_definition_version p)) (en_registry e)"
  let ?tgt = "get_definition (mp_target_definition_key p) (Some (mp_target_definition_version p)) (en_registry e)"
  obtain m ms where "mapping_errors (\<lambda>d. PStr (pd_definition_xml d)) ?src ?tgt (mp_activity_mappings p) = Inr (m # ms)"
    using mapping_errors_text [of "\<lambda>d. PStr (pd_definition_xml d)" "mp_activity_mappings p" ?src ?tgt] assms by blast
  then obtain es where "validate_migration (\<lambda>d. PStr (pd_definition_xml d)) p e = Inr es" "es \<noteq> []"
    by (simp add: validate_migration_def)
  then show ?thesis using that by (cases "mp_validate_only p") (simp_all add: execute_migration_def)
qed

subsection \<open>Listeners\<close>

text \<open>\<open>TaskListener\<close> and \<open>ExecutionListener\<close> have the same fields; those that nothing reads are left out.\<close>

record Listener =
  ls_listener_id :: string
  ls_event_type :: string
  ls_expression :: "string option"
  ls_class_name :: "string option"
  ls_script :: "string option"
  ls_priority :: int
  ls_enabled :: bool

record ListenerInvocation =
  li_listener_id :: string
  li_event_type :: string
  li_instance_id :: string
  li_activity_id :: "string option"
  li_variables :: pydict
  li_timestamp :: string
  li_success :: bool
  li_error :: "string option"

type_synonym listener_callback = "ListenerInvocation \<Rightarrow> py_error option"

record ListenerManager =
  lm_listeners :: "(string, Listener list) dict"
  lm_invocation_log :: "ListenerInvocation list"
  lm_callbacks :: "(string, listener_callback) dict"

definition listeners_init :: ListenerManager where
  "listeners_init = \<lparr>lm_listeners = [], lm_invocation_log = [], lm_callbacks = []\<rparr>"

definition register_listener :: "string \<Rightarrow> Listener \<Rightarrow> ListenerManager \<Rightarrow> ListenerManager" where
  "register_listener key l m =
     m\<lparr>lm_listeners := dset key (sort_key (\<lambda>x. - ls_priority x) (dget_or (lm_listeners m) key [] @ [l])) (lm_listeners m)\<rparr>"

definition register_callback :: "string \<Rightarrow> listener_callback \<Rightarrow> ListenerManager \<Rightarrow> ListenerManager" where
  "register_callback lid f m = m\<lparr>lm_callbacks := dset lid f (lm_callbacks m)\<rparr>"

definition build_invocation :: "datetime \<Rightarrow> string \<Rightarrow> string \<Rightarrow> string \<Rightarrow> pydict \<Rightarrow> Listener \<Rightarrow> ListenerInvocation" where
  "build_invocation now ty iid key vars l =
     \<lparr>li_listener_id = ls_listener_id l, li_event_type = ty, li_instance_id = iid, li_activity_id = Some key, li_variables = vars,
      li_timestamp = isoformat now, li_success = True, li_error = None\<rparr>"

definition invoke_listener ::
  "evaluator \<Rightarrow> evaluator \<Rightarrow> (string, listener_callback) dict \<Rightarrow> Listener \<Rightarrow> ListenerInvocation \<Rightarrow> py_error option" where
  "invoke_listener ev feel cbs l v =
     (case dget cbs (ls_listener_id l) of
        Some f \<Rightarrow> f v
      | None \<Rightarrow>
          (case nonempty_opt (ls_expression l) of
             x # _ \<Rightarrow>
               (case ev x (dset ''activityId'' (opt_str (li_activity_id v)) (dset ''instanceId'' (PStr (li_instance_id v))
                       (dset ''eventType'' (PStr (li_event_type v)) (li_variables v)))) of
                  Inl err \<Rightarrow> Some err
                | Inr _ \<Rightarrow> None)
           | [] \<Rightarrow>
               (case nonempty_opt (ls_script l) of
                  x # _ \<Rightarrow> (case feel x (dset ''eventType'' (PStr (li_event_type v)) (li_variables v)) of Inl err \<Rightarrow> Some err | Inr _ \<Rightarrow> None)
                | [] \<Rightarrow> None)))"

definition invoked :: "evaluator \<Rightarrow> evaluator \<Rightarrow> (string, listener_callback) dict \<Rightarrow> Listener \<Rightarrow> ListenerInvocation \<Rightarrow> ListenerInvocation" where
  "invoked ev feel cbs l v =
     (case invoke_listener ev feel cbs l v of
        None \<Rightarrow> v\<lparr>li_success := True\<rparr>
      | Some err \<Rightarrow> v\<lparr>li_success := False, li_error := Some (exception_text err)\<rparr>)"

fun fire_loop ::
  "evaluator \<Rightarrow> evaluator \<Rightarrow> clock \<Rightarrow> string \<Rightarrow> string \<Rightarrow> string \<Rightarrow> pydict \<Rightarrow> Listener list \<Rightarrow> ListenerManager \<Rightarrow> ListenerInvocation list \<times> ListenerManager" where
  "fire_loop ev feel clk ty key iid vars [] m = ([], m)"
| "fire_loop ev feel clk ty key iid vars (l # ls) m =
     (if \<not> ls_enabled l \<or> ls_event_type l \<noteq> ty then fire_loop ev feel clk ty key iid vars ls m
      else (let v = invoked ev feel (lm_callbacks m) l (build_invocation (clk 0) ty iid key vars l)
            in case fire_loop ev feel (clk \<circ> Suc) ty key iid vars ls (m\<lparr>lm_invocation_log := lm_invocation_log m @ [v]\<rparr>) of
                 (vs, m1) \<Rightarrow> (v # vs, m1)))"

definition fire_event ::
  "evaluator \<Rightarrow> evaluator \<Rightarrow> clock \<Rightarrow> string \<Rightarrow> string \<Rightarrow> string \<Rightarrow> pydict \<Rightarrow> ListenerManager \<Rightarrow> ListenerInvocation list \<times> ListenerManager" where
  "fire_event ev feel clk ty key iid vars m = fire_loop ev feel clk ty key iid vars (dget_or (lm_listeners m) key []) m"

definition get_listeners :: "string \<Rightarrow> ListenerManager \<Rightarrow> Listener list" where
  "get_listeners key m = dget_or (lm_listeners m) key []"

definition get_invocation_log :: "string option \<Rightarrow> ListenerManager \<Rightarrow> ListenerInvocation list" where
  "get_invocation_log iid m = filter (\<lambda>v. given iid (\<lambda>s. li_instance_id v = s)) (lm_invocation_log m)"

fun remove_first :: "('a \<Rightarrow> bool) \<Rightarrow> 'a list \<Rightarrow> 'a list" where
  "remove_first P [] = []"
| "remove_first P (x # xs) = (if P x then xs else x # remove_first P xs)"

definition remove_listener :: "string \<Rightarrow> string \<Rightarrow> ListenerManager \<Rightarrow> bool \<times> ListenerManager" where
  "remove_listener key lid m =
     (let ls = dget_or (lm_listeners m) key []
      in if list_ex (\<lambda>l. ls_listener_id l = lid) ls
         then (True, m\<lparr>lm_listeners := dset key (remove_first (\<lambda>l. ls_listener_id l = lid) ls) (lm_listeners m)\<rparr>)
         else (False, m))"

text \<open>The listeners of a key are kept in descending order of priority.\<close>

inductive lm_reach :: "ListenerManager \<Rightarrow> bool" where
  init: "lm_reach listeners_init"
| register: "lm_reach m \<Longrightarrow> lm_reach (register_listener key l m)"
| callback: "lm_reach m \<Longrightarrow> lm_reach (register_callback lid f m)"
| remove: "lm_reach m \<Longrightarrow> lm_reach (snd (remove_listener key lid m))"
| fire: "lm_reach m \<Longrightarrow> lm_reach (snd (fire_event ev feel clk ty key iid vars m))"

abbreviation by_listener_priority :: "Listener list \<Rightarrow> bool" where
  "by_listener_priority ls \<equiv> sorted (map (\<lambda>l. - ls_priority l) ls)"

lemma remove_first_sorted: "by_listener_priority ls \<Longrightarrow> by_listener_priority (remove_first P ls)"
proof (induction P ls rule: remove_first.induct)
  case (2 P x xs)
  have "set (remove_first P xs) \<subseteq> set xs" by (induction P xs rule: remove_first.induct) auto
  then show ?case using 2 by auto
qed simp

lemma fire_loop_spec:
  assumes "fire_loop ev feel clk ty key iid vars ls m = (vs, m1)"
  shows "m1 = m\<lparr>lm_invocation_log := lm_invocation_log m @ vs\<rparr> \<and>
    list_all2 (\<lambda>l v. \<exists>now. v = invoked ev feel (lm_callbacks m) l (build_invocation now ty iid key vars l))
      (filter (\<lambda>l. ls_enabled l \<and> ls_event_type l = ty) ls) vs"
  using assms
proof (induction ls arbitrary: clk m vs m1)
  case (Cons l ls)
  show ?case
  proof (cases "ls_enabled l \<and> ls_event_type l = ty")
    case True
    let ?v = "invoked ev feel (lm_callbacks m) l (build_invocation (clk 0) ty iid key vars l)"
    obtain vs1 m2 where x: "fire_loop ev feel (clk \<circ> Suc) ty key iid vars ls (m\<lparr>lm_invocation_log := lm_invocation_log m @ [?v]\<rparr>) = (vs1, m2)"
      by fastforce
    from Cons.prems True x have "vs = ?v # vs1" "m1 = m2" by (auto simp: Let_def)
    with Cons.IH [OF x] True show ?thesis by auto
  qed (use Cons in auto)
qed simp

lemma lm_reach_sorted: "lm_reach m \<Longrightarrow> by_listener_priority (get_listeners key m)"
proof (induction rule: lm_reach.induct)
  case (register m k l)
  then show ?case by (simp add: register_listener_def get_listeners_def dget_or_def)
next
  case (remove m k lid)
  then show ?case using remove_first_sorted [of "get_listeners k m" "\<lambda>l. ls_listener_id l = lid"]
    by (auto simp: remove_listener_def get_listeners_def dget_or_def Let_def)
next
  case (fire m ev feel clk ty k iid vars)
  obtain vs m1 where x: "fire_loop ev feel clk ty k iid vars (dget_or (lm_listeners m) k []) m = (vs, m1)" by fastforce
  then show ?case using fire.IH fire_loop_spec [OF x] by (simp add: fire_event_def get_listeners_def)
qed (simp_all add: listeners_init_def get_listeners_def register_callback_def dget_or_def)

text \<open>
  C14: What firing an event does to the listeners of an activity.  Exactly the enabled listeners of the event's type are
  invoked, in descending order of priority, each one whether or not an earlier one failed; every invocation says
  whether it failed and is returned and logged in that order, and the registrations stay as they are.
\<close>

theorem listeners_fire:
  assumes "lm_reach m" and "fire_event ev feel clk ty key iid vars m = (vs, m1)"
  shows "by_listener_priority (get_listeners key m) \<and>
    list_all2 (\<lambda>l v. \<exists>now. let v0 = build_invocation now ty iid key vars l in v =
        (case invoke_listener ev feel (lm_callbacks m) l v0 of None \<Rightarrow> v0 | Some err \<Rightarrow> v0\<lparr>li_success := False, li_error := Some (exception_text err)\<rparr>))
      (filter (\<lambda>l. ls_enabled l \<and> ls_event_type l = ty) (get_listeners key m)) vs \<and>
    lm_invocation_log m1 = lm_invocation_log m @ vs \<and> get_listeners k m1 = get_listeners k m"
proof -
  have "invoked ev feel cbs l v0 = (case invoke_listener ev feel cbs l v0 of None \<Rightarrow> v0 | Some err \<Rightarrow> v0\<lparr>li_success := False, li_error := Some (exception_text err)\<rparr>)"
    if "li_success v0" for cbs l v0
    using that by (cases v0) (simp add: invoked_def split: option.split)
  moreover have "li_success (build_invocation now ty iid key vars l)" for now l by (simp add: build_invocation_def)
  ultimately show ?thesis
    using fire_loop_spec [OF assms(2) [unfolded fire_event_def]] lm_reach_sorted [OF assms(1)] by (simp add: get_listeners_def Let_def)
qed

definition demo_listener :: "string \<Rightarrow> int \<Rightarrow> Listener" where
  "demo_listener lid p =
     \<lparr>ls_listener_id = lid, ls_event_type = ''start'', ls_expression = Some ''f()'', ls_class_name = None, ls_script = None, ls_priority = p, ls_enabled = True\<rparr>"

definition demo_listeners :: ListenerManager where
  "demo_listeners = register_listener ''a'' (demo_listener ''high'' 5) (register_listener ''a'' (demo_listener ''low'' 1) listeners_init)"

theorem listeners_fire_witness:
  "map li_listener_id (fst (fire_event (\<lambda>_ _. Inl (ValueError ''no'')) (\<lambda>_ _. Inr PNone) (\<lambda>_. 0) ''start'' ''a'' ''i'' [] demo_listeners)) = [''high'', ''low'']"
proof -
  have r: "lm_reach demo_listeners" unfolding demo_listeners_def by (intro lm_reach.intros)
  have g: "get_listeners ''a'' demo_listeners = [demo_listener ''high'' 5, demo_listener ''low'' 1]"
    by (simp add: demo_listeners_def register_listener_def listeners_init_def get_listeners_def dget_or_def demo_listener_def)
  obtain vs m1 where x: "fire_event (\<lambda>_ _. Inl (ValueError ''no'')) (\<lambda>_ _. Inr PNone) (\<lambda>_. 0) ''start'' ''a'' ''i'' [] demo_listeners = (vs, m1)" by fastforce
  have "list_all2 (\<lambda>l v. li_listener_id v = ls_listener_id l)
      (filter (\<lambda>l. ls_enabled l \<and> ls_event_type l = ''start'') (get_listeners ''a'' demo_listeners)) vs"
    using listeners_fire [OF r x, of "''a''"] by (auto elim!: list_all2_mono simp: Let_def build_invocation_def split: option.splits)
  then show ?thesis by (auto simp: x g demo_listener_def list_all2_Cons1)
qed

subsection \<open>Asynchronous continuations\<close>

datatype AsyncJobState = JOB_CREATED | JOB_PENDING | JOB_EXECUTING | JOB_COMPLETED | JOB_FAILED | JOB_TIMED_OUT | JOB_CANCELLED

fun job_state_value :: "AsyncJobState \<Rightarrow> string" where
  "job_state_value JOB_CREATED = ''created''"
| "job_state_value JOB_PENDING = ''pending''"
| "job_state_value JOB_EXECUTING = ''executing''"
| "job_state_value JOB_COMPLETED = ''completed''"
| "job_state_value JOB_FAILED = ''failed''"
| "job_state_value JOB_TIMED_OUT = ''timed_out''"
| "job_state_value JOB_CANCELLED = ''cancelled''"

text \<open>A handler is called with its job and may change the job's payload.\<close>

record AsyncJob =
  aj_job_id :: string
  aj_instance_id :: string
  aj_activity_id :: string
  aj_async_type :: string
  aj_state :: AsyncJobState
  aj_retries :: int
  aj_error_message :: string
  aj_created_at :: string
  aj_executed_at :: "string option"
  aj_completed_at :: "string option"
  aj_handler :: "(pydict \<Rightarrow> py_error option \<times> pydict) option"
  aj_payload :: pydict

record AsyncContinuationManager =
  acm_jobs :: "(string, AsyncJob) dict"
  acm_activity_jobs :: "(string, string) dict"

definition new_job :: "datetime \<Rightarrow> string \<Rightarrow> string \<Rightarrow> string \<Rightarrow> string \<Rightarrow> (pydict \<Rightarrow> py_error option \<times> pydict) option \<Rightarrow> pydict \<Rightarrow> AsyncJob" where
  "new_job now uuid ty iid aid h payload =
     \<lparr>aj_job_id = uuid, aj_instance_id = iid, aj_activity_id = aid, aj_async_type = ty, aj_state = JOB_CREATED, aj_retries = 3,
      aj_error_message = [], aj_created_at = isoformat now, aj_executed_at = None, aj_completed_at = None, aj_handler = h, aj_payload = payload\<rparr>"

definition create_async_before_job ::
  "datetime \<Rightarrow> string \<Rightarrow> string \<Rightarrow> string \<Rightarrow> (pydict \<Rightarrow> py_error option \<times> pydict) option \<Rightarrow> pydict \<Rightarrow> AsyncContinuationManager \<Rightarrow> AsyncJob \<times> AsyncContinuationManager" where
  "create_async_before_job now uuid iid aid h payload m =
     (let j = new_job now uuid ''before'' iid aid h payload
      in (j, m\<lparr>acm_jobs := dset (aj_job_id j) j (acm_jobs m), acm_activity_jobs := dset (iid @ '':'' @ aid) (aj_job_id j) (acm_activity_jobs m)\<rparr>))"

definition create_async_after_job ::
  "datetime \<Rightarrow> string \<Rightarrow> string \<Rightarrow> string \<Rightarrow> (pydict \<Rightarrow> py_error option \<times> pydict) option \<Rightarrow> pydict \<Rightarrow> AsyncContinuationManager \<Rightarrow> AsyncJob \<times> AsyncContinuationManager" where
  "create_async_after_job now uuid iid aid h payload m =
     (let j = new_job now uuid ''after'' iid aid h payload in (j, m\<lparr>acm_jobs := dset (aj_job_id j) j (acm_jobs m)\<rparr>))"

text \<open>
  \<open>execute_job\<close> waits for the handler, so it has two halves; other calls, such as \<open>cancel_job\<close>, may come between them.
\<close>

definition job_begin :: "datetime \<Rightarrow> AsyncJob \<Rightarrow> AsyncJob" where
  "job_begin now j = j\<lparr>aj_state := JOB_EXECUTING, aj_executed_at := Some (isoformat now)\<rparr>"

definition job_finish :: "datetime \<Rightarrow> py_error option \<Rightarrow> AsyncJob \<Rightarrow> AsyncJob" where
  "job_finish now err j =
     (case err of
        None \<Rightarrow> j\<lparr>aj_state := JOB_COMPLETED, aj_completed_at := Some (isoformat now)\<rparr>
      | Some x \<Rightarrow>
          (let n = aj_retries j - 1
           in j\<lparr>aj_retries := n, aj_state := (if n > 0 then JOB_PENDING else JOB_FAILED), aj_error_message := exception_text x\<rparr>))"

definition on_job :: "string \<Rightarrow> (AsyncJob \<Rightarrow> AsyncJob) \<Rightarrow> AsyncContinuationManager \<Rightarrow> AsyncContinuationManager" where
  "on_job jid f m = (case dget (acm_jobs m) jid of None \<Rightarrow> m | Some j \<Rightarrow> m\<lparr>acm_jobs := dset jid (f j) (acm_jobs m)\<rparr>)"

definition execute_job :: "clock \<Rightarrow> string \<Rightarrow> AsyncContinuationManager \<Rightarrow> AsyncJob option \<times> AsyncContinuationManager" where
  "execute_job clk jid m =
     (case dget (acm_jobs m) jid of
        None \<Rightarrow> (None, m)
      | Some j \<Rightarrow>
          (let j1 = job_begin (clk 0) j;
               (err, p) = (case aj_handler j1 of None \<Rightarrow> (None, aj_payload j1) | Some h \<Rightarrow> h (aj_payload j1));
               m1 = on_job jid (\<lambda>j. job_finish (clk 1) err (j\<lparr>aj_payload := p\<rparr>)) (on_job jid (job_begin (clk 0)) m)
           in (dget (acm_jobs m1) jid, m1)))"

definition get_job_for_activity :: "string \<Rightarrow> string \<Rightarrow> AsyncContinuationManager \<Rightarrow> AsyncJob option" where
  "get_job_for_activity iid aid m =
     (case dget (acm_activity_jobs m) (iid @ '':'' @ aid) of None \<Rightarrow> None | Some jid \<Rightarrow> if jid = [] then None else dget (acm_jobs m) jid)"

definition get_pending_jobs :: "string option \<Rightarrow> AsyncContinuationManager \<Rightarrow> AsyncJob list" where
  "get_pending_jobs iid m = filter (\<lambda>j. aj_state j = JOB_PENDING \<and> given iid (\<lambda>s. aj_instance_id j = s)) (dvals (acm_jobs m))"

definition get_failed_jobs :: "string option \<Rightarrow> AsyncContinuationManager \<Rightarrow> AsyncJob list" where
  "get_failed_jobs iid m = filter (\<lambda>j. aj_state j = JOB_FAILED \<and> given iid (\<lambda>s. aj_instance_id j = s)) (dvals (acm_jobs m))"

definition cancel_job :: "string \<Rightarrow> AsyncContinuationManager \<Rightarrow> bool \<times> AsyncContinuationManager" where
  "cancel_job jid m =
     (case dget (acm_jobs m) jid of
        None \<Rightarrow> (False, m)
      | Some j \<Rightarrow> if aj_state j \<in> {JOB_CREATED, JOB_PENDING, JOB_EXECUTING} then (True, on_job jid (aj_state_update (\<lambda>_. JOB_CANCELLED)) m) else (False, m))"

definition job_statistics :: "AsyncContinuationManager \<Rightarrow> (string, nat) dict" where
  "job_statistics m = dset ''total'' (length (acm_jobs m)) (tally (map (\<lambda>j. job_state_value (aj_state j)) (dvals (acm_jobs m))))"

fun executions :: "(nat \<Rightarrow> clock) \<Rightarrow> string \<Rightarrow> nat \<Rightarrow> AsyncContinuationManager \<Rightarrow> AsyncContinuationManager" where
  "executions clks jid 0 m = m"
| "executions clks jid (Suc n) m = snd (execute_job (clks n) jid (executions clks jid n m))"

lemma execute_job_get:
  assumes "dget (acm_jobs m) jid = Some j" "aj_handler j = Some h" "h (aj_payload j) = (Some err, p)"
  shows "dget (acm_jobs (snd (execute_job clk jid m))) jid =
    Some (j\<lparr>aj_executed_at := Some (isoformat (clk 0)), aj_payload := p, aj_retries := aj_retries j - 1,
      aj_state := (if aj_retries j - 1 > 0 then JOB_PENDING else JOB_FAILED), aj_error_message := exception_text err\<rparr>)"
  using assms by (cases j) (simp add: execute_job_def on_job_def job_begin_def job_finish_def Let_def)

text \<open>
  A job whose handler always fails.  The first two executions leave it pending with one retry less each time, the
  third one makes it failed; the error of the last execution is kept.  Executing it again is not refused: the job stays
  failed and its retries become negative.
\<close>

theorem job_fails_after_retries:
  assumes "create_async_before_job now uuid iid aid (Some h) payload m0 = (j, m)" and "\<And>p. \<exists>p1. h p = (Some err, p1)" and "n > 0"
  shows "\<exists>j1. dget (acm_jobs (executions clks uuid n m)) uuid = Some j1 \<and> aj_retries j1 = 3 - int n \<and>
    aj_state j1 = (if n < 3 then JOB_PENDING else JOB_FAILED) \<and> aj_error_message j1 = exception_text err"
proof -
  have "\<exists>j1. dget (acm_jobs (executions clks uuid n m)) uuid = Some j1 \<and> aj_retries j1 = 3 - int n \<and> aj_handler j1 = Some h \<and>
      (n > 0 \<longrightarrow> aj_state j1 = (if n < 3 then JOB_PENDING else JOB_FAILED) \<and> aj_error_message j1 = exception_text err)" for n
  proof (induction n)
    case 0
    then show ?case using assms(1) by (auto simp: create_async_before_job_def new_job_def Let_def)
  next
    case (Suc n)
    then obtain j1 where j1: "dget (acm_jobs (executions clks uuid n m)) uuid = Some j1" "aj_retries j1 = 3 - int n" "aj_handler j1 = Some h" by blast
    obtain p1 where "h (aj_payload j1) = (Some err, p1)" using assms(2) by blast
    from execute_job_get [OF j1(1,3) this] j1(2,3) show ?case by auto
  qed
  then show ?thesis using assms(3) by blast
qed

theorem job_fails_after_retries_witness:
  "\<exists>j. dget (acm_jobs (executions (\<lambda>_ _. 0) ''j'' 3
      (snd (create_async_before_job 0 ''j'' ''i'' ''a'' (Some (\<lambda>p. (Some (ValueError ''no''), p))) [] \<lparr>acm_jobs = [], acm_activity_jobs = []\<rparr>)))) ''j'' = Some j \<and>
    aj_state j = JOB_FAILED \<and> aj_retries j = 0"
  using job_fails_after_retries [where n = 3 and h = "\<lambda>p. (Some (ValueError ''no''), p)" and err = "ValueError ''no''" and clks = "\<lambda>_ _. 0", OF prod.collapse [symmetric],
      where now = 0 and uuid = "''j''" and iid = "''i''" and aid = "''a''" and payload = "[]" and ?m0.0 = "\<lparr>acm_jobs = [], acm_activity_jobs = []\<rparr>"]
  by auto

subsection \<open>Commands and compensation\<close>

text \<open>A command is what its \<open>execute\<close> does to the caller's state, with its id and the name of its class.\<close>

record 's Command =
  co_command_id :: string
  co_command_type :: string
  co_execute :: "'s \<Rightarrow> pyval result \<times> 's"

record CommandEntry =
  cn_command_id :: string
  cn_command_type :: string
  cn_status :: string
  cn_executed_at :: datetime
  cn_undone_at :: "datetime option"
  cn_error :: "string option"

record CommandQueue =
  cq_history :: "CommandEntry list"
  cq_max_history :: int

definition add_entry :: "CommandEntry \<Rightarrow> CommandQueue \<Rightarrow> CommandQueue" where
  "add_entry c q = q\<lparr>cq_history := (let h = cq_history q @ [c] in if int (length h) > cq_max_history q then tl h else h)\<rparr>"

definition command_execute :: "datetime \<Rightarrow> 's Command \<Rightarrow> CommandQueue \<Rightarrow> 's \<Rightarrow> pyval result \<times> CommandQueue \<times> 's" where
  "command_execute now c q s =
     (let entry = (\<lambda>st err. \<lparr>cn_command_id = co_command_id c, cn_command_type = co_command_type c, cn_status = st, cn_executed_at = now,
                             cn_undone_at = None, cn_error = err\<rparr>)
      in case co_execute c s of
           (Inr v, s1) \<Rightarrow> (Inr v, add_entry (entry ''executed'' None) q, s1)
         | (Inl err, s1) \<Rightarrow> (Inl err, add_entry (entry ''failed'' (Some (exception_text err))) q, s1))"

text \<open>\<open>for entry in reversed(self._history)\<close>: the entries from the last one on; the count of those undone is checked first.\<close>

fun undo_loop :: "clock \<Rightarrow> int \<Rightarrow> CommandEntry list \<Rightarrow> string list \<Rightarrow> string list \<times> CommandEntry list" where
  "undo_loop clk n [] undone = (undone, [])"
| "undo_loop clk n (c # cs) undone =
     (if int (length undone) \<ge> n then (undone, c # cs)
      else if cn_status c = ''executed''
      then (case undo_loop (clk \<circ> Suc) n cs (undone @ [cn_command_id c]) of
              (us, ds) \<Rightarrow> (us, c\<lparr>cn_status := ''undone'', cn_undone_at := Some (clk 0)\<rparr> # ds))
      else (case undo_loop clk n cs undone of (us, ds) \<Rightarrow> (us, c # ds)))"

definition undo_last :: "clock \<Rightarrow> int \<Rightarrow> CommandQueue \<Rightarrow> string list \<times> CommandQueue" where
  "undo_last clk n q = (case undo_loop clk n (rev (cq_history q)) [] of (us, h) \<Rightarrow> (us, q\<lparr>cq_history := rev h\<rparr>))"

text \<open>The last executed commands are marked as undone, from the newest on.\<close>

lemma undo_loop_spec:
  "undo_loop clk n cs undone = (us, ds) \<Longrightarrow> int (length undone) \<le> n \<Longrightarrow>
    us = undone @ take (nat n - length undone) (map cn_command_id (filter (\<lambda>c. cn_status c = ''executed'') cs)) \<and>
    map cn_command_id ds = map cn_command_id cs \<and>
    map cn_command_id (filter (\<lambda>c. cn_status c = ''executed'') ds) =
      drop (nat n - length undone) (map cn_command_id (filter (\<lambda>c. cn_status c = ''executed'') cs))"
proof (induction clk n cs undone arbitrary: us ds rule: undo_loop.induct)
  case (2 clk n c cs undone)
  show ?case
  proof (cases "int (length undone) \<ge> n")
    case True
    with 2(3,4) show ?thesis by auto
  next
    case False
    then have "nat n - length undone > 0" by linarith
    then obtain k where k: "nat n - length undone = Suc k" by (auto simp: gr0_conv_Suc)
    show ?thesis
    proof (cases "cn_status c = ''executed''")
      case True
      obtain us1 ds1 where x: "undo_loop (clk \<circ> Suc) n cs (undone @ [cn_command_id c]) = (us1, ds1)" by fastforce
      have "nat n - length (undone @ [cn_command_id c]) = k" using k by simp
      with 2(1) [OF False True x] False k 2(3) True x show ?thesis by auto
    next
      case s: False
      obtain us1 ds1 where x: "undo_loop clk n cs undone = (us1, ds1)" by fastforce
      with 2(2) [OF False s x] False 2(3,4) s show ?thesis by auto
    qed
  qed
qed simp

lemma command_history_bound:
  assumes "int (length (cq_history q)) \<le> cq_max_history q" "command_execute now c q s = (r, q1, s1)"
  shows "int (length (cq_history q1)) \<le> cq_max_history q1"
  using assms by (auto simp: command_execute_def add_entry_def Let_def split: sum.splits prod.splits if_splits)

record 's CompensationStep =
  cs_name :: string
  cs_compensates :: "('s \<Rightarrow> 's outcome) option"

definition register_step :: "'s CompensationStep \<Rightarrow> 's CompensationStep list \<Rightarrow> 's CompensationStep list" where
  "register_step c cs = cs @ [c]"

definition unregister_step :: "string \<Rightarrow> 's CompensationStep list \<Rightarrow> bool \<times> 's CompensationStep list" where
  "unregister_step nm cs = (let cs1 = filter (\<lambda>c. cs_name c \<noteq> nm) cs in (length cs1 < length cs, cs1))"

fun steps_rollback :: "'s CompensationStep list \<Rightarrow> 's \<Rightarrow> string list \<times> 's" where
  "steps_rollback [] s = ([], s)"
| "steps_rollback (c # cs) s =
     (case (case cs_compensates c of None \<Rightarrow> (None, s) | Some f \<Rightarrow> f s) of
        (None, s1) \<Rightarrow> steps_rollback cs s1
      | (Some err, s1) \<Rightarrow> (case steps_rollback cs s1 of (es, s2) \<Rightarrow> ((cs_name c @ '': '' @ exception_text err) # es, s2)))"

definition step_rollback :: "'s CompensationStep list \<Rightarrow> 's \<Rightarrow> string list \<times> 's CompensationStep list \<times> 's" where
  "step_rollback cs s = (case steps_rollback (rev cs) s of (es, s1) \<Rightarrow> (es, [], s1))"

text \<open>Every step is compensated, the last one first, whether or not others fail.\<close>

lemma step_rollback_state:
  "snd (snd (step_rollback cs s)) = foldr (\<lambda>c s. case cs_compensates c of None \<Rightarrow> s | Some f \<Rightarrow> snd (f s)) cs s"
proof -
  have "snd (steps_rollback cs s) = fold (\<lambda>c s. case cs_compensates c of None \<Rightarrow> s | Some f \<Rightarrow> snd (f s)) cs s" for cs :: "'a CompensationStep list" and s
    by (induction cs arbitrary: s) (auto simp: case_prod_beta split: option.splits)
  then show ?thesis by (simp add: step_rollback_def case_prod_beta foldr_conv_fold)
qed

subsection \<open>Errors\<close>

datatype ErrorLevel = LEVEL_WARNING | LEVEL_ERROR | LEVEL_CRITICAL

datatype ErrorSource = SOURCE_ORCHESTRATION | SOURCE_BUS | SOURCE_COMMUNICATION | SOURCE_STORAGE | SOURCE_EXTERNAL

fun error_source_value :: "ErrorSource \<Rightarrow> string" where
  "error_source_value SOURCE_ORCHESTRATION = ''orchestration''"
| "error_source_value SOURCE_BUS = ''bus''"
| "error_source_value SOURCE_COMMUNICATION = ''communication''"
| "error_source_value SOURCE_STORAGE = ''storage''"
| "error_source_value SOURCE_EXTERNAL = ''external''"

record ErrorRecord =
  er_scope :: string
  er_error :: string
  er_level :: ErrorLevel
  er_source :: ErrorSource
  er_type :: string

text \<open>An exception as \<open>handle\<close> sees it: whether it is an \<open>ExecutionError\<close>, the name of its class, its text.\<close>

definition record_error :: "string \<Rightarrow> string \<Rightarrow> string \<Rightarrow> ErrorLevel \<Rightarrow> ErrorSource \<Rightarrow> ErrorRecord list \<Rightarrow> ErrorRecord list" where
  "record_error scope cls msg level src es = es @ [\<lparr>er_scope = scope, er_error = msg, er_level = level, er_source = src, er_type = cls\<rparr>]"

definition handle_error :: "(string \<Rightarrow> string \<Rightarrow> py_error option) option \<Rightarrow> bool \<Rightarrow> string \<Rightarrow> string \<Rightarrow> string \<Rightarrow> ErrorRecord list \<Rightarrow> ErrorRecord list outcome" where
  "handle_error dflt execution cls msg scope es =
     (case dflt of None \<Rightarrow> None | Some f \<Rightarrow> f msg scope,
      record_error scope cls msg (if execution then LEVEL_ERROR else LEVEL_CRITICAL) SOURCE_ORCHESTRATION es)"

record CrossLayerErrorEvent =
  ce_error_code :: string
  ce_error_message :: string
  ce_source :: ErrorSource
  ce_source_detail :: string
  ce_escalation_code :: "string option"
  ce_payload :: pydict

definition to_osdm_error_event_definition :: "CrossLayerErrorEvent \<Rightarrow> pydict" where
  "to_osdm_error_event_definition v =
     [(''error_code'', PStr (ce_error_code v)), (''error_message'', PStr (ce_error_message v)), (''source'', PStr (error_source_value (ce_source v))),
      (''source_detail'', PStr (ce_source_detail v))] @
     map (\<lambda>s. (''escalation_code'', PStr s)) (nonempty_opt (ce_escalation_code v)) @
     (if ce_payload v = [] then [] else [(''payload'', PDict (ce_payload v))])"

definition to_osdm_escalation_event_definition :: "CrossLayerErrorEvent \<Rightarrow> pydict option" where
  "to_osdm_escalation_event_definition v =
     (case nonempty_opt (ce_escalation_code v) of
        [] \<Rightarrow> None
      | s # _ \<Rightarrow> Some [(''escalation_code'', PStr s), (''error_code'', PStr (ce_error_code v)), (''source'', PStr (error_source_value (ce_source v)))])"

text \<open>The calls of \<open>publish\<close> on the bus; the bus may raise, which is logged and ends the publication.\<close>

definition publish_error_event :: "(string \<Rightarrow> pydict \<Rightarrow> py_error option) option \<Rightarrow> CrossLayerErrorEvent \<Rightarrow> (string \<times> pydict) list" where
  "publish_error_event bus v =
     (case bus of
        None \<Rightarrow> []
      | Some pub \<Rightarrow>
          (let src = (''source'', PStr (error_source_value (ce_source v)));
               err = (''error'', [(''event_type'', PStr ''error''), src, (''error_definition'', PDict (to_osdm_error_event_definition v))])
           in if pub (fst err) (snd err) \<noteq> None then [err]
              else err # (case to_osdm_escalation_event_definition v of
                            None \<Rightarrow> []
                          | Some d \<Rightarrow> [(''escalation'', [(''event_type'', PStr ''escalation''), src, (''escalation_definition'', PDict d)])])))"

definition handle_layer_error ::
  "(string \<Rightarrow> pydict \<Rightarrow> py_error option) option \<Rightarrow> ErrorSource \<Rightarrow> string \<Rightarrow> string \<Rightarrow> string \<Rightarrow> string option \<Rightarrow> pydict \<Rightarrow> (string, nat) dict
    \<Rightarrow> CrossLayerErrorEvent \<times> (string \<times> pydict) list \<times> (string, nat) dict" where
  "handle_layer_error bus src code msg detail esc payload counts =
     (let v = \<lparr>ce_error_code = code, ce_error_message = msg, ce_source = src, ce_source_detail = detail, ce_escalation_code = esc, ce_payload = payload\<rparr>
      in (v, publish_error_event bus v, bump code counts))"

definition publish_error_events :: "(string \<Rightarrow> pydict \<Rightarrow> py_error option) option \<Rightarrow> CrossLayerErrorEvent list \<Rightarrow> (string \<times> pydict) list" where
  "publish_error_events bus vs = concat (map (publish_error_event bus) vs)"

subsection \<open>Injection of activities\<close>

record InjectionRequest =
  ir_request_id :: string
  ir_instance_id :: string
  ir_target_activity_id :: string
  ir_insert_position :: string
  ir_new_activities :: "pydict list"
  ir_new_flows :: "pydict list"

record InjectionResult =
  ij_request_id :: string
  ij_instance_id :: string
  ij_success :: bool
  ij_injected_activities :: "pyval list"
  ij_updated_flows :: "pyval list"
  ij_error :: "string option"
  ij_timestamp :: string

text \<open>\<open>aid = data.get('id', str(uuid4())); data['id'] = aid\<close> for every element; a UUID is drawn in any case.\<close>

fun give_ids :: "(nat \<Rightarrow> string) \<Rightarrow> pydict list \<Rightarrow> pydict list" where
  "give_ids ids [] = []"
| "give_ids ids (d # ds) = dset ''id'' (pget_or d ''id'' (PStr (ids 0))) d # give_ids (ids \<circ> Suc) ds"

fun mark_injected :: "clock \<Rightarrow> string \<Rightarrow> pyval list \<Rightarrow> ProcessInstance \<Rightarrow> pyval list \<times> ProcessInstance outcome" where
  "mark_injected clk target [] i = ([], None, i)"
| "mark_injected clk target (a # as) i =
     (case py_str a of
        Inl err \<Rightarrow> ([a], Some err, i)
      | Inr s \<Rightarrow>
          (case mark_injected (clk \<circ> Suc) target as
                  (pi_set_variable (''_injected.'' @ s)
                     (PDict [(''injected_at'', PStr (isoformat (clk 0))), (''position'', PStr ''after''), (''target'', PStr target)]) i) of
             (done, err, i1) \<Rightarrow> (a # done, err, i1)))"

definition last_injection :: "datetime \<Rightarrow> string \<Rightarrow> pyval list \<Rightarrow> pydict \<Rightarrow> ProcessInstance \<Rightarrow> ProcessInstance" where
  "last_injection now rid as pos =
     pi_set_variable ''_last_injection''
       (PDict ([(''request_id'', PStr rid), (''activities'', PList as)] @ pos @ [(''timestamp'', PStr (isoformat now))]))"

text \<open>\<open>_inject_after\<close>, \<open>_inject_before\<close> and \<open>_inject_parallel\<close>: the request with its ids, the result and the instance.\<close>

definition inject_at ::
  "clock \<Rightarrow> datetime \<Rightarrow> (nat \<Rightarrow> string) \<Rightarrow> (nat \<Rightarrow> string) \<Rightarrow> InjectionRequest \<Rightarrow> InjectionResult \<Rightarrow> ProcessInstance
    \<Rightarrow> py_error option \<times> InjectionRequest \<times> InjectionResult \<times> ProcessInstance" where
  "inject_at clk now ids fids q r i =
     (let acts = give_ids ids (ir_new_activities q); as = map (\<lambda>d. pget d ''id'') acts;
          q1 = q\<lparr>ir_new_activities := acts\<rparr>
      in if ir_insert_position q = ''after''
         then (case mark_injected clk (ir_target_activity_id q) as i of
                 (done, Some err, i1) \<Rightarrow> (Some err, q1, r\<lparr>ij_injected_activities := done\<rparr>, i1)
               | (done, None, i1) \<Rightarrow>
                   (let flows = give_ids fids (ir_new_flows q)
                    in (None, q1\<lparr>ir_new_flows := flows\<rparr>, r\<lparr>ij_injected_activities := done, ij_updated_flows := map (\<lambda>d. pget d ''id'') flows\<rparr>,
                        last_injection now (ir_request_id q) as [] i1)))
         else (None, q1, r\<lparr>ij_injected_activities := as\<rparr>,
               last_injection now (ir_request_id q) as [(''position'', PStr (ir_insert_position q))] i))"

text \<open>
  \<open>inject_activities\<close>.  Hooks are parameters that may raise; a request for an unknown instance or with an unknown
  position is answered without an entry in the history.
\<close>

definition inject_activities ::
  "(InjectionRequest \<Rightarrow> py_error option) list \<Rightarrow> (InjectionRequest \<Rightarrow> InjectionResult \<Rightarrow> py_error option) list \<Rightarrow> datetime \<Rightarrow> clock \<Rightarrow> datetime
    \<Rightarrow> (nat \<Rightarrow> string) \<Rightarrow> (nat \<Rightarrow> string) \<Rightarrow> InjectionRequest \<Rightarrow> InjectionResult list \<Rightarrow> OrchestrationEngine
    \<Rightarrow> InjectionResult \<times> InjectionResult list \<times> OrchestrationEngine" where
  "inject_activities pre post now clk now1 ids fids q hist e =
     (let r0 = \<lparr>ij_request_id = ir_request_id q, ij_instance_id = ir_instance_id q, ij_success = False, ij_injected_activities = [],
                ij_updated_flows = [], ij_error = None, ij_timestamp = isoformat now\<rparr>;
          logged = (\<lambda>r e1. (r, hist @ [r], e1))
      in case engine_instance (ir_instance_id q) e of
           None \<Rightarrow> (r0\<lparr>ij_error := Some (''Instance not found: '' @ ir_instance_id q)\<rparr>, hist, e)
         | Some i \<Rightarrow>
             (case List.map_filter (\<lambda>h. h q) pre of
                err # _ \<Rightarrow> logged (r0\<lparr>ij_error := Some (exception_text err)\<rparr>) e
              | [] \<Rightarrow>
                  if ir_insert_position q \<notin> {''after'', ''before'', ''parallel''}
                  then (r0\<lparr>ij_error := Some (''Unknown insert position: '' @ ir_insert_position q)\<rparr>, hist, e)
                  else
                    (case inject_at clk now1 ids fids q r0 i of
                       (err, q1, r1, i1) \<Rightarrow>
                         (let e1 = put_engine_instance (ir_instance_id q) i1 e
                          in case err of
                               Some x \<Rightarrow> logged (r1\<lparr>ij_error := Some (exception_text x)\<rparr>) e1
                             | None \<Rightarrow>
                                 (case List.map_filter (\<lambda>h. h q1 r1) post of
                                    x # _ \<Rightarrow> logged (r1\<lparr>ij_error := Some (exception_text x)\<rparr>) e1
                                  | [] \<Rightarrow> logged (r1\<lparr>ij_success := True\<rparr>) e1)))))"

definition get_injection_history :: "string option \<Rightarrow> InjectionResult list \<Rightarrow> InjectionResult list" where
  "get_injection_history iid hist = filter (\<lambda>r. given iid (\<lambda>s. ij_instance_id r = s)) hist"

end
