(* ===== verification/Cases.thy ===== *)
theory Cases
  imports StateMachines Operations
begin

section \<open>The case management engine\<close>

text \<open>
  \<open>cmmn/sentry_evaluator.py\<close>, \<open>cmmn/case_executor.py\<close> and \<open>cmmn/engine.py\<close>: the evaluation of sentries, the executor of
  case plan models given as dicts, and the engine that runs it for an instance and keeps the state of the case.  The
  evaluator of expressions is a parameter.  Ids are strings, as the annotations say.
\<close>

subsection \<open>Sentries\<close>

record SentryRule =
  su_sentry_id :: string
  su_name :: pyval
  su_on_parts :: "pyval list"
  su_if_part :: pyval
  su_is_entry_criterion :: pyval
  su_triggered_on_parts :: "string list"

record SentryEvaluator =
  se_rules :: "(string, SentryRule) dict"
  se_fired_events :: "(string, string list) dict"

definition sentry_init :: SentryEvaluator where
  "sentry_init = \<lparr>se_rules = [], se_fired_events = []\<rparr>"

definition list_or_empty :: "pyval \<Rightarrow> pyval list" where
  "list_or_empty v = (case v of PList xs \<Rightarrow> xs | _ \<Rightarrow> [])"

text \<open>\<open>register\<close> for a sentry given as a dict; other values are ignored, \<open>Sentry\<close> objects are not modelled.\<close>

definition sentry_register :: "pyval \<Rightarrow> SentryEvaluator \<Rightarrow> SentryEvaluator result" where
  "sentry_register v s =
     (case v of
        PDict d \<Rightarrow>
          bindr (as_str (pget_or d ''id'' (PStr []))) (\<lambda>sid.
            Inr (if sid = [] then s
                 else s\<lparr>se_rules := dset sid
                   \<lparr>su_sentry_id = sid, su_name = pget d ''name'', su_on_parts = list_or_empty (pget_or d ''onParts'' (pget_or d ''on'' (PList []))),
                    su_if_part = por (pget d ''ifPart'') (pget d ''condition''), su_is_entry_criterion = pget_or d ''isEntryCriterion'' (PBool True),
                    su_triggered_on_parts = []\<rparr> (se_rules s)\<rparr>))
      | PObj _ \<Rightarrow> Inl (Unmodelled ''Sentry'')
      | _ \<Rightarrow> Inr s)"

text \<open>\<open>all(...)\<close> of fallible conditions, which stops at the first that is false\<close>

fun allr :: "('a \<Rightarrow> bool result) \<Rightarrow> 'a list \<Rightarrow> bool result" where
  "allr f [] = Inr True"
| "allr f (x # xs) = bindr (f x) (\<lambda>ok. if ok then allr f xs else Inr False)"

definition on_part_fired :: "(string, string list) dict \<Rightarrow> pyval \<Rightarrow> bool result" where
  "on_part_fired fired part =
     bindr (dict_of part) (\<lambda>d.
       if truthy (pget d ''source_ref'') \<and> truthy (pget d ''standard_event'')
       then bindr (as_str (pget d ''source_ref'')) (\<lambda>src. bindr (as_str (pget d ''standard_event'')) (\<lambda>event.
              if event \<in> set (dget_or fired src []) then Inr True
              else if pget d ''case_file_event'' = PNone then Inr False
              else bindr (as_str (pget d ''case_file_event'')) (\<lambda>c. Inr (c \<in> set (dget_or fired src [])))))
       else Inr True)"

definition check_on_parts :: "SentryRule \<Rightarrow> SentryEvaluator \<Rightarrow> bool result" where
  "check_on_parts r s = allr (on_part_fired (se_fired_events s)) (su_on_parts r)"

definition eval_bool :: "evaluator \<Rightarrow> pydict \<Rightarrow> pyval \<Rightarrow> bool result" where
  "eval_bool ev ctx v = bindr (as_str v) (\<lambda>x. bindr (ev x ctx) (\<lambda>r. Inr (truthy r)))"

definition evaluate_if_part :: "evaluator \<Rightarrow> SentryRule \<Rightarrow> pydict \<Rightarrow> bool result" where
  "evaluate_if_part ev r ctx = (if \<not> truthy (su_if_part r) then Inr True else eval_bool ev ctx (su_if_part r))"

definition evaluate_rule :: "evaluator \<Rightarrow> SentryRule \<Rightarrow> pydict \<Rightarrow> SentryEvaluator \<Rightarrow> bool result" where
  "evaluate_rule ev r ctx s = bindr (check_on_parts r s) (\<lambda>ok. if ok then evaluate_if_part ev r ctx else Inr False)"

text \<open>The parts of a rule that the event matches are noted in the rule.\<close>

fun note_triggered :: "string \<Rightarrow> string \<Rightarrow> pyval list \<Rightarrow> SentryRule \<Rightarrow> SentryRule outcome" where
  "note_triggered src event [] r = (None, r)"
| "note_triggered src event (p # ps) r =
     (case dict_of p of
        Inl err \<Rightarrow> (Some err, r)
      | Inr d \<Rightarrow>
          note_triggered src event ps
            (if pget d ''source_ref'' = PStr src \<and> pget d ''standard_event'' = PStr event
             then r\<lparr>su_triggered_on_parts := sadd (src @ '':'' @ event) (su_triggered_on_parts r)\<rparr> else r))"

fun record_loop :: "evaluator \<Rightarrow> string \<Rightarrow> string \<Rightarrow> string list \<Rightarrow> SentryEvaluator \<Rightarrow> string list result \<times> SentryEvaluator" where
  "record_loop ev src event [] s = (Inr [], s)"
| "record_loop ev src event (sid # sids) s =
     (case dget (se_rules s) sid of
        None \<Rightarrow> record_loop ev src event sids s
      | Some r \<Rightarrow>
          (case note_triggered src event (su_on_parts r) r of
             (err, r1) \<Rightarrow>
               (let s1 = s\<lparr>se_rules := dset sid r1 (se_rules s)\<rparr>
                in case err of
                     Some x \<Rightarrow> (Inl x, s1)
                   | None \<Rightarrow>
                       (case evaluate_rule ev r1 [] s1 of
                          Inl x \<Rightarrow> (Inl x, s1)
                        | Inr ok \<Rightarrow>
                            (case record_loop ev src event sids s1 of
                               (Inl x, s2) \<Rightarrow> (Inl x, s2)
                             | (Inr ss, s2) \<Rightarrow> (Inr (if ok then sid # ss else ss), s2))))))"

definition record_event :: "evaluator \<Rightarrow> string \<Rightarrow> string \<Rightarrow> SentryEvaluator \<Rightarrow> string list result \<times> SentryEvaluator" where
  "record_event ev src event s =
     record_loop ev src event (dkeys (se_rules s))
       (s\<lparr>se_fired_events := dset src (sadd event (dget_or (se_fired_events s) src [])) (se_fired_events s)\<rparr>)"

text \<open>The criteria of a plan item: a single one has its condition only, of several each has a condition or a body.\<close>

definition criterion_condition :: "(pydict \<Rightarrow> pyval) \<Rightarrow> pyval \<Rightarrow> pyval result" where
  "criterion_condition f c = (case c of PDict d \<Rightarrow> Inr (f d) | PObj _ \<Rightarrow> Inl (Unmodelled ''criterion'') | _ \<Rightarrow> Inr PNone)"

definition evaluate_expression :: "evaluator \<Rightarrow> pydict \<Rightarrow> pyval \<Rightarrow> bool result" where
  "evaluate_expression ev ctx x = (if \<not> truthy x then Inr True else bindr (py_str x) (\<lambda>t. eval_bool ev ctx (PStr t)))"

definition evaluate_single_criterion :: "evaluator \<Rightarrow> pydict \<Rightarrow> pyval \<Rightarrow> bool result" where
  "evaluate_single_criterion ev ctx c =
     bindr (criterion_condition (\<lambda>d. por (pget d ''condition'') (pget d ''body'')) c) (evaluate_expression ev ctx)"

definition evaluate_entry_criteria :: "evaluator \<Rightarrow> pyval \<Rightarrow> pydict \<Rightarrow> bool result" where
  "evaluate_entry_criteria ev criteria ctx =
     (if \<not> truthy criteria then Inr True
      else case criteria of
             PList [c] \<Rightarrow> bindr (criterion_condition (\<lambda>d. pget d ''condition'') c) (evaluate_expression ev ctx)
           | PList cs \<Rightarrow> allr (evaluate_single_criterion ev ctx) cs
           | _ \<Rightarrow> Inl (Unmodelled ''criteria''))"

definition evaluate_exit_criteria :: "evaluator \<Rightarrow> pyval \<Rightarrow> pydict \<Rightarrow> bool result" where
  "evaluate_exit_criteria ev criteria ctx = (if \<not> truthy criteria then Inr False else evaluate_entry_criteria ev criteria ctx)"

definition sentry_is_active :: "evaluator \<Rightarrow> pydict \<Rightarrow> pydict \<Rightarrow> SentryEvaluator \<Rightarrow> bool result" where
  "sentry_is_active ev t ctx s =
     bindr (if truthy (pget t ''sentry'') then Inr (pget t ''sentry'')
            else case pget t ''entryCriterionRefs'' of
                   PList (r # _) \<Rightarrow> Inr r
                 | v \<Rightarrow> if truthy v then Inl (Unmodelled ''entryCriterionRefs'') else Inr PNone) (\<lambda>ref.
       if \<not> truthy ref then Inr True
       else case ref of
              PStr sid \<Rightarrow> (case dget (se_rules s) sid of None \<Rightarrow> Inr False | Some r \<Rightarrow> evaluate_rule ev r ctx s)
            | PDict d \<Rightarrow>
                (let x = por (pget d ''condition'') (pget d ''body'') in if truthy x then eval_bool ev ctx x else Inr True)
            | _ \<Rightarrow> Inr False)"

definition sentry_is_complete :: "evaluator \<Rightarrow> pydict \<Rightarrow> pydict \<Rightarrow> bool result" where
  "sentry_is_complete ev t ctx =
     (let x = por (pget t ''completionCondition'') (pget t ''exitCriterion'') in if \<not> truthy x then Inr False else eval_bool ev ctx x)"

definition check_sentry_satisfied :: "evaluator \<Rightarrow> string \<Rightarrow> pydict \<Rightarrow> SentryEvaluator \<Rightarrow> bool result" where
  "check_sentry_satisfied ev sid ctx s = (case dget (se_rules s) sid of None \<Rightarrow> Inr False | Some r \<Rightarrow> evaluate_rule ev r ctx s)"

definition evaluate_all_sentries :: "evaluator \<Rightarrow> pydict \<Rightarrow> SentryEvaluator \<Rightarrow> (string, bool) dict result" where
  "evaluate_all_sentries ev ctx s = mapr (\<lambda>(sid, r). bindr (evaluate_rule ev r ctx s) (\<lambda>ok. Inr (sid, ok))) (se_rules s)"

definition get_unsatisfied_sentries :: "evaluator \<Rightarrow> pydict \<Rightarrow> SentryEvaluator \<Rightarrow> string list result" where
  "get_unsatisfied_sentries ev ctx s =
     bindr (evaluate_all_sentries ev ctx s) (\<lambda>oks. Inr (map fst (filter (\<lambda>(sid, ok). \<not> ok) oks)))"

definition sentry_reset :: "SentryEvaluator \<Rightarrow> SentryEvaluator" where
  "sentry_reset s = \<lparr>se_rules = map (\<lambda>(k, r). (k, r\<lparr>su_triggered_on_parts := []\<rparr>)) (se_rules s), se_fired_events = []\<rparr>"

subsection \<open>What a sentry waits for\<close>

text \<open>The events that have been recorded, as pairs of a source and an event, and what an on part asks of them.\<close>

inductive sentry_reach :: "evaluator \<Rightarrow> (string \<times> string) list \<Rightarrow> SentryEvaluator \<Rightarrow> bool" for ev where
  init: "sentry_reach ev [] sentry_init"
| register: "sentry_reach ev evs s \<Longrightarrow> sentry_register v s = Inr s1 \<Longrightarrow> sentry_reach ev evs s1"
| noted: "sentry_reach ev evs s \<Longrightarrow> record_event ev src event s = (res, s1) \<Longrightarrow> sentry_reach ev (evs @ [(src, event)]) s1"
| reset: "sentry_reach ev evs s \<Longrightarrow> sentry_reach ev [] (sentry_reset s)"

fun part_met :: "(string \<times> string) set \<Rightarrow> pyval \<Rightarrow> bool" where
  "part_met E (PDict d) \<longleftrightarrow>
     (case (pget d ''source_ref'', pget d ''standard_event'') of
        (PStr src, PStr event) \<Rightarrow>
          src = [] \<or> event = [] \<or> (src, event) \<in> E \<or> (case pget d ''case_file_event'' of PStr c \<Rightarrow> (src, c) \<in> E | _ \<Rightarrow> False)
      | _ \<Rightarrow> True)"
| "part_met E v \<longleftrightarrow> True"

text \<open>An on part as the annotations have it: optional texts.\<close>

definition opt_text :: "pyval \<Rightarrow> bool" where
  "opt_text v \<longleftrightarrow> (case v of PNone \<Rightarrow> True | PStr _ \<Rightarrow> True | _ \<Rightarrow> False)"

fun part_ok :: "pyval \<Rightarrow> bool" where
  "part_ok (PDict d) \<longleftrightarrow> opt_text (pget d ''source_ref'') \<and> opt_text (pget d ''standard_event'') \<and> opt_text (pget d ''case_file_event'')"
| "part_ok v \<longleftrightarrow> False"

definition events_of :: "SentryEvaluator \<Rightarrow> (string \<times> string) set" where
  "events_of s = {(src, event). event \<in> set (dget_or (se_fired_events s) src [])}"

lemma on_part_fired_met: "part_ok p \<Longrightarrow> on_part_fired (se_fired_events s) p = Inr (part_met (events_of s) p)"
  by (cases p) (auto simp: on_part_fired_def dict_of_def as_str_def opt_text_def events_of_def split: pyval.splits)

lemma allr_all: "(\<And>x. x \<in> set xs \<Longrightarrow> f x = Inr (P x)) \<Longrightarrow> allr f xs = Inr (\<forall>x\<in>set xs. P x)"
  by (induction xs) auto

lemma evaluate_rule_met:
  "\<forall>p\<in>set (su_on_parts r). part_ok p \<Longrightarrow>
    evaluate_rule ev r ctx s = (if \<forall>p\<in>set (su_on_parts r). part_met (events_of s) p then evaluate_if_part ev r ctx else Inr False)"
  by (simp add: evaluate_rule_def check_on_parts_def allr_all [where P = "part_met (events_of s)"] on_part_fired_met)

text \<open>Noting and evaluating change neither what the rules ask for nor the recorded events.\<close>

definition asks :: "SentryRule \<Rightarrow> pyval list \<times> pyval" where
  "asks r = (su_on_parts r, su_if_part r)"

lemma note_triggered_asks [simp]: "asks (snd (note_triggered src event ps r)) = asks r"
  by (induction src event ps r rule: note_triggered.induct) (auto simp: asks_def split: sum.splits)

lemma evaluate_rule_asks: "asks r = asks r1 \<Longrightarrow> se_fired_events s = se_fired_events s1 \<Longrightarrow> evaluate_rule ev r ctx s = evaluate_rule ev r1 ctx s1"
proof -
  assume a: "asks r = asks r1" "se_fired_events s = se_fired_events s1"
  then have "evaluate_if_part ev r ctx = evaluate_if_part ev r1 ctx" by (simp add: asks_def evaluate_if_part_def)
  with a show ?thesis by (simp add: asks_def evaluate_rule_def check_on_parts_def cong: if_cong)
qed

definition same_asks :: "SentryEvaluator \<Rightarrow> SentryEvaluator \<Rightarrow> bool" where
  "same_asks s s1 \<longleftrightarrow> se_fired_events s1 = se_fired_events s \<and> (\<forall>sid. map_option asks (dget (se_rules s1) sid) = map_option asks (dget (se_rules s) sid))"

lemma same_asks_trans: "same_asks s s1 \<Longrightarrow> same_asks s1 s2 \<Longrightarrow> same_asks s s2"
  by (simp add: same_asks_def)

lemma same_asks_check: "same_asks s s1 \<Longrightarrow> check_sentry_satisfied ev sid ctx s1 = check_sentry_satisfied ev sid ctx s"
proof -
  assume a: "same_asks s s1"
  then have "map_option asks (dget (se_rules s1) sid) = map_option asks (dget (se_rules s) sid)" "se_fired_events s1 = se_fired_events s"
    by (simp_all add: same_asks_def)
  then show ?thesis using evaluate_rule_asks [of _ _ s1 s ev ctx]
    by (cases "dget (se_rules s) sid"; cases "dget (se_rules s1) sid") (auto simp: check_sentry_satisfied_def)
qed

lemma record_loop_asks: "record_loop ev src event sids s = (res, s1) \<Longrightarrow> same_asks s s1"
proof (induction sids arbitrary: s s1 res)
  case (Cons sid sids)
  show ?case
  proof (cases "dget (se_rules s) sid")
    case None
    then show ?thesis using Cons by simp
  next
    case (Some r)
    obtain err r1 where n: "note_triggered src event (su_on_parts r) r = (err, r1)" by fastforce
    let ?s = "s\<lparr>se_rules := dset sid r1 (se_rules s)\<rparr>"
    have "asks r1 = asks r" using note_triggered_asks [of src event "su_on_parts r" r] n by simp
    then have a: "same_asks s ?s" using Some by (simp add: same_asks_def)
    show ?thesis
    proof (cases "s1 = ?s")
      case False
      with Cons.prems Some n obtain ok res2 where "record_loop ev src event sids ?s = (res2, s1)"
        by (auto simp: Let_def split: option.splits sum.splits prod.splits)
      then show ?thesis using Cons.IH same_asks_trans [OF a] by blast
    qed (use a in simp)
  qed
qed (simp add: same_asks_def)

lemma record_loop_result:
  "record_loop ev src event sids s = (Inr ss, s1) \<Longrightarrow> ss = filter (\<lambda>sid. check_sentry_satisfied ev sid [] s1 = Inr True) sids"
proof (induction sids arbitrary: s ss)
  case (Cons sid sids)
  show ?case
  proof (cases "dget (se_rules s) sid")
    case None
    then have "check_sentry_satisfied ev sid [] s = Inr False" by (simp add: check_sentry_satisfied_def)
    then have "check_sentry_satisfied ev sid [] s1 = Inr False" using same_asks_check [OF record_loop_asks [OF Cons.prems]] by simp
    then show ?thesis using Cons None by simp
  next
    case (Some r)
    obtain err r1 where n: "note_triggered src event (su_on_parts r) r = (err, r1)" by fastforce
    let ?s = "s\<lparr>se_rules := dset sid r1 (se_rules s)\<rparr>"
    from Cons.prems Some n obtain ok ss1 where x: "evaluate_rule ev r1 [] ?s = Inr ok" "record_loop ev src event sids ?s = (Inr ss1, s1)"
      "ss = (if ok then sid # ss1 else ss1)"
      by (auto simp: Let_def split: option.splits sum.splits prod.splits)
    have "check_sentry_satisfied ev sid [] ?s = Inr ok" using x(1) by (simp add: check_sentry_satisfied_def)
    then have "check_sentry_satisfied ev sid [] s1 = Inr ok" using same_asks_check [OF record_loop_asks [OF x(2)]] by simp
    then show ?thesis using Cons.IH [OF x(2)] x(3) by simp
  qed
qed simp

lemma sentry_reach_events: "sentry_reach ev evs s \<Longrightarrow> events_of s = set evs"
proof (induction rule: sentry_reach.induct)
  case (register evs s v s1)
  then have "se_fired_events s1 = se_fired_events s" by (auto simp: sentry_register_def bindr_def split: pyval.splits sum.splits if_splits)
  then show ?case using register.IH by (simp add: events_of_def)
next
  case (noted evs s src event res s1)
  have "se_fired_events s1 = dset src (sadd event (dget_or (se_fired_events s) src [])) (se_fired_events s)"
    using record_loop_asks [OF noted.hyps(2) [unfolded record_event_def]] by (simp add: same_asks_def)
  then have "events_of s1 = insert (src, event) (events_of s)" by (auto simp: events_of_def dget_or_def split: if_splits)
  then show ?case using noted.IH by simp
qed (simp_all add: sentry_init_def sentry_reset_def events_of_def dget_or_def)


definition demo_part :: "string \<Rightarrow> string \<Rightarrow> pyval" where
  "demo_part src event = PDict [(''source_ref'', PStr src), (''standard_event'', PStr event)]"

definition demo_sentry :: pyval where
  "demo_sentry = PDict [(''id'', PStr ''s''), (''onParts'', PList [demo_part ''a'' ''complete'', demo_part ''b'' ''occur''])]"

definition demo_sentries :: SentryEvaluator where
  "demo_sentries = snd (record_event (\<lambda>_ _. Inr PNone) ''b'' ''occur'' (case sentry_register demo_sentry sentry_init of Inr s \<Rightarrow> s))"

lemmas sentry_eval = demo_sentries_def demo_sentry_def demo_part_def sentry_register_def sentry_init_def record_event_def as_str_def list_or_empty_def
  evaluate_rule_def check_on_parts_def on_part_fired_def dict_of_def evaluate_if_part_def dget_or_def pget_def por_def sadd_def Let_def


subsection \<open>The executor\<close>

record StageContext =
  st_stage_id :: string
  st_stage_name :: pyval
  st_stage_is_active :: bool
  st_stage_is_completed :: bool
  st_auto_complete :: pyval

record MilestoneContext =
  mc_milestone_id :: string
  mc_name :: pyval
  mc_is_achieved :: bool
  mc_entry_criteria :: pyval

record PlanningItemContext =
  pc_item_id :: string
  pc_is_planned :: bool

record CasePlanModel =
  cp_stages :: "pyval list"
  cp_tasks :: "pyval list"
  cp_milestones :: "pyval list"
  cp_case_file_items :: "pyval list"
  cp_sentries :: "pyval list"
  cp_discretionary_items :: "pyval list"

record CaseExecutor =
  cx_sentry_evaluator :: SentryEvaluator
  cx_stages :: "(string, StageContext) dict"
  cx_milestones :: "(string, MilestoneContext) dict"
  cx_planning_items :: "(string, PlanningItemContext) dict"

definition normalize_definition :: "pydict \<Rightarrow> CasePlanModel" where
  "normalize_definition d =
     \<lparr>cp_stages = list_or_empty (pget_or d ''stages'' (pget_or d ''fragments'' (PList []))),
      cp_tasks = list_or_empty (pget_or d ''tasks'' (pget_or d ''elements'' (PList []))),
      cp_milestones = list_or_empty (pget_or d ''milestones'' (PList [])),
      cp_case_file_items = list_or_empty (pget_or d ''caseFileItems'' (pget_or d ''case_file_items'' (pget_or d ''case_file'' (PList [])))),
      cp_sentries = list_or_empty (pget_or d ''sentries'' (pget_or d ''entryCriteria'' (PList []))),
      cp_discretionary_items = list_or_empty (pget_or d ''discretionaryItems'' (pget_or d ''fragments'' (PList [])))\<rparr>"

text \<open>The executor and the engine during a run; loops stop at the first exception.\<close>

record case_run =
  cr_executor :: CaseExecutor
  cr_engine :: OrchestrationEngine

fun each_do :: "(nat \<Rightarrow> 'a \<Rightarrow> 's \<Rightarrow> 's outcome) \<Rightarrow> 'a list \<Rightarrow> 's \<Rightarrow> 's outcome" where
  "each_do f [] s = (None, s)"
| "each_do f (x # xs) s = andthen (f 0 x s) (each_do (f \<circ> Suc) xs)"

definition try_do :: "'a result \<Rightarrow> ('a \<Rightarrow> 's \<Rightarrow> 's outcome) \<Rightarrow> 's \<Rightarrow> 's outcome" where
  "try_do x f s = (case x of Inl err \<Rightarrow> (Some err, s) | Inr v \<Rightarrow> f v s)"

definition case_var :: "string \<Rightarrow> string \<Rightarrow> pyval \<Rightarrow> case_run \<Rightarrow> case_run" where
  "case_var iid k v r = r\<lparr>cr_engine := on_instance iid (pi_set_variable k v) (cr_engine r)\<rparr>"

definition with_executor :: "(CaseExecutor \<Rightarrow> CaseExecutor) \<Rightarrow> case_run \<Rightarrow> case_run" where
  "with_executor f r = r\<lparr>cr_executor := f (cr_executor r)\<rparr>"

definition case_publish :: "clock \<Rightarrow> (nat \<Rightarrow> string) \<Rightarrow> EventType \<Rightarrow> pydict \<Rightarrow> case_run \<Rightarrow> case_run outcome" where
  "case_publish clk ids ty data r = (case engine_publish clk ids ty data (cr_engine r) of (err, e) \<Rightarrow> (err, r\<lparr>cr_engine := e\<rparr>))"

definition case_file_item :: "string \<Rightarrow> pyval \<Rightarrow> case_run \<Rightarrow> case_run outcome" where
  "case_file_item iid item =
     try_do (dict_of item) (\<lambda>d r.
       let name = por (pget d ''name'') (pget d ''id''); v = pget_or d ''defaultValue'' (pget d ''value'')
       in if \<not> truthy name then (None, r) else try_do (py_str name) (\<lambda>n r. (None, case_var iid (''caseFile.'' @ n) v r)) r)"

definition case_sentry :: "pyval \<Rightarrow> case_run \<Rightarrow> case_run outcome" where
  "case_sentry v r =
     try_do (sentry_register v (cx_sentry_evaluator (cr_executor r))) (\<lambda>s r. (None, with_executor (\<lambda>x. x\<lparr>cx_sentry_evaluator := s\<rparr>) r)) r"

definition case_milestone :: "string \<Rightarrow> pyval \<Rightarrow> case_run \<Rightarrow> case_run outcome" where
  "case_milestone iid v =
     try_do (bindr (dict_of v) (\<lambda>d. bindr (as_str (pget_or d ''id'' (PStr []))) (\<lambda>mid. Inr (d, mid)))) (\<lambda>(d, mid) r.
       (None, case_var iid (''milestone.'' @ mid) (PDict [(''name'', pget d ''name''), (''achieved'', PBool False)])
          (with_executor (\<lambda>x. x\<lparr>cx_milestones := dset mid \<lparr>mc_milestone_id = mid, mc_name = pget d ''name'', mc_is_achieved = False,
             mc_entry_criteria = pget_or d ''entryCriteria'' (PList [])\<rparr> (cx_milestones x)\<rparr>) r)))"

definition case_stage :: "pyval \<Rightarrow> case_run \<Rightarrow> case_run outcome" where
  "case_stage v =
     try_do (bindr (dict_of v) (\<lambda>d. bindr (as_str (pget_or d ''id'' (PStr []))) (\<lambda>sid. Inr (d, sid)))) (\<lambda>(d, sid) r.
       (None, with_executor (\<lambda>x. x\<lparr>cx_stages := dset sid \<lparr>st_stage_id = sid, st_stage_name = pget d ''name'', st_stage_is_active = False,
          st_stage_is_completed = False, st_auto_complete = pget_or d ''autoComplete'' (PBool True)\<rparr> (cx_stages x)\<rparr>) r))"

text \<open>The tasks that are offered: not milestones, not of an inactive stage, not manual; and the planned discretionary items.\<close>

definition active_stages :: "pyval list \<Rightarrow> CaseExecutor \<Rightarrow> string list result" where
  "active_stages vs x =
     bindr (mapr (\<lambda>v. bindr (dict_of v) (\<lambda>d. as_str (pget_or d ''id'' (PStr [])))) vs) (\<lambda>sids.
       Inr (filter (\<lambda>sid. case dget (cx_stages x) sid of None \<Rightarrow> False | Some c \<Rightarrow> st_stage_is_active c) sids))"

definition task_offered :: "string list \<Rightarrow> pydict \<Rightarrow> bool result" where
  "task_offered act t =
     (if pget_or t ''type'' (PStr ''task'') = PStr ''Milestone'' then Inr False
      else bindr (if truthy (pget t ''stageRef'') then bindr (as_str (pget t ''stageRef'')) (\<lambda>s. Inr (s \<in> set act)) else Inr True) (\<lambda>ok.
        Inr (ok \<and> pget_or t ''activationRule'' (PStr ''automatic'') \<noteq> PStr ''manual'')))"

definition planned_task :: "pydict \<Rightarrow> pydict" where
  "planned_task d =
     [(''id'', pget_or d ''id'' (PStr [])), (''name'', pget d ''name''), (''type'', pget_or d ''definitionType'' (PStr ''task'')),
      (''planning_table_ref'', pget d ''planningTableRef''), (''entryCriteria'', pget_or d ''entryCriteria'' (PList [])), (''is_discretionary'', PBool True)]"

definition get_available_tasks :: "CasePlanModel \<Rightarrow> CaseExecutor \<Rightarrow> pydict list result" where
  "get_available_tasks p x =
     bindr (active_stages (cp_stages p) x) (\<lambda>act.
     bindr (bindr (mapr dict_of (cp_tasks p)) (filterr (task_offered act))) (\<lambda>ts.
     bindr (bindr (mapr dict_of (cp_discretionary_items p)) (filterr (\<lambda>d. bindr (as_str (pget_or d ''id'' (PStr []))) (\<lambda>i.
              Inr (case dget (cx_planning_items x) i of None \<Rightarrow> False | Some c \<Rightarrow> pc_is_planned c))))) (\<lambda>ds.
       Inr (ts @ map planned_task ds))))"

text \<open>
  \<open>_execute_task\<close>: the entries of the result for each type of task.  \<open>payload.get\<close> fails unless the payload is a dict;
  \<open>or\<close> reads the payload only if it has to.
\<close>

definition task_payload :: "pydict \<Rightarrow> pyval" where
  "task_payload t = pget_or t ''payload'' (pget_or t ''inputParameters'' (PDict []))"

definition human_result :: "pydict \<Rightarrow> pydict \<Rightarrow> pydict" where
  "human_result t p =
     [(''assignee'', pget_or t ''assignee'' (pget p ''assignee'')),
      (''candidate_groups'', pget_or t ''candidateGroups'' (pget_or p ''candidateGroups'' (PList []))),
      (''form_key'', pget_or t ''formKey'' (pget p ''formKey'')),
      (''priority'', pget_or t ''priority'' (pget_or p ''priority'' (PStr ''medium''))),
      (''due_date'', pget_or t ''dueDate'' (pget p ''dueDate''))]"

definition task_var :: "string \<Rightarrow> string \<Rightarrow> string \<Rightarrow> pyval \<Rightarrow> case_run \<Rightarrow> case_run" where
  "task_var iid tid k v = case_var iid (''task.'' @ tid @ ''.'' @ k) v"

definition io_mapping :: "string \<Rightarrow> pyval \<Rightarrow> case_run \<Rightarrow> case_run outcome" where
  "io_mapping iid m =
     try_do (dict_of m) (\<lambda>d r.
       if truthy (pget d ''source'') \<and> truthy (pget d ''target'')
       then try_do (bindr (as_str (pget d ''source'')) (\<lambda>s. bindr (as_str (pget d ''target'')) (\<lambda>t. Inr (s, t)))) (\<lambda>(s, t) r.
              let v = pget (instance_vars iid (cr_engine r)) s in (None, if v = PNone then r else case_var iid t v r)) r
       else (None, r))"

definition or_payload :: "pydict \<Rightarrow> string \<Rightarrow> pyval result" where
  "or_payload t k = (if truthy (pget t k) then Inr (pget t k) else bindr (dict_of (task_payload t)) (\<lambda>p. Inr (pget p k)))"

definition keep_var :: "string \<Rightarrow> string \<Rightarrow> string \<Rightarrow> pyval \<Rightarrow> case_run \<Rightarrow> case_run" where
  "keep_var iid tid k v r = (if truthy v then task_var iid tid k v r else r)"

definition human_task :: "string \<Rightarrow> string \<Rightarrow> pydict \<Rightarrow> case_run \<Rightarrow> pydict result \<times> case_run" where
  "human_task iid tid t r =
     (case dict_of (task_payload t) of
        Inl err \<Rightarrow> (Inl err, r)
      | Inr p \<Rightarrow> (Inr (human_result t p), fold (\<lambda>(k, v). task_var iid tid k v) p r))"

definition process_case_task :: "string \<Rightarrow> string \<Rightarrow> pydict \<Rightarrow> case_run \<Rightarrow> pydict result \<times> case_run" where
  "process_case_task iid tid t r =
     (case dict_of (task_payload t) of
        Inl err \<Rightarrow> (Inl err, r)
      | Inr p \<Rightarrow>
          (let c = pget_or t ''calledElement'' (pget p ''calledElement'')
           in case try_do (py_list (pget_or t ''ioMapping'' (PList []))) (each_do (\<lambda>_. io_mapping iid)) (keep_var iid tid ''calledElement'' c r) of
                (Some err, r1) \<Rightarrow> (Inl err, r1)
              | (None, r1) \<Rightarrow> (Inr [(''called_element'', c)], r1)))"

definition case_task :: "string \<Rightarrow> string \<Rightarrow> pydict \<Rightarrow> case_run \<Rightarrow> pydict result \<times> case_run" where
  "case_task iid tid t r =
     (case or_payload t ''caseRef'' of Inl err \<Rightarrow> (Inl err, r) | Inr c \<Rightarrow> (Inr [(''case_ref'', c)], keep_var iid tid ''caseRef'' c r))"

definition decision_task :: "string \<Rightarrow> string \<Rightarrow> pydict \<Rightarrow> case_run \<Rightarrow> pydict result \<times> case_run" where
  "decision_task iid tid t r =
     (case bindr (or_payload t ''calledDecision'') (\<lambda>c. bindr (dict_of (task_payload t)) (\<lambda>p. Inr (c, p))) of
        Inl err \<Rightarrow> (Inl err, r)
      | Inr (c, p) \<Rightarrow>
          (Inr [(''decision_ref'', c), (''result_variable'', pget_or p ''resultVariable'' (PStr (''task.'' @ tid @ ''.result'')))],
           keep_var iid tid ''decisionRef'' c r))"

definition task_entries :: "string \<Rightarrow> string \<Rightarrow> pydict \<Rightarrow> case_run \<Rightarrow> pydict result \<times> case_run" where
  "task_entries iid tid t r =
     (let ty = pget_or t ''type'' (PStr ''task'')
      in if ty = PStr ''HumanTask'' then human_task iid tid t r
         else if ty = PStr ''ProcessTask'' then process_case_task iid tid t r
         else if ty = PStr ''CaseTask'' then case_task iid tid t r
         else if ty = PStr ''DecisionTask'' then decision_task iid tid t r
         else (Inr [(''output'', task_payload t)], r))"

definition execute_task :: "string \<Rightarrow> string \<Rightarrow> pydict \<Rightarrow> case_run \<Rightarrow> case_run outcome" where
  "execute_task iid tid t r =
     (case task_entries iid tid t r of
        (Inl err, r1) \<Rightarrow> (Some err, r1)
      | (Inr es, r1) \<Rightarrow>
          (let res = [(''task_id'', pget_or t ''id'' (PStr [])), (''task_name'', pget_or t ''name'' (pget_or t ''id'' (PStr []))),
                      (''task_type'', pget_or t ''type'' (PStr ''task'')), (''status'', PStr ''completed'')] @ es
           in (None, task_var iid tid ''status'' (PStr ''completed'') (task_var iid tid ''output'' (PDict res) r1))))"

definition task_event :: "string \<Rightarrow> pydict \<Rightarrow> pydict" where
  "task_event iid t =
     [(''instance_id'', PStr iid), (''activity_id'', pget_or t ''id'' (PStr [])), (''activity_type'', pget_or t ''type'' (PStr ''task'')),
      (''engine_type'', PStr ''cmmn'')]"

text \<open>One turn of the loop over the tasks\<close>

definition run_task ::
  "evaluator \<Rightarrow> (nat \<Rightarrow> nat \<Rightarrow> clock) \<Rightarrow> (nat \<Rightarrow> nat \<Rightarrow> nat \<Rightarrow> string) \<Rightarrow> string \<Rightarrow> nat \<Rightarrow> pydict \<Rightarrow> case_run \<Rightarrow> case_run outcome" where
  "run_task ev clks uuids iid k t r =
     try_do (bindr (evaluate_entry_criteria ev (pget_or t ''entryCriteria'' (PList [])) (instance_vars iid (cr_engine r))) (\<lambda>ok.
               bindr (py_str (pget_or t ''id'' (PStr []))) (\<lambda>tid. Inr (ok, tid)))) (\<lambda>(ok, tid) r.
       if \<not> ok then (None, r)
       else
         let active = PDict [(''name'', pget_or t ''name'' (pget_or t ''id'' (PStr []))), (''type'', pget_or t ''type'' (PStr ''task'')),
                             (''status'', PStr ''active''), (''required'', pget_or t ''requiredRule'' (PStr ''optional''))]
         in andthen (case_publish (clks k 0) (uuids k 0) ACTIVITY_STARTED (task_event iid t) (case_var iid (''task.'' @ tid) active r)) (\<lambda>r1.
            andthen (execute_task iid tid t r1)
              (case_publish (clks k 1) (uuids k 1) ACTIVITY_COMPLETED (task_event iid t)))) r"

text \<open>
  The criteria of a milestone are dicts, and \<open>_sentry_to_dict\<close> reads the attributes of an object: a milestone with
  criteria raises.
\<close>

definition criteria_error :: "pyval \<Rightarrow> py_error" where
  "criteria_error v =
     (case py_list v of Inl err \<Rightarrow> err | Inr (PObj _ # _) \<Rightarrow> Unmodelled ''Sentry'' | Inr _ \<Rightarrow> AttributeError ''id'')"

definition evaluate_milestone :: "string \<Rightarrow> string \<Rightarrow> case_run \<Rightarrow> case_run outcome" where
  "evaluate_milestone iid mid r =
     (case dget (cx_milestones (cr_executor r)) mid of
        None \<Rightarrow> (None, r)
      | Some c \<Rightarrow>
          if mc_is_achieved c then (None, r)
          else if truthy (mc_entry_criteria c) then (Some (criteria_error (mc_entry_criteria c)), r)
          else (None, case_var iid (''milestone.'' @ mid @ ''.achieved'') (PBool True)
                  (with_executor (\<lambda>x. x\<lparr>cx_milestones := dset mid (c\<lparr>mc_is_achieved := True\<rparr>) (cx_milestones x)\<rparr>) r)))"

definition evaluate_milestones :: "string \<Rightarrow> case_run \<Rightarrow> case_run outcome" where
  "evaluate_milestones iid r = each_do (\<lambda>_. evaluate_milestone iid) (dkeys (cx_milestones (cr_executor r))) r"

definition case_complete :: "CaseExecutor \<Rightarrow> bool" where
  "case_complete x \<longleftrightarrow> list_all mc_is_achieved (dvals (cx_milestones x)) \<and> list_all st_stage_is_completed (dvals (cx_stages x))"

definition check_case_completion :: "clock \<Rightarrow> string \<Rightarrow> case_run \<Rightarrow> case_run outcome" where
  "check_case_completion clk iid r =
     (if case_complete (cr_executor r)
      then (case with_instance iid (instance_apply clk Instances.Complete) (cr_engine r) of (err, e) \<Rightarrow> (err, r\<lparr>cr_engine := e\<rparr>))
      else (None, r))"

definition case_setup :: "string \<Rightarrow> CasePlanModel \<Rightarrow> case_run \<Rightarrow> case_run outcome" where
  "case_setup iid p r =
     andthen (each_do (\<lambda>_. case_file_item iid) (cp_case_file_items p) r) (\<lambda>r.
     andthen (each_do (\<lambda>_. case_sentry) (cp_sentries p) r) (\<lambda>r.
     andthen (each_do (\<lambda>_. case_milestone iid) (cp_milestones p) r)
       (each_do (\<lambda>_. case_stage) (cp_stages p))))"

definition case_tasks ::
  "evaluator \<Rightarrow> (nat \<Rightarrow> nat \<Rightarrow> clock) \<Rightarrow> (nat \<Rightarrow> nat \<Rightarrow> nat \<Rightarrow> string) \<Rightarrow> string \<Rightarrow> CasePlanModel \<Rightarrow> case_run \<Rightarrow> case_run outcome" where
  "case_tasks ev clks uuids iid p r = try_do (get_available_tasks p (cr_executor r)) (each_do (run_task ev clks uuids iid)) r"

definition case_execute ::
  "evaluator \<Rightarrow> clock \<Rightarrow> (nat \<Rightarrow> nat \<Rightarrow> clock) \<Rightarrow> (nat \<Rightarrow> nat \<Rightarrow> nat \<Rightarrow> string) \<Rightarrow> string \<Rightarrow> pydict \<Rightarrow> case_run \<Rightarrow> case_run outcome" where
  "case_execute ev clk clks uuids iid d r =
     (let p = normalize_definition d
      in andthen (andthen (andthen (case_setup iid p r) (case_tasks ev clks uuids iid p)) (evaluate_milestones iid)) (check_case_completion clk iid))"

definition case_plan :: "pydict \<Rightarrow> pyval list result" where
  "case_plan d =
     bindr (mapr dict_of (cp_tasks (normalize_definition d))) (\<lambda>ts.
       Inr (map (\<lambda>(i, t). pget_or t ''id'' (PStr (''item_'' @ dec i))) (enumerate 0 ts)))"

subsection \<open>The engine of cases\<close>

datatype CMMNCaseState = CASE_DRAFT | CASE_ACTIVE | CASE_COMPLETED | CASE_TERMINATED | CASE_SUSPENDED | CASE_CLOSED | CASE_FAILED

fun valid_next :: "CMMNCaseState \<Rightarrow> CMMNCaseState list" where
  "valid_next CASE_DRAFT = [CASE_ACTIVE, CASE_CLOSED]"
| "valid_next CASE_ACTIVE = [CASE_COMPLETED, CASE_TERMINATED, CASE_SUSPENDED, CASE_FAILED, CASE_CLOSED]"
| "valid_next CASE_SUSPENDED = [CASE_ACTIVE, CASE_TERMINATED, CASE_CLOSED]"
| "valid_next CASE_COMPLETED = [CASE_CLOSED]"
| "valid_next CASE_TERMINATED = [CASE_CLOSED]"
| "valid_next CASE_FAILED = [CASE_CLOSED, CASE_ACTIVE]"
| "valid_next CASE_CLOSED = [CASE_ACTIVE]"

record CMMNEngine =
  cm_contexts :: ContextManager
  cm_executor :: CaseExecutor
  cm_case_states :: "(string, CMMNCaseState) dict"

text \<open>\<open>CMMNExecutionError\<close> is a frozen dataclass without fields, so that raising it with a message raises a \<open>TypeError\<close>.\<close>

definition case_error :: py_error where
  "case_error = TypeError ''CMMNExecutionError.__init__() takes 1 positional argument but 2 were given''"

definition case_state :: "string \<Rightarrow> CMMNEngine \<Rightarrow> CMMNCaseState" where
  "case_state iid c = dget_or (cm_case_states c) iid CASE_DRAFT"

definition case_transition :: "string \<Rightarrow> CMMNCaseState \<Rightarrow> CMMNEngine \<Rightarrow> CMMNEngine outcome" where
  "case_transition iid st c =
     (if st \<in> set (valid_next (case_state iid c)) then (None, c\<lparr>cm_case_states := dset iid st (cm_case_states c)\<rparr>) else (Some case_error, c))"

definition case_report ::
  "(InstanceStateSnapshot \<Rightarrow> py_error option) \<Rightarrow> datetime \<Rightarrow> string \<Rightarrow> string \<Rightarrow> pydict option \<Rightarrow> OrchestrationEngine \<Rightarrow> OrchestrationEngine outcome" where
  "case_report ser now iid st data e = (case sm_set_persisted ser now iid st data (en_state_manager e) of (err, m) \<Rightarrow> (err, e\<lparr>en_state_manager := m\<rparr>))"

text \<open>The operations on a case: the case's own state first, then the state manager, then the instance.\<close>

definition change_case ::
  "(InstanceStateSnapshot \<Rightarrow> py_error option) \<Rightarrow> datetime \<Rightarrow> (nat \<Rightarrow> clock) \<Rightarrow> (nat \<Rightarrow> nat \<Rightarrow> string) \<Rightarrow> string \<Rightarrow> CMMNCaseState \<Rightarrow> string \<Rightarrow> pydict option
    \<Rightarrow> InstanceState \<Rightarrow> string option \<Rightarrow> CMMNEngine \<Rightarrow> OrchestrationEngine \<Rightarrow> py_error option \<times> CMMNEngine \<times> OrchestrationEngine" where
  "change_case ser now clks uuids iid st label data target reason c e =
     (case case_transition iid st c of
        (Some err, c1) \<Rightarrow> (Some err, c1, e)
      | (None, c1) \<Rightarrow>
          (case andthen (case_report ser now iid label data e) (update_instance_state ser clks uuids iid target reason) of
             (err, e1) \<Rightarrow> (err, c1, e1)))"

datatype case_op = Start_case | Terminate_case string | Suspend_case | Resume_case | Close_case | Reactivate_case

text \<open>\<open>start_case\<close> changes the case only; the others tell the state manager and the engine as well.\<close>

fun case_apply ::
  "(InstanceStateSnapshot \<Rightarrow> py_error option) \<Rightarrow> datetime \<Rightarrow> (nat \<Rightarrow> clock) \<Rightarrow> (nat \<Rightarrow> nat \<Rightarrow> string) \<Rightarrow> string \<Rightarrow> case_op
    \<Rightarrow> CMMNEngine \<Rightarrow> OrchestrationEngine \<Rightarrow> py_error option \<times> CMMNEngine \<times> OrchestrationEngine" where
  "case_apply ser now clks uuids iid Start_case c e = (case case_transition iid CASE_ACTIVE c of (err, c1) \<Rightarrow> (err, c1, e))"
| "case_apply ser now clks uuids iid (Terminate_case reason) c e =
     change_case ser now clks uuids iid CASE_TERMINATED ''terminated'' (Some [(''reason'', PStr reason)]) Instances.TERMINATED (Some reason) c e"
| "case_apply ser now clks uuids iid Suspend_case c e =
     change_case ser now clks uuids iid CASE_SUSPENDED ''suspended'' None Instances.SUSPENDED None c e"
| "case_apply ser now clks uuids iid Resume_case c e =
     change_case ser now clks uuids iid CASE_ACTIVE ''running'' None Instances.ACTIVE None c e"
| "case_apply ser now clks uuids iid Close_case c e =
     change_case ser now clks uuids iid CASE_CLOSED ''closed'' None Instances.COMPLETED (Some ''closed'') c e"
| "case_apply ser now clks uuids iid Reactivate_case c e =
     change_case ser now clks uuids iid CASE_ACTIVE ''running'' None Instances.ACTIVE None c e"

definition definition_data :: "ProcessDefinition \<Rightarrow> pydict" where
  "definition_data d = [(''definition_key'', PStr (pd_key d)), (''definition_id'', PStr (pd_id d))]"

definition case_conclude ::
  "(InstanceStateSnapshot \<Rightarrow> py_error option) \<Rightarrow> (nat \<Rightarrow> clock) \<Rightarrow> (nat \<Rightarrow> nat \<Rightarrow> string) \<Rightarrow> (nat \<Rightarrow> clock) \<Rightarrow> (nat \<Rightarrow> nat \<Rightarrow> string) \<Rightarrow> string \<Rightarrow> ProcessDefinition
    \<Rightarrow> py_error option \<Rightarrow> CMMNEngine \<Rightarrow> OrchestrationEngine \<Rightarrow> py_error option \<times> CMMNEngine \<times> OrchestrationEngine" where
  "case_conclude ser clks uuids clks' uuids' iid d raised c e =
     (case raised of
        Some err \<Rightarrow>
          (case andthen (update_instance_state ser clks uuids iid Instances.FAILED (Some (exception_text err)) e)
                  (case_report ser (clks' 0 0) iid ''failed'' (Some (definition_data d @ [(''error'', PStr (exception_text err))]))) of
             (err1, e1) \<Rightarrow>
               (case err1 of None \<Rightarrow> Some err | Some x \<Rightarrow> Some x, c\<lparr>cm_case_states := dset iid CASE_FAILED (cm_case_states c)\<rparr>, e1))
      | None \<Rightarrow>
          (case case_transition iid CASE_COMPLETED c of
             (Some err, c1) \<Rightarrow> (Some err, c1, e)
           | (None, c1) \<Rightarrow>
               (case andthen (update_instance_state ser clks uuids iid Instances.COMPLETED None e) (\<lambda>e1.
                     andthen (case_report ser (clks' 0 0) iid ''completed'' (Some (definition_data d)) e1)
                       (engine_publish (clks' 1) (uuids' 1) PROCESS_INSTANCE_COMPLETED [(''instance_id'', PStr iid), (''engine_type'', PStr ''cmmn'')])) of
                  (err, e1) \<Rightarrow> (err, c1, e1))))"

text \<open>\<open>definition_xml\<close> is used if it is a dict; a deployed definition's is the text of its resource.\<close>

definition case_execute_instance ::
  "(InstanceStateSnapshot \<Rightarrow> py_error option) \<Rightarrow> evaluator \<Rightarrow> (nat \<Rightarrow> nat \<Rightarrow> clock) \<Rightarrow> (nat \<Rightarrow> nat \<Rightarrow> nat \<Rightarrow> string) \<Rightarrow> string \<Rightarrow> pyval \<Rightarrow> ProcessDefinition
    \<Rightarrow> CMMNEngine \<Rightarrow> OrchestrationEngine \<Rightarrow> py_error option \<times> CMMNEngine \<times> OrchestrationEngine" where
  "case_execute_instance ser ev clks uuids iid xml d c e =
     (let c0 = c\<lparr>cm_contexts := snd (create_context (clks 0 0) (uuids 0 0 0) Contexts.PROCESS (Some iid) None (cm_contexts c))\<rparr>;
          c1 = (if has_key (cm_case_states c0) iid then c0 else c0\<lparr>cm_case_states := dset iid CASE_DRAFT (cm_case_states c0)\<rparr>)
      in case case_transition iid CASE_ACTIVE c1 of
           (Some err, c2) \<Rightarrow> (Some err, c2, e)
         | (None, c2) \<Rightarrow>
             (case case_report ser (clks 0 1 0) iid ''running'' (Some (definition_data d)) e of
                (Some err, e1) \<Rightarrow> (Some err, c2, e1)
              | (None, e1) \<Rightarrow>
                  (case case_execute ev (clks 0 2) (\<lambda>k. clks (k + 3)) (\<lambda>k. uuids (k + 3)) iid (as_dict xml)
                          \<lparr>cr_executor = cm_executor c2, cr_engine = e1\<rparr> of
                     (raised, r) \<Rightarrow>
                       case_conclude ser (clks 1) (uuids 1) (clks 2) (uuids 2) iid d raised (c2\<lparr>cm_executor := cr_executor r\<rparr>) (cr_engine r))))"

subsection \<open>What a run of a case keeps\<close>

text \<open>
  The steps of a run write variables, publish events and fill the executor's tables; a property of the run that these
  keep holds until the case is checked for completion.
\<close>

inductive executor_step :: "CaseExecutor \<Rightarrow> CaseExecutor \<Rightarrow> bool" where
  sentry: "executor_step x (x\<lparr>cx_sentry_evaluator := s\<rparr>)"
| milestone: "executor_step x (x\<lparr>cx_milestones := dset mid c (cx_milestones x)\<rparr>)"
| stage: "\<not> st_stage_is_completed c \<Longrightarrow> executor_step x (x\<lparr>cx_stages := dset sid c (cx_stages x)\<rparr>)"

locale case_invariant =
  fixes P :: "case_run \<Rightarrow> bool" and iid :: string
  assumes var: "P r \<Longrightarrow> P (case_var iid k v r)"
    and publish: "P r \<Longrightarrow> P (snd (case_publish clk ids ty data r))"
    and executor: "P r \<Longrightarrow> executor_step (cr_executor r) x \<Longrightarrow> P (r\<lparr>cr_executor := x\<rparr>)"
begin

lemma andthen_kept: "P (snd x) \<Longrightarrow> (\<And>r. P r \<Longrightarrow> P (snd (f r))) \<Longrightarrow> P (snd (andthen x f))"
  by (cases x; cases "fst x") (auto simp: andthen_def)

lemma each_kept: "P r \<Longrightarrow> (\<And>k x r. P r \<Longrightarrow> P (snd (f k x r))) \<Longrightarrow> P (snd (each_do f xs r))"
  by (induction f xs r rule: each_do.induct) (auto intro!: andthen_kept)

lemma try_kept: "P r \<Longrightarrow> (\<And>v r. P r \<Longrightarrow> P (snd (f v r))) \<Longrightarrow> P (snd (try_do x f r))"
  by (simp add: try_do_def split: sum.split)

lemma fold_kept: "P r \<Longrightarrow> P (fold (\<lambda>(k, v). task_var iid tid k v) p r)"
  by (induction p arbitrary: r) (auto simp: task_var_def var)

lemma io_kept: "P r \<Longrightarrow> P (snd (io_mapping iid m r))"
  unfolding io_mapping_def by (intro try_kept) (auto intro!: try_kept var simp: Let_def)

lemma keep_kept: "P r \<Longrightarrow> P (keep_var iid tid k v r)"
  by (simp add: keep_var_def task_var_def var)

lemma process_kept: "P r \<Longrightarrow> P (snd (process_case_task iid tid t r))"
proof (cases "dict_of (task_payload t)")
  case (Inr p)
  assume a: "P r"
  let ?x = "try_do (py_list (pget_or t ''ioMapping'' (PList []))) (each_do (\<lambda>_. io_mapping iid))
    (keep_var iid tid ''calledElement'' (pget_or t ''calledElement'' (pget p ''calledElement'')) r)"
  obtain err r1 where x: "?x = (err, r1)" by fastforce
  have "P (snd ?x)" by (intro try_kept each_kept keep_kept io_kept a)
  then show ?thesis using Inr x by (cases err) (simp_all add: process_case_task_def Let_def)
qed (simp add: process_case_task_def)

lemma entries_kept: "P r \<Longrightarrow> P (snd (task_entries iid tid t r))"
  using fold_kept [of r] process_kept [of r] keep_kept [of r]
  by (auto simp: task_entries_def human_task_def case_task_def decision_task_def Let_def split: sum.split)

lemma task_kept: "P r \<Longrightarrow> P (snd (execute_task iid tid t r))"
proof -
  assume a: "P r"
  obtain res r1 where x: "task_entries iid tid t r = (res, r1)" by fastforce
  then have "P r1" using entries_kept [OF a, of tid t] by simp
  then show ?thesis using x by (auto simp: execute_task_def Let_def task_var_def intro!: var split: sum.split)
qed

lemma run_kept: "P r \<Longrightarrow> P (snd (run_task ev clks uuids iid k t r))"
  unfolding run_task_def by (intro try_kept) (auto simp: Let_def intro!: andthen_kept publish var task_kept)

lemma setup_kept:
  "P r \<Longrightarrow> P (snd (case_file_item iid v r))" "P r \<Longrightarrow> P (snd (case_sentry v r))" "P r \<Longrightarrow> P (snd (case_milestone iid v r))"
  "P r \<Longrightarrow> P (snd (case_stage v r))" "P r \<Longrightarrow> P (snd (evaluate_milestone iid mid r))"
  unfolding case_file_item_def case_sentry_def case_milestone_def case_stage_def evaluate_milestone_def with_executor_def
  by (intro try_kept; auto simp: Let_def intro!: try_kept var executor executor_step.intros)+
    (auto intro!: var executor executor_step.intros split: option.split)

end

interpretation active_case: case_invariant "\<lambda>r. stands st iid Instances.ACTIVE (cr_engine r)" iid for st iid
proof
  fix r :: case_run and clk ids ty data
  assume a: "stands st iid Instances.ACTIVE (cr_engine r)"
  obtain e1 where "engine_publish clk ids ty data (cr_engine r) = (None, e1)" "stands st iid Instances.ACTIVE e1" by (rule stands_publish [OF a])
  then show "stands st iid Instances.ACTIVE (cr_engine (snd (case_publish clk ids ty data r)))" by (simp add: case_publish_def)
qed (simp_all add: case_var_def stands_on_instance)

text \<open>The tables of an executor: milestones have one entry each, and no stage is ever completed.\<close>

definition case_executor_ok :: "CaseExecutor \<Rightarrow> bool" where
  "case_executor_ok x \<longleftrightarrow> dict_ok (cx_milestones x) \<and> (\<forall>c\<in>set (dvals (cx_stages x)). \<not> st_stage_is_completed c)"

lemma dset_vals: "set (dvals (dset k v d)) \<subseteq> insert v (set (dvals d))"
  by (induction d) auto

interpretation sound_executor: case_invariant "\<lambda>r. case_executor_ok (cr_executor r)" iid for iid
proof
  fix r :: case_run and x
  assume "case_executor_ok (cr_executor r)" "executor_step (cr_executor r) x"
  then show "case_executor_ok (cr_executor (r\<lparr>cr_executor := x\<rparr>))"
    using dset_vals by (fastforce simp: case_executor_ok_def elim!: executor_step.cases)
qed (simp_all add: case_var_def case_publish_def case_prod_beta)

subsection \<open>How a case ends\<close>

text \<open>Evaluating the milestones without an exception achieves all of them.\<close>

lemma evaluate_milestone_achieves:
  assumes "evaluate_milestone iid mid r = (None, r1)" "dget (cx_milestones (cr_executor r1)) k = Some c"
  shows "if k = mid then mc_is_achieved c else dget (cx_milestones (cr_executor r)) k = Some c"
  using assms by (auto simp: evaluate_milestone_def with_executor_def case_var_def split: option.splits if_splits)

lemma milestones_achieved:
  assumes "each_do (\<lambda>_. evaluate_milestone iid) ks r = (None, r1)" "dget (cx_milestones (cr_executor r1)) k = Some c"
  shows "mc_is_achieved c \<or> k \<notin> set ks \<and> dget (cx_milestones (cr_executor r)) k = Some c"
  using assms
proof (induction ks arbitrary: r)
  case (Cons mid ks)
  obtain err r2 where x: "evaluate_milestone iid mid r = (err, r2)" by fastforce
  with Cons.prems(1) have n: "err = None" "each_do (\<lambda>_. evaluate_milestone iid) ks r2 = (None, r1)" by (cases err; simp add: comp_def)+
  from Cons.IH [OF n(2) Cons.prems(2)] evaluate_milestone_achieves [of iid mid r r2 k c] x n(1) show ?case by (auto split: if_splits)
qed simp

lemma evaluate_milestones_complete:
  assumes "evaluate_milestones iid r = (None, r1)" "dict_ok (cx_milestones (cr_executor r1))"
  shows "list_all mc_is_achieved (dvals (cx_milestones (cr_executor r1)))"
proof -
  have "mc_is_achieved c" if "dget (cx_milestones (cr_executor r1)) k = Some c" for k c
    using milestones_achieved [OF assms(1) [unfolded evaluate_milestones_def] that] by (auto simp flip: map_of_eq_None_iff)
  then show ?thesis unfolding list_all_iff using dvals_dget [OF assms(2)] by blast
qed

lemma case_prepared:
  assumes "stands st iid Instances.ACTIVE (cr_engine r)" "case_executor_ok (cr_executor r)"
    and "andthen (andthen (case_setup iid p r) (case_tasks ev clks uuids iid p)) (evaluate_milestones iid) = (err, r1)"
  shows "stands st iid Instances.ACTIVE (cr_engine r1)" "case_executor_ok (cr_executor r1)"
    "err = None \<longrightarrow> list_all mc_is_achieved (dvals (cx_milestones (cr_executor r1)))"
proof -
  let ?x = "andthen (andthen (case_setup iid p r) (case_tasks ev clks uuids iid p)) (evaluate_milestones iid)"
  have "stands st iid Instances.ACTIVE (cr_engine (snd ?x))"
    unfolding case_setup_def case_tasks_def evaluate_milestones_def
    by (intro active_case.andthen_kept active_case.each_kept active_case.try_kept active_case.setup_kept active_case.run_kept assms(1))
  moreover have ok: "case_executor_ok (cr_executor (snd ?x))"
    unfolding case_setup_def case_tasks_def evaluate_milestones_def
    by (intro sound_executor.andthen_kept sound_executor.each_kept sound_executor.try_kept
        sound_executor.setup_kept sound_executor.run_kept assms(2))
  ultimately show "stands st iid Instances.ACTIVE (cr_engine r1)" "case_executor_ok (cr_executor r1)" using assms(3) by simp_all
  show "err = None \<longrightarrow> list_all mc_is_achieved (dvals (cx_milestones (cr_executor r1)))"
  proof
    assume "err = None"
    with assms(3) obtain r0 where "evaluate_milestones iid r0 = (None, r1)" by (auto simp: andthen_def split: prod.splits option.splits)
    then show "list_all mc_is_achieved (dvals (cx_milestones (cr_executor r1)))"
      using evaluate_milestones_complete \<open>case_executor_ok (cr_executor r1)\<close> by (auto simp: case_executor_ok_def)
  qed
qed

text \<open>The executor completes the instance exactly if it returns and knows no stage.\<close>

lemma case_execute_ends:
  assumes "stands st iid Instances.ACTIVE (cr_engine r)" "case_executor_ok (cr_executor r)" "case_execute ev clk clks uuids iid d r = (raised, r1)"
  shows "stands st iid (if raised = None \<and> cx_stages (cr_executor r1) = [] then Instances.COMPLETED else Instances.ACTIVE) (cr_engine r1)"
    "case_executor_ok (cr_executor r1)"
proof -
  obtain err r0 where x: "andthen (andthen (case_setup iid (normalize_definition d) r) (case_tasks ev clks uuids iid (normalize_definition d)))
      (evaluate_milestones iid) = (err, r0)" by fastforce
  note p = case_prepared [OF assms(1,2) x]
  have e: "case_execute ev clk clks uuids iid d r = andthen (err, r0) (check_case_completion clk iid)"
    by (simp add: case_execute_def Let_def x)
  have "stands st iid (if raised = None \<and> cx_stages (cr_executor r1) = [] then Instances.COMPLETED else Instances.ACTIVE) (cr_engine r1) \<and>
      case_executor_ok (cr_executor r1)"
  proof (cases err)
    case (Some x)
    then show ?thesis using assms(3) e p(1,2) by auto
  next
    case None
    have c: "case_complete (cr_executor r0) \<longleftrightarrow> cx_stages (cr_executor r0) = []"
      using p(2,3) None by (cases "cx_stages (cr_executor r0)") (auto simp: case_complete_def case_executor_ok_def list_all_iff)
    obtain i ob where i: "engine_instance iid (cr_engine r0) = Some i" "life i = (iid, Instances.ACTIVE, ob)" "instance_wf i"
      by (rule stands_instance [OF p(1)])
    show ?thesis
    proof (cases "cx_stages (cr_executor r0) = []")
      case False
      then show ?thesis using assms(3) e None c p by (simp add: check_case_completion_def)
    next
      case True
      have a: "stands st iid Instances.ACTIVE (sr_engine \<lparr>sr_model = undefined, sr_history = undefined, sr_engine = cr_engine r0\<rparr>)" using p(1) by simp
      obtain q where q: "complete_instance clk iid \<lparr>sr_model = undefined, sr_history = undefined, sr_engine = cr_engine r0\<rparr> = (None, q)"
        "stands st iid Instances.COMPLETED (sr_engine q)"
        by (rule stands_complete [OF a])
      then have "with_instance iid (instance_apply clk Instances.Complete) (cr_engine r0) = (None, sr_engine q)"
        by (auto simp: complete_instance_def on_run_def split: prod.splits)
      then show ?thesis using assms(3) e None c True q(2) p(2) by (auto simp: check_case_completion_def)
    qed
  qed
  then show "stands st iid (if raised = None \<and> cx_stages (cr_executor r1) = [] then Instances.COMPLETED else Instances.ACTIVE) (cr_engine r1)"
    "case_executor_ok (cr_executor r1)" by simp_all
qed

lemma case_report_eq:
  "case_report (\<lambda>_. None) now iid st data e = (None, e\<lparr>en_state_manager := snd (sm_set now iid st data (en_state_manager e))\<rparr>)"
  by (simp add: case_report_def sm_set_persisted_def case_prod_beta)

lemma stands_report_case:
  "stands st0 iid s e \<Longrightarrow> stands st iid s (e\<lparr>en_state_manager := snd (sm_set now iid st data (en_state_manager e))\<rparr>)"
  by (simp add: stands_def shared_def sm_get_set)

lemma case_state_simps [simp]:
  "case_state iid (c\<lparr>cm_case_states := dset iid st ss\<rparr>) = st" "case_state iid (c\<lparr>cm_executor := x\<rparr>) = case_state iid c"
  "case_state iid (c\<lparr>cm_contexts := m\<rparr>) = case_state iid c"
  by (simp_all add: case_state_def dget_or_def)

text \<open>An active instance is completed, and everything that is told about it says so.\<close>

lemma complete_active:
  assumes "stands st iid Instances.ACTIVE e"
  obtains e1 i1 where "andthen (update_instance_state (\<lambda>_. None) clks uuids iid Instances.COMPLETED None e) (\<lambda>e1.
      andthen (case_report (\<lambda>_. None) now iid ''completed'' data e1) (engine_publish clk ids ty evd)) = (None, e1)"
    "engine_instance iid e1 = Some i1" "pi_state i1 = Instances.COMPLETED" "map_option ss_state (sm_get iid (en_state_manager e1)) = Some ''completed''"
proof -
  obtain i ob where i: "engine_instance iid e = Some i" "life i = (iid, Instances.ACTIVE, ob)" "instance_wf i" by (rule stands_instance [OF assms])
  have sh: "shared e" using assms by (simp add: stands_def)
  obtain err i1 where a: "instance_apply (clks 0) Instances.Complete i = (err, i1)" by fastforce
  have s: "err = None" "pi_state i1 = Instances.COMPLETED"
    using instance_apply_status [OF i(3), where x = Instances.Complete and clk = "clks 0"] a i(2) by (simp_all add: life_def)
  then have t: "transition_instance (clks 0) None Instances.COMPLETED i = (Inr PROCESS_INSTANCE_COMPLETED, i1)" using a by (simp add: transition_instance_def)
  obtain e2 where u: "update_instance_state (\<lambda>_. None) clks uuids iid Instances.COMPLETED None e = (None, e2)" "shared e2"
    "engine_instance iid e2 = Some i1"
    by (rule update_view [where clks = clks and uuids = uuids, OF sh i(1) t]) simp
  let ?e3 = "e2\<lparr>en_state_manager := snd (sm_set now iid ''completed'' data (en_state_manager e2))\<rparr>"
  have "shared ?e3" using u(2) by (simp add: shared_def)
  then obtain b where b: "engine_publish clk ids ty evd ?e3 = (None, set_bus b ?e3)" by (rule engine_publish_ok)
  have "engine_instance iid (set_bus b ?e3) = engine_instance iid e2" by (rule engine_instance_cong) simp_all
  then show ?thesis using that [of "set_bus b ?e3" i1] u b s(2) by (simp add: case_report_eq sm_get_set)
qed


definition demo_cases :: CMMNEngine where
  "demo_cases = \<lparr>cm_contexts = context_manager_init None,
     cm_executor = \<lparr>cx_sentry_evaluator = sentry_init, cx_stages = [], cx_milestones = [], cx_planning_items = []\<rparr>, cm_case_states = []\<rparr>"


text \<open>
  The operations on a case follow the table of its states: the state of the case changes to the requested one if the
  table allows it, whatever the engine then says about the instance, and stays as it is otherwise.
\<close>

fun case_target :: "case_op \<Rightarrow> CMMNCaseState" where
  "case_target Start_case = CASE_ACTIVE"
| "case_target (Terminate_case _) = CASE_TERMINATED"
| "case_target Suspend_case = CASE_SUSPENDED"
| "case_target Resume_case = CASE_ACTIVE"
| "case_target Close_case = CASE_CLOSED"
| "case_target Reactivate_case = CASE_ACTIVE"

lemma case_apply_state:
  assumes "case_apply ser now clks uuids iid op c e = (err, c1, e1)"
  shows "case_state jid c1 = (if jid = iid \<and> case_target op \<in> set (valid_next (case_state iid c)) then case_target op else case_state jid c)"
    "case_target op \<notin> set (valid_next (case_state iid c)) \<Longrightarrow> err = Some case_error \<and> e1 = e"
  using assms by (cases op; auto simp: change_case_def case_transition_def case_state_def dget_or_def split: if_splits prod.splits option.splits)+

text \<open>A completed case cannot be closed without an exception, since its instance refuses to be completed again.\<close>

lemma close_completed_raises:
  assumes "stands st iid Instances.COMPLETED e" "case_state iid c = CASE_COMPLETED"
  obtains msg c1 e1 where "case_apply (\<lambda>_. None) now clks uuids iid Close_case c e = (Some (RuntimeError msg), c1, e1)" "case_state iid c1 = CASE_CLOSED"
proof -
  let ?e = "e\<lparr>en_state_manager := snd (sm_set now iid ''closed'' None (en_state_manager e))\<rparr>"
  have "stands ''closed'' iid Instances.COMPLETED ?e" by (rule stands_report_case [OF assms(1)])
  then obtain msg e1 where "update_instance_state (\<lambda>_. None) clks uuids iid Instances.COMPLETED (Some ''closed'') ?e = (Some (RuntimeError msg), e1)"
    using update_stands [where reason = "Some ''closed''" and goal = Instances.COMPLETED and op = Instances.Complete and ty = PROCESS_INSTANCE_COMPLETED
        and clks = clks and uuids = uuids and st = "''closed''" and s = Instances.COMPLETED and iid = iid and e = ?e] by auto
  then show ?thesis using that assms(2) by (simp add: change_case_def case_transition_def case_report_eq)
qed

end
