(* ===== verification/CaseHandlers.thy ===== *)
theory CaseHandlers
  imports Cases
begin

section \<open>The handlers of the case management engine\<close>

text \<open>
  \<open>cmmn/stage_handler.py\<close>, \<open>milestone_handler.py\<close>, \<open>discretionary_handler.py\<close>, \<open>planning_table_handler.py\<close>,
  \<open>task_handler.py\<close> and \<open>case_file_manager.py\<close>.  The records leave out the fields that no operation reads.
\<close>

subsection \<open>Stages and milestones\<close>

text \<open>
  The handlers work on objects that the caller passes and may write to an instance that is passed as well.  The event that
  \<open>activate\<close> puts on the loop of \<open>asyncio\<close> is left out.
\<close>

datatype StageState = STAGE_ACTIVE | STAGE_COMPLETED | STAGE_TERMINATED | STAGE_FAILED | STAGE_SUSPENDED | STAGE_AVAILABLE | STAGE_ENABLED

fun stage_state_value :: "StageState \<Rightarrow> string" where
  "stage_state_value STAGE_ACTIVE = ''active''"
| "stage_state_value STAGE_COMPLETED = ''completed''"
| "stage_state_value STAGE_TERMINATED = ''terminated''"
| "stage_state_value STAGE_FAILED = ''failed''"
| "stage_state_value STAGE_SUSPENDED = ''suspended''"
| "stage_state_value STAGE_AVAILABLE = ''available''"
| "stage_state_value STAGE_ENABLED = ''enabled''"

record CaseStage =
  sg_stage_id :: string
  sg_auto_complete :: bool
  sg_tasks :: "string list"
  sg_state :: StageState

type_synonym StageHandler = "(string, CaseStage) dict"

definition stage_var :: "CaseStage \<Rightarrow> string \<Rightarrow> pyval \<Rightarrow> ProcessInstance \<Rightarrow> ProcessInstance" where
  "stage_var s k v = pi_set_variable (''stage.'' @ sg_stage_id s @ ''.'' @ k) v"

definition enter_stage_state :: "StageState \<Rightarrow> CaseStage \<Rightarrow> StageHandler \<Rightarrow> ProcessInstance option \<Rightarrow> CaseStage \<times> StageHandler \<times> ProcessInstance option" where
  "enter_stage_state st s h i =
     (let s1 = s\<lparr>sg_state := st\<rparr> in (s1, dset (sg_stage_id s) s1 h, map_option (stage_var s ''state'' (PStr (stage_state_value st))) i))"

definition stage_answer :: "CaseStage \<Rightarrow> string \<Rightarrow> pydict" where
  "stage_answer s st = [(''stage_id'', PStr (sg_stage_id s)), (''status'', PStr st)]"

definition activate_stage :: "CaseStage \<Rightarrow> StageHandler \<Rightarrow> ProcessInstance option \<Rightarrow> pydict \<times> CaseStage \<times> StageHandler \<times> ProcessInstance option" where
  "activate_stage s h i =
     (case enter_stage_state STAGE_ACTIVE s h i of
        (s1, h1, i1) \<Rightarrow>
          (stage_answer s ''active'' @ [(''tasks'', str_list (sg_tasks s))], s1, h1,
           map_option (fold (\<lambda>t. pi_set_variable (''task.'' @ t @ ''.state'') (PStr ''enabled'')) (sg_tasks s)) i1))"

definition tasks_done :: "string list \<Rightarrow> ProcessInstance \<Rightarrow> bool" where
  "tasks_done ts i = list_all (\<lambda>t. pget (pi_variables i) (''task.'' @ t @ ''.status'') = PStr ''completed'') ts"

definition complete_stage :: "CaseStage \<Rightarrow> StageHandler \<Rightarrow> ProcessInstance option \<Rightarrow> pydict \<times> CaseStage \<times> StageHandler \<times> ProcessInstance option" where
  "complete_stage s h i =
     (case enter_stage_state STAGE_COMPLETED s h i of
        (s1, h1, i1) \<Rightarrow>
          (stage_answer s ''completed'', s1, h1,
           map_option (\<lambda>i. stage_var s ''allTasksComplete'' (PBool (tasks_done (sg_tasks s) i)) i) i1))"

definition reenter_stage :: "CaseStage \<Rightarrow> StageHandler \<Rightarrow> ProcessInstance option \<Rightarrow> pydict \<times> CaseStage \<times> StageHandler \<times> ProcessInstance option" where
  "reenter_stage s h i =
     (if sg_state s = STAGE_COMPLETED
      then (case enter_stage_state STAGE_ACTIVE s h i of
              (s1, h1, i1) \<Rightarrow>
                (stage_answer s ''reentered'' @ [(''tasks'', str_list (sg_tasks s))], s1, h1, map_option (stage_var s ''reentered'' (PBool True)) i1))
      else (stage_answer s (stage_state_value (sg_state s)), s, h, i))"

text \<open>\<open>terminate\<close>, \<open>suspend\<close> and \<open>resume\<close>; \<open>fail\<close> writes its reason as well.\<close>

definition change_stage :: "StageState \<Rightarrow> CaseStage \<Rightarrow> StageHandler \<Rightarrow> ProcessInstance option \<Rightarrow> pydict \<times> CaseStage \<times> StageHandler \<times> ProcessInstance option" where
  "change_stage st s h i = (stage_answer s (stage_state_value st), enter_stage_state st s h i)"

definition fail_stage :: "string \<Rightarrow> CaseStage \<Rightarrow> StageHandler \<Rightarrow> ProcessInstance option \<Rightarrow> pydict \<times> CaseStage \<times> StageHandler \<times> ProcessInstance option" where
  "fail_stage reason s h i =
     (case enter_stage_state STAGE_FAILED s h i of
        (s1, h1, i1) \<Rightarrow>
          (stage_answer s ''failed'' @ [(''reason'', PStr reason)], s1, h1, map_option (stage_var s ''failureReason'' (PStr reason)) i1))"

definition check_auto_complete :: "CaseStage \<Rightarrow> ProcessInstance \<Rightarrow> bool" where
  "check_auto_complete s i \<longleftrightarrow> sg_auto_complete s \<and> sg_state s = STAGE_ACTIVE \<and> tasks_done (sg_tasks s) i"

definition stage_summary :: "CaseStage \<Rightarrow> ProcessInstance \<Rightarrow> pydict" where
  "stage_summary s i =
     (let sts = fold (\<lambda>t. dset t (por (pget (pi_variables i) (''task.'' @ t @ ''.status'')) (PStr ''pending''))) (sg_tasks s) [];
          n = length (filter (\<lambda>v. v = PStr ''completed'') (dvals sts))
      in [(''stage_id'', PStr (sg_stage_id s)), (''state'', PStr (stage_state_value (sg_state s))), (''tasks_total'', PInt (int (length sts))),
          (''tasks_completed'', PInt (int n)), (''tasks_pending'', PInt (int (length sts) - int n)), (''task_statuses'', PDict sts)])"

record CaseMilestone =
  ml_milestone_id :: string
  ml_reached :: bool
  ml_state :: string
  ml_achievement_date :: "string option"
  ml_audit_log :: "pydict list"

record MilestoneAuditEntry =
  ma_milestone_id :: string
  ma_action :: string
  ma_timestamp :: string
  ma_instance_id :: "string option"

record MilestoneHandler =
  mh_milestones :: "(string, CaseMilestone) dict"
  mh_audit_log :: "MilestoneAuditEntry list"

definition set_reached ::
  "datetime \<Rightarrow> CaseMilestone \<Rightarrow> MilestoneHandler \<Rightarrow> ProcessInstance option \<Rightarrow> CaseMilestone \<times> MilestoneHandler \<times> ProcessInstance option" where
  "set_reached now m h i =
     (let t = isoformat now; var = (\<lambda>k. pi_set_variable (''milestone.'' @ ml_milestone_id m @ ''.'' @ k));
          m1 = m\<lparr>ml_reached := True, ml_state := ''achieved'', ml_achievement_date := Some t,
                 ml_audit_log := ml_audit_log m @ [[(''action'', PStr ''achieved''), (''timestamp'', PStr t)]]\<rparr>
      in (m1,
          h\<lparr>mh_audit_log := mh_audit_log h @ [\<lparr>ma_milestone_id = ml_milestone_id m, ma_action = ''achieved'', ma_timestamp = t,
              ma_instance_id = map_option pi_id i\<rparr>], mh_milestones := dset (ml_milestone_id m) m1 (mh_milestones h)\<rparr>,
          map_option (\<lambda>i. var ''date'' (PStr t) (var ''achieved'' (PBool True) i)) i))"

fun milestones_evaluate ::
  "clock \<Rightarrow> CaseMilestone list \<Rightarrow> MilestoneHandler \<Rightarrow> ProcessInstance option \<Rightarrow> CaseMilestone list \<times> MilestoneHandler \<times> ProcessInstance option" where
  "milestones_evaluate clk [] h i = ([], h, i)"
| "milestones_evaluate clk (m # ms) h i =
     (if ml_reached m then (case milestones_evaluate clk ms h i of (ns, x) \<Rightarrow> (m # ns, x))
      else (case set_reached (clk 0) m h i of
              (m1, h1, i1) \<Rightarrow> (case milestones_evaluate (clk \<circ> Suc) ms h1 i1 of (ns, x) \<Rightarrow> (m1 # ns, x))))"

definition milestone_achieved :: "string \<Rightarrow> MilestoneHandler \<Rightarrow> bool" where
  "milestone_achieved mid h = (case dget (mh_milestones h) mid of None \<Rightarrow> False | Some m \<Rightarrow> ml_reached m)"

definition get_achieved_milestones :: "MilestoneHandler \<Rightarrow> CaseMilestone list" where
  "get_achieved_milestones h = filter ml_reached (dvals (mh_milestones h))"

definition get_pending_milestones :: "MilestoneHandler \<Rightarrow> CaseMilestone list" where
  "get_pending_milestones h = filter (\<lambda>m. \<not> ml_reached m) (dvals (mh_milestones h))"

definition milestone_audit_log :: "string option \<Rightarrow> MilestoneHandler \<Rightarrow> MilestoneAuditEntry list" where
  "milestone_audit_log mid h = (case mid of None \<Rightarrow> mh_audit_log h | Some k \<Rightarrow> filter (\<lambda>a. ma_milestone_id a = k) (mh_audit_log h))"

lemma milestones_evaluate_reaches:
  "milestones_evaluate clk ms h i = (ns, h1, i1) \<Longrightarrow>
    list_all ml_reached ns \<and> map ml_milestone_id ns = map ml_milestone_id ms \<and>
    map ma_milestone_id (mh_audit_log h1) = map ma_milestone_id (mh_audit_log h) @ map ml_milestone_id (filter (\<lambda>m. \<not> ml_reached m) ms)"
proof (induction ms arbitrary: clk h i ns h1 i1)
  case (Cons m ms)
  show ?case
  proof (cases "ml_reached m")
    case True
    then show ?thesis using Cons by (auto split: prod.splits)
  next
    case False
    obtain m1 h2 i2 where s: "set_reached (clk 0) m h i = (m1, h2, i2)" by (metis prod_cases3)
    then have m1: "ml_reached m1" "ml_milestone_id m1 = ml_milestone_id m"
      "map ma_milestone_id (mh_audit_log h2) = map ma_milestone_id (mh_audit_log h) @ [ml_milestone_id m]"
      by (auto simp: set_reached_def Let_def)
    obtain ns1 where "milestones_evaluate (clk \<circ> Suc) ms h2 i2 = (ns1, h1, i1)" "ns = m1 # ns1"
      using Cons.prems False s by (auto split: prod.splits)
    then show ?thesis using Cons.IH m1 False by fastforce
  qed
qed simp

subsection \<open>Discretionary items and planning tables\<close>

record DiscretionaryItem =
  di_item_id :: string
  di_entry_criteria :: "pydict list"
  di_authorized_roles :: "string list"
  di_is_planned :: bool
  di_is_available :: bool

record PlanningTable =
  pt_table_id :: string
  pt_applicability_rules :: "pydict list"
  pt_discretionary_items :: "DiscretionaryItem list"

record DiscretionaryTaskHandler =
  dh_items :: "(string, DiscretionaryItem) dict"
  dh_planning_tables :: "(string, PlanningTable) dict"

definition register_planning_table :: "PlanningTable \<Rightarrow> DiscretionaryTaskHandler \<Rightarrow> DiscretionaryTaskHandler" where
  "register_planning_table t h =
     \<lparr>dh_items = fold (\<lambda>d. dset (di_item_id d) d) (pt_discretionary_items t) (dh_items h),
      dh_planning_tables = dset (pt_table_id t) t (dh_planning_tables h)\<rparr>"

text \<open>A condition that raises counts as false.\<close>

definition criteria_hold :: "evaluator \<Rightarrow> pydict list \<Rightarrow> ProcessInstance \<Rightarrow> bool" where
  "criteria_hold ev cs i =
     list_all (\<lambda>c. let x = por (pget c ''condition'') (pget c ''body'')
                   in truthy x \<longrightarrow> (case eval_bool ev (pi_variables i) x of Inl _ \<Rightarrow> False | Inr b \<Rightarrow> b)) cs"

text \<open>Roles are compared only if the item has some and the user has some.\<close>

definition authorized :: "string list \<Rightarrow> string list \<Rightarrow> bool" where
  "authorized item_roles roles \<longleftrightarrow> item_roles = [] \<or> roles = [] \<or> (\<exists>r\<in>set roles. r \<in> set item_roles)"

definition get_available_items :: "evaluator \<Rightarrow> ProcessInstance \<Rightarrow> string list \<Rightarrow> DiscretionaryTaskHandler \<Rightarrow> DiscretionaryItem list" where
  "get_available_items ev i roles h =
     filter (\<lambda>d. di_is_available d \<and> criteria_hold ev (di_entry_criteria d) i \<and> authorized (di_authorized_roles d) roles) (dvals (dh_items h))"

definition plan_item ::
  "evaluator \<Rightarrow> string \<Rightarrow> ProcessInstance \<Rightarrow> string list \<Rightarrow> DiscretionaryTaskHandler \<Rightarrow> bool \<times> DiscretionaryTaskHandler \<times> ProcessInstance" where
  "plan_item ev did i roles h =
     (case dget (dh_items h) did of
        None \<Rightarrow> (False, h, i)
      | Some d \<Rightarrow>
          if \<not> di_is_available d then (False, h, i)
          else if \<not> authorized (di_authorized_roles d) roles then (False, h, i)
          else if \<not> criteria_hold ev (di_entry_criteria d) i then (False, h, i)
          else (True, h\<lparr>dh_items := dset did (d\<lparr>di_is_planned := True\<rparr>) (dh_items h)\<rparr>,
                pi_set_variable (''discretionary.'' @ did @ ''.planned'') (PBool True) i))"

definition unplan_item :: "string \<Rightarrow> ProcessInstance \<Rightarrow> DiscretionaryTaskHandler \<Rightarrow> bool \<times> DiscretionaryTaskHandler \<times> ProcessInstance" where
  "unplan_item did i h =
     (case dget (dh_items h) did of
        None \<Rightarrow> (False, h, i)
      | Some d \<Rightarrow> (True, h\<lparr>dh_items := dset did (d\<lparr>di_is_planned := False\<rparr>) (dh_items h)\<rparr>,
                    pi_set_variable (''discretionary.'' @ did @ ''.planned'') (PBool False) i))"

definition table_process :: "evaluator \<Rightarrow> string \<Rightarrow> ProcessInstance \<Rightarrow> string list \<Rightarrow> (string, PlanningTable) dict \<Rightarrow> DiscretionaryItem list" where
  "table_process ev tid i roles tables =
     (case dget tables tid of
        None \<Rightarrow> []
      | Some t \<Rightarrow>
          filter (\<lambda>d. di_is_available d \<and> authorized (di_authorized_roles d) roles \<and> criteria_hold ev (pt_applicability_rules t) i \<and>
            criteria_hold ev (di_entry_criteria d) i) (pt_discretionary_items t))"

definition authorize_planning :: "string \<Rightarrow> string \<Rightarrow> string list \<Rightarrow> (string, PlanningTable) dict \<Rightarrow> bool" where
  "authorize_planning tid did roles tables =
     (case dget tables tid of
        None \<Rightarrow> False
      | Some t \<Rightarrow>
          (case List.find (\<lambda>d. di_item_id d = did) (pt_discretionary_items t) of
             None \<Rightarrow> False
           | Some d \<Rightarrow> di_authorized_roles d = [] \<or> (\<exists>r\<in>set roles. r \<in> set (di_authorized_roles d))))"

text \<open>An item can be planned exactly if it is offered, and what the table offers the handler lets be planned.\<close>

lemma plan_item_offered:
  assumes "dict_ok (dh_items h)" "\<And>k d. dget (dh_items h) k = Some d \<Longrightarrow> di_item_id d = k"
  shows "fst (plan_item ev did i roles h) \<longleftrightarrow> did \<in> di_item_id ` set (get_available_items ev i roles h)"
proof -
  have "d \<in> set (dvals (dh_items h)) \<and> di_item_id d = did \<longleftrightarrow> dget (dh_items h) did = Some d" for d
    using dvals_dget [OF assms(1), of d] assms(2) by metis
  then have "did \<in> di_item_id ` set (get_available_items ev i roles h) \<longleftrightarrow>
      (\<exists>d. dget (dh_items h) did = Some d \<and> di_is_available d \<and> criteria_hold ev (di_entry_criteria d) i \<and> authorized (di_authorized_roles d) roles)"
    unfolding get_available_items_def image_iff by (metis (no_types, lifting) mem_Collect_eq set_filter)
  then show ?thesis by (auto simp: plan_item_def split: option.split)
qed

subsection \<open>Tasks and case files\<close>

record CMMNTask =
  ct_task_id :: string
  ct_task_type :: string
  ct_payload :: pydict
  ct_is_blocking :: string
  ct_state :: string

record CMMNTaskHandler =
  th_tasks :: "(string, CMMNTask) dict"
  th_human_tasks :: "(string, pyval) dict"

text \<open>\<open>th_human_tasks\<close> has the assignees of the registered configurations; the other configurations are never read.\<close>

definition type_entries :: "CMMNTask \<Rightarrow> CMMNTaskHandler \<Rightarrow> pydict" where
  "type_entries t h =
     (if ct_task_type t = ''HumanTask''
      then [(''assignee'', dget_or (th_human_tasks h) (ct_task_id t) (pget (ct_payload t) ''assignee'')), (''claimed'', PBool False)]
      else if ct_task_type t = ''ProcessTask''
      then [(''calledElement'', pget_or (ct_payload t) ''calledElement'' (pget (ct_payload t) ''called_element''))]
      else if ct_task_type t = ''CaseTask'' then [(''caseRef'', pget (ct_payload t) ''caseRef'')]
      else if ct_task_type t = ''DecisionTask''
      then [(''calledDecision'', pget (ct_payload t) ''calledDecision''),
            (''resultVariable'', pget_or (ct_payload t) ''resultVariable'' (PStr (''task.'' @ ct_task_id t @ ''.result'')))]
      else [(''output'', PDict (ct_payload t))])"

definition task_execute :: "CMMNTask \<Rightarrow> CMMNTaskHandler \<Rightarrow> ProcessInstance option \<Rightarrow> pydict \<times> ProcessInstance option" where
  "task_execute t h i =
     (let res = [(''task_id'', PStr (ct_task_id t)), (''type'', PStr (ct_task_type t)), (''status'', PStr ''done'')] @ type_entries t h;
          var = (\<lambda>k. pi_set_variable (''task.'' @ ct_task_id t @ ''.'' @ k))
      in (res, map_option (\<lambda>i. var ''output'' (PDict res) (var ''state'' (PStr ''completed'') i)) i))"

definition claim_task :: "string \<Rightarrow> string \<Rightarrow> CMMNTaskHandler \<Rightarrow> ProcessInstance \<Rightarrow> bool \<times> CMMNTaskHandler \<times> ProcessInstance" where
  "claim_task tid user h i =
     (case dget (th_tasks h) tid of
        None \<Rightarrow> (False, h, i)
      | Some t \<Rightarrow> (True, h\<lparr>th_tasks := dset tid (t\<lparr>ct_state := ''active''\<rparr>) (th_tasks h)\<rparr>,
                    pi_set_variable (''task.'' @ tid @ ''.state'') (PStr ''active'') (pi_set_variable (''task.'' @ tid @ ''.claimant'') (PStr user) i)))"

definition release_task :: "string \<Rightarrow> CMMNTaskHandler \<Rightarrow> ProcessInstance \<Rightarrow> bool \<times> CMMNTaskHandler \<times> ProcessInstance" where
  "release_task tid h i =
     (case dget (th_tasks h) tid of
        None \<Rightarrow> (False, h, i)
      | Some t \<Rightarrow> (True, h\<lparr>th_tasks := dset tid (t\<lparr>ct_state := ''enabled''\<rparr>) (th_tasks h)\<rparr>,
                    pi_set_variable (''task.'' @ tid @ ''.state'') (PStr ''enabled'') (pi_set_variable (''task.'' @ tid @ ''.claimant'') PNone i)))"

definition is_blocking :: "string \<Rightarrow> CMMNTaskHandler \<Rightarrow> bool" where
  "is_blocking tid h = (case dget (th_tasks h) tid of None \<Rightarrow> True | Some t \<Rightarrow> ct_is_blocking t = ''Blocking'')"

record CaseFileItem =
  fi_item_id :: string
  fi_value :: pyval
  fi_data_state :: "string option"
  fi_owner_ref :: "string option"
  fi_is_collection :: bool

type_synonym CaseFileManager = "(string, CaseFileItem) dict"

definition set_item :: "CaseFileItem \<Rightarrow> CaseFileManager \<Rightarrow> CaseFileManager" where
  "set_item x m = dset (fi_item_id x) x m"

definition get_item_value :: "string \<Rightarrow> CaseFileManager \<Rightarrow> pyval" where
  "get_item_value k m = (case dget m k of None \<Rightarrow> PNone | Some x \<Rightarrow> fi_value x)"

definition remove_item :: "string \<Rightarrow> CaseFileManager \<Rightarrow> bool \<times> CaseFileManager" where
  "remove_item k m = (dget m k \<noteq> None, ddel k m)"

definition get_all_items :: "CaseFileManager \<Rightarrow> pydict" where
  "get_all_items m = map (\<lambda>(k, x). (k, fi_value x)) m"

definition items_by_state :: "string \<Rightarrow> CaseFileManager \<Rightarrow> CaseFileItem list" where
  "items_by_state st m = filter (\<lambda>x. fi_data_state x = Some st) (dvals m)"

definition items_by_owner :: "string \<Rightarrow> CaseFileManager \<Rightarrow> CaseFileItem list" where
  "items_by_owner own m = filter (\<lambda>x. fi_owner_ref x = Some own) (dvals m)"

definition get_collection_items :: "CaseFileManager \<Rightarrow> CaseFileItem list" where
  "get_collection_items m = filter fi_is_collection (dvals m)"

definition update_data_state :: "string \<Rightarrow> string \<Rightarrow> CaseFileManager \<Rightarrow> bool \<times> CaseFileManager" where
  "update_data_state k st m = (case dget m k of None \<Rightarrow> (False, m) | Some x \<Rightarrow> (True, dset k (x\<lparr>fi_data_state := Some st\<rparr>) m))"

definition case_file_states :: "CaseFileManager \<Rightarrow> (string, nat) dict" where
  "case_file_states m = tally (map (\<lambda>x. case nonempty_opt (fi_data_state x) of [] \<Rightarrow> ''none'' | s # _ \<Rightarrow> s) (dvals m))"

end
