(* ===== verification/Spec2Isabelle.thy ===== *)
theory Spec2Isabelle
  imports Tokens TokenManagers Instances Transactions EventBus Scheduling Resilience Contexts Correlation
    ExternalTasks Decisions EventProcessing RuntimeManagers Deployments Engine Gateways BpmnModel
    BpmnActivities BpmnExecution BpmnRuns StateMachines Operations Cases CaseHandlers
begin

text \<open>
  \<^bold>\<open>A verification library for the orchestration engine\<close> (\<open>src/engines/orchestration\<close>).

  \<^bold>\<open>The program.\<close>  The repository is a platform for multi-agent applications; its orchestration engine
  executes process models.  The engine's core keeps process \<^emph>\<open>instances\<close>, the \<^emph>\<open>tokens\<close> that mark where an
  instance stands, the \<^emph>\<open>contexts\<close> that hold its variables, and \<^emph>\<open>transactions\<close> that group participants.
  Components talk to each other through the \<^emph>\<open>event bus\<close>; the \<^emph>\<open>correlation\<close> engine matches messages with the
  activities that wait for them, the \<^emph>\<open>scheduler\<close> starts tasks when they are due, and the runtime guards
  calls with \<^emph>\<open>circuit breakers\<close>, retries and rate limits.  The engine facade deploys definitions, starts
  instances of them, changes their state and restores everything when it starts again.  Managers write their objects to \<^emph>\<open>repositories\<close>
  of records and restore them from there.

  \<^bold>\<open>Conventions.\<close>  A class is a \<open>record\<close>, an enum a \<open>datatype\<close>, a method a function that takes the object and
  returns it updated.  A method that may raise returns an \<open>outcome\<close> (the exception or \<open>None\<close>, and the object as
  it is left) or a \<open>result\<close>.  Clock readings and fresh UUIDs are arguments, in the order in which the code
  draws them (\<open>clk 0\<close>, \<open>clk 1\<close>, \dots; \<open>ids 0\<close>, \dots).  Objects that are shared live in a store and are
  referred to by address (tokens in their manager, contexts, scheduled tasks).  A \<open>dict\<close> is an association list
  in insertion order, a \<open>set\<close> a duplicate-free list about whose order nothing is claimed.  Handlers that
  callers supply, filters and the sleeping between retries are parameters.  An asynchronous method is one step
  between the points where it waits for a handler; interleavings are explicit sequences of steps.

  \<^bold>\<open>The theories.\<close>
  \<^item> \<open>Prelude\<close>: exceptions, \<open>dict\<close>, \<open>set\<close>, indexes, bounded buffers and counting.  Its locales are the
    interfaces: \<open>indexed_store\<close> and \<open>identified_store\<close> (a table with an index kept consistent by insertion and
    removal; interpreted for tokens, instances, bus subscriptions and both kinds of correlation subscriptions),
    \<open>lifecycle\<close> and \<open>machine\<close> (a state machine with final states, and its refinement of an abstract transition
    table; interpreted for tokens and instances).
  \<^item> \<open>PyTime\<close>, \<open>PyVal\<close>: \<open>datetime\<close> as microseconds with \<open>isoformat\<close> and \<open>fromisoformat\<close> (proved inverse on the
    years 1 to 9999), \<open>timedelta.total_seconds\<close> rounded as IEEE doubles are, and dynamically typed values.
  \<^item> \<open>Repository\<close>: \<open>persistence/\<close>, the in-memory stores, the normalisation of records, histories and audit
    trails.  Locale \<open>repository\<close>: what was saved is read back; interpreted for both kinds of store.
  \<^item> \<open>Tokens\<close>, \<open>TokenManagers\<close>: \<open>core/token.py\<close>, \<open>core/token_states.py\<close>.  The five state classes refine the
    token lifecycle; splitting, merging, queries through the index, clean-up and persistence are characterised
    for every reachable manager.
  \<^item> \<open>Instances\<close>: \<open>core/instance.py\<close>, \<open>core/instance_states.py\<close>.  The nine state classes refine the instance
    lifecycle; the bookkeeping of activities and incidents is invariant; look-ups are exact; records round-trip.
  \<^item> \<open>Transactions\<close>: \<open>core/transaction.py\<close>, \<open>core/transaction_states.py\<close>.  The outcome of commit in two phases,
    compensation at most once and in descending order, the settled states, the \<open>transaction()\<close> block.
  \<^item> \<open>EventBus\<close>: \<open>core/event_bus.py\<close>.  Exact delivery by priority, delivery in publication order, the history
    window, the record format.
  \<^item> \<open>Heapq\<close>: the sift algorithms of Python's \<open>heapq\<close> on a list.  Locale \<open>priority_queue\<close>: a push adds and a pop
    removes a least element; interpreted for the algorithms.
  \<^item> \<open>Scheduling\<close>: \<open>core/scheduler.py\<close> on top of \<open>Heapq\<close>.  Due tasks are started exactly, each task is in one
    place, failures back off.
  \<^item> \<open>Resilience\<close>: \<open>runtime/circuit_breaker.py\<close>, \<open>runtime/circuit_states.py\<close>, \<open>runtime/rate_limiter.py\<close>.  The
    breaker trips and recovers, a retry loop returns the first success, no window admits more than its limit.
  \<^item> \<open>Contexts\<close>: \<open>core/context.py\<close> and the schema check of \<open>persistence/variable_repository.py\<close>.  Look-up
    through the parents equals look-up in the flattened view; setting a variable shadows; destroying a context
    detaches its subtree; variables round-trip through their records.
  \<^item> \<open>Correlation\<close>: \<open>core/correlation.py\<close> on top of \<open>EventBus\<close>.  A message reaches exactly the matching
    subscriptions or waits in the bounded buffer for one; signals, clean-up, reload from the history.
  \<^item> \<open>ExternalTasks\<close>: \<open>runtime/external_task.py\<close>.  What a fetch hands out, exclusive locks, who may report an
    outcome, retries.
  \<^item> \<open>Decisions\<close>: \<open>dmn/decision_requirements_graph.py\<close>, \<open>dmn/hit_policy_handler.py\<close>.  The execution order is a
    topological order and complete for acyclic graphs, a decision service evaluates every decision on the
    results of its requirements, the outputs of the hit policies.
  \<^item> \<open>EventProcessing\<close>: \<open>cep/window_manager.py\<close>, \<open>cep/pattern_matcher.py\<close>.  A window holds the last events; a
    sequence pattern matches exactly the subsequences.
  \<^item> \<open>RuntimeManagers\<close>: \<open>runtime/state_manager.py\<close>, \<open>variable_manager.py\<close>, \<open>incident_manager.py\<close>,
    \<open>state_snapshot.py\<close> and \<open>tenant.py\<close>.  Variables are restored as they were stored; clearing an instance removes
    exactly its incidents.
  \<^item> \<open>Deployments\<close>: \<open>core/_definition_models.py\<close>, \<open>DefinitionService\<close> of \<open>core/engine_services.py\<close>, the registry of
    \<open>core/engine.py\<close> and \<open>persistence/definition_repository.py\<close>.  Versions are numbered and found, definitions survive a
    restart, and what deleting a deployment does to other versions.
  \<^item> \<open>Engine\<close>: \<open>core/engine.py\<close>, \<open>core/engine_states.py\<close>, \<open>core/engine_services.py\<close> on top of the managers, the bus, the
    scheduler, the correlation engine and the repositories.  This is where the components meet: for every reachable
    engine the bus and the scheduler follow the engine's state; starting an instance is seen by the managers, the
    repositories, the state manager and the bus alike; a state change is decided by the instance's state machine and
    then seen everywhere; what a restart recovers.
  \<^item> \<open>Gateways\<close>: \<open>bpmn/gateway_handler.py\<close> on gateways given as dicts.  Which branches the exclusive and the inclusive
    gateway take, on every branch of their strategies.
  \<^item> \<open>BpmnModel\<close>: the elements of a process (\<open>bpmn/models\<close>), \<open>bpmn/process_model.py\<close>, \<open>model_normalizer.py\<close>,
    \<open>gateway_classifier.py\<close> and \<open>sequence_flow.py\<close>.
  \<^item> \<open>BpmnActivities\<close>: \<open>bpmn/activity_handler.py\<close>, what each type of task does to the variables of an instance and when it waits.
  \<^item> \<open>BpmnExecution\<close>, \<open>BpmnRuns\<close>: \<open>bpmn/process_executor.py\<close> and \<open>bpmn/engine.py\<close>, the loop that takes tokens through a
    process, on top of the engine.  From \<open>start_process_instance\<close> to the end: a path of nodes that succeed completes the
    instance, a path that comes back to one of its nodes leaves it active, a node that fails fails it.
  \<^item> \<open>Operations\<close>: \<open>runtime/migration.py\<close>, \<open>dynamic_injection.py\<close>, \<open>listeners.py\<close>, \<open>async_continuation.py\<close>, \<open>command.py\<close>,
    \<open>compensation.py\<close> and \<open>error_handler.py\<close>.  Suspending and resuming batches of instances refines an abstract batch; which
    listeners an event invokes; when a job fails; what undoing and rolling back do; which migrations are refused.
  \<^item> \<open>StateMachines\<close>: \<open>state_machine/\<close>, on top of the engine as well.  Which transition is taken, that the history of a
    run is a path of declared and enabled transitions, how climbing the hierarchy ends, and that a run always raises.
  \<^item> \<open>Cases\<close>: \<open>cmmn/sentry_evaluator.py\<close>, \<open>case_executor.py\<close> and \<open>engine.py\<close> on top of the engine.  A sentry is satisfied exactly
    by the events recorded so far; how a case ends; the operations follow the table of case states.  Locale \<open>case_invariant\<close>: what the
    steps of a run keep holds after the run; interpreted for the state of the instance and for the stages of the executor.
  \<^item> \<open>CaseHandlers\<close>: the handlers of stages, milestones, tasks, planning tables, discretionary items and case files in \<open>cmmn/\<close>.
    Which items are offered, and that evaluating milestones reaches all of them.

  \<^bold>\<open>Termination, bounds and fuel.\<close>  The walks up and down the tree of contexts end because a child has a greater
  address than its parent; the heap algorithms by the distance to the root or to the leaves; the retry loop by
  the attempts left; the topological sort because every turn takes a decision off the queue, and a decision
  enters the queue when its count of open requirements falls to zero.  \<open>destroy\<close> takes a recursion depth, as Python's stack does, and the theorems about it
  hold for every depth that is at least the number of contexts.  The loop of a process has the source's own limit of 200
  turns, and the theorems hold for every path within it; the loop of a state machine has the limit of its definition.
  Climbing the hierarchy of states may not end and is a partial function; the theorem says when it ends.  No other definition uses fuel.

  \<^bold>\<open>Properties and their kinds.\<close>  Functional behaviour on every branch (commit, split, merge, delivery, due tasks,
  correlation, scoping), refinement of abstract lifecycles, invariants over all reachable states, equivalence of
  indexed queries with the scan they stand for, round trips through the records, bounds of windows and buffers,
  liveness of delivery and of buffered messages, and error behaviour, including defects: theorems that state what
  the code does where that is not what it means to do are marked as such in their text.

  \<^bold>\<open>Not modelled.\<close>  The exports to the document library, log messages and \<open>__repr__\<close>; the durable back ends
  behind the repositories; the XML parser of BPMN, a parameter; the executors of choreographies, decision tables and event processing networks,
  which rest on the document models; the paths of the state machine and case executors that take OSDM objects, which their engines do
  not call; the API, connectors and monitoring, mostly input and output; and the
  other engines of the repository (documents, agents, knowledge, storage), which wrap third-party libraries.

  \<^bold>\<open>Plan.\<close>  What is left to extend: the executor of event processing networks.
\<close>

end
